(* ===== verification/Helmet_Prelude.thy ===== *)
theory Helmet_Prelude
  imports Main "HOL-Library.Signed_Division"
begin

text \<open>
  Shared vocabulary of the development: the C integer conversions of the firmware
  (\<^verbatim>\<open>csrtypes.h\<close>: \<open>uint8\<close>, \<open>uint16\<close>, \<open>uint32\<close>, \<open>int16\<close>, \<open>int32\<close>), the range
  predicates of these types, C's truncating division, and generic facts on loops
  written as \<open>fold\<close> over an index range.

  Machine integers are HOL integers with every conversion written out: \<open>u16 x\<close> is the
  C expression \<^verbatim>\<open>(uint16)x\<close>, \<open>s32 x\<close> is the two's complement value of an \<open>int32\<close>
  computation, and so on. \<open>sdiv\<close> (HOL-Library.Signed_Division) is C's \<^verbatim>\<open>/\<close>: it
  truncates towards zero. Flags that the C code keeps in a \<open>uint8\<close> and only compares
  with zero are HOL booleans.
\<close>

named_theorems crange \<open>definitions of the C type ranges\<close>
named_theorems ccast \<open>conversions that are the identity on values in range\<close>

section \<open>Conversions\<close>

definition u8 :: "int \<Rightarrow> int" where
  "u8 x = x mod 256"

definition u16 :: "int \<Rightarrow> int" where
  "u16 x = x mod 65536"

definition u32 :: "int \<Rightarrow> int" where
  "u32 x = x mod 4294967296"

definition s16 :: "int \<Rightarrow> int" where
  "s16 x = (x + 32768) mod 65536 - 32768"

definition s32 :: "int \<Rightarrow> int" where
  "s32 x = (x + 2147483648) mod 4294967296 - 2147483648"

definition is_u8 :: "int \<Rightarrow> bool" where
  [crange]: "is_u8 x \<longleftrightarrow> 0 \<le> x \<and> x < 256"

definition is_u16 :: "int \<Rightarrow> bool" where
  [crange]: "is_u16 x \<longleftrightarrow> 0 \<le> x \<and> x < 65536"

definition is_u32 :: "int \<Rightarrow> bool" where
  [crange]: "is_u32 x \<longleftrightarrow> 0 \<le> x \<and> x < 4294967296"

definition is_s16 :: "int \<Rightarrow> bool" where
  [crange]: "is_s16 x \<longleftrightarrow> - 32768 \<le> x \<and> x \<le> 32767"

definition is_s32 :: "int \<Rightarrow> bool" where
  [crange]: "is_s32 x \<longleftrightarrow> - 2147483648 \<le> x \<and> x \<le> 2147483647"

lemma u8_id [simp, ccast]: "0 \<le> x \<Longrightarrow> x < 256 \<Longrightarrow> u8 x = x"
  by (simp add: u8_def)

lemma u16_id [simp, ccast]: "0 \<le> x \<Longrightarrow> x < 65536 \<Longrightarrow> u16 x = x"
  by (simp add: u16_def)

lemma u32_id [simp, ccast]: "0 \<le> x \<Longrightarrow> x < 4294967296 \<Longrightarrow> u32 x = x"
  by (simp add: u32_def)

lemma s16_id [simp, ccast]: "- 32768 \<le> x \<Longrightarrow> x \<le> 32767 \<Longrightarrow> s16 x = x"
  by (simp add: s16_def)

lemma s32_id [simp, ccast]: "- 2147483648 \<le> x \<Longrightarrow> x \<le> 2147483647 \<Longrightarrow> s32 x = x"
  by (simp add: s32_def)

lemma s32_abs: "\<bar>x\<bar> \<le> 2147483647 \<Longrightarrow> s32 x = x"
  by (intro s32_id) linarith+

lemma is_u8_u8 [simp]: "is_u8 (u8 x)"
  by (simp add: u8_def crange)

lemma is_u16_u16 [simp]: "is_u16 (u16 x)"
  by (simp add: u16_def crange)

lemma is_u32_u32 [simp]: "is_u32 (u32 x)"
  by (simp add: u32_def crange)

lemma is_s16_s16 [simp]: "is_s16 (s16 x)"
  using pos_mod_bound [of 65536 "x + 32768"] pos_mod_sign [of 65536 "x + 32768"]
  by (simp add: s16_def crange)

lemma is_s32_s32 [simp]: "is_s32 (s32 x)"
  using pos_mod_bound [of 4294967296 "x + 2147483648"]
    pos_mod_sign [of 4294967296 "x + 2147483648"]
  by (simp add: s32_def crange)

lemma u16_ge0 [simp]: "0 \<le> u16 x" and u16_less [simp]: "u16 x < 65536"
  and u16_le [simp]: "u16 x \<le> 65535"
  using is_u16_u16 [of x] by (simp_all add: crange del: is_u16_u16)

lemma u8_ge0 [simp]: "0 \<le> u8 x" and u8_less [simp]: "u8 x < 256"
  using is_u8_u8 [of x] by (simp_all add: crange del: is_u8_u8)

lemma u32_ge0 [simp]: "0 \<le> u32 x" and u32_less [simp]: "u32 x < 4294967296"
  using is_u32_u32 [of x] by (simp_all add: crange del: is_u32_u32)

text \<open>The sources write absolute values as a conditional negation.\<close>

lemma abs_cond: "(if d < 0 then - d else d) = \<bar>d :: int\<bar>"
  by simp

lemma abs_diff_cond: "(if a > b then a - b else b - a) = \<bar>a - b :: int\<bar>"
  by simp

lemma abs_s16: "is_s16 x \<Longrightarrow> \<bar>x\<bar> \<le> 32768"
  by (auto simp: crange)

lemma u16D: "is_u16 x \<Longrightarrow> 0 \<le> x" "is_u16 x \<Longrightarrow> x \<le> 65535"
  by (auto simp: crange)

section \<open>Truncating division\<close>

lemma sdiv_pos: "0 \<le> a \<Longrightarrow> 0 < b \<Longrightarrow> a sdiv b = a div (b::int)"
  by (simp add: signed_divide_int_def sgn_if)

lemma sdiv_neg: "a < 0 \<Longrightarrow> 0 < b \<Longrightarrow> a sdiv b = - ((- a) div (b::int))"
  by (simp add: signed_divide_int_def sgn_if)

lemma sdiv_split: "0 < b \<Longrightarrow> a sdiv b = (if 0 \<le> a then a div b else - ((- a) div (b::int)))"
  by (simp add: sdiv_pos sdiv_neg)

text \<open>The quotient is the real quotient rounded towards zero.\<close>

lemma sdiv_abs_le:
  assumes "0 < (b::int)"
  shows "\<bar>a sdiv b\<bar> * b \<le> \<bar>a\<bar>"
proof (cases "0 \<le> a")
  case True
  with assms show ?thesis
    by (simp add: sdiv_pos pos_imp_zdiv_nonneg_iff minus_mod_eq_div_mult [symmetric])
next
  case False
  moreover from this assms have "0 \<le> (- a) div b"
    by (simp add: pos_imp_zdiv_nonneg_iff)
  ultimately show ?thesis using assms
    by (simp add: sdiv_neg minus_mod_eq_div_mult [symmetric])
qed

lemma abs_sdiv_le:
  assumes "0 < (b::int)" "\<bar>a\<bar> \<le> b * B"
  shows "\<bar>a sdiv b\<bar> \<le> B"
proof -
  have "\<bar>a sdiv b\<bar> * b \<le> \<bar>a\<bar>" by (rule sdiv_abs_le [OF assms(1)])
  also have "\<dots> \<le> B * b" using assms(2) by (simp only: mult.commute)
  finally show ?thesis using assms(1) by (rule mult_right_le_imp_le)
qed

lemma sdiv_between:
  assumes "0 < (b::int)" "0 \<le> c" "c \<le> b"
  shows "min 0 d \<le> (d * c) sdiv b" "(d * c) sdiv b \<le> max 0 d"
proof -
  have le: "(e * c) div b \<le> e" if "0 \<le> e" for e :: int
  proof -
    have "e * c \<le> e * b" using that assms by (intro mult_left_mono)
    then have "(e * c) div b \<le> (e * b) div b" using assms by (intro zdiv_mono1)
    then show ?thesis using assms by simp
  qed
  have ge: "0 \<le> (e * c) div b" if "0 \<le> e" for e :: int
    using that assms by (simp add: pos_imp_zdiv_nonneg_iff)
  consider "0 \<le> d" | "d < 0" by linarith
  then have "min 0 d \<le> (d * c) sdiv b \<and> (d * c) sdiv b \<le> max 0 d"
  proof cases
    case 1
    with le [of d] ge [of d] assms show ?thesis by (simp add: sdiv_pos)
  next
    case 2
    show ?thesis
    proof (cases "c = 0")
      case False
      with 2 assms have "d * c < 0" by (simp add: mult_neg_pos)
      with le [of "- d"] ge [of "- d"] 2 assms show ?thesis by (simp add: sdiv_neg)
    qed (use 2 assms in \<open>simp add: sdiv_pos\<close>)
  qed
  then show "min 0 d \<le> (d * c) sdiv b" "(d * c) sdiv b \<le> max 0 d" by simp_all
qed

lemma sdiv_square_le:
  assumes "0 < (b::int)"
  shows "(a sdiv b)\<^sup>2 * b\<^sup>2 \<le> a\<^sup>2"
proof -
  have "(\<bar>a sdiv b\<bar> * b)\<^sup>2 \<le> \<bar>a\<bar>\<^sup>2"
    using sdiv_abs_le [OF assms, of a] assms by (intro power_mono) auto
  then show ?thesis by (simp add: power_mult_distrib)
qed

lemma div_less_mult:
  assumes "0 < (d::int)" "r < c * d"
  shows "r div d < c"
proof (rule ccontr)
  assume "\<not> r div d < c"
  then have "c * d \<le> r div d * d" using assms(1) by (intro mult_right_mono) auto
  also have "\<dots> \<le> r" using assms(1) by (simp add: minus_mod_eq_div_mult [symmetric])
  finally show False using assms(2) by simp
qed

section \<open>Finite tables\<close>

text \<open>A fact about every index of a finite range, checked by evaluation and used pointwise.\<close>

lemma list_all_uptD: "list_all P [a..<b] \<Longrightarrow> a \<le> i \<Longrightarrow> i < b \<Longrightarrow> P i"
  by (simp add: list_all_iff)

lemma list_all_upt0D: "list_all P [0..<b] \<Longrightarrow> i < b \<Longrightarrow> P i"
  by (simp add: list_all_iff)

end
