(* ===== verification/Dsp.thy ===== *)
theory Dsp
  imports Helmet_Prelude
begin

text \<open>
  The arithmetic kernel of \<^verbatim>\<open>smart_helmet_vitals.c\<close>: the bitwise integer square root,
  the saturating accumulator, the window statistics (RMS deviation, energy, mean
  absolute value, maximum), the one-pole high-pass filter, the interval and bin to BPM
  conversions and the parabolic peak refinement. Buffers are lists; \<open>n\<close> is the number of
  valid leading entries, as in the C signatures.
\<close>

section \<open>Integer square root\<close>

text \<open>\<^verbatim>\<open>shSqrtU32\<close>, its alignment loop \<open>while (one > op) one >>= 2\<close> and its main loop.\<close>

fun shSqrt_align :: "nat \<Rightarrow> nat \<Rightarrow> nat" where
  "shSqrt_align op one = (if op < one then shSqrt_align op (one div 4) else one)"

declare shSqrt_align.simps [simp del]

function shSqrt_loop :: "nat \<Rightarrow> nat \<Rightarrow> nat \<Rightarrow> nat" where
  "shSqrt_loop op res one =
     (if one \<noteq> 0 then
        let t = (res + one) mod 2 ^ 32 in
        if t \<le> op then shSqrt_loop (op - t) (res div 2 + one) (one div 4)
        else shSqrt_loop op (res div 2) (one div 4)
      else res)"
  by pat_completeness auto
termination
  by (relation "measure (\<lambda>(op, res, one). one)") auto

declare shSqrt_loop.simps [simp del]

definition shSqrtU32 :: "int \<Rightarrow> int" where
  "shSqrtU32 v = u16 (int (shSqrt_loop (nat v) 0 (shSqrt_align (nat v) (2 ^ 30))))"

text \<open>
  One step of the digit-by-digit method: with \<open>one = 4 ^ k\<close> and a partial root \<open>R\<close> that is a
  multiple of \<open>2 ^ (k+1)\<close>, \<open>res\<close> is \<open>R * 2 ^ (k+1)\<close> and \<open>op\<close> the remainder \<open>v - R\<^sup>2\<close>.
\<close>

definition sqrt_inv :: "nat \<Rightarrow> nat \<Rightarrow> nat \<Rightarrow> nat \<Rightarrow> nat \<Rightarrow> bool" where
  "sqrt_inv v R k op res \<longleftrightarrow>
     res = R * 2 ^ k \<and> op + R * R = v \<and> v < (R + 2 ^ k) * (R + 2 ^ k) \<and>
     R + 2 ^ k \<le> 2 ^ 16"

lemma sqrt_inv_step:
  assumes inv: "sqrt_inv v R (Suc k) op res"
  defines "t \<equiv> res + 4 ^ k"
  shows "t < 2 ^ 32"
    and "t \<le> op \<Longrightarrow> sqrt_inv v (R + 2 ^ k) k (op - t) (res div 2 + 4 ^ k)"
    and "\<not> t \<le> op \<Longrightarrow> sqrt_inv v R k op (res div 2)"
proof -
  let ?b = "2 ^ k :: nat"
  have b: "4 ^ k = ?b * ?b" "(2::nat) ^ Suc k = 2 * ?b"
    by (simp_all add: power_mult_distrib [symmetric])
  from inv have res: "res = 2 * (R * ?b)" and op: "op + R * R = v"
    and ub: "v < (R + 2 * ?b) * (R + 2 * ?b)" and R: "R + 2 * ?b \<le> 2 ^ 16"
    by (simp_all add: sqrt_inv_def b)
  have t: "t + R * R = (R + ?b) * (R + ?b)"
    by (simp add: t_def res b algebra_simps)
  have "0 < ?b" by simp
  with R have "R + ?b < 2 ^ 16" by linarith
  then have "(R + ?b) * (R + ?b) < (2 ^ 16) * 2 ^ 16"
    by (intro mult_strict_mono) auto
  then show "t < 2 ^ 32" using t by simp
  show "sqrt_inv v (R + ?b) k (op - t) (res div 2 + 4 ^ k)" if "t \<le> op"
    using that op t ub R by (simp add: sqrt_inv_def res b algebra_simps)
  show "sqrt_inv v R k op (res div 2)" if "\<not> t \<le> op"
    using that op t ub R by (simp add: sqrt_inv_def res algebra_simps)
qed

lemma shSqrt_loop_root:
  "sqrt_inv v R k op res \<Longrightarrow> k \<le> 16 \<Longrightarrow>
   \<exists>r. shSqrt_loop op res (if k = 0 then 0 else 4 ^ (k - 1)) = r \<and>
       r * r \<le> v \<and> v < (r + 1) * (r + 1) \<and> r < 2 ^ 16"
proof (induction k arbitrary: R op res)
  case 0
  then show ?case by (simp add: sqrt_inv_def shSqrt_loop.simps)
next
  case (Suc k)
  note step = sqrt_inv_step [OF Suc.prems(1)]
  let ?t = "res + 4 ^ k"
  have next_one: "(4 ^ k :: nat) div 4 = (if k = 0 then 0 else 4 ^ (k - 1))"
    by (cases k) auto
  show ?case
  proof (cases "?t \<le> op")
    case True
    from Suc.IH [OF step(2) [OF True]] Suc.prems(2) show ?thesis
      using True step(1) next_one
      by (simp add: shSqrt_loop.simps [of op res "4 ^ k"])
  next
    case False
    from Suc.IH [OF step(3) [OF False]] Suc.prems(2) show ?thesis
      using False step(1) next_one
      by (simp add: shSqrt_loop.simps [of op res "4 ^ k"])
  qed
qed

text \<open>The alignment loop skips exactly the digits that are zero.\<close>

lemma shSqrt_align_pow:
  "k \<le> 16 \<Longrightarrow> v < 4 ^ k \<Longrightarrow>
   \<exists>j \<le> k. shSqrt_align v (if k = 0 then 0 else 4 ^ (k - 1)) =
       (if j = 0 then 0 else 4 ^ (j - 1)) \<and> v < 4 ^ j"
proof (induction k)
  case 0
  then show ?case by (simp add: shSqrt_align.simps)
next
  case (Suc k)
  have next_one: "(4 ^ k :: nat) div 4 = (if k = 0 then 0 else 4 ^ (k - 1))"
    by (cases k) auto
  show ?case
  proof (cases "v < 4 ^ k")
    case True
    from Suc.IH [OF _ True] Suc.prems(1) obtain j where "j \<le> k"
      "shSqrt_align v (if k = 0 then 0 else 4 ^ (k - 1)) = (if j = 0 then 0 else 4 ^ (j - 1))"
      "v < 4 ^ j" by auto
    with True show ?thesis
      by (intro exI [of _ j]) (simp add: shSqrt_align.simps [of v "4 ^ k"] next_one)
  next
    case False
    with Suc.prems show ?thesis
      by (intro exI [of _ "Suc k"]) (simp add: shSqrt_align.simps [of v "4 ^ k"])
  qed
qed

lemma shSqrtU32_root:
  assumes "is_u32 v"
  shows "shSqrtU32 v * shSqrtU32 v \<le> v" and "v < (shSqrtU32 v + 1) * (shSqrtU32 v + 1)"
    and "is_u16 (shSqrtU32 v)"
proof -
  let ?v = "nat v"
  have "?v < 4 ^ 16" using assms by (auto simp: crange nat_less_iff)
  from shSqrt_align_pow [OF _ this, of] obtain j where j: "j \<le> 16"
    "shSqrt_align ?v (2 ^ 30) = (if j = 0 then 0 else 4 ^ (j - 1))" "?v < 4 ^ j"
    by auto
  have "sqrt_inv ?v 0 j ?v 0"
    using j power_increasing [of j 16 "2::nat"]
    by (simp add: sqrt_inv_def power_mult_distrib [symmetric])
  from shSqrt_loop_root [OF this j(1)] obtain r where r:
    "shSqrt_loop ?v 0 (shSqrt_align ?v (2 ^ 30)) = r" "r * r \<le> ?v" "?v < (r + 1) * (r + 1)"
    "r < 2 ^ 16" using j(2) by auto
  have eq: "shSqrtU32 v = int r" using r(1,4) by (simp add: shSqrtU32_def)
  have "int (r * r) \<le> v" "v < int ((r + 1) * (r + 1))"
    using r(2,3) assms by (auto simp: crange zle_int [symmetric] nat_less_iff simp del: zle_int of_nat_mult)
  then show "shSqrtU32 v * shSqrtU32 v \<le> v"
    "v < (shSqrtU32 v + 1) * (shSqrtU32 v + 1)" "is_u16 (shSqrtU32 v)"
    using r(4) by (simp_all add: eq crange algebra_simps)
qed

section \<open>Accumulators and window statistics\<close>

definition shAccSat :: "int \<Rightarrow> int \<Rightarrow> int" where
  "shAccSat acc trm = (let s = u32 (acc + trm) in if s < acc then 0xffffffff else s)"

definition shRmsDevU16 :: "int list \<Rightarrow> nat \<Rightarrow> int" where
  "shRmsDevU16 buf n =
     (if n = 0 then 0
      else let total = fold (\<lambda>i s. u32 (s + buf ! i)) [0..<n] 0;
               mean = total div int n;
               sum2 = fold (\<lambda>i s. let d = s32 (buf ! i - s32 mean) in shAccSat s (u32 (d * d)))
                        [0..<n] 0
           in shSqrtU32 (sum2 div int n))"

definition shEnergyI16 :: "int list \<Rightarrow> nat \<Rightarrow> int" where
  "shEnergyI16 buf n =
     (if n = 0 then 0
      else let total = fold (\<lambda>i s. let v = buf ! i in shAccSat s (u32 (v * v))) [0..<n] 0;
               mean = total div int n
           in if mean > 0xffff then 0xffff else u16 mean)"

definition shMeanAbsI16 :: "int list \<Rightarrow> nat \<Rightarrow> int" where
  "shMeanAbsI16 buf n =
     (if n = 0 then 0
      else let total = fold (\<lambda>i s. let v = buf ! i; v' = (if v < 0 then - v else v)
                                 in u32 (s + u32 v')) [0..<n] 0
           in u16 (total div int n))"

definition shMaxAbsI16 :: "int list \<Rightarrow> nat \<Rightarrow> int" where
  "shMaxAbsI16 x n =
     fold (\<lambda>i m. let v = x ! i; v' = (if v < 0 then - v else v)
                 in if u32 v' > m then u16 v' else m) [0..<n] 0"

section \<open>High-pass filter\<close>

text \<open>
  \<^verbatim>\<open>shHighPass\<close> returns the clamped sample together with the new \<open>*prev_x\<close> and \<open>*prev_y\<close>
  (the unclamped output).
\<close>

definition clamp_s16 :: "int \<Rightarrow> int" where
  "clamp_s16 y = (let y1 = (if y > 32767 then 32767 else y) in if y1 < - 32768 then - 32768 else y1)"

definition shHighPass :: "int \<Rightarrow> int \<Rightarrow> int \<Rightarrow> int \<times> int \<times> int" where
  "shHighPass x prev_x prev_y =
     (let y = s32 (s32 (x - prev_x) + s32 (prev_y * 243) sdiv 256)
      in (s16 (clamp_s16 y), x, y))"

section \<open>Rate conversions and peak refinement\<close>

definition shIntervalQ8ToBpm :: "int \<Rightarrow> int \<Rightarrow> int" where
  "shIntervalQ8ToBpm fs_q8 interval_q8 =
     (if interval_q8 = 0 then 0 else u16 (u32 (60 * fs_q8) div interval_q8))"

definition shBinQ8ToBpm :: "int \<Rightarrow> int \<Rightarrow> int" where
  "shBinQ8ToBpm fs_q8 k_q8 = u16 (u32 (u32 (k_q8 * 60) * (fs_q8 div 16)) div (64 * 4096))"

definition shParabolicDeltaQ8 :: "int \<Rightarrow> int \<Rightarrow> int \<Rightarrow> int" where
  "shParabolicDeltaQ8 a b c =
     (let denom = s32 (a - 2 * b + c) in
      if denom \<ge> 0 then 0
      else let d = s32 ((a - c) * 128) sdiv denom;
               d1 = (if d > 128 then 128 else d);
               d2 = (if d1 < - 128 then - 128 else d1)
           in s16 d2)"

function shFitScale3_loop :: "int \<Rightarrow> int \<Rightarrow> int \<Rightarrow> int \<Rightarrow> int \<times> int \<times> int" where
  "shFitScale3_loop m a b c =
     (if m > 0x000fffff then shFitScale3_loop (m div 2) (a div 2) (b div 2) (c div 2)
      else (a, b, c))"
  by pat_completeness auto
termination
  by (relation "measure (\<lambda>(m, a, b, c). nat m)") auto

declare shFitScale3_loop.simps [simp del]

definition shFitScale3 :: "int \<Rightarrow> int \<Rightarrow> int \<Rightarrow> int \<times> int \<times> int" where
  "shFitScale3 a b c =
     (let m = a; m1 = (if b > m then b else m); m2 = (if c > m1 then c else m1)
      in shFitScale3_loop m2 a b c)"

section \<open>What the kernel computes\<close>

lemma fold_upt_sum:
  fixes f :: "nat \<Rightarrow> int"
  assumes "\<And>i s. i < n \<Longrightarrow> 0 \<le> s \<Longrightarrow> s \<le> (\<Sum>j<n. f j) \<Longrightarrow> s + f i \<le> (\<Sum>j<n. f j) \<Longrightarrow> step i s = s + f i"
    and "\<And>i. i < n \<Longrightarrow> 0 \<le> f i"
  shows "fold step [0..<n] 0 = (\<Sum>i<n. f i)"
proof -
  have part: "(\<Sum>j<k. f j) \<le> (\<Sum>j<n. f j)" if "k \<le> n" for k
    using that assms(2) by (intro sum_mono2) auto
  have "fold step [0..<k] 0 = (\<Sum>i<k. f i)" if "k \<le> n" for k
    using that
  proof (induction k)
    case (Suc k)
    have "0 \<le> (\<Sum>i<k. f i)" using Suc.prems assms(2) by (intro sum_nonneg) auto
    with Suc part [of k] part [of "Suc k"] show ?case
      by (simp add: assms(1))
  qed simp
  then show ?thesis by simp
qed

lemma u32_wrap: "4294967296 \<le> x \<Longrightarrow> x < 8589934592 \<Longrightarrow> u32 x = x - 4294967296"
  using mod_pos_pos_trivial [of "x - 4294967296" 4294967296]
  by (simp add: u32_def minus_mod_self2)

lemma shAccSat_min:
  "is_u32 s \<Longrightarrow> is_u32 t \<Longrightarrow> shAccSat s t = min (s + t) 0xffffffff"
  by (cases "s + t < 4294967296") (auto simp: shAccSat_def crange u32_wrap)

lemma fold_shAccSat:
  assumes "\<And>i. i < n \<Longrightarrow> is_u32 (f i)"
  shows "fold (\<lambda>i s. shAccSat s (f i)) [0..<n] 0 = min (\<Sum>i<n. f i) 0xffffffff"
  using assms
proof (induction n)
  case (Suc n)
  have pos: "0 \<le> (\<Sum>i<n. f i)" using Suc.prems by (intro sum_nonneg) (auto simp: crange)
  then have acc: "is_u32 (min (\<Sum>i<n. f i) 0xffffffff)" by (simp add: crange)
  have fn: "is_u32 (f n)" using Suc.prems by simp
  have "min (min a 0xffffffff + b) 0xffffffff = min (a + b) 0xffffffff"
    if "0 \<le> b" for a b :: int using that by (simp add: min_def)
  with fn have "min (min (\<Sum>i<n. f i) 0xffffffff + f n) 0xffffffff =
      min ((\<Sum>i<n. f i) + f n) 0xffffffff" by (simp add: crange)
  with Suc.IH Suc.prems show ?case by (simp add: shAccSat_min [OF acc fn])
qed simp

lemma sum_bound_upt:
  fixes f :: "nat \<Rightarrow> int"
  assumes "\<And>i. i < n \<Longrightarrow> f i \<le> B"
  shows "(\<Sum>i<n. f i) \<le> int n * B"
  using sum_bounded_above [of "{..<n}" f B] assms by auto

lemma square_s16: "is_s16 x \<Longrightarrow> x * x \<le> 1073741824"
  using abs_le_square_iff [of x 32768] by (auto simp: crange power2_eq_square abs_le_iff)

lemma square_diff_u16: "is_u16 x \<Longrightarrow> is_u16 y \<Longrightarrow> (x - y) * (x - y) \<le> 4294836225"
  using abs_le_square_iff [of "x - y" 65535] by (auto simp: crange power2_eq_square abs_le_iff)

lemma shEnergyI16_eq:
  assumes "0 < n" and "\<And>i. i < n \<Longrightarrow> is_s16 (buf ! i)"
  shows "shEnergyI16 buf n = min (min (\<Sum>i<n. (buf ! i) * (buf ! i)) 0xffffffff div int n) 0xffff"
proof -
  have sq: "u32 ((buf ! i) * (buf ! i)) = (buf ! i) * (buf ! i)" if "i < n" for i
    using square_s16 [OF assms(2) [OF that]] by simp
  have "fold (\<lambda>i s. shAccSat s (u32 (buf ! i * buf ! i))) [0..<n] 0 =
      min (\<Sum>i<n. u32 ((buf ! i) * (buf ! i))) 0xffffffff"
    by (rule fold_shAccSat) simp
  also have "(\<Sum>i<n. u32 ((buf ! i) * (buf ! i))) = (\<Sum>i<n. (buf ! i) * (buf ! i))"
    by (rule sum.cong) (auto simp: sq)
  finally show ?thesis using assms(1)
    by (auto simp: shEnergyI16_def Let_def min_def pos_imp_zdiv_nonneg_iff sum_nonneg)
qed

lemma shMeanAbsI16_eq:
  assumes "0 < n" and "n \<le> 255" and "\<And>i. i < n \<Longrightarrow> is_s16 (buf ! i)"
  shows "shMeanAbsI16 buf n = (\<Sum>i<n. \<bar>buf ! i\<bar>) div int n"
    and "0 \<le> shMeanAbsI16 buf n" and "shMeanAbsI16 buf n \<le> 32768"
proof -
  let ?S = "\<Sum>i<n. \<bar>buf ! i\<bar>"
  have S: "0 \<le> ?S" "?S \<le> int n * 32768"
    by (auto intro!: sum_nonneg sum_bound_upt abs_s16 assms(3))
  have lim: "int n * 32768 < 4294967296" using assms(2) by simp
  have "fold (\<lambda>i s. u32 (s + u32 (if buf ! i < 0 then - (buf ! i) else buf ! i))) [0..<n] 0 = ?S"
  proof (rule fold_upt_sum)
    fix i s assume i: "i < n" "0 \<le> s" "s + \<bar>buf ! i\<bar> \<le> ?S"
    have "s + \<bar>buf ! i\<bar> < 4294967296" using i(3) S(2) lim by linarith
    with i assms(3) [OF i(1)] show "u32 (s + u32 (if buf ! i < 0 then - (buf ! i) else buf ! i)) = s + \<bar>buf ! i\<bar>"
      by (auto simp: crange abs_if)
  qed simp
  moreover have q: "0 \<le> ?S div int n" "?S div int n \<le> 32768"
    using S assms(1) zdiv_mono1 [OF S(2), of "int n"] by (auto simp: pos_imp_zdiv_nonneg_iff)
  ultimately show "shMeanAbsI16 buf n = ?S div int n"
    using assms(1) by (simp add: shMeanAbsI16_def Let_def)
  with q show "0 \<le> shMeanAbsI16 buf n" "shMeanAbsI16 buf n \<le> 32768" by simp_all
qed

lemma shEnergyI16_u16 [simp]: "is_u16 (shEnergyI16 buf n)"
  by (auto simp: shEnergyI16_def Let_def crange)

lemma shMeanAbsI16_u16 [simp]: "is_u16 (shMeanAbsI16 buf n)"
  by (auto simp: shMeanAbsI16_def Let_def crange)

lemma shAccSat_u32: "is_u32 s \<Longrightarrow> is_u32 (shAccSat s t)"
  using is_u32_u32 [of "s + t"] by (auto simp: shAccSat_def Let_def crange)

lemma shRmsDevU16_root:
  assumes "0 < n" and "n \<le> 255" and "\<And>i. i < n \<Longrightarrow> is_u16 (buf ! i)"
  defines "mean \<equiv> (\<Sum>i<n. buf ! i) div int n"
  defines "q \<equiv> min (\<Sum>i<n. (buf ! i - mean) * (buf ! i - mean)) 0xffffffff div int n"
  shows "shRmsDevU16 buf n = shSqrtU32 q" and "is_u32 q"
proof -
  let ?S = "\<Sum>i<n. buf ! i"
  have S: "0 \<le> ?S" "?S \<le> int n * 65535"
    by (rule sum_nonneg, simp add: u16D assms(3)) (rule sum_bound_upt, simp add: u16D assms(3))
  have lim: "int n * 65535 < 4294967296" using assms(2) by simp
  have f1: "fold (\<lambda>i s. u32 (s + buf ! i)) [0..<n] 0 = ?S"
  proof (rule fold_upt_sum)
    fix i s assume i: "i < n" "0 \<le> s" "s + buf ! i \<le> ?S"
    then have "s + buf ! i < 4294967296" using S(2) lim by linarith
    with i assms(3) [OF i(1)] show "u32 (s + buf ! i) = s + buf ! i" by (simp add: crange)
  qed (use assms(3) in \<open>auto simp: crange\<close>)
  have mean: "is_u16 mean"
    using S assms(1) zdiv_mono1 [OF S(2), of "int n"]
    by (auto simp: mean_def crange pos_imp_zdiv_nonneg_iff)
  let ?d = "\<lambda>i. buf ! i - mean"
  have d: "s32 (buf ! i - s32 mean) = ?d i" "u32 (?d i * ?d i) = ?d i * ?d i" if "i < n" for i
    using mean assms(3) [OF that] square_diff_u16 [OF assms(3) [OF that] mean]
    by (auto simp: crange)
  have "fold (\<lambda>i s. shAccSat s (u32 (s32 (buf ! i - s32 mean) * s32 (buf ! i - s32 mean)))) [0..<n] 0 =
      min (\<Sum>i<n. u32 (s32 (buf ! i - s32 mean) * s32 (buf ! i - s32 mean))) 0xffffffff"
    by (rule fold_shAccSat) simp
  also have "(\<Sum>i<n. u32 (s32 (buf ! i - s32 mean) * s32 (buf ! i - s32 mean))) = (\<Sum>i<n. ?d i * ?d i)"
    by (rule sum.cong) (auto simp: d)
  finally show "shRmsDevU16 buf n = shSqrtU32 q"
    using assms(1) by (simp add: shRmsDevU16_def Let_def f1 mean_def [symmetric] q_def)
  have "0 \<le> (\<Sum>i<n. ?d i * ?d i)" by (rule sum_nonneg) simp
  then have "0 \<le> q" "q \<le> 0xffffffff"
    using assms(1) zdiv_mono2 [of "min (\<Sum>i<n. ?d i * ?d i) 0xffffffff" 1 "int n"]
    by (auto simp: q_def pos_imp_zdiv_nonneg_iff)
  then show "is_u32 q" by (simp add: crange)
qed

lemma shRmsDevU16_u16 [simp]: "is_u16 (shRmsDevU16 buf n)"
  by (auto simp: shRmsDevU16_def shSqrtU32_def Let_def crange)

text \<open>
  The magnitude maximum is attained and bounds every sample, also for the sample
  \<open>-32768\<close>, whose magnitude does not fit an \<open>int16\<close>.
\<close>

lemma shMaxAbsI16_max:
  assumes "\<And>i. i < n \<Longrightarrow> is_s16 (x ! i)"
  shows "(\<forall>i<n. \<bar>x ! i\<bar> \<le> shMaxAbsI16 x n) \<and> 0 \<le> shMaxAbsI16 x n \<and>
    (shMaxAbsI16 x n = 0 \<or> (\<exists>i<n. shMaxAbsI16 x n = \<bar>x ! i\<bar>)) \<and> shMaxAbsI16 x n \<le> 32768"
  using assms
proof (induction n)
  case 0
  then show ?case by (simp add: shMaxAbsI16_def)
next
  case (Suc n)
  let ?v = "if x ! n < 0 then - (x ! n) else x ! n"
  have v: "?v = \<bar>x ! n\<bar>" by simp
  have "is_s16 (x ! n)" using Suc.prems by simp
  then have b: "0 \<le> \<bar>x ! n\<bar>" "\<bar>x ! n\<bar> \<le> 32768" by (auto simp: crange)
  have step: "shMaxAbsI16 x (Suc n) = max (shMaxAbsI16 x n) \<bar>x ! n\<bar>"
    using b by (simp add: shMaxAbsI16_def Let_def v)
  have IH: "(\<forall>i<n. \<bar>x ! i\<bar> \<le> shMaxAbsI16 x n) \<and> 0 \<le> shMaxAbsI16 x n \<and>
    (shMaxAbsI16 x n = 0 \<or> (\<exists>i<n. shMaxAbsI16 x n = \<bar>x ! i\<bar>)) \<and> shMaxAbsI16 x n \<le> 32768"
    using Suc.IH Suc.prems by simp
  show ?case unfolding step using IH b
    by (auto simp: less_Suc_eq max_def)
qed

section \<open>Filter stability\<close>

text \<open>
  The recursion \<open>y = x - x' + y' * 243 / 256\<close> of the high-pass is driven by values in
  \<open>0..65535\<close> (millivolts or a milli-g magnitude). Its state stays inside
  \<open>hp_bound\<close> whatever the input, so neither the product nor the sum ever
  leaves \<open>int32\<close>: the conversions in \<^const>\<open>shHighPass\<close> are the identity.
\<close>

definition hp_bound :: int where
  "hp_bound = 1290536"

definition hp_inv :: "int \<Rightarrow> int \<Rightarrow> bool" where
  "hp_inv prev_x prev_y \<longleftrightarrow> is_u16 prev_x \<and> \<bar>prev_y\<bar> \<le> hp_bound"

lemma hp_inv_0 [simp]: "hp_inv 0 0"
  by (simp add: hp_inv_def hp_bound_def crange)

lemma shHighPass_exact:
  assumes "hp_inv px py" and "is_u16 x"
  shows "shHighPass x px py =
      (let y = x - px + (py * 243) sdiv 256 in (clamp_s16 y, x, y))"
    and "\<bar>x - px + (py * 243) sdiv 256\<bar> \<le> hp_bound"
proof -
  let ?q = "(py * 243) sdiv 256"
  have px: "\<bar>x - px\<bar> \<le> 65535" and py: "\<bar>py\<bar> \<le> 1290536"
    using assms by (auto simp: hp_inv_def hp_bound_def crange abs_le_iff)
  have "\<bar>?q\<bar> * 256 \<le> \<bar>py * 243\<bar>" by (rule sdiv_abs_le) simp
  also have "\<dots> \<le> 1290536 * 243" using py by (simp add: abs_mult)
  finally have q: "\<bar>?q\<bar> * 256 \<le> 1290536 * 243" .
  show "\<bar>x - px + ?q\<bar> \<le> hp_bound"
    using px q abs_triangle_ineq [of "x - px" ?q] unfolding hp_bound_def by linarith
  then have y: "\<bar>x - px + ?q\<bar> \<le> 1290536" by (simp add: hp_bound_def)
  have "s32 (py * 243) = py * 243" "s32 (x - px) = x - px" "s32 (x - px + ?q) = x - px + ?q"
    using px py y by (auto simp: abs_le_iff)
  moreover have "s16 (clamp_s16 z) = clamp_s16 z" for z
    by (auto simp: clamp_s16_def Let_def)
  ultimately show "shHighPass x px py = (let y = x - px + ?q in (clamp_s16 y, x, y))"
    by (simp add: shHighPass_def Let_def)
qed

lemma clamp_s16_range [simp]: "is_s16 (clamp_s16 y)"
  by (auto simp: clamp_s16_def Let_def crange)

lemma shHighPass_inv:
  assumes "hp_inv px py" and "is_u16 x" and "shHighPass x px py = (hp, px', py')"
  shows "is_s16 hp" and "hp_inv px' py'" and "px' = x"
  using shHighPass_exact [OF assms(1,2)] assms(2,3) by (auto simp: Let_def hp_inv_def)

section \<open>Parabolic refinement\<close>

lemma shParabolicDeltaQ8_half: "\<bar>shParabolicDeltaQ8 a b c\<bar> \<le> 128"
  by (auto simp: shParabolicDeltaQ8_def Let_def)

lemma shFitScale3_loop_shift:
  "0 \<le> m \<Longrightarrow> \<exists>k. shFitScale3_loop m a b c = (a div 2 ^ k, b div 2 ^ k, c div 2 ^ k) \<and>
     m div 2 ^ k \<le> 0xfffff \<and> (k = 0 \<or> 0xfffff < m div 2 ^ (k - 1))"
proof (induction m a b c rule: shFitScale3_loop.induct)
  case (1 m a b c)
  show ?case
  proof (cases "m > 0x000fffff")
    case True
    from "1.IH" [OF True] "1.prems" obtain k where
      "shFitScale3_loop (m div 2) (a div 2) (b div 2) (c div 2) =
         (a div 2 div 2 ^ k, b div 2 div 2 ^ k, c div 2 div 2 ^ k)"
      "m div 2 div 2 ^ k \<le> 0xfffff" "k = 0 \<or> 0xfffff < m div 2 div 2 ^ (k - 1)" by auto
    then show ?thesis using True
      by (intro exI [of _ "Suc k"])
        (cases k; simp add: shFitScale3_loop.simps [of m a b c] zdiv_zmult2_eq [symmetric])
  next
    case False
    then show ?thesis
      by (intro exI [of _ 0]) (simp add: shFitScale3_loop.simps [of m a b c])
  qed
qed

text \<open>All three powers are shifted by the same amount, the smallest that makes them fit 20 bits.\<close>

lemma shFitScale3_shift:
  assumes "0 \<le> a" "0 \<le> b" "0 \<le> c"
  shows "\<exists>k. shFitScale3 a b c = (a div 2 ^ k, b div 2 ^ k, c div 2 ^ k) \<and>
     max a (max b c) div 2 ^ k \<le> 0xfffff \<and> (k = 0 \<or> 0xfffff < max a (max b c) div 2 ^ (k - 1))"
proof -
  have "(let m = a; m1 = (if b > m then b else m); m2 = (if c > m1 then c else m1) in m2) =
      max a (max b c)" by (simp add: Let_def max_def)
  then show ?thesis
    using shFitScale3_loop_shift [of "max a (max b c)" a b c] assms
    by (simp add: shFitScale3_def Let_def)
qed

section \<open>Properties\<close>

text \<open>\<open>shSqrtU32\<close> is the integer square root: for every 32-bit argument the result is the
  largest number whose square does not exceed it, and it fits 16 bits.\<close>

theorem shSqrtU32_floor:
  assumes "is_u32 v"
  shows "shSqrtU32 v * shSqrtU32 v \<le> v \<and> v < (shSqrtU32 v + 1) * (shSqrtU32 v + 1) \<and> is_u16 (shSqrtU32 v)"
  using shSqrtU32_root [OF assms] by simp

theorem shSqrtU32_floor_witness:
  "is_u32 4294967295 \<and> shSqrtU32 4294967295 * shSqrtU32 4294967295 \<le> 4294967295"
  using shSqrtU32_floor [of 4294967295] by (simp add: crange)

text \<open>the window energy is the mean square with a saturating accumulator: it is exact
  until the 32-bit sum or the 16-bit result saturates, and it never wraps.\<close>

theorem shEnergyI16_saturates:
  assumes "0 < n" "\<forall>i<n. is_s16 (buf ! i)"
  shows "shEnergyI16 buf n = min (min (\<Sum>i<n. (buf ! i) * (buf ! i)) 0xffffffff div int n) 0xffff"
  using assms by (intro shEnergyI16_eq) simp_all

theorem shEnergyI16_saturates_witness:
  "shEnergyI16 [32767, -32768, 5] 3 = 65535"
  using shEnergyI16_saturates [of 3 "[32767, -32768, 5]"]
  by (simp add: crange less_Suc_eq numeral_3_eq_3)

text \<open>the high-pass filter is stable and free of overflow: from its reset state, whatever
  16-bit samples it is fed, every \<open>int32\<close> intermediate is exact (each output is the clamped
  value of the recursion over the integers) and the state stays bounded.\<close>

definition hp_step :: "int \<Rightarrow> int \<times> int \<Rightarrow> int \<times> int" where
  "hp_step x s = (let (hp, px, py) = shHighPass x (fst s) (snd s) in (px, py))"

lemma hp_run_inv:
  "\<forall>x \<in> set xs. is_u16 x \<Longrightarrow> hp_inv px py \<Longrightarrow> hp_inv (fst (fold hp_step xs (px, py))) (snd (fold hp_step xs (px, py)))"
proof (induction xs arbitrary: px py)
  case (Cons x xs)
  obtain hp px' py' where h: "shHighPass x px py = (hp, px', py')" by (metis prod_cases3)
  have "hp_inv px' py'" using shHighPass_inv(2) [OF Cons.prems(2) _ h] Cons.prems(1) by simp
  with Cons show ?case by (simp add: hp_step_def h)
qed simp

theorem shHighPass_stable:
  assumes "\<forall>x \<in> set xs. is_u16 x" "is_u16 x"
  shows "let s = fold hp_step xs (0, 0); y = x - fst s + (snd s * 243) sdiv 256
    in shHighPass x (fst s) (snd s) = (clamp_s16 y, x, y) \<and> \<bar>y\<bar> \<le> 1290536"
proof -
  have i: "hp_inv (fst (fold hp_step xs (0, 0))) (snd (fold hp_step xs (0, 0)))"
    by (rule hp_run_inv [OF assms(1)]) simp
  show ?thesis using shHighPass_exact [OF i assms(2)] by (simp add: Let_def hp_bound_def)
qed

theorem shHighPass_stable_witness:
  "shHighPass 7 (fst (fold hp_step [65535, 0] (0, 0))) (snd (fold hp_step [65535, 0] (0, 0))) = (-3152, 7, -3152)"
  using shHighPass_stable [of "[65535, 0]" 7] by code_simp

end
