(* ===== verification/Sample_Window.thy ===== *)
theory Sample_Window
  imports Helmet_Prelude
begin

text \<open>
  The circular sample buffers of \<^verbatim>\<open>smart_helmet_vitals.c\<close>. The firmware has four of
  them (\<open>motion_*\<close>, \<open>band_hp\<close>, \<open>sens_hp\<close>, \<open>resp_buf\<close>), each an array with a write index
  and a fill count: a push overwrites the slot at the index, advances the index modulo
  the array length and saturates the count. \<open>ring_ordered\<close> is the copy-out loop of
  \<open>shCopySensOrdered\<close> and \<open>shRespBpm\<close>, which lists the last \<open>n\<close> samples oldest first.

  The interface a client relies on is the locale \<open>sample_window\<close>: an abstraction of the
  window to the list of the most recent samples. It is interpreted on the ring for every
  buffer length the firmware uses.
\<close>

section \<open>The ring\<close>

record 'a ring =
  rbuf :: "'a list"
  ridx :: nat
  rcnt :: nat

definition ring_init :: "nat \<Rightarrow> 'a \<Rightarrow> 'a ring" where
  "ring_init N z = \<lparr>rbuf = replicate N z, ridx = 0, rcnt = 0\<rparr>"

definition ring_push :: "nat \<Rightarrow> 'a \<Rightarrow> 'a ring \<Rightarrow> 'a ring" where
  "ring_push N v w =
     w\<lparr>rbuf := (rbuf w)[ridx w := v],
       ridx := (ridx w + 1) mod N,
       rcnt := (if rcnt w < N then rcnt w + 1 else rcnt w)\<rparr>"

definition ring_ordered :: "nat \<Rightarrow> nat \<Rightarrow> 'a ring \<Rightarrow> 'a list" where
  "ring_ordered N n w =
     (let start = (ridx w + N - n) mod N in map (\<lambda>i. rbuf w ! ((start + i) mod N)) [0..<n])"

definition ring_inv :: "nat \<Rightarrow> 'a ring \<Rightarrow> bool" where
  "ring_inv N w \<longleftrightarrow> 0 < N \<and> length (rbuf w) = N \<and> ridx w < N \<and> rcnt w \<le> N"

text \<open>
  Until the buffer wraps, the write index equals the fill count, so the first
  \<open>rcnt\<close> slots are exactly the samples pushed. The statistics of the firmware run over
  these leading slots.
\<close>

definition ring_fill_inv :: "nat \<Rightarrow> 'a ring \<Rightarrow> bool" where
  "ring_fill_inv N w \<longleftrightarrow> ring_inv N w \<and> (rcnt w < N \<longrightarrow> ridx w = rcnt w)"

definition ring_abs :: "nat \<Rightarrow> 'a ring \<Rightarrow> 'a list" where
  "ring_abs N w = ring_ordered N (rcnt w) w"

definition last_n :: "nat \<Rightarrow> 'a list \<Rightarrow> 'a list" where
  "last_n n xs = drop (length xs - n) xs"

section \<open>Invariant\<close>

lemma ring_inv_init: "0 < N \<Longrightarrow> ring_inv N (ring_init N z)"
  by (simp add: ring_inv_def ring_init_def)

lemma ring_inv_push: "ring_inv N w \<Longrightarrow> ring_inv N (ring_push N v w)"
  by (simp add: ring_inv_def ring_push_def)

lemma ring_fill_inv_init: "0 < N \<Longrightarrow> ring_fill_inv N (ring_init N z)"
  by (simp add: ring_fill_inv_def ring_inv_def ring_init_def)

lemma ring_fill_inv_push: "ring_fill_inv N w \<Longrightarrow> ring_fill_inv N (ring_push N v w)"
  by (auto simp: ring_fill_inv_def ring_inv_def ring_push_def)

lemma ring_fill_invD [dest]: "ring_fill_inv N w \<Longrightarrow> ring_inv N w"
  by (simp add: ring_fill_inv_def)

text \<open>A predicate of all slots survives a push of a value that satisfies it.\<close>

lemma ring_all_push:
  "\<forall>x \<in> set (rbuf w). P x \<Longrightarrow> P v \<Longrightarrow> \<forall>x \<in> set (rbuf (ring_push N v w)). P x"
  using set_update_subset_insert [of "rbuf w" "ridx w" v] by (auto simp: ring_push_def)

lemma ring_all_nth: "\<forall>x \<in> set (rbuf w). P x \<Longrightarrow> i < length (rbuf w) \<Longrightarrow> P (rbuf w ! i)"
  by simp

section \<open>Reading out the window\<close>

lemma length_ring_ordered [simp]: "length (ring_ordered N n w) = n"
  by (simp add: ring_ordered_def Let_def)

lemma ring_ordered_nth:
  assumes "ring_inv N w" "n \<le> N" "i < n"
  shows "ring_ordered N n w ! i = rbuf w ! ((ridx w + N - n + i) mod N)"
  using assms by (simp add: ring_ordered_def Let_def mod_add_left_eq)

lemma mod_shift_neq:
  assumes "j < N" "0 < d" "d < N"
  shows "(j + d) mod N \<noteq> (j :: nat)"
proof (cases "j + d < N")
  case False
  then have "(j + d) mod N = j + d - N" using assms by (simp add: le_mod_geq)
  with False assms show ?thesis by arith
qed (use assms in simp)

lemma ring_ordered_push:
  assumes inv: "ring_inv N w" and n: "n < N"
  shows "ring_ordered N (Suc n) (ring_push N v w) = ring_ordered N n w @ [v]"
proof (rule nth_equalityI)
  show "length (ring_ordered N (Suc n) (ring_push N v w)) = length (ring_ordered N n w @ [v])"
    by simp
next
  fix i assume "i < length (ring_ordered N (Suc n) (ring_push N v w))"
  then have i: "i < Suc n" by simp
  let ?j = "ridx w"
  have inv': "ring_inv N (ring_push N v w)" by (rule ring_inv_push [OF inv])
  have N: "0 < N" "length (rbuf w) = N" "?j < N" using inv by (auto simp: ring_inv_def)
  have pos: "((?j + 1) mod N + N - Suc n + i) mod N = (?j + N - n + i) mod N"
  proof -
    have "((?j + 1) mod N + N - Suc n + i) mod N = ((?j + 1) mod N + (N - Suc n + i)) mod N"
      using n by (intro arg_cong [where f = "\<lambda>k. k mod N"]) arith
    also have "\<dots> = (?j + 1 + (N - Suc n + i)) mod N" by (simp add: mod_add_left_eq)
    also have "?j + 1 + (N - Suc n + i) = ?j + N - n + i" using n by simp
    finally show ?thesis .
  qed
  have lhs: "ring_ordered N (Suc n) (ring_push N v w) ! i =
      (rbuf w)[?j := v] ! ((?j + N - n + i) mod N)"
    using ring_ordered_nth [OF inv' _ i] n pos by (simp add: ring_push_def)
  show "ring_ordered N (Suc n) (ring_push N v w) ! i = (ring_ordered N n w @ [v]) ! i"
  proof (cases "i = n")
    case True
    then have "(?j + N - n + i) mod N = ?j" using n N by simp
    with True N lhs show ?thesis by (simp add: nth_append)
  next
    case False
    with i have i': "i < n" by simp
    let ?r = "(?j + N - n + i) mod N"
    have "?r \<noteq> ?j"
    proof -
      have "?j + N - n + i = ?j + (N - n + i)" using n by simp
      with mod_shift_neq [of ?j N "N - n + i"] i' n N(3) show ?thesis by simp
    qed
    with i' n lhs ring_ordered_nth [OF inv _ i'] show ?thesis by (simp add: nth_append)
  qed
qed

text \<open>A shorter read-out is a suffix of a longer one.\<close>

lemma ring_ordered_suffix:
  assumes "ring_inv N w" "n \<le> m" "m \<le> N"
  shows "ring_ordered N n w = drop (m - n) (ring_ordered N m w)"
proof (rule nth_equalityI)
  show "length (ring_ordered N n w) = length (drop (m - n) (ring_ordered N m w))"
    using assms by simp
next
  fix i assume "i < length (ring_ordered N n w)"
  then have i: "i < n" by simp
  have "ridx w + N - m + (m - n + i) = ridx w + N - n + i" using assms(2,3) by simp
  with i assms show "ring_ordered N n w ! i = drop (m - n) (ring_ordered N m w) ! i"
    by (simp add: ring_ordered_nth)
qed

lemma last_n_all [simp]: "length xs \<le> n \<Longrightarrow> last_n n xs = xs"
  by (simp add: last_n_def)

lemma length_last_n [simp]: "length (last_n n xs) = min n (length xs)"
  by (simp add: last_n_def)

lemma last_n_snoc: "last_n N (last_n N xs @ [v]) = last_n N (xs @ [v])"
proof (cases N)
  case (Suc M)
  have "length xs - (length xs - Suc M + M) + (length xs - Suc M) = length xs - M" by arith
  with Suc show ?thesis by (simp add: last_n_def)
qed (simp add: last_n_def)

lemma ring_abs_init: "ring_abs N (ring_init N z) = []"
  by (simp add: ring_abs_def ring_init_def ring_ordered_def)

lemma ring_abs_push:
  assumes "ring_inv N w"
  shows "ring_abs N (ring_push N v w) = last_n N (ring_abs N w @ [v])"
proof (cases "rcnt w < N")
  case True
  then show ?thesis using ring_ordered_push [OF assms, of "rcnt w" v]
    by (simp add: ring_abs_def ring_push_def)
next
  case False
  with assms obtain M where M: "N = Suc M" "rcnt w = Suc M"
    by (cases N) (auto simp: ring_inv_def)
  have "ring_ordered N (Suc M) (ring_push N v w) = ring_ordered N M w @ [v]"
    using ring_ordered_push [OF assms, of M v] M by simp
  also have "ring_ordered N M w = drop 1 (ring_ordered N (Suc M) w)"
    using ring_ordered_suffix [OF assms, of M "Suc M"] M by simp
  finally show ?thesis
    using M by (simp add: ring_abs_def ring_push_def last_n_def)
qed

text \<open>
  The multiset of valid slots does not depend on the rotation: the statistics of the
  firmware read the leading \<open>rcnt\<close> slots, the estimators the ordered read-out.
\<close>

lemma ring_fill_prefix:
  assumes "ring_fill_inv N w" "rcnt w < N"
  shows "ring_abs N w = take (rcnt w) (rbuf w)"
proof (rule nth_equalityI)
  show "length (ring_abs N w) = length (take (rcnt w) (rbuf w))"
    using assms by (simp add: ring_abs_def ring_fill_inv_def ring_inv_def)
next
  fix i assume "i < length (ring_abs N w)"
  then have i: "i < rcnt w" by (simp add: ring_abs_def)
  with assms show "ring_abs N w ! i = take (rcnt w) (rbuf w) ! i"
    by (simp add: ring_abs_def ring_ordered_nth ring_fill_inv_def)
qed

section \<open>The window interface\<close>

locale sample_window =
  fixes N :: nat
    and empty :: "'w"
    and push :: "'a \<Rightarrow> 'w \<Rightarrow> 'w"
    and window :: "'w \<Rightarrow> 'a list"
    and inv :: "'w \<Rightarrow> bool"
  assumes inv_empty: "inv empty"
    and inv_push: "inv w \<Longrightarrow> inv (push v w)"
    and window_empty: "window empty = []"
    and window_push: "inv w \<Longrightarrow> window (push v w) = last_n N (window w @ [v])"
begin

lemma inv_pushes: "inv w \<Longrightarrow> inv (fold push vs w)"
  by (induction vs arbitrary: w) (simp_all add: inv_push)

lemma window_pushes_from:
  "inv w \<Longrightarrow> window w = last_n N xs \<Longrightarrow> window (fold push vs w) = last_n N (xs @ vs)"
proof (induction vs arbitrary: w xs)
  case Nil
  then show ?case by simp
next
  case (Cons v vs)
  then have "window (push v w) = last_n N (xs @ [v])"
    by (simp add: window_push last_n_snoc)
  from Cons.IH [OF inv_push [OF Cons.prems(1)] this] show ?case by simp
qed

text \<open>After any sequence of pushes the window holds the most recent \<open>N\<close> samples in order.\<close>

lemma window_pushes: "window (fold push vs empty) = last_n N vs"
  using window_pushes_from [OF inv_empty, of "[]" vs] by (simp add: window_empty)

lemma window_bounded: "inv w \<Longrightarrow> length (window (push v w)) \<le> N"
  by (simp add: window_push)

end

lemma ring_sample_window:
  "0 < N \<Longrightarrow> sample_window N (ring_init N z) (ring_push N) (ring_abs N) (ring_inv N)"
  by unfold_locales (simp_all add: ring_inv_init ring_inv_push ring_abs_init ring_abs_push)

text \<open>
  The buffers of the firmware: \<open>SMART_HELMET_BAND_WIN\<close> slots for the two high-passed
  microwave channels and \<open>SMART_HELMET_RESP_WIN\<close> slots for the decimated breathing samples.
\<close>

interpretation hp_window: sample_window 100 "ring_init 100 (0::int)" "ring_push 100"
    "ring_abs 100" "ring_inv 100"
  by (rule ring_sample_window) simp

interpretation resp_window: sample_window 64 "ring_init 64 (0::int)" "ring_push 64"
    "ring_abs 64" "ring_inv 64"
  by (rule ring_sample_window) simp

section \<open>Properties\<close>

text \<open>the sample ring refines a sliding window: after any sequence of pushes into an empty
  100-slot buffer the oldest-first read-out is the list of the last 100 samples, in order.\<close>

theorem ring_is_sliding_window:
  "ring_abs 100 (fold (ring_push 100) vs (ring_init 100 (0::int))) = last_n 100 vs"
  by (rule hp_window.window_pushes)

end
