(* ===== verification/Insertion_Sort.thy ===== *)
theory Insertion_Sort
  imports Helmet_Prelude
begin

text \<open>
  The in-place insertion sort that \<open>shPeakBpm\<close> and \<open>shFuseHr\<close> run on small arrays: an
  outer loop over the elements and an inner loop that shifts larger elements up. It is
  shown equal to the library's \<open>sort\<close>.
\<close>

fun isort_shift :: "'a::linorder list \<Rightarrow> nat \<Rightarrow> 'a \<Rightarrow> 'a list" where
  "isort_shift l b key =
     (if 0 < b \<and> key < l ! (b - 1) then isort_shift (l[b := l ! (b - 1)]) (b - 1) key
      else l[b := key])"

declare isort_shift.simps [simp del]

definition isort_array :: "'a::linorder list \<Rightarrow> 'a list" where
  "isort_array l = fold (\<lambda>a m. isort_shift m a (m ! a)) [1..<length l] l"

lemma insort_snoc_less: "key < y \<Longrightarrow> insort key (xs @ [y]) = insort key xs @ [y]"
  by (induction xs) auto

lemma isort_shift_insort:
  "b < length l \<Longrightarrow> sorted (take b l) \<Longrightarrow>
   isort_shift l b key = insort key (take b l) @ drop (Suc b) l"
proof (induction b arbitrary: l)
  case 0
  then show ?case by (cases l) (simp_all add: isort_shift.simps)
next
  case (Suc b)
  have take: "take (Suc b) l = take b l @ [l ! b]"
    using Suc.prems(1) by (simp add: take_Suc_conv_app_nth)
  show ?case
  proof (cases "key < l ! b")
    case True
    have "drop (Suc b) (l[Suc b := l ! b]) = l ! b # drop (Suc (Suc b)) l"
      using Suc.prems(1) by (simp add: drop_update_swap Cons_nth_drop_Suc [symmetric])
    with True Suc take show ?thesis
      by (simp add: isort_shift.simps [of l "Suc b"] insort_snoc_less sorted_append)
  next
    case False
    with Suc.prems(2) take have "insort key (take (Suc b) l) = take (Suc b) l @ [key]"
      by (intro sorted_insort_is_snoc) (auto simp: sorted_append)
    with False Suc.prems(1) show ?thesis
      by (simp add: isort_shift.simps [of l "Suc b"] upd_conv_take_nth_drop)
  qed
qed

lemma sort_snoc: "sort (xs @ [x]) = insort x (sort xs)"
  by (simp add: sort_conv_fold)

lemma isort_array_prefix:
  "k \<le> length l \<Longrightarrow> 0 < k \<Longrightarrow>
   fold (\<lambda>a m. isort_shift m a (m ! a)) [1..<k] l = sort (take k l) @ drop k l"
proof (induction k)
  case 0
  then show ?case by simp
next
  case (Suc k)
  show ?case
  proof (cases "k = 0")
    case True
    with Suc.prems show ?thesis by (cases l) simp_all
  next
    case False
    let ?m = "sort (take k l) @ drop k l"
    have k: "k < length l" using Suc.prems by simp
    have nth: "?m ! k = l ! k" and tk: "take k ?m = sort (take k l)"
      and dr: "drop (Suc k) ?m = drop (Suc k) l"
      using k by (simp_all add: nth_append)
    have "isort_shift ?m k (?m ! k) = insort (l ! k) (sort (take k l)) @ drop (Suc k) l"
      using isort_shift_insort [of k ?m "?m ! k"] k by (simp add: nth tk dr)
    then show ?thesis
      using Suc False k by (simp add: take_Suc_conv_app_nth sort_snoc)
  qed
qed

lemma isort_array_sort: "isort_array l = sort l"
  using isort_array_prefix [of "length l" l] by (cases l) (simp_all add: isort_array_def)

end
