(* ===== verification/Peak.thy ===== *)
theory Peak
  imports Dsp Sample_Window Insertion_Sort
begin

text \<open>
  The time-domain pulse estimator of \<^verbatim>\<open>smart_helmet_vitals.c\<close>: \<open>shCopySensOrdered\<close> (the
  oldest-first copy of the high-passed \<open>SENS_IN\<close> window followed by a one-pole low pass) and
  \<open>shPeakBpm\<close> (peak picking, median inter-beat interval, regularity check). The sampling
  rate in Q8 (\<open>sh_fs_q8\<close>) is an argument.
\<close>

section \<open>Analysis chunk\<close>

text \<open>The forward low pass: \<open>y\<close> is an \<open>int32\<close>, every output is stored as \<open>int16\<close>.\<close>

fun shBandPass :: "int \<Rightarrow> int list \<Rightarrow> int list" where
  "shBandPass y [] = []"
| "shBandPass y (x # xs) =
     (let y' = s32 (y + s32 (s32 (x - y) * 96) sdiv 256) in s16 y' # shBandPass y' xs)"

definition shCopySensOrdered :: "nat \<Rightarrow> int ring \<Rightarrow> int list" where
  "shCopySensOrdered n w =
     (let n1 = (if n > rcnt w then rcnt w else n);
          n2 = (if n1 > 100 then 100 else n1)
      in if n2 = 0 then []
         else let ord = ring_ordered 100 n2 w in hd ord # shBandPass (hd ord) (tl ord))"

section \<open>Peak picking\<close>

record peak_acc =
  pk_peaks :: nat
  pk_last :: nat
  pk_ibi :: "int list"

text \<open>The two \<open>continue\<close> tests at the head of the loop: sample \<open>i\<close> is a local maximum above \<open>thr\<close>.\<close>

definition peak_candidate :: "int list \<Rightarrow> int \<Rightarrow> nat \<Rightarrow> bool" where
  "peak_candidate x thr i \<longleftrightarrow> \<not> (x ! i \<le> x ! (i - 1) \<or> x ! i < x ! (i + 1)) \<and> \<not> x ! i < thr"

definition peak_step :: "int list \<Rightarrow> int \<Rightarrow> nat \<Rightarrow> peak_acc \<Rightarrow> peak_acc" where
  "peak_step x thr i a =
     (if \<not> peak_candidate x thr i then a
      else if pk_last a \<noteq> 0xff \<and> int i - int (pk_last a) < 8 then
        (if x ! i > x ! pk_last a then a\<lparr>pk_last := i\<rparr> else a)
      else let ibi = int i - int (pk_last a);
               ibis = (if pk_last a \<noteq> 0xff \<and> ibi \<ge> 8 \<and> ibi \<le> 37 \<and> length (pk_ibi a) < 16
                       then pk_ibi a @ [ibi] else pk_ibi a)
           in a\<lparr>pk_ibi := ibis, pk_last := i, pk_peaks := pk_peaks a + 1\<rparr>)"

definition peak_scan :: "int list \<Rightarrow> int \<Rightarrow> nat \<Rightarrow> peak_acc" where
  "peak_scan x thr n =
     fold (peak_step x thr) [1..<n - 1] \<lparr>pk_peaks = 0, pk_last = 0xff, pk_ibi = []\<rparr>"

definition ibi_median_q8 :: "int list \<Rightarrow> int" where
  "ibi_median_q8 ibi_list =
     (let l = isort_array ibi_list; n = length l in
      if odd n then u16 (l ! (n div 2) * 256)
      else u16 ((l ! (n div 2 - 1) + l ! (n div 2)) * 256 div 2))"

definition ibi_dev_max :: "int list \<Rightarrow> int \<Rightarrow> int" where
  "ibi_dev_max ibi_list ibi_q8 =
     fold (\<lambda>v m. let d = v * 256 - ibi_q8; d' = (if d < 0 then - d else d)
                 in if d' > m then d' else m) ibi_list 0"

definition peak_threshold :: "int list \<Rightarrow> nat \<Rightarrow> int" where
  "peak_threshold x n =
     (let thr = (shMeanAbsI16 x n * 384) sdiv 256 in if thr < 5 then 5 else thr)"

text \<open>The result is the BPM (0 when there is no estimate) and \<open>*peak_count_out\<close>.\<close>

definition shPeakBpm :: "int \<Rightarrow> int list \<Rightarrow> nat \<Rightarrow> int \<times> nat" where
  "shPeakBpm fs_q8 x n =
     (if n < 8 * 2 + 3 then (0, 0)
      else let acc = peak_scan x (peak_threshold x n) n;
               ibi_list = pk_ibi acc;
               ibi_n = length ibi_list
           in if ibi_n = 0 then (0, pk_peaks acc)
              else let ibi_q8 = ibi_median_q8 ibi_list
                   in if ibi_q8 = 0 then (0, pk_peaks acc)
                      else if ibi_n \<ge> 3 \<and> ibi_dev_max ibi_list ibi_q8 * 100 > ibi_q8 * 35
                      then (0, pk_peaks acc)
                      else let bpm = shIntervalQ8ToBpm fs_q8 ibi_q8
                           in if bpm < 40 \<or> bpm > 180 then (0, pk_peaks acc)
                              else (bpm, pk_peaks acc))"

section \<open>The low pass stays inside the range of its input\<close>

lemma bandpass_step_between:
  assumes "lo \<le> y" "y \<le> hi" "lo \<le> x" "x \<le> hi" "- 32768 \<le> lo" "hi \<le> 32767"
  shows "lo \<le> s32 (y + s32 (s32 (x - y) * 96) sdiv 256)"
    and "s32 (y + s32 (s32 (x - y) * 96) sdiv 256) \<le> hi"
proof -
  let ?d = "((x - y) * 96) sdiv 256"
  have d: "min 0 (x - y) \<le> ?d" "?d \<le> max 0 (x - y)"
    by (rule sdiv_between; simp)+
  have "s32 (s32 (x - y) * 96) = (x - y) * 96" using assms by simp
  moreover have "lo \<le> y + ?d" "y + ?d \<le> hi" using d assms by linarith+
  ultimately show "lo \<le> s32 (y + s32 (s32 (x - y) * 96) sdiv 256)"
    "s32 (y + s32 (s32 (x - y) * 96) sdiv 256) \<le> hi" using assms by simp_all
qed

lemma shBandPass_range:
  "lo \<le> y \<Longrightarrow> y \<le> hi \<Longrightarrow> \<forall>x \<in> set xs. lo \<le> x \<and> x \<le> hi \<Longrightarrow> - 32768 \<le> lo \<Longrightarrow> hi \<le> 32767 \<Longrightarrow>
   \<forall>z \<in> set (shBandPass y xs). lo \<le> z \<and> z \<le> hi"
proof (induction xs arbitrary: y)
  case (Cons x xs)
  let ?y = "s32 (y + s32 (s32 (x - y) * 96) sdiv 256)"
  have y: "lo \<le> ?y" "?y \<le> hi"
    using bandpass_step_between [of lo y hi x] Cons.prems by simp_all
  from Cons.IH [OF y] y Cons.prems show ?case by (simp add: Let_def)
qed simp

lemma length_shBandPass [simp]: "length (shBandPass y xs) = length xs"
  by (induction xs arbitrary: y) (simp_all add: Let_def)

lemma length_shCopySensOrdered [simp]:
  "length (shCopySensOrdered n w) = min n (min (rcnt w) 100)"
  by (auto simp: shCopySensOrdered_def Let_def min_def)

section \<open>What a scan records\<close>

text \<open>
  Every recorded interval is the distance of two candidates and lies in the plausible range;
  with no counted peak nothing is recorded, and the list never outgrows \<open>SH_IBI_MAX\<close>.
\<close>

definition peak_acc_inv :: "int list \<Rightarrow> int \<Rightarrow> nat \<Rightarrow> peak_acc \<Rightarrow> bool" where
  "peak_acc_inv x thr k a \<longleftrightarrow>
     (\<forall>v \<in> set (pk_ibi a). 8 \<le> v \<and> v \<le> 37 \<and>
        (\<exists>i j. 1 \<le> i \<and> i < j \<and> j < k \<and> peak_candidate x thr i \<and> peak_candidate x thr j \<and> v = int j - int i)) \<and>
     length (pk_ibi a) \<le> 16 \<and>
     (if pk_peaks a = 0 then pk_last a = 255 \<and> pk_ibi a = []
      else 1 \<le> pk_last a \<and> pk_last a < k \<and> peak_candidate x thr (pk_last a) \<and>
           length (pk_ibi a) < pk_peaks a)"

lemma peak_acc_inv_step:
  assumes inv: "peak_acc_inv x thr k a" and k: "1 \<le> k" "k < 255"
  shows "peak_acc_inv x thr (Suc k) (peak_step x thr k a)"
proof (cases "peak_candidate x thr k")
  case False
  then show ?thesis using inv
    by (fastforce simp: peak_step_def peak_acc_inv_def split: if_splits)
next
  case cand: True
  show ?thesis
  proof (cases "pk_last a = 255")
    case True
    then have "pk_peaks a = 0" using inv k by (auto simp: peak_acc_inv_def split: if_splits)
    then show ?thesis using inv k cand True by (simp add: peak_step_def peak_acc_inv_def)
  next
    case False
    then have p: "0 < pk_peaks a" using inv by (auto simp: peak_acc_inv_def split: if_splits)
    have last: "1 \<le> pk_last a" "pk_last a < k" "peak_candidate x thr (pk_last a)"
        "length (pk_ibi a) < pk_peaks a" "length (pk_ibi a) \<le> 16"
      using inv p by (auto simp: peak_acc_inv_def split: if_splits)
    have old: "\<forall>v \<in> set (pk_ibi a). 8 \<le> v \<and> v \<le> 37 \<and>
        (\<exists>i j. 1 \<le> i \<and> i < j \<and> j < Suc k \<and> peak_candidate x thr i \<and> peak_candidate x thr j \<and> v = int j - int i)"
      using inv by (fastforce simp: peak_acc_inv_def)
    have new: "\<exists>i j. 1 \<le> i \<and> i < j \<and> j < Suc k \<and> peak_candidate x thr i \<and> peak_candidate x thr j \<and>
        int k - int (pk_last a) = int j - int i"
      using last cand by (intro exI [of _ "pk_last a"] exI [of _ k]) simp
    show ?thesis using False p last old new cand k
      by (auto simp: peak_step_def peak_acc_inv_def Let_def)
  qed
qed

lemma peak_scan_inv:
  assumes "2 \<le> n" "n \<le> 255"
  shows "peak_acc_inv x thr (n - 1) (peak_scan x thr n)"
proof -
  have "peak_acc_inv x thr k (fold (peak_step x thr) [1..<k] \<lparr>pk_peaks = 0, pk_last = 0xff, pk_ibi = []\<rparr>)"
    if "1 \<le> k" "k \<le> 255" for k
    using that
  proof (induction k rule: nat_induct_at_least)
    case base
    then show ?case by (simp add: peak_acc_inv_def)
  next
    case (Suc k)
    then show ?case using peak_acc_inv_step [of x thr k] by simp
  qed
  moreover have "1 \<le> n - 1" "n - 1 \<le> 255" using assms by simp_all
  ultimately show ?thesis by (simp add: peak_scan_def)
qed

lemma fold_max_abs_ge:
  fixes f :: "'a \<Rightarrow> int"
  shows "fold (\<lambda>v m. if f v > m then f v else m) l m0 \<le> B \<longleftrightarrow> m0 \<le> B \<and> (\<forall>v \<in> set l. f v \<le> B)"
  by (induction l arbitrary: m0) auto

lemma ibi_dev_max_le: "ibi_dev_max l q \<le> B \<longleftrightarrow> 0 \<le> B \<and> (\<forall>v \<in> set l. \<bar>v * 256 - q\<bar> \<le> B)"
proof -
  have "ibi_dev_max l q = fold (\<lambda>v m. if \<bar>v * 256 - q\<bar> > m then \<bar>v * 256 - q\<bar> else m) l 0"
    unfolding ibi_dev_max_def Let_def
    by (intro fold_cong refl ext) (auto simp: abs_if)
  then show ?thesis by (simp only: fold_max_abs_ge)
qed

lemma ibi_median_range:
  assumes "l \<noteq> []" "\<forall>v \<in> set l. 8 \<le> v \<and> v \<le> 37"
  shows "2048 \<le> ibi_median_q8 l" "ibi_median_q8 l \<le> 9472"
proof -
  let ?s = "sort l"
  have b: "8 \<le> ?s ! i \<and> ?s ! i \<le> 37" if "i < length l" for i
    using that assms(2) nth_mem [of i ?s] by simp
  have "length l div 2 < length l" "length l div 2 - 1 < length l"
    using assms(1) by (cases l; simp)+
  from b [OF this(1)] b [OF this(2)]
  show "2048 \<le> ibi_median_q8 l" "ibi_median_q8 l \<le> 9472"
    by (auto simp: ibi_median_q8_def Let_def isort_array_sort)
qed

text \<open>
  Soundness of the estimate: a non-zero result is a plausible rate computed from the median
  distance of local maxima above the noise threshold, and with three or more intervals every
  one of them is within 35\<^verbatim>\<open>%\<close> of that median.
\<close>

lemma shPeakBpm_sound_aux:
  assumes "n \<le> 255" "shPeakBpm fs x n = (bpm, peaks)" "bpm \<noteq> 0"
  obtains l where "l \<noteq> []" "peaks \<ge> 2" "19 \<le> n" "40 \<le> bpm" "bpm \<le> 180"
    "bpm = shIntervalQ8ToBpm fs (ibi_median_q8 l)"
    "\<forall>v \<in> set l. 8 \<le> v \<and> v \<le> 37 \<and>
        (\<exists>i j. 1 \<le> i \<and> i < j \<and> j < n - 1 \<and> peak_candidate x (peak_threshold x n) i \<and>
               peak_candidate x (peak_threshold x n) j \<and> v = int j - int i)"
    "length l \<ge> 3 \<longrightarrow> (\<forall>v \<in> set l. \<bar>v * 256 - ibi_median_q8 l\<bar> * 100 \<le> ibi_median_q8 l * 35)"
proof -
  let ?a = "peak_scan x (peak_threshold x n) n"
  let ?l = "pk_ibi ?a" and ?m = "ibi_median_q8 (pk_ibi ?a)"
  have n: "19 \<le> n" using assms(2,3) by (auto simp: shPeakBpm_def split: if_splits)
  have inv: "peak_acc_inv x (peak_threshold x n) (n - 1) ?a"
    using peak_scan_inv [OF _ assms(1)] n by simp
  have l: "?l \<noteq> []" and r: "bpm = shIntervalQ8ToBpm fs ?m" "40 \<le> bpm" "bpm \<le> 180" "peaks = pk_peaks ?a"
    and dev: "length ?l \<ge> 3 \<longrightarrow> ibi_dev_max ?l ?m * 100 \<le> ?m * 35"
    using assms(2,3) n by (auto simp: shPeakBpm_def Let_def split: if_splits)
  have "\<bar>v * 256 - ?m\<bar> * 100 \<le> ?m * 35" if "v \<in> set ?l" "length ?l \<ge> 3" for v
    using ibi_dev_max_le [of ?l ?m "ibi_dev_max ?l ?m"] dev that by fastforce
  moreover have "peaks \<ge> 2" using inv l r(4)
    by (cases "pk_ibi ?a") (auto simp: peak_acc_inv_def split: if_splits)
  ultimately show ?thesis using that [of ?l] l r n inv by (auto simp: peak_acc_inv_def)
qed

section \<open>A regular pulse train is measured exactly\<close>

text \<open>
  The candidates of the window are exactly the samples at positions congruent to \<open>c\<close> modulo
  the period \<open>p\<close>.
\<close>

definition pulse_train :: "int list \<Rightarrow> nat \<Rightarrow> nat \<Rightarrow> nat \<Rightarrow> bool" where
  "pulse_train x n p c \<longleftrightarrow>
     (\<forall>i \<in> set [1..<n - 1]. peak_candidate x (peak_threshold x n) i \<longleftrightarrow> i mod p = c)"

definition beats_before :: "nat \<Rightarrow> nat \<Rightarrow> nat \<Rightarrow> nat" where
  "beats_before p c k = length (filter (\<lambda>i. i mod p = c) [1..<k])"

lemma beats_before_Suc:
  "1 \<le> k \<Longrightarrow> beats_before p c (Suc k) = beats_before p c k + (if k mod p = c then 1 else 0)"
  by (simp add: beats_before_def)

text \<open>The last beat before \<open>k\<close> is less than a period away, and beats are a period apart.\<close>

lemma last_beat_mod:
  assumes "(j::nat) < k" "j mod p = c" "k mod p = c" "k \<le> j + p" "0 < p"
  shows "k = j + p"
proof -
  have "(k - j) mod p = 0" using assms(1-3) by (simp add: mod_eq_dvd_iff_nat [symmetric])
  then obtain q where q: "k - j = p * q" by (metis mod_0_imp_dvd dvd_def)
  moreover have "k - j \<le> p" "0 < k - j" using assms(1,4) by arith+
  ultimately have "p * q \<le> p * 1" "0 < p * q" by simp_all
  with assms(5) have "q = 1" by (simp only: mult_le_cancel1) simp
  with q assms(1) show ?thesis by simp
qed

definition pulse_acc :: "nat \<Rightarrow> nat \<Rightarrow> nat \<Rightarrow> peak_acc \<Rightarrow> bool" where
  "pulse_acc p c k a \<longleftrightarrow>
     pk_peaks a = beats_before p c k \<and>
     pk_ibi a = replicate (min 16 (beats_before p c k - 1)) (int p) \<and>
     (if beats_before p c k = 0 then pk_last a = 255
      else pk_last a < k \<and> pk_last a mod p = c \<and> k \<le> pk_last a + p)"

lemma replicate_min_snoc:
  "replicate (min N (Suc b)) v = (if b < N then replicate (min N b) v @ [v] else replicate (min N b) v)"
proof (cases "b < N")
  case True
  then have "min N (Suc b) = Suc b" "min N b = b" by simp_all
  with True show ?thesis by (simp add: replicate_append_same)
qed simp

lemma pulse_acc_step:
  assumes acc: "pulse_acc p c k a" and p: "8 \<le> p" "p \<le> 37" and k: "1 \<le> k" "k < 255"
    and cand: "peak_candidate x thr k \<longleftrightarrow> k mod p = c"
  shows "pulse_acc p c (Suc k) (peak_step x thr k a)"
proof (cases "k mod p = c")
  case False
  have "k \<noteq> pk_last a + p" if "beats_before p c k \<noteq> 0"
    using acc that False by (auto simp: pulse_acc_def)
  with False assms show ?thesis
    by (auto simp: pulse_acc_def peak_step_def beats_before_Suc split: if_splits)
next
  case True
  show ?thesis
  proof (cases "beats_before p c k = 0")
    case first: True
    with True assms show ?thesis
      by (simp add: pulse_acc_def peak_step_def beats_before_Suc)
  next
    case False
    then have "k = pk_last a + p"
      using last_beat_mod [of "pk_last a" k p c] acc True p by (simp add: pulse_acc_def)
    moreover obtain b where b: "beats_before p c k = Suc b"
      using False by (cases "beats_before p c k") simp_all
    ultimately show ?thesis using True assms replicate_min_snoc [of 16 b "int p"]
      by (auto simp: pulse_acc_def peak_step_def Let_def beats_before_Suc)
  qed
qed

lemma pulse_train_scan:
  assumes "pulse_train x n p c" "8 \<le> p" "p \<le> 37" "2 \<le> n" "n \<le> 255"
  shows "pulse_acc p c (n - 1) (peak_scan x (peak_threshold x n) n)"
proof -
  have "pulse_acc p c k (fold (peak_step x (peak_threshold x n)) [1..<k]
      \<lparr>pk_peaks = 0, pk_last = 0xff, pk_ibi = []\<rparr>)" if "1 \<le> k" "k \<le> n - 1" for k
    using that
  proof (induction k rule: nat_induct_at_least)
    case base
    then show ?case by (simp add: pulse_acc_def beats_before_def)
  next
    case (Suc k)
    have "pulse_acc p c (Suc k) (peak_step x (peak_threshold x n) k
        (fold (peak_step x (peak_threshold x n)) [1..<k] \<lparr>pk_peaks = 0, pk_last = 0xff, pk_ibi = []\<rparr>))"
      by (rule pulse_acc_step) (use Suc assms in \<open>auto simp: pulse_train_def\<close>)
    then show ?case using Suc.hyps by simp
  qed
  then show ?thesis using assms(4) by (simp add: peak_scan_def)
qed

lemma isort_array_replicate: "isort_array (replicate m v) = replicate m v"
  by (simp add: isort_array_sort sorted_replicate sort_key_id_if_sorted)

lemma ibi_median_replicate:
  assumes "0 < m" "8 \<le> p" "p \<le> 37"
  shows "ibi_median_q8 (replicate m p) = p * 256"
proof -
  have "m div 2 < m" "m div 2 - 1 < m" using assms(1) by simp_all
  with assms(2,3) show ?thesis
    by (simp add: ibi_median_q8_def isort_array_replicate Let_def)
qed

lemma shPeakBpm_regular_aux:
  assumes train: "pulse_train x n p c" and p: "8 \<le> p" "p \<le> 37" and n: "19 \<le> n" "n \<le> 255"
    and beats: "2 \<le> beats_before p c (n - 1)"
    and rate: "40 \<le> shIntervalQ8ToBpm fs (int p * 256)" "shIntervalQ8ToBpm fs (int p * 256) \<le> 180"
  shows "shPeakBpm fs x n = (shIntervalQ8ToBpm fs (int p * 256), beats_before p c (n - 1))"
proof -
  let ?a = "peak_scan x (peak_threshold x n) n"
  let ?m = "min 16 (beats_before p c (n - 1) - 1)"
  have a: "pulse_acc p c (n - 1) ?a" using pulse_train_scan [OF train p] n by simp
  then have ibi: "pk_ibi ?a = replicate ?m (int p)" and peaks: "pk_peaks ?a = beats_before p c (n - 1)"
    by (simp_all add: pulse_acc_def)
  have m: "0 < ?m" using beats by simp
  have med: "ibi_median_q8 (replicate ?m (int p)) = int p * 256"
    using ibi_median_replicate [OF m, of "int p"] p by simp
  have dev: "ibi_dev_max (replicate ?m (int p)) (int p * 256) \<le> 0"
    by (simp add: ibi_dev_max_le)
  then show ?thesis using m med p n rate
    by (auto simp: shPeakBpm_def Let_def ibi peaks)
qed

section \<open>Properties\<close>

text \<open>soundness of the peak estimator: a non-zero rate lies in 40 to 180 BPM and is computed
  from the median distance of local maxima above the noise threshold; each distance is
  plausible, and with three or more of them every one is within 35 percent of the median.\<close>

theorem shPeakBpm_sound:
  assumes "n \<le> 255" "shPeakBpm fs x n = (bpm, peaks)" "bpm \<noteq> 0"
  shows "40 \<le> bpm \<and> bpm \<le> 180 \<and> peaks \<ge> 2 \<and>
    (\<exists>l. l \<noteq> [] \<and> bpm = shIntervalQ8ToBpm fs (ibi_median_q8 l) \<and>
       (\<forall>v \<in> set l. 8 \<le> v \<and> v \<le> 37 \<and>
          (\<exists>i j. 1 \<le> i \<and> i < j \<and> j < n - 1 \<and> peak_candidate x (peak_threshold x n) i \<and>
                 peak_candidate x (peak_threshold x n) j \<and> v = int j - int i)) \<and>
       (length l \<ge> 3 \<longrightarrow> (\<forall>v \<in> set l. \<bar>v * 256 - ibi_median_q8 l\<bar> * 100 \<le> ibi_median_q8 l * 35)))"
  by (rule shPeakBpm_sound_aux [OF assms]) blast

definition demo_pulse :: "int list" where
  "demo_pulse = concat (replicate 4 [0, 2, 5, 9, 20, 9, 5, 2, 0, 0])"

theorem shPeakBpm_sound_witness:
  "shPeakBpm 6400 demo_pulse 40 = (150, 4) \<and> 40 \<le> (150::int) \<and>
   (\<exists>l. l \<noteq> [] \<and> 150 = shIntervalQ8ToBpm 6400 (ibi_median_q8 l))"
proof -
  have e: "shPeakBpm 6400 demo_pulse 40 = (150, 4)" by code_simp
  show ?thesis using shPeakBpm_sound [OF _ e] e by auto
qed

text \<open>C27: the peak estimator measures a regular pulse train exactly: if the local maxima above
  the threshold are exactly the samples at one phase of a period \<open>p\<close>, at least two of them
  fall into the window and the rate of \<open>p\<close> is plausible, the result is that rate and the
  number of beats.\<close>

theorem shPeakBpm_regular:
  assumes "pulse_train x n p c" "8 \<le> p" "p \<le> 37" "19 \<le> n" "n \<le> 255" "2 \<le> beats_before p c (n - 1)"
    and "40 \<le> shIntervalQ8ToBpm fs (int p * 256)" "shIntervalQ8ToBpm fs (int p * 256) \<le> 180"
  shows "shPeakBpm fs x n = (shIntervalQ8ToBpm fs (int p * 256), beats_before p c (n - 1))"
  by (rule shPeakBpm_regular_aux [OF assms])

theorem shPeakBpm_regular_witness:
  "pulse_train demo_pulse 40 10 4 \<and> shPeakBpm 6400 demo_pulse 40 = (150, 4)"
proof -
  have t: "pulse_train demo_pulse 40 10 4" by code_simp
  have r: "beats_before 10 4 39 = 4" "shIntervalQ8ToBpm 6400 2560 = 150" by code_simp+
  show ?thesis using shPeakBpm_regular [OF t, of 6400] t r by simp
qed

end
