(* ===== verification/Fft.thy ===== *)
theory Fft
  imports Dsp
begin

text \<open>
  The spectral pulse estimator of \<^verbatim>\<open>smart_helmet_vitals.c\<close> (\<open>shFftTwiddle\<close>, \<open>shFftRadix2\<close>,
  \<open>shCos64Q15\<close>, \<open>shFftFrameSample\<close>, \<open>shFftBpm\<close>, \<open>shFftSmoothReset\<close>) for the default build:
  Hann window, prescale and parabolic interpolation on, harmonic product spectrum off.
  The arrays \<open>fft_re\<close> and \<open>fft_im\<close> are lists of 64 \<open>int32\<close> values. The bit-reversal loop has
  an inner \<open>while\<close> that spins for ever if its mask reaches zero, so it is a partial
  function with an option value; that it always returns is proved below.
\<close>

section \<open>Twiddle factors\<close>

definition sh_fft_cos64_q15 :: "int list" where
  "sh_fft_cos64_q15 =
     [32767, 32609, 32137, 31356, 30273, 28898, 27245, 25329,
      23170, 20787, 18204, 15446, 12539, 9512, 6393, 3212,
      0, -3212, -6393, -9512, -12539, -15446, -18204, -20787,
      -23170, -25329, -27245, -28898, -30273, -31356, -32137, -32609,
      -32767]"

definition sh_fft_sin64_q15 :: "int list" where
  "sh_fft_sin64_q15 =
     [0, 3212, 6393, 9512, 12539, 15446, 18204, 20787,
      23170, 25329, 27245, 28898, 30273, 31356, 32137, 32609,
      32767, 32609, 32137, 31356, 30273, 28898, 27245, 25329,
      23170, 20787, 18204, 15446, 12539, 9512, 6393, 3212,
      0]"

definition shFftTwiddle :: "nat \<Rightarrow> int \<times> int" where
  "shFftTwiddle k =
     (let kk = k mod 64;
          (cosv, sinv) = (if kk \<le> 32 then (sh_fft_cos64_q15 ! kk, sh_fft_sin64_q15 ! kk)
                          else (sh_fft_cos64_q15 ! (64 - kk), s16 (- (sh_fft_sin64_q15 ! (64 - kk)))))
      in (cosv, s16 (- sinv)))"

definition shCos64Q15 :: "nat \<Rightarrow> int" where
  "shCos64Q15 i =
     (let kk = i mod 64 in
      if kk \<le> 32 then sh_fft_cos64_q15 ! kk else sh_fft_cos64_q15 ! (64 - kk))"

section \<open>Bit reversal\<close>

partial_function (option) fft_rev_next :: "nat \<Rightarrow> nat \<Rightarrow> nat option" where
  "fft_rev_next j k = (if k \<le> j then fft_rev_next (j - k) (k div 2) else Some (j + k))"

declare fft_rev_next.simps [code]

definition fft_swap :: "'a list \<Rightarrow> nat \<Rightarrow> nat \<Rightarrow> 'a list" where
  "fft_swap l i j = l[i := l ! j, j := l ! i]"

definition fft_bitrev_step ::
    "nat \<Rightarrow> (nat \<times> int list \<times> int list) option \<Rightarrow> (nat \<times> int list \<times> int list) option" where
  "fft_bitrev_step i st =
     (case st of None \<Rightarrow> None
      | Some (j, re, im) \<Rightarrow>
          (case fft_rev_next j 32 of None \<Rightarrow> None
           | Some j' \<Rightarrow> Some (j', if i < j then fft_swap re i j else re,
                                 if i < j then fft_swap im i j else im)))"

definition fft_bitrev :: "int list \<Rightarrow> int list \<Rightarrow> (int list \<times> int list) option" where
  "fft_bitrev re im =
     map_option snd (fold fft_bitrev_step [0..<63] (Some (0, re, im)))"

section \<open>Butterflies\<close>

text \<open>The index pairs of one stage with their twiddle index, in the order of the two inner loops.\<close>

definition fft_schedule :: "nat \<Rightarrow> (nat \<times> nat \<times> nat) list" where
  "fft_schedule len =
     (let half = len div 2 in
      concat (map (\<lambda>b. map (\<lambda>m. (b * len + m, b * len + m + half, m * 64 div len)) [0..<half])
                [0..<64 div len]))"

definition fft_butterfly ::
    "nat \<times> nat \<times> nat \<Rightarrow> int list \<times> int list \<Rightarrow> int list \<times> int list" where
  "fft_butterfly e a =
     (let (p, q, tw) = e; (re, im) = a; (cw, sw) = shFftTwiddle tw;
          tr = s32 (s32 ((re ! q) sdiv 2 * cw) - s32 ((im ! q) sdiv 2 * sw)) sdiv 16384;
          ti = s32 (s32 ((re ! q) sdiv 2 * sw) + s32 ((im ! q) sdiv 2 * cw)) sdiv 16384;
          ur = (re ! p) sdiv 2;
          ui = (im ! p) sdiv 2
      in (re[p := s32 (ur + tr), q := s32 (ur - tr)], im[p := s32 (ui + ti), q := s32 (ui - ti)]))"

definition fft_stage :: "nat \<Rightarrow> int list \<times> int list \<Rightarrow> int list \<times> int list" where
  "fft_stage len a = fold fft_butterfly (fft_schedule len) a"

definition shFftRadix2 :: "int list \<Rightarrow> int list \<Rightarrow> (int list \<times> int list) option" where
  "shFftRadix2 re im =
     map_option (fold fft_stage [2, 4, 8, 16, 32, 64]) (fft_bitrev re im)"

section \<open>Analysis frame\<close>

definition shFftFrameSample :: "int list \<Rightarrow> nat \<Rightarrow> nat \<Rightarrow> int" where
  "shFftFrameSample x n i =
     (if n \<ge> 64 then x ! (n - 64 + i) else if i < n then x ! i else 0)"

definition fft_frame_mean :: "int list \<Rightarrow> nat \<Rightarrow> int" where
  "fft_frame_mean x n = fold (\<lambda>i s. s32 (s + shFftFrameSample x n i)) [0..<64] 0 sdiv 64"

definition fft_frame_peak :: "int list \<Rightarrow> nat \<Rightarrow> int \<Rightarrow> int" where
  "fft_frame_peak x n mean =
     fold (\<lambda>i pk. let v = s32 (shFftFrameSample x n i - mean); v' = (if v < 0 then s32 (- v) else v)
                  in if u32 v' > pk then u16 v' else pk) [0..<64] 0"

function fft_prescale :: "int \<Rightarrow> nat \<Rightarrow> nat" where
  "fft_prescale peak ps =
     (if ps < 12 \<and> u32 (peak * 2 ^ (ps + 1)) \<le> 16384 then fft_prescale peak (ps + 1) else ps)"
  by pat_completeness auto
termination
  by (relation "measure (\<lambda>(_, ps). 12 - ps)") auto

declare fft_prescale.simps [simp del]

definition fft_windowed :: "int list \<Rightarrow> nat \<Rightarrow> int \<Rightarrow> nat \<Rightarrow> nat \<Rightarrow> int" where
  "fft_windowed x n mean ps i =
     (let v = s32 (shFftFrameSample x n i - mean);
          w = s32 (v * ((32768 - shCos64Q15 i) sdiv 2)) sdiv 32768
      in s32 (w * 2 ^ ps))"

section \<open>Spectral peak search and smoothing\<close>

definition fft_power :: "int list \<Rightarrow> int list \<Rightarrow> nat \<Rightarrow> int" where
  "fft_power re im k =
     (let pr = (re ! k) sdiv 8; pi = (im ! k) sdiv 8 in u32 (s32 (s32 (pr * pr) + s32 (pi * pi))))"

record fft_best =
  fb_k :: nat
  fb_p :: int
  fb_sum :: int
  fb_bins :: int

definition fft_search_step :: "int list \<Rightarrow> int list \<Rightarrow> nat \<Rightarrow> fft_best \<Rightarrow> fft_best" where
  "fft_search_step re im k b =
     (let p = fft_power re im k;
          b1 = b\<lparr>fb_sum := u32 (fb_sum b + p), fb_bins := fb_bins b + 1\<rparr>
      in if p > fb_p b then b1\<lparr>fb_p := p, fb_k := k\<rparr> else b1)"

text \<open>\<open>k_lo = (40 * 64 + 750) / 1500 = 2\<close> and \<open>k_hi = 180 * 64 / 1500 = 7\<close>.\<close>

definition fft_search :: "int list \<Rightarrow> int list \<Rightarrow> fft_best" where
  "fft_search re im =
     fold (fft_search_step re im) [2..<8] \<lparr>fb_k = 0, fb_p = 0, fb_sum = 0, fb_bins = 0\<rparr>"

definition fft_interp :: "int list \<Rightarrow> int list \<Rightarrow> fft_best \<Rightarrow> int" where
  "fft_interp re im b =
     (let k = fb_k b; k_q8 = u16 (int k * 256) in
      if k > 2 \<and> k < 7 \<and> k + 1 < 32 then
        let (pa, pb, pc) = shFitScale3 (fft_power re im (k - 1)) (fb_p b) (fft_power re im (k + 1))
        in u16 (k_q8 + shParabolicDeltaQ8 pa pb pc)
      else k_q8)"

record fft_smooth_state =
  fft_k_smooth_q8 :: int
  fft_k_smooth_valid :: bool

definition shFftSmoothReset :: fft_smooth_state where
  "shFftSmoothReset = \<lparr>fft_k_smooth_q8 = 0, fft_k_smooth_valid = False\<rparr>"

definition fft_smooth :: "int \<Rightarrow> fft_smooth_state \<Rightarrow> fft_smooth_state" where
  "fft_smooth k_q8 st =
     (if \<not> fft_k_smooth_valid st then \<lparr>fft_k_smooth_q8 = k_q8, fft_k_smooth_valid = True\<rparr>
      else let old = fft_k_smooth_q8 st;
               jump = (if k_q8 > old then u16 (k_q8 - old) else u16 (old - k_q8));
               alpha = (if jump > 512 then 24 else 48)
           in st\<lparr>fft_k_smooth_q8 := u16 (u32 (old * (256 - alpha) + k_q8 * alpha) div 256)\<rparr>)"

text \<open>The result is the BPM (0: none), \<open>*mag_out\<close> and the new smoothing state.\<close>

definition shFftBpm ::
    "int \<Rightarrow> int list \<Rightarrow> nat \<Rightarrow> fft_smooth_state \<Rightarrow> int \<times> int \<times> fft_smooth_state" where
  "shFftBpm fs_q8 x n st =
     (if n < 32 then (0, 0, st)
      else let mean = fft_frame_mean x n; peak = fft_frame_peak x n mean in
      if peak = 0 then (0, 0, st)
      else let ps = fft_prescale peak 0;
               (re, im) = the (shFftRadix2 (map (fft_windowed x n mean ps) [0..<64]) (replicate 64 0));
               b = fft_search re im
           in if fb_bins b = 0 \<or> fb_k b = 0 then (0, 0, st)
              else if fb_p b < u32 (fb_sum b div fb_bins b * 320) div 256 then (0, 0, st)
              else let mag = (if fb_p b > 0xffff then 0xffff else u16 (fb_p b));
                       st' = fft_smooth (fft_interp re im b) st;
                       k_use = (if fft_k_smooth_q8 st' < 256 then 256 else fft_k_smooth_q8 st');
                       bpm = shBinQ8ToBpm fs_q8 k_use
                   in if bpm < 40 \<or> bpm > 180 then (0, mag, st') else (bpm, mag, st'))"

section \<open>The bit-reversal loop returns and permutes by reversed indices\<close>

definition bitrev6 :: "nat \<Rightarrow> nat" where
  "bitrev6 i = i mod 2 * 32 + i div 2 mod 2 * 16 + i div 4 mod 2 * 8 + i div 8 mod 2 * 4 +
     i div 16 mod 2 * 2 + i div 32 mod 2"

lemma bitrev6_tables:
  "list_all (\<lambda>i. bitrev6 i < 64 \<and> bitrev6 (bitrev6 i) = i) [0..<64]"
  "list_all (\<lambda>i. fft_rev_next (bitrev6 i) 32 = Some (bitrev6 (Suc i))) [0..<63]"
  by code_simp+

lemma bitrev6_less [simp]: "i < 64 \<Longrightarrow> bitrev6 i < 64"
  and bitrev6_invol [simp]: "i < 64 \<Longrightarrow> bitrev6 (bitrev6 i) = i"
  using list_all_upt0D [OF bitrev6_tables(1), of i] by blast+

lemma fft_rev_next_bitrev: "i < 63 \<Longrightarrow> fft_rev_next (bitrev6 i) 32 = Some (bitrev6 (Suc i))"
  using list_all_upt0D [OF bitrev6_tables(2), of i] by blast

text \<open>The array after the first \<open>k\<close> iterations.\<close>

definition bitrev_upto :: "nat \<Rightarrow> 'a list \<Rightarrow> 'a list" where
  "bitrev_upto k l = map (\<lambda>m. if m < k \<or> bitrev6 m < k then l ! bitrev6 m else l ! m) [0..<64]"

lemma bitrev_upto_Suc:
  assumes "k < 64"
  shows "bitrev_upto (Suc k) l =
    (if k < bitrev6 k then fft_swap (bitrev_upto k l) k (bitrev6 k) else bitrev_upto k l)"
proof (rule nth_equalityI)
  show "length (bitrev_upto (Suc k) l) =
      length (if k < bitrev6 k then fft_swap (bitrev_upto k l) k (bitrev6 k) else bitrev_upto k l)"
    by (simp add: bitrev_upto_def fft_swap_def)
next
  fix m assume "m < length (bitrev_upto (Suc k) l)"
  then have m: "m < 64" by (simp add: bitrev_upto_def)
  have r: "bitrev6 k < 64" "bitrev6 m < 64" using assms m by simp_all
  have inv: "bitrev6 m = k \<longleftrightarrow> m = bitrev6 k" using assms m bitrev6_invol by metis
  show "bitrev_upto (Suc k) l ! m =
      (if k < bitrev6 k then fft_swap (bitrev_upto k l) k (bitrev6 k) else bitrev_upto k l) ! m"
    using assms m r inv
    by (cases "m = k"; cases "m = bitrev6 k")
      (auto simp: bitrev_upto_def fft_swap_def nth_list_update less_Suc_eq)
qed

lemma fft_bitrev_prefix:
  assumes "length re = 64" "length im = 64" "k \<le> 63"
  shows "fold fft_bitrev_step [0..<k] (Some (0, re, im)) =
    Some (bitrev6 k, bitrev_upto k re, bitrev_upto k im)"
  using assms(3)
proof (induction k)
  case 0
  have "bitrev_upto 0 l = l" if "length l = 64" for l :: "int list"
    using map_nth [of l] that by (simp add: bitrev_upto_def)
  moreover have "bitrev6 0 = 0" by (simp add: bitrev6_def)
  ultimately show ?case using assms by simp
next
  case (Suc k)
  then show ?case
    by (simp add: fft_bitrev_step_def fft_rev_next_bitrev bitrev_upto_Suc)
qed

lemma fft_bitrev_correct:
  assumes "length re = 64" "length im = 64"
  shows "fft_bitrev re im =
    Some (map (\<lambda>i. re ! bitrev6 i) [0..<64], map (\<lambda>i. im ! bitrev6 i) [0..<64])"
proof -
  have "bitrev_upto 63 l = map (\<lambda>i. l ! bitrev6 i) [0..<64]" for l :: "int list"
  proof -
    have "bitrev6 63 = 63" by (simp add: bitrev6_def)
    then have "(if m < 63 \<or> bitrev6 m < 63 then l ! bitrev6 m else l ! m) = l ! bitrev6 m"
      if "m < 64" for m using that by (cases "m = 63") auto
    then show ?thesis by (simp add: bitrev_upto_def cong: map_cong)
  qed
  with fft_bitrev_prefix [OF assms, of 63] show ?thesis by (simp add: fft_bitrev_def)
qed

lemma fft_bitrev_returns: "\<exists>r. fft_bitrev re im = Some r"
proof -
  have "\<exists>a b. fold fft_bitrev_step [0..<k] (Some (0, re, im)) = Some (bitrev6 k, a, b)" if "k \<le> 63" for k
    using that
  proof (induction k)
    case 0
    then show ?case by (simp add: bitrev6_def)
  next
    case (Suc k)
    then show ?case by (auto simp: fft_bitrev_step_def fft_rev_next_bitrev)
  qed
  from this [of 63] show ?thesis by (auto simp: fft_bitrev_def)
qed

lemma shFftRadix2_returns: "\<exists>r. shFftRadix2 re im = Some r"
  using fft_bitrev_returns [of re im] by (auto simp: shFftRadix2_def)

section \<open>The butterflies stay inside int32\<close>

text \<open>
  The same transform on unbounded integers. A butterfly takes values of modulus at most
  \<open>2 C\<close> to values of modulus at most \<open>3 C\<close>; from a frame bounded by \<open>2 ^ 14\<close> the six stages
  reach at most 186624, and the largest intermediate product still fits an \<open>int32\<close>.
\<close>

definition fft_butterfly_exact ::
    "nat \<times> nat \<times> nat \<Rightarrow> int list \<times> int list \<Rightarrow> int list \<times> int list" where
  "fft_butterfly_exact e a =
     (let (p, q, tw) = e; (re, im) = a; (cw, sw) = shFftTwiddle tw;
          tr = ((re ! q) sdiv 2 * cw - (im ! q) sdiv 2 * sw) sdiv 16384;
          ti = ((re ! q) sdiv 2 * sw + (im ! q) sdiv 2 * cw) sdiv 16384;
          ur = (re ! p) sdiv 2;
          ui = (im ! p) sdiv 2
      in (re[p := ur + tr, q := ur - tr], im[p := ui + ti, q := ui - ti]))"

definition fft_stage_exact :: "nat \<Rightarrow> int list \<times> int list \<Rightarrow> int list \<times> int list" where
  "fft_stage_exact len a = fold fft_butterfly_exact (fft_schedule len) a"

lemma twiddle_table:
  "list_all (\<lambda>k. \<bar>fst (shFftTwiddle k)\<bar> \<le> 32767 \<and> \<bar>snd (shFftTwiddle k)\<bar> \<le> 32767 \<and>
     (fst (shFftTwiddle k))\<^sup>2 + (snd (shFftTwiddle k))\<^sup>2 \<le> 32768\<^sup>2) [0..<64]"
  by code_simp

lemma shFftTwiddle_norm:
  assumes "shFftTwiddle k = (cw, sw)"
  shows "\<bar>cw\<bar> \<le> 32767" "\<bar>sw\<bar> \<le> 32767" "cw\<^sup>2 + sw\<^sup>2 \<le> 32768\<^sup>2"
proof -
  have "shFftTwiddle k = shFftTwiddle (k mod 64)" by (simp add: shFftTwiddle_def)
  with list_all_upt0D [OF twiddle_table, of "k mod 64"] assms
  show "\<bar>cw\<bar> \<le> 32767" "\<bar>sw\<bar> \<le> 32767" "cw\<^sup>2 + sw\<^sup>2 \<le> 32768\<^sup>2" by simp_all
qed

definition mod_le :: "int \<Rightarrow> int \<Rightarrow> int \<Rightarrow> bool" where
  "mod_le B a b \<longleftrightarrow> a\<^sup>2 + b\<^sup>2 \<le> B\<^sup>2"

lemma mod_le_abs:
  assumes "mod_le B a b" "0 \<le> B"
  shows "\<bar>a\<bar> \<le> B" "\<bar>b\<bar> \<le> B"
proof -
  have "a\<^sup>2 \<le> B\<^sup>2" "b\<^sup>2 \<le> B\<^sup>2"
    using assms(1) by (simp_all add: mod_le_def order_trans [rotated])
  then show "\<bar>a\<bar> \<le> B" "\<bar>b\<bar> \<le> B"
    using assms(2) by (auto intro: power2_le_imp_le [where x = "\<bar>_\<bar>"])
qed

lemma mod_le_mono: "mod_le A a b \<Longrightarrow> 0 \<le> A \<Longrightarrow> A \<le> B \<Longrightarrow> mod_le B a b"
  using power_mono [of A B 2] by (auto simp: mod_le_def intro: order_trans)

lemma mod_le_sdiv:
  assumes "0 < c" "mod_le (c * B) a b"
  shows "mod_le B (a sdiv c) (b sdiv c)"
proof -
  have "((a sdiv c)\<^sup>2 + (b sdiv c)\<^sup>2) * c\<^sup>2 \<le> B\<^sup>2 * c\<^sup>2"
    using sdiv_square_le [OF assms(1), of a] sdiv_square_le [OF assms(1), of b] assms(2)
    by (simp add: mod_le_def power_mult_distrib algebra_simps)
  then show ?thesis using assms(1) by (simp add: mod_le_def)
qed

lemma mod_le_mult:
  assumes "mod_le A a b" "mod_le W c d" "0 \<le> A"
  shows "mod_le (A * W) (a * c - b * d) (a * d + b * c)"
proof -
  have "(a * c - b * d)\<^sup>2 + (a * d + b * c)\<^sup>2 = (a\<^sup>2 + b\<^sup>2) * (c\<^sup>2 + d\<^sup>2)"
    by (simp add: power2_eq_square algebra_simps)
  also have "\<dots> \<le> A\<^sup>2 * W\<^sup>2"
    using assms by (intro mult_mono) (simp_all add: mod_le_def)
  finally show ?thesis by (simp add: mod_le_def power_mult_distrib)
qed

text \<open>The triangle inequality for a sum of a half-size and a full-size term.\<close>

lemma mod_le_add_half:
  assumes u: "mod_le C ur ui" and t: "mod_le (2 * C) tr ti"
  shows "mod_le (3 * C) (ur + tr) (ui + ti)" "mod_le (3 * C) (ur - tr) (ui - ti)"
proof -
  have d: "0 \<le> (2 * ur - tr)\<^sup>2 + (2 * ui - ti)\<^sup>2" "0 \<le> (2 * ur + tr)\<^sup>2 + (2 * ui + ti)\<^sup>2"
    by (simp_all add: add_nonneg_nonneg)
  have e: "2 * ((ur + tr)\<^sup>2 + (ui + ti)\<^sup>2) + ((2 * ur - tr)\<^sup>2 + (2 * ui - ti)\<^sup>2) = 6 * (ur\<^sup>2 + ui\<^sup>2) + 3 * (tr\<^sup>2 + ti\<^sup>2)"
    "2 * ((ur - tr)\<^sup>2 + (ui - ti)\<^sup>2) + ((2 * ur + tr)\<^sup>2 + (2 * ui + ti)\<^sup>2) = 6 * (ur\<^sup>2 + ui\<^sup>2) + 3 * (tr\<^sup>2 + ti\<^sup>2)"
    by (simp_all add: power2_eq_square algebra_simps)
  have sq: "(3 * C)\<^sup>2 = 9 * C\<^sup>2" "(2 * C)\<^sup>2 = 4 * C\<^sup>2" by (simp_all add: power_mult_distrib)
  have lin: "P \<le> 9 * c" if "2 * P + D = 6 * U + 3 * T" "0 \<le> D" "U \<le> c" "T \<le> 4 * c" for P D U T c :: int
    using that by linarith
  note ut = u [unfolded mod_le_def] t [unfolded mod_le_def sq]
  show "mod_le (3 * C) (ur + tr) (ui + ti)" "mod_le (3 * C) (ur - tr) (ui - ti)"
    unfolding mod_le_def sq by (rule lin [OF e(1) d(1) ut], rule lin [OF e(2) d(2) ut])
qed

text \<open>One butterfly: no step wraps, and the moduli grow by at most one half.\<close>

lemma fft_butterfly_safe:
  assumes p: "mod_le (2 * C) (re ! p) (im ! p)" and q: "mod_le (2 * C) (re ! q) (im ! q)"
    and C: "0 \<le> C" "C \<le> 62208"
    and idx: "p < length re" "q < length re" "p < length im" "q < length im" "p \<noteq> q"
    and res: "fft_butterfly_exact (p, q, tw) (re, im) = (re', im')"
  shows "fft_butterfly (p, q, tw) (re, im) = (re', im')"
    and "mod_le (3 * C) (re' ! p) (im' ! p)" and "mod_le (3 * C) (re' ! q) (im' ! q)"
    and "\<And>i. i \<noteq> p \<Longrightarrow> i \<noteq> q \<Longrightarrow> re' ! i = re ! i \<and> im' ! i = im ! i"
    and "length re' = length re" "length im' = length im"
proof -
  obtain cw sw where tw: "shFftTwiddle tw = (cw, sw)" by (cases "shFftTwiddle tw")
  let ?a = "(re ! q) sdiv 2" and ?b = "(im ! q) sdiv 2"
  let ?u = "(re ! p) sdiv 2" and ?v = "(im ! p) sdiv 2"
  let ?X = "?a * cw - ?b * sw" and ?Y = "?a * sw + ?b * cw"
  have a: "mod_le C ?a ?b" and u: "mod_le C ?u ?v"
    using mod_le_sdiv [of 2 C] p q by simp_all
  have XY: "mod_le (C * 32768) ?X ?Y"
    using mod_le_mult [OF a _ C(1), of 32768 cw sw] shFftTwiddle_norm(3) [OF tw]
    by (simp add: mod_le_def)
  then have t: "mod_le (2 * C) (?X sdiv 16384) (?Y sdiv 16384)"
    by (intro mod_le_sdiv) (simp_all add: mult.commute)
  note sums = mod_le_add_half [OF u t]
  have prod: "\<bar>x * w\<bar> \<le> 2038431744" if "\<bar>x\<bar> \<le> C" "\<bar>w\<bar> \<le> 32767" for x w :: int
  proof -
    have "\<bar>x * w\<bar> \<le> 62208 * 32767" unfolding abs_mult
      using that C by (intro mult_mono) auto
    then show ?thesis by simp
  qed
  note ab = mod_le_abs [OF a C(1)]
  note cs = shFftTwiddle_norm(1,2) [OF tw]
  have wrap: "s32 x = x" if "\<bar>x\<bar> \<le> 2038431744" for x
    using that by (intro s32_id) linarith+
  have pr: "s32 (?a * cw) = ?a * cw" "s32 (?b * sw) = ?b * sw" "s32 (?a * sw) = ?a * sw" "s32 (?b * cw) = ?b * cw"
    by (intro wrap prod ab cs)+
  have "\<bar>?X\<bar> \<le> C * 32768" "\<bar>?Y\<bar> \<le> C * 32768"
    using mod_le_abs [OF XY] C(1) by simp_all
  then have XYw: "s32 ?X = ?X" "s32 ?Y = ?Y" using C by (intro wrap; linarith)+
  have small: "s32 a = a \<and> s32 b = b" if "mod_le (3 * C) a b" for a b
    using mod_le_abs [OF that] C by (intro conjI wrap) simp_all
  have o: "s32 (?u + ?X sdiv 16384) = ?u + ?X sdiv 16384" "s32 (?v + ?Y sdiv 16384) = ?v + ?Y sdiv 16384"
    "s32 (?u - ?X sdiv 16384) = ?u - ?X sdiv 16384" "s32 (?v - ?Y sdiv 16384) = ?v - ?Y sdiv 16384"
    using small [OF sums(1)] small [OF sums(2)] by simp_all
  have r: "re' = re[p := ?u + ?X sdiv 16384, q := ?u - ?X sdiv 16384]"
    "im' = im[p := ?v + ?Y sdiv 16384, q := ?v - ?Y sdiv 16384]"
    using res by (simp_all add: fft_butterfly_exact_def tw Let_def)
  show "fft_butterfly (p, q, tw) (re, im) = (re', im')"
    by (simp add: fft_butterfly_def tw Let_def pr XYw o r)
  show "mod_le (3 * C) (re' ! p) (im' ! p)" "mod_le (3 * C) (re' ! q) (im' ! q)"
    using sums idx by (simp_all add: r)
  show "\<And>i. i \<noteq> p \<Longrightarrow> i \<noteq> q \<Longrightarrow> re' ! i = re ! i \<and> im' ! i = im ! i"
    "length re' = length re" "length im' = length im" by (simp_all add: r)
qed

text \<open>A stage touches every index once, so its pairs never see a value that has already grown.\<close>

fun pairs_ok :: "(nat \<times> nat \<times> nat) list \<Rightarrow> bool" where
  "pairs_ok es \<longleftrightarrow> distinct (concat (map (\<lambda>(p, q, _). [p, q]) es)) \<and>
     list_all (\<lambda>(p, q, _). p < 64 \<and> q < 64) es"

declare pairs_ok.simps [simp del]

lemma pairs_ok_Cons:
  "pairs_ok ((p, q, tw) # es) \<longleftrightarrow> p < 64 \<and> q < 64 \<and> p \<noteq> q \<and> pairs_ok es \<and>
     (\<forall>(p', q', _) \<in> set es. p' \<noteq> p \<and> p' \<noteq> q \<and> q' \<noteq> p \<and> q' \<noteq> q)"
  by (auto simp: pairs_ok.simps)

lemma fft_schedules_ok: "list_all (\<lambda>len. pairs_ok (fft_schedule len)) [2, 4, 8, 16, 32, 64]"
  by code_simp

definition mods_le :: "int \<Rightarrow> int list \<times> int list \<Rightarrow> bool" where
  "mods_le B a \<longleftrightarrow> length (fst a) = 64 \<and> length (snd a) = 64 \<and>
     (\<forall>i<64. mod_le B (fst a ! i) (snd a ! i))"

lemma fft_pairs_safe:
  assumes C: "0 \<le> C" "C \<le> 62208"
  shows "pairs_ok es \<Longrightarrow> mods_le (3 * C) a \<Longrightarrow>
    (\<forall>(p, q, _) \<in> set es. mod_le (2 * C) (fst a ! p) (snd a ! p) \<and> mod_le (2 * C) (fst a ! q) (snd a ! q)) \<Longrightarrow>
    fold fft_butterfly es a = fold fft_butterfly_exact es a \<and> mods_le (3 * C) (fold fft_butterfly_exact es a)"
proof (induction es arbitrary: a)
  case Nil
  then show ?case by simp
next
  case (Cons e es)
  obtain p q tw where e: "e = (p, q, tw)" by (cases e)
  obtain re im where a: "a = (re, im)" by (cases a)
  obtain re' im' where a': "fft_butterfly_exact (p, q, tw) (re, im) = (re', im')"
    by (cases "fft_butterfly_exact (p, q, tw) (re, im)")
  have ok: "p < 64" "q < 64" "p \<noteq> q" "pairs_ok es"
    "\<forall>(p', q', _) \<in> set es. p' \<noteq> p \<and> p' \<noteq> q \<and> q' \<noteq> p \<and> q' \<noteq> q"
    using Cons.prems(1) by (simp_all add: e pairs_ok_Cons)
  have pq: "mod_le (2 * C) (re ! p) (im ! p)" "mod_le (2 * C) (re ! q) (im ! q)"
    and rest: "\<forall>(p', q', _) \<in> set es. mod_le (2 * C) (re ! p') (im ! p') \<and> mod_le (2 * C) (re ! q') (im ! q')"
    and len: "length re = 64" "length im = 64" and all: "\<forall>i<64. mod_le (3 * C) (re ! i) (im ! i)"
    using Cons.prems(2,3) by (simp_all add: e a mods_le_def)
  note safe = fft_butterfly_safe [OF pq C _ _ _ _ ok(3) a', unfolded len, OF ok(1,2,1,2)]
  have "mods_le (3 * C) (re', im')"
    unfolding mods_le_def fst_conv snd_conv using all safe(2,3,4,5,6) by metis
  moreover have "\<forall>(p', q', _) \<in> set es. mod_le (2 * C) (re' ! p') (im' ! p') \<and> mod_le (2 * C) (re' ! q') (im' ! q')"
    using rest ok(5) safe(4) by fastforce
  ultimately show ?case using Cons.IH [OF ok(4), of "(re', im')"] safe(1) a'
    by (simp add: e a)
qed

lemma fft_stage_safe:
  assumes "mods_le (2 * C) a" "0 \<le> C" "C \<le> 62208" "len \<in> {2, 4, 8, 16, 32, 64}"
  shows "fft_stage len a = fft_stage_exact len a" "mods_le (3 * C) (fft_stage_exact len a)"
proof -
  have ok: "pairs_ok (fft_schedule len)" using fft_schedules_ok assms(4) by auto
  have "mods_le (3 * C) a" using assms(1,2) by (auto simp: mods_le_def intro: mod_le_mono)
  moreover have "\<forall>(p, q, _) \<in> set (fft_schedule len).
      mod_le (2 * C) (fst a ! p) (snd a ! p) \<and> mod_le (2 * C) (fst a ! q) (snd a ! q)"
    using ok assms(1) by (fastforce simp: pairs_ok.simps mods_le_def list_all_iff)
  ultimately show "fft_stage len a = fft_stage_exact len a" "mods_le (3 * C) (fft_stage_exact len a)"
    using fft_pairs_safe [OF assms(2,3) ok] by (simp_all add: fft_stage_def fft_stage_exact_def)
qed

definition fft_exact :: "int list \<Rightarrow> int list \<Rightarrow> int list \<times> int list" where
  "fft_exact re im = fold fft_stage_exact [2, 4, 8, 16, 32, 64]
     (map (\<lambda>i. re ! bitrev6 i) [0..<64], map (\<lambda>i. im ! bitrev6 i) [0..<64])"

lemma fft_stages_safe:
  assumes "mods_le 16384 a"
  shows "fold fft_stage [2, 4, 8, 16, 32, 64] a = fold fft_stage_exact [2, 4, 8, 16, 32, 64] a"
    and "mods_le 186624 (fold fft_stage_exact [2, 4, 8, 16, 32, 64] a)"
proof -
  note s1 = fft_stage_safe [where C = 8192 and len = 2 and a = a, simplified, OF assms]
  note s2 = fft_stage_safe [where C = 12288 and len = 4, simplified, OF s1(2)]
  note s3 = fft_stage_safe [where C = 18432 and len = 8, simplified, OF s2(2)]
  note s4 = fft_stage_safe [where C = 27648 and len = 16, simplified, OF s3(2)]
  note s5 = fft_stage_safe [where C = 41472 and len = 32, simplified, OF s4(2)]
  note s6 = fft_stage_safe [where C = 62208 and len = 64, simplified, OF s5(2)]
  show "fold fft_stage [2, 4, 8, 16, 32, 64] a = fold fft_stage_exact [2, 4, 8, 16, 32, 64] a"
    by (simp add: s1(1) s2(1) s3(1) s4(1) s5(1) s6(1))
  show "mods_le 186624 (fold fft_stage_exact [2, 4, 8, 16, 32, 64] a)"
    using s6(2) by simp
qed

lemma shFftRadix2_safe:
  assumes "length re = 64" "\<And>i. i < 64 \<Longrightarrow> \<bar>re ! i\<bar> \<le> 16384"
  shows "shFftRadix2 re (replicate 64 0) = Some (fft_exact re (replicate 64 0))"
    and "mods_le 186624 (fft_exact re (replicate 64 0))"
proof -
  let ?a = "(map (\<lambda>i. re ! bitrev6 i) [0..<64], map (\<lambda>i. replicate 64 0 ! bitrev6 i) [0..<64]) :: int list \<times> int list"
  have "(re ! i)\<^sup>2 \<le> 16384\<^sup>2" if "i < 64" for i
    using power_mono [OF assms(2) [OF that], of 2] by simp
  then have "mods_le 16384 ?a" by (simp add: mods_le_def mod_le_def)
  from fft_stages_safe [OF this] show
    "shFftRadix2 re (replicate 64 0) = Some (fft_exact re (replicate 64 0))"
    "mods_le 186624 (fft_exact re (replicate 64 0))"
    by (simp_all add: shFftRadix2_def fft_bitrev_correct assms(1) fft_exact_def)
qed

section \<open>The frame is scaled into the safe range\<close>

lemma shFftFrameSample_bound:
  assumes "\<And>i. i < n \<Longrightarrow> \<bar>x ! i\<bar> \<le> B" "i < 64" "0 \<le> B"
  shows "\<bar>shFftFrameSample x n i\<bar> \<le> B"
  using assms by (auto simp: shFftFrameSample_def)

lemma fft_frame_mean_bound:
  assumes "\<forall>i<64. \<bar>shFftFrameSample x n i\<bar> \<le> 8192"
  shows "\<bar>fft_frame_mean x n\<bar> \<le> 8192"
proof -
  have "\<bar>fold (\<lambda>i s. s32 (s + shFftFrameSample x n i)) [0..<k] 0\<bar> \<le> int k * 8192" if "k \<le> 64" for k
    using that
  proof (induction k)
    case (Suc k)
    let ?s = "fold (\<lambda>i s. s32 (s + shFftFrameSample x n i)) [0..<k] 0"
    have "\<bar>?s + shFftFrameSample x n k\<bar> \<le> int (Suc k) * 8192"
      using Suc assms [rule_format, of k] by (simp add: algebra_simps abs_le_iff)
    moreover from this have "s32 (?s + shFftFrameSample x n k) = ?s + shFftFrameSample x n k"
      using Suc.prems by (intro s32_id) (simp_all add: abs_le_iff)
    ultimately show ?case by simp
  qed simp
  from this [of 64] show ?thesis
    unfolding fft_frame_mean_def by (intro abs_sdiv_le) simp_all
qed

lemma fold_max_upper:
  fixes f :: "'a \<Rightarrow> int"
  shows "m0 \<le> fold (\<lambda>i m. if f i > m then f i else m) l m0 \<and>
    (\<forall>i \<in> set l. f i \<le> fold (\<lambda>i m. if f i > m then f i else m) l m0)"
  by (induction l arbitrary: m0) (simp, smt (verit) fold_simps(2) set_ConsD)

lemma fft_frame_peak_upper:
  assumes "\<forall>i<64. \<bar>shFftFrameSample x n i\<bar> \<le> 8192" "\<bar>mean\<bar> \<le> 8192"
  shows "fft_frame_peak x n mean \<le> 16384"
    and "\<And>i. i < 64 \<Longrightarrow> \<bar>shFftFrameSample x n i - mean\<bar> \<le> fft_frame_peak x n mean"
proof -
  let ?f = "\<lambda>i. \<bar>shFftFrameSample x n i - mean\<bar>"
  have f: "?f i \<le> 16384" if "i < 64" for i using assms(1) [rule_format, OF that] assms(2) by linarith
  have eq: "fft_frame_peak x n mean = fold (\<lambda>i m. if ?f i > m then ?f i else m) [0..<64] 0"
    unfolding fft_frame_peak_def Let_def
  proof (intro fold_cong refl ext)
    fix i pk assume "i \<in> set [0..<64]"
    then have b: "?f i \<le> 16384" using f by simp
    then have "s32 (shFftFrameSample x n i - mean) = shFftFrameSample x n i - mean"
      by (intro s32_id) linarith+
    moreover have "s32 (- (shFftFrameSample x n i - mean)) = - (shFftFrameSample x n i - mean)"
      using b by (intro s32_id) linarith+
    moreover have "u32 (?f i) = ?f i" "u16 (?f i) = ?f i" using b by (simp_all add: ccast)
    ultimately show "(if pk < u32 (if s32 (shFftFrameSample x n i - mean) < 0 then s32 (- s32 (shFftFrameSample x n i - mean)) else s32 (shFftFrameSample x n i - mean))
        then u16 (if s32 (shFftFrameSample x n i - mean) < 0 then s32 (- s32 (shFftFrameSample x n i - mean)) else s32 (shFftFrameSample x n i - mean)) else pk) =
      (if pk < ?f i then ?f i else pk)"
      by (cases "shFftFrameSample x n i - mean < 0") (simp_all add: abs_if)
  qed
  have "fold (\<lambda>i m. if ?f i > m then ?f i else m) l 0 \<le> 16384" if "set l \<subseteq> {..<64}" for l
    using that f by (induction l rule: rev_induct) auto
  then show "fft_frame_peak x n mean \<le> 16384"
    unfolding eq by (simp add: subset_eq del: upt_rec_numeral)
  show "\<And>i. i < 64 \<Longrightarrow> ?f i \<le> fft_frame_peak x n mean"
    unfolding eq using fold_max_upper [of 0 ?f "[0..<64]"] by (simp del: upt_rec_numeral)
qed

lemma fft_prescale_bound:
  "0 \<le> peak \<Longrightarrow> peak * 2 ^ ps \<le> 16384 \<Longrightarrow> peak * 2 ^ fft_prescale peak ps \<le> 16384"
proof (induction peak ps rule: fft_prescale.induct)
  case (1 peak ps)
  show ?case
  proof (cases "ps < 12 \<and> u32 (peak * 2 ^ (ps + 1)) \<le> 16384")
    case True
    have "peak * 2 ^ (ps + 1) = u32 (peak * 2 ^ (ps + 1))"
      using "1.prems" by (simp add: ccast)
    with True 1 show ?thesis by (simp add: fft_prescale.simps [of peak ps])
  next
    case False
    then have "fft_prescale peak ps = ps" by (subst fft_prescale.simps) (simp only: if_False)
    with "1.prems" show ?thesis by simp
  qed
qed

lemma hann_table: "list_all (\<lambda>i. 0 \<le> (32768 - shCos64Q15 i) sdiv 2 \<and> (32768 - shCos64Q15 i) sdiv 2 \<le> 32768) [0..<64]"
  by code_simp

lemma fft_windowed_bound:
  assumes "\<forall>i<64. \<bar>shFftFrameSample x n i\<bar> \<le> 8192" "i < 64"
  defines "mean \<equiv> fft_frame_mean x n"
  shows "\<bar>fft_windowed x n mean (fft_prescale (fft_frame_peak x n mean) 0) i\<bar> \<le> 16384"
proof -
  have mean: "\<bar>mean\<bar> \<le> 8192" unfolding mean_def by (rule fft_frame_mean_bound [OF assms(1)])
  note peak = fft_frame_peak_upper [OF assms(1) mean]
  let ?pk = "fft_frame_peak x n mean" and ?v = "shFftFrameSample x n i - mean"
  let ?h = "(32768 - shCos64Q15 i) sdiv 2" and ?ps = "fft_prescale (fft_frame_peak x n mean) 0"
  have v: "\<bar>?v\<bar> \<le> ?pk" "\<bar>?v\<bar> \<le> 16384" using peak(2) [OF assms(2)] peak(1) by linarith+
  have h: "0 \<le> ?h" "?h \<le> 32768" using list_all_upt0D [OF hann_table assms(2)] by auto
  have "\<bar>?v * ?h\<bar> \<le> \<bar>?v\<bar> * 32768" unfolding abs_mult using h by (intro mult_left_mono) auto
  then have vh: "\<bar>?v * ?h\<bar> \<le> 32768 * \<bar>?v\<bar>" by simp
  have "\<bar>?v * ?h\<bar> \<le> 2147483647" using v(2) by (intro order_trans [OF vh]) simp
  then have e: "s32 ?v = ?v" "s32 (?v * ?h) = ?v * ?h" using v(2) by (simp_all add: s32_abs)
  have w: "\<bar>(?v * ?h) sdiv 32768\<bar> \<le> ?pk"
    using abs_sdiv_le [OF _ vh] v by linarith
  have "0 \<le> ?pk" using v by linarith
  with peak(1) have "?pk * 2 ^ ?ps \<le> 16384" by (intro fft_prescale_bound) simp_all
  moreover have "\<bar>(?v * ?h) sdiv 32768 * 2 ^ ?ps\<bar> \<le> ?pk * 2 ^ ?ps"
    unfolding abs_mult using w by (simp add: mult_right_mono)
  ultimately have "\<bar>(?v * ?h) sdiv 32768 * 2 ^ ?ps\<bar> \<le> 16384" by linarith
  moreover from this have "s32 ((?v * ?h) sdiv 32768 * 2 ^ ?ps) = (?v * ?h) sdiv 32768 * 2 ^ ?ps"
    by (intro s32_id) linarith+
  ultimately show ?thesis by (simp add: fft_windowed_def e)
qed

section \<open>Spectrum, smoothing and the reported rate\<close>

definition fft_spectrum :: "int list \<Rightarrow> nat \<Rightarrow> int list \<times> int list" where
  "fft_spectrum x n =
     (let mean = fft_frame_mean x n; ps = fft_prescale (fft_frame_peak x n mean) 0
      in fft_exact (map (fft_windowed x n mean ps) [0..<64]) (replicate 64 0))"

lemma fft_frame_safe:
  assumes "\<forall>i<n. \<bar>x ! i\<bar> \<le> 8192"
  defines "mean \<equiv> fft_frame_mean x n"
  shows "shFftRadix2 (map (fft_windowed x n mean (fft_prescale (fft_frame_peak x n mean) 0)) [0..<64])
           (replicate 64 0) = Some (fft_spectrum x n)"
    and "mods_le 186624 (fft_spectrum x n)"
proof -
  have "\<forall>i<64. \<bar>shFftFrameSample x n i\<bar> \<le> 8192"
    using assms(1) by (auto intro: shFftFrameSample_bound)
  note b = fft_windowed_bound [OF this]
  show "shFftRadix2 (map (fft_windowed x n mean (fft_prescale (fft_frame_peak x n mean) 0)) [0..<64])
           (replicate 64 0) = Some (fft_spectrum x n)" "mods_le 186624 (fft_spectrum x n)"
    unfolding fft_spectrum_def Let_def mean_def
    by (rule shFftRadix2_safe; use b in \<open>simp del: upt_rec_numeral\<close>)+
qed

lemma fft_power_exact:
  assumes "mods_le 186624 (re, im)" "k < 64"
  shows "fft_power re im k = ((re ! k) sdiv 8)\<^sup>2 + ((im ! k) sdiv 8)\<^sup>2" "fft_power re im k \<le> 544195584"
proof -
  let ?a = "(re ! k) sdiv 8" and ?b = "(im ! k) sdiv 8"
  have "mod_le 23328 ?a ?b"
    using assms by (intro mod_le_sdiv) (simp_all add: mods_le_def)
  then have s: "?a\<^sup>2 + ?b\<^sup>2 \<le> 544195584" by (simp add: mod_le_def)
  have n: "0 \<le> ?a\<^sup>2" "0 \<le> ?b\<^sup>2" by simp_all
  have c: "s32 (?a\<^sup>2) = ?a\<^sup>2" "s32 (?b\<^sup>2) = ?b\<^sup>2" "s32 (?a\<^sup>2 + ?b\<^sup>2) = ?a\<^sup>2 + ?b\<^sup>2"
    "u32 (?a\<^sup>2 + ?b\<^sup>2) = ?a\<^sup>2 + ?b\<^sup>2"
    using s n by (intro s32_id u32_id; linarith)+
  then show "fft_power re im k = ?a\<^sup>2 + ?b\<^sup>2"
    by (simp add: fft_power_def power2_eq_square [symmetric])
  with s show "fft_power re im k \<le> 544195584" by simp
qed

lemma fft_power_ge0 [simp]: "0 \<le> fft_power re im k"
  by (simp add: fft_power_def Let_def)

text \<open>The search keeps the first strongest bin of the heart-rate band.\<close>

definition fft_best_inv :: "int list \<Rightarrow> int list \<Rightarrow> nat \<Rightarrow> fft_best \<Rightarrow> bool" where
  "fft_best_inv re im m c \<longleftrightarrow>
     fb_bins c = int m - 2 \<and> (fb_k c = 0 \<or> 2 \<le> fb_k c \<and> fb_k c < m) \<and>
     (fb_k c \<noteq> 0 \<longrightarrow> fb_p c = fft_power re im (fb_k c) \<and> 0 < fb_p c) \<and> 0 \<le> fb_p c \<and>
     (\<forall>k. 2 \<le> k \<and> k < m \<longrightarrow> fft_power re im k \<le> fb_p c)"

lemma fft_best_inv_step:
  assumes "fft_best_inv re im m c" "2 \<le> m"
  shows "fft_best_inv re im (Suc m) (fft_search_step re im m c)"
proof (cases "fft_power re im m > fb_p c")
  case True
  moreover from this assms have "\<forall>k. 2 \<le> k \<and> k < Suc m \<longrightarrow> fft_power re im k \<le> fft_power re im m"
    by (auto simp: fft_best_inv_def less_Suc_eq dest: order_trans [OF _ less_imp_le])
  ultimately show ?thesis using assms
    by (simp add: fft_best_inv_def fft_search_step_def Let_def)
next
  case False
  moreover from this assms have "\<forall>k. 2 \<le> k \<and> k < Suc m \<longrightarrow> fft_power re im k \<le> fb_p c"
    by (auto simp: fft_best_inv_def less_Suc_eq)
  ultimately show ?thesis using assms
    by (auto simp: fft_best_inv_def fft_search_step_def Let_def)
qed

lemma fft_search_inv: "fft_best_inv re im 8 (fft_search re im)"
proof -
  have "fft_best_inv re im m
      (fold (fft_search_step re im) [2..<m] \<lparr>fb_k = 0, fb_p = 0, fb_sum = 0, fb_bins = 0\<rparr>)"
    if "2 \<le> m" for m
    using that
  proof (induction m rule: nat_induct_at_least)
    case base
    then show ?case by (simp add: fft_best_inv_def)
  next
    case (Suc m)
    then show ?case by (simp add: fft_best_inv_step)
  qed
  from this [of 8] show ?thesis by (simp add: fft_search_def del: upt_rec_numeral)
qed

lemma fft_search_max:
  shows "fb_bins (fft_search re im) = 6"
    and "fb_k (fft_search re im) \<noteq> 0 \<Longrightarrow> 2 \<le> fb_k (fft_search re im) \<and> fb_k (fft_search re im) \<le> 7"
    and "fb_k (fft_search re im) \<noteq> 0 \<Longrightarrow>
       fb_p (fft_search re im) = fft_power re im (fb_k (fft_search re im)) \<and> 0 < fb_p (fft_search re im)"
    and "2 \<le> k \<Longrightarrow> k \<le> 7 \<Longrightarrow> fft_power re im k \<le> fb_p (fft_search re im)"
  using fft_search_inv [of re im] by (auto simp: fft_best_inv_def)

lemma fft_interp_range:
  assumes "2 \<le> fb_k b" "fb_k b \<le> 7"
  shows "512 \<le> fft_interp re im b" "fft_interp re im b \<le> 1792"
proof -
  have "\<bar>shParabolicDeltaQ8 pa pb pc\<bar> \<le> 128" for pa pb pc by (rule shParabolicDeltaQ8_half)
  then have d: "- 128 \<le> shParabolicDeltaQ8 pa pb pc" "shParabolicDeltaQ8 pa pb pc \<le> 128" for pa pb pc
    by (auto simp: abs_le_iff minus_le_iff)
  obtain pa pb pc where f: "shFitScale3 (fft_power re im (fb_k b - 1)) (fb_p b) (fft_power re im (fb_k b + 1)) = (pa, pb, pc)"
    by (metis prod_cases3)
  show "512 \<le> fft_interp re im b" "fft_interp re im b \<le> 1792"
    using assms f d [of pa pb pc] by (auto simp: fft_interp_def Let_def)
qed

definition fft_smooth_inv :: "fft_smooth_state \<Rightarrow> bool" where
  "fft_smooth_inv st \<longleftrightarrow>
     (fft_k_smooth_valid st \<longrightarrow> 512 \<le> fft_k_smooth_q8 st \<and> fft_k_smooth_q8 st \<le> 1792)"

lemma convex_q8:
  assumes "0 \<le> a" "a \<le> 256" "lo \<le> (x::int)" "x \<le> hi" "lo \<le> y" "y \<le> hi"
  shows "lo \<le> (x * (256 - a) + y * a) div 256" "(x * (256 - a) + y * a) div 256 \<le> hi"
proof -
  have "lo * (256 - a) + lo * a \<le> x * (256 - a) + y * a" "x * (256 - a) + y * a \<le> hi * (256 - a) + hi * a"
    using assms by (intro add_mono mult_right_mono; simp)+
  then have "lo * 256 \<le> x * (256 - a) + y * a" "x * (256 - a) + y * a \<le> hi * 256"
    by (simp_all add: algebra_simps)
  then show "lo \<le> (x * (256 - a) + y * a) div 256" "(x * (256 - a) + y * a) div 256 \<le> hi"
    using zdiv_mono1 [of "lo * 256" "x * (256 - a) + y * a" 256]
      zdiv_mono1 [of "x * (256 - a) + y * a" "hi * 256" 256] by simp_all
qed

lemma fft_smooth_range:
  assumes "fft_smooth_inv st" "512 \<le> k" "k \<le> 1792"
  shows "fft_smooth_inv (fft_smooth k st)" "fft_k_smooth_valid (fft_smooth k st)"
proof -
  let ?s = "fft_k_smooth_q8 st"
  have c: "512 \<le> (?s * (256 - a) + k * a) div 256" "(?s * (256 - a) + k * a) div 256 \<le> 1792"
    "0 \<le> ?s * (256 - a) + k * a" "?s * (256 - a) + k * a < 4294967296"
    if "fft_k_smooth_valid st" "a = 24 \<or> a = 48" for a
    using that convex_q8 [of a 512 ?s 1792 k] assms by (auto simp: fft_smooth_inv_def)
  show "fft_smooth_inv (fft_smooth k st)" "fft_k_smooth_valid (fft_smooth k st)"
    using c [of 24] c [of 48] assms by (auto simp: fft_smooth_inv_def fft_smooth_def Let_def)
qed

text \<open>
  Whatever the window holds, the estimator keeps the smoothed bin inside the band, and a
  non-zero result is the rate of the smoothed bin.
\<close>

lemma shFftBpm_inv:
  assumes "fft_smooth_inv st" "shFftBpm fs x n st = (bpm, mag, st')"
  shows "fft_smooth_inv st'" and "is_u16 mag"
    and "bpm = 0 \<or> (40 \<le> bpm \<and> bpm \<le> 180 \<and> 32 \<le> n \<and> fft_k_smooth_valid st' \<and>
           bpm = shBinQ8ToBpm fs (fft_k_smooth_q8 st'))"
proof -
  define mean where "mean = fft_frame_mean x n"
  obtain re im where ri: "the (shFftRadix2 (map (fft_windowed x n mean
      (fft_prescale (fft_frame_peak x n mean) 0)) [0..<64]) (replicate 64 0)) = (re, im)"
    by (cases "the (shFftRadix2 (map (fft_windowed x n mean
      (fft_prescale (fft_frame_peak x n mean) 0)) [0..<64]) (replicate 64 0))")
  let ?b = "fft_search re im"
  let ?s = "fft_smooth (fft_interp re im ?b) st"
  have s: "fft_smooth_inv ?s \<and> fft_k_smooth_valid ?s" if "fb_k ?b \<noteq> 0"
    using fft_interp_range [of ?b re im] that fft_search_max(2) [of re im]
      fft_smooth_range [OF assms(1), of "fft_interp re im ?b"] by auto
  have eq: "(bpm, mag, st') = shFftBpm fs x n st" using assms(2) by simp
  show "fft_smooth_inv st'" "is_u16 mag"
    "bpm = 0 \<or> (40 \<le> bpm \<and> bpm \<le> 180 \<and> 32 \<le> n \<and> fft_k_smooth_valid st' \<and>
           bpm = shBinQ8ToBpm fs (fft_k_smooth_q8 st'))"
    using eq s assms(1) unfolding shFftBpm_def Let_def mean_def [symmetric] ri
    by (auto simp: fft_smooth_inv_def crange Let_def split: if_splits)
qed

section \<open>Properties\<close>

text \<open>the bit-reversal loop of \<open>shFftRadix2\<close>, whose inner loop would spin for ever on a
  zero mask, returns and leaves every sample at its six-bit reversed index.\<close>

theorem fft_bitrev_reverses:
  assumes "length re = 64" "length im = 64"
  shows "fft_bitrev re im =
    Some (map (\<lambda>i. re ! bitrev6 i) [0..<64], map (\<lambda>i. im ! bitrev6 i) [0..<64])"
  by (rule fft_bitrev_correct [OF assms])

theorem fft_bitrev_reverses_witness:
  "map_option (\<lambda>p. fst p ! 1) (fft_bitrev (map int [0..<64]) (replicate 64 0)) = Some 32"
proof -
  have "bitrev6 1 = 32" by (simp add: bitrev6_def)
  then show ?thesis using fft_bitrev_reverses [of "map int [0..<64]" "replicate 64 0"]
    by (simp del: upt_rec_numeral)
qed

text \<open>The fixed-point transform does not overflow on small samples: for a window of samples of magnitude up to
  8192 the scaled frame is transformed without any 32-bit wrap-around (the result is that of
  the same butterflies over the integers) and the spectrum stays below 186624 in modulus.\<close>

lemma shFftRadix2_no_overflow:
  assumes "\<forall>i<n. \<bar>x ! i\<bar> \<le> 8192"
  shows "let mean = fft_frame_mean x n;
             frame = map (fft_windowed x n mean (fft_prescale (fft_frame_peak x n mean) 0)) [0..<64]
         in shFftRadix2 frame (replicate 64 0) = Some (fft_exact frame (replicate 64 0)) \<and>
            mods_le 186624 (fft_exact frame (replicate 64 0))"
  using fft_frame_safe [OF assms] by (simp add: Let_def fft_spectrum_def del: upt_rec_numeral)

text \<open>The transform as written is not a discrete Fourier transform: the branch taken by
  \<open>a[p]\<close> is halved at every stage and the branch taken by \<open>a[q]\<close> is not, so the weight of a
  sample depends on its index. An impulse of 16384 at sample 0 gives a flat spectrum of 256,
  the same impulse at sample 32 a spectrum of 512 and twice as much again for every further
  one bit of the index.\<close>

definition fft_impulse :: "nat \<Rightarrow> int list" where
  "fft_impulse i = (replicate 64 0)[i := 16384]"

theorem fft_gain_depends_on_index:
  "map_option (\<lambda>p. fst p ! 0) (shFftRadix2 (fft_impulse 0) (replicate 64 0)) = Some 256 \<and>
   map_option (\<lambda>p. fst p ! 0) (shFftRadix2 (fft_impulse 32) (replicate 64 0)) = Some 511 \<and>
   map_option (\<lambda>p. fst p ! 0) (shFftRadix2 (fft_impulse 63) (replicate 64 0)) = Some 16373"
  by code_simp

text \<open>the spectral estimator keeps its smoothed bin inside the heart-rate band whatever the
  window holds, and a non-zero result is the rate of that bin, between 40 and 180 BPM.\<close>

theorem shFftBpm_in_band:
  assumes "fft_smooth_inv st" "shFftBpm fs x n st = (bpm, mag, st')"
  shows "fft_smooth_inv st' \<and> is_u16 mag \<and>
    (bpm = 0 \<or> (40 \<le> bpm \<and> bpm \<le> 180 \<and> 32 \<le> n \<and> fft_k_smooth_valid st' \<and>
       512 \<le> fft_k_smooth_q8 st' \<and> fft_k_smooth_q8 st' \<le> 1792 \<and>
       bpm = shBinQ8ToBpm fs (fft_k_smooth_q8 st')))"
  using shFftBpm_inv [OF assms] by (auto simp: fft_smooth_inv_def)

theorem shFftBpm_in_band_witness:
  "fft_smooth_inv shFftSmoothReset \<and> shFftBpm 6400 (replicate 40 5) 31 shFftSmoothReset = (0, 0, shFftSmoothReset) \<and>
   fft_smooth_inv shFftSmoothReset"
  using shFftBpm_in_band [of shFftSmoothReset 6400 "replicate 40 5" 31 0 0 shFftSmoothReset]
  by (simp add: fft_smooth_inv_def shFftSmoothReset_def shFftBpm_def)

text \<open>the search returns the strongest bin of the band: no bin from 2 to 7 carries more power
  than the one reported, and a reported bin carries power.\<close>

theorem fft_search_strongest:
  "(fb_k (fft_search re im) = 0 \<or> 2 \<le> fb_k (fft_search re im) \<and> fb_k (fft_search re im) \<le> 7 \<and>
      fb_p (fft_search re im) = fft_power re im (fb_k (fft_search re im)) \<and> 0 < fb_p (fft_search re im)) \<and>
   list_all (\<lambda>k. fft_power re im k \<le> fb_p (fft_search re im)) [2..<8]"
  using fft_search_inv [of re im] by (auto simp: fft_best_inv_def list_all_iff)

end
