(* ===== verification/Resp.thy ===== *)
theory Resp
  imports Dsp Sample_Window
begin

text \<open>
  The respiration path of \<^verbatim>\<open>smart_helmet_vitals.c\<close>: \<open>shRespPush\<close> (decimation by averaging
  eight samples, slow DC removal, ring buffer) and \<open>shRespBpm\<close> (autocorrelation peak of the
  decimated window). The sampling rate \<open>fs_q8\<close> is an argument.
\<close>

record resp_state =
  resp_ring :: "int ring"
  resp_decim_n :: int
  resp_decim_acc :: int
  resp_dc :: int
  resp_dc_valid :: bool

definition resp_init :: resp_state where
  "resp_init = \<lparr>resp_ring = ring_init 64 0, resp_decim_n = 0, resp_decim_acc = 0,
     resp_dc = 0, resp_dc_valid = False\<rparr>"

text \<open>The DC tracker is Q8; \<open>div 256\<close> is the arithmetic shift \<open>>> 8\<close>.\<close>

definition resp_track :: "int \<Rightarrow> resp_state \<Rightarrow> int" where
  "resp_track v r =
     (if \<not> resp_dc_valid r then s32 (v * 256)
      else s32 (resp_dc r + s32 (s32 (s32 (v * 256) - resp_dc r) * 12) sdiv 256))"

definition shRespPush :: "int \<Rightarrow> resp_state \<Rightarrow> resp_state" where
  "shRespPush mv r =
     (let acc = s32 (resp_decim_acc r + mv); n = u8 (resp_decim_n r + 1) in
      if n < 8 then r\<lparr>resp_decim_acc := acc, resp_decim_n := n\<rparr>
      else let v = acc sdiv 8;
               dc = resp_track v r;
               y = clamp_s16 (s32 (v - dc div 256))
           in r\<lparr>resp_decim_acc := 0, resp_decim_n := 0, resp_dc := dc, resp_dc_valid := True,
                resp_ring := ring_push 64 (s16 y) (resp_ring r)\<rparr>)"

function resp_shift :: "int \<Rightarrow> int \<Rightarrow> nat \<Rightarrow> nat" where
  "resp_shift peak n shift =
     (if shift < 15 \<and>
         u32 (u32 ((peak div 2 ^ shift) * (peak div 2 ^ shift)) * n) > 0x3fffffff
      then resp_shift peak n (shift + 1) else shift)"
  by pat_completeness auto
termination
  by (relation "measure (\<lambda>(_, _, s). 15 - s)") auto

declare resp_shift.simps [simp del]

definition resp_r0 :: "int list \<Rightarrow> nat \<Rightarrow> nat \<Rightarrow> int" where
  "resp_r0 x n shift =
     fold (\<lambda>i s. let v = (x ! i) div 2 ^ shift in s32 (s + s32 (v * v))) [0..<n] 0"

definition resp_acc :: "int list \<Rightarrow> nat \<Rightarrow> nat \<Rightarrow> nat \<Rightarrow> int" where
  "resp_acc x n shift lag =
     fold (\<lambda>i s. s32 (s + s32 ((x ! i) div 2 ^ shift * ((x ! (i + lag)) div 2 ^ shift))))
       [0..<n - lag] 0"

definition resp_best :: "int list \<Rightarrow> nat \<Rightarrow> nat \<Rightarrow> nat \<Rightarrow> nat \<Rightarrow> nat \<times> int" where
  "resp_best x n shift min_lag max_lag =
     fold (\<lambda>lag (best_lag, best_r).
             let acc = resp_acc x n shift lag
             in if best_lag = 0 \<or> acc > best_r then (lag, acc) else (best_lag, best_r))
       [min_lag..<Suc max_lag] (0, 0)"

text \<open>
  The tail of \<open>shRespBpm\<close> from the energy \<open>r0\<close> on, and the whole function. The result is the
  rate (0: none) and \<open>*quality_q8\<close>.
\<close>

definition resp_rate :: "int \<Rightarrow> int list \<Rightarrow> nat \<Rightarrow> nat \<Rightarrow> nat \<Rightarrow> nat \<Rightarrow> int \<times> int" where
  "resp_rate fs_resp_q8 x n shift min_lag max_lag =
     (let r0 = resp_r0 x n shift in
      if r0 \<le> 0 then (0, 0)
      else let (best_lag, best_r) = resp_best x n shift min_lag max_lag in
      if best_lag = 0 \<or> best_r \<le> 0 then (0, 0)
      else let den0 = r0 div 256;
               den = (if den0 = 0 then 1 else den0);
               q = best_r div den;
               quality = (if q > 0xffff then 0xffff else u16 q)
           in if q < 64 then (0, quality)
              else let bpm = u16 (fs_resp_q8 * 60 div (int best_lag * 256))
                   in if bpm < 8 \<or> bpm > 30 then (0, quality) else (bpm, quality))"

definition resp_min_lag :: "int \<Rightarrow> nat" where
  "resp_min_lag fs_resp_q8 =
     (let l = nat (u16 (fs_resp_q8 * 60 div (30 * 256))) in if l < 2 then 2 else l)"

definition resp_max_lag :: "int \<Rightarrow> nat" where
  "resp_max_lag fs_resp_q8 = nat (u16 (fs_resp_q8 * 60 div (8 * 256)))"

definition shRespBpm :: "int \<Rightarrow> int ring \<Rightarrow> int \<times> int" where
  "shRespBpm fs w =
     (let fs_resp_q8 = u16 (fs div 8) in
      if fs_resp_q8 = 0 then (0, 0)
      else let min_lag = resp_min_lag fs_resp_q8;
               max_lag0 = resp_max_lag fs_resp_q8;
               n = rcnt w
           in if int n < u8 (int max_lag0 * 2) then (0, 0)
              else let max_lag = (if max_lag0 \<ge> n then n - 1 else max_lag0) in
              if max_lag < min_lag then (0, 0)
              else let x = ring_ordered 64 n w; peak = shMaxAbsI16 x n in
              if peak = 0 then (0, 0)
              else resp_rate fs_resp_q8 x n (resp_shift peak (int n) 0) min_lag max_lag)"

section \<open>The decimator and the DC tracker\<close>

definition resp_inv :: "resp_state \<Rightarrow> bool" where
  "resp_inv r \<longleftrightarrow>
     ring_inv 64 (resp_ring r) \<and> (\<forall>x \<in> set (rbuf (resp_ring r)). is_s16 x) \<and>
     0 \<le> resp_decim_n r \<and> resp_decim_n r < 8 \<and>
     0 \<le> resp_decim_acc r \<and> resp_decim_acc r \<le> 65535 * resp_decim_n r \<and>
     0 \<le> resp_dc r \<and> resp_dc r \<le> 16776960"

lemma resp_init_inv: "resp_inv resp_init"
  by (simp add: resp_inv_def resp_init_def ring_inv_init ring_init_def ring_inv_def crange)

lemma resp_track_range:
  assumes "0 \<le> v" "v \<le> 65535" "0 \<le> resp_dc r" "resp_dc r \<le> 16776960"
  shows "0 \<le> resp_track v r" "resp_track v r \<le> 16776960"
proof -
  let ?d = "v * 256 - resp_dc r"
  have "min 0 ?d \<le> (?d * 12) sdiv 256" "(?d * 12) sdiv 256 \<le> max 0 ?d"
    by (rule sdiv_between; simp)+
  moreover have "s32 (s32 (s32 (v * 256) - resp_dc r) * 12) = ?d * 12" using assms by simp
  ultimately show "0 \<le> resp_track v r" "resp_track v r \<le> 16776960"
    using assms by (auto simp: resp_track_def)
qed

lemma shRespPush_inv:
  assumes "resp_inv r" "is_u16 mv"
  shows "resp_inv (shRespPush mv r)"
proof -
  note d = assms(1) [unfolded resp_inv_def]
  have acc: "s32 (resp_decim_acc r + mv) = resp_decim_acc r + mv"
    and n: "u8 (resp_decim_n r + 1) = resp_decim_n r + 1"
    using d assms(2) by (simp_all add: crange)
  show ?thesis
  proof (cases "resp_decim_n r + 1 < 8")
    case True
    with d assms(2) show ?thesis by (simp add: shRespPush_def acc n resp_inv_def crange)
  next
    case False
    then have k: "resp_decim_n r = 7" using d by simp
    let ?v = "(resp_decim_acc r + mv) sdiv 8"
    have "0 \<le> resp_decim_acc r + mv" "resp_decim_acc r + mv \<le> 524280"
      using d k assms(2) by (simp_all add: crange)
    moreover have "0 \<le> t div 8 \<and> t div 8 \<le> 65535" if "0 \<le> t" "t \<le> 524280" for t :: int
      using that by presburger
    ultimately have v: "0 \<le> ?v" "?v \<le> 65535" by (simp_all add: sdiv_pos)
    have "\<forall>x \<in> set (rbuf (ring_push 64 (s16 z) (resp_ring r))). is_s16 x" for z
      using d by (intro ring_all_push) simp_all
    with d k resp_track_range [OF v, of r] show ?thesis
      by (simp add: shRespPush_def acc Let_def resp_inv_def ring_inv_push)
  qed
qed

section \<open>The autocorrelation is exact\<close>

lemma fold_s32_sum:
  assumes "\<And>i. i < n \<Longrightarrow> \<bar>f i\<bar> \<le> B" "int n * B \<le> 2147483647" "0 \<le> B"
  shows "fold (\<lambda>i s. s32 (s + s32 (f i))) [0..<n] 0 = (\<Sum>i<n. f i)"
    and "\<bar>\<Sum>i<n. f i\<bar> \<le> int n * B"
proof -
  have part: "\<bar>\<Sum>i<k. f i\<bar> \<le> int k * B" if "k \<le> n" for k
    using that
  proof (induction k)
    case (Suc k)
    then have "\<bar>\<Sum>i<k. f i\<bar> \<le> int k * B" "\<bar>f k\<bar> \<le> B" using assms(1) by simp_all
    then show ?case by (simp add: algebra_simps abs_le_iff)
  qed simp
  have wrap: "s32 x = x" if "\<bar>x\<bar> \<le> int k * B" "k \<le> n" for x k
  proof (rule s32_abs)
    have "int k * B \<le> int n * B" using that(2) assms(3) by (simp add: mult_right_mono)
    with that(1) assms(2) show "\<bar>x\<bar> \<le> 2147483647" by linarith
  qed
  have "fold (\<lambda>i s. s32 (s + s32 (f i))) [0..<k] 0 = (\<Sum>i<k. f i)" if "k \<le> n" for k
    using that
  proof (induction k)
    case (Suc k)
    then have "s32 (f k) = f k" using wrap [of "f k" 1] assms(1) [of k] by simp
    moreover have "s32 (\<Sum>i<Suc k. f i) = (\<Sum>i<Suc k. f i)"
      by (rule wrap [OF part [OF Suc.prems] Suc.prems])
    ultimately show ?case using Suc by simp
  qed simp
  then show "fold (\<lambda>i s. s32 (s + s32 (f i))) [0..<n] 0 = (\<Sum>i<n. f i)" by simp
  show "\<bar>\<Sum>i<n. f i\<bar> \<le> int n * B" by (rule part) simp
qed

lemma resp_shift_bound:
  assumes "0 \<le> peak" "peak \<le> 8191" "0 \<le> n" "n \<le> 64" "shift \<le> 15"
  shows "(peak div 2 ^ resp_shift peak n shift)\<^sup>2 * n \<le> 0x3fffffff"
  using assms
proof (induction peak n shift rule: resp_shift.induct)
  case (1 peak n shift)
  let ?p = "peak div 2 ^ shift"
  have p: "0 \<le> ?p" "?p \<le> 8191"
    using "1.prems" zdiv_mono2 [of peak 1 "2 ^ shift"] by (simp_all add: pos_imp_zdiv_nonneg_iff)
  have pp: "?p * ?p \<le> 8191 * 8191" using p by (intro mult_mono) auto
  have "?p * ?p * n \<le> 8191 * 8191 * 64" using pp "1.prems" p by (intro mult_mono) auto
  then have e: "u32 (u32 (?p * ?p) * n) = ?p\<^sup>2 * n"
    using pp p "1.prems" by (simp add: power2_eq_square ccast)
  show ?case
  proof (cases "shift < 15 \<and> u32 (u32 (?p * ?p) * n) > 0x3fffffff")
    case True
    with 1 show ?thesis by (simp add: resp_shift.simps [of peak n shift])
  next
    case False
    then have r: "resp_shift peak n shift = shift"
      by (subst resp_shift.simps) (simp only: if_False)
    show ?thesis
    proof (cases "shift < 15")
      case True
      with False e show ?thesis by (simp add: r)
    next
      case False
      then have "?p = 0" using "1.prems" by (simp add: div_pos_pos_trivial)
      then show ?thesis by (simp add: r)
    qed
  qed
qed

lemma div_pow_abs:
  assumes "\<bar>v\<bar> \<le> (peak::int)"
  shows "\<bar>v div 2 ^ s\<bar> \<le> peak div 2 ^ s + 1"
proof -
  have "v div 2 ^ s \<le> peak div 2 ^ s" using assms by (intro zdiv_mono1) auto
  moreover have "(- peak) div 2 ^ s \<le> v div 2 ^ s" using assms by (intro zdiv_mono1) auto
  moreover have "- (peak div 2 ^ s) - 1 \<le> (- peak) div 2 ^ s"
    by (cases "peak mod 2 ^ s = 0") (simp_all add: zdiv_zminus1_eq_if)
  ultimately show ?thesis by linarith
qed

definition resp_safe :: "int list \<Rightarrow> nat \<Rightarrow> nat \<Rightarrow> bool" where
  "resp_safe x n s \<longleftrightarrow> (\<exists>P. 0 \<le> P \<and> int n * P\<^sup>2 \<le> 2147483647 \<and> (\<forall>i<n. \<bar>(x ! i) div 2 ^ s\<bar> \<le> P))"

lemma resp_shift_safe:
  assumes "n \<le> 64" "peak \<le> 8191" "0 \<le> peak" "\<forall>i<n. \<bar>x ! i\<bar> \<le> peak"
  shows "resp_safe x n (resp_shift peak (int n) 0)"
proof -
  let ?s = "resp_shift peak (int n) 0"
  let ?p = "peak div 2 ^ ?s"
  have b: "?p\<^sup>2 * int n \<le> 0x3fffffff" using assms by (intro resp_shift_bound) simp_all
  have p: "0 \<le> ?p" "?p \<le> 8191"
    using assms zdiv_mono2 [of peak 1 "2 ^ ?s"] by (simp_all add: pos_imp_zdiv_nonneg_iff)
  have "?p * int n \<le> 8191 * 64" using p assms(1) by (intro mult_mono) auto
  moreover have "int n * (?p + 1)\<^sup>2 = ?p\<^sup>2 * int n + 2 * (?p * int n) + int n"
    by (simp add: power2_eq_square algebra_simps)
  ultimately have "int n * (?p + 1)\<^sup>2 \<le> 2147483647" using b assms(1) by linarith
  with p assms(4) show ?thesis
    unfolding resp_safe_def by (intro exI [of _ "?p + 1"]) (auto intro: div_pow_abs)
qed

lemma abs_mult_le_square: "\<bar>a\<bar> \<le> P \<Longrightarrow> \<bar>b\<bar> \<le> P \<Longrightarrow> \<bar>a * b\<bar> \<le> (P::int)\<^sup>2"
  unfolding abs_mult power2_eq_square by (intro mult_mono) auto

lemma resp_r0_exact:
  assumes "resp_safe x n s"
  shows "resp_r0 x n s = (\<Sum>i<n. ((x ! i) div 2 ^ s)\<^sup>2)"
proof -
  obtain P where P: "0 \<le> P" "int n * P\<^sup>2 \<le> 2147483647" "\<forall>i<n. \<bar>(x ! i) div 2 ^ s\<bar> \<le> P"
    using assms by (auto simp: resp_safe_def)
  have "\<bar>(x ! i) div 2 ^ s * ((x ! i) div 2 ^ s)\<bar> \<le> P\<^sup>2" if "i < n" for i
    using P(3) that by (intro abs_mult_le_square) simp_all
  from fold_s32_sum(1) [OF this P(2)] show ?thesis
    by (simp add: resp_r0_def Let_def power2_eq_square)
qed

lemma resp_acc_exact:
  assumes "resp_safe x n s" "lag < n"
  shows "resp_acc x n s lag = (\<Sum>i<n - lag. (x ! i) div 2 ^ s * ((x ! (i + lag)) div 2 ^ s))"
proof -
  obtain P where P: "0 \<le> P" "int n * P\<^sup>2 \<le> 2147483647" "\<forall>i<n. \<bar>(x ! i) div 2 ^ s\<bar> \<le> P"
    using assms by (auto simp: resp_safe_def)
  have "int (n - lag) * P\<^sup>2 \<le> int n * P\<^sup>2" by (intro mult_right_mono) simp_all
  with P show ?thesis unfolding resp_acc_def
    by (intro fold_s32_sum(1) [where B = "P\<^sup>2"]) (simp_all add: abs_mult_le_square)
qed

text \<open>Cauchy and Schwarz: no lag correlates better than lag zero.\<close>

lemma resp_acc_le_r0:
  assumes "resp_safe x n s" "lag < n"
  shows "resp_acc x n s lag \<le> resp_r0 x n s"
proof -
  let ?v = "\<lambda>i. (x ! i) div 2 ^ s"
  have "2 * (\<Sum>i<n - lag. ?v i * ?v (i + lag)) \<le> (\<Sum>i<n - lag. (?v i)\<^sup>2 + (?v (i + lag))\<^sup>2)"
    unfolding sum_distrib_left
  proof (rule sum_mono)
    fix i show "2 * (?v i * ?v (i + lag)) \<le> (?v i)\<^sup>2 + (?v (i + lag))\<^sup>2"
      using zero_le_power2 [of "?v i - ?v (i + lag)"] by (simp add: power2_diff)
  qed
  also have "\<dots> = (\<Sum>i<n - lag. (?v i)\<^sup>2) + (\<Sum>i\<in>{lag..<n}. (?v i)\<^sup>2)"
    using sum.shift_bounds_nat_ivl [of "\<lambda>i. (?v i)\<^sup>2" 0 lag "n - lag"] assms(2)
    by (simp add: sum.distrib lessThan_atLeast0)
  also have "\<dots> \<le> (\<Sum>i<n. (?v i)\<^sup>2) + (\<Sum>i<n. (?v i)\<^sup>2)"
    by (intro add_mono sum_mono2) auto
  finally show ?thesis
    by (simp add: resp_acc_exact [OF assms] resp_r0_exact [OF assms(1)])
qed

section \<open>What the estimator returns\<close>

definition resp_argmax :: "(nat \<Rightarrow> int) \<Rightarrow> nat \<Rightarrow> nat \<Rightarrow> nat \<times> int \<Rightarrow> bool" where
  "resp_argmax f lo m br \<longleftrightarrow>
     (if m \<le> lo then br = (0, 0)
      else lo \<le> fst br \<and> fst br < m \<and> snd br = f (fst br) \<and> (\<forall>l. lo \<le> l \<and> l < m \<longrightarrow> f l \<le> snd br))"

lemma resp_argmax_step:
  assumes "resp_argmax f lo m br" "lo \<le> m" "0 < lo"
  shows "resp_argmax f lo (Suc m) (if fst br = 0 \<or> f m > snd br then (m, f m) else br)"
proof (cases "m = lo")
  case False
  with assms have "\<forall>l. lo \<le> l \<and> l < Suc m \<longrightarrow> f l \<le> (if f m > snd br then f m else snd br)"
    by (auto simp: resp_argmax_def less_Suc_eq dest: order_trans [OF _ less_imp_le])
  with False assms show ?thesis by (auto simp: resp_argmax_def)
qed (use assms in \<open>auto simp: resp_argmax_def less_Suc_eq\<close>)

lemma resp_best_argmax:
  assumes "0 < lo"
  shows "resp_argmax (resp_acc x n s) lo (Suc hi) (resp_best x n s lo hi)"
proof -
  let ?st = "\<lambda>lag br. if fst br = 0 \<or> resp_acc x n s lag > snd br then (lag, resp_acc x n s lag) else br"
  have "(\<lambda>lag (best_lag, best_r). let acc = resp_acc x n s lag
      in if best_lag = 0 \<or> acc > best_r then (lag, acc) else (best_lag, best_r)) = ?st"
    by (intro ext) (auto simp: Let_def split: prod.splits)
  then have eq: "resp_best x n s lo hi = fold ?st [lo..<Suc hi] (0, 0)"
    unfolding resp_best_def by (simp only:)
  have "resp_argmax (resp_acc x n s) lo m (fold ?st [lo..<m] (0, 0))" if "lo \<le> m" for m
    using that
  proof (induction m rule: nat_induct_at_least)
    case base
    then show ?case by (simp add: resp_argmax_def)
  next
    case (Suc m)
    then show ?case using resp_argmax_step [OF Suc.IH Suc.hyps assms] by simp
  qed
  moreover have "resp_argmax (resp_acc x n s) lo m (fold ?st [lo..<m] (0, 0))" if "m < lo" for m
    using that by (simp add: resp_argmax_def)
  ultimately show ?thesis unfolding eq by (meson not_le)
qed

lemma quality_bound:
  assumes "0 < (r0::int)" "0 < r" "r \<le> r0"
  shows "r div (if r0 div 256 = 0 then 1 else r0 div 256) \<le> 511"
proof (cases "r0 div 256 = 0")
  case True
  then have "r0 < 256" using assms(1) by (simp add: zdiv_eq_0_iff)
  with True assms show ?thesis by simp
next
  case False
  let ?d = "r0 div 256"
  have d: "0 < ?d" using False assms(1) by (simp add: pos_imp_zdiv_pos_iff order_less_le pos_imp_zdiv_nonneg_iff)
  have "r0 < 256 * ?d + 256" by presburger
  then have "r < 512 * ?d" using d assms(3) by linarith
  then have "r div ?d < 512" by (rule div_less_mult [OF d])
  with False show ?thesis by simp
qed

lemma resp_rate_sound:
  assumes safe: "resp_safe x n s" and lags: "2 \<le> lo" "hi < n"
    and res: "resp_rate f x n s lo hi = (bpm, q)"
  shows "0 \<le> q \<and> q \<le> 511 \<and> (bpm = 0 \<or> 8 \<le> bpm \<and> bpm \<le> 30 \<and> 64 \<le> q \<and>
      (\<exists>lag. lo \<le> lag \<and> lag \<le> hi \<and> bpm = u16 (f * 60 div (int lag * 256)) \<and> 0 < resp_acc x n s lag \<and>
         (\<forall>l. lo \<le> l \<and> l \<le> hi \<longrightarrow> resp_acc x n s l \<le> resp_acc x n s lag)))"
proof (cases "resp_rate f x n s lo hi = (0, 0)")
  case True
  with res show ?thesis by simp
next
  case False
  obtain bl br where best: "resp_best x n s lo hi = (bl, br)" by (cases "resp_best x n s lo hi")
  let ?r0 = "resp_r0 x n s"
  let ?q = "br div (if ?r0 div 256 = 0 then 1 else ?r0 div 256)"
  have pos: "0 < br" "0 < ?r0" "bl \<noteq> 0"
    using False by (auto simp: resp_rate_def best Let_def split: if_splits)
  have arg: "lo \<le> bl" "bl \<le> hi" "br = resp_acc x n s bl"
    "\<forall>l. lo \<le> l \<and> l \<le> hi \<longrightarrow> resp_acc x n s l \<le> br"
    using resp_best_argmax [of lo x n s hi] best lags pos(3)
    by (auto simp: resp_argmax_def less_Suc_eq_le split: if_splits)
  have "br \<le> ?r0" using resp_acc_le_r0 [OF safe, of bl] arg lags by simp
  then have ub: "?q \<le> 511" by (rule quality_bound [OF pos(2,1)])
  have lb: "0 \<le> ?q" using pos by (simp add: pos_imp_zdiv_nonneg_iff div_int_pos_iff)
  have "q = ?q \<and> (bpm = 0 \<or> 64 \<le> ?q \<and> 8 \<le> bpm \<and> bpm \<le> 30 \<and> bpm = u16 (f * 60 div (int bl * 256)))"
    using res pos ub lb by (auto simp: resp_rate_def best Let_def split: if_splits)
  with ub lb arg pos show ?thesis by auto
qed

lemma ring_ordered_in:
  assumes "ring_inv N w" "n \<le> N"
  shows "set (ring_ordered N n w) \<subseteq> set (rbuf w)"
  using assms by (auto simp: ring_ordered_def ring_inv_def Let_def)

lemma shRespBpm_cases:
  "shRespBpm fs w = (0, 0) \<or>
   (let f = u16 (fs div 8); n = rcnt w; x = ring_ordered 64 n w; hi = min (n - 1) (resp_max_lag f) in
    0 < n \<and> resp_min_lag f \<le> hi \<and>
    shRespBpm fs w = resp_rate f x n (resp_shift (shMaxAbsI16 x n) (int n) 0) (resp_min_lag f) hi)"
proof (cases "shRespBpm fs w = (0, 0)")
  case False
  let ?f = "u16 (fs div 8)" and ?n = "rcnt w"
  let ?x = "ring_ordered 64 ?n w"
  let ?hi = "if resp_max_lag ?f \<ge> ?n then ?n - 1 else resp_max_lag ?f"
  have g: "?f \<noteq> 0" "\<not> int ?n < u8 (int (resp_max_lag ?f) * 2)" "\<not> ?hi < resp_min_lag ?f"
      "shMaxAbsI16 ?x ?n \<noteq> 0"
    using False unfolding shRespBpm_def Let_def by metis+
  have eq: "shRespBpm fs w = resp_rate ?f ?x ?n (resp_shift (shMaxAbsI16 ?x ?n) (int ?n) 0) (resp_min_lag ?f) ?hi"
    unfolding shRespBpm_def Let_def by (simp only: g if_False)
  have "2 \<le> resp_min_lag ?f" by (simp add: resp_min_lag_def Let_def)
  then have "2 \<le> ?hi" using g(3) by linarith
  then have h: "0 < ?n" "?hi = min (?n - 1) (resp_max_lag ?f)" by (auto split: if_splits)
  have "resp_min_lag ?f \<le> ?hi" using g(3) by simp
  with eq have "0 < ?n \<and> resp_min_lag ?f \<le> min (?n - 1) (resp_max_lag ?f) \<and>
      shRespBpm fs w = resp_rate ?f ?x ?n (resp_shift (shMaxAbsI16 ?x ?n) (int ?n) 0)
        (resp_min_lag ?f) (min (?n - 1) (resp_max_lag ?f))"
    unfolding h(2) using h(1) by blast
  then show ?thesis unfolding Let_def by (rule disjI2)
qed simp

lemma shRespBpm_sound_aux:
  assumes w: "ring_inv 64 w" "\<forall>x \<in> set (rbuf w). \<bar>x\<bar> \<le> 8191"
    and res: "shRespBpm fs w = (bpm, q)"
  defines "f \<equiv> u16 (fs div 8)" and "n \<equiv> rcnt w"
  defines "x \<equiv> ring_ordered 64 n w"
  defines "s \<equiv> resp_shift (shMaxAbsI16 x n) (int n) 0"
  shows "0 \<le> q \<and> q \<le> 511 \<and> (bpm = 0 \<or> 8 \<le> bpm \<and> bpm \<le> 30 \<and> 64 \<le> q \<and>
      (\<exists>lag. resp_min_lag f \<le> lag \<and> lag \<le> min (n - 1) (resp_max_lag f) \<and>
         bpm = u16 (f * 60 div (int lag * 256)) \<and> 0 < resp_acc x n s lag \<and>
         (\<forall>l. resp_min_lag f \<le> l \<and> l \<le> min (n - 1) (resp_max_lag f) \<longrightarrow>
              resp_acc x n s l \<le> resp_acc x n s lag)))"
proof (cases "shRespBpm fs w = (0, 0)")
  case True
  with res show ?thesis by simp
next
  case False
  then have c: "0 < n" "resp_min_lag f \<le> min (n - 1) (resp_max_lag f)"
      "shRespBpm fs w = resp_rate f x n s (resp_min_lag f) (min (n - 1) (resp_max_lag f))"
    using shRespBpm_cases [of fs w] unfolding Let_def f_def n_def x_def s_def by blast+
  have n: "n \<le> 64" using w(1) by (simp add: ring_inv_def n_def)
  have xs: "\<forall>i<n. \<bar>x ! i\<bar> \<le> 8191" "length x = n"
    using ring_ordered_in [OF w(1) n] w(2) by (auto simp: x_def subset_iff)
  have pk: "\<forall>i<n. \<bar>x ! i\<bar> \<le> shMaxAbsI16 x n" "0 \<le> shMaxAbsI16 x n" "shMaxAbsI16 x n \<le> 8191"
    using shMaxAbsI16_max [of n x] xs(1) by (force simp: crange abs_le_iff)+
  have "resp_safe x n s" unfolding s_def by (rule resp_shift_safe [OF n pk(3,2,1)])
  moreover have "2 \<le> resp_min_lag f" by (simp add: resp_min_lag_def Let_def)
  ultimately show ?thesis
    by (intro resp_rate_sound) (use c res in auto)
qed

section \<open>Properties\<close>

text \<open>soundness of the respiration estimate: the quality never exceeds 511, and a non-zero
  rate lies in 8 to 30 breaths per minute, has quality at least 64 and is the rate of the lag
  with the largest (positive) autocorrelation of the band.\<close>

theorem shRespBpm_sound:
  assumes "ring_inv 64 w" "\<forall>x \<in> set (rbuf w). \<bar>x\<bar> \<le> 8191" "shRespBpm fs w = (bpm, q)"
  shows "let f = u16 (fs div 8); n = rcnt w; x = ring_ordered 64 n w;
             r = resp_acc x n (resp_shift (shMaxAbsI16 x n) (int n) 0);
             lo = resp_min_lag f; hi = min (n - 1) (resp_max_lag f)
         in 0 \<le> q \<and> q \<le> 511 \<and> (bpm = 0 \<or> 8 \<le> bpm \<and> bpm \<le> 30 \<and> 64 \<le> q \<and>
              (\<exists>lag. lo \<le> lag \<and> lag \<le> hi \<and> bpm = u16 (f * 60 div (int lag * 256)) \<and> 0 < r lag \<and>
                 (\<forall>l. lo \<le> l \<and> l \<le> hi \<longrightarrow> r l \<le> r lag)))"
  using shRespBpm_sound_aux [OF assms] by (simp only: Let_def)

definition demo_breath :: "int ring" where
  "demo_breath = \<lparr>rbuf = concat (replicate 8 [10, 7, 0, -7, -10, -7, 0, 7]), ridx = 0, rcnt = 64\<rparr>"

theorem shRespBpm_sound_witness:
  "shRespBpm 6400 demo_breath = (23, 231) \<and> 8 \<le> (23::int) \<and> (231::int) \<le> 511"
proof -
  have e: "shRespBpm 6400 demo_breath = (23, 231)" by code_simp
  have i: "ring_inv 64 demo_breath" "list_all (\<lambda>x. \<bar>x\<bar> \<le> 8191) (rbuf demo_breath)" by code_simp+
  show ?thesis
    using shRespBpm_sound [OF i(1) i(2) [unfolded list_all_iff] e] e by (simp add: Let_def)
qed

text \<open>the decimation and DC removal of the respiration path keep every accumulator in range:
  whatever 16-bit samples arrive, the decimator never overflows, the DC tracker stays inside
  the range of the samples and the buffer holds 16-bit values.\<close>

theorem shRespPush_bounded:
  assumes "\<forall>mv \<in> set mvs. is_u16 mv"
  shows "resp_inv (fold shRespPush mvs resp_init)"
proof -
  have "resp_inv (fold shRespPush mvs r)" if "resp_inv r" for r
    using assms that by (induction mvs arbitrary: r) (simp_all add: shRespPush_inv)
  then show ?thesis using resp_init_inv by blast
qed

theorem shRespPush_bounded_witness:
  "resp_inv (fold shRespPush [65535, 0, 65535, 0, 65535, 0, 65535, 0, 1] resp_init)"
  by (rule shRespPush_bounded) (simp add: crange)

end
