(* ===== verification/Timebase.thy ===== *)
theory Timebase
  imports Helmet_Prelude
begin

text \<open>
  The measured sampling rate of \<^verbatim>\<open>smart_helmet_vitals.c\<close>: the interval accumulation at the
  head of \<open>SmartHelmet_VitalsPushSensInMvAt\<close>, the gap mark of
  \<open>SmartHelmet_VitalsNoteSensDropped\<close> and \<open>shUpdateTimebase\<close>. The record holds the file's
  \<open>fs_q8\<close>, \<open>ts_*\<close> and \<open>timebase_ok\<close> statics and the two fields \<open>fs_x100\<close> and \<open>fs_jitter_pct\<close>
  of \<open>sh_vitals\<close> that only this code writes. The nominal period is 40000 microseconds.
\<close>

record timebase =
  fs_q8 :: int
  ts_prev_us :: int
  ts_prev_valid :: bool
  ts_sum_us :: int
  ts_jit_sum_us :: int
  ts_n :: int
  timebase_ok :: bool
  fs_x100 :: int
  fs_jitter_pct :: int

definition timebase_init :: timebase where
  "timebase_init =
     \<lparr>fs_q8 = u16 (25 * 256), ts_prev_us = 0, ts_prev_valid = False, ts_sum_us = 0,
      ts_jit_sum_us = 0, ts_n = 0, timebase_ok = True, fs_x100 = 0, fs_jitter_pct = 0\<rparr>"

definition ts_note :: "int \<Rightarrow> timebase \<Rightarrow> timebase" where
  "ts_note time_us tb =
     (if time_us = 0 then tb
      else let dt = u32 (time_us - ts_prev_us tb);
               nominal = 1000000 div 25;
               jit = (if dt > nominal then dt - nominal else nominal - dt);
               tb1 = (if ts_prev_valid tb \<and> dt \<ge> nominal div 4 \<and> dt \<le> nominal * 4 then
                        tb\<lparr>ts_sum_us := u32 (ts_sum_us tb + dt),
                           ts_jit_sum_us := u32 (ts_jit_sum_us tb + jit),
                           ts_n := (if ts_n tb < 0xffff then ts_n tb + 1 else ts_n tb)\<rparr>
                      else tb)
           in tb1\<lparr>ts_prev_us := time_us, ts_prev_valid := True\<rparr>)"

definition ts_gap :: "timebase \<Rightarrow> timebase" where
  "ts_gap tb = tb\<lparr>ts_prev_valid := False\<rparr>"

definition shUpdateTimebase :: "timebase \<Rightarrow> timebase" where
  "shUpdateTimebase tb =
     (let nominal = 1000000 div 25;
          tb1 =
            (if ts_n tb \<ge> 25 div 2 then
               let mean = ts_sum_us tb div ts_n tb; jit = ts_jit_sum_us tb div ts_n tb in
               if mean \<noteq> 0 then
                 let hz_x100 = (100 * 1000000) div mean;
                     q8 = (1000000 * 256) div mean;
                     jp = u32 (jit * 100) div mean;
                     jpct = u8 (if jp > 255 then 255 else jp);
                     err_pct = (if mean > nominal then u32 ((mean - nominal) * 100) div nominal
                                else u32 ((nominal - mean) * 100) div nominal)
                 in tb\<lparr>fs_x100 := (if hz_x100 > 0xffff then 0xffff else u16 hz_x100),
                       fs_q8 := (if q8 > 0xffff then 0xffff else u16 q8),
                       fs_jitter_pct := jpct,
                       timebase_ok := (err_pct \<le> 25 \<and> jpct \<le> 20)\<rparr>
               else tb
             else tb\<lparr>fs_q8 := u16 (25 * 256), fs_x100 := 0, fs_jitter_pct := 0,
                     timebase_ok := True\<rparr>)
      in tb1\<lparr>ts_sum_us := 0, ts_jit_sum_us := 0, ts_n := 0\<rparr>)"

section \<open>Invariant\<close>

text \<open>
  The sums stay consistent with a count \<open>m\<close> of accepted intervals, each of 10000 to 160000
  microseconds; up to 26843 intervals between two updates neither sum can wrap.
\<close>

definition ts_inv :: "timebase \<Rightarrow> bool" where
  "ts_inv tb \<longleftrightarrow>
     0 \<le> ts_n tb \<and> ts_n tb \<le> 26843 \<and>
     10000 * ts_n tb \<le> ts_sum_us tb \<and> ts_sum_us tb \<le> 160000 * ts_n tb \<and>
     0 \<le> ts_jit_sum_us tb \<and> ts_jit_sum_us tb \<le> 120000 * ts_n tb"

definition rate_inv :: "timebase \<Rightarrow> bool" where
  "rate_inv tb \<longleftrightarrow> 1600 \<le> fs_q8 tb \<and> fs_q8 tb \<le> 25600 \<and> is_u16 (fs_x100 tb) \<and> is_u8 (fs_jitter_pct tb)"

lemma timebase_init_inv: "ts_inv timebase_init" "rate_inv timebase_init"
  by (simp_all add: ts_inv_def rate_inv_def timebase_init_def crange)

lemma ts_gap_inv: "ts_inv (ts_gap tb) = ts_inv tb" "rate_inv (ts_gap tb) = rate_inv tb"
  by (simp_all add: ts_inv_def rate_inv_def ts_gap_def)

lemma ts_note_rate [simp]:
  "fs_q8 (ts_note t tb) = fs_q8 tb" "fs_x100 (ts_note t tb) = fs_x100 tb"
  "fs_jitter_pct (ts_note t tb) = fs_jitter_pct tb" "timebase_ok (ts_note t tb) = timebase_ok tb"
  by (simp_all add: ts_note_def Let_def)

lemma ts_note_rate_inv: "rate_inv (ts_note t tb) = rate_inv tb"
  by (simp add: rate_inv_def)

lemma ts_note_n: "ts_n (ts_note t tb) \<le> ts_n tb + 1"
  by (simp add: ts_note_def Let_def)

lemma ts_note_inv:
  assumes "ts_inv tb" "ts_n tb < 26843"
  shows "ts_inv (ts_note t tb)"
proof (cases "t \<noteq> 0 \<and> ts_prev_valid tb \<and> u32 (t - ts_prev_us tb) \<ge> 10000 \<and> u32 (t - ts_prev_us tb) \<le> 160000")
  case True
  let ?d = "u32 (t - ts_prev_us tb)"
  let ?j = "if ?d > 40000 then ?d - 40000 else 40000 - ?d"
  have b: "10000 \<le> ?d" "?d \<le> 160000" "0 \<le> ?j" "?j \<le> 120000" using True by auto
  have s: "0 \<le> ts_sum_us tb" "ts_sum_us tb + ?d < 4294967296" "ts_jit_sum_us tb + ?j < 4294967296"
    using assms b unfolding ts_inv_def by linarith+
  then have "ts_sum_us (ts_note t tb) = ts_sum_us tb + ?d"
    "ts_jit_sum_us (ts_note t tb) = ts_jit_sum_us tb + ?j" "ts_n (ts_note t tb) = ts_n tb + 1"
    using True assms b by (simp_all add: ts_note_def Let_def ts_inv_def)
  with assms b show ?thesis unfolding ts_inv_def by linarith
next
  case False
  have "ts_sum_us (ts_note t tb) = ts_sum_us tb" "ts_jit_sum_us (ts_note t tb) = ts_jit_sum_us tb"
    "ts_n (ts_note t tb) = ts_n tb"
    using False by (auto simp: ts_note_def Let_def)
  with assms show ?thesis by (simp add: ts_inv_def)
qed

lemma shUpdateTimebase_ts_inv: "ts_inv (shUpdateTimebase tb)"
  by (simp add: shUpdateTimebase_def ts_inv_def Let_def)

lemma ts_mean_range:
  assumes "ts_inv tb" "12 \<le> ts_n tb"
  shows "10000 \<le> ts_sum_us tb div ts_n tb" "ts_sum_us tb div ts_n tb \<le> 160000"
    "0 \<le> ts_jit_sum_us tb div ts_n tb" "ts_jit_sum_us tb div ts_n tb \<le> 120000"
proof -
  have n: "0 < ts_n tb" using assms(2) by simp
  have "(10000 * ts_n tb) div ts_n tb \<le> ts_sum_us tb div ts_n tb"
    "ts_sum_us tb div ts_n tb \<le> (160000 * ts_n tb) div ts_n tb"
    "ts_jit_sum_us tb div ts_n tb \<le> (120000 * ts_n tb) div ts_n tb"
    using assms n by (intro zdiv_mono1; simp add: ts_inv_def)+
  with n assms show "10000 \<le> ts_sum_us tb div ts_n tb" "ts_sum_us tb div ts_n tb \<le> 160000"
    "0 \<le> ts_jit_sum_us tb div ts_n tb" "ts_jit_sum_us tb div ts_n tb \<le> 120000"
    by (simp_all add: ts_inv_def pos_imp_zdiv_nonneg_iff)
qed

lemma div_range:
  assumes "0 \<le> (a::int)" "lo \<le> m" "m \<le> hi" "0 < lo"
  shows "a div hi \<le> a div m" "a div m \<le> a div lo"
  using assms by (auto intro: zdiv_mono2)

text \<open>
  What an update computes from a window with enough intervals: the rate is that of the mean
  interval, and the time base is accepted only if the mean is within a quarter of the
  nominal period and the jitter within a fifth.
\<close>

lemma shUpdateTimebase_measured:
  assumes "ts_inv tb" "12 \<le> ts_n tb"
  defines "mean \<equiv> ts_sum_us tb div ts_n tb" and "jit \<equiv> ts_jit_sum_us tb div ts_n tb"
  shows "fs_q8 (shUpdateTimebase tb) = 256000000 div mean"
    and "fs_x100 (shUpdateTimebase tb) = 100000000 div mean"
    and "fs_jitter_pct (shUpdateTimebase tb) = min 255 (jit * 100 div mean)"
    and "timebase_ok (shUpdateTimebase tb) \<longleftrightarrow>
           \<bar>mean - 40000\<bar> * 100 div 40000 \<le> 25 \<and> jit * 100 div mean \<le> 20"
proof -
  note r = ts_mean_range [OF assms(1,2), folded mean_def jit_def]
  have q: "256000000 div mean \<le> 25600" "0 \<le> 256000000 div mean" "100000000 div mean \<le> 10000" "0 \<le> 100000000 div mean"
    using r(1,2) div_range(2) [of 256000000 10000 mean mean] div_range(2) [of 100000000 10000 mean mean]
    by (simp_all add: pos_imp_zdiv_nonneg_iff)
  have j: "u32 (jit * 100) = jit * 100" "0 \<le> jit * 100 div mean"
    using r by (simp_all add: pos_imp_zdiv_nonneg_iff)
  have e: "u32 ((mean - 40000) * 100) = (mean - 40000) * 100" if "40000 < mean" using r that by simp
  have e': "u32 ((40000 - mean) * 100) = (40000 - mean) * 100" if "\<not> 40000 < mean" using r that by simp
  show "fs_q8 (shUpdateTimebase tb) = 256000000 div mean"
    "fs_x100 (shUpdateTimebase tb) = 100000000 div mean"
    using assms(2) q r(1) unfolding shUpdateTimebase_def Let_def mean_def [symmetric] by simp_all
  show "fs_jitter_pct (shUpdateTimebase tb) = min 255 (jit * 100 div mean)"
    using assms(2) r(1) j unfolding shUpdateTimebase_def Let_def mean_def [symmetric] jit_def [symmetric]
    by (simp add: min_def)
  show "timebase_ok (shUpdateTimebase tb) \<longleftrightarrow>
      \<bar>mean - 40000\<bar> * 100 div 40000 \<le> 25 \<and> jit * 100 div mean \<le> 20"
    using assms(2) r(1) j e e' unfolding shUpdateTimebase_def Let_def mean_def [symmetric] jit_def [symmetric]
    by (auto simp: abs_if)
qed

lemma shUpdateTimebase_nominal:
  assumes "ts_n tb < 12"
  shows "fs_q8 (shUpdateTimebase tb) = 6400" "timebase_ok (shUpdateTimebase tb)"
    "fs_x100 (shUpdateTimebase tb) = 0" "fs_jitter_pct (shUpdateTimebase tb) = 0"
  using assms by (simp_all add: shUpdateTimebase_def Let_def)

lemma shUpdateTimebase_rate_inv:
  assumes "ts_inv tb"
  shows "rate_inv (shUpdateTimebase tb)"
proof (cases "ts_n tb < 12")
  case True
  then show ?thesis by (simp add: rate_inv_def shUpdateTimebase_nominal crange)
next
  case False
  then have n: "12 \<le> ts_n tb" by simp
  note r = ts_mean_range [OF assms n] and m = shUpdateTimebase_measured [OF assms n]
  let ?m = "ts_sum_us tb div ts_n tb"
  have "1600 \<le> 256000000 div ?m" "256000000 div ?m \<le> 25600" "100000000 div ?m \<le> 10000" "0 \<le> 100000000 div ?m"
    using r(1,2) div_range [of 256000000 10000 ?m 160000] div_range(2) [of 100000000 10000 ?m 160000]
    by (simp_all add: pos_imp_zdiv_nonneg_iff)
  moreover have "0 \<le> ts_jit_sum_us tb div ts_n tb * 100 div ?m"
    using r by (simp add: pos_imp_zdiv_nonneg_iff)
  ultimately show ?thesis by (simp add: rate_inv_def m crange)
qed

text \<open>The interval is measured correctly across a wrap of the microsecond clock.\<close>

lemma ts_note_wrap:
  assumes "ts_prev_valid tb" "ts_prev_us tb = u32 t" "u32 (t + d) \<noteq> 0"
    and "10000 \<le> d" "d \<le> 160000" "ts_inv tb" "ts_n tb < 26843"
  shows "ts_sum_us (ts_note (u32 (t + d)) tb) = ts_sum_us tb + d"
    "ts_n (ts_note (u32 (t + d)) tb) = ts_n tb + 1"
proof -
  have "u32 (u32 (t + d) - u32 t) = u32 d" by (simp add: u32_def mod_diff_eq)
  then have dt: "u32 (u32 (t + d) - ts_prev_us tb) = d" using assms by simp
  have "ts_sum_us tb + d < 4294967296" "0 \<le> ts_sum_us tb"
    using assms unfolding ts_inv_def by linarith+
  with assms dt show "ts_sum_us (ts_note (u32 (t + d)) tb) = ts_sum_us tb + d"
    "ts_n (ts_note (u32 (t + d)) tb) = ts_n tb + 1"
    by (simp_all add: ts_note_def Let_def)
qed

section \<open>Properties\<close>

text \<open>a window with enough intervals measures the sampling rate as that of the mean interval,
  and the time base is accepted only if that mean is within 25 percent of the nominal 40 ms
  and the mean deviation within 20 percent of it; the rate used by every BPM computation
  stays between 6.25 and 100 Hz.\<close>

theorem timebase_measured:
  assumes "ts_inv tb" "12 \<le> ts_n tb"
  shows "let mean = ts_sum_us tb div ts_n tb; jit = ts_jit_sum_us tb div ts_n tb; tb' = shUpdateTimebase tb
         in fs_q8 tb' = 256000000 div mean \<and> fs_x100 tb' = 100000000 div mean \<and>
            (timebase_ok tb' \<longleftrightarrow> \<bar>mean - 40000\<bar> * 100 div 40000 \<le> 25 \<and> jit * 100 div mean \<le> 20) \<and>
            1600 \<le> fs_q8 tb' \<and> fs_q8 tb' \<le> 25600"
  using shUpdateTimebase_measured [OF assms] shUpdateTimebase_rate_inv [OF assms(1)]
  by (simp add: Let_def rate_inv_def)

theorem timebase_measured_witness:
  "let tb' = shUpdateTimebase (timebase_init\<lparr>ts_sum_us := 1000000, ts_jit_sum_us := 50000, ts_n := 25\<rparr>)
   in fs_q8 tb' = 6400 \<and> timebase_ok tb'"
  using timebase_measured [of "timebase_init\<lparr>ts_sum_us := 1000000, ts_jit_sum_us := 50000, ts_n := 25\<rparr>"]
  by (simp add: ts_inv_def timebase_init_def Let_def)

text \<open>an interval is measured correctly across the wrap of the 32-bit microsecond clock.\<close>

theorem timebase_clock_wrap:
  assumes "ts_prev_valid tb" "ts_prev_us tb = u32 t" "u32 (t + d) \<noteq> 0"
    and "10000 \<le> d" "d \<le> 160000" "ts_inv tb" "ts_n tb < 26843"
  shows "ts_sum_us (ts_note (u32 (t + d)) tb) = ts_sum_us tb + d \<and> ts_n (ts_note (u32 (t + d)) tb) = ts_n tb + 1"
  using ts_note_wrap [OF assms] by simp

theorem timebase_clock_wrap_witness:
  "ts_sum_us (ts_note (u32 (4294967000 + 40000)) (timebase_init\<lparr>ts_prev_us := 4294967000, ts_prev_valid := True\<rparr>)) = 40000"
  using timebase_clock_wrap [of "timebase_init\<lparr>ts_prev_us := 4294967000, ts_prev_valid := True\<rparr>" 4294967000 40000]
  by (simp add: timebase_init_def ts_inv_def u32_def)

end
