(* ===== verification/Fuse.thy ===== *)
theory Fuse
  imports Insertion_Sort
begin

text \<open>
  Deciding whether a pulse estimate may be reported: \<open>shHrSignalReason\<close>, \<open>shHrDisturbReason\<close>
  and \<open>shFuseHr\<close> of \<^verbatim>\<open>smart_helmet_vitals.c\<close>. The compile-time switch
  \<open>SMART_HELMET_HR_FUSE_MODE\<close> is an argument, so that both the pairwise fusion (the default
  build) and the consensus fusion are covered.
\<close>

datatype hr_reason =
    hr_ok | hr_warm | hr_e_low | hr_e_high | hr_sa_low | hr_sa_high | hr_dc_spike | hr_holdoff
  | hr_no_peak | hr_no_fft | hr_disagree | hr_peak_only | hr_fft_only | hr_delta | hr_none
  | hr_disabled | hr_motion | hr_timebase | hr_no_resp

text \<open>The statics that guard acceptance, and the fields of \<open>sh_vitals\<close> that \<open>shFuseHr\<close> writes.\<close>

record hr_guard =
  hr_win_left :: int
  last_hr_valid_bpm :: int
  last_hr_valid_have :: bool
  hr_delta_rej :: int

record hr_status =
  hr_bpm_peak :: int
  hr_bpm_fft :: int
  hr_bpm_ac :: int
  hr_peak_count :: int
  hr_fft_mag :: int
  hr_bpm :: int
  hr_valid :: bool
  hr_reason :: hr_reason

section \<open>Signal gates\<close>

definition shHrSignalReason :: "int \<Rightarrow> int \<Rightarrow> hr_reason" where
  "shHrSignalReason energy sens_abs =
     (if energy < 400 then hr_e_low
      else if energy > 3500 then hr_e_high
      else if sens_abs < 12 then hr_sa_low
      else if sens_abs > 45 then hr_sa_high
      else hr_ok)"

text \<open>\<open>prev\<close> is \<open>prev_sens_mv\<close> when \<open>prev_sens_mv_valid\<close>, the last window's \<open>SENS_IN\<close> level.\<close>

definition shHrDisturbReason :: "int option \<Rightarrow> int \<Rightarrow> int \<Rightarrow> int \<Rightarrow> hr_reason" where
  "shHrDisturbReason prev energy sens_abs sens_mv =
     (if energy > 3500 then hr_e_high
      else if sens_abs > 45 then hr_sa_high
      else case prev of
             Some p \<Rightarrow> let ddc = sens_mv - p; ddc' = (if ddc < 0 then - ddc else ddc)
                       in if ddc' \<ge> 120 then hr_dc_spike else hr_ok
           | None \<Rightarrow> hr_ok)"

section \<open>Fusion\<close>

text \<open>The result is \<open>fused\<close>, \<open>ok\<close> and \<open>why\<close>. \<open>HR_VALID_REQUIRE_AGREE\<close> is 1.\<close>

definition fuse_pairwise :: "int \<Rightarrow> int \<Rightarrow> int \<Rightarrow> hr_reason \<Rightarrow> int \<times> bool \<times> hr_reason" where
  "fuse_pairwise bpm_peak bpm_fft peaks why =
     (let as = (\<lambda>r. if why = hr_ok then r else why) in
      if bpm_peak \<noteq> 0 \<and> bpm_fft \<noteq> 0 then
        let a = bpm_peak; b = bpm_fft;
            diff = (if a > b then a - b else b - a);
            avg = (a + b) sdiv 2;
            fused = u16 (u32 (bpm_peak * 192 + bpm_fft * (256 - 192)) div 256)
        in if avg > 0 \<and> s32 (diff * 100) \<le> s32 (avg * 20) then (u16 avg, True, why)
           else (fused, False, as hr_disagree)
      else if bpm_peak \<noteq> 0 \<and> peaks \<ge> 3 then (bpm_peak, False, as hr_peak_only)
      else if bpm_fft \<noteq> 0 then (bpm_fft, False, as hr_fft_only)
      else if bpm_peak \<noteq> 0 then (bpm_peak, False, as hr_no_fft)
      else (0, False, as hr_none))"

definition consensus_cand :: "int \<Rightarrow> int \<Rightarrow> int \<Rightarrow> int \<Rightarrow> int list" where
  "consensus_cand bpm_peak bpm_fft bpm_ac peaks =
     isort_array ((if bpm_peak \<noteq> 0 \<and> peaks \<ge> 3 then [bpm_peak] else []) @
       (if bpm_fft \<noteq> 0 then [bpm_fft] else []) @ (if bpm_ac \<noteq> 0 then [bpm_ac] else []))"

definition consensus_near :: "int \<Rightarrow> int list \<Rightarrow> int list" where
  "consensus_near med cand =
     filter (\<lambda>c. let d = c - med; d' = (if d < 0 then - d else d) in s32 (d' * 100) \<le> s32 (med * 20)) cand"

definition fuse_consensus :: "int \<Rightarrow> int \<Rightarrow> int \<Rightarrow> int \<Rightarrow> hr_reason \<Rightarrow> int \<times> bool \<times> hr_reason" where
  "fuse_consensus bpm_peak bpm_fft bpm_ac peaks why =
     (let as = (\<lambda>r. if why = hr_ok then r else why);
          cand = consensus_cand bpm_peak bpm_fft bpm_ac peaks;
          ncand = length cand
      in if ncand = 0 then
           (0, False, as (if bpm_peak \<noteq> 0 \<or> bpm_fft \<noteq> 0 \<or> bpm_ac \<noteq> 0 then hr_no_peak else hr_none))
         else let med = cand ! (ncand div 2);
                  near = consensus_near med cand;
                  agree = int (length near);
                  fused = (if agree \<noteq> 0 then u16 (u32 (sum_list near) div agree) else med)
              in if agree \<ge> 2 then (fused, True, why)
                 else (fused, False, as (if ncand > 1 then hr_disagree
                                         else if bpm_fft \<noteq> 0 then hr_fft_only else hr_peak_only)))"

definition fuse_allow :: "bool \<Rightarrow> hr_reason \<Rightarrow> int \<Rightarrow> bool \<times> hr_reason \<Rightarrow> bool \<times> hr_reason" where
  "fuse_allow allow_valid pre_reason win_left r =
     (if \<not> allow_valid then
        (False, if pre_reason \<noteq> hr_ok then pre_reason
                else if win_left > 0 \<or> pre_reason = hr_holdoff then hr_holdoff else snd r)
      else r)"

text \<open>The jump guard: a fused rate too far from the last valid one is rejected and counted.\<close>

definition fuse_delta :: "int \<Rightarrow> hr_guard \<Rightarrow> bool \<times> hr_reason \<Rightarrow> hr_guard \<times> bool \<times> hr_reason" where
  "fuse_delta fused g r =
     (if fst r \<and> last_hr_valid_have g then
        let d = fused - last_hr_valid_bpm g; d' = (if d < 0 then - d else d) in
        if d' > 25 then
          let rej = (if hr_delta_rej g < 0xff then hr_delta_rej g + 1 else hr_delta_rej g) in
          (if rej \<ge> 3 then g\<lparr>last_hr_valid_have := False, last_hr_valid_bpm := 0, hr_delta_rej := 0\<rparr>
           else g\<lparr>hr_delta_rej := rej\<rparr>, False, hr_delta)
        else (g, r)
      else (g, r))"

definition shFuseHr ::
    "bool \<Rightarrow> int \<Rightarrow> int \<Rightarrow> int \<Rightarrow> int \<Rightarrow> int \<Rightarrow> bool \<Rightarrow> hr_reason \<Rightarrow> hr_guard \<Rightarrow> hr_guard \<times> hr_status" where
  "shFuseHr fuse_mode bpm_peak bpm_fft bpm_ac peaks fft_mag allow_valid pre_reason g =
     (let (fused, ok0, why0) =
            (if fuse_mode then fuse_consensus bpm_peak bpm_fft bpm_ac peaks pre_reason
             else fuse_pairwise bpm_peak bpm_fft peaks pre_reason);
          (g1, ok, why) = fuse_delta fused g (fuse_allow allow_valid pre_reason (hr_win_left g) (ok0, why0));
          g2 = (if ok then g1\<lparr>last_hr_valid_bpm := fused, last_hr_valid_have := True, hr_delta_rej := 0\<rparr>
                else g1)
      in (g2, \<lparr>hr_bpm_peak = bpm_peak, hr_bpm_fft = bpm_fft, hr_bpm_ac = bpm_ac,
               hr_peak_count = peaks, hr_fft_mag = fft_mag, hr_bpm = fused, hr_valid = ok,
               hr_reason = (if ok then hr_ok else why)\<rparr>))"

section \<open>What an accepted rate guarantees\<close>

lemma fuse_pairwise_ok:
  assumes "fuse_pairwise p f n why = (fused, True, why')"
    and "0 \<le> p" "p \<le> 65535" "0 \<le> f" "f \<le> 65535"
  shows "p \<noteq> 0 \<and> f \<noteq> 0 \<and> fused = (p + f) div 2 \<and> \<bar>p - f\<bar> * 100 \<le> fused * 20"
proof -
  have nz: "p \<noteq> 0" "f \<noteq> 0" using assms(1) by (auto simp: fuse_pairwise_def Let_def split: if_splits)
  have avg: "(p + f) sdiv 2 = (p + f) div 2" using assms by (simp add: sdiv_pos)
  have b: "0 \<le> (p + f) div 2" "(p + f) div 2 \<le> 65535" using assms by presburger+
  have dd: "\<bar>p - f\<bar> \<le> 65535" using assms by linarith
  show ?thesis using assms(1) nz b dd unfolding fuse_pairwise_def Let_def abs_diff_cond avg
    by (auto simp: s32_abs split: if_splits)
qed

lemma fuse_delta_ok:
  assumes "fuse_delta fused g r = (g', True, why)"
  shows "g' = g" "fst r" "last_hr_valid_have g \<Longrightarrow> \<bar>fused - last_hr_valid_bpm g\<bar> \<le> 25"
  using assms by (auto simp: fuse_delta_def Let_def split: if_splits)

lemma fuse_allow_ok: "fst (fuse_allow allow pre w r) \<longleftrightarrow> allow \<and> fst r"
  by (simp add: fuse_allow_def)

lemma shFuseHr_valid_aux:
  assumes "shFuseHr False p f ac n mag allow pre g = (g', st)" "hr_valid st"
    and "0 \<le> p" "p \<le> 65535" "0 \<le> f" "f \<le> 65535"
  shows "allow \<and> p \<noteq> 0 \<and> f \<noteq> 0 \<and> hr_bpm st = (p + f) div 2 \<and> \<bar>p - f\<bar> * 100 \<le> hr_bpm st * 20 \<and>
    hr_reason st = hr_ok \<and> (last_hr_valid_have g \<longrightarrow> \<bar>hr_bpm st - last_hr_valid_bpm g\<bar> \<le> 25) \<and>
    g' = g\<lparr>last_hr_valid_bpm := hr_bpm st, last_hr_valid_have := True, hr_delta_rej := 0\<rparr>"
proof -
  obtain fused ok0 why0 where fp: "fuse_pairwise p f n pre = (fused, ok0, why0)"
    by (metis prod_cases3)
  obtain g1 ok why where fd: "fuse_delta fused g (fuse_allow allow pre (hr_win_left g) (ok0, why0)) = (g1, ok, why)"
    by (metis prod_cases3)
  have st: "ok" "hr_bpm st = fused" "hr_reason st = hr_ok"
    "g' = g1\<lparr>last_hr_valid_bpm := fused, last_hr_valid_have := True, hr_delta_rej := 0\<rparr>"
    using assms(1,2) by (auto simp: shFuseHr_def fp fd)
  note d = fuse_delta_ok [OF fd [unfolded eqTrueI [OF st(1)]]]
  have "allow" "ok0" using d(2) fuse_allow_ok [of allow pre "hr_win_left g" "(ok0, why0)"] by simp_all
  with fuse_pairwise_ok [of p f n pre fused why0] fp assms(3-6) st d show ?thesis by auto
qed

text \<open>The reason is \<open>hr_ok\<close> exactly for a valid rate, provided a blocked window names its blocker.\<close>

lemma fuse_pairwise_not_ok:
  "fuse_pairwise p f n why = (fused, False, why') \<Longrightarrow> why' \<noteq> hr_ok"
  by (auto simp: fuse_pairwise_def Let_def split: if_splits)

lemma shFuseHr_reason:
  assumes "shFuseHr False p f ac n mag allow pre g = (g', st)" "\<not> allow \<longrightarrow> pre \<noteq> hr_ok"
  shows "hr_reason st = hr_ok \<longleftrightarrow> hr_valid st"
proof -
  obtain fused ok0 why0 where fp: "fuse_pairwise p f n pre = (fused, ok0, why0)"
    by (metis prod_cases3)
  obtain g1 ok why where fd: "fuse_delta fused g (fuse_allow allow pre (hr_win_left g) (ok0, why0)) = (g1, ok, why)"
    by (metis prod_cases3)
  have "why \<noteq> hr_ok" if "\<not> ok"
    using fd that fuse_pairwise_not_ok [of p f n pre fused why0] fp assms(2)
    by (cases ok0) (auto simp: fuse_delta_def fuse_allow_def Let_def split: if_splits)
  then show ?thesis using assms(1) by (cases ok) (auto simp: shFuseHr_def fp fd)
qed

section \<open>Guard invariant and resynchronisation\<close>

definition guard_inv :: "hr_guard \<Rightarrow> bool" where
  "guard_inv g \<longleftrightarrow> 0 \<le> hr_win_left g \<and> hr_win_left g \<le> 5 \<and> 0 \<le> hr_delta_rej g \<and> hr_delta_rej g < 3 \<and>
     (last_hr_valid_have g \<longrightarrow> 40 \<le> last_hr_valid_bpm g \<and> last_hr_valid_bpm g \<le> 180)"

definition bpm_or_0 :: "int \<Rightarrow> bool" where
  "bpm_or_0 b \<longleftrightarrow> b = 0 \<or> 40 \<le> b \<and> b \<le> 180"

lemma fuse_delta_guard_inv:
  "guard_inv g \<Longrightarrow> guard_inv (fst (fuse_delta fused g r))"
  by (auto simp: fuse_delta_def guard_inv_def Let_def)

lemma shFuseHr_guard_inv:
  assumes "shFuseHr False p f ac n mag allow pre g = (g', st)" "guard_inv g" "bpm_or_0 p" "bpm_or_0 f"
  shows "guard_inv g'" "hr_valid st \<Longrightarrow> 40 \<le> hr_bpm st \<and> hr_bpm st \<le> 180"
proof -
  have r: "0 \<le> p" "p \<le> 65535" "0 \<le> f" "f \<le> 65535" using assms(3,4) by (auto simp: bpm_or_0_def)
  have v: "40 \<le> hr_bpm st \<and> hr_bpm st \<le> 180" if "hr_valid st"
  proof -
    have "p \<noteq> 0" "f \<noteq> 0" "hr_bpm st = (p + f) div 2"
      using shFuseHr_valid_aux [OF assms(1) that r] by simp_all
    with assms(3,4) show ?thesis by (auto simp: bpm_or_0_def)
  qed
  show "guard_inv g'"
  proof (cases "hr_valid st")
    case True
    with shFuseHr_valid_aux [OF assms(1) True r] v assms(2) show ?thesis by (simp add: guard_inv_def)
  next
    case False
    have "g' = fst (fuse_delta fused g r)" if
      "fuse_pairwise p f n pre = (fused, ok0, why0)" "r = fuse_allow allow pre (hr_win_left g) (ok0, why0)"
      for fused ok0 why0 r
      using that assms(1) False
      by (cases "fuse_delta fused g r") (auto simp: shFuseHr_def split: if_splits prod.splits)
    then show ?thesis using fuse_delta_guard_inv [OF assms(2)] by (metis prod_cases3)
  qed
  show "hr_valid st \<Longrightarrow> 40 \<le> hr_bpm st \<and> hr_bpm st \<le> 180" by (rule v)
qed

text \<open>Two estimates that agree are averaged; the jump guard then decides.\<close>

definition agreeing :: "int \<Rightarrow> int \<Rightarrow> bool" where
  "agreeing p f \<longleftrightarrow> 40 \<le> p \<and> p \<le> 180 \<and> 40 \<le> f \<and> f \<le> 180 \<and> \<bar>p - f\<bar> * 100 \<le> (p + f) div 2 * 20"

lemma fuse_pairwise_agreeing:
  assumes "agreeing p f"
  shows "fuse_pairwise p f n why = ((p + f) div 2, True, why)"
proof -
  note a = assms [unfolded agreeing_def]
  have avg: "(p + f) sdiv 2 = (p + f) div 2" using a by (simp add: sdiv_pos)
  have "80 \<le> p + f" "p + f \<le> 360" using a by linarith+
  then have b: "40 \<le> (p + f) div 2" "(p + f) div 2 \<le> 180" by presburger+
  have "\<bar>p - f\<bar> \<le> 140" using a by linarith
  then show ?thesis using a b unfolding fuse_pairwise_def Let_def abs_diff_cond avg
    by (simp add: s32_abs)
qed

definition fuse_step :: "int \<Rightarrow> int \<Rightarrow> int \<Rightarrow> hr_guard \<Rightarrow> hr_guard \<times> hr_status" where
  "fuse_step p f n g = shFuseHr False p f 0 n 0 True hr_ok g"

lemma fuse_step_jump:
  assumes "agreeing p f" "last_hr_valid_have g" "25 < \<bar>(p + f) div 2 - last_hr_valid_bpm g\<bar>"
    and "0 \<le> hr_delta_rej g" "hr_delta_rej g < 3"
  shows "fst (fuse_step p f n g) =
      (if hr_delta_rej g = 2 then g\<lparr>last_hr_valid_have := False, last_hr_valid_bpm := 0, hr_delta_rej := 0\<rparr>
       else g\<lparr>hr_delta_rej := hr_delta_rej g + 1\<rparr>)"
    and "\<not> hr_valid (snd (fuse_step p f n g))" "hr_reason (snd (fuse_step p f n g)) = hr_delta"
proof -
  show "fst (fuse_step p f n g) =
      (if hr_delta_rej g = 2 then g\<lparr>last_hr_valid_have := False, last_hr_valid_bpm := 0, hr_delta_rej := 0\<rparr>
       else g\<lparr>hr_delta_rej := hr_delta_rej g + 1\<rparr>)"
    "\<not> hr_valid (snd (fuse_step p f n g))" "hr_reason (snd (fuse_step p f n g)) = hr_delta"
    using assms(2-5)
    by (simp_all add: fuse_step_def shFuseHr_def fuse_pairwise_agreeing [OF assms(1)] fuse_allow_def
        fuse_delta_def Let_def abs_cond)
qed

lemma fuse_step_accept:
  assumes "agreeing p f" "last_hr_valid_have g \<longrightarrow> \<bar>(p + f) div 2 - last_hr_valid_bpm g\<bar> \<le> 25"
  shows "hr_valid (snd (fuse_step p f n g))" "hr_bpm (snd (fuse_step p f n g)) = (p + f) div 2"
  using assms(2)
  by (auto simp: fuse_step_def shFuseHr_def fuse_pairwise_agreeing [OF assms(1)] fuse_allow_def
      fuse_delta_def Let_def abs_cond split: if_splits)

section \<open>Consensus fusion\<close>

lemma sum_list_range:
  "\<forall>v \<in> set l. lo \<le> v \<and> v \<le> (hi::int) \<Longrightarrow> lo * int (length l) \<le> sum_list l \<and> sum_list l \<le> hi * int (length l)"
  by (induction l) (auto simp: algebra_simps)

lemma fuse_consensus_ok:
  assumes "fuse_consensus p f ac n why = (fused, True, why')"
    and "0 \<le> p" "p \<le> 65535" "0 \<le> f" "f \<le> 65535" "0 \<le> ac" "ac \<le> 65535"
  shows "\<exists>med near. set near \<subseteq> {p, f, ac} - {0} \<and> 2 \<le> length near \<and> length near \<le> 3 \<and>
    (\<forall>c \<in> set near. \<bar>c - med\<bar> * 100 \<le> med * 20) \<and> fused = sum_list near div int (length near) \<and>
    med \<in> {p, f, ac}"
proof -
  let ?c = "consensus_cand p f ac n"
  let ?med = "?c ! (length ?c div 2)"
  let ?near = "consensus_near ?med ?c"
  have c: "set ?c \<subseteq> {p, f, ac} - {0}" "length ?c \<le> 3"
    by (auto simp: consensus_cand_def isort_array_sort)
  have ne: "?c \<noteq> []" and agree: "2 \<le> length ?near"
    and fused: "fused = u16 (u32 (sum_list ?near) div int (length ?near))"
    using assms(1) by (auto simp: fuse_consensus_def Let_def split: if_splits)
  have med: "?med \<in> set ?c" using ne by (intro nth_mem) simp
  have rng: "0 \<le> v \<and> v \<le> 65535" if "v \<in> set ?c" for v using c(1) that assms(2-7) by auto
  have near: "set ?near \<subseteq> set ?c" "length ?near \<le> 3"
    using order_trans [OF length_filter_le c(2)] by (auto simp: consensus_near_def)
  have "\<bar>v - ?med\<bar> * 100 \<le> ?med * 20" if "v \<in> set ?near" for v
  proof -
    have "v \<in> set ?c" using that near(1) by blast
    then have "\<bar>v - ?med\<bar> \<le> 65535" using rng [of v] rng [OF med] by linarith
    then show ?thesis using that rng [OF med]
      by (simp add: consensus_near_def Let_def abs_cond s32_abs)
  qed
  moreover have "fused = sum_list ?near div int (length ?near)"
  proof -
    have "\<forall>v \<in> set ?near. 0 \<le> v \<and> v \<le> 65535" using rng near(1) by blast
    then have s: "0 \<le> sum_list ?near" "sum_list ?near \<le> 65535 * int (length ?near)"
      using sum_list_range [of ?near 0 65535] by simp_all
    have l: "0 < int (length ?near)" using agree by linarith
    have "sum_list ?near div int (length ?near) < 65536"
      by (rule div_less_mult [OF l]) (use s(2) l in linarith)
    moreover have "sum_list ?near < 4294967296" using s(2) near(2) by linarith
    moreover have "0 \<le> sum_list ?near div int (length ?near)"
      using s(1) l by (simp only: pos_imp_zdiv_nonneg_iff)
    ultimately show ?thesis using fused s(1) by simp
  qed
  ultimately show ?thesis using c(1) near med agree by (intro exI [of _ ?med] exI [of _ ?near]) blast
qed

section \<open>Properties\<close>

text \<open>a sustained change of rate is not locked out by the jump guard: after a change of more
  than 25 BPM from the last valid rate exactly three agreeing windows are rejected as jumps,
  and the fourth is accepted at the new rate.\<close>

theorem fuse_resync:
  assumes "agreeing p f" "last_hr_valid_have g" "25 < \<bar>(p + f) div 2 - last_hr_valid_bpm g\<bar>" "hr_delta_rej g = 0"
  shows "let s1 = fuse_step p f n g; s2 = fuse_step p f n (fst s1); s3 = fuse_step p f n (fst s2);
             s4 = fuse_step p f n (fst s3)
         in map (\<lambda>s. hr_reason (snd s)) [s1, s2, s3] = [hr_delta, hr_delta, hr_delta] \<and>
            map (\<lambda>s. hr_valid (snd s)) [s1, s2, s3, s4] = [False, False, False, True] \<and>
            hr_bpm (snd s4) = (p + f) div 2"
proof -
  let ?g1 = "g\<lparr>hr_delta_rej := 1\<rparr>" and ?g2 = "g\<lparr>hr_delta_rej := 2\<rparr>"
  let ?g3 = "g\<lparr>last_hr_valid_have := False, last_hr_valid_bpm := 0, hr_delta_rej := 0\<rparr>"
  note j1 = fuse_step_jump [of p f g n] and j2 = fuse_step_jump [of p f ?g1 n]
    and j3 = fuse_step_jump [of p f ?g2 n]
  have s: "fst (fuse_step p f n g) = ?g1" "fst (fuse_step p f n ?g1) = ?g2" "fst (fuse_step p f n ?g2) = ?g3"
    using assms j1(1) j2(1) j3(1) by simp_all
  show ?thesis
    using assms j1(2,3) j2(2,3) j3(2,3) fuse_step_accept [of p f ?g3 n] by (simp add: Let_def s)
qed

theorem fuse_resync_witness:
  "let g = \<lparr>hr_win_left = 0, last_hr_valid_bpm = 60, last_hr_valid_have = True, hr_delta_rej = 0\<rparr>;
       s3 = fuse_step 100 104 5 (fst (fuse_step 100 104 5 (fst (fuse_step 100 104 5 g))))
   in \<not> hr_valid (snd s3) \<and> hr_bpm (snd (fuse_step 100 104 5 (fst s3))) = 102"
  using fuse_resync [of 100 104 "\<lparr>hr_win_left = 0, last_hr_valid_bpm = 60, last_hr_valid_have = True, hr_delta_rej = 0\<rparr>" 5]
  by (simp add: agreeing_def Let_def)

text \<open>in the consensus build a rate is accepted only if at least two estimates lie within 20
  percent of the median candidate, and it is the mean of exactly those estimates.\<close>

theorem fuse_consensus_sound:
  assumes "fuse_consensus p f ac n why = (fused, True, why')"
    and "0 \<le> p" "p \<le> 65535" "0 \<le> f" "f \<le> 65535" "0 \<le> ac" "ac \<le> 65535"
  shows "\<exists>med near. set near \<subseteq> {p, f, ac} - {0} \<and> 2 \<le> length near \<and> length near \<le> 3 \<and>
    (\<forall>c \<in> set near. \<bar>c - med\<bar> * 100 \<le> med * 20) \<and> fused = sum_list near div int (length near) \<and>
    med \<in> {p, f, ac}"
  by (rule fuse_consensus_ok [OF assms])

theorem fuse_consensus_sound_witness:
  "fuse_consensus 70 72 150 4 hr_ok = (71, True, hr_ok) \<and>
   (\<exists>med near. 2 \<le> length near \<and> (\<forall>c \<in> set near. \<bar>c - med\<bar> * 100 \<le> med * (20::int)) \<and>
      (71::int) = sum_list near div int (length near))"
proof -
  have e: "fuse_consensus 70 72 150 4 hr_ok = (71, True, hr_ok)" by code_simp
  show ?thesis using fuse_consensus_sound [OF e] e by auto
qed

end
