(* ===== verification/Cusum.thy ===== *)
theory Cusum
  imports Helmet_Prelude
begin

text \<open>
  \<open>shUpdateHrChange\<close> of \<^verbatim>\<open>smart_helmet_vitals.c\<close>: the slow personal pulse baseline and the
  two-sided CUSUM change detector. The record holds the statics \<open>hr_base_bpm\<close>, \<open>hr_base_n\<close>,
  \<open>hr_invalid_run\<close>, \<open>hr_cusum_up\<close>, \<open>hr_cusum_dn\<close> and the fields of \<open>sh_vitals\<close> that only this
  function writes (prefix \<open>co_\<close>).
\<close>

datatype trend_flag = trend_unknown | trend_stable | trend_rising | trend_falling | trend_absent

record cusum =
  hr_base_bpm :: int
  hr_base_n :: int
  hr_invalid_run :: int
  hr_cusum_up :: int
  hr_cusum_dn :: int
  co_baseline_bpm :: int
  co_delta_bpm :: int
  co_cusum_up :: int
  co_cusum_dn :: int
  co_change :: trend_flag

definition cusum_init :: cusum where
  "cusum_init = \<lparr>hr_base_bpm = 0, hr_base_n = 0, hr_invalid_run = 0, hr_cusum_up = 0, hr_cusum_dn = 0,
     co_baseline_bpm = 0, co_delta_bpm = 0, co_cusum_up = 0, co_cusum_dn = 0, co_change = trend_unknown\<rparr>"

text \<open>The window without a valid rate.\<close>

definition cusum_invalid :: "cusum \<Rightarrow> cusum" where
  "cusum_invalid c =
     (let run = (if hr_invalid_run c < 0xffff then hr_invalid_run c + 1 else hr_invalid_run c);
          c1 = c\<lparr>hr_invalid_run := run\<rparr>;
          c2 = (if run \<ge> 15 then c1\<lparr>hr_base_bpm := 0, hr_base_n := 0, hr_cusum_up := 0, hr_cusum_dn := 0,
                                     co_change := trend_unknown\<rparr>
                else c1)
      in c2\<lparr>co_baseline_bpm := hr_base_bpm c2, co_delta_bpm := 0,
            co_cusum_up := u16 (hr_cusum_up c2), co_cusum_dn := u16 (hr_cusum_dn c2)\<rparr>)"

definition cusum_slack :: "int \<Rightarrow> int" where
  "cusum_slack base = (let prop = (base * 5) sdiv 100 in if prop > 3 then prop else 3)"

definition cusum_clip :: "int \<Rightarrow> int" where
  "cusum_clip s = (let s1 = (if s < 0 then 0 else s) in if s1 > 0xffff then 0xffff else s1)"

text \<open>The detector proper, once \<open>HR_BASELINE_MIN_WIN\<close> valid windows have been learned.\<close>

definition cusum_detect :: "int \<Rightarrow> int \<Rightarrow> int \<Rightarrow> cusum \<Rightarrow> cusum" where
  "cusum_detect bpm dev slack c =
     (let up = cusum_clip (s32 (hr_cusum_up c + (dev - slack)));
          dn = cusum_clip (s32 (hr_cusum_dn c + ((- dev) - slack)))
      in if up \<ge> 24 then
           c\<lparr>co_change := trend_rising, hr_base_bpm := bpm, hr_cusum_up := 0, hr_cusum_dn := 0\<rparr>
         else if dn \<ge> 24 then
           c\<lparr>co_change := trend_falling, hr_base_bpm := bpm, hr_cusum_up := 0, hr_cusum_dn := 0\<rparr>
         else
           c\<lparr>co_change := trend_stable, hr_base_bpm := u16 (hr_base_bpm c + s32 (dev * 12) sdiv 256),
             hr_cusum_up := up, hr_cusum_dn := dn\<rparr>)"

definition cusum_valid :: "int \<Rightarrow> cusum \<Rightarrow> cusum" where
  "cusum_valid bpm c =
     (let c1 = c\<lparr>hr_invalid_run := 0, hr_base_bpm := (if hr_base_bpm c = 0 then bpm else hr_base_bpm c)\<rparr>;
          slack = cusum_slack (hr_base_bpm c1);
          dev = bpm - hr_base_bpm c1;
          c2 = (if hr_base_n c1 < 8 then
                  c1\<lparr>hr_base_n := hr_base_n c1 + 1,
                     hr_base_bpm := u16 (hr_base_bpm c1 + s32 (dev * 64) sdiv 256),
                     hr_cusum_up := 0, hr_cusum_dn := 0\<rparr>
                else cusum_detect bpm dev slack c1)
      in c2\<lparr>co_baseline_bpm := hr_base_bpm c2, co_delta_bpm := s16 dev,
            co_cusum_up := u16 (hr_cusum_up c2), co_cusum_dn := u16 (hr_cusum_dn c2)\<rparr>)"

definition shUpdateHrChange :: "bool \<Rightarrow> int \<Rightarrow> cusum \<Rightarrow> cusum" where
  "shUpdateHrChange valid bpm c =
     (if \<not> valid \<or> bpm = 0 then cusum_invalid c else cusum_valid bpm c)"

section \<open>Invariant\<close>

definition cusum_inv :: "cusum \<Rightarrow> bool" where
  "cusum_inv c \<longleftrightarrow>
     (hr_base_bpm c = 0 \<or> 40 \<le> hr_base_bpm c \<and> hr_base_bpm c \<le> 180) \<and>
     0 \<le> hr_base_n c \<and> hr_base_n c \<le> 8 \<and> (hr_base_bpm c = 0 \<longrightarrow> hr_base_n c = 0) \<and>
     0 \<le> hr_invalid_run c \<and> hr_invalid_run c \<le> 65535 \<and>
     0 \<le> hr_cusum_up c \<and> hr_cusum_up c < 24 \<and> 0 \<le> hr_cusum_dn c \<and> hr_cusum_dn c < 24 \<and>
     co_baseline_bpm c = hr_base_bpm c \<and> co_cusum_up c = hr_cusum_up c \<and> co_cusum_dn c = hr_cusum_dn c"

lemma cusum_init_inv: "cusum_inv cusum_init"
  by (simp add: cusum_inv_def cusum_init_def)

lemma cusum_invalid_inv: "cusum_inv c \<Longrightarrow> cusum_inv (cusum_invalid c)"
  by (auto simp: cusum_inv_def cusum_invalid_def Let_def)

text \<open>The baseline moves towards the new rate and never past it.\<close>

lemma baseline_between:
  assumes "0 \<le> k" "k \<le> 256" "40 \<le> base" "base \<le> 180" "40 \<le> bpm" "bpm \<le> 180"
  defines "b' \<equiv> u16 (base + s32 ((bpm - base) * k) sdiv 256)"
  shows "min base bpm \<le> b'" "b' \<le> max base bpm"
proof -
  let ?d = "((bpm - base) * k) sdiv 256"
  have "min 0 (bpm - base) \<le> ?d" "?d \<le> max 0 (bpm - base)"
    using assms by (intro sdiv_between; simp)+
  then have b: "min base bpm \<le> base + ?d" "base + ?d \<le> max base bpm" by linarith+
  have "\<bar>(bpm - base) * k\<bar> \<le> 140 * 256"
    unfolding abs_mult using assms by (intro mult_mono) auto
  then have "b' = u16 (base + ?d)" unfolding b'_def by (simp add: s32_abs)
  moreover have "0 \<le> base + ?d" "base + ?d < 65536" using b assms by linarith+
  ultimately show "min base bpm \<le> b'" "b' \<le> max base bpm" using b by simp_all
qed

lemma cusum_slack_range: "40 \<le> b \<Longrightarrow> b \<le> 180 \<Longrightarrow> 3 \<le> cusum_slack b \<and> cusum_slack b \<le> 9"
proof -
  assume a: "40 \<le> b" "b \<le> 180"
  have "b * 5 div 100 \<le> 900 div 100" using a by (intro zdiv_mono1) auto
  with a show ?thesis by (simp add: cusum_slack_def Let_def sdiv_pos)
qed

lemma cusum_valid_inv:
  assumes inv: "cusum_inv c" and bpm: "40 \<le> bpm" "bpm \<le> 180"
  shows "cusum_inv (cusum_valid bpm c)"
proof -
  let ?b = "if hr_base_bpm c = 0 then bpm else hr_base_bpm c"
  have b: "40 \<le> ?b" "?b \<le> 180" using inv bpm by (auto simp: cusum_inv_def)
  note fast = baseline_between [of 64, OF _ _ b bpm] and slow = baseline_between [of 12, OF _ _ b bpm]
  note sl = cusum_slack_range [OF b]
  show ?thesis
  proof (cases "hr_base_n c < 8")
    case True
    then show ?thesis using inv fast b bpm
      by (simp add: cusum_valid_def cusum_inv_def Let_def min_def max_def split: if_splits)
  next
    case False
    let ?up = "cusum_clip (s32 (hr_cusum_up c + (bpm - ?b - cusum_slack ?b)))"
    let ?dn = "cusum_clip (s32 (hr_cusum_dn c + (- (bpm - ?b) - cusum_slack ?b)))"
    have "0 \<le> ?up" "0 \<le> ?dn" by (simp_all add: cusum_clip_def Let_def)
    moreover have n: "hr_base_n c = 8" using False inv by (simp add: cusum_inv_def)
    moreover have "40 \<le> u16 (?b + s32 ((bpm - ?b) * 12) sdiv 256) \<and> u16 (?b + s32 ((bpm - ?b) * 12) sdiv 256) \<le> 180"
      using slow b bpm by (simp add: min_def max_def split: if_splits)
    ultimately show ?thesis using inv bpm
      unfolding cusum_valid_def cusum_detect_def Let_def
      by (simp add: cusum_inv_def)
  qed
qed

lemma shUpdateHrChange_inv:
  "cusum_inv c \<Longrightarrow> valid \<longrightarrow> 40 \<le> bpm \<and> bpm \<le> 180 \<Longrightarrow> cusum_inv (shUpdateHrChange valid bpm c)"
  by (simp add: shUpdateHrChange_def cusum_invalid_inv cusum_valid_inv)

section \<open>Gaps\<close>

lemma cusum_invalid_step:
  "hr_invalid_run (cusum_invalid c) = (if hr_invalid_run c < 65535 then hr_invalid_run c + 1 else hr_invalid_run c)"
  "hr_invalid_run c < 14 \<Longrightarrow> hr_base_bpm (cusum_invalid c) = hr_base_bpm c \<and>
     hr_base_n (cusum_invalid c) = hr_base_n c \<and> co_change (cusum_invalid c) = co_change c"
  "14 \<le> hr_invalid_run c \<Longrightarrow> hr_base_bpm (cusum_invalid c) = 0 \<and>
     hr_base_n (cusum_invalid c) = 0 \<and> co_change (cusum_invalid c) = trend_unknown"
  by (auto simp: cusum_invalid_def Let_def)

lemma cusum_invalid_run:
  "0 \<le> hr_invalid_run c \<Longrightarrow> hr_invalid_run c + int k \<le> 65535 \<Longrightarrow>
   hr_invalid_run ((cusum_invalid ^^ k) c) = hr_invalid_run c + int k"
  by (induction k) (simp_all add: cusum_invalid_step(1))

text \<open>A gap shorter than fifteen windows keeps the baseline; fifteen windows drop it.\<close>

lemma cusum_invalid_keep:
  assumes "hr_invalid_run c = 0"
  shows "k < 15 \<Longrightarrow> hr_base_bpm ((cusum_invalid ^^ k) c) = hr_base_bpm c \<and>
    hr_base_n ((cusum_invalid ^^ k) c) = hr_base_n c \<and> co_change ((cusum_invalid ^^ k) c) = co_change c"
proof (induction k)
  case (Suc k)
  have "hr_invalid_run ((cusum_invalid ^^ k) c) < 14"
    using cusum_invalid_run [of c k] assms Suc.prems by simp
  with Suc show ?case by (simp add: cusum_invalid_step(2))
qed simp

lemma cusum_invalid_drop:
  assumes "0 \<le> hr_invalid_run c" "hr_invalid_run c \<le> 65535"
  shows "hr_base_bpm ((cusum_invalid ^^ (15 + k)) c) = 0 \<and> hr_base_n ((cusum_invalid ^^ (15 + k)) c) = 0 \<and>
    co_change ((cusum_invalid ^^ (15 + k)) c) = trend_unknown"
proof -
  have mono: "min 65535 (int m) \<le> hr_invalid_run ((cusum_invalid ^^ m) c)" for m
  proof (induction m)
    case (Suc m)
    have "int (Suc m) = int m + 1" by simp
    with Suc show ?case unfolding funpow.simps comp_apply cusum_invalid_step(1)
      by (split if_split) linarith
  qed (use assms in simp)
  have "14 \<le> hr_invalid_run ((cusum_invalid ^^ (14 + k)) c)"
    using mono [of "14 + k"] by linarith
  moreover have "(cusum_invalid ^^ (15 + k)) c = cusum_invalid ((cusum_invalid ^^ (14 + k)) c)"
    using funpow.simps(2) [of "14 + k" cusum_invalid] by simp
  ultimately show ?thesis by (simp add: cusum_invalid_step(3))
qed

section \<open>Detection\<close>

text \<open>An armed detector: the learning phase is over.\<close>

definition armed :: "cusum \<Rightarrow> bool" where
  "armed c \<longleftrightarrow> cusum_inv c \<and> hr_base_n c = 8"

lemma armed_base: "armed c \<Longrightarrow> 40 \<le> hr_base_bpm c \<and> hr_base_bpm c \<le> 180"
  by (auto simp: armed_def cusum_inv_def)

lemma armed_step:
  assumes "armed c" "40 \<le> bpm" "bpm \<le> 180"
  shows "armed (cusum_valid bpm c)"
  using assms cusum_valid_inv [of c bpm]
  by (auto simp: armed_def cusum_valid_def cusum_detect_def Let_def cusum_inv_def)

lemma cusum_clip_max: "\<bar>s\<bar> \<le> 65535 \<Longrightarrow> cusum_clip s = max 0 s"
  by (auto simp: cusum_clip_def Let_def)

lemma small_step_zero: "\<bar>dev\<bar> \<le> 21 \<Longrightarrow> s32 (dev * 12) sdiv 256 = (0::int)"
proof -
  assume "\<bar>dev\<bar> \<le> 21"
  then have "s32 (dev * 12) = dev * 12" "\<bar>dev * 12\<bar> < 256" by (simp_all add: s32_abs abs_mult)
  then show ?thesis by (cases "0 \<le> dev") (simp_all add: sdiv_split zdiv_eq_0_iff)
qed

text \<open>One armed window, written out.\<close>

lemma cusum_valid_armed:
  assumes "armed c" "40 \<le> bpm" "bpm \<le> 180"
  defines "dev \<equiv> bpm - hr_base_bpm c" and "slack \<equiv> cusum_slack (hr_base_bpm c)"
  defines "up \<equiv> max 0 (hr_cusum_up c + dev - slack)" and "dn \<equiv> max 0 (hr_cusum_dn c - dev - slack)"
  shows "co_change (cusum_valid bpm c) =
      (if up \<ge> 24 then trend_rising else if dn \<ge> 24 then trend_falling else trend_stable)"
    and "up < 24 \<Longrightarrow> dn < 24 \<Longrightarrow> hr_cusum_up (cusum_valid bpm c) = up \<and> hr_cusum_dn (cusum_valid bpm c) = dn \<and>
      hr_base_bpm (cusum_valid bpm c) = u16 (hr_base_bpm c + s32 (dev * 12) sdiv 256)"
    and "co_delta_bpm (cusum_valid bpm c) = dev"
proof -
  have inv: "cusum_inv c" "hr_base_n c = 8" using assms(1) by (simp_all add: armed_def)
  have base: "40 \<le> hr_base_bpm c" "hr_base_bpm c \<le> 180" using armed_base [OF assms(1)] by simp_all
  have sl: "3 \<le> slack" "slack \<le> 9" using cusum_slack_range [OF base] by (simp_all add: slack_def)
  have acc: "0 \<le> hr_cusum_up c" "hr_cusum_up c < 24" "0 \<le> hr_cusum_dn c" "hr_cusum_dn c < 24"
    using inv(1) by (simp_all add: cusum_inv_def)
  have dv: "- 140 \<le> dev" "dev \<le> 140" using base assms(2,3) by (simp_all add: dev_def)
  have a: "\<bar>hr_cusum_up c + (dev - slack)\<bar> \<le> 65535" "\<bar>hr_cusum_dn c + (- dev - slack)\<bar> \<le> 65535"
    using acc dv sl by linarith+
  have u: "cusum_clip (s32 (hr_cusum_up c + (dev - slack))) = up"
    using a(1) by (simp add: s32_abs cusum_clip_max up_def algebra_simps)
  have d: "cusum_clip (s32 (hr_cusum_dn c + (- dev - slack))) = dn"
    using a(2) by (simp add: s32_abs cusum_clip_max dn_def algebra_simps)
  have b0: "hr_base_bpm c \<noteq> 0" using base by simp
  have eq: "cusum_valid bpm c = (let c2 = cusum_detect bpm dev slack (c\<lparr>hr_invalid_run := 0\<rparr>)
      in c2\<lparr>co_baseline_bpm := hr_base_bpm c2, co_delta_bpm := s16 dev,
            co_cusum_up := u16 (hr_cusum_up c2), co_cusum_dn := u16 (hr_cusum_dn c2)\<rparr>)"
    using b0 inv(2) by (simp add: cusum_valid_def Let_def dev_def slack_def)
  show "co_change (cusum_valid bpm c) =
      (if up \<ge> 24 then trend_rising else if dn \<ge> 24 then trend_falling else trend_stable)"
    "up < 24 \<Longrightarrow> dn < 24 \<Longrightarrow> hr_cusum_up (cusum_valid bpm c) = up \<and> hr_cusum_dn (cusum_valid bpm c) = dn \<and>
      hr_base_bpm (cusum_valid bpm c) = u16 (hr_base_bpm c + s32 (dev * 12) sdiv 256)"
    "co_delta_bpm (cusum_valid bpm c) = dev"
    using dv by (simp_all add: eq cusum_detect_def u d Let_def)
qed

text \<open>
  A sustained deviation is always found: while no alarm is raised the accumulator grows by
  at least one per window, because the baseline moves by at most one beat and only when the
  deviation is far above the slack.
\<close>

lemma slow_step:
  assumes "40 \<le> base" "base \<le> 180" "\<bar>dev\<bar> \<le> 32" "40 \<le> base + dev" "base + dev \<le> 180"
  shows "u16 (base + s32 (dev * 12) sdiv 256) =
    (if dev \<ge> 22 then base + 1 else if dev \<le> - 22 then base - 1 else base)"
proof -
  have e: "s32 (dev * 12) = dev * 12" using assms(3) by (intro s32_abs) (simp add: abs_mult)
  have "(dev * 12) sdiv 256 = (if dev \<ge> 22 then 1 else if dev \<le> - 22 then - 1 else 0)"
  proof -
    have "(x * 12) div 256 = (if x \<ge> 22 then 1 else 0)" if "0 \<le> x" "x \<le> 32" for x :: int
      using that by (cases "22 \<le> x") (simp_all add: div_pos_geq zdiv_eq_0_iff)
    from this [of dev] this [of "- dev"] assms(3) show ?thesis by (simp add: sdiv_split abs_le_iff)
  qed
  then show ?thesis using assms by (auto simp: e)
qed

lemma cusum_rising_step:
  assumes c: "armed c" and bpm: "40 \<le> bpm" "bpm \<le> 180"
    and dev: "bpm - hr_base_bpm c > cusum_slack (hr_base_bpm c)"
  shows "co_change (cusum_valid bpm c) = trend_rising \<or>
    (armed (cusum_valid bpm c) \<and> hr_cusum_up c < hr_cusum_up (cusum_valid bpm c) \<and>
     bpm - hr_base_bpm (cusum_valid bpm c) > cusum_slack (hr_base_bpm (cusum_valid bpm c)))"
proof -
  let ?b = "hr_base_bpm c"
  note st = cusum_valid_armed [OF c bpm]
  note sl = cusum_slack_range [of ?b] and base = armed_base [OF c]
  have acc: "0 \<le> hr_cusum_up c" "0 \<le> hr_cusum_dn c" "hr_cusum_dn c < 24"
    using c by (simp_all add: armed_def cusum_inv_def)
  show ?thesis
  proof (cases "24 \<le> hr_cusum_up c + (bpm - ?b) - cusum_slack ?b")
    case True
    with st(1) show ?thesis by simp
  next
    case False
    have d32: "bpm - ?b \<le> 32" "0 < bpm - ?b" using False sl base acc dev by linarith+
    have nx: "hr_cusum_up (cusum_valid bpm c) = hr_cusum_up c + (bpm - ?b) - cusum_slack ?b"
      "hr_base_bpm (cusum_valid bpm c) = (if bpm - ?b \<ge> 22 then ?b + 1 else ?b)"
      using st(2) False acc dev d32 sl base bpm slow_step [of ?b "bpm - ?b"] by (auto simp: max_def)
    have "bpm - hr_base_bpm (cusum_valid bpm c) > cusum_slack (hr_base_bpm (cusum_valid bpm c))"
    proof (cases "bpm - ?b \<ge> 22")
      case True
      then have "cusum_slack (?b + 1) \<le> 9" using cusum_slack_range [of "?b + 1"] base bpm by linarith
      with True nx(2) show ?thesis by simp
    qed (use nx(2) dev in simp)
    then show ?thesis using nx(1) dev armed_step [OF c bpm] by simp
  qed
qed

lemma cusum_rising_found:
  assumes "armed c" "40 \<le> bpm" "bpm \<le> 180" "bpm - hr_base_bpm c > cusum_slack (hr_base_bpm c)"
  shows "\<exists>k. 1 \<le> k \<and> k \<le> 24 \<and> co_change ((cusum_valid bpm ^^ k) c) = trend_rising"
proof -
  have "\<exists>k. 1 \<le> k \<and> k \<le> m \<and> co_change ((cusum_valid bpm ^^ k) c) = trend_rising"
    if "armed c" "24 - hr_cusum_up c \<le> int m" "bpm - hr_base_bpm c > cusum_slack (hr_base_bpm c)" for m c
    using that
  proof (induction m arbitrary: c)
    case 0
    then show ?case by (simp add: armed_def cusum_inv_def)
  next
    case (Suc m)
    let ?c = "cusum_valid bpm c"
    show ?case
    proof (cases "co_change ?c = trend_rising")
      case True
      then show ?thesis by (intro exI [of _ 1]) simp
    next
      case False
      then have "armed ?c" "24 - hr_cusum_up ?c \<le> int m" "bpm - hr_base_bpm ?c > cusum_slack (hr_base_bpm ?c)"
        using cusum_rising_step [OF Suc.prems(1) assms(2,3) Suc.prems(3)] Suc.prems(2) by auto
      from Suc.IH [OF this] obtain k where "1 \<le> k" "k \<le> m" "co_change ((cusum_valid bpm ^^ k) ?c) = trend_rising"
        by blast
      then show ?thesis by (intro exI [of _ "Suc k"]) (simp add: funpow_swap1)
    qed
  qed
  moreover have "0 \<le> hr_cusum_up c" using assms(1) by (simp add: armed_def cusum_inv_def)
  ultimately show ?thesis using assms by simp
qed

lemma cusum_falling_step:
  assumes c: "armed c" and bpm: "40 \<le> bpm" "bpm \<le> 180"
    and dev: "hr_base_bpm c - bpm > cusum_slack (hr_base_bpm c)"
  shows "co_change (cusum_valid bpm c) = trend_falling \<or>
    (armed (cusum_valid bpm c) \<and> hr_cusum_dn c < hr_cusum_dn (cusum_valid bpm c) \<and>
     hr_base_bpm (cusum_valid bpm c) - bpm > cusum_slack (hr_base_bpm (cusum_valid bpm c)))"
proof -
  let ?b = "hr_base_bpm c"
  note st = cusum_valid_armed [OF c bpm]
  note sl = cusum_slack_range [of ?b] and base = armed_base [OF c]
  have acc: "0 \<le> hr_cusum_up c" "hr_cusum_up c < 24" "0 \<le> hr_cusum_dn c"
    using c by (simp_all add: armed_def cusum_inv_def)
  have up: "max 0 (hr_cusum_up c + (bpm - ?b) - cusum_slack ?b) < 24" using acc dev sl base by linarith
  show ?thesis
  proof (cases "24 \<le> hr_cusum_dn c - (bpm - ?b) - cusum_slack ?b")
    case True
    with st(1) up show ?thesis by (auto simp: max_def)
  next
    case False
    have d32: "bpm - ?b \<ge> - 32" "bpm - ?b < 0" using False sl base acc dev by linarith+
    have nx: "hr_cusum_dn (cusum_valid bpm c) = hr_cusum_dn c - (bpm - ?b) - cusum_slack ?b"
      "hr_base_bpm (cusum_valid bpm c) = (if bpm - ?b \<le> - 22 then ?b - 1 else ?b)"
      using st(2) False up acc dev d32 sl base bpm slow_step [of ?b "bpm - ?b"] by (auto simp: max_def)
    have "hr_base_bpm (cusum_valid bpm c) - bpm > cusum_slack (hr_base_bpm (cusum_valid bpm c))"
    proof (cases "bpm - ?b \<le> - 22")
      case True
      then have "cusum_slack (?b - 1) \<le> 9" using cusum_slack_range [of "?b - 1"] base bpm by linarith
      with True nx(2) show ?thesis by simp
    qed (use nx(2) dev in simp)
    then show ?thesis using nx(1) dev armed_step [OF c bpm] by simp
  qed
qed

lemma cusum_falling_found:
  assumes "armed c" "40 \<le> bpm" "bpm \<le> 180" "hr_base_bpm c - bpm > cusum_slack (hr_base_bpm c)"
  shows "\<exists>k. 1 \<le> k \<and> k \<le> 24 \<and> co_change ((cusum_valid bpm ^^ k) c) = trend_falling"
proof -
  have "\<exists>k. 1 \<le> k \<and> k \<le> m \<and> co_change ((cusum_valid bpm ^^ k) c) = trend_falling"
    if "armed c" "24 - hr_cusum_dn c \<le> int m" "hr_base_bpm c - bpm > cusum_slack (hr_base_bpm c)" for m c
    using that
  proof (induction m arbitrary: c)
    case 0
    then show ?case by (simp add: armed_def cusum_inv_def)
  next
    case (Suc m)
    let ?c = "cusum_valid bpm c"
    show ?case
    proof (cases "co_change ?c = trend_falling")
      case True
      then show ?thesis by (intro exI [of _ 1]) simp
    next
      case False
      then have "armed ?c" "24 - hr_cusum_dn ?c \<le> int m" "hr_base_bpm ?c - bpm > cusum_slack (hr_base_bpm ?c)"
        using cusum_falling_step [OF Suc.prems(1) assms(2,3) Suc.prems(3)] Suc.prems(2) by auto
      from Suc.IH [OF this] obtain k where "1 \<le> k" "k \<le> m" "co_change ((cusum_valid bpm ^^ k) ?c) = trend_falling"
        by blast
      then show ?thesis by (intro exI [of _ "Suc k"]) (simp add: funpow_swap1)
    qed
  qed
  moreover have "0 \<le> hr_cusum_dn c" using assms(1) by (simp add: armed_def cusum_inv_def)
  ultimately show ?thesis using assms by simp
qed

text \<open>
  Deviations inside the slack never raise an alarm and leave the baseline alone: the
  integer update truncates to zero, so the armed baseline is frozen for them.
\<close>

lemma cusum_quiet:
  assumes c: "armed c" and bpm: "40 \<le> bpm" "bpm \<le> 180"
    and dev: "\<bar>bpm - hr_base_bpm c\<bar> \<le> cusum_slack (hr_base_bpm c)"
  shows "co_change (cusum_valid bpm c) = trend_stable \<and> hr_base_bpm (cusum_valid bpm c) = hr_base_bpm c \<and>
    hr_cusum_up (cusum_valid bpm c) \<le> hr_cusum_up c \<and> hr_cusum_dn (cusum_valid bpm c) \<le> hr_cusum_dn c"
proof -
  let ?b = "hr_base_bpm c"
  note st = cusum_valid_armed [OF c bpm]
  have sl: "cusum_slack ?b \<le> 9" using cusum_slack_range [of ?b] armed_base [OF c] by simp
  have acc: "0 \<le> hr_cusum_up c" "hr_cusum_up c < 24" "0 \<le> hr_cusum_dn c" "hr_cusum_dn c < 24"
    using c by (simp_all add: armed_def cusum_inv_def)
  have up: "max 0 (hr_cusum_up c + (bpm - ?b) - cusum_slack ?b) \<le> hr_cusum_up c"
    "max 0 (hr_cusum_dn c - (bpm - ?b) - cusum_slack ?b) \<le> hr_cusum_dn c" using acc dev by linarith+
  have "\<bar>bpm - ?b\<bar> \<le> 21" using dev sl by linarith
  then have "u16 (?b + s32 ((bpm - ?b) * 12) sdiv 256) = ?b"
    using armed_base [OF c] unfolding small_step_zero [OF \<open>\<bar>bpm - ?b\<bar> \<le> 21\<close>] by simp
  with st(1,2) up acc show ?thesis by auto
qed

section \<open>Properties\<close>

definition armed_at :: "int \<Rightarrow> cusum" where
  "armed_at b = cusum_init\<lparr>hr_base_bpm := b, hr_base_n := 8, co_baseline_bpm := b\<rparr>"

lemma armed_at_armed: "40 \<le> b \<Longrightarrow> b \<le> 180 \<Longrightarrow> armed (armed_at b)"
  by (simp add: armed_def armed_at_def cusum_inv_def cusum_init_def)

text \<open>C26: the change detector is live: once the baseline is learned, a pulse that stays above it by
  more than the slack raises the rising flag within 24 valid windows, and one that stays
  below it by more than the slack the falling flag.\<close>

theorem cusum_detects_shift:
  assumes "armed c" "40 \<le> bpm" "bpm \<le> 180" "\<bar>bpm - hr_base_bpm c\<bar> > cusum_slack (hr_base_bpm c)"
  shows "\<exists>k. 1 \<le> k \<and> k \<le> 24 \<and>
    co_change ((shUpdateHrChange True bpm ^^ k) c) = (if bpm > hr_base_bpm c then trend_rising else trend_falling)"
proof -
  have v: "shUpdateHrChange True bpm = cusum_valid bpm" using assms(2) by (simp add: shUpdateHrChange_def fun_eq_iff)
  have "0 < cusum_slack (hr_base_bpm c)" by (simp add: cusum_slack_def Let_def)
  then show ?thesis unfolding v
    using cusum_rising_found [OF assms(1-3)] cusum_falling_found [OF assms(1-3)] assms(4)
    by (cases "bpm > hr_base_bpm c") (auto simp: abs_if split: if_splits)
qed

theorem cusum_detects_shift_witness:
  "\<exists>k. 1 \<le> k \<and> k \<le> 24 \<and> co_change ((shUpdateHrChange True 68 ^^ k) (armed_at 60)) = trend_rising"
  using cusum_detects_shift [of "armed_at 60" 68] armed_at_armed [of 60]
  by (simp add: armed_at_def cusum_slack_def Let_def sdiv_pos)

text \<open>no false alarm: a valid window whose rate is within the slack of the learned baseline
  reports a stable pulse, does not raise either accumulator and leaves the baseline unchanged.\<close>

theorem cusum_quiet_within_slack:
  assumes "armed c" "40 \<le> bpm" "bpm \<le> 180" "\<bar>bpm - hr_base_bpm c\<bar> \<le> cusum_slack (hr_base_bpm c)"
  shows "let c' = shUpdateHrChange True bpm c
    in co_change c' = trend_stable \<and> hr_base_bpm c' = hr_base_bpm c \<and>
       hr_cusum_up c' \<le> hr_cusum_up c \<and> hr_cusum_dn c' \<le> hr_cusum_dn c"
  using cusum_quiet [OF assms] assms(2) by (simp add: shUpdateHrChange_def Let_def)

theorem cusum_quiet_within_slack_witness:
  "co_change (shUpdateHrChange True 63 (armed_at 60)) = trend_stable"
  using cusum_quiet_within_slack [of "armed_at 60" 63] armed_at_armed [of 60]
  by (simp add: armed_at_def cusum_slack_def Let_def sdiv_pos)

text \<open>The learned baseline has a dead band: an armed window that raises no alarm leaves the
  baseline untouched unless the deviation reaches 22 BPM, because the integer update
  \<open>dev * 12 / 256\<close> truncates to zero.\<close>

theorem cusum_baseline_dead_band:
  assumes "armed c" "40 \<le> bpm" "bpm \<le> 180" "\<bar>bpm - hr_base_bpm c\<bar> \<le> 21"
    and "co_change (shUpdateHrChange True bpm c) = trend_stable"
  shows "hr_base_bpm (shUpdateHrChange True bpm c) = hr_base_bpm c"
proof -
  have v: "shUpdateHrChange True bpm c = cusum_valid bpm c" using assms(2) by (simp add: shUpdateHrChange_def)
  note st = cusum_valid_armed [OF assms(1-3)]
  have "hr_base_bpm (cusum_valid bpm c) = u16 (hr_base_bpm c + s32 ((bpm - hr_base_bpm c) * 12) sdiv 256)"
    using st(1,2) assms(5) unfolding v by (auto split: if_splits)
  then show ?thesis unfolding v small_step_zero [OF assms(4)] using armed_base [OF assms(1)] by simp
qed

theorem cusum_baseline_dead_band_witness:
  "hr_base_bpm (shUpdateHrChange True 80 (armed_at 60)) = 60"
proof -
  have "co_change (shUpdateHrChange True 80 (armed_at 60)) = trend_stable" by code_simp
  then show ?thesis using cusum_baseline_dead_band [of "armed_at 60" 80] armed_at_armed [of 60]
    by (simp add: armed_at_def)
qed

text \<open>gaps: up to fourteen consecutive windows without a valid pulse keep the learned baseline
  and the change flag, and from the fifteenth on the baseline is forgotten and the flag is
  unknown.\<close>

theorem cusum_gap:
  assumes "hr_invalid_run c = 0"
  shows "(k < 15 \<longrightarrow> hr_base_bpm ((shUpdateHrChange False bpm ^^ k) c) = hr_base_bpm c \<and>
            co_change ((shUpdateHrChange False bpm ^^ k) c) = co_change c) \<and>
    (15 \<le> k \<longrightarrow> hr_base_bpm ((shUpdateHrChange False bpm ^^ k) c) = 0 \<and>
            hr_base_n ((shUpdateHrChange False bpm ^^ k) c) = 0 \<and>
            co_change ((shUpdateHrChange False bpm ^^ k) c) = trend_unknown)"
proof -
  have v: "shUpdateHrChange False bpm = cusum_invalid" by (simp add: shUpdateHrChange_def fun_eq_iff)
  show ?thesis unfolding v
    using cusum_invalid_keep [OF assms, of k] cusum_invalid_drop [of c "k - 15"] assms by auto
qed

theorem cusum_gap_witness:
  "hr_base_bpm ((shUpdateHrChange False 0 ^^ 14) (armed_at 60)) = 60 \<and>
   hr_base_bpm ((shUpdateHrChange False 0 ^^ 15) (armed_at 60)) = 0"
  using cusum_gap [of "armed_at 60" 14 0] cusum_gap [of "armed_at 60" 15 0]
  by (simp add: armed_at_def cusum_init_def)

end
