(* ===== verification/Vitals.thy ===== *)
theory Vitals
  imports Peak Fft Resp Timebase Fuse Cusum
begin

text \<open>
  The state and the operations of \<^verbatim>\<open>smart_helmet_vitals.c\<close> in the default build: the
  record \<open>vitals\<close> gathers the file's statics, \<open>vitals_status\<close> is
  \<open>smart_helmet_vitals_status_t\<close> (the fields that belong to one sub-component live in that
  component's record: \<open>hr_status\<close>, \<open>cusum\<close>, \<open>timebase\<close>; \<open>adapt_removed_pct\<close> is never written
  in this build). The operations are the exported functions: init, the two sample pushes,
  the drop note, the PIR event, the per-sample tick and the window processing.
\<close>

section \<open>State\<close>

datatype motion_gate = motion_calm | motion_active

record motion_slot =
  m_mag :: int
  m_ax :: int
  m_ay :: int
  m_az :: int

record bio_state =
  bio_lp_fast :: int
  bio_lp_slow :: int
  bio_resp_fast :: int
  bio_resp_slow :: int
  bio_pulse_abs :: int
  bio_resp_abs :: int

record vitals_status =
  st_motion :: motion_gate
  st_trend :: trend_flag
  st_motion_rms_mg :: int
  st_motion_min_mg :: int
  st_motion_peak_mg :: int
  st_fall_pending :: bool
  st_band_energy :: int
  st_baseline_energy :: int
  st_pir_events_win :: int
  st_sens_mv :: int
  st_valid :: bool
  st_hr :: hr_status
  st_hr_ac_q8 :: int
  st_sens_dropped :: int
  st_resp_bpm :: int
  st_resp_q8 :: int
  st_resp_valid :: bool
  st_hr_win_left :: int

record vitals =
  st :: vitals_status
  motion_win :: "motion_slot ring"
  sh_fall_pending :: bool
  band_win :: "int ring"
  hp_prev_x :: int
  hp_prev_y :: int
  sens_win :: "int ring"
  sens_prev_x :: int
  sens_prev_y :: int
  bio :: bio_state
  pir_events :: int
  sens_edge_armed :: bool
  sens_since_process :: int
  calm_windows :: int
  still_run :: int
  guard :: hr_guard
  prev_sens_mv :: int
  prev_sens_mv_valid :: bool
  sens_dropped :: int
  tb :: timebase
  resp :: resp_state
  cus :: cusum
  fftk :: fft_smooth_state

interpretation motion_window: sample_window 25
    "ring_init 25 \<lparr>m_mag = 0, m_ax = 0, m_ay = 0, m_az = 0\<rparr>" "ring_push 25"
    "ring_abs 25" "ring_inv 25"
  by (rule ring_sample_window) simp

definition hr_status_zero :: hr_status where
  "hr_status_zero = \<lparr>hr_bpm_peak = 0, hr_bpm_fft = 0, hr_bpm_ac = 0, hr_peak_count = 0,
     hr_fft_mag = 0, hr_bpm = 0, hr_valid = False, hr_reason = hr_ok\<rparr>"

definition vitals_status_zero :: vitals_status where
  "vitals_status_zero = \<lparr>st_motion = motion_calm, st_trend = trend_unknown, st_motion_rms_mg = 0,
     st_motion_min_mg = 0, st_motion_peak_mg = 0, st_fall_pending = False, st_band_energy = 0,
     st_baseline_energy = 0, st_pir_events_win = 0, st_sens_mv = 0, st_valid = False,
     st_hr = hr_status_zero, st_hr_ac_q8 = 0, st_sens_dropped = 0, st_resp_bpm = 0, st_resp_q8 = 0,
     st_resp_valid = False, st_hr_win_left = 0\<rparr>"

text \<open>
  \<open>run0\<close> is the function-local static \<open>still_run\<close> of the window processing, the one piece of
  state that an init does not reset.
\<close>

definition SmartHelmet_VitalsInit :: "int \<Rightarrow> vitals" where
  "SmartHelmet_VitalsInit run0 =
     \<lparr>st = vitals_status_zero,
      motion_win = ring_init 25 \<lparr>m_mag = 0, m_ax = 0, m_ay = 0, m_az = 0\<rparr>,
      sh_fall_pending = False,
      band_win = ring_init 100 0, hp_prev_x = 0, hp_prev_y = 0,
      sens_win = ring_init 100 0, sens_prev_x = 0, sens_prev_y = 0,
      bio = \<lparr>bio_lp_fast = 0, bio_lp_slow = 0, bio_resp_fast = 0, bio_resp_slow = 0,
             bio_pulse_abs = 0, bio_resp_abs = 0\<rparr>,
      pir_events = 0, sens_edge_armed = True, sens_since_process = 0, calm_windows = 0,
      still_run = run0,
      guard = \<lparr>hr_win_left = 5, last_hr_valid_bpm = 0, last_hr_valid_have = False, hr_delta_rej = 0\<rparr>,
      prev_sens_mv = 0, prev_sens_mv_valid = False, sens_dropped = 0,
      tb = timebase_init, resp = resp_init, cus = cusum_init, fftk = shFftSmoothReset\<rparr>"

section \<open>Sample input\<close>

definition shNoteFallMag :: "int \<Rightarrow> bool \<Rightarrow> bool" where
  "shNoteFallMag mag pending =
     (if mag = 0 then pending else if mag \<ge> 1300 \<or> mag \<le> 700 then True else pending)"

definition shNoteFallWindow :: "int \<Rightarrow> int \<Rightarrow> int \<Rightarrow> bool \<Rightarrow> bool" where
  "shNoteFallWindow rms mn pk pending =
     (let swing = (if pk > mn then u16 (pk - mn) else 0) in
      if rms \<ge> 220 \<or> pk \<ge> 1300 \<or> (mn > 0 \<and> mn \<le> 700) \<or> swing \<ge> 400 then True else pending)"

definition SmartHelmet_VitalsPushAccel :: "int \<Rightarrow> int \<Rightarrow> int \<Rightarrow> vitals \<Rightarrow> vitals" where
  "SmartHelmet_VitalsPushAccel x_mg y_mg z_mg v =
     (let mag = shSqrtU32 (u32 (x_mg * x_mg + y_mg * y_mg + z_mg * z_mg));
          (hp, px, py) = shHighPass mag (hp_prev_x v) (hp_prev_y v)
      in v\<lparr>motion_win := ring_push 25 \<lparr>m_mag = mag, m_ax = x_mg, m_ay = y_mg, m_az = z_mg\<rparr> (motion_win v),
           sh_fall_pending := shNoteFallMag mag (sh_fall_pending v),
           hp_prev_x := px, hp_prev_y := py,
           band_win := ring_push 100 hp (band_win v)\<rparr>)"

text \<open>One-pole trackers: \<open>ema a x y\<close> is the C statement \<open>y += ((x - y) * a) / 256\<close>.\<close>

definition ema :: "int \<Rightarrow> int \<Rightarrow> int \<Rightarrow> int" where
  "ema a x y = s32 (y + s32 (s32 (x - y) * a) sdiv 256)"

definition shBioPush :: "int \<Rightarrow> bio_state \<Rightarrow> bio_state" where
  "shBioPush hp b =
     (let lpf = ema 136 hp (bio_lp_fast b);
          lps = ema 47 hp (bio_lp_slow b);
          rf = ema 27 hp (bio_resp_fast b);
          rs = ema 8 hp (bio_resp_slow b);
          pulse = s32 (lpf - lps); rsp = s32 (rf - rs);
          ap0 = (if pulse < 0 then - pulse else pulse);
          ar0 = (if rsp < 0 then - rsp else rsp);
          ap = (if ap0 > 32767 then 32767 else ap0);
          ar = (if ar0 > 32767 then 32767 else ar0)
      in b\<lparr>bio_lp_fast := lpf, bio_lp_slow := lps, bio_resp_fast := rf, bio_resp_slow := rs,
           bio_pulse_abs := u16 (bio_pulse_abs b + s32 ((ap - bio_pulse_abs b) * 32) sdiv 256),
           bio_resp_abs := u16 (bio_resp_abs b + s32 ((ar - bio_resp_abs b) * 16) sdiv 256)\<rparr>)"

definition SmartHelmet_VitalsPirEvent :: "vitals \<Rightarrow> vitals" where
  "SmartHelmet_VitalsPirEvent v = (if pir_events v < 0xffff then v\<lparr>pir_events := pir_events v + 1\<rparr> else v)"

definition SmartHelmet_VitalsNoteSensDropped :: "vitals \<Rightarrow> vitals" where
  "SmartHelmet_VitalsNoteSensDropped v =
     v\<lparr>sens_dropped := (if sens_dropped v < 0xff then sens_dropped v + 1 else sens_dropped v),
       tb := ts_gap (tb v)\<rparr>"

text \<open>The edge detector that turns large excursions into PIR events, with its re-arm level.\<close>

definition sens_edge :: "int \<Rightarrow> vitals \<Rightarrow> vitals" where
  "sens_edge hp v =
     (let a = (if hp < 0 then - hp else hp) in
      if sens_edge_armed v \<and> a \<ge> 40 then (SmartHelmet_VitalsPirEvent v)\<lparr>sens_edge_armed := False\<rparr>
      else if \<not> sens_edge_armed v \<and> a < 20 then v\<lparr>sens_edge_armed := True\<rparr>
      else v)"

definition SmartHelmet_VitalsPushSensInMvAt :: "int \<Rightarrow> int \<Rightarrow> vitals \<Rightarrow> vitals" where
  "SmartHelmet_VitalsPushSensInMvAt mv time_us v =
     (let (hp, px, py) = shHighPass mv (sens_prev_x v) (sens_prev_y v);
          v1 = v\<lparr>tb := ts_note time_us (tb v),
                 st := (st v)\<lparr>st_sens_mv := mv\<rparr>,
                 sens_prev_x := px, sens_prev_y := py,
                 resp := shRespPush mv (resp v),
                 sens_win := ring_push 100 hp (sens_win v),
                 bio := shBioPush hp (bio v)\<rparr>
      in sens_edge hp v1)"

definition SmartHelmet_VitalsPushSensInMv :: "int \<Rightarrow> vitals \<Rightarrow> vitals" where
  "SmartHelmet_VitalsPushSensInMv mv v = SmartHelmet_VitalsPushSensInMvAt mv 0 v"

section \<open>Window processing\<close>

definition shHrDisturb :: "int \<Rightarrow> vitals \<Rightarrow> vitals" where
  "shHrDisturb holdoff_win v =
     v\<lparr>guard := \<lparr>hr_win_left = (if holdoff_win > hr_win_left (guard v) then holdoff_win else hr_win_left (guard v)),
                 last_hr_valid_bpm = 0, last_hr_valid_have = False, hr_delta_rej = 0\<rparr>,
       fftk := shFftSmoothReset\<rparr>"

definition shUpdateResp :: "vitals \<Rightarrow> vitals" where
  "shUpdateResp v =
     (let (bpm, q8) = shRespBpm (fs_q8 (tb v)) (resp_ring (resp v))
      in v\<lparr>st := (st v)\<lparr>st_resp_bpm := bpm, st_resp_q8 := q8, st_resp_valid := (bpm \<noteq> 0)\<rparr>\<rparr>)"

definition abs_diff_u16 :: "int \<Rightarrow> int \<Rightarrow> int" where
  "abs_diff_u16 a b = u16 (if a > b then a - b else b - a)"

text \<open>The latest step of the three axes, and the window's minimum and maximum magnitude.\<close>

definition motion_step :: "motion_slot ring \<Rightarrow> int" where
  "motion_step w =
     (let l = rbuf w ! ((ridx w + 25 - 1) mod 25); p = rbuf w ! ((ridx w + 25 - 2) mod 25);
          dx = abs_diff_u16 (m_ax l) (m_ax p);
          dy = abs_diff_u16 (m_ay l) (m_ay p);
          dz = abs_diff_u16 (m_az l) (m_az p);
          r1 = (if dy > dx then dy else dx)
      in if dz > r1 then dz else r1)"

definition motion_min_max :: "int list \<Rightarrow> nat \<Rightarrow> int \<times> int" where
  "motion_min_max mags n =
     fold (\<lambda>i (mn, pk). (if mags ! i < mn then mags ! i else mn, if mags ! i > pk then mags ! i else pk))
       [1..<n] (mags ! 0, mags ! 0)"

definition vitals_motion_stats :: "vitals \<Rightarrow> vitals" where
  "vitals_motion_stats v =
     (let n = rcnt (motion_win v); mags = map m_mag (rbuf (motion_win v));
          v1 = (if n \<ge> 2 then
                  let (mn, pk) = motion_min_max mags n in
                  v\<lparr>st := (st v)\<lparr>st_motion_min_mg := mn, st_motion_peak_mg := pk,
                                 st_motion_rms_mg := motion_step (motion_win v)\<rparr>,
                    sh_fall_pending := shNoteFallWindow (shRmsDevU16 mags n) mn pk (sh_fall_pending v)\<rparr>
                else v\<lparr>st := (st v)\<lparr>st_motion_rms_mg := 0, st_motion_min_mg := 0, st_motion_peak_mg := 0\<rparr>\<rparr>)
      in v1\<lparr>st := (st v1)\<lparr>st_fall_pending := sh_fall_pending v1, st_pir_events_win := pir_events v1,
                          st_sens_dropped := sens_dropped v1\<rparr>,
            sens_dropped := 0\<rparr>)"

text \<open>The motion gate: the decision and the new \<open>still_run\<close>.\<close>

definition motion_gate_step :: "bool \<Rightarrow> int \<Rightarrow> motion_gate \<Rightarrow> int \<Rightarrow> bool \<times> int" where
  "motion_gate_step have_accel rms gate run =
     (if have_accel \<and> rms \<ge> 40 then (True, 0)
      else if gate = motion_active then
        let run' = (if run < 255 then run + 1 else run) in (run' < 3, run')
      else (False, 0))"

definition vitals_active :: "vitals \<Rightarrow> vitals" where
  "vitals_active v =
     (let v1 = shHrDisturb 5 (v\<lparr>
            st := (st v)\<lparr>st_motion := motion_active, st_trend := trend_unknown, st_valid := False,
                    st_hr := (st_hr (st v))\<lparr>hr_valid := False, hr_bpm := 0, hr_bpm_peak := 0,
                                hr_bpm_fft := 0, hr_bpm_ac := 0, hr_reason := hr_motion\<rparr>,
                    st_hr_ac_q8 := 0\<rparr>,
            calm_windows := 0, pir_events := 0\<rparr>)
      in v1\<lparr>st := (st v1)\<lparr>st_hr_win_left := hr_win_left (guard v1)\<rparr>, prev_sens_mv_valid := False\<rparr>)"

definition window_energy :: "nat \<Rightarrow> nat \<Rightarrow> bool \<Rightarrow> int \<Rightarrow> int \<Rightarrow> int \<Rightarrow> int" where
  "window_energy sens_count band_count have_accel e_sens e_accel pir =
     (let e = (if sens_count > 25 then
                 (if have_accel \<and> band_count > 25 then u16 (e_sens + e_accel div 4) else e_sens)
               else if have_accel then e_accel else 0)
      in u16 (e + pir * 8))"

text \<open>The skin micro-motion trend: trend, \<open>valid\<close> and the new \<open>baseline_energy\<close>.\<close>

definition pulse_baseline :: "int \<Rightarrow> int \<Rightarrow> int" where
  "pulse_baseline pulse base =
     (if base = 0 then (if pulse \<noteq> 0 then pulse else 1)
      else u16 (base + s32 ((pulse - base) * 16) sdiv 256))"

definition window_trend :: "int \<Rightarrow> int \<Rightarrow> int \<Rightarrow> int \<Rightarrow> trend_flag \<times> bool \<times> int" where
  "window_trend pulse rsp sens_abs base =
     (if pulse < 8 \<and> rsp < 10 then (trend_absent, True, base)
      else if sens_abs > u16 (pulse * 6 + 40) then (trend_unknown, False, base)
      else let baseline = pulse_baseline pulse base;
               delta_pct = s32 ((pulse - baseline) * 100) sdiv baseline
           in (if delta_pct \<ge> 25 then trend_rising
               else if delta_pct \<le> - 20 then trend_falling else trend_stable, True, baseline))"

definition vitals_fuse :: "int \<Rightarrow> int \<Rightarrow> int \<Rightarrow> int \<Rightarrow> bool \<Rightarrow> hr_reason \<Rightarrow> vitals \<Rightarrow> vitals" where
  "vitals_fuse bpm_peak bpm_fft peaks fft_mag allow pre v =
     (let (g, h) = shFuseHr False bpm_peak bpm_fft 0 peaks fft_mag allow pre (guard v)
      in v\<lparr>guard := g, st := (st v)\<lparr>st_hr := h\<rparr>\<rparr>)"

definition vitals_hr :: "int \<Rightarrow> int \<Rightarrow> vitals \<Rightarrow> vitals" where
  "vitals_hr energy sens_abs v =
     (let g = guard v;
          allow = (hr_win_left g = 0);
          pre = (if hr_win_left g > 0 then hr_holdoff else hr_ok);
          v1 = (if hr_win_left g > 0 then v\<lparr>guard := g\<lparr>hr_win_left := hr_win_left g - 1\<rparr>\<rparr> else v);
          sig0 = shHrSignalReason energy sens_abs;
          sig = (if sig0 = hr_ok \<and> \<not> timebase_ok (tb v) then hr_timebase else sig0)
      in if sig \<noteq> hr_ok then vitals_fuse 0 0 0 0 False sig v1
         else let x = shCopySensOrdered (rcnt (sens_win v)) (sens_win v);
                  n = length x;
                  fs = fs_q8 (tb v);
                  (bpm_peak, peak_n) = shPeakBpm fs x n;
                  (bpm_fft, fft_mag, k) = shFftBpm fs x n (fftk v);
                  pre1 = (if bpm_peak = 0 \<and> bpm_fft = 0 then (if pre = hr_holdoff then pre else hr_none)
                          else pre)
              in vitals_fuse bpm_peak bpm_fft (int peak_n) fft_mag allow pre1 (v1\<lparr>fftk := k\<rparr>))"

text \<open>
  The calm half of the window processing, after the gate: bookkeeping and the disturbance
  check, the trend and pulse decision, and the tail common to both.
\<close>

definition calm_begin :: "int \<Rightarrow> int \<Rightarrow> vitals \<Rightarrow> vitals" where
  "calm_begin energy sens_abs v =
     (let v1 = v\<lparr>st := (st v)\<lparr>st_motion := motion_calm, st_band_energy := energy\<rparr>,
                 calm_windows := (if calm_windows v < 0xff then calm_windows v + 1 else calm_windows v)\<rparr>;
          prev = (if prev_sens_mv_valid v1 then Some (prev_sens_mv v1) else None)
      in if shHrDisturbReason prev energy sens_abs (st_sens_mv (st v1)) \<noteq> hr_ok
         then shHrDisturb 5 v1 else v1)"

definition calm_decide :: "bool \<Rightarrow> int \<Rightarrow> int \<Rightarrow> vitals \<Rightarrow> trend_flag \<times> vitals" where
  "calm_decide have_accel energy sens_abs v =
     (if calm_windows v < 3 \<or> (rcnt (sens_win v) < 25 \<and> \<not> have_accel) then
        (trend_unknown,
         vitals_fuse 0 0 0 0 False hr_warm (shHrDisturb 5 (v\<lparr>st := (st v)\<lparr>st_valid := False\<rparr>\<rparr>)))
      else
        let (tr, ok, base) = window_trend (bio_pulse_abs (bio v)) (bio_resp_abs (bio v)) sens_abs
                               (st_baseline_energy (st v))
        in (tr, vitals_hr energy sens_abs (v\<lparr>st := (st v)\<lparr>st_valid := ok, st_baseline_energy := base\<rparr>\<rparr>)))"

definition calm_finish :: "trend_flag \<Rightarrow> vitals \<Rightarrow> vitals" where
  "calm_finish trend v =
     (let v1 = v\<lparr>cus := shUpdateHrChange (hr_valid (st_hr (st v))) (hr_bpm (st_hr (st v))) (cus v)\<rparr>
      in v1\<lparr>prev_sens_mv := st_sens_mv (st v1), prev_sens_mv_valid := True,
            st := (st v1)\<lparr>st_trend := trend, st_hr_win_left := hr_win_left (guard v1)\<rparr>,
            pir_events := 0\<rparr>)"

definition vitals_calm :: "bool \<Rightarrow> int \<Rightarrow> int \<Rightarrow> int \<Rightarrow> vitals \<Rightarrow> vitals" where
  "vitals_calm have_accel e_sens e_accel sens_abs v =
     (let energy = window_energy (rcnt (sens_win v)) (rcnt (band_win v)) have_accel e_sens e_accel (pir_events v);
          (trend, v3) = calm_decide have_accel energy sens_abs (calm_begin energy sens_abs v)
      in calm_finish trend v3)"

text \<open>The head of the processing, up to the reset of \<open>sens_dropped\<close>, and the whole function.\<close>

definition vitals_begin :: "vitals \<Rightarrow> vitals" where
  "vitals_begin v = vitals_motion_stats (shUpdateResp (v\<lparr>tb := shUpdateTimebase (tb v)\<rparr>))"

definition SmartHelmet_VitalsProcess :: "vitals \<Rightarrow> vitals" where
  "SmartHelmet_VitalsProcess v =
     (let v2 = vitals_begin v;
          have_accel = (rcnt (motion_win v2) \<ge> 2);
          e_sens = shEnergyI16 (rbuf (sens_win v2)) (rcnt (sens_win v2));
          sens_abs = shMeanAbsI16 (rbuf (sens_win v2)) (rcnt (sens_win v2));
          e_accel = (if have_accel then shEnergyI16 (rbuf (band_win v2)) (rcnt (band_win v2)) else 0);
          (active, run) = motion_gate_step have_accel (st_motion_rms_mg (st v2)) (st_motion (st v2)) (still_run v2);
          v3 = v2\<lparr>still_run := run\<rparr>
      in if active then vitals_active v3 else vitals_calm have_accel e_sens e_accel sens_abs v3)"

definition SmartHelmet_VitalsOnSensSample :: "vitals \<Rightarrow> vitals" where
  "SmartHelmet_VitalsOnSensSample v =
     (let n = (if sens_since_process v < 0xff then sens_since_process v + 1 else sens_since_process v);
          v1 = v\<lparr>sens_since_process := n\<rparr>
      in if n \<ge> 25 then SmartHelmet_VitalsProcess (v1\<lparr>sens_since_process := 0\<rparr>) else v1)"

definition SmartHelmet_VitalsTakeFall :: "vitals \<Rightarrow> bool \<times> vitals" where
  "SmartHelmet_VitalsTakeFall v =
     (sh_fall_pending v, v\<lparr>sh_fall_pending := False, st := (st v)\<lparr>st_fall_pending := False\<rparr>\<rparr>)"

end
