(* ===== verification/Vitals_Safety.thy ===== *)
theory Vitals_Safety
  imports Vitals
begin

text \<open>
  What the vitals component guarantees: the invariant of its whole state and its
  preservation by every exported operation, the reachable states of the component as a
  state machine over the calls the firmware makes, the conditions under which a pulse is
  reported as valid, the quarantine after motion, and the fall latch.
\<close>

section \<open>Filters stay in range\<close>

definition bio_inv :: "bio_state \<Rightarrow> bool" where
  "bio_inv b \<longleftrightarrow> is_s16 (bio_lp_fast b) \<and> is_s16 (bio_lp_slow b) \<and> is_s16 (bio_resp_fast b) \<and>
     is_s16 (bio_resp_slow b) \<and> 0 \<le> bio_pulse_abs b \<and> bio_pulse_abs b \<le> 32767 \<and>
     0 \<le> bio_resp_abs b \<and> bio_resp_abs b \<le> 32767"

lemma ema_between:
  assumes "0 \<le> a" "a \<le> 256" "\<bar>x\<bar> \<le> 65535" "\<bar>y\<bar> \<le> 65535"
  shows "min x y \<le> ema a x y" "ema a x y \<le> max x y"
    and "s32 (s32 (x - y) * a) sdiv 256 = ((x - y) * a) sdiv 256"
proof -
  let ?d = "((x - y) * a) sdiv 256"
  have d: "min 0 (x - y) \<le> ?d" "?d \<le> max 0 (x - y)" using assms by (intro sdiv_between; simp)+
  have xy: "\<bar>x - y\<bar> \<le> 131070" using assms by linarith
  then have "\<bar>(x - y) * a\<bar> \<le> 131070 * 256" unfolding abs_mult using assms by (intro mult_mono) auto
  then have e: "s32 (s32 (x - y) * a) = (x - y) * a" using xy by (simp add: s32_abs)
  then show "s32 (s32 (x - y) * a) sdiv 256 = ?d" by simp
  have r: "min x y \<le> y + ?d" "y + ?d \<le> max x y" using d by linarith+
  then have "\<bar>y + ?d\<bar> \<le> 65535" using assms by linarith
  then have "ema a x y = y + ?d" by (simp add: ema_def e s32_abs)
  with r show "min x y \<le> ema a x y" "ema a x y \<le> max x y" by simp_all
qed

lemma ema_s16: "0 \<le> a \<Longrightarrow> a \<le> 256 \<Longrightarrow> is_s16 x \<Longrightarrow> is_s16 y \<Longrightarrow> is_s16 (ema a x y)"
  using ema_between [of a x y] by (simp add: crange) linarith

text \<open>The rectified envelopes: an average of a non-negative state and a non-negative input.\<close>

lemma envelope_range:
  assumes "0 \<le> k" "k \<le> 256" "0 \<le> x" "x \<le> 32767" "0 \<le> y" "y \<le> 32767"
  shows "0 \<le> u16 (y + s32 ((x - y) * k) sdiv 256)" "u16 (y + s32 ((x - y) * k) sdiv 256) \<le> 32767"
proof -
  have "s32 (x - y) = x - y" using assms by simp
  then have e: "s32 ((x - y) * k) sdiv 256 = ((x - y) * k) sdiv 256"
    using ema_between(3) [of k x y] assms by simp
  have "min 0 (x - y) \<le> ((x - y) * k) sdiv 256" "((x - y) * k) sdiv 256 \<le> max 0 (x - y)"
    using assms by (intro sdiv_between; simp)+
  then have "0 \<le> y + ((x - y) * k) sdiv 256" "y + ((x - y) * k) sdiv 256 \<le> 32767" using assms by linarith+
  then show "0 \<le> u16 (y + s32 ((x - y) * k) sdiv 256)" "u16 (y + s32 ((x - y) * k) sdiv 256) \<le> 32767"
    by (simp_all add: e)
qed

lemma rectified_range:
  assumes "is_s16 a" "is_s16 b"
  defines "p \<equiv> s32 (a - b)"
  defines "ap \<equiv> (if p < 0 then - p else p)"
  shows "0 \<le> (if ap > 32767 then 32767 else ap)" "(if ap > 32767 then 32767 else ap) \<le> 32767"
  by (simp_all add: ap_def)

lemma shBioPush_inv:
  assumes "bio_inv b" "is_s16 hp"
  shows "bio_inv (shBioPush hp b)"
proof -
  note i = assms(1) [unfolded bio_inv_def]
  have e: "is_s16 (ema 136 hp (bio_lp_fast b))" "is_s16 (ema 47 hp (bio_lp_slow b))"
    "is_s16 (ema 27 hp (bio_resp_fast b))" "is_s16 (ema 8 hp (bio_resp_slow b))"
    using i assms(2) by (simp_all add: ema_s16)
  note r1 = rectified_range [OF e(1,2)] and r2 = rectified_range [OF e(3,4)]
  show ?thesis
    unfolding shBioPush_def bio_inv_def Let_def
    using e i envelope_range [OF _ _ r1, of 32 "bio_pulse_abs b"] envelope_range [OF _ _ r2, of 16 "bio_resp_abs b"]
    by simp
qed

section \<open>The invariant of the whole state\<close>

definition slot_ok :: "motion_slot \<Rightarrow> bool" where
  "slot_ok m \<longleftrightarrow> is_u16 (m_mag m) \<and> is_s16 (m_ax m) \<and> is_s16 (m_ay m) \<and> is_s16 (m_az m)"

definition inputs_inv :: "vitals \<Rightarrow> bool" where
  "inputs_inv v \<longleftrightarrow>
     ring_fill_inv 25 (motion_win v) \<and> (\<forall>m \<in> set (rbuf (motion_win v)). slot_ok m) \<and>
     hp_inv (hp_prev_x v) (hp_prev_y v) \<and>
     ring_fill_inv 100 (band_win v) \<and> (\<forall>x \<in> set (rbuf (band_win v)). is_s16 x) \<and>
     hp_inv (sens_prev_x v) (sens_prev_y v) \<and>
     ring_fill_inv 100 (sens_win v) \<and> (\<forall>x \<in> set (rbuf (sens_win v)). is_s16 x) \<and>
     bio_inv (bio v) \<and> resp_inv (resp v) \<and> is_u16 (st_sens_mv (st v))"

definition counters_inv :: "vitals \<Rightarrow> bool" where
  "counters_inv v \<longleftrightarrow>
     is_u16 (pir_events v) \<and> 0 \<le> sens_since_process v \<and> sens_since_process v < 25 \<and>
     is_u8 (calm_windows v) \<and> is_u8 (sens_dropped v) \<and>
     ts_inv (tb v) \<and> rate_inv (tb v) \<and> ts_n (tb v) \<le> sens_since_process v"

definition estimate_inv :: "vitals \<Rightarrow> bool" where
  "estimate_inv v \<longleftrightarrow>
     guard_inv (guard v) \<and> cusum_inv (cus v) \<and> fft_smooth_inv (fftk v) \<and>
     is_u16 (st_baseline_energy (st v))"

text \<open>What a status that claims a valid pulse guarantees.\<close>

definition hr_report_ok :: "vitals_status \<Rightarrow> bool" where
  "hr_report_ok s \<longleftrightarrow>
     (hr_valid (st_hr s) \<longrightarrow>
        st_motion s = motion_calm \<and> hr_reason (st_hr s) = hr_ok \<and>
        40 \<le> hr_bpm (st_hr s) \<and> hr_bpm (st_hr s) \<le> 180 \<and>
        bpm_or_0 (hr_bpm_peak (st_hr s)) \<and> hr_bpm_peak (st_hr s) \<noteq> 0 \<and>
        bpm_or_0 (hr_bpm_fft (st_hr s)) \<and> hr_bpm_fft (st_hr s) \<noteq> 0 \<and>
        \<bar>hr_bpm_peak (st_hr s) - hr_bpm_fft (st_hr s)\<bar> * 100 \<le> hr_bpm (st_hr s) * 20 \<and>
        400 \<le> st_band_energy s \<and> st_band_energy s \<le> 3500 \<and> st_hr_win_left s = 0)"

definition vitals_inv :: "vitals \<Rightarrow> bool" where
  "vitals_inv v \<longleftrightarrow> inputs_inv v \<and> counters_inv v \<and> estimate_inv v \<and> hr_report_ok (st v)"

lemmas vitals_inv_defs = vitals_inv_def inputs_inv_def counters_inv_def estimate_inv_def hr_report_ok_def

lemma timebase_init_n: "ts_n timebase_init = 0"
  by (simp add: timebase_init_def)

lemma vitals_init_inv: "vitals_inv (SmartHelmet_VitalsInit run0)"
  by (simp add: vitals_inv_defs SmartHelmet_VitalsInit_def ring_fill_inv_init resp_init_inv
      timebase_init_inv cusum_init_inv guard_inv_def fft_smooth_inv_def shFftSmoothReset_def
      vitals_status_zero_def hr_status_zero_def bio_inv_def timebase_init_n crange)
    (simp add: ring_init_def slot_ok_def crange)

lemma VitalsPushAccel_inv:
  assumes "vitals_inv v" "is_s16 x" "is_s16 y" "is_s16 z"
  shows "vitals_inv (SmartHelmet_VitalsPushAccel x y z v)"
proof -
  let ?mag = "shSqrtU32 (u32 (x * x + y * y + z * z))"
  obtain hp px py where h: "shHighPass ?mag (hp_prev_x v) (hp_prev_y v) = (hp, px, py)"
    by (metis prod_cases3)
  have mag: "is_u16 ?mag" by (rule shSqrtU32_root(3)) simp
  have hpi: "hp_inv (hp_prev_x v) (hp_prev_y v)" using assms(1) by (simp add: vitals_inv_defs)
  note hi = shHighPass_inv [OF hpi mag h]
  have "\<forall>m \<in> set (rbuf (ring_push 25 \<lparr>m_mag = ?mag, m_ax = x, m_ay = y, m_az = z\<rparr> (motion_win v))). slot_ok m"
    using assms mag by (intro ring_all_push) (simp_all add: vitals_inv_defs slot_ok_def)
  moreover have "\<forall>m \<in> set (rbuf (ring_push 100 hp (band_win v))). is_s16 m"
    using assms(1) hi by (intro ring_all_push) (simp_all add: vitals_inv_defs)
  ultimately show ?thesis using assms(1) hi
    by (simp add: SmartHelmet_VitalsPushAccel_def h Let_def vitals_inv_defs ring_fill_inv_push)
qed

text \<open>
  A \<open>SENS_IN\<close> sample: the push alone may take the interval count one past the sample
  count, which the tick that follows it restores.
\<close>

lemma sens_edge_frame:
  "st (sens_edge hp v) = st v" "motion_win (sens_edge hp v) = motion_win v"
  "hp_prev_x (sens_edge hp v) = hp_prev_x v" "hp_prev_y (sens_edge hp v) = hp_prev_y v"
  "band_win (sens_edge hp v) = band_win v" "sens_win (sens_edge hp v) = sens_win v"
  "sens_prev_x (sens_edge hp v) = sens_prev_x v" "sens_prev_y (sens_edge hp v) = sens_prev_y v"
  "bio (sens_edge hp v) = bio v" "sens_since_process (sens_edge hp v) = sens_since_process v"
  "calm_windows (sens_edge hp v) = calm_windows v" "still_run (sens_edge hp v) = still_run v"
  "guard (sens_edge hp v) = guard v" "sens_dropped (sens_edge hp v) = sens_dropped v"
  "tb (sens_edge hp v) = tb v" "resp (sens_edge hp v) = resp v" "cus (sens_edge hp v) = cus v"
  "fftk (sens_edge hp v) = fftk v" "sh_fall_pending (sens_edge hp v) = sh_fall_pending v"
  "prev_sens_mv (sens_edge hp v) = prev_sens_mv v" "prev_sens_mv_valid (sens_edge hp v) = prev_sens_mv_valid v"
  "is_u16 (pir_events v) \<Longrightarrow> is_u16 (pir_events (sens_edge hp v))"
  by (auto simp: sens_edge_def SmartHelmet_VitalsPirEvent_def Let_def crange)

definition pushed_inv :: "vitals \<Rightarrow> bool" where
  "pushed_inv v \<longleftrightarrow> inputs_inv v \<and> estimate_inv v \<and> hr_report_ok (st v) \<and>
     is_u16 (pir_events v) \<and> 0 \<le> sens_since_process v \<and> sens_since_process v < 25 \<and>
     is_u8 (calm_windows v) \<and> is_u8 (sens_dropped v) \<and> ts_inv (tb v) \<and> rate_inv (tb v)"

lemma vitals_inv_pushed: "vitals_inv v \<Longrightarrow> pushed_inv v"
  by (simp add: vitals_inv_def counters_inv_def pushed_inv_def)

lemma VitalsPushSens_inv:
  assumes "vitals_inv v" "is_u16 mv"
  shows "pushed_inv (SmartHelmet_VitalsPushSensInMvAt mv t v)"
    and "ts_n (tb (SmartHelmet_VitalsPushSensInMvAt mv t v)) \<le> sens_since_process v + 1"
proof -
  obtain hp px py where h: "shHighPass mv (sens_prev_x v) (sens_prev_y v) = (hp, px, py)"
    by (metis prod_cases3)
  have hpi: "hp_inv (sens_prev_x v) (sens_prev_y v)" using assms(1) by (simp add: vitals_inv_defs)
  note hi = shHighPass_inv [OF hpi assms(2) h]
  have "\<forall>m \<in> set (rbuf (ring_push 100 hp (sens_win v))). is_s16 m"
    using assms(1) hi by (intro ring_all_push) (simp_all add: vitals_inv_defs)
  moreover have "ts_inv (ts_note t (tb v))"
    using assms(1) by (intro ts_note_inv) (simp_all add: vitals_inv_defs)
  ultimately show "pushed_inv (SmartHelmet_VitalsPushSensInMvAt mv t v)" using assms hi
    by (simp add: SmartHelmet_VitalsPushSensInMvAt_def h pushed_inv_def vitals_inv_defs
        sens_edge_frame ring_fill_inv_push shRespPush_inv shBioPush_inv ts_note_rate_inv)
  show "ts_n (tb (SmartHelmet_VitalsPushSensInMvAt mv t v)) \<le> sens_since_process v + 1"
    using assms(1) ts_note_n [of t "tb v"]
    by (simp add: SmartHelmet_VitalsPushSensInMvAt_def h sens_edge_frame vitals_inv_defs)
qed

section \<open>Window processing preserves the invariant\<close>

text \<open>What the processing reads but never writes.\<close>

definition same_inputs :: "vitals \<Rightarrow> vitals \<Rightarrow> bool" where
  "same_inputs v w \<longleftrightarrow>
     motion_win w = motion_win v \<and> hp_prev_x w = hp_prev_x v \<and> hp_prev_y w = hp_prev_y v \<and>
     band_win w = band_win v \<and> sens_prev_x w = sens_prev_x v \<and> sens_prev_y w = sens_prev_y v \<and>
     sens_win w = sens_win v \<and> bio w = bio v \<and> resp w = resp v \<and> st_sens_mv (st w) = st_sens_mv (st v) \<and>
     sens_since_process w = sens_since_process v"

lemma same_inputs_refl [simp]: "same_inputs v v"
  by (simp add: same_inputs_def)

lemma same_inputs_trans: "same_inputs u v \<Longrightarrow> same_inputs v w \<Longrightarrow> same_inputs u w"
  by (simp add: same_inputs_def)

lemma same_inputs_inv: "same_inputs v w \<Longrightarrow> inputs_inv v \<Longrightarrow> inputs_inv w"
  by (simp add: same_inputs_def inputs_inv_def)

lemma vitals_fuse_frame:
  assumes "shFuseHr False p f 0 n mag allow pre (guard v) = (g, h)"
  shows "vitals_fuse p f n mag allow pre v = v\<lparr>guard := g, st := (st v)\<lparr>st_hr := h\<rparr>\<rparr>"
  by (simp add: vitals_fuse_def assms)

lemma shFuseHr_win_left:
  "shFuseHr False p f ac n mag allow pre g = (g', h) \<Longrightarrow> hr_win_left g' = hr_win_left g"
  by (auto simp: shFuseHr_def fuse_delta_def Let_def split: prod.splits if_splits)

lemma shFuseHr_estimates:
  "shFuseHr False p f ac n mag allow pre g = (g', h) \<Longrightarrow> hr_bpm_peak h = p \<and> hr_bpm_fft h = f"
  by (auto simp: shFuseHr_def Let_def split: prod.splits)

lemma shPeakBpm_range: "shPeakBpm fs x n = (bpm, k) \<Longrightarrow> bpm_or_0 bpm"
  by (auto simp: shPeakBpm_def bpm_or_0_def Let_def split: if_splits)

lemma shFuseHr_blocked:
  assumes "shFuseHr False p f ac n mag False pre g = (g', h)"
  shows "\<not> hr_valid h"
proof -
  obtain fused ok0 why0 where fp: "fuse_pairwise p f n pre = (fused, ok0, why0)"
    by (metis prod_cases3)
  obtain g1 ok why where fd: "fuse_delta fused g (fuse_allow False pre (hr_win_left g) (ok0, why0)) = (g1, ok, why)"
    by (metis prod_cases3)
  have "\<not> ok" using fuse_delta_ok(2) [of fused g _ g1 why] fd
    by (metis (full_types) fuse_allow_ok)
  with assms show ?thesis by (auto simp: shFuseHr_def fp fd)
qed

text \<open>The pulse path of a calm window.\<close>

lemma vitals_hr_cases:
  assumes wl: "0 \<le> hr_win_left (guard v)"
  obtains (blocked) sig where "sig \<noteq> hr_ok"
      "vitals_hr energy sa v = vitals_fuse 0 0 0 0 False sig
         (v\<lparr>guard := (guard v)\<lparr>hr_win_left := max 0 (hr_win_left (guard v) - 1)\<rparr>\<rparr>)"
  | (measured) p k f mag kst pre where
      "shHrSignalReason energy sa = hr_ok" "timebase_ok (tb v)"
      "shPeakBpm (fs_q8 (tb v)) (shCopySensOrdered (rcnt (sens_win v)) (sens_win v))
         (length (shCopySensOrdered (rcnt (sens_win v)) (sens_win v))) = (p, k)"
      "shFftBpm (fs_q8 (tb v)) (shCopySensOrdered (rcnt (sens_win v)) (sens_win v))
         (length (shCopySensOrdered (rcnt (sens_win v)) (sens_win v))) (fftk v) = (f, mag, kst)"
      "hr_win_left (guard v) \<noteq> 0 \<longrightarrow> pre \<noteq> hr_ok"
      "vitals_hr energy sa v = vitals_fuse p f (int k) mag (hr_win_left (guard v) = 0) pre
         (v\<lparr>guard := (guard v)\<lparr>hr_win_left := max 0 (hr_win_left (guard v) - 1)\<rparr>, fftk := kst\<rparr>)"
proof -
  let ?x = "shCopySensOrdered (rcnt (sens_win v)) (sens_win v)"
  obtain p k where pk: "shPeakBpm (fs_q8 (tb v)) ?x (length ?x) = (p, k)" by fastforce
  obtain f mag kst where ff: "shFftBpm (fs_q8 (tb v)) ?x (length ?x) (fftk v) = (f, mag, kst)"
    by (metis prod_cases3)
  let ?pre = "if hr_win_left (guard v) > 0 then hr_holdoff else hr_ok"
  let ?pre1 = "if p = 0 \<and> f = 0 then (if ?pre = hr_holdoff then ?pre else hr_none) else ?pre"
  let ?sig0 = "shHrSignalReason energy sa"
  let ?sig = "if ?sig0 = hr_ok \<and> \<not> timebase_ok (tb v) then hr_timebase else ?sig0"
  have g: "(if hr_win_left (guard v) > 0 then v\<lparr>guard := (guard v)\<lparr>hr_win_left := hr_win_left (guard v) - 1\<rparr>\<rparr> else v) =
      v\<lparr>guard := (guard v)\<lparr>hr_win_left := max 0 (hr_win_left (guard v) - 1)\<rparr>\<rparr>"
    using wl by (cases "hr_win_left (guard v) > 0") (simp_all add: max_def)
  show thesis
  proof (cases "?sig = hr_ok")
    case False
    show thesis
      by (rule blocked [of ?sig]) (use False wl in \<open>simp_all add: vitals_hr_def g Let_def\<close>)
  next
    case True
    then have "?sig0 = hr_ok" "timebase_ok (tb v)" by (auto split: if_splits)
    then show thesis
      by (intro measured [of p k f mag kst ?pre1])
        (use pk ff wl in \<open>simp_all add: vitals_hr_def g Let_def\<close>)
  qed
qed

definition hr_accepted :: "hr_status \<Rightarrow> bool" where
  "hr_accepted h \<longleftrightarrow>
     hr_reason h = hr_ok \<and> 40 \<le> hr_bpm h \<and> hr_bpm h \<le> 180 \<and>
     bpm_or_0 (hr_bpm_peak h) \<and> hr_bpm_peak h \<noteq> 0 \<and> bpm_or_0 (hr_bpm_fft h) \<and> hr_bpm_fft h \<noteq> 0 \<and>
     \<bar>hr_bpm_peak h - hr_bpm_fft h\<bar> * 100 \<le> hr_bpm h * 20"

lemma fuse_accepted:
  assumes "shFuseHr False p f ac n mag allow pre g = (g', h)" "hr_valid h" "guard_inv g" "bpm_or_0 p" "bpm_or_0 f"
  shows "hr_accepted h \<and> allow"
proof -
  have r: "0 \<le> p" "p \<le> 65535" "0 \<le> f" "f \<le> 65535" using assms(4,5) by (auto simp: bpm_or_0_def)
  from shFuseHr_valid_aux [OF assms(1,2) r] shFuseHr_estimates [OF assms(1)]
    shFuseHr_guard_inv(2) [OF assms(1,3,4,5,2)] assms(4,5)
  show ?thesis by (simp add: hr_accepted_def)
qed

lemma guard_inv_dec: "guard_inv g \<Longrightarrow> guard_inv (g\<lparr>hr_win_left := max 0 (hr_win_left g - 1)\<rparr>)"
  by (simp add: guard_inv_def)

lemma vitals_hr_result:
  assumes "guard_inv (guard v)" "fft_smooth_inv (fftk v)"
  obtains g h k where
    "vitals_hr energy sa v = v\<lparr>guard := g, fftk := k, st := (st v)\<lparr>st_hr := h\<rparr>\<rparr>"
    "guard_inv g" "fft_smooth_inv k" "hr_win_left g = max 0 (hr_win_left (guard v) - 1)"
    "hr_reason h = hr_ok \<longleftrightarrow> hr_valid h"
    "hr_valid h \<longrightarrow> hr_win_left (guard v) = 0 \<and> shHrSignalReason energy sa = hr_ok \<and>
       timebase_ok (tb v) \<and> hr_accepted h"
proof -
  let ?g = "(guard v)\<lparr>hr_win_left := max 0 (hr_win_left (guard v) - 1)\<rparr>"
  have gi: "guard_inv ?g" using assms(1) by (rule guard_inv_dec)
  have wl: "0 \<le> hr_win_left (guard v)" using assms(1) by (simp add: guard_inv_def)
  show thesis using wl
  proof (cases rule: vitals_hr_cases [where energy = energy and sa = sa])
    case (blocked sig)
    obtain g h where f: "shFuseHr False 0 0 0 0 0 False sig ?g = (g, h)" by fastforce
    have "vitals_hr energy sa v = v\<lparr>guard := g, st := (st v)\<lparr>st_hr := h\<rparr>\<rparr>"
      using blocked(2) by (simp add: vitals_fuse_def f)
    also have "\<dots> = v\<lparr>guard := g, fftk := fftk v, st := (st v)\<lparr>st_hr := h\<rparr>\<rparr>" by (cases v) simp
    finally have eq: "vitals_hr energy sa v = \<dots>" .
    have nv: "\<not> hr_valid h" by (rule shFuseHr_blocked [OF f])
    have g0: "guard_inv g" by (rule shFuseHr_guard_inv(1) [OF f gi]) (simp_all add: bpm_or_0_def)
    have wl': "hr_win_left g = max 0 (hr_win_left (guard v) - 1)" using shFuseHr_win_left [OF f] by simp
    have rs: "hr_reason h = hr_ok \<longleftrightarrow> hr_valid h" using shFuseHr_reason [OF f] blocked(1) by simp
    show thesis by (rule that [OF eq g0 assms(2) wl' rs]) (simp add: nv)
  next
    case (measured p k f mag kst pre)
    let ?v = "v\<lparr>guard := ?g, fftk := kst\<rparr>"
    obtain g h where fu: "shFuseHr False p f 0 (int k) mag (hr_win_left (guard v) = 0) pre ?g = (g, h)"
      by fastforce
    have eq: "vitals_hr energy sa v = v\<lparr>guard := g, fftk := kst, st := (st v)\<lparr>st_hr := h\<rparr>\<rparr>"
      using measured(6) by (simp add: vitals_fuse_def fu)
    note ff = shFftBpm_inv [OF assms(2) measured(4)]
    have b: "bpm_or_0 p" "bpm_or_0 f"
      using shPeakBpm_range [OF measured(3)] ff(3) by (auto simp: bpm_or_0_def)
    have g0: "guard_inv g" by (rule shFuseHr_guard_inv(1) [OF fu gi b])
    have wl': "hr_win_left g = max 0 (hr_win_left (guard v) - 1)" using shFuseHr_win_left [OF fu] by simp
    have rs: "hr_reason h = hr_ok \<longleftrightarrow> hr_valid h" using shFuseHr_reason [OF fu] measured(5) by simp
    show thesis
      by (rule that [OF eq g0 ff(1) wl' rs]) (use fuse_accepted [OF fu _ gi b] measured(1,2) in auto)
  qed
qed

definition guard_holdoff :: hr_guard where
  "guard_holdoff = \<lparr>hr_win_left = 5, last_hr_valid_bpm = 0, last_hr_valid_have = False, hr_delta_rej = 0\<rparr>"

lemma guard_holdoff_simps [simp]: "guard_inv guard_holdoff" "hr_win_left guard_holdoff = 5"
  by (simp_all add: guard_holdoff_def guard_inv_def)

lemma shHrDisturb_eq:
  "guard_inv (guard v) \<Longrightarrow> shHrDisturb 5 v = v\<lparr>guard := guard_holdoff, fftk := shFftSmoothReset\<rparr>"
  by (simp add: shHrDisturb_def guard_inv_def guard_holdoff_def)

lemma fft_reset_inv [simp]: "fft_smooth_inv shFftSmoothReset"
  by (simp add: shFftSmoothReset_def fft_smooth_inv_def)

lemma pulse_baseline_range:
  assumes "0 \<le> pulse" "pulse \<le> 32767" "is_u16 base"
  shows "is_u16 (pulse_baseline pulse base)" "1 \<le> pulse_baseline pulse base"
proof -
  have "1 \<le> pulse_baseline pulse base \<and> pulse_baseline pulse base < 65536"
  proof (cases "base = 0")
    case False
    let ?d = "((pulse - base) * 16) sdiv 256"
    have b: "1 \<le> base" "base \<le> 65535" using False assms(3) by (simp_all add: crange)
    have e: "s32 ((pulse - base) * 16) = (pulse - base) * 16"
      using b assms by (intro s32_abs) (simp add: abs_mult)
    have d: "min 0 (pulse - base) \<le> ?d" "?d \<le> max 0 (pulse - base)"
      by (rule sdiv_between; simp)+
    have "1 \<le> base + ?d"
    proof (cases "pulse < base")
      case True
      have "- ?d = ((base - pulse) * 16) div 256" using True by (simp add: sdiv_neg)
      also have "\<dots> \<le> (base * 16) div 256" using assms(1) by (intro zdiv_mono1) auto
      also have "\<dots> < base" using b by (intro div_less_mult) auto
      finally show ?thesis by linarith
    qed (use d b in linarith)
    moreover have "base + ?d < 65536" using d b assms by linarith
    ultimately show ?thesis unfolding pulse_baseline_def e using False by simp
  qed (use assms in \<open>simp add: pulse_baseline_def\<close>)
  then show "is_u16 (pulse_baseline pulse base)" "1 \<le> pulse_baseline pulse base" by (simp_all add: crange)
qed

lemma window_trend_base:
  assumes "window_trend pulse rsp sa base = (tr, ok, base')" "0 \<le> pulse" "pulse \<le> 32767" "is_u16 base"
  shows "is_u16 base'"
  using assms pulse_baseline_range [OF assms(2-4)]
  by (auto simp: window_trend_def Let_def split: if_splits)

text \<open>
  How many more window evaluations must pass before a pulse may be reported: the calm
  windows still missing plus the holdoff still running.
\<close>

definition quarantine :: "vitals \<Rightarrow> nat" where
  "quarantine v = nat (2 - calm_windows v) + nat (hr_win_left (guard v))"

lemma calm_begin_result:
  assumes "guard_inv (guard v)" "fft_smooth_inv (fftk v)" "is_u8 (calm_windows v)"
  obtains g k where
    "calm_begin energy sa v = v\<lparr>st := (st v)\<lparr>st_motion := motion_calm, st_band_energy := energy\<rparr>,
       calm_windows := min 255 (calm_windows v + 1), guard := g, fftk := k\<rparr>"
    "guard_inv g" "fft_smooth_inv k" "hr_win_left (guard v) \<le> hr_win_left g"
proof -
  let ?v1 = "v\<lparr>st := (st v)\<lparr>st_motion := motion_calm, st_band_energy := energy\<rparr>,
       calm_windows := min 255 (calm_windows v + 1)\<rparr>"
  let ?prev = "if prev_sens_mv_valid v then Some (prev_sens_mv v) else None"
  have c: "(if calm_windows v < 255 then calm_windows v + 1 else calm_windows v) = min 255 (calm_windows v + 1)"
    using assms(3) by (simp add: crange)
  have eq: "calm_begin energy sa v =
      (if shHrDisturbReason ?prev energy sa (st_sens_mv (st v)) \<noteq> hr_ok then shHrDisturb 5 ?v1 else ?v1)"
    unfolding calm_begin_def Let_def c by simp
  show thesis
  proof (cases "shHrDisturbReason ?prev energy sa (st_sens_mv (st v)) \<noteq> hr_ok")
    case True
    have d: "shHrDisturb 5 ?v1 = ?v1\<lparr>guard := guard_holdoff, fftk := shFftSmoothReset\<rparr>"
      using assms(1) by (intro shHrDisturb_eq) simp
    have w5: "hr_win_left (guard v) \<le> 5" using assms(1) by (simp add: guard_inv_def)
    show thesis
      by (rule that [where g = guard_holdoff and k = shFftSmoothReset])
        (use True eq d w5 in simp_all)
  next
    case False
    show thesis by (rule that [where g = "guard v" and k = "fftk v"]) (use False eq assms in \<open>cases v, simp_all\<close>)
  qed
qed

text \<open>The decision: a valid pulse needs an empty quarantine, and every window shortens it by at most one.\<close>

lemma calm_decide_result:
  assumes "guard_inv (guard v)" "fft_smooth_inv (fftk v)" "bio_inv (bio v)" "is_u16 (st_baseline_energy (st v))"
    and res: "calm_decide have_accel energy sa v = (tr, w)"
  obtains g h k ok base where
    "w = v\<lparr>guard := g, fftk := k, st := (st v)\<lparr>st_valid := ok, st_baseline_energy := base, st_hr := h\<rparr>\<rparr>"
    "guard_inv g" "fft_smooth_inv k" "is_u16 base"
    "hr_reason h = hr_ok \<longleftrightarrow> hr_valid h"
    "hr_valid h \<longrightarrow> calm_windows v \<ge> 3 \<and> hr_win_left (guard v) = 0 \<and> hr_win_left g = 0 \<and>
       shHrSignalReason energy sa = hr_ok \<and> timebase_ok (tb v) \<and> hr_accepted h"
    "hr_win_left g \<ge> hr_win_left (guard v) - 1" "calm_windows v < 3 \<longrightarrow> hr_win_left g = 5"
proof (cases "calm_windows v < 3 \<or> (rcnt (sens_win v) < 25 \<and> \<not> have_accel)")
  case True
  have d: "shHrDisturb 5 (v\<lparr>st := (st v)\<lparr>st_valid := False\<rparr>\<rparr>) =
      v\<lparr>st := (st v)\<lparr>st_valid := False\<rparr>, guard := guard_holdoff, fftk := shFftSmoothReset\<rparr>"
    using assms(1) by (simp add: shHrDisturb_eq)
  obtain g h where f: "shFuseHr False 0 0 0 0 0 False hr_warm guard_holdoff = (g, h)" by fastforce
  have "w = v\<lparr>guard := g, fftk := shFftSmoothReset, st := (st v)\<lparr>st_valid := False, st_hr := h\<rparr>\<rparr>"
    using res True unfolding calm_decide_def d by (auto simp: vitals_fuse_def f)
  also have "\<dots> = v\<lparr>guard := g, fftk := shFftSmoothReset, st := (st v)\<lparr>st_valid := False,
      st_baseline_energy := st_baseline_energy (st v), st_hr := h\<rparr>\<rparr>" by (cases "st v") simp
  finally have eq: "w = \<dots>" .
  have g: "guard_inv g" by (rule shFuseHr_guard_inv(1) [OF f]) (simp_all add: bpm_or_0_def)
  have wl: "hr_win_left g = 5" using shFuseHr_win_left [OF f] by simp
  have nv: "\<not> hr_valid h" by (rule shFuseHr_blocked [OF f])
  have rs: "hr_reason h = hr_ok \<longleftrightarrow> hr_valid h" using shFuseHr_reason [OF f] by simp
  have w5: "hr_win_left (guard v) \<le> 5" using assms(1) by (simp add: guard_inv_def)
  show thesis by (rule that [OF eq g fft_reset_inv assms(4) rs]) (use nv wl w5 in simp_all)
next
  case False
  obtain tr' ok base where wt: "window_trend (bio_pulse_abs (bio v)) (bio_resp_abs (bio v)) sa
      (st_baseline_energy (st v)) = (tr', ok, base)" by (metis prod_cases3)
  let ?v = "v\<lparr>st := (st v)\<lparr>st_valid := ok, st_baseline_energy := base\<rparr>\<rparr>"
  have w: "w = vitals_hr energy sa ?v" using res False by (simp add: calm_decide_def wt)
  have b: "is_u16 base" by (rule window_trend_base [OF wt]) (use assms(3,4) in \<open>simp_all add: bio_inv_def\<close>)
  have "guard_inv (guard ?v)" "fft_smooth_inv (fftk ?v)" using assms(1,2) by simp_all
  then show thesis
  proof (rule vitals_hr_result [where energy = energy and sa = sa])
    fix g h k
    assume r: "vitals_hr energy sa ?v = ?v\<lparr>guard := g, fftk := k, st := (st ?v)\<lparr>st_hr := h\<rparr>\<rparr>"
      "guard_inv g" "fft_smooth_inv k" "hr_win_left g = max 0 (hr_win_left (guard ?v) - 1)"
      "hr_reason h = hr_ok \<longleftrightarrow> hr_valid h"
      "hr_valid h \<longrightarrow> hr_win_left (guard ?v) = 0 \<and> shHrSignalReason energy sa = hr_ok \<and>
         timebase_ok (tb ?v) \<and> hr_accepted h"
    have eq: "w = v\<lparr>guard := g, fftk := k, st := (st v)\<lparr>st_valid := ok, st_baseline_energy := base, st_hr := h\<rparr>\<rparr>"
      using w r(1) by simp
    show thesis by (rule that [OF eq r(2,3) b r(5)]) (use r(4,6) False in auto)
  qed
qed

lemma calm_result:
  fixes have_accel :: bool and e_sens e_accel sa :: int and v :: vitals
  assumes "inputs_inv v" "estimate_inv v" "is_u8 (calm_windows v)"
  defines "w \<equiv> vitals_calm have_accel e_sens e_accel sa v"
  defines "energy \<equiv> window_energy (rcnt (sens_win v)) (rcnt (band_win v)) have_accel e_sens e_accel (pir_events v)"
  shows "same_inputs v w" "estimate_inv w" "hr_report_ok (st w)" "is_u8 (calm_windows w)"
    and "pir_events w = 0" "tb w = tb v" "sens_dropped w = sens_dropped v"
    and "st_motion (st w) = motion_calm" "hr_reason (st_hr (st w)) = hr_ok \<longleftrightarrow> hr_valid (st_hr (st w))"
    and "hr_valid (st_hr (st w)) \<longrightarrow> quarantine v = 0 \<and> timebase_ok (tb v) \<and> shHrSignalReason energy sa = hr_ok"
    and "quarantine v \<le> Suc (quarantine w)"
proof -
  note i = assms(1) [unfolded inputs_inv_def] and e = assms(2) [unfolded estimate_inv_def]
  obtain g k where b: "calm_begin energy sa v = v\<lparr>st := (st v)\<lparr>st_motion := motion_calm, st_band_energy := energy\<rparr>,
       calm_windows := min 255 (calm_windows v + 1), guard := g, fftk := k\<rparr>"
    and gk: "guard_inv g" "fft_smooth_inv k" "hr_win_left (guard v) \<le> hr_win_left g"
    using calm_begin_result [of v energy sa] e assms(3) by metis
  let ?b = "calm_begin energy sa v"
  obtain tr u where d: "calm_decide have_accel energy sa ?b = (tr, u)" by fastforce
  have pre: "guard_inv (guard ?b)" "fft_smooth_inv (fftk ?b)" "bio_inv (bio ?b)" "is_u16 (st_baseline_energy (st ?b))"
    using gk i e by (simp_all add: b)
  obtain g' h k' ok base where u: "u = ?b\<lparr>guard := g', fftk := k', st := (st ?b)\<lparr>st_valid := ok,
      st_baseline_energy := base, st_hr := h\<rparr>\<rparr>"
    and r: "guard_inv g'" "fft_smooth_inv k'" "is_u16 base" "hr_reason h = hr_ok \<longleftrightarrow> hr_valid h"
    and val: "hr_valid h \<longrightarrow> calm_windows ?b \<ge> 3 \<and> hr_win_left (guard ?b) = 0 \<and> hr_win_left g' = 0 \<and>
       shHrSignalReason energy sa = hr_ok \<and> timebase_ok (tb ?b) \<and> hr_accepted h"
    and q: "hr_win_left g' \<ge> hr_win_left (guard ?b) - 1" "calm_windows ?b < 3 \<longrightarrow> hr_win_left g' = 5"
    using calm_decide_result [OF pre d] by metis
  have w: "w = calm_finish tr u"
    by (simp add: w_def vitals_calm_def Let_def energy_def [symmetric] d)
  note flat = w calm_finish_def u b Let_def
  have en: "hr_valid h \<longrightarrow> 400 \<le> energy \<and> energy \<le> 3500"
    using val by (auto simp: shHrSignalReason_def split: if_splits)
  have acc: "hr_valid h \<longrightarrow> hr_accepted h" using val by simp
  have c8: "0 \<le> calm_windows v" "calm_windows v < 256" using assms(3) by (simp_all add: crange)
  have wl: "0 \<le> hr_win_left (guard v)" "hr_win_left (guard v) \<le> 5" "0 \<le> hr_win_left g'"
    using e r(1) by (simp_all add: guard_inv_def)
  have cw: "calm_windows w = min 255 (calm_windows v + 1)" and gw: "guard w = g'"
    and hw: "st_hr (st w) = h" by (simp_all add: flat)
  show "same_inputs v w" by (simp add: flat same_inputs_def)
  have "cusum_inv (shUpdateHrChange (hr_valid h) (hr_bpm h) (cus v))"
    using e acc by (intro shUpdateHrChange_inv) (auto simp: hr_accepted_def)
  then show "estimate_inv w" using r by (simp add: flat estimate_inv_def)
  show "hr_report_ok (st w)" using acc en val by (simp add: flat hr_report_ok_def hr_accepted_def)
  show "is_u8 (calm_windows w)" using c8 by (simp add: cw crange)
  show "pir_events w = 0" "tb w = tb v" "sens_dropped w = sens_dropped v" "st_motion (st w) = motion_calm"
    by (simp_all add: flat)
  show "hr_reason (st_hr (st w)) = hr_ok \<longleftrightarrow> hr_valid (st_hr (st w))" using r(4) by (simp add: hw)
  show "hr_valid (st_hr (st w)) \<longrightarrow> quarantine v = 0 \<and> timebase_ok (tb v) \<and> shHrSignalReason energy sa = hr_ok"
    using val gk(3) wl by (auto simp: hw b quarantine_def)
  show "quarantine v \<le> Suc (quarantine w)"
    using q gk(3) wl c8 unfolding quarantine_def cw gw by (auto simp: b)
qed

lemma vitals_begin_frame:
  shows
    "motion_win (vitals_begin v) = motion_win v" "hp_prev_x (vitals_begin v) = hp_prev_x v"
    "hp_prev_y (vitals_begin v) = hp_prev_y v" "band_win (vitals_begin v) = band_win v"
    "sens_prev_x (vitals_begin v) = sens_prev_x v" "sens_prev_y (vitals_begin v) = sens_prev_y v"
    "sens_win (vitals_begin v) = sens_win v" "bio (vitals_begin v) = bio v"
    "resp (vitals_begin v) = resp v" "sens_since_process (vitals_begin v) = sens_since_process v"
    "guard (vitals_begin v) = guard v" "cus (vitals_begin v) = cus v"
    "fftk (vitals_begin v) = fftk v" "calm_windows (vitals_begin v) = calm_windows v"
    "pir_events (vitals_begin v) = pir_events v" "still_run (vitals_begin v) = still_run v"
    "tb (vitals_begin v) = shUpdateTimebase (tb v)" "sens_dropped (vitals_begin v) = 0"
    "st_sens_mv (st (vitals_begin v)) = st_sens_mv (st v)" "st_baseline_energy (st (vitals_begin v)) = st_baseline_energy (st v)"
    "st_motion (st (vitals_begin v)) = st_motion (st v)" "st_hr (st (vitals_begin v)) = st_hr (st v)"
    "st_motion_rms_mg (st (vitals_begin v)) = (if rcnt (motion_win v) \<ge> 2 then motion_step (motion_win v) else 0)"
proof -
  obtain bpm q where r: "shRespBpm (fs_q8 (shUpdateTimebase (tb v))) (resp_ring (resp v)) = (bpm, q)" by fastforce
  obtain mn pk where m: "motion_min_max (map m_mag (rbuf (motion_win v))) (rcnt (motion_win v)) = (mn, pk)" by fastforce
  show
    "motion_win (vitals_begin v) = motion_win v" "hp_prev_x (vitals_begin v) = hp_prev_x v"
    "hp_prev_y (vitals_begin v) = hp_prev_y v" "band_win (vitals_begin v) = band_win v"
    "sens_prev_x (vitals_begin v) = sens_prev_x v" "sens_prev_y (vitals_begin v) = sens_prev_y v"
    "sens_win (vitals_begin v) = sens_win v" "bio (vitals_begin v) = bio v"
    "resp (vitals_begin v) = resp v" "sens_since_process (vitals_begin v) = sens_since_process v"
    "guard (vitals_begin v) = guard v" "cus (vitals_begin v) = cus v"
    "fftk (vitals_begin v) = fftk v" "calm_windows (vitals_begin v) = calm_windows v"
    "pir_events (vitals_begin v) = pir_events v" "still_run (vitals_begin v) = still_run v"
    "tb (vitals_begin v) = shUpdateTimebase (tb v)" "sens_dropped (vitals_begin v) = 0"
    "st_sens_mv (st (vitals_begin v)) = st_sens_mv (st v)" "st_baseline_energy (st (vitals_begin v)) = st_baseline_energy (st v)"
    "st_motion (st (vitals_begin v)) = st_motion (st v)" "st_hr (st (vitals_begin v)) = st_hr (st v)"
    "st_motion_rms_mg (st (vitals_begin v)) = (if rcnt (motion_win v) \<ge> 2 then motion_step (motion_win v) else 0)"
    by (simp_all add: vitals_begin_def vitals_motion_stats_def shUpdateResp_def r m Let_def)
qed

lemma vitals_begin_same: "same_inputs v (vitals_begin v\<lparr>still_run := run\<rparr>)"
  by (simp add: same_inputs_def vitals_begin_frame)

lemma active_result:
  assumes "estimate_inv v"
  shows "same_inputs v (vitals_active v)" "estimate_inv (vitals_active v)" "hr_report_ok (st (vitals_active v))"
    "calm_windows (vitals_active v) = 0" "pir_events (vitals_active v) = 0" "tb (vitals_active v) = tb v"
    "sens_dropped (vitals_active v) = sens_dropped v" "quarantine (vitals_active v) = 7"
    "st_motion (st (vitals_active v)) = motion_active" "hr_reason (st_hr (st (vitals_active v))) = hr_motion"
    "\<not> hr_valid (st_hr (st (vitals_active v)))"
proof -
  let ?v = "v\<lparr>st := (st v)\<lparr>st_motion := motion_active, st_trend := trend_unknown, st_valid := False,
                    st_hr := (st_hr (st v))\<lparr>hr_valid := False, hr_bpm := 0, hr_bpm_peak := 0,
                                hr_bpm_fft := 0, hr_bpm_ac := 0, hr_reason := hr_motion\<rparr>,
                    st_hr_ac_q8 := 0\<rparr>,
            calm_windows := 0, pir_events := 0\<rparr>"
  have "shHrDisturb 5 ?v = ?v\<lparr>guard := guard_holdoff, fftk := shFftSmoothReset\<rparr>"
    using assms by (intro shHrDisturb_eq) (simp add: estimate_inv_def)
  then have "vitals_active v = ?v\<lparr>guard := guard_holdoff, fftk := shFftSmoothReset,
      st := (st ?v)\<lparr>st_hr_win_left := 5\<rparr>, prev_sens_mv_valid := False\<rparr>"
    by (simp add: vitals_active_def)
  then show "same_inputs v (vitals_active v)" "estimate_inv (vitals_active v)" "hr_report_ok (st (vitals_active v))"
    "calm_windows (vitals_active v) = 0" "pir_events (vitals_active v) = 0" "tb (vitals_active v) = tb v"
    "sens_dropped (vitals_active v) = sens_dropped v" "quarantine (vitals_active v) = 7"
    "st_motion (st (vitals_active v)) = motion_active" "hr_reason (st_hr (st (vitals_active v))) = hr_motion"
    "\<not> hr_valid (st_hr (st (vitals_active v)))"
    using assms by (simp_all add: same_inputs_def estimate_inv_def hr_report_ok_def quarantine_def)
qed

text \<open>The gate decision as the firmware computes it from the state before the window.\<close>

definition window_active :: "vitals \<Rightarrow> bool" where
  "window_active v =
     fst (motion_gate_step (rcnt (motion_win v) \<ge> 2)
       (if rcnt (motion_win v) \<ge> 2 then motion_step (motion_win v) else 0) (st_motion (st v)) (still_run v))"

definition proc_energy :: "vitals \<Rightarrow> int" where
  "proc_energy v =
     (let ha = (rcnt (motion_win v) \<ge> 2) in
      window_energy (rcnt (sens_win v)) (rcnt (band_win v)) ha
        (shEnergyI16 (rbuf (sens_win v)) (rcnt (sens_win v)))
        (if ha then shEnergyI16 (rbuf (band_win v)) (rcnt (band_win v)) else 0) (pir_events v))"

lemma process_split:
  obtains run es ea where
    "SmartHelmet_VitalsProcess v =
       (if window_active v then vitals_active (vitals_begin v\<lparr>still_run := run\<rparr>)
        else vitals_calm (rcnt (motion_win v) \<ge> 2) es ea
               (shMeanAbsI16 (rbuf (sens_win v)) (rcnt (sens_win v))) (vitals_begin v\<lparr>still_run := run\<rparr>))"
    "window_energy (rcnt (sens_win v)) (rcnt (band_win v)) (rcnt (motion_win v) \<ge> 2) es ea (pir_events v) = proc_energy v"
proof -
  let ?ha = "rcnt (motion_win v) \<ge> 2"
  let ?rms = "if ?ha then motion_step (motion_win v) else 0"
  obtain act run where g: "motion_gate_step ?ha ?rms (st_motion (st v)) (still_run v) = (act, run)" by fastforce
  let ?es = "shEnergyI16 (rbuf (sens_win v)) (rcnt (sens_win v))"
  let ?ea = "if ?ha then shEnergyI16 (rbuf (band_win v)) (rcnt (band_win v)) else 0"
  have act: "window_active v = act" unfolding window_active_def g by simp
  have eq: "SmartHelmet_VitalsProcess v =
       (if window_active v then vitals_active (vitals_begin v\<lparr>still_run := run\<rparr>)
        else vitals_calm ?ha ?es ?ea (shMeanAbsI16 (rbuf (sens_win v)) (rcnt (sens_win v)))
          (vitals_begin v\<lparr>still_run := run\<rparr>))"
    unfolding SmartHelmet_VitalsProcess_def Let_def vitals_begin_frame g act by (simp only: prod.case)
  show thesis by (rule that [OF eq]) (simp add: proc_energy_def Let_def)
qed

lemma process_result:
  assumes "inputs_inv v" "estimate_inv v" "is_u8 (calm_windows v)" "ts_inv (tb v)"
  defines "w \<equiv> SmartHelmet_VitalsProcess v"
  shows "same_inputs v w" "estimate_inv w" "hr_report_ok (st w)" "is_u8 (calm_windows w)"
    and "pir_events w = 0" "tb w = shUpdateTimebase (tb v)" "sens_dropped w = 0"
    and "hr_reason (st_hr (st w)) = hr_ok \<longleftrightarrow> hr_valid (st_hr (st w))"
    and "st_motion (st w) = (if window_active v then motion_active else motion_calm)"
    and "window_active v \<longrightarrow> quarantine w = 7 \<and> \<not> hr_valid (st_hr (st w)) \<and> hr_reason (st_hr (st w)) = hr_motion"
    and "hr_valid (st_hr (st w)) \<longrightarrow> \<not> window_active v \<and> quarantine v = 0 \<and>
      timebase_ok (shUpdateTimebase (tb v)) \<and>
      shHrSignalReason (proc_energy v) (shMeanAbsI16 (rbuf (sens_win v)) (rcnt (sens_win v))) = hr_ok"
    and "quarantine v \<le> Suc (quarantine w)"
proof -
  obtain run es ea where s: "w = (if window_active v then vitals_active (vitals_begin v\<lparr>still_run := run\<rparr>)
        else vitals_calm (rcnt (motion_win v) \<ge> 2) es ea
               (shMeanAbsI16 (rbuf (sens_win v)) (rcnt (sens_win v))) (vitals_begin v\<lparr>still_run := run\<rparr>))"
    and en: "window_energy (rcnt (sens_win v)) (rcnt (band_win v)) (rcnt (motion_win v) \<ge> 2) es ea (pir_events v) = proc_energy v"
    using process_split [of v] unfolding w_def by metis
  let ?u = "vitals_begin v\<lparr>still_run := run\<rparr>"
  have same: "same_inputs v ?u" by (rule vitals_begin_same)
  have ii: "inputs_inv ?u" by (rule same_inputs_inv [OF same assms(1)])
  have ei: "estimate_inv ?u" using assms(2) by (simp add: estimate_inv_def vitals_begin_frame)
  have c8: "is_u8 (calm_windows ?u)" using assms(3) by (simp add: vitals_begin_frame)
  have qu: "quarantine ?u = quarantine v" by (simp add: quarantine_def vitals_begin_frame)
  have "hr_win_left (guard v) \<le> 5" "0 \<le> calm_windows v"
    using assms(2,3) by (simp_all add: estimate_inv_def guard_inv_def crange)
  then have q7: "quarantine v \<le> 7" unfolding quarantine_def by arith
  note a = active_result [OF ei] and c = calm_result [OF ii ei c8]
  show "same_inputs v w" "estimate_inv w" "hr_report_ok (st w)" "is_u8 (calm_windows w)"
    "pir_events w = 0" "tb w = shUpdateTimebase (tb v)" "sens_dropped w = 0"
    "hr_reason (st_hr (st w)) = hr_ok \<longleftrightarrow> hr_valid (st_hr (st w))"
    "st_motion (st w) = (if window_active v then motion_active else motion_calm)"
    "window_active v \<longrightarrow> quarantine w = 7 \<and> \<not> hr_valid (st_hr (st w)) \<and> hr_reason (st_hr (st w)) = hr_motion"
    using s same_inputs_trans [OF same a(1)] same_inputs_trans [OF same c(1)] a c(2-9)
    by (simp_all add: vitals_begin_frame crange)
  show "hr_valid (st_hr (st w)) \<longrightarrow> \<not> window_active v \<and> quarantine v = 0 \<and>
      timebase_ok (shUpdateTimebase (tb v)) \<and>
      shHrSignalReason (proc_energy v) (shMeanAbsI16 (rbuf (sens_win v)) (rcnt (sens_win v))) = hr_ok"
    using s a(11) qu en
      c(10) [of "rcnt (motion_win v) \<ge> 2" es ea "shMeanAbsI16 (rbuf (sens_win v)) (rcnt (sens_win v))"]
    by (auto simp: vitals_begin_frame)
  show "quarantine v \<le> Suc (quarantine w)"
    using s a(8) c(11) qu q7 by simp
qed

lemma process_inv:
  assumes "pushed_inv v"
  shows "vitals_inv (SmartHelmet_VitalsProcess v)"
proof -
  let ?w = "SmartHelmet_VitalsProcess v"
  have a: "inputs_inv v" "estimate_inv v" "is_u8 (calm_windows v)" "ts_inv (tb v)"
    using assms by (simp_all add: pushed_inv_def)
  note r = process_result [OF a]
  have "sens_since_process ?w = sens_since_process v" using r(1) by (simp add: same_inputs_def)
  moreover have "ts_n (shUpdateTimebase (tb v)) = 0" by (simp add: shUpdateTimebase_def Let_def)
  ultimately have "counters_inv ?w"
    using assms r(4-7) shUpdateTimebase_ts_inv [of "tb v"] shUpdateTimebase_rate_inv [OF a(4)]
    by (simp add: counters_inv_def pushed_inv_def crange)
  with same_inputs_inv [OF r(1) a(1)] r(2,3) show ?thesis by (simp add: vitals_inv_def)
qed

lemma pushed_inv_reset: "pushed_inv v \<Longrightarrow> pushed_inv (v\<lparr>sens_since_process := 0\<rparr>)"
  by (simp add: pushed_inv_def inputs_inv_def estimate_inv_def)

lemma OnSensSample_cases:
  assumes "0 \<le> sens_since_process v" "sens_since_process v < 25"
  shows "SmartHelmet_VitalsOnSensSample v =
    (if sens_since_process v + 1 \<ge> 25 then SmartHelmet_VitalsProcess (v\<lparr>sens_since_process := 0\<rparr>)
     else v\<lparr>sens_since_process := sens_since_process v + 1\<rparr>)"
  using assms by (simp add: SmartHelmet_VitalsOnSensSample_def)

lemma VitalsOnSensSample_inv:
  assumes "pushed_inv v" "ts_n (tb v) \<le> sens_since_process v + 1"
  shows "vitals_inv (SmartHelmet_VitalsOnSensSample v)"
proof -
  have "0 \<le> sens_since_process v" "sens_since_process v < 25" using assms(1) by (simp_all add: pushed_inv_def)
  note eq = OnSensSample_cases [OF this]
  have "vitals_inv (v\<lparr>sens_since_process := sens_since_process v + 1\<rparr>)" if "\<not> sens_since_process v + 1 \<ge> 25"
    using that assms by (simp add: pushed_inv_def vitals_inv_defs)
  then show ?thesis unfolding eq using process_inv [OF pushed_inv_reset [OF assms(1)]] by simp
qed

lemma VitalsDropped_inv: "vitals_inv v \<Longrightarrow> vitals_inv (SmartHelmet_VitalsNoteSensDropped v)"
  by (simp add: SmartHelmet_VitalsNoteSensDropped_def vitals_inv_defs ts_gap_inv crange)
    (simp add: ts_gap_def)

lemma VitalsPir_inv: "vitals_inv v \<Longrightarrow> vitals_inv (SmartHelmet_VitalsPirEvent v)"
  by (simp add: SmartHelmet_VitalsPirEvent_def vitals_inv_defs crange)

lemma VitalsTakeFall_inv: "vitals_inv v \<Longrightarrow> vitals_inv (snd (SmartHelmet_VitalsTakeFall v))"
  by (simp add: SmartHelmet_VitalsTakeFall_def vitals_inv_defs)

lemma push_sens_frame:
  "guard (SmartHelmet_VitalsPushSensInMvAt mv t v) = guard v"
  "calm_windows (SmartHelmet_VitalsPushSensInMvAt mv t v) = calm_windows v"
  "st_hr (st (SmartHelmet_VitalsPushSensInMvAt mv t v)) = st_hr (st v)"
  "sens_since_process (SmartHelmet_VitalsPushSensInMvAt mv t v) = sens_since_process v"
  "sh_fall_pending (SmartHelmet_VitalsPushSensInMvAt mv t v) = sh_fall_pending v"
  by (cases "shHighPass mv (sens_prev_x v) (sens_prev_y v)",
      simp add: SmartHelmet_VitalsPushSensInMvAt_def sens_edge_frame)+

lemma push_accel_frame:
  "guard (SmartHelmet_VitalsPushAccel x y z v) = guard v"
  "calm_windows (SmartHelmet_VitalsPushAccel x y z v) = calm_windows v"
  "st (SmartHelmet_VitalsPushAccel x y z v) = st v"
  by (cases "shHighPass (shSqrtU32 (u32 (x * x + y * y + z * z))) (hp_prev_x v) (hp_prev_y v)",
      simp add: SmartHelmet_VitalsPushAccel_def Let_def)+

section \<open>The component as a state machine\<close>

text \<open>
  The calls the rest of the firmware makes. A \<open>SENS_IN\<close> sample is the push followed by the
  tick, as \<^verbatim>\<open>smart_helmet_adc.c\<close> does it.
\<close>

datatype vitals_event =
    Ev_Init
  | Ev_Accel int int int
  | Ev_Sens int int
  | Ev_Dropped
  | Ev_Pir
  | Ev_Process
  | Ev_TakeFall

fun vitals_exec :: "vitals_event \<Rightarrow> vitals \<Rightarrow> vitals" where
  "vitals_exec Ev_Init v = SmartHelmet_VitalsInit (still_run v)"
| "vitals_exec (Ev_Accel x y z) v = SmartHelmet_VitalsPushAccel x y z v"
| "vitals_exec (Ev_Sens mv t) v = SmartHelmet_VitalsOnSensSample (SmartHelmet_VitalsPushSensInMvAt mv t v)"
| "vitals_exec Ev_Dropped v = SmartHelmet_VitalsNoteSensDropped v"
| "vitals_exec Ev_Pir v = SmartHelmet_VitalsPirEvent v"
| "vitals_exec Ev_Process v = SmartHelmet_VitalsProcess v"
| "vitals_exec Ev_TakeFall v = snd (SmartHelmet_VitalsTakeFall v)"

fun event_ok :: "vitals_event \<Rightarrow> bool" where
  "event_ok (Ev_Accel x y z) \<longleftrightarrow> is_s16 x \<and> is_s16 y \<and> is_s16 z"
| "event_ok (Ev_Sens mv t) \<longleftrightarrow> is_u16 mv \<and> is_u32 t"
| "event_ok _ \<longleftrightarrow> True"

inductive vitals_reach :: "vitals \<Rightarrow> bool" where
  init: "vitals_reach (SmartHelmet_VitalsInit 0)"
| step: "vitals_reach v \<Longrightarrow> event_ok e \<Longrightarrow> vitals_reach (vitals_exec e v)"

lemma vitals_exec_inv: "vitals_inv v \<Longrightarrow> event_ok e \<Longrightarrow> vitals_inv (vitals_exec e v)"
  by (cases e) (simp_all add: vitals_init_inv VitalsPushAccel_inv VitalsOnSensSample_inv VitalsPushSens_inv
      push_sens_frame VitalsDropped_inv VitalsPir_inv process_inv vitals_inv_pushed VitalsTakeFall_inv)

lemma vitals_reach_inv: "vitals_reach v \<Longrightarrow> vitals_inv v"
  by (induction rule: vitals_reach.induct) (simp_all add: vitals_init_inv vitals_exec_inv)

lemma vitals_run_inv: "vitals_inv v \<Longrightarrow> list_all event_ok es \<Longrightarrow> vitals_inv (fold vitals_exec es v)"
  by (induction es arbitrary: v) (simp_all add: vitals_exec_inv)

text \<open>The number of window evaluations a sequence of calls causes.\<close>

definition event_windows :: "vitals_event \<Rightarrow> vitals \<Rightarrow> nat" where
  "event_windows e v = (case e of Ev_Process \<Rightarrow> 1
     | Ev_Sens _ _ \<Rightarrow> if sens_since_process v + 1 \<ge> 25 then 1 else 0 | _ \<Rightarrow> 0)"

fun windows_of :: "vitals_event list \<Rightarrow> vitals \<Rightarrow> nat" where
  "windows_of [] v = 0"
| "windows_of (e # es) v = event_windows e v + windows_of es (vitals_exec e v)"

lemma quarantine_process:
  assumes "pushed_inv v"
  shows "quarantine v \<le> Suc (quarantine (SmartHelmet_VitalsProcess v))"
    and "hr_valid (st_hr (st (SmartHelmet_VitalsProcess v))) \<Longrightarrow> quarantine v = 0"
  using process_result(11,12) [of v] assms by (auto simp: pushed_inv_def)

lemma quarantine_exec:
  assumes "vitals_inv v" "event_ok e"
  shows "quarantine v \<le> quarantine (vitals_exec e v) + event_windows e v"
    and "hr_valid (st_hr (st (vitals_exec e v))) \<Longrightarrow>
      hr_valid (st_hr (st v)) \<or> (event_windows e v = 1 \<and> quarantine v = 0)"
proof -
  have "quarantine v \<le> quarantine (vitals_exec e v) + event_windows e v \<and>
    (hr_valid (st_hr (st (vitals_exec e v))) \<longrightarrow>
      hr_valid (st_hr (st v)) \<or> (event_windows e v = 1 \<and> quarantine v = 0))"
  proof (cases e)
    case Ev_Init
    have "hr_win_left (guard v) \<le> 5" "0 \<le> calm_windows v"
      using assms(1) by (simp_all add: vitals_inv_defs guard_inv_def crange)
    then have "quarantine v \<le> 7" unfolding quarantine_def by arith
    with Ev_Init show ?thesis
      by (simp add: SmartHelmet_VitalsInit_def vitals_status_zero_def hr_status_zero_def quarantine_def)
  next
    case (Ev_Sens mv t)
    let ?p = "SmartHelmet_VitalsPushSensInMvAt mv t v"
    have pi: "pushed_inv ?p" using assms Ev_Sens by (simp add: VitalsPushSens_inv)
    have ss: "0 \<le> sens_since_process ?p" "sens_since_process ?p < 25" using pi by (simp_all add: pushed_inv_def)
    note eq = OnSensSample_cases [OF ss, unfolded push_sens_frame]
    have q0: "quarantine (?p\<lparr>sens_since_process := k\<rparr>) = quarantine v" for k
      by (simp add: quarantine_def push_sens_frame)
    show ?thesis
    proof (cases "sens_since_process v + 1 \<ge> 25")
      case True
      then show ?thesis using Ev_Sens eq quarantine_process [OF pushed_inv_reset [OF pi]] q0
        by (auto simp: event_windows_def)
    next
      case False
      then show ?thesis using Ev_Sens eq q0 by (simp add: event_windows_def push_sens_frame)
    qed
  next
    case Ev_Process
    with quarantine_process [OF vitals_inv_pushed [OF assms(1)]] show ?thesis by (auto simp: event_windows_def)
  qed (simp_all add: event_windows_def quarantine_def push_accel_frame SmartHelmet_VitalsNoteSensDropped_def
      SmartHelmet_VitalsPirEvent_def SmartHelmet_VitalsTakeFall_def)
  then show "quarantine v \<le> quarantine (vitals_exec e v) + event_windows e v"
    "hr_valid (st_hr (st (vitals_exec e v))) \<Longrightarrow>
      hr_valid (st_hr (st v)) \<or> (event_windows e v = 1 \<and> quarantine v = 0)" by auto
qed

lemma quarantine_run:
  "vitals_inv v \<Longrightarrow> list_all event_ok es \<Longrightarrow> \<not> hr_valid (st_hr (st v)) \<Longrightarrow>
   windows_of es v \<le> quarantine v \<Longrightarrow> \<not> hr_valid (st_hr (st (fold vitals_exec es v)))"
proof (induction es arbitrary: v)
  case (Cons e es)
  have ok: "event_ok e" using Cons.prems(2) by simp
  note q = quarantine_exec [OF Cons.prems(1) ok]
  have "\<not> hr_valid (st_hr (st (vitals_exec e v)))" using q(2) Cons.prems(3,4) by fastforce
  moreover have "windows_of es (vitals_exec e v) \<le> quarantine (vitals_exec e v)" using q(1) Cons.prems(4) by simp
  ultimately show ?case using Cons.IH [of "vitals_exec e v"] vitals_exec_inv [OF Cons.prems(1) ok] Cons.prems(2) by simp
qed simp

section \<open>Fall latch\<close>

lemma fuse_frame_fall: "sh_fall_pending (vitals_fuse p f n m a r v) = sh_fall_pending v"
  by (simp add: vitals_fuse_def split: prod.splits)

lemma disturb_frame_fall: "sh_fall_pending (shHrDisturb w v) = sh_fall_pending v"
  by (simp add: shHrDisturb_def)

lemma hr_frame_fall: "sh_fall_pending (vitals_hr e sa v) = sh_fall_pending v"
  by (simp add: vitals_hr_def Let_def fuse_frame_fall split: prod.splits)

lemma calm_frame_fall: "sh_fall_pending (vitals_calm ha es ea sa v) = sh_fall_pending v"
  by (simp add: vitals_calm_def calm_finish_def calm_decide_def calm_begin_def Let_def
      fuse_frame_fall disturb_frame_fall hr_frame_fall split: prod.splits)

lemma active_frame_fall: "sh_fall_pending (vitals_active v) = sh_fall_pending v"
  by (simp add: vitals_active_def Let_def disturb_frame_fall)

lemma process_keeps_fall: "sh_fall_pending v \<Longrightarrow> sh_fall_pending (SmartHelmet_VitalsProcess v)"
proof -
  assume f: "sh_fall_pending v"
  have "sh_fall_pending (vitals_begin v)"
    using f by (simp add: vitals_begin_def vitals_motion_stats_def shUpdateResp_def shNoteFallWindow_def Let_def
        split: prod.splits)
  then show ?thesis
    by (rule_tac process_split [of v]) (simp add: calm_frame_fall active_frame_fall)
qed

fun fall_taker :: "vitals_event \<Rightarrow> bool" where
  "fall_taker Ev_TakeFall = True"
| "fall_taker Ev_Init = True"
| "fall_taker _ = False"

lemma exec_keeps_fall:
  "sh_fall_pending v \<Longrightarrow> \<not> fall_taker e \<Longrightarrow> sh_fall_pending (vitals_exec e v)"
proof (cases e)
  case (Ev_Accel x y z)
  assume "sh_fall_pending v"
  with Ev_Accel show ?thesis
    by (cases "shHighPass (shSqrtU32 (u32 (x * x + y * y + z * z))) (hp_prev_x v) (hp_prev_y v)")
      (simp add: SmartHelmet_VitalsPushAccel_def shNoteFallMag_def Let_def)
qed (simp_all add: push_sens_frame process_keeps_fall SmartHelmet_VitalsNoteSensDropped_def
    SmartHelmet_VitalsPirEvent_def SmartHelmet_VitalsOnSensSample_def Let_def)

lemma run_keeps_fall:
  "sh_fall_pending v \<Longrightarrow> \<forall>e \<in> set es. \<not> fall_taker e \<Longrightarrow> sh_fall_pending (fold vitals_exec es v)"
  by (induction es arbitrary: v) (simp_all add: exec_keeps_fall)

lemma accel_sets_fall:
  assumes "shSqrtU32 (u32 (x * x + y * y + z * z)) = mag" "mag \<ge> 1300 \<or> 0 < mag \<and> mag \<le> 700"
  shows "sh_fall_pending (SmartHelmet_VitalsPushAccel x y z v)"
  using assms by (cases "shHighPass mag (hp_prev_x v) (hp_prev_y v)")
    (auto simp: SmartHelmet_VitalsPushAccel_def shNoteFallMag_def Let_def)

section \<open>Gate hysteresis\<close>

definition gate_step :: "int \<Rightarrow> motion_gate \<times> int \<Rightarrow> motion_gate \<times> int" where
  "gate_step rms s =
     (let (a, run) = motion_gate_step True rms (fst s) (snd s) in (if a then motion_active else motion_calm, run))"

lemma gate_quiet:
  assumes "rms < 40" "0 \<le> r" "r < 255"
  shows "gate_step rms (motion_active, r) = (if r + 1 < 3 then motion_active else motion_calm, r + 1)"
    and "gate_step rms (motion_calm, r) = (motion_calm, 0)"
  using assms by (simp_all add: gate_step_def motion_gate_step_def Let_def)

lemma gate_quiet_run:
  assumes "\<forall>r \<in> set qs. r < 40"
  shows "fst (fold gate_step qs (motion_active, 0)) = (if length qs < 3 then motion_active else motion_calm)"
proof -
  have calm: "fst (fold gate_step xs (motion_calm, r)) = motion_calm" if "\<forall>r \<in> set xs. r < 40" "0 \<le> r" "r < 255" for xs r
    using that by (induction xs arbitrary: r) (simp_all add: gate_quiet(2))
  show ?thesis
  proof (cases "length qs < 3")
    case True
    then consider "qs = []" | a where "qs = [a]" | a b where "qs = [a, b]"
      by (cases qs; cases "tl qs"; cases "tl (tl qs)") (auto simp: less_Suc_eq numeral_3_eq_3)
    then show ?thesis using assms by cases (simp_all add: gate_quiet(1))
  next
    case False
    then obtain a b c xs where qs: "qs = a # b # c # xs"
      by (metis Suc_le_length_iff numeral_3_eq_3 not_less)
    then show ?thesis using assms calm [of xs 3] by (simp add: gate_quiet(1))
  qed
qed

section \<open>Range of the pulse window\<close>

text \<open>
  Readings of the pulse channel up to 8000 mV are considered, well above the supply of the board. The high-pass keeps the difference of
  its two state variables, a running mean of the readings, within the range of the readings up to the rounding of its
  division, so its output cannot exceed that range by more than 20; the low-pass of the copy-out stays between its last
  output and the next sample.
\<close>

definition sens_small :: "vitals \<Rightarrow> bool" where
  "sens_small v \<longleftrightarrow> 0 \<le> sens_prev_x v \<and> sens_prev_x v \<le> 8000 \<and>
     - 20 \<le> sens_prev_x v - sens_prev_y v \<and> sens_prev_x v - sens_prev_y v \<le> 8020 \<and>
     (\<forall>m \<in> set (rbuf (sens_win v)). \<bar>m\<bar> \<le> 8192)"

lemma sdiv_error: "0 < (b::int) \<Longrightarrow> \<bar>a - a sdiv b * b\<bar> < b"
  by (simp add: sdiv_split minus_div_mult_eq_mod minus_mod_eq_div_mult [symmetric])

lemma shHighPass_small:
  assumes "hp_inv px py" "0 \<le> x" "x \<le> 8000" "0 \<le> px" "px \<le> 8000" "- 20 \<le> px - py" "px - py \<le> 8020"
    and "shHighPass x px py = (hp, px', py')"
  shows "px' = x \<and> - 20 \<le> px' - py' \<and> px' - py' \<le> 8020 \<and> \<bar>hp\<bar> \<le> 8192"
proof -
  define t where "t = (py * 243) sdiv 256"
  have "is_u16 x" using assms(2,3) by (simp add: crange)
  from shHighPass_exact(1) [OF assms(1) this] assms(8) have h: "px' = x" "py' = x - px + t" "hp = clamp_s16 (x - px + t)"
    by (simp_all add: Let_def t_def)
  have "\<bar>py * 243 - t * 256\<bar> < 256" unfolding t_def by (rule sdiv_error) simp
  then have "- 20 \<le> px - t" "px - t \<le> 8020" using assms(4-7) by linarith+
  with h assms(2,3) show ?thesis by (auto simp: clamp_s16_def Let_def)
qed

lemma push_sens_small:
  assumes "vitals_inv v" "sens_small v" "0 \<le> mv" "mv \<le> 8000"
  shows "sens_small (SmartHelmet_VitalsPushSensInMvAt mv t v)"
proof -
  obtain hp px py where h: "shHighPass mv (sens_prev_x v) (sens_prev_y v) = (hp, px, py)" by (metis prod_cases3)
  have "hp_inv (sens_prev_x v) (sens_prev_y v)" using assms(1) by (simp add: vitals_inv_defs)
  from shHighPass_small [OF this assms(3,4) _ _ _ _ h] assms(2)
  have p: "px = mv \<and> - 20 \<le> px - py \<and> px - py \<le> 8020 \<and> \<bar>hp\<bar> \<le> 8192" by (simp add: sens_small_def)
  then have "\<forall>m \<in> set (rbuf (ring_push 100 hp (sens_win v))). \<bar>m\<bar> \<le> 8192"
    using assms(2) by (intro ring_all_push) (simp_all add: sens_small_def)
  with p assms(3,4) show ?thesis
    by (simp add: SmartHelmet_VitalsPushSensInMvAt_def h sens_small_def sens_edge_frame)
qed

lemma same_inputs_small: "same_inputs v w \<Longrightarrow> sens_small v \<Longrightarrow> sens_small w"
  by (simp add: same_inputs_def sens_small_def)

lemma process_small: "pushed_inv v \<Longrightarrow> sens_small v \<Longrightarrow> sens_small (SmartHelmet_VitalsProcess v)"
  using same_inputs_small [OF process_result(1)] by (simp add: pushed_inv_def)

fun sens_in_range :: "vitals_event \<Rightarrow> bool" where
  "sens_in_range (Ev_Sens mv t) \<longleftrightarrow> mv \<le> 8000"
| "sens_in_range _ \<longleftrightarrow> True"

lemma exec_small:
  assumes "vitals_inv v" "sens_small v" "event_ok e" "sens_in_range e"
  shows "sens_small (vitals_exec e v)"
proof (cases e)
  case Ev_Init
  then show ?thesis by (simp add: sens_small_def SmartHelmet_VitalsInit_def ring_init_def)
next
  case (Ev_Accel x y z)
  then show ?thesis using assms(2)
    by (cases "shHighPass (shSqrtU32 (u32 (x * x + y * y + z * z))) (hp_prev_x v) (hp_prev_y v)")
      (simp add: SmartHelmet_VitalsPushAccel_def sens_small_def Let_def)
next
  case (Ev_Sens mv t)
  let ?p = "SmartHelmet_VitalsPushSensInMvAt mv t v"
  have mv: "0 \<le> mv" "mv \<le> 8000" "is_u16 mv" using assms(3,4) Ev_Sens by (simp_all add: crange)
  have pi: "pushed_inv ?p" by (rule VitalsPushSens_inv(1) [OF assms(1) mv(3)])
  have s: "sens_small ?p" by (rule push_sens_small [OF assms(1,2) mv(1,2)])
  have k: "sens_small (?p\<lparr>sens_since_process := k\<rparr>)" for k using s by (simp add: sens_small_def)
  have "0 \<le> sens_since_process ?p" "sens_since_process ?p < 25" using pi by (simp_all add: pushed_inv_def)
  from OnSensSample_cases [OF this] k process_small [OF pushed_inv_reset [OF pi] k] show ?thesis by (simp add: Ev_Sens)
next
  case Ev_Process
  then show ?thesis using process_small [OF vitals_inv_pushed [OF assms(1)] assms(2)] by simp
qed (use assms(2) in \<open>simp_all add: sens_small_def SmartHelmet_VitalsNoteSensDropped_def SmartHelmet_VitalsPirEvent_def
    SmartHelmet_VitalsTakeFall_def\<close>)

lemma run_small:
  "vitals_inv v \<Longrightarrow> sens_small v \<Longrightarrow> list_all event_ok es \<Longrightarrow> list_all sens_in_range es \<Longrightarrow>
   vitals_inv (fold vitals_exec es v) \<and> sens_small (fold vitals_exec es v)"
  by (induction es arbitrary: v) (simp_all add: vitals_exec_inv exec_small)

lemma shBandPass_small:
  "\<bar>y\<bar> \<le> 8192 \<Longrightarrow> \<forall>x \<in> set xs. \<bar>x\<bar> \<le> 8192 \<Longrightarrow> \<forall>z \<in> set (shBandPass y xs). \<bar>z\<bar> \<le> 8192"
proof (induction xs arbitrary: y)
  case (Cons x xs)
  define t where "t = ((x - y) * 96) sdiv 256"
  have xy: "\<bar>x\<bar> \<le> 8192" "\<bar>y\<bar> \<le> 8192" using Cons.prems by simp_all
  have "\<bar>t\<bar> * 256 \<le> \<bar>(x - y) * 96\<bar>" unfolding t_def by (rule sdiv_abs_le) simp
  then have "\<bar>t\<bar> \<le> \<bar>x - y\<bar>" by (simp add: abs_mult)
  moreover have "0 \<le> x - y \<Longrightarrow> 0 \<le> t" "x - y < 0 \<Longrightarrow> t \<le> 0"
    unfolding t_def by (simp_all add: sdiv_split pos_imp_zdiv_nonneg_iff)
  ultimately have y': "\<bar>y + t\<bar> \<le> 8192" using xy by (cases "x < y") (simp_all add: abs_le_iff)
  have "s32 (x - y) = x - y" "s32 ((x - y) * 96) = (x - y) * 96" using xy by (auto intro!: s32_id)
  then have "s32 (y + s32 (s32 (x - y) * 96) sdiv 256) = s32 (y + t)" by (simp only: t_def)
  also have "s32 (y + t) = y + t" using y' by simp
  finally have "s32 (y + s32 (s32 (x - y) * 96) sdiv 256) = y + t" .
  moreover have "s16 (y + t) = y + t" using y' by simp
  ultimately show ?case using Cons.IH [OF y'] Cons.prems(2) y' by (simp add: Let_def)
qed simp

lemma window_small:
  assumes "vitals_inv v" "sens_small v"
  shows "\<forall>x \<in> set (shCopySensOrdered n (sens_win v)). \<bar>x\<bar> \<le> 8192"
proof -
  define k where "k = (let n1 = (if n > rcnt (sens_win v) then rcnt (sens_win v) else n) in if n1 > 100 then 100 else n1)"
  let ?o = "ring_ordered 100 k (sens_win v)"
  have r: "ring_inv 100 (sens_win v)" using assms(1) by (auto simp: vitals_inv_defs)
  have "set ?o \<subseteq> set (rbuf (sens_win v))"
    using r by (auto simp: ring_ordered_def Let_def ring_inv_def)
  then have o: "\<forall>x \<in> set ?o. \<bar>x\<bar> \<le> 8192" using assms(2) by (auto simp: sens_small_def)
  show ?thesis
  proof (cases "k = 0")
    case False
    then have "?o \<noteq> []" by (metis length_ring_ordered list.size(3))
    then have "\<bar>hd ?o\<bar> \<le> 8192" "\<forall>x \<in> set (tl ?o). \<bar>x\<bar> \<le> 8192" using o by (auto dest: list.set_sel(2))
    from shBandPass_small [OF this] this(1) False show ?thesis
      by (simp add: shCopySensOrdered_def k_def [symmetric, unfolded Let_def] Let_def)
  qed (simp add: shCopySensOrdered_def k_def [symmetric, unfolded Let_def] Let_def)
qed

text \<open>C15: The fixed-point transform of the pulse estimator never overflows. After any calls to the vitals layer, with every reading of the
  pulse channel at most 8000 mV, the prescaled frame taken from the window is transformed without any 32-bit wrap-around:
  the result is that of the same butterflies over the integers, and the spectrum stays below 186624 in modulus. (The processing itself does not change the
  window, so this covers every transform it makes.)\<close>

theorem vitals_spectrum_no_overflow:
  assumes "list_all event_ok es" and "list_all sens_in_range es"
  shows "let v = fold vitals_exec es (SmartHelmet_VitalsInit 0);
             x = shCopySensOrdered (rcnt (sens_win v)) (sens_win v);
             mean = fft_frame_mean x (length x);
             frame = map (fft_windowed x (length x) mean (fft_prescale (fft_frame_peak x (length x) mean) 0)) [0..<64]
         in shFftRadix2 frame (replicate 64 0) = Some (fft_exact frame (replicate 64 0)) \<and>
            mods_le 186624 (fft_exact frame (replicate 64 0))"
proof -
  let ?v = "fold vitals_exec es (SmartHelmet_VitalsInit 0)"
  let ?x = "shCopySensOrdered (rcnt (sens_win ?v)) (sens_win ?v)"
  have "sens_small (SmartHelmet_VitalsInit 0)" by (simp add: sens_small_def SmartHelmet_VitalsInit_def ring_init_def)
  from run_small [OF vitals_init_inv this assms] have "\<forall>x \<in> set ?x. \<bar>x\<bar> \<le> 8192" by (intro window_small) simp_all
  then have "\<forall>i<length ?x. \<bar>?x ! i\<bar> \<le> 8192" by simp
  from shFftRadix2_no_overflow [OF this] show ?thesis by (simp add: Let_def)
qed

theorem vitals_spectrum_no_overflow_witness:
  "let v = fold vitals_exec (concat (replicate 40 [Ev_Sens 0 0, Ev_Sens 8000 0])) (SmartHelmet_VitalsInit 0);
       x = shCopySensOrdered (rcnt (sens_win v)) (sens_win v);
       mean = fft_frame_mean x (length x);
       frame = map (fft_windowed x (length x) mean (fft_prescale (fft_frame_peak x (length x) mean) 0)) [0..<64]
   in shFftRadix2 frame (replicate 64 0) = Some (fft_exact frame (replicate 64 0)) \<and>
      mods_le 186624 (fft_exact frame (replicate 64 0))"
  by (rule vitals_spectrum_no_overflow) (simp_all add: list_all_iff crange)

end
