(* ===== verification/Vitals_Demo.thy ===== *)
theory Vitals_Demo
  imports Vitals_Safety
begin

text \<open>
  A complete window evaluated in the logic: \<open>SENS_IN\<close> holds a 75 BPM wave (a period of 20
  samples at 25 Hz, 45 mV amplitude) and the guards are clear. The evaluation is split at
  the stages of the transform. It shows that a valid pulse is reachable in the model, and
  is the concrete input of the acceptance property.
\<close>

definition demo_wave :: "int list" where
  "demo_wave = concat (replicate 5 [0, 14, 27, 37, 43, 45, 43, 37, 27, 14, 0, -14, -27, -37, -43,
     -45, -43, -37, -27, -14])"

definition demo_window :: "int ring" where
  "demo_window = \<lparr>rbuf = demo_wave, ridx = 0, rcnt = 100\<rparr>"

definition demo_state :: vitals where
  "demo_state = (SmartHelmet_VitalsInit 0)\<lparr>sens_win := demo_window, calm_windows := 10,
     guard := (guard (SmartHelmet_VitalsInit 0))\<lparr>hr_win_left := 0\<rparr>\<rparr>"

definition demo_chunk :: "int list" where
  "demo_chunk =
     [0, 5, 13, 22, 29, 35, 38, 38, 34, 27, 17, 6, -6, -17, -26, -33, -36, -36, -33, -26, -17,
      -6, 6, 17, 26, 33, 36, 36, 33, 26, 17, 6, -6, -17, -26, -33, -36, -36, -33, -26, -17, -6, 6,
      17, 26, 33, 36, 36, 33, 26, 17, 6, -6, -17, -26, -33, -36, -36, -33, -26, -17, -6, 6, 17,
      26, 33, 36, 36, 33, 26, 17, 6, -6, -17, -26, -33, -36, -36, -33, -26, -17, -6, 6, 17, 26,
      33, 36, 36, 33, 26, 17, 6, -6, -17, -26, -33, -36, -36, -33, -26]"

definition demo_frame :: "int list" where
  "demo_frame =
     [0, 0, 0, 0, 0, 0, 0, 512, 1024, 1536, 2048, 2560, 2560, 2304, 1792, 768, -512, -2048,
      -3584, -4864, -5888, -6400, -6144, -4864, -3072, -768, 1792, 4352, 6656, 8704, 9472, 9472,
      8704, 6912, 4608, 1792, -768, -3584, -5376, -6912, -7424, -6912, -6144, -4352, -2560, -512,
      1024, 2560, 3584, 3840, 3840, 3328, 2560, 1792, 1024, 256, 0, -256, -512, -256, -256, 0, 0,
      0]"

definition demo_fft0 :: "int list \<times> int list" where
  "demo_fft0 =
     ([0, 8704, -512, 3584, 1024, -7424, -3072, 0, 0, -768, -5888, 2560, 2560, -2560, 6656, -256,
      0, 4608, -3584, 3840, 2048, -6144, 1792, -512, 0, -5376, -6144, 1024, 1792, 1024, 9472, 0,
      0, 6912, -2048, 3840, 1536, -6912, -768, -256, 0, -3584, -6400, 1792, 2304, -512, 8704, 0,
      0, 1792, -4864, 3328, 2560, -4352, 4352, -256, 512, -6912, -4864, 256, 768, 2560, 9472, 0],
      [0, 0, 0, 0, 0, 0, 0, 0, 0, 0, 0, 0, 0, 0, 0, 0, 0, 0, 0, 0, 0, 0, 0, 0, 0, 0, 0, 0, 0, 0,
      0, 0, 0, 0, 0, 0, 0, 0, 0, 0, 0, 0, 0, 0, 0, 0, 0, 0, 0, 0, 0, 0, 0, 0, 0, 0, 0, 0, 0, 0, 0,
      0, 0, 0])"

definition demo_fft1 :: "int list \<times> int list" where
  "demo_fft1 =
     ([8703, -8703, 3327, -3839, -6911, 7935, -1536, -1536, -767, 767, -385, -5503, -1279, 3839,
      3073, 3583, 4607, -4607, 2047, -5631, -5119, 7167, 385, 1407, -5375, 5375, -2049, -4095,
      1919, -127, 4736, 4736, 6911, -6911, 2815, -4863, -6143, 7679, -639, -129, -3583, 3583,
      -1409, -4991, 641, 1663, 4352, 4352, 1791, -1791, 895, -5759, -3071, 5631, 1921, 2431,
      -6655, 7167, -2177, -2687, 2943, -2175, 4736, 4736],
      [0, 0, 0, 0, 0, 0, 0, 0, 0, 0, 0, 0, 0, 0, 0, 0, 0, 0, 0, 0, 0, 0, 0, 0, 0, 0, 0, 0, 0, 0,
      0, 0, 0, 0, 0, 0, 0, 0, 0, 0, 0, 0, 0, 0, 0, 0, 0, 0, 0, 0, 0, 0, 0, 0, 0, 0, 0, 0, 0, 0, 0,
      0, 0, 0])"

definition demo_fft2 :: "int list \<times> int list" where
  "demo_fft2 =
     ([7676, -4351, 1026, -4351, -4990, 3967, -1920, 3967, -766, 383, 0, 383, 2432, 1919, -3710,
      1919, 4348, -2303, 258, -2303, -2176, 3583, -2942, 3583, -4734, 2687, -640, 2687, 5694, -63,
      -3776, -63, 6268, -3455, 642, -3455, -3708, 3839, -2434, 3839, -3198, 1791, -384, 1791,
      4671, 831, -4031, 831, 1788, -895, 2, -895, 384, 2815, -3454, 2815, -5502, 3583, -1152,
      3583, 6206, -1087, -3264, -1087],
      [0, 3837, 0, -3837, 0, 1535, 0, -1535, 0, 5501, 0, -5501, 0, -3581, 0, 3581, 0, 5629, 0,
      -5629, 0, -1405, 0, 1405, 0, 4093, 0, -4093, 0, -4735, 0, 4735, 0, 4861, 0, -4861, 0, 127,
      0, -127, 0, 4989, 0, -4989, 0, -4351, 0, 4351, 0, 5757, 0, -5757, 0, -2429, 0, 2429, 0,
      2685, 0, -2685, 0, -4735, 0, 4735])"

definition demo_fft3 :: "int list \<times> int list" where
  "demo_fft3 =
     ([-1151, 1714, 513, -6064, 8827, -6064, 513, 1714, 2048, -984, 0, 1366, -2814, 1366, 0, -984,
      -1, 389, 129, -2691, 4349, -2691, 129, 389, 3326, -2048, -320, 4734, -8060, 4734, -320,
      -2048, -573, 1075, 321, -4529, 6841, -4529, 321, 1075, 3070, -1593, -192, 3383, -6268, 3383,
      -192, -1593, 1277, -175, 1, -719, 511, -719, 1, -175, 3454, -2324, -576, 5906, -8956, 5906,
      -576, -2324],
      [0, 199, 1919, -3637, 0, 3637, -1919, -199, 0, -1137, 3709, -6637, 0, 6637, -3709, 1137, 0,
      -711, 2941, -6339, 0, 6339, -2941, 711, 0, -1257, 3775, -5349, 0, 5349, -3775, 1257, 0,
      -194, 2433, -5054, 0, 5054, -2433, 194, 0, -1168, 4029, -6156, 0, 6156, -4029, 1168, 0,
      -828, 3453, -6584, 0, 6584, -3453, 828, 0, -1237, 3263, -3921, 0, 3921, -3263, 1237])"

definition demo_fft4 :: "int list \<times> int list" where
  "demo_fft4 =
     ([1472, -486, 2877, -8640, 4413, 2576, -2365, 2200, -2622, 2200, -2365, 2576, 4413, -8640,
      2877, -486, 3325, -2178, 2506, -4474, 2174, 1784, -2378, 2566, -3325, 2566, -2378, 1784,
      2174, -4474, 2506, -2178, 2783, -1380, 2872, -6657, 3420, 2129, -2552, 2454, -3355, 2454,
      -2552, 2129, 3420, -6657, 2872, -1380, 4091, -2707, 1899, -1720, 255, 1002, -1899, 2533,
      -2815, 2533, -1899, 1002, 255, -1720, 1899, -2707],
      [0, -573, 3580, -5619, 2813, -1983, 1662, -771, 0, 771, -1662, 1983, -2813, 5619, -3580,
      573, 0, -731, 4364, -9589, 8059, -3251, 1424, -21, 0, 21, -1424, 3251, -8059, 9589, -4364,
      731, 0, -566, 4199, -8007, 6267, -2953, 1767, -372, 0, 372, -1767, 2953, -6267, 8007, -4199,
      566, 0, -666, 4439, -10248, 8955, -3664, 987, 162, 0, -162, -987, 3664, -8955, 10248, -4439,
      666])"

definition demo_fft5 :: "int list \<times> int list" where
  "demo_fft5 =
     ([4059, -2521, 5423, -13366, 9440, -423, -777, 1581, -1311, 619, -1587, 2999, -5028, 4726,
      -2547, 2035, -2587, 2035, -2547, 4726, -5028, 2999, -1587, 619, -1311, 1581, -777, -423,
      9440, -13366, 5423, -2521, 5480, -3473, 4887, -10451, 8220, -1425, -1092, 1879, -1677, 575,
      -1460, 3553, -4800, 3795, -2015, 2093, -2698, 2093, -2015, 3795, -4800, 3553, -1460, 575,
      -1677, 1879, -1092, -1425, 8220, -10451, 4887, -3473],
      [0, -577, 4862, -8295, 5566, -4279, 3572, -2905, 3323, -2135, 1910, -2297, 2754, -2677,
      1282, -5, 0, 5, -1282, 2677, -2754, 2297, -1910, 2135, -3323, 2905, -3572, 4279, -5566,
      8295, -4862, 577, 0, -408, 5472, -11568, 9284, -4344, 3013, -2637, 2813, -2265, 1247, -1392,
      3018, -3562, 1274, 158, 0, -158, -1274, 3562, -3018, 1392, -1247, 2265, -2813, 2637, -3013,
      4344, -9284, 11568, -5472, 408])"

definition demo_fft6 :: "int list \<times> int list" where
  "demo_fft6 =
     ([7508, -4755, 8570, -20040, 15866, -3514, 377, 570, 148, -1076, -569, 1945, -1563, 56, -417,
      1379, -1293, 655, -2129, 4670, -3465, 1053, -1017, 1694, -1458, 1010, -1153, 3092, -6426,
      6674, -3148, 2235, -3450, 2235, -3148, 6674, -6426, 3092, -1153, 1010, -1458, 1694, -1017,
      1053, -3465, 4670, -2129, 655, -1293, 1379, -417, 56, -1563, 1945, -569, -1076, 148, 570,
      377, -3514, 15866, -20040, 8570, -4755],
      [0, -353, 6844, -12183, 8214, -5298, 4896, -4680, 4834, -2946, 2861, -4936, 6966, -6002,
      2864, -2068, 2697, -2064, 1582, -3326, 4212, -2640, 951, -812, 1512, -1776, 1324, -1020,
      2648, -3889, 1982, 223, 0, -223, -1982, 3889, -2648, 1020, -1324, 1776, -1512, 812, -951,
      2640, -4212, 3326, -1582, 2064, -2697, 2068, -2864, 6002, -6966, 4936, -2861, 2946, -4834,
      4680, -4896, 5298, -8214, 12183, -6844, 353])"

lemma demo_chunk_eq: "shCopySensOrdered 100 demo_window = demo_chunk"
  by code_simp

lemma demo_peak: "shPeakBpm 6400 demo_chunk 100 = (75, 5)"
  by code_simp

lemma demo_mean: "fft_frame_mean demo_chunk 100 = -2"
  by code_simp

lemma demo_scale: "fft_frame_peak demo_chunk 100 (-2) = 38" "fft_prescale 38 0 = 8"
  by code_simp+

lemma demo_frame_eq: "map (fft_windowed demo_chunk 100 (-2) 8) [0..<64] = demo_frame"
  by code_simp

lemma demo_bitrev: "fft_bitrev demo_frame (replicate 64 0) = Some demo_fft0"
  by code_simp

lemma demo_stage2: "fft_stage 2 demo_fft0 = demo_fft1"
  by code_simp

lemma demo_stage4: "fft_stage 4 demo_fft1 = demo_fft2"
  by code_simp

lemma demo_stage8: "fft_stage 8 demo_fft2 = demo_fft3"
  by code_simp

lemma demo_stage16: "fft_stage 16 demo_fft3 = demo_fft4"
  by code_simp

lemma demo_stage32: "fft_stage 32 demo_fft4 = demo_fft5"
  by code_simp

lemma demo_stage64: "fft_stage 64 demo_fft5 = demo_fft6"
  by code_simp

lemma demo_radix2: "shFftRadix2 demo_frame (replicate 64 0) = Some demo_fft6"
  by (simp add: shFftRadix2_def demo_bitrev demo_stage2 demo_stage4 demo_stage8 demo_stage16
      demo_stage32 demo_stage64)

lemma demo_search:
  "fft_search (fst demo_fft6) (snd demo_fft6) =
     \<lparr>fb_k = 3, fb_p = 8591509, fb_sum = 16809524, fb_bins = 6\<rparr>"
  by code_simp

lemma demo_interp:
  "fft_interp (fst demo_fft6) (snd demo_fft6) \<lparr>fb_k = 3, fb_p = 8591509, fb_sum = 16809524, fb_bins = 6\<rparr> = 806"
  by code_simp

lemma demo_fft:
  "shFftBpm 6400 demo_chunk 100 shFftSmoothReset =
     (73, 65535, \<lparr>fft_k_smooth_q8 = 806, fft_k_smooth_valid = True\<rparr>)"
proof -
  have s: "fft_smooth 806 shFftSmoothReset = \<lparr>fft_k_smooth_q8 = 806, fft_k_smooth_valid = True\<rparr>"
    "shBinQ8ToBpm 6400 806 = 73" by code_simp+
  obtain re im where ri: "demo_fft6 = (re, im)" by (cases demo_fft6)
  show ?thesis
    using demo_search demo_interp unfolding ri
    by (simp add: shFftBpm_def demo_mean demo_scale demo_frame_eq demo_radix2 ri s)
qed

lemma demo_window_stats:
  "shEnergyI16 demo_wave 100 = 1031" "shMeanAbsI16 demo_wave 100 = 28"
  by code_simp+

lemma demo_resp: "shRespBpm 6400 (resp_ring resp_init) = (0, 0)"
  by code_simp

lemma length_demo_chunk: "length demo_chunk = 100"
  by code_simp

text \<open>The evaluated window: both estimators agree and the pulse is accepted at 74 BPM.\<close>

lemma demo_fields:
  "rcnt (motion_win demo_state) = 0" "sens_win demo_state = demo_window" "rcnt (band_win demo_state) = 0"
  "bio_pulse_abs (bio demo_state) = 0" "bio_resp_abs (bio demo_state) = 0"
  "pir_events demo_state = 0" "calm_windows demo_state = 10" "still_run demo_state = 0"
  "prev_sens_mv_valid (vitals_begin demo_state) = False" "fftk demo_state = shFftSmoothReset" "tb demo_state = timebase_init"
  "st_motion (st demo_state) = motion_calm" "st_baseline_energy (st demo_state) = 0" "st_sens_mv (st demo_state) = 0"
  "guard demo_state = \<lparr>hr_win_left = 0, last_hr_valid_bpm = 0, last_hr_valid_have = False, hr_delta_rej = 0\<rparr>"
  "rcnt demo_window = 100" "rbuf demo_window = demo_wave"
  by (simp_all add: demo_state_def SmartHelmet_VitalsInit_def ring_init_def vitals_status_zero_def demo_window_def
      vitals_begin_def vitals_motion_stats_def shUpdateResp_def Let_def split: prod.splits)

lemma demo_process:
  "st_hr (st (SmartHelmet_VitalsProcess demo_state)) =
     \<lparr>hr_bpm_peak = 75, hr_bpm_fft = 73, hr_bpm_ac = 0, hr_peak_count = 5, hr_fft_mag = 65535,
      hr_bpm = 74, hr_valid = True, hr_reason = hr_ok\<rparr>"
proof -
  have tb: "shUpdateTimebase timebase_init = timebase_init" "fs_q8 timebase_init = 6400" "timebase_ok timebase_init"
    by (simp_all add: timebase_init_def shUpdateTimebase_def Let_def)
  have wt: "window_trend 0 0 28 0 = (trend_absent, True, 0)" by (simp add: window_trend_def)
  have gate: "motion_gate_step False 0 motion_calm 0 = (False, 0)" by (simp add: motion_gate_step_def)
  have p: "SmartHelmet_VitalsProcess demo_state = vitals_calm False 1031 0 28 (vitals_begin demo_state\<lparr>still_run := 0\<rparr>)"
    by (simp add: SmartHelmet_VitalsProcess_def vitals_begin_frame demo_fields demo_window_stats gate)
  have e: "window_energy 100 0 False 1031 0 0 = 1031" "shHrDisturbReason None 1031 28 0 = hr_ok"
    "shHrSignalReason 1031 28 = hr_ok"
    by (simp_all add: window_energy_def shHrDisturbReason_def shHrSignalReason_def)
  have fuse: "snd (shFuseHr False 75 73 0 5 65535 True hr_ok
      \<lparr>hr_win_left = 0, last_hr_valid_bpm = 0, last_hr_valid_have = False, hr_delta_rej = 0\<rparr>) =
      \<lparr>hr_bpm_peak = 75, hr_bpm_fft = 73, hr_bpm_ac = 0, hr_peak_count = 5, hr_fft_mag = 65535,
      hr_bpm = 74, hr_valid = True, hr_reason = hr_ok\<rparr>" by code_simp
  then obtain g where fuse': "shFuseHr False 75 73 0 5 65535 True hr_ok
      \<lparr>hr_win_left = 0, last_hr_valid_bpm = 0, last_hr_valid_have = False, hr_delta_rej = 0\<rparr> =
      (g, \<lparr>hr_bpm_peak = 75, hr_bpm_fft = 73, hr_bpm_ac = 0, hr_peak_count = 5, hr_fft_mag = 65535,
      hr_bpm = 74, hr_valid = True, hr_reason = hr_ok\<rparr>)" by (metis prod.collapse)
  show ?thesis
    unfolding p
    by (simp add: vitals_calm_def calm_begin_def calm_decide_def calm_finish_def Let_def vitals_begin_frame
        demo_fields e wt vitals_hr_def tb demo_chunk_eq length_demo_chunk demo_peak demo_fft vitals_fuse_def fuse')
qed

lemma demo_inv: "vitals_inv demo_state"
proof -
  have "list_all (\<lambda>x. - 32768 \<le> x \<and> x \<le> 32767) demo_wave" "length demo_wave = 100" by code_simp+
  then show ?thesis using vitals_init_inv [of 0]
    by (simp add: demo_state_def vitals_inv_defs guard_inv_def demo_window_def ring_fill_inv_def ring_inv_def
        list_all_iff crange)
qed

end
