(* ===== verification/Headset.thy ===== *)
theory Headset
  imports Main
begin

text \<open>
  The state machine of the headset application (\<^verbatim>\<open>headset_sm.c\<close>) and the wired audio controller
  it pauses and resumes (\<^verbatim>\<open>headset_wired_audio_controller.c\<close>): the nine application states with their
  entry and exit actions, the idle and limbo timers, the charging indication of the helmet, and every
  message the task handles, in the build with \<open>INCLUDE_SMART_HELMET\<close>, \<open>INCLUDE_DFU\<close>,
  \<open>INCLUDE_FAST_PAIR\<close> and \<open>DEBUG\<close> and without \<open>ALLOW_USB_BT_COEXISTENCE\<close>.

  The state is the record \<open>headset\<close>: \<open>smTaskData\<close>, the file statics and the task data of the wired
  audio controller. \<open>hs_out\<close> collects the calls the code makes, in order. What the code asks other
  modules during one message is the record \<open>headset_env\<close>. \<open>Panic()\<close> ends the execution and is the
  left value of the result.
\<close>

section \<open>States, messages, calls\<close>

datatype headset_state =
    HEADSET_STATE_NULL
  | HEADSET_STATE_FACTORY_RESET
  | HEADSET_STATE_LIMBO
  | HEADSET_STATE_POWERING_ON
  | HEADSET_STATE_PAIRING
  | HEADSET_STATE_IDLE
  | HEADSET_STATE_BUSY
  | HEADSET_STATE_TERMINATING
  | HEADSET_STATE_POWERING_OFF

fun headset_state_num :: "headset_state \<Rightarrow> int" where
  "headset_state_num HEADSET_STATE_NULL = 0"
| "headset_state_num HEADSET_STATE_FACTORY_RESET = 1"
| "headset_state_num HEADSET_STATE_LIMBO = 2"
| "headset_state_num HEADSET_STATE_POWERING_ON = 3"
| "headset_state_num HEADSET_STATE_PAIRING = 4"
| "headset_state_num HEADSET_STATE_IDLE = 5"
| "headset_state_num HEADSET_STATE_BUSY = 6"
| "headset_state_num HEADSET_STATE_TERMINATING = 7"
| "headset_state_num HEADSET_STATE_POWERING_OFF = 8"

datatype sm_provider_context =
    context_app_sm_inactive
  | context_app_sm_active
  | context_app_sm_powered_off
  | context_app_sm_powered_on
  | context_app_sm_idle
  | context_app_sm_idle_connected
  | context_app_sm_exit_idle

datatype sm_id =
    SM_INTERNAL_PAIR_HANDSET
  | SM_INTERNAL_DELETE_HANDSETS
  | SM_INTERNAL_FACTORY_RESET
  | SM_INTERNAL_LINK_DISCONNECTION_COMPLETE
  | SM_INTERNAL_TIMEOUT_LINK_DISCONNECTION
  | SM_INTERNAL_POWER_OFF
  | SM_INTERNAL_TIMEOUT_IDLE
  | SM_INTERNAL_TIMEOUT_LIMBO
  | SM_INTERNAL_DUMMY_LOG
  | SM_INTERNAL_CHARGE_VBAT_LOG

datatype charger_message =
    CHARGER_MESSAGE_DETACHED
  | CHARGER_MESSAGE_ATTACHED
  | CHARGER_MESSAGE_COMPLETED
  | CHARGER_MESSAGE_CHARGING_OK
  | CHARGER_MESSAGE_CHARGING_LOW
  | CHARGER_MESSAGE_DISABLED

datatype system_state =
    system_state_powered_off
  | system_state_initialisation
  | system_state_initialised
  | system_state_starting_up
  | system_state_limbo
  | system_state_powering_on
  | system_state_active
  | system_state_powering_off
  | system_state_going_to_sleep
  | system_state_sleeping
  | system_state_shutting_down
  | system_state_shutting_down_promptly

datatype ui_input =
    ui_input_sm_power_on
  | ui_input_sm_power_off
  | ui_input_connect_handset
  | ui_input_disconnect_lru_handset
  | ui_input_sm_pair_handset
  | ui_input_sm_delete_handsets
  | ui_input_enable_multipoint
  | ui_input_disable_multipoint
  | ui_input_factory_reset_request
  | ui_input_other

datatype handset_status = handset_service_status_success | handset_service_status_failed | handset_service_status_other

datatype dfu_reboot_reason =
    REBOOT_REASON_NONE
  | REBOOT_REASON_ABRUPT_RESET
  | REBOOT_REASON_DFU_RESET
  | REBOOT_REASON_REVERT_RESET

text \<open>The messages of the task; a telephony message says whether its voice source is the USB one.\<close>

datatype sm_msg =
    Ui_Input ui_input
  | DFU_REQUESTED_TO_CONFIRM
  | DFU_REQUESTED_IN_PROGRESS
  | DFU_COMPLETED
  | DFU_NOTE
  | ANC_UPDATE_STATE_ENABLE_IND
  | ANC_UPDATE_STATE_DISABLE_IND
  | LEAKTHROUGH_UPDATE_STATE_IND bool
  | SYSTEM_STATE_STATE_CHANGE system_state system_state
  | PAIRING_PAIR_CFM
  | HANDSET_SERVICE_DISCONNECTED_IND
  | HANDSET_SERVICE_CONNECTED_IND
  | STEREO_TOPOLOGY_STOP_CFM
  | STEREO_TOPOLOGY_HANDSET_DISCONNECTED_IND handset_status
  | AV_STREAMING_ACTIVE_IND
  | AV_STREAMING_INACTIVE_IND
  | TELEPHONY_CALL_ENDED bool
  | TELEPHONY_CALL_ONGOING bool
  | Charger charger_message
  | SOC_UPDATE_IND
  | APP_POWER_SHUTDOWN_PREPARE_IND
  | Sm sm_id
  | Sm_Unexpected

datatype ps_key = Ps_Index int | PS_KEY_HFP_CONFIG

text \<open>Calls on modules other than the helmet and the message system.\<close>

datatype ext_call =
    StereoTopology_Start
  | StereoTopology_Stop
  | StereoTopology_ConnectMruHandset
  | StereoTopology_DisconnectLruHandset
  | StereoTopology_DisconnectAllHandsets
  | StereoTopology_ProhibitHandsetConnection bool
  | Ui_InformContextChange sm_provider_context
  | Ui_InjectUiInput ui_input int
  | LedManager_SetPattern_limbo_charging
  | LedManager_SetPattern_limbo_charged
  | LedManager_StopPattern
  | Charger_DisableReasonAdd_CHARGED
  | Charger_DisableReasonClear_CHARGED
  | Soc_Register
  | appPowerShutdownPrepareResponse
  | appPowerOffRequest
  | SystemState_PowerOff
  | SystemState_PowerOn
  | SystemReboot_Reboot
  | SystemReboot_ResetAction
  | PsStore ps_key
  | Dfu_ClearPsStore
  | Dfu_SetRebootReason dfu_reboot_reason
  | Dfu_HandleDeviceNotInUse
  | UpgradeRestartReconnectionTimer
  | UpgradeSetScoActive bool
  | GattServerGatt_SetGattDbChanged
  | FastPair_DeleteAccountKeys
  | BtDevice_DeleteAllDevicesOfType_HANDSET
  | HandsetService_Configure_multipoint
  | HandsetService_Configure_singlepoint
  | HandsetService_ConnectableRequest bool
  | HandsetService_CancelConnectableRequest
  | WiredAudioSource_StopMonitoring
  | WiredAudioSource_StartMonitoring
  | HeadsetUsb_AudioDisable
  | HeadsetUsb_AudioEnable
  | Pairing_Pair bool
  | Pairing_PairStop
  | ConManagerSendCloseAclRequest
  | UnexpectedMessage_HandleMessage

text \<open>
  A call: a message posted with a delay (0 for \<^verbatim>\<open>MessageSend\<close>), posted until the disconnect lock is
  clear, withdrawn, the first one withdrawn; an entry point of the helmet; anything else.
\<close>

datatype sm_call =
    Sm_SendLater sm_id int
  | Sm_SendConditionally sm_id
  | Sm_CancelAll sm_id
  | Sm_CancelFirst sm_id
  | Call_PowerOn
  | Call_PowerOff
  | Call_PowerSave
  | Call_UiRefresh int
  | Call_DisplayResume
  | Call_DisplayBlank
  | Ext ext_call

datatype headset_error = Panic_ExitFactoryReset | Panic_EnterNull | Panic_StartedUp

record headset =
  hs_state :: headset_state
  disconnect_lock :: bool
  user_pairing :: bool
  auto_poweron :: bool
  limbo_charge_event :: charger_message
  limbo_charge_led :: int
  limbo_charge_high :: bool
  limbo_soc_registered :: bool
  pause_wired_controller :: bool
  wired_connected :: bool
  hs_out :: "sm_call list"

text \<open>
  The answers of other modules. \<open>q_multipoint\<close> is asked before and \<open>q_multipoint_now\<close> after the handset
  service was configured.
\<close>

record headset_env =
  q_handset_connected :: bool
  q_bredr_connected :: bool
  q_handset_addr :: bool
  q_addr_connected :: bool
  q_any_bredr :: bool
  q_paired :: bool
  q_line_in :: bool
  q_usb_connected :: bool
  q_usb_enabled :: bool
  q_anc :: bool
  q_leakthrough :: bool
  q_br_online :: bool
  q_a2dp_streaming :: bool
  q_av_paused :: bool
  q_sco_active :: bool
  q_charger_connected :: bool
  q_soc :: int
  q_soc_register :: bool
  q_silent_commit :: bool
  q_reboot_reason :: dfu_reboot_reason
  q_reboot_active :: bool
  q_multipoint :: bool
  q_multipoint_now :: bool
  q_bredr_handsets :: int
  q_max_bredr :: int
  q_tdl_size :: nat

section \<open>Emitting calls\<close>

definition sm_emit :: "sm_call list \<Rightarrow> headset \<Rightarrow> headset" where
  "sm_emit cs s = s\<lparr>hs_out := hs_out s @ cs\<rparr>"

fun sm_then :: "headset_error + headset \<Rightarrow> (headset \<Rightarrow> headset_error + headset) \<Rightarrow> headset_error + headset" where
  "sm_then (Inl err) f = Inl err"
| "sm_then (Inr s) f = f s"

section \<open>Conditions\<close>

definition headsetSmStateIsIdle :: "headset_state \<Rightarrow> bool" where
  "headsetSmStateIsIdle st \<longleftrightarrow> st = HEADSET_STATE_IDLE"

definition headsetSmIsActiveState :: "headset_state \<Rightarrow> bool" where
  "headsetSmIsActiveState st \<longleftrightarrow> st = HEADSET_STATE_IDLE \<or> st = HEADSET_STATE_BUSY"

definition IsWiredAudioActive :: "headset_env \<Rightarrow> bool" where
  "IsWiredAudioActive e \<longleftrightarrow> q_line_in e \<or> q_usb_connected e"

definition IsBtAudioActive :: "headset_env \<Rightarrow> bool" where
  "IsBtAudioActive e \<longleftrightarrow> q_a2dp_streaming e \<or> q_sco_active e"

definition IsHeadsetAudioActive :: "headset_env \<Rightarrow> bool" where
  "IsHeadsetAudioActive e \<longleftrightarrow> IsBtAudioActive e \<or> IsWiredAudioActive e"

definition IsA2dpStreamingAndAvrcpPaused :: "headset_env \<Rightarrow> bool" where
  "IsA2dpStreamingAndAvrcpPaused e \<longleftrightarrow> q_a2dp_streaming e \<and> q_av_paused e"

abbreviation headsetConfigIdleTimeoutMs :: int where "headsetConfigIdleTimeoutMs \<equiv> 600000"

abbreviation headsetConfigLimboTimeoutMs :: int where "headsetConfigLimboTimeoutMs \<equiv> 10000"

abbreviation headsetConfigDisconnectTimeoutMs :: int where "headsetConfigDisconnectTimeoutMs \<equiv> 5000"

definition IsBtConnectionIdle :: "headset_env \<Rightarrow> headset \<Rightarrow> bool" where
  "IsBtConnectionIdle e s \<longleftrightarrow> headsetSmStateIsIdle (hs_state s) \<and> \<not> q_handset_connected e"

definition headsetSmIsIdleTimerNeedToStart :: "headset_env \<Rightarrow> headset \<Rightarrow> bool" where
  "headsetSmIsIdleTimerNeedToStart e s \<longleftrightarrow>
     IsBtConnectionIdle e s \<and> \<not> IsWiredAudioActive e \<and> \<not> q_anc e \<and> \<not> q_leakthrough e \<and> \<not> q_br_online e"

section \<open>Timers\<close>

definition headsetSMStartIdleTimer :: "headset_env \<Rightarrow> headset \<Rightarrow> headset" where
  "headsetSMStartIdleTimer e s =
     (if headsetSmIsIdleTimerNeedToStart e s
      then sm_emit [Sm_CancelAll SM_INTERNAL_TIMEOUT_IDLE, Sm_SendLater SM_INTERNAL_TIMEOUT_IDLE headsetConfigIdleTimeoutMs] s
      else s)"

definition headsetSMStopIdleTimer :: "headset \<Rightarrow> headset" where
  "headsetSMStopIdleTimer s = sm_emit [Sm_CancelAll SM_INTERNAL_TIMEOUT_IDLE] s"

text \<open>The callers test \<open>headsetSmIsIdleTimerNeedToStart\<close> before the call, and the function tests it again.\<close>

definition idle_timer_if_needed :: "headset_env \<Rightarrow> headset \<Rightarrow> headset" where
  "idle_timer_if_needed e s = (if headsetSmIsIdleTimerNeedToStart e s then headsetSMStartIdleTimer e s else s)"

definition headsetSmHandleAncUpdateStateEnableInd :: "headset_env \<Rightarrow> headset \<Rightarrow> headset" where
  "headsetSmHandleAncUpdateStateEnableInd e s = (if q_anc e then headsetSMStopIdleTimer s else s)"

definition headsetSmHandleAncUpdateStateDisableInd :: "headset_env \<Rightarrow> headset \<Rightarrow> headset" where
  "headsetSmHandleAncUpdateStateDisableInd e s =
     (let s1 = idle_timer_if_needed e s
      in if headsetSmStateIsIdle (hs_state s1) then sm_emit [Call_UiRefresh (headset_state_num (hs_state s1))] s1 else s1)"

definition headsetSmHandleLeakthroughStateInd :: "headset_env \<Rightarrow> bool \<Rightarrow> headset \<Rightarrow> headset" where
  "headsetSmHandleLeakthroughStateInd e on s = (if on then headsetSMStopIdleTimer s else idle_timer_if_needed e s)"

definition headsetSmOnWisunBrOnlineChanged :: "headset_env \<Rightarrow> bool \<Rightarrow> headset \<Rightarrow> headset" where
  "headsetSmOnWisunBrOnlineChanged e online s = (if online then headsetSMStopIdleTimer s else idle_timer_if_needed e s)"

definition headsetSmStartLimboTimer :: "headset \<Rightarrow> headset" where
  "headsetSmStartLimboTimer s =
     sm_emit [Sm_CancelAll SM_INTERNAL_TIMEOUT_LIMBO, Sm_SendLater SM_INTERNAL_TIMEOUT_LIMBO headsetConfigLimboTimeoutMs] s"

definition headsetSmStopLimboTimer :: "headset \<Rightarrow> headset" where
  "headsetSmStopLimboTimer s = sm_emit [Sm_CancelAll SM_INTERNAL_TIMEOUT_LIMBO] s"

section \<open>Wired audio controller\<close>

definition HeadsetWiredAudioController_Init :: "headset \<Rightarrow> headset" where
  "HeadsetWiredAudioController_Init s = s\<lparr>pause_wired_controller := False\<rparr>"

definition HeadsetWiredAudioController_Disable :: "headset_env \<Rightarrow> headset \<Rightarrow> headset" where
  "HeadsetWiredAudioController_Disable e s = s\<lparr>wired_connected := IsWiredAudioActive e, pause_wired_controller := True\<rparr>"

definition headsetPrepareForWiredAudio :: "headset_env \<Rightarrow> headset \<Rightarrow> headset" where
  "headsetPrepareForWiredAudio e s = sm_emit [Ext StereoTopology_Stop] (HeadsetWiredAudioController_Disable e s)"

definition headsetPrepareForBtAudio :: "headset \<Rightarrow> headset" where
  "headsetPrepareForBtAudio s = sm_emit [Ext StereoTopology_Start] s"

section \<open>Deleting pairings\<close>

definition headsetSmDisconnectLink :: "headset_env \<Rightarrow> headset \<Rightarrow> bool \<times> headset" where
  "headsetSmDisconnectLink e s =
     (if q_handset_addr e \<and> q_bredr_connected e then (True, sm_emit [Ext StereoTopology_DisconnectAllHandsets] s)
      else (False, s))"

definition headsetSmInitiateLinkDisconnection :: "headset_env \<Rightarrow> int \<Rightarrow> headset \<Rightarrow> headset" where
  "headsetSmInitiateLinkDisconnection e timeout_ms s = (case headsetSmDisconnectLink e s of (disconnecting, s1) \<Rightarrow>
     sm_emit [Sm_SendConditionally SM_INTERNAL_LINK_DISCONNECTION_COMPLETE,
              Sm_SendLater SM_INTERNAL_TIMEOUT_LINK_DISCONNECTION timeout_ms]
       (s1\<lparr>disconnect_lock := disconnecting\<rparr>))"

definition headsetSmClearPsStore :: "headset_env \<Rightarrow> headset \<Rightarrow> headset" where
  "headsetSmClearPsStore e s =
     sm_emit (concat (map (\<lambda>i. [Ext (PsStore (Ps_Index (100 + int i))), Ext (PsStore (Ps_Index (142 + int i)))]) [0..<q_tdl_size e]) @
       [Ext (PsStore (Ps_Index 141)), Ext (PsStore PS_KEY_HFP_CONFIG), Ext Dfu_ClearPsStore]) s"

definition headsetSmDeletePairingAndReset :: "headset_env \<Rightarrow> headset \<Rightarrow> headset" where
  "headsetSmDeletePairingAndReset e s =
     sm_emit [Ext FastPair_DeleteAccountKeys, Ext SystemReboot_Reboot]
       (headsetSmClearPsStore e (sm_emit [Sm_CancelFirst SM_INTERNAL_TIMEOUT_LINK_DISCONNECTION] s))"

definition headsetSmHandleInternalLinkDisconnectionComplete :: "headset \<Rightarrow> headset" where
  "headsetSmHandleInternalLinkDisconnectionComplete s =
     sm_emit [Sm_CancelFirst SM_INTERNAL_TIMEOUT_LINK_DISCONNECTION, Ext BtDevice_DeleteAllDevicesOfType_HANDSET,
              Ext FastPair_DeleteAccountKeys] s"

definition headsetSmLinkDisconnectionTimeout :: "headset \<Rightarrow> headset" where
  "headsetSmLinkDisconnectionTimeout s =
     (if disconnect_lock s
      then (sm_emit [Sm_CancelAll SM_INTERNAL_LINK_DISCONNECTION_COMPLETE] s)\<lparr>disconnect_lock := False\<rparr> else s)"

section \<open>Charging indication in limbo\<close>

text \<open>
  \<^verbatim>\<open>headset_sm.c\<close> does not include \<^verbatim>\<open>smart_helmet_config.h\<close>, which defines the switch: here it is
  undefined and the preprocessor reads it as 0.
\<close>

definition SMART_HELMET_ENABLE_SSD1315 :: bool where
  "SMART_HELMET_ENABLE_SSD1315 \<longleftrightarrow> False"

definition charge_cable_event :: "charger_message \<Rightarrow> bool" where
  "charge_cable_event m \<longleftrightarrow> m = CHARGER_MESSAGE_ATTACHED \<or> m = CHARGER_MESSAGE_CHARGING_OK \<or>
     m = CHARGER_MESSAGE_CHARGING_LOW \<or> m = CHARGER_MESSAGE_COMPLETED"

definition headsetSmStartChargeVbatLog :: "headset \<Rightarrow> headset" where
  "headsetSmStartChargeVbatLog s =
     sm_emit [Sm_CancelAll SM_INTERNAL_CHARGE_VBAT_LOG, Sm_SendLater SM_INTERNAL_CHARGE_VBAT_LOG 5000] s"

definition headsetSmStopChargeVbatLog :: "headset \<Rightarrow> headset" where
  "headsetSmStopChargeVbatLog s = sm_emit [Sm_CancelAll SM_INTERNAL_CHARGE_VBAT_LOG] s"

definition headsetSmLogChargeVbat :: "headset_env \<Rightarrow> headset \<Rightarrow> headset" where
  "headsetSmLogChargeVbat e s =
     (if hs_state s \<noteq> HEADSET_STATE_LIMBO then headsetSmStopChargeVbatLog s
      else if q_charger_connected e \<or> charge_cable_event (limbo_charge_event s) then headsetSmStartChargeVbatLog s
      else s)"

definition headsetSmChargeCompleted :: "headset_env \<Rightarrow> charger_message \<Rightarrow> bool" where
  "headsetSmChargeCompleted e event \<longleftrightarrow>
     event = CHARGER_MESSAGE_COMPLETED \<or> event = CHARGER_MESSAGE_DISABLED \<and> q_charger_connected e"

text \<open>The test hook that disables charging at 99 percent is compiled in.\<close>

definition charge_test_disable :: "headset_env \<Rightarrow> headset \<Rightarrow> headset" where
  "charge_test_disable e s =
     (if q_soc e \<ge> 99 \<and> (limbo_charge_event s = CHARGER_MESSAGE_CHARGING_OK \<or>
           limbo_charge_event s = CHARGER_MESSAGE_CHARGING_LOW \<or> limbo_charge_event s = CHARGER_MESSAGE_ATTACHED)
      then (sm_emit [Ext Charger_DisableReasonAdd_CHARGED] s)\<lparr>limbo_charge_event := CHARGER_MESSAGE_DISABLED\<rparr>
      else s)"

definition headsetSmLimboChargeLedChoice :: "headset_env \<Rightarrow> headset \<Rightarrow> int \<times> headset" where
  "headsetSmLimboChargeLedChoice e s =
     (let s1 = charge_test_disable e s; ev = limbo_charge_event s1
      in if headsetSmChargeCompleted e ev then
           (if q_soc e \<le> 90 then (1, (sm_emit [Ext Charger_DisableReasonClear_CHARGED] s1)\<lparr>limbo_charge_high := False\<rparr>)
            else (2, s1\<lparr>limbo_charge_high := True\<rparr>))
         else if ev = CHARGER_MESSAGE_CHARGING_OK \<or> ev = CHARGER_MESSAGE_CHARGING_LOW then
           (let high = (if q_soc e \<ge> 95 then True else if q_soc e \<le> 92 then False else limbo_charge_high s1)
            in (if high then 2 else 1, s1\<lparr>limbo_charge_high := high\<rparr>))
         else if ev = CHARGER_MESSAGE_ATTACHED then (3, s1)
         else (0, s1\<lparr>limbo_charge_high := False\<rparr>))"

text \<open>The display and the periodic voltage log.\<close>

definition limbo_charge_display :: "headset_env \<Rightarrow> int \<Rightarrow> headset \<Rightarrow> headset" where
  "limbo_charge_display e choice s =
     (if choice = 1 \<or> choice = 2 \<or> choice = 3 \<or> q_charger_connected e \<or> charge_cable_event (limbo_charge_event s)
      then headsetSmLogChargeVbat e
        (sm_emit ((if SMART_HELMET_ENABLE_SSD1315 then [Call_DisplayResume] else []) @ [Call_UiRefresh 2]) s)
      else headsetSmStopChargeVbatLog
        (sm_emit (if SMART_HELMET_ENABLE_SSD1315 then [Call_DisplayBlank] else []) s))"

text \<open>The LED and the limbo timer, when the choice has changed.\<close>

definition limbo_charge_led_set :: "headset_env \<Rightarrow> int \<Rightarrow> headset \<Rightarrow> headset" where
  "limbo_charge_led_set e choice s =
     (if choice = 3 \<or> choice = limbo_charge_led s then s
      else let s1 = s\<lparr>limbo_charge_led := choice\<rparr>
           in if choice = 1 then sm_emit [Ext LedManager_SetPattern_limbo_charging] (headsetSmStopLimboTimer s1)
              else if choice = 2 then sm_emit [Ext LedManager_SetPattern_limbo_charged] (headsetSmStopLimboTimer s1)
              else if q_charger_connected e \<or> limbo_charge_event s1 = CHARGER_MESSAGE_COMPLETED \<or>
                      limbo_charge_event s1 = CHARGER_MESSAGE_ATTACHED
              then headsetSmStopLimboTimer s1
              else headsetSmStartLimboTimer (sm_emit [Ext LedManager_StopPattern] s1))"

definition register_soc :: "headset_env \<Rightarrow> headset \<Rightarrow> headset" where
  "register_soc e s = (if limbo_soc_registered s then s
     else (sm_emit [Ext Soc_Register] s)\<lparr>limbo_soc_registered := q_soc_register e\<rparr>)"

definition headsetSmApplyLimboChargeLed :: "headset_env \<Rightarrow> headset \<Rightarrow> headset" where
  "headsetSmApplyLimboChargeLed e s =
     (if hs_state s \<noteq> HEADSET_STATE_LIMBO then s
      else case headsetSmLimboChargeLedChoice e (register_soc e s) of (choice, s1) \<Rightarrow>
        limbo_charge_led_set e choice (limbo_charge_display e choice s1))"

definition headsetSmNoteChargerEvent :: "headset_env \<Rightarrow> charger_message \<Rightarrow> headset \<Rightarrow> headset" where
  "headsetSmNoteChargerEvent e m s = headsetSmApplyLimboChargeLed e (s\<lparr>limbo_charge_event := m\<rparr>)"

definition headsetSmHandleChargerMessageDetached :: "headset_env \<Rightarrow> headset \<Rightarrow> headset" where
  "headsetSmHandleChargerMessageDetached e s = headsetSmNoteChargerEvent e CHARGER_MESSAGE_DETACHED s"

section \<open>Firmware update\<close>

definition headsetCheckDfu :: "headset_env \<Rightarrow> headset \<Rightarrow> headset" where
  "headsetCheckDfu e s =
     (let r = q_reboot_reason e
      in if (r = REBOOT_REASON_DFU_RESET \<or> r = REBOOT_REASON_REVERT_RESET) \<and> \<not> q_silent_commit e
         then sm_emit ((if r = REBOOT_REASON_DFU_RESET then [Ext UpgradeRestartReconnectionTimer] else []) @
                [Ext (Ui_InjectUiInput ui_input_sm_power_on 6000)] @
                (if r = REBOOT_REASON_REVERT_RESET then [Ext (Dfu_SetRebootReason REBOOT_REASON_NONE)] else [])) s
         else s)"

section \<open>Entry and exit actions\<close>

definition headsetEnterLimbo :: "headset_env \<Rightarrow> headset \<Rightarrow> headset" where
  "headsetEnterLimbo e s =
     (let s1 = headsetCheckDfu e (headsetSmApplyLimboChargeLed e (headsetSmStartLimboTimer s));
          s2 = (if q_silent_commit e then sm_emit [Ext Dfu_HandleDeviceNotInUse] s1 else s1)
      in if auto_poweron s2 then sm_emit [Ext (Ui_InjectUiInput ui_input_sm_power_on 0)] (s2\<lparr>auto_poweron := False\<rparr>)
         else s2)"

definition headsetExitLimbo :: "headset \<Rightarrow> headset" where
  "headsetExitLimbo s = sm_emit [Ext LedManager_StopPattern] ((headsetSmStopLimboTimer s)\<lparr>limbo_charge_led := 0\<rparr>)"

definition headsetEnterPoweringOn :: "headset \<Rightarrow> headset" where
  "headsetEnterPoweringOn s = sm_emit [Call_PowerOn] s"

definition headsetEnterPoweringOff :: "headset \<Rightarrow> headset" where
  "headsetEnterPoweringOff s = sm_emit [Call_PowerOff, Call_PowerSave] s"

definition headsetEnterFactoryReset :: "headset_env \<Rightarrow> headset \<Rightarrow> headset" where
  "headsetEnterFactoryReset e s = headsetSmDeletePairingAndReset e s"

definition headsetEnterIdle :: "headset_env \<Rightarrow> headset \<Rightarrow> headset" where
  "headsetEnterIdle e s = sm_emit [Ext (Ui_InformContextChange context_app_sm_idle)] (idle_timer_if_needed e s)"

definition headsetExitIdle :: "headset \<Rightarrow> headset" where
  "headsetExitIdle s = sm_emit [Ext (Ui_InformContextChange context_app_sm_exit_idle)] (headsetSMStopIdleTimer s)"

definition headsetEnterBusy :: "headset_env \<Rightarrow> headset \<Rightarrow> headset" where
  "headsetEnterBusy e s = (if IsWiredAudioActive e then headsetPrepareForWiredAudio e s else s)"

definition headsetExitBusy :: "headset_env \<Rightarrow> headset \<Rightarrow> headset" where
  "headsetExitBusy e s = (if IsWiredAudioActive e then s else headsetPrepareForBtAudio s)"

definition headsetEnterPairing :: "headset \<Rightarrow> headset" where
  "headsetEnterPairing s =
     sm_emit [Ext (if user_pairing s then StereoTopology_ProhibitHandsetConnection True else Pairing_Pair False),
              Ext (HandsetService_ConnectableRequest True)] s"

definition headsetExitPairing :: "headset \<Rightarrow> headset" where
  "headsetExitPairing s =
     sm_emit [Ext (StereoTopology_ProhibitHandsetConnection False)] ((sm_emit [Ext Pairing_PairStop] s)\<lparr>user_pairing := False\<rparr>)"

definition headsetEnterTerminating :: "headset_env \<Rightarrow> headset \<Rightarrow> headset" where
  "headsetEnterTerminating e s =
     sm_emit ((if q_handset_addr e \<and> q_addr_connected e then [Ext ConManagerSendCloseAclRequest] else []) @
       [Ext WiredAudioSource_StopMonitoring, Ext appPowerShutdownPrepareResponse]) s"

definition headsetSm_GetApplicationCurrentContext :: "headset_env \<Rightarrow> headset \<Rightarrow> sm_provider_context" where
  "headsetSm_GetApplicationCurrentContext e s = (case hs_state s of
     HEADSET_STATE_NULL \<Rightarrow> context_app_sm_powered_off
   | HEADSET_STATE_LIMBO \<Rightarrow> context_app_sm_powered_off
   | HEADSET_STATE_POWERING_ON \<Rightarrow> context_app_sm_powered_off
   | HEADSET_STATE_POWERING_OFF \<Rightarrow> context_app_sm_powered_off
   | HEADSET_STATE_TERMINATING \<Rightarrow> context_app_sm_powered_off
   | HEADSET_STATE_FACTORY_RESET \<Rightarrow> context_app_sm_powered_off
   | HEADSET_STATE_BUSY \<Rightarrow> (if q_bredr_connected e then context_app_sm_idle_connected else context_app_sm_idle)
   | HEADSET_STATE_IDLE \<Rightarrow> (if q_bredr_connected e then context_app_sm_idle_connected else context_app_sm_idle)
   | _ \<Rightarrow> context_app_sm_powered_on)"

section \<open>State changes\<close>

definition exit_state :: "headset_env \<Rightarrow> headset \<Rightarrow> headset_error + headset" where
  "exit_state e s = (case hs_state s of
     HEADSET_STATE_LIMBO \<Rightarrow> Inr (headsetExitLimbo s)
   | HEADSET_STATE_FACTORY_RESET \<Rightarrow> Inl Panic_ExitFactoryReset
   | HEADSET_STATE_PAIRING \<Rightarrow> Inr (headsetExitPairing s)
   | HEADSET_STATE_IDLE \<Rightarrow> Inr (headsetExitIdle s)
   | HEADSET_STATE_BUSY \<Rightarrow> Inr (headsetExitBusy e s)
   | _ \<Rightarrow> Inr s)"

definition enter_state :: "headset_env \<Rightarrow> headset \<Rightarrow> headset_error + headset" where
  "enter_state e s = (case hs_state s of
     HEADSET_STATE_NULL \<Rightarrow> Inl Panic_EnterNull
   | HEADSET_STATE_LIMBO \<Rightarrow> Inr (headsetEnterLimbo e s)
   | HEADSET_STATE_FACTORY_RESET \<Rightarrow> Inr (headsetEnterFactoryReset e s)
   | HEADSET_STATE_POWERING_ON \<Rightarrow> Inr (headsetEnterPoweringOn s)
   | HEADSET_STATE_PAIRING \<Rightarrow> Inr (headsetEnterPairing s)
   | HEADSET_STATE_IDLE \<Rightarrow> Inr (headsetEnterIdle e s)
   | HEADSET_STATE_POWERING_OFF \<Rightarrow> Inr (headsetEnterPoweringOff s)
   | HEADSET_STATE_BUSY \<Rightarrow> Inr (headsetEnterBusy e s)
   | HEADSET_STATE_TERMINATING \<Rightarrow> Inr (headsetEnterTerminating e s))"

definition headsetSetState :: "headset_env \<Rightarrow> headset_state \<Rightarrow> headset \<Rightarrow> headset_error + headset" where
  "headsetSetState e new s =
     sm_then (exit_state e s) (\<lambda>s1.
     sm_then (enter_state e (sm_emit [Call_UiRefresh (headset_state_num new)] (s1\<lparr>hs_state := new\<rparr>))) (\<lambda>s2.
     Inr (sm_emit [Ext (Ui_InformContextChange (headsetSm_GetApplicationCurrentContext e s2))] s2)))"

definition headsetSmDetermineCoreState :: "headset_env \<Rightarrow> headset \<Rightarrow> headset_state" where
  "headsetSmDetermineCoreState e s =
     (if hs_state s = HEADSET_STATE_IDLE \<or> hs_state s = HEADSET_STATE_BUSY
      then (if IsHeadsetAudioActive e then HEADSET_STATE_BUSY else HEADSET_STATE_IDLE) else hs_state s)"

section \<open>Requests of the user interface\<close>

definition headsetSmEnableMultipoint :: "headset_env \<Rightarrow> headset \<Rightarrow> headset" where
  "headsetSmEnableMultipoint e s =
     sm_emit ((if q_multipoint e then [] else [Ext HandsetService_Configure_multipoint]) @
       (if q_multipoint_now e \<and> q_bredr_handsets e = 1 then [Ext (HandsetService_ConnectableRequest False)] else [])) s"

definition headsetSmDisableMultipoint :: "headset_env \<Rightarrow> headset \<Rightarrow> headset" where
  "headsetSmDisableMultipoint e s =
     (if q_multipoint e
      then sm_emit (Ext HandsetService_Configure_singlepoint #
             (if q_bredr_handsets e > q_max_bredr e then [Ext StereoTopology_DisconnectLruHandset] else [])) s
      else s)"

definition headsetSmHandlePowerOn :: "headset \<Rightarrow> headset" where
  "headsetSmHandlePowerOn s = (if hs_state s = HEADSET_STATE_LIMBO then sm_emit [Ext SystemState_PowerOn] s else s)"

definition headsetSmPowerOff :: "headset \<Rightarrow> headset" where
  "headsetSmPowerOff s = sm_emit [Sm_SendLater SM_INTERNAL_POWER_OFF 0] s"

fun headsetSmHandleUiInput :: "headset_env \<Rightarrow> ui_input \<Rightarrow> headset \<Rightarrow> headset" where
  "headsetSmHandleUiInput e ui_input_sm_power_on s = headsetSmHandlePowerOn s"
| "headsetSmHandleUiInput e ui_input_sm_power_off s = headsetSmPowerOff s"
| "headsetSmHandleUiInput e ui_input_connect_handset s =
     (if IsWiredAudioActive e then s else sm_emit [Ext StereoTopology_ConnectMruHandset] s)"
| "headsetSmHandleUiInput e ui_input_disconnect_lru_handset s = sm_emit [Ext StereoTopology_DisconnectLruHandset] s"
| "headsetSmHandleUiInput e ui_input_sm_pair_handset s = sm_emit [Sm_SendLater SM_INTERNAL_PAIR_HANDSET 0] s"
| "headsetSmHandleUiInput e ui_input_sm_delete_handsets s = sm_emit [Sm_SendLater SM_INTERNAL_DELETE_HANDSETS 0] s"
| "headsetSmHandleUiInput e ui_input_enable_multipoint s = headsetSmEnableMultipoint e s"
| "headsetSmHandleUiInput e ui_input_disable_multipoint s = headsetSmDisableMultipoint e s"
| "headsetSmHandleUiInput e ui_input_factory_reset_request s = sm_emit [Sm_SendLater SM_INTERNAL_FACTORY_RESET 0] s"
| "headsetSmHandleUiInput e ui_input_other s = s"

section \<open>Message handlers\<close>

definition headsetSmHandlePowerShutdownPrepareInd :: "headset_env \<Rightarrow> headset \<Rightarrow> headset_error + headset" where
  "headsetSmHandlePowerShutdownPrepareInd e s =
     (if hs_state s = HEADSET_STATE_LIMBO
      then Inr (if q_silent_commit e then s else sm_emit [Ext appPowerShutdownPrepareResponse] s)
      else headsetSetState e HEADSET_STATE_TERMINATING s)"

definition headsetSmHandlePoweredOn :: "headset_env \<Rightarrow> headset \<Rightarrow> headset_error + headset" where
  "headsetSmHandlePoweredOn e s =
     (if \<not> IsWiredAudioActive e then
        (if q_paired e then headsetSetState e HEADSET_STATE_IDLE s
         else headsetSetState e HEADSET_STATE_PAIRING
                ((sm_emit [Ext WiredAudioSource_StopMonitoring, Ext HeadsetUsb_AudioDisable] s)\<lparr>user_pairing := False\<rparr>))
      else if hs_state s = HEADSET_STATE_POWERING_ON then headsetSetState e HEADSET_STATE_IDLE s
      else Inr s)"

definition headsetSmHandleTimeoutIdle :: "headset_env \<Rightarrow> headset \<Rightarrow> headset" where
  "headsetSmHandleTimeoutIdle e s =
     (if hs_state s = HEADSET_STATE_IDLE \<and> \<not> q_handset_connected e
      then (if q_br_online e
            then sm_emit [Sm_CancelAll SM_INTERNAL_TIMEOUT_IDLE,
                          Sm_SendLater SM_INTERNAL_TIMEOUT_IDLE headsetConfigIdleTimeoutMs] s
            else headsetSmPowerOff s)
      else s)"

definition headsetSmHandleTimeoutLimbo :: "headset_env \<Rightarrow> headset \<Rightarrow> headset" where
  "headsetSmHandleTimeoutLimbo e s =
     (if hs_state s = HEADSET_STATE_LIMBO
      then (if q_charger_connected e \<or> charge_cable_event (limbo_charge_event s) then headsetSmStopLimboTimer s
            else sm_emit [Call_PowerSave, Ext appPowerOffRequest] s)
      else s)"

definition headsetSmHandleInternalFactoryReset :: "headset_env \<Rightarrow> headset \<Rightarrow> headset_error + headset" where
  "headsetSmHandleInternalFactoryReset e s =
     (if headset_state_num (hs_state s) > headset_state_num HEADSET_STATE_POWERING_ON
      then headsetSetState e HEADSET_STATE_FACTORY_RESET s else Inr s)"

definition headsetSmHandleInternalPairHandset :: "headset_env \<Rightarrow> headset \<Rightarrow> headset_error + headset" where
  "headsetSmHandleInternalPairHandset e s =
     (if headsetSmStateIsIdle (hs_state s) \<or> IsA2dpStreamingAndAvrcpPaused e
      then headsetSetState e HEADSET_STATE_PAIRING
             ((sm_emit [Ext WiredAudioSource_StopMonitoring, Ext HeadsetUsb_AudioDisable] s)\<lparr>user_pairing := True\<rparr>)
      else Inr s)"

definition headsetSmHandleInternalDeleteHandsets :: "headset_env \<Rightarrow> headset \<Rightarrow> headset" where
  "headsetSmHandleInternalDeleteHandsets e s =
     (if hs_state s = HEADSET_STATE_IDLE \<or> hs_state s = HEADSET_STATE_BUSY
      then headsetSmInitiateLinkDisconnection e headsetConfigDisconnectTimeoutMs
             (sm_emit [Ext HandsetService_CancelConnectableRequest] s)
      else s)"

definition headsetSmHandleInternalPowerOff :: "headset \<Rightarrow> headset" where
  "headsetSmHandleInternalPowerOff s =
     (if headset_state_num (hs_state s) > headset_state_num HEADSET_STATE_LIMBO
      then sm_emit [Ext SystemState_PowerOff] s else s)"

definition headsetSmHandleSystemSartedUpToLimbo :: "headset_env \<Rightarrow> headset \<Rightarrow> headset_error + headset" where
  "headsetSmHandleSystemSartedUpToLimbo e s =
     (if hs_state s = HEADSET_STATE_NULL then headsetSetState e HEADSET_STATE_LIMBO s else Inl Panic_StartedUp)"

definition headsetSmHandleSystemStateChange ::
  "headset_env \<Rightarrow> system_state \<Rightarrow> system_state \<Rightarrow> headset \<Rightarrow> headset_error + headset" where
  "headsetSmHandleSystemStateChange e old new s =
     (if old = system_state_starting_up \<and> new = system_state_limbo then headsetSmHandleSystemSartedUpToLimbo e s
      else if old = system_state_limbo \<and> new = system_state_powering_on then headsetSetState e HEADSET_STATE_POWERING_ON s
      else if old = system_state_powering_on \<and> new = system_state_active then headsetSmHandlePoweredOn e s
      else if old = system_state_active \<and> new = system_state_powering_off then headsetSetState e HEADSET_STATE_POWERING_OFF s
      else Inr s)"

definition headsetSmHandlePairingPairConfirm :: "headset_env \<Rightarrow> headset \<Rightarrow> headset_error + headset" where
  "headsetSmHandlePairingPairConfirm e s =
     (if hs_state s = HEADSET_STATE_PAIRING
      then headsetSetState e HEADSET_STATE_IDLE
             (sm_emit [Ext WiredAudioSource_StartMonitoring, Ext HeadsetUsb_AudioEnable] s)
      else Inr s)"

definition headsetSmHandleHandsetServiceConnectedInd :: "headset \<Rightarrow> headset" where
  "headsetSmHandleHandsetServiceConnectedInd s =
     (if headsetSmStateIsIdle (hs_state s)
      then sm_emit [Call_UiRefresh (headset_state_num (hs_state s))]
             (headsetSMStopIdleTimer (sm_emit [Ext (Ui_InformContextChange context_app_sm_idle_connected)] s))
      else s)"

definition headsetSmHandleStereoTopologyHandsetDisInd ::
  "headset_env \<Rightarrow> handset_status \<Rightarrow> headset \<Rightarrow> headset_error + headset" where
  "headsetSmHandleStereoTopologyHandsetDisInd e status s =
     (if user_pairing s \<and> hs_state s = HEADSET_STATE_PAIRING
      then (if status = handset_service_status_success then Inr (sm_emit [Ext (Pairing_Pair True)] s)
            else if status = handset_service_status_failed then headsetSetState e HEADSET_STATE_IDLE s
            else Inr s)
      else Inr s)"

definition headsetSmUpdateDisconnectingLink :: "headset_env \<Rightarrow> headset \<Rightarrow> headset" where
  "headsetSmUpdateDisconnectingLink e s =
     (if disconnect_lock s \<and> \<not> q_any_bredr e then s\<lparr>disconnect_lock := False\<rparr> else s)"

definition headsetSmHandleHandsetServiceDisconnectedInd :: "headset_env \<Rightarrow> headset \<Rightarrow> headset" where
  "headsetSmHandleHandsetServiceDisconnectedInd e s =
     (let s1 = headsetSmUpdateDisconnectingLink e s;
          s2 = (if hs_state s1 \<noteq> HEADSET_STATE_PAIRING \<and> headsetSmStateIsIdle (headsetSmDetermineCoreState e s1)
                then sm_emit [Ext (Ui_InformContextChange context_app_sm_idle)] s1 else s1)
      in idle_timer_if_needed e s2)"

definition headsetSmWiredAudioConnected :: "headset_env \<Rightarrow> headset \<Rightarrow> headset_error + headset" where
  "headsetSmWiredAudioConnected e s =
     (if hs_state s = HEADSET_STATE_POWERING_ON \<or> hs_state s = HEADSET_STATE_IDLE \<or> hs_state s = HEADSET_STATE_BUSY
      then headsetSetState e HEADSET_STATE_BUSY s else Inr s)"

definition headsetSmWiredAudioDisconnected :: "headset_env \<Rightarrow> headset \<Rightarrow> headset_error + headset" where
  "headsetSmWiredAudioDisconnected e s =
     (if hs_state s = HEADSET_STATE_BUSY then headsetSetState e HEADSET_STATE_IDLE s else Inr s)"

definition headsetWiredAudioController_HandleCurrentWiredStatus :: "headset_env \<Rightarrow> headset \<Rightarrow> headset_error + headset" where
  "headsetWiredAudioController_HandleCurrentWiredStatus e s =
     (if IsWiredAudioActive e \<noteq> wired_connected s
      then (if IsWiredAudioActive e then headsetSmWiredAudioConnected e s else headsetSmWiredAudioDisconnected e s)
      else Inr s)"

definition HeadsetWiredAudioController_Enable :: "headset_env \<Rightarrow> headset \<Rightarrow> headset_error + headset" where
  "HeadsetWiredAudioController_Enable e s =
     (if pause_wired_controller s
      then sm_then (headsetWiredAudioController_HandleCurrentWiredStatus e s) (\<lambda>s1. Inr (s1\<lparr>pause_wired_controller := False\<rparr>))
      else Inr s)"

definition headetSmHandleTopologyStopCfm :: "headset_env \<Rightarrow> headset \<Rightarrow> headset_error + headset" where
  "headetSmHandleTopologyStopCfm e s =
     (if hs_state s = HEADSET_STATE_POWERING_OFF
      then sm_then (headsetSetState e HEADSET_STATE_LIMBO s) (\<lambda>s1. Inr (sm_emit [Ext appPowerOffRequest] s1))
      else HeadsetWiredAudioController_Enable e s)"

text \<open>The reaction to audio starting or ending: leave or enter the busy state.\<close>

definition audio_changed :: "headset_env \<Rightarrow> headset \<Rightarrow> headset_error + headset" where
  "audio_changed e s =
     (if headsetSmIsActiveState (hs_state s) then headsetSetState e (headsetSmDetermineCoreState e s) s else Inr s)"

definition telephony_changed :: "headset_env \<Rightarrow> bool \<Rightarrow> bool \<Rightarrow> headset \<Rightarrow> headset_error + headset" where
  "telephony_changed e ongoing usb s =
     sm_then (audio_changed e s) (\<lambda>s1. Inr (if usb then s1 else sm_emit [Ext (UpgradeSetScoActive ongoing)] s1))"

text \<open>A charger message that ends a power-off in progress.\<close>

definition charger_to_limbo :: "headset_env \<Rightarrow> charger_message \<Rightarrow> headset \<Rightarrow> headset_error + headset" where
  "charger_to_limbo e m s =
     sm_then (if hs_state s = HEADSET_STATE_POWERING_OFF then headsetSetState e HEADSET_STATE_LIMBO s else Inr s)
       (\<lambda>s1. Inr (headsetSmNoteChargerEvent e m s1))"

fun sm_charger :: "headset_env \<Rightarrow> charger_message \<Rightarrow> headset \<Rightarrow> headset_error + headset" where
  "sm_charger e CHARGER_MESSAGE_ATTACHED s = charger_to_limbo e CHARGER_MESSAGE_ATTACHED s"
| "sm_charger e CHARGER_MESSAGE_DETACHED s = Inr (headsetSmHandleChargerMessageDetached e s)"
| "sm_charger e CHARGER_MESSAGE_DISABLED s = Inr (headsetSmNoteChargerEvent e CHARGER_MESSAGE_DISABLED s)"
| "sm_charger e CHARGER_MESSAGE_COMPLETED s = Inr (headsetSmNoteChargerEvent e CHARGER_MESSAGE_COMPLETED s)"
| "sm_charger e CHARGER_MESSAGE_CHARGING_OK s = charger_to_limbo e CHARGER_MESSAGE_CHARGING_OK s"
| "sm_charger e CHARGER_MESSAGE_CHARGING_LOW s = charger_to_limbo e CHARGER_MESSAGE_CHARGING_LOW s"

fun sm_internal :: "headset_env \<Rightarrow> sm_id \<Rightarrow> headset \<Rightarrow> headset_error + headset" where
  "sm_internal e SM_INTERNAL_FACTORY_RESET s = headsetSmHandleInternalFactoryReset e s"
| "sm_internal e SM_INTERNAL_PAIR_HANDSET s = headsetSmHandleInternalPairHandset e s"
| "sm_internal e SM_INTERNAL_DELETE_HANDSETS s = Inr (headsetSmHandleInternalDeleteHandsets e s)"
| "sm_internal e SM_INTERNAL_POWER_OFF s = Inr (headsetSmHandleInternalPowerOff s)"
| "sm_internal e SM_INTERNAL_TIMEOUT_IDLE s = Inr (headsetSmHandleTimeoutIdle e s)"
| "sm_internal e SM_INTERNAL_TIMEOUT_LIMBO s = Inr (headsetSmHandleTimeoutLimbo e s)"
| "sm_internal e SM_INTERNAL_CHARGE_VBAT_LOG s = Inr (headsetSmLogChargeVbat e s)"
| "sm_internal e SM_INTERNAL_LINK_DISCONNECTION_COMPLETE s = Inr (headsetSmHandleInternalLinkDisconnectionComplete s)"
| "sm_internal e SM_INTERNAL_TIMEOUT_LINK_DISCONNECTION s = Inr (headsetSmLinkDisconnectionTimeout s)"
| "sm_internal e SM_INTERNAL_DUMMY_LOG s = Inr (sm_emit [Sm_SendLater SM_INTERNAL_DUMMY_LOG 1000] s)"

fun headsetSmHandleMessage :: "headset_env \<Rightarrow> sm_msg \<Rightarrow> headset \<Rightarrow> headset_error + headset" where
  "headsetSmHandleMessage e (Ui_Input i) s = Inr (headsetSmHandleUiInput e i s)"
| "headsetSmHandleMessage e DFU_REQUESTED_TO_CONFIRM s = Inr (sm_emit [Ext (Dfu_SetRebootReason REBOOT_REASON_DFU_RESET)] s)"
| "headsetSmHandleMessage e DFU_REQUESTED_IN_PROGRESS s =
     Inr (sm_emit [Ext (Dfu_SetRebootReason REBOOT_REASON_ABRUPT_RESET)] s)"
| "headsetSmHandleMessage e DFU_COMPLETED s =
     Inr (sm_emit [Ext GattServerGatt_SetGattDbChanged, Ext (Dfu_SetRebootReason REBOOT_REASON_NONE)] s)"
| "headsetSmHandleMessage e DFU_NOTE s = Inr s"
| "headsetSmHandleMessage e ANC_UPDATE_STATE_ENABLE_IND s = Inr (headsetSmHandleAncUpdateStateEnableInd e s)"
| "headsetSmHandleMessage e ANC_UPDATE_STATE_DISABLE_IND s = Inr (headsetSmHandleAncUpdateStateDisableInd e s)"
| "headsetSmHandleMessage e (LEAKTHROUGH_UPDATE_STATE_IND on) s = Inr (headsetSmHandleLeakthroughStateInd e on s)"
| "headsetSmHandleMessage e (SYSTEM_STATE_STATE_CHANGE old new) s = headsetSmHandleSystemStateChange e old new s"
| "headsetSmHandleMessage e PAIRING_PAIR_CFM s = headsetSmHandlePairingPairConfirm e s"
| "headsetSmHandleMessage e HANDSET_SERVICE_DISCONNECTED_IND s = Inr (headsetSmHandleHandsetServiceDisconnectedInd e s)"
| "headsetSmHandleMessage e HANDSET_SERVICE_CONNECTED_IND s = Inr (headsetSmHandleHandsetServiceConnectedInd s)"
| "headsetSmHandleMessage e STEREO_TOPOLOGY_STOP_CFM s = headetSmHandleTopologyStopCfm e s"
| "headsetSmHandleMessage e (STEREO_TOPOLOGY_HANDSET_DISCONNECTED_IND st) s = headsetSmHandleStereoTopologyHandsetDisInd e st s"
| "headsetSmHandleMessage e AV_STREAMING_ACTIVE_IND s = audio_changed e s"
| "headsetSmHandleMessage e AV_STREAMING_INACTIVE_IND s = audio_changed e s"
| "headsetSmHandleMessage e (TELEPHONY_CALL_ENDED usb) s = telephony_changed e False usb s"
| "headsetSmHandleMessage e (TELEPHONY_CALL_ONGOING usb) s = telephony_changed e True usb s"
| "headsetSmHandleMessage e (Charger m) s = sm_charger e m s"
| "headsetSmHandleMessage e SOC_UPDATE_IND s = Inr (headsetSmApplyLimboChargeLed e s)"
| "headsetSmHandleMessage e APP_POWER_SHUTDOWN_PREPARE_IND s = headsetSmHandlePowerShutdownPrepareInd e s"
| "headsetSmHandleMessage e (Sm m) s = sm_internal e m s"
| "headsetSmHandleMessage e Sm_Unexpected s = Inr (sm_emit [Ext UnexpectedMessage_HandleMessage] s)"

section \<open>Wired audio messages, queries and initialisation\<close>

datatype wired_msg =
    WIRED_AUDIO_DEVICE_CONNECT_IND
  | WIRED_AUDIO_DEVICE_DISCONNECT_IND
  | USB_DEVICE_ENUMERATED
  | USB_DEVICE_DECONFIGURED
  | Wired_Other

fun wired_event :: "headset_env \<Rightarrow> wired_msg \<Rightarrow> headset \<Rightarrow> headset_error + headset" where
  "wired_event e WIRED_AUDIO_DEVICE_CONNECT_IND s = headsetSmWiredAudioConnected e s"
| "wired_event e USB_DEVICE_ENUMERATED s = (if q_usb_enabled e then headsetSmWiredAudioConnected e s else Inr s)"
| "wired_event e USB_DEVICE_DECONFIGURED s =
     (if q_usb_enabled e \<and> \<not> q_line_in e \<and> \<not> q_usb_connected e then headsetSmWiredAudioDisconnected e s else Inr s)"
| "wired_event e WIRED_AUDIO_DEVICE_DISCONNECT_IND s =
     (if \<not> q_line_in e \<and> \<not> q_usb_connected e then headsetSmWiredAudioDisconnected e s else Inr s)"
| "wired_event e Wired_Other s = Inr s"

definition headsetWiredAudioController_HandleMessage ::
  "headset_env \<Rightarrow> wired_msg \<Rightarrow> headset \<Rightarrow> headset_error + headset" where
  "headsetWiredAudioController_HandleMessage e m s = (if pause_wired_controller s then Inr s else wired_event e m s)"

definition headsetSm_GetApplicationActiveStateContext :: "headset_env \<Rightarrow> headset \<Rightarrow> sm_provider_context" where
  "headsetSm_GetApplicationActiveStateContext e s =
     (if headsetSm_GetApplicationCurrentContext e s = context_app_sm_powered_off then context_app_sm_inactive
      else context_app_sm_active)"

text \<open>Only the power button (a single click) passes while the application is off.\<close>

datatype logical_input = TAB_SINGLE_CLICK | Logical_Other nat

definition HeadsetUi_IsLogicalInputScreenedInLimboState :: "logical_input \<Rightarrow> bool" where
  "HeadsetUi_IsLogicalInputScreenedInLimboState i \<longleftrightarrow> i \<noteq> TAB_SINGLE_CLICK"

definition headsetSm_IsLogicalInputScreeningActive :: "headset_env \<Rightarrow> headset \<Rightarrow> logical_input \<Rightarrow> bool" where
  "headsetSm_IsLogicalInputScreeningActive e s i \<longleftrightarrow>
     headsetSm_GetApplicationCurrentContext e s = context_app_sm_powered_off \<and> HeadsetUi_IsLogicalInputScreenedInLimboState i"

text \<open>
  Initialisation: \<^verbatim>\<open>memset\<close>, the automatic power-on after a reboot that asked for it, and the first post
  of the log tick. The registrations with other modules have no effect on this state.
\<close>

definition headset_boot :: headset where
  "headset_boot = \<lparr>hs_state = HEADSET_STATE_NULL, disconnect_lock = False, user_pairing = False, auto_poweron = False,
     limbo_charge_event = CHARGER_MESSAGE_DETACHED, limbo_charge_led = 0, limbo_charge_high = False,
     limbo_soc_registered = False, pause_wired_controller = False, wired_connected = False, hs_out = []\<rparr>"

definition headsetSmInit :: "headset_env \<Rightarrow> headset \<Rightarrow> headset" where
  "headsetSmInit e s =
     (let s1 = s\<lparr>hs_state := HEADSET_STATE_NULL, disconnect_lock := False, user_pairing := False,
                auto_poweron := q_reboot_active e\<rparr>
      in sm_emit ((if q_reboot_active e then [Ext SystemReboot_ResetAction] else []) @
           [Sm_SendLater SM_INTERNAL_DUMMY_LOG 1000]) s1)"

end
