(* ===== verification/Headset_Safety.thy ===== *)
theory Headset_Safety
  imports Headset
begin

text \<open>
  The guarantees of the application state machine over all histories: its timers, the states in which the
  helmet is powered, when it panics, the charging indication, and what a lost limbo timer means.
\<close>

section \<open>Events and pending messages\<close>

datatype headset_event =
    On_Msg sm_msg
  | On_Wired wired_msg
  | On_BrOnline bool

fun headset_do :: "headset_env \<Rightarrow> headset_event \<Rightarrow> headset \<Rightarrow> headset_error + headset" where
  "headset_do e (On_Msg m) s = headsetSmHandleMessage e m s"
| "headset_do e (On_Wired m) s = headsetWiredAudioController_HandleMessage e m s"
| "headset_do e (On_BrOnline b) s = Inr (headsetSmOnWisunBrOnlineChanged e b s)"

type_synonym sm_pending = "sm_id \<Rightarrow> nat"

fun sm_apply :: "sm_call \<Rightarrow> sm_pending \<Rightarrow> sm_pending" where
  "sm_apply (Sm_SendLater m d) q = q(m := Suc (q m))"
| "sm_apply (Sm_SendConditionally m) q = q(m := Suc (q m))"
| "sm_apply (Sm_CancelAll m) q = q(m := 0)"
| "sm_apply (Sm_CancelFirst m) q = q(m := q m - 1)"
| "sm_apply _ q = q"

fun event_sm :: "headset_event \<Rightarrow> sm_id option" where
  "event_sm (On_Msg (Sm m)) = Some m"
| "event_sm _ = None"

definition sm_deliver :: "headset_event \<Rightarrow> sm_pending \<Rightarrow> sm_pending" where
  "sm_deliver ev q = (case event_sm ev of Some m \<Rightarrow> q(m := q m - 1) | None \<Rightarrow> q)"

definition sm_pend :: "sm_pending \<Rightarrow> sm_id \<Rightarrow> headset \<Rightarrow> nat" where
  "sm_pend q m s = fold sm_apply (hs_out s) q m"

text \<open>Whether the helmet is powered after the calls made so far.\<close>

fun power_apply :: "sm_call \<Rightarrow> bool \<Rightarrow> bool" where
  "power_apply Call_PowerOn p = True"
| "power_apply Call_PowerOff p = False"
| "power_apply Call_PowerSave p = False"
| "power_apply (Call_UiRefresh n) p = (n = 3 \<or> n = 4 \<or> n = 5 \<or> n = 6)"
| "power_apply _ p = p"

definition power_after :: "bool \<Rightarrow> headset \<Rightarrow> bool" where
  "power_after p s = fold power_apply (hs_out s) p"

lemma sm_emit_fields [simp]:
  "hs_state (sm_emit cs s) = hs_state s" "disconnect_lock (sm_emit cs s) = disconnect_lock s"
  "user_pairing (sm_emit cs s) = user_pairing s" "auto_poweron (sm_emit cs s) = auto_poweron s"
  "limbo_charge_event (sm_emit cs s) = limbo_charge_event s" "limbo_charge_led (sm_emit cs s) = limbo_charge_led s"
  "limbo_charge_high (sm_emit cs s) = limbo_charge_high s" "limbo_soc_registered (sm_emit cs s) = limbo_soc_registered s"
  "pause_wired_controller (sm_emit cs s) = pause_wired_controller s" "wired_connected (sm_emit cs s) = wired_connected s"
  "hs_out (sm_emit cs s) = hs_out s @ cs"
  by (simp_all add: sm_emit_def)

lemma sm_pend_emit [simp]: "sm_pend q m (sm_emit cs s) = fold sm_apply cs (\<lambda>m. sm_pend q m s) m"
  by (simp add: sm_pend_def)

lemma power_after_emit [simp]: "power_after p (sm_emit cs s) = fold power_apply cs (power_after p s)"
  by (simp add: power_after_def)

text \<open>Both depend only on the calls.\<close>

lemma sm_calls_cong:
  assumes "hs_out s' = hs_out s"
  shows "sm_pend q m s' = sm_pend q m s" "power_after p s' = power_after p s"
  using assms by (simp_all add: sm_pend_def power_after_def)

lemma sm_calls_upd [simp]:
  "sm_pend q m (s\<lparr>hs_state := a\<rparr>) = sm_pend q m s" "power_after p (s\<lparr>hs_state := a\<rparr>) = power_after p s"
  "sm_pend q m (s\<lparr>disconnect_lock := b\<rparr>) = sm_pend q m s" "power_after p (s\<lparr>disconnect_lock := b\<rparr>) = power_after p s"
  "sm_pend q m (s\<lparr>user_pairing := b\<rparr>) = sm_pend q m s" "power_after p (s\<lparr>user_pairing := b\<rparr>) = power_after p s"
  "sm_pend q m (s\<lparr>auto_poweron := b\<rparr>) = sm_pend q m s" "power_after p (s\<lparr>auto_poweron := b\<rparr>) = power_after p s"
  "sm_pend q m (s\<lparr>limbo_charge_event := c\<rparr>) = sm_pend q m s" "power_after p (s\<lparr>limbo_charge_event := c\<rparr>) = power_after p s"
  "sm_pend q m (s\<lparr>limbo_charge_led := l\<rparr>) = sm_pend q m s" "power_after p (s\<lparr>limbo_charge_led := l\<rparr>) = power_after p s"
  "sm_pend q m (s\<lparr>limbo_charge_high := b\<rparr>) = sm_pend q m s" "power_after p (s\<lparr>limbo_charge_high := b\<rparr>) = power_after p s"
  "sm_pend q m (s\<lparr>limbo_soc_registered := b\<rparr>) = sm_pend q m s"
  "power_after p (s\<lparr>limbo_soc_registered := b\<rparr>) = power_after p s"
  "sm_pend q m (s\<lparr>wired_connected := b\<rparr>) = sm_pend q m s"
  "power_after p (s\<lparr>wired_connected := b\<rparr>) = power_after p s"
  "sm_pend q m (s\<lparr>pause_wired_controller := b\<rparr>) = sm_pend q m s"
  "power_after p (s\<lparr>pause_wired_controller := b\<rparr>) = power_after p s"
  by (simp_all add: sm_pend_def power_after_def)

section \<open>The invariant\<close>

definition on_state :: "headset_state \<Rightarrow> bool" where
  "on_state st \<longleftrightarrow> st = HEADSET_STATE_POWERING_ON \<or> st = HEADSET_STATE_PAIRING \<or> st = HEADSET_STATE_IDLE \<or>
     st = HEADSET_STATE_BUSY"

text \<open>
  Both power-off timers are pending at most once and only in their state, the charge LED is only lit in
  limbo and then no power-off is due, a user pairing exists only in the pairing state, and the
  helmet is powered exactly in the four states of use.
\<close>

definition sm_inv :: "sm_pending \<Rightarrow> bool \<Rightarrow> headset \<Rightarrow> bool" where
  "sm_inv q p s \<longleftrightarrow>
     sm_pend q SM_INTERNAL_TIMEOUT_IDLE s \<le> (if hs_state s = HEADSET_STATE_IDLE then 1 else 0) \<and>
     sm_pend q SM_INTERNAL_TIMEOUT_LIMBO s \<le> (if hs_state s = HEADSET_STATE_LIMBO then 1 else 0) \<and>
     sm_pend q SM_INTERNAL_CHARGE_VBAT_LOG s \<le> 1 \<and>
     limbo_charge_led s \<in> {0, 1, 2} \<and>
     (limbo_charge_led s \<noteq> 0 \<longrightarrow> hs_state s = HEADSET_STATE_LIMBO \<and> sm_pend q SM_INTERNAL_TIMEOUT_LIMBO s = 0) \<and>
     (user_pairing s \<longrightarrow> hs_state s = HEADSET_STATE_PAIRING) \<and>
     (power_after p s \<longleftrightarrow> on_state (hs_state s))"

lemmas sm_timer_defs = headsetSMStartIdleTimer_def headsetSMStopIdleTimer_def idle_timer_if_needed_def
  headsetSmStartLimboTimer_def headsetSmStopLimboTimer_def headsetSmStartChargeVbatLog_def headsetSmStopChargeVbatLog_def

lemmas sm_condition_defs = headsetSmIsIdleTimerNeedToStart_def IsBtConnectionIdle_def headsetSmStateIsIdle_def

named_theorems sm_kept \<open>operations that keep the invariant of the state machine\<close>

text \<open>Calls that touch neither the timers of the invariant nor the power of the helmet.\<close>

fun neutral_call :: "sm_call \<Rightarrow> bool" where
  "neutral_call (Sm_SendLater m d) \<longleftrightarrow> m \<notin> {SM_INTERNAL_TIMEOUT_IDLE, SM_INTERNAL_TIMEOUT_LIMBO, SM_INTERNAL_CHARGE_VBAT_LOG}"
| "neutral_call (Sm_SendConditionally m) \<longleftrightarrow>
     m \<notin> {SM_INTERNAL_TIMEOUT_IDLE, SM_INTERNAL_TIMEOUT_LIMBO, SM_INTERNAL_CHARGE_VBAT_LOG}"
| "neutral_call (Sm_CancelAll m) \<longleftrightarrow> m \<notin> {SM_INTERNAL_TIMEOUT_IDLE, SM_INTERNAL_TIMEOUT_LIMBO, SM_INTERNAL_CHARGE_VBAT_LOG}"
| "neutral_call (Sm_CancelFirst m) \<longleftrightarrow>
     m \<notin> {SM_INTERNAL_TIMEOUT_IDLE, SM_INTERNAL_TIMEOUT_LIMBO, SM_INTERNAL_CHARGE_VBAT_LOG}"
| "neutral_call (Ext x) \<longleftrightarrow> True"
| "neutral_call Call_DisplayResume \<longleftrightarrow> True"
| "neutral_call Call_DisplayBlank \<longleftrightarrow> True"
| "neutral_call _ \<longleftrightarrow> False"

lemma neutral_pend:
  assumes "list_all neutral_call cs"
    and "m \<in> {SM_INTERNAL_TIMEOUT_IDLE, SM_INTERNAL_TIMEOUT_LIMBO, SM_INTERNAL_CHARGE_VBAT_LOG}"
  shows "fold sm_apply cs q m = q m"
  using assms(1)
proof (induction cs arbitrary: q)
  case (Cons c cs)
  have "sm_apply c q m = q m" using Cons.prems assms(2) by (cases c) auto
  with Cons show ?case by simp
qed simp

lemma neutral_power: "list_all neutral_call cs \<Longrightarrow> fold power_apply cs p = p"
proof (induction cs arbitrary: p)
  case (Cons c cs)
  then have "power_apply c p = p" by (cases c) auto
  with Cons show ?case by simp
qed simp

lemma emit_neutral [sm_kept]: "sm_inv q p s \<Longrightarrow> list_all neutral_call cs \<Longrightarrow> sm_inv q p (sm_emit cs s)"
  by (simp add: sm_inv_def neutral_pend neutral_power)

lemma sm_inv_upd [simp]:
  "sm_inv q p (s\<lparr>disconnect_lock := b\<rparr>) = sm_inv q p s" "sm_inv q p (s\<lparr>auto_poweron := b\<rparr>) = sm_inv q p s"
  "sm_inv q p (s\<lparr>limbo_charge_event := c\<rparr>) = sm_inv q p s" "sm_inv q p (s\<lparr>limbo_charge_high := b\<rparr>) = sm_inv q p s"
  "sm_inv q p (s\<lparr>limbo_soc_registered := b\<rparr>) = sm_inv q p s"
  "sm_inv q p (s\<lparr>wired_connected := b\<rparr>) = sm_inv q p s"
  "sm_inv q p (s\<lparr>pause_wired_controller := b\<rparr>) = sm_inv q p s"
  by (simp_all add: sm_inv_def)

lemma idle_if_needed_kept [sm_kept]: "sm_inv q p s \<Longrightarrow> sm_inv q p (idle_timer_if_needed e s)"
  by (cases "headsetSmIsIdleTimerNeedToStart e s")
    (auto simp: sm_inv_def sm_timer_defs sm_condition_defs split: if_splits)

lemma stop_idle_kept [sm_kept]: "sm_inv q p s \<Longrightarrow> sm_inv q p (headsetSMStopIdleTimer s)"
  by (simp add: sm_inv_def sm_timer_defs)

lemma refresh_kept [sm_kept]:
  "sm_inv q p s \<Longrightarrow> hs_state s = HEADSET_STATE_IDLE \<Longrightarrow> sm_inv q p (sm_emit [Call_UiRefresh 5] s)"
  by (simp add: sm_inv_def on_state_def)

section \<open>The charging indication\<close>

lemma test_disable_frame [simp]:
  "hs_state (charge_test_disable e s) = hs_state s" "limbo_charge_led (charge_test_disable e s) = limbo_charge_led s"
  "limbo_charge_high (charge_test_disable e s) = limbo_charge_high s"
  by (simp_all add: charge_test_disable_def)

lemma led_choice_kept:
  assumes "headsetSmLimboChargeLedChoice e s = (choice, s')"
  shows "choice \<in> {0, 1, 2, 3}" "hs_state s' = hs_state s" "limbo_charge_led s' = limbo_charge_led s"
    "sm_inv q p s \<Longrightarrow> sm_inv q p s'"
proof -
  have "sm_inv q p s \<Longrightarrow> sm_inv q p (charge_test_disable e s)" by (simp add: charge_test_disable_def emit_neutral)
  with assms show "choice \<in> {0, 1, 2, 3}" "hs_state s' = hs_state s" "limbo_charge_led s' = limbo_charge_led s"
    "sm_inv q p s \<Longrightarrow> sm_inv q p s'"
    by (auto simp: headsetSmLimboChargeLedChoice_def Let_def emit_neutral split: if_splits)
qed

lemma display_frame [simp]:
  "hs_state (limbo_charge_display e c s) = hs_state s"
  "limbo_charge_led (limbo_charge_display e c s) = limbo_charge_led s"
  "limbo_charge_event (limbo_charge_display e c s) = limbo_charge_event s"
  "user_pairing (limbo_charge_display e c s) = user_pairing s"
  by (simp_all add: limbo_charge_display_def headsetSmLogChargeVbat_def sm_timer_defs)

lemma display_kept [sm_kept]:
  "sm_inv q p s \<Longrightarrow> hs_state s = HEADSET_STATE_LIMBO \<Longrightarrow> sm_inv q p (limbo_charge_display e c s)"
  by (simp add: sm_inv_def on_state_def limbo_charge_display_def headsetSmLogChargeVbat_def sm_timer_defs
      SMART_HELMET_ENABLE_SSD1315_def)

lemma led_set_kept [sm_kept]:
  "sm_inv q p s \<Longrightarrow> hs_state s = HEADSET_STATE_LIMBO \<Longrightarrow> c \<in> {0, 1, 2, 3} \<Longrightarrow> sm_inv q p (limbo_charge_led_set e c s)"
  by (auto simp: sm_inv_def on_state_def limbo_charge_led_set_def sm_timer_defs Let_def)

lemma register_soc_frame [simp]:
  "hs_state (register_soc e s) = hs_state s" "limbo_charge_led (register_soc e s) = limbo_charge_led s"
  "limbo_charge_event (register_soc e s) = limbo_charge_event s" "limbo_charge_high (register_soc e s) = limbo_charge_high s"
  "sm_pend q m (register_soc e s) = sm_pend q m s"
  by (simp_all add: register_soc_def)

lemma apply_led_kept [sm_kept]:
  assumes "sm_inv q p s"
  shows "sm_inv q p (headsetSmApplyLimboChargeLed e s)"
proof (cases "hs_state s = HEADSET_STATE_LIMBO")
  case True
  obtain c s2 where c: "headsetSmLimboChargeLedChoice e (register_soc e s) = (c, s2)" by (meson surj_pair)
  have "sm_inv q p (register_soc e s)" using assms by (simp add: register_soc_def emit_neutral)
  then show ?thesis
    using True led_choice_kept [OF c] by (simp add: headsetSmApplyLimboChargeLed_def c display_kept led_set_kept)
qed (use assms in \<open>simp add: headsetSmApplyLimboChargeLed_def\<close>)

lemma led_set_state [simp]: "hs_state (limbo_charge_led_set e c s) = hs_state s"
  by (simp add: limbo_charge_led_set_def sm_timer_defs Let_def)

lemma apply_led_state [simp]: "hs_state (headsetSmApplyLimboChargeLed e s) = hs_state s"
proof -
  obtain c s2 where c: "headsetSmLimboChargeLedChoice e (register_soc e s) = (c, s2)" by (meson surj_pair)
  then show ?thesis using led_choice_kept(2) [OF c] by (simp add: headsetSmApplyLimboChargeLed_def)
qed

lemma note_charger_kept [sm_kept]: "sm_inv q p s \<Longrightarrow> sm_inv q p (headsetSmNoteChargerEvent e m s)"
  by (simp add: headsetSmNoteChargerEvent_def apply_led_kept)

section \<open>Changing the state\<close>

text \<open>After the exit action both power-off timers are withdrawn and the charge LED is off.\<close>

lemma exit_state_result:
  assumes "sm_inv q p (s\<lparr>user_pairing := False\<rparr>)" "exit_state e s = Inr s1"
  shows "sm_pend q SM_INTERNAL_TIMEOUT_IDLE s1 = 0" "sm_pend q SM_INTERNAL_TIMEOUT_LIMBO s1 = 0"
    "sm_pend q SM_INTERNAL_CHARGE_VBAT_LOG s1 \<le> 1" "limbo_charge_led s1 = 0"
    "user_pairing s1 \<longrightarrow> user_pairing s \<and> hs_state s \<noteq> HEADSET_STATE_PAIRING"
  using assms
  by (auto simp: exit_state_def sm_inv_def headsetExitLimbo_def headsetExitPairing_def headsetExitIdle_def
      headsetExitBusy_def headsetPrepareForBtAudio_def sm_timer_defs split: headset_state.splits if_splits)

lemma limbo_timer_kept [sm_kept]:
  "sm_inv q p s \<Longrightarrow> hs_state s = HEADSET_STATE_LIMBO \<Longrightarrow> limbo_charge_led s = 0 \<Longrightarrow>
   sm_inv q p (headsetSmStartLimboTimer s)"
  by (simp add: sm_inv_def sm_timer_defs)

lemma check_dfu_kept [sm_kept]: "sm_inv q p s \<Longrightarrow> sm_inv q p (headsetCheckDfu e s)"
  by (simp add: headsetCheckDfu_def Let_def emit_neutral)

lemma check_dfu_state [simp]: "hs_state (headsetCheckDfu e s) = hs_state s"
  by (simp add: headsetCheckDfu_def Let_def)

lemma start_limbo_state [simp]: "hs_state (headsetSmStartLimboTimer s) = hs_state s"
  by (simp add: sm_timer_defs)

lemma enter_limbo_kept [sm_kept]:
  "sm_inv q p s \<Longrightarrow> hs_state s = HEADSET_STATE_LIMBO \<Longrightarrow> limbo_charge_led s = 0 \<Longrightarrow> sm_inv q p (headsetEnterLimbo e s)"
  by (simp add: headsetEnterLimbo_def Let_def limbo_timer_kept apply_led_kept check_dfu_kept emit_neutral)

lemma ps_store_neutral: "list_all neutral_call (concat (map (\<lambda>i. [Ext (f i), Ext (g i)]) xs))"
  by (induction xs) simp_all

lemma enter_kept:
  assumes "sm_inv q p s" "limbo_charge_led s = 0" "sm_pend q SM_INTERNAL_TIMEOUT_LIMBO s = 0" "enter_state e s = Inr s'"
  shows "sm_inv q p s' \<and> hs_state s' = hs_state s"
proof (cases "hs_state s")
  case HEADSET_STATE_LIMBO
  moreover have "hs_state (headsetEnterLimbo e s) = hs_state s"
    by (simp add: headsetEnterLimbo_def Let_def)
  ultimately show ?thesis using assms by (auto simp: enter_state_def enter_limbo_kept)
next
  case HEADSET_STATE_POWERING_ON
  then show ?thesis using assms by (auto simp: enter_state_def headsetEnterPoweringOn_def sm_inv_def on_state_def)
next
  case HEADSET_STATE_POWERING_OFF
  then show ?thesis using assms by (auto simp: enter_state_def headsetEnterPoweringOff_def sm_inv_def on_state_def)
next
  case HEADSET_STATE_IDLE
  moreover have "hs_state (idle_timer_if_needed e s) = hs_state s" by (simp add: sm_timer_defs)
  ultimately show ?thesis using assms
    by (auto simp: enter_state_def headsetEnterIdle_def idle_if_needed_kept emit_neutral)
next
  case HEADSET_STATE_BUSY
  then show ?thesis using assms
    by (auto simp: enter_state_def headsetEnterBusy_def headsetPrepareForWiredAudio_def
        HeadsetWiredAudioController_Disable_def emit_neutral)
qed (use assms in \<open>auto simp: enter_state_def headsetEnterFactoryReset_def headsetSmDeletePairingAndReset_def
    headsetSmClearPsStore_def headsetEnterPairing_def headsetEnterTerminating_def ps_store_neutral
    intro!: emit_neutral split: if_splits\<close>)

lemma set_state_kept:
  assumes "sm_inv q p (s\<lparr>user_pairing := False\<rparr>)"
    and "user_pairing s \<longrightarrow> hs_state s = HEADSET_STATE_PAIRING \<or> new = HEADSET_STATE_PAIRING"
    and "headsetSetState e new s = Inr s'"
  shows "sm_inv q p s' \<and> hs_state s' = new"
proof -
  obtain s1 where s1: "exit_state e s = Inr s1" using assms(3) by (cases "exit_state e s") (auto simp: headsetSetState_def)
  define s2 where "s2 = sm_emit [Call_UiRefresh (headset_state_num new)] (s1\<lparr>hs_state := new\<rparr>)"
  obtain s3 where s3: "enter_state e s2 = Inr s3"
    using assms(3) s1 by (cases "enter_state e s2") (auto simp: headsetSetState_def s2_def)
  note r = exit_state_result [OF assms(1) s1]
  have "headset_state_num new = 3 \<or> headset_state_num new = 4 \<or> headset_state_num new = 5 \<or> headset_state_num new = 6
      \<longleftrightarrow> on_state new"
    by (cases new) (simp_all add: on_state_def)
  with r assms(2) have "sm_inv q p s2" by (auto simp: s2_def sm_inv_def)
  moreover have "limbo_charge_led s2 = 0" "sm_pend q SM_INTERNAL_TIMEOUT_LIMBO s2 = 0" "hs_state s2 = new"
    using r by (simp_all add: s2_def)
  ultimately have "sm_inv q p s3 \<and> hs_state s3 = new" using enter_kept [OF _ _ _ s3] by simp
  moreover have "s' = sm_emit [Ext (Ui_InformContextChange (headsetSm_GetApplicationCurrentContext e s3))] s3"
    using assms(3) s1 s3 by (simp add: headsetSetState_def s2_def)
  ultimately show ?thesis by (simp add: emit_neutral)
qed

lemma inv_no_user: "sm_inv q p s \<Longrightarrow> sm_inv q p (s\<lparr>user_pairing := False\<rparr>)"
  by (simp add: sm_inv_def)

lemma set_state_inv:
  "sm_inv q p s \<Longrightarrow> headsetSetState e new s = Inr s' \<Longrightarrow> sm_inv q p s' \<and> hs_state s' = new"
  by (rule set_state_kept [OF inv_no_user]) (auto simp: sm_inv_def)

lemma set_state_panic:
  "headsetSetState e new s = Inl err \<longleftrightarrow>
     (if hs_state s = HEADSET_STATE_FACTORY_RESET then err = Panic_ExitFactoryReset
      else new = HEADSET_STATE_NULL \<and> err = Panic_EnterNull)"
proof (cases "exit_state e s")
  case (Inl a)
  then show ?thesis by (auto simp: headsetSetState_def exit_state_def split: headset_state.splits)
next
  case (Inr s1)
  then have "hs_state s \<noteq> HEADSET_STATE_FACTORY_RESET" by (auto simp: exit_state_def)
  with Inr show ?thesis by (cases new) (auto simp: headsetSetState_def enter_state_def)
qed

section \<open>Handlers\<close>

lemma sm_then_Inr: "sm_then r f = Inr s' \<longleftrightarrow> (\<exists>s1. r = Inr s1 \<and> f s1 = Inr s')"
  by (cases r) simp_all

lemma sm_then_Inl: "sm_then r f = Inl err \<longleftrightarrow> r = Inl err \<or> (\<exists>s1. r = Inr s1 \<and> f s1 = Inl err)"
  by (cases r) simp_all

lemma ui_input_kept [sm_kept]: "sm_inv q p s \<Longrightarrow> sm_inv q p (headsetSmHandleUiInput e i s)"
  by (cases i) (simp_all add: headsetSmHandlePowerOn_def headsetSmPowerOff_def headsetSmEnableMultipoint_def
      headsetSmDisableMultipoint_def emit_neutral)

lemma log_vbat_kept [sm_kept]: "sm_inv q p s \<Longrightarrow> sm_inv q p (headsetSmLogChargeVbat e s)"
  by (auto simp: headsetSmLogChargeVbat_def sm_timer_defs sm_inv_def)

lemma timeout_idle_kept [sm_kept]: "sm_inv q p s \<Longrightarrow> sm_inv q p (headsetSmHandleTimeoutIdle e s)"
  by (auto simp: headsetSmHandleTimeoutIdle_def headsetSmPowerOff_def emit_neutral) (simp add: sm_inv_def)

lemma stop_limbo_kept [sm_kept]: "sm_inv q p s \<Longrightarrow> sm_inv q p (headsetSmStopLimboTimer s)"
  by (simp add: sm_inv_def sm_timer_defs)

lemma save_kept [sm_kept]:
  "sm_inv q p s \<Longrightarrow> hs_state s = HEADSET_STATE_LIMBO \<Longrightarrow> sm_inv q p (sm_emit [Call_PowerSave, Ext x] s)"
  by (simp add: sm_inv_def on_state_def)

lemma timeout_limbo_kept [sm_kept]: "sm_inv q p s \<Longrightarrow> sm_inv q p (headsetSmHandleTimeoutLimbo e s)"
  by (simp add: headsetSmHandleTimeoutLimbo_def stop_limbo_kept save_kept)

lemma idle_state_kept [simp]:
  "hs_state (idle_timer_if_needed e s) = hs_state s" "hs_state (headsetSMStopIdleTimer s) = hs_state s"
  by (simp_all add: sm_timer_defs)

lemma quiet_handlers_kept [sm_kept]:
  assumes "sm_inv q p s"
  shows "sm_inv q p (headsetSmHandleAncUpdateStateEnableInd e s)" "sm_inv q p (headsetSmHandleAncUpdateStateDisableInd e s)"
    "sm_inv q p (headsetSmHandleLeakthroughStateInd e on s)" "sm_inv q p (headsetSmOnWisunBrOnlineChanged e b s)"
    "sm_inv q p (headsetSmHandleHandsetServiceConnectedInd s)" "sm_inv q p (headsetSmHandleHandsetServiceDisconnectedInd e s)"
    "sm_inv q p (headsetSmHandleInternalDeleteHandsets e s)" "sm_inv q p (headsetSmHandleInternalPowerOff s)"
    "sm_inv q p (headsetSmHandleInternalLinkDisconnectionComplete s)" "sm_inv q p (headsetSmLinkDisconnectionTimeout s)"
  using assms
  by (simp_all add: headsetSmHandleAncUpdateStateEnableInd_def headsetSmHandleAncUpdateStateDisableInd_def
      headsetSmHandleLeakthroughStateInd_def headsetSmOnWisunBrOnlineChanged_def headsetSmHandleHandsetServiceConnectedInd_def
      headsetSmHandleHandsetServiceDisconnectedInd_def headsetSmUpdateDisconnectingLink_def
      headsetSmHandleInternalDeleteHandsets_def headsetSmInitiateLinkDisconnection_def headsetSmDisconnectLink_def
      headsetSmHandleInternalPowerOff_def headsetSmHandleInternalLinkDisconnectionComplete_def headsetSmLinkDisconnectionTimeout_def
      headsetSmStateIsIdle_def Let_def stop_idle_kept idle_if_needed_kept refresh_kept emit_neutral)

lemma pairing_kept:
  assumes "headsetSetState e HEADSET_STATE_PAIRING ((sm_emit [Ext x, Ext y] s)\<lparr>user_pairing := b\<rparr>) = Inr s'"
    and "sm_inv q p s"
  shows "sm_inv q p s'"
  using set_state_kept [OF _ _ assms(1), of q p] inv_no_user [OF emit_neutral [OF assms(2), of "[Ext x, Ext y]"]] by simp

lemma audio_kept [sm_kept]: "sm_inv q p s \<Longrightarrow> audio_changed e s = Inr s' \<Longrightarrow> sm_inv q p s'"
  by (auto simp: audio_changed_def dest: set_state_inv split: if_splits)

lemma wired_kept [sm_kept]:
  "sm_inv q p s \<Longrightarrow> headsetSmWiredAudioConnected e s = Inr s' \<Longrightarrow> sm_inv q p s'"
  "sm_inv q p s \<Longrightarrow> headsetSmWiredAudioDisconnected e s = Inr s' \<Longrightarrow> sm_inv q p s'"
  by (auto simp: headsetSmWiredAudioConnected_def headsetSmWiredAudioDisconnected_def dest: set_state_inv split: if_splits)

lemma wired_enable_kept [sm_kept]: "sm_inv q p s \<Longrightarrow> HeadsetWiredAudioController_Enable e s = Inr s' \<Longrightarrow> sm_inv q p s'"
  by (auto simp: HeadsetWiredAudioController_Enable_def headsetWiredAudioController_HandleCurrentWiredStatus_def sm_then_Inr
      dest: wired_kept split: if_splits)

lemma stop_cfm_kept [sm_kept]: "sm_inv q p s \<Longrightarrow> headetSmHandleTopologyStopCfm e s = Inr s' \<Longrightarrow> sm_inv q p s'"
  by (auto simp: headetSmHandleTopologyStopCfm_def sm_then_Inr emit_neutral dest: set_state_inv wired_enable_kept split: if_splits)

lemma system_state_kept [sm_kept]:
  "sm_inv q p s \<Longrightarrow> headsetSmHandleSystemStateChange e old new s = Inr s' \<Longrightarrow> sm_inv q p s'"
  by (auto simp: headsetSmHandleSystemStateChange_def headsetSmHandleSystemSartedUpToLimbo_def headsetSmHandlePoweredOn_def
      dest: set_state_inv pairing_kept split: if_splits)

lemma charger_kept [sm_kept]: "sm_inv q p s \<Longrightarrow> sm_charger e m s = Inr s' \<Longrightarrow> sm_inv q p s'"
  by (cases m) (auto simp: charger_to_limbo_def headsetSmHandleChargerMessageDetached_def sm_then_Inr note_charger_kept
      dest: set_state_inv split: if_splits)

lemma internal_kept [sm_kept]: "sm_inv q p s \<Longrightarrow> sm_internal e m s = Inr s' \<Longrightarrow> sm_inv q p s'"
  by (cases m) (auto simp: headsetSmHandleInternalFactoryReset_def headsetSmHandleInternalPairHandset_def
      quiet_handlers_kept timeout_idle_kept timeout_limbo_kept log_vbat_kept emit_neutral
      dest: set_state_inv pairing_kept split: if_splits)

lemma pair_confirm_kept: "sm_inv q p s \<Longrightarrow> headsetSmHandlePairingPairConfirm e s = Inr s' \<Longrightarrow> sm_inv q p s'"
  using set_state_inv [OF emit_neutral, of q p s "[Ext WiredAudioSource_StartMonitoring, Ext HeadsetUsb_AudioEnable]"
      e HEADSET_STATE_IDLE s']
  by (auto simp: headsetSmHandlePairingPairConfirm_def split: if_splits)

lemma handset_dis_kept: "sm_inv q p s \<Longrightarrow> headsetSmHandleStereoTopologyHandsetDisInd e st s = Inr s' \<Longrightarrow> sm_inv q p s'"
  by (auto simp: headsetSmHandleStereoTopologyHandsetDisInd_def emit_neutral dest: set_state_inv split: if_splits)

lemma shutdown_kept: "sm_inv q p s \<Longrightarrow> headsetSmHandlePowerShutdownPrepareInd e s = Inr s' \<Longrightarrow> sm_inv q p s'"
  by (auto simp: headsetSmHandlePowerShutdownPrepareInd_def emit_neutral dest: set_state_inv split: if_splits)

lemma telephony_kept: "sm_inv q p s \<Longrightarrow> telephony_changed e b usb s = Inr s' \<Longrightarrow> sm_inv q p s'"
  by (auto simp: telephony_changed_def sm_then_Inr emit_neutral dest: audio_kept)

lemma message_kept: "sm_inv q p s \<Longrightarrow> headsetSmHandleMessage e m s = Inr s' \<Longrightarrow> sm_inv q p s'"
  by (cases m) (auto simp: ui_input_kept quiet_handlers_kept apply_led_kept emit_neutral
      dest: telephony_kept pair_confirm_kept handset_dis_kept shutdown_kept audio_kept stop_cfm_kept system_state_kept
        charger_kept internal_kept)

lemma headset_do_kept: "sm_inv q p s \<Longrightarrow> headset_do e ev s = Inr s' \<Longrightarrow> sm_inv q p s'"
proof (cases ev)
  case (On_Wired m)
  then show "sm_inv q p s \<Longrightarrow> headset_do e ev s = Inr s' \<Longrightarrow> sm_inv q p s'"
    by (cases m) (auto simp: headsetWiredAudioController_HandleMessage_def dest: wired_kept split: if_splits)
qed (auto simp: quiet_handlers_kept dest: message_kept)

section \<open>Histories\<close>

text \<open>
  One message: it is taken from the pending ones if it is one of the machine's own, the handler runs,
  and the posts and withdrawals it made are replayed.
\<close>

definition headset_step :: "headset_env \<Rightarrow> headset_event \<Rightarrow> headset \<times> sm_pending \<Rightarrow> headset_error + headset \<times> sm_pending" where
  "headset_step e ev x = (case headset_do e ev ((fst x)\<lparr>hs_out := []\<rparr>) of
     Inl err \<Rightarrow> Inl err
   | Inr s \<Rightarrow> Inr (s, \<lambda>m. sm_pend (sm_deliver ev (snd x)) m s))"

definition headset_start :: "headset_env \<Rightarrow> headset \<times> sm_pending" where
  "headset_start e = (let s = HeadsetWiredAudioController_Init (headsetSmInit e headset_boot) in (s, \<lambda>m. sm_pend (\<lambda>_. 0) m s))"

definition sm_possible :: "headset_event \<Rightarrow> sm_pending \<Rightarrow> bool" where
  "sm_possible ev q \<longleftrightarrow> (case event_sm ev of Some m \<Rightarrow> 0 < q m | None \<Rightarrow> True)"

inductive headset_reach :: "headset \<times> sm_pending \<Rightarrow> bool" where
  start: "headset_reach (headset_start e)"
| step: "headset_reach x \<Longrightarrow> sm_possible ev (snd x) \<Longrightarrow> headset_step e ev x = Inr y \<Longrightarrow> headset_reach y"

text \<open>The invariant between two messages.\<close>

definition headset_inv :: "headset \<times> sm_pending \<Rightarrow> bool" where
  "headset_inv x \<longleftrightarrow> sm_inv (snd x) (on_state (hs_state (fst x))) ((fst x)\<lparr>hs_out := []\<rparr>)"

lemma headset_inv_timers:
  assumes "headset_inv (s, q)"
  shows "q SM_INTERNAL_TIMEOUT_IDLE \<le> (if hs_state s = HEADSET_STATE_IDLE then 1 else 0)"
    "q SM_INTERNAL_TIMEOUT_LIMBO \<le> (if hs_state s = HEADSET_STATE_LIMBO then 1 else 0)"
  using assms by (auto simp: headset_inv_def sm_inv_def sm_pend_def split: if_splits)

lemma headset_start_inv: "headset_inv (headset_start e)"
  by (simp add: headset_inv_def headset_start_def HeadsetWiredAudioController_Init_def headsetSmInit_def headset_boot_def sm_inv_def sm_pend_def
      power_after_def on_state_def Let_def)

lemma sm_inv_deliver:
  "sm_inv q p (s\<lparr>hs_out := []\<rparr>) \<Longrightarrow> sm_inv (sm_deliver ev q) p (s\<lparr>hs_out := []\<rparr>)"
  by (auto simp: sm_inv_def sm_pend_def sm_deliver_def power_after_def split: option.split if_splits)

lemma sm_inv_settle:
  assumes "sm_inv q p s"
  shows "sm_inv (\<lambda>m. sm_pend q m s) (on_state (hs_state s)) (s\<lparr>hs_out := []\<rparr>)"
proof -
  have "sm_pend (\<lambda>m. sm_pend q m s) m (s\<lparr>hs_out := []\<rparr>) = sm_pend q m s" "power_after b (s\<lparr>hs_out := []\<rparr>) = b" for m b
    by (simp_all add: sm_pend_def power_after_def)
  with assms show ?thesis by (simp only: sm_inv_def headset.simps) simp
qed

lemma headset_step_inv:
  assumes "headset_inv x" "headset_step e ev x = Inr y"
  shows "headset_inv y" "power_after (on_state (hs_state (fst x))) (fst y) = on_state (hs_state (fst y))"
proof -
  obtain s where s: "headset_do e ev ((fst x)\<lparr>hs_out := []\<rparr>) = Inr s" "y = (s, \<lambda>m. sm_pend (sm_deliver ev (snd x)) m s)"
    using assms(2) by (auto simp: headset_step_def split: sum.splits)
  have i: "sm_inv (sm_deliver ev (snd x)) (on_state (hs_state (fst x))) s"
    using headset_do_kept [OF sm_inv_deliver s(1)] assms(1) by (simp add: headset_inv_def)
  then show "headset_inv y"
    by (simp add: headset_inv_def s(2) sm_inv_settle)
  show "power_after (on_state (hs_state (fst x))) (fst y) = on_state (hs_state (fst y))"
    using i by (simp add: s(2) sm_inv_def)
qed

lemma headset_reach_inv: "headset_reach x \<Longrightarrow> headset_inv x"
  by (induction rule: headset_reach.induct) (auto simp: headset_start_inv headset_step_inv)

section \<open>Panic\<close>

lemma core_state_not_null: "headsetSmIsActiveState (hs_state s) \<Longrightarrow> headsetSmDetermineCoreState e s \<noteq> HEADSET_STATE_NULL"
  by (simp add: headsetSmDetermineCoreState_def headsetSmIsActiveState_def)

definition sm_panics :: "headset_event \<Rightarrow> headset \<Rightarrow> headset_error \<Rightarrow> bool" where
  "sm_panics ev s err \<longleftrightarrow>
     hs_state s = HEADSET_STATE_FACTORY_RESET \<and> err = Panic_ExitFactoryReset \<or>
     hs_state s \<noteq> HEADSET_STATE_NULL \<and> err = Panic_StartedUp \<and>
     ev = On_Msg (SYSTEM_STATE_STATE_CHANGE system_state_starting_up system_state_limbo)"

lemma wired_panic:
  "headsetSmWiredAudioConnected e s \<noteq> Inl err" "headsetSmWiredAudioDisconnected e s \<noteq> Inl err"
  by (auto simp: headsetSmWiredAudioConnected_def headsetSmWiredAudioDisconnected_def set_state_panic)

lemma wired_enable_panic: "HeadsetWiredAudioController_Enable e s \<noteq> Inl err"
  by (auto simp: HeadsetWiredAudioController_Enable_def headsetWiredAudioController_HandleCurrentWiredStatus_def
      sm_then_Inl wired_panic)

lemma stop_cfm_panic: "headetSmHandleTopologyStopCfm e s \<noteq> Inl err"
  by (auto simp: headetSmHandleTopologyStopCfm_def sm_then_Inl set_state_panic wired_enable_panic)

lemma audio_panic: "audio_changed e s \<noteq> Inl err"
  by (auto simp: audio_changed_def set_state_panic headsetSmIsActiveState_def headsetSmDetermineCoreState_def split: if_splits)

lemma charger_panic: "sm_charger e m s \<noteq> Inl err"
  by (cases m) (auto simp: charger_to_limbo_def sm_then_Inl set_state_panic split: if_splits)

lemma system_state_panic:
  "headsetSmHandleSystemStateChange e old new s = Inl err \<Longrightarrow>
   sm_panics (On_Msg (SYSTEM_STATE_STATE_CHANGE old new)) s err"
  by (auto simp: headsetSmHandleSystemStateChange_def headsetSmHandleSystemSartedUpToLimbo_def headsetSmHandlePoweredOn_def
      set_state_panic sm_panics_def split: if_splits)

lemma internal_panic:
  "sm_internal e m s = Inl err \<Longrightarrow> hs_state s = HEADSET_STATE_FACTORY_RESET \<and> err = Panic_ExitFactoryReset"
  by (cases m) (auto simp: headsetSmHandleInternalFactoryReset_def headsetSmHandleInternalPairHandset_def set_state_panic
      split: if_splits)

lemma headset_do_panic: "headset_do e ev s = Inl err \<Longrightarrow> sm_panics ev s err"
proof (cases ev)
  case (On_Msg m)
  then show "headset_do e ev s = Inl err \<Longrightarrow> sm_panics ev s err"
    by (cases m) (auto simp: stop_cfm_panic audio_panic charger_panic telephony_changed_def sm_then_Inl
        headsetSmHandlePairingPairConfirm_def headsetSmHandleStereoTopologyHandsetDisInd_def
        headsetSmHandlePowerShutdownPrepareInd_def set_state_panic sm_panics_def
        dest: system_state_panic internal_panic split: if_splits)
next
  case (On_Wired m)
  then show "headset_do e ev s = Inl err \<Longrightarrow> sm_panics ev s err"
    by (cases m) (auto simp: headsetWiredAudioController_HandleMessage_def wired_panic split: if_splits)
qed simp

end
