(* ===== verification/Headset_Behaviour.thy ===== *)
theory Headset_Behaviour
  imports Headset_Safety
begin

text \<open>
  What the application state machine does over several messages: when it asks for power-off, the automatic
  power-off after the network is lost, the hysteresis of the charge LED, and the limbo timer that is not
  started again after a cable was attached without charging.
\<close>

section \<open>Who asks for power-off\<close>

fun rare_call :: "sm_call \<Rightarrow> bool" where
  "rare_call (Ext appPowerOffRequest) \<longleftrightarrow> True"
| "rare_call (Ext SystemState_PowerOff) \<longleftrightarrow> True"
| "rare_call (Sm_SendLater m d) \<longleftrightarrow> m = SM_INTERNAL_POWER_OFF"
| "rare_call _ \<longleftrightarrow> False"

definition rare :: "headset \<Rightarrow> sm_call list" where
  "rare s = filter rare_call (hs_out s)"

lemma rare_emit [simp]: "rare (sm_emit cs s) = rare s @ filter rare_call cs"
  by (simp add: rare_def)

lemma rare_upd [simp]:
  "rare (s\<lparr>hs_state := a\<rparr>) = rare s" "rare (s\<lparr>disconnect_lock := b\<rparr>) = rare s" "rare (s\<lparr>user_pairing := b\<rparr>) = rare s"
  "rare (s\<lparr>auto_poweron := b\<rparr>) = rare s" "rare (s\<lparr>limbo_charge_event := c\<rparr>) = rare s"
  "rare (s\<lparr>limbo_charge_led := l\<rparr>) = rare s" "rare (s\<lparr>limbo_charge_high := b\<rparr>) = rare s"
  "rare (s\<lparr>limbo_soc_registered := b\<rparr>) = rare s" "rare (s\<lparr>wired_connected := b\<rparr>) = rare s"
  "rare (s\<lparr>pause_wired_controller := b\<rparr>) = rare s" "rare (s\<lparr>hs_out := []\<rparr>) = []"
  by (simp_all add: rare_def)

lemma rare_timers [simp]:
  "rare (idle_timer_if_needed e s) = rare s" "rare (headsetSMStopIdleTimer s) = rare s"
  "rare (headsetSmStartLimboTimer s) = rare s" "rare (headsetSmStopLimboTimer s) = rare s"
  "rare (headsetSmLogChargeVbat e s) = rare s"
  by (simp_all add: sm_timer_defs headsetSmLogChargeVbat_def)

lemma rare_apply_led [simp]: "rare (headsetSmApplyLimboChargeLed e s) = rare s"
proof -
  obtain c s2 where c: "headsetSmLimboChargeLedChoice e (register_soc e s) = (c, s2)" by (meson surj_pair)
  have "rare (register_soc e s) = rare s" by (simp add: register_soc_def)
  moreover have "rare s2 = rare (register_soc e s)"
    using c by (auto simp: headsetSmLimboChargeLedChoice_def charge_test_disable_def Let_def split: if_splits)
  ultimately show ?thesis
    by (simp add: headsetSmApplyLimboChargeLed_def c limbo_charge_led_set_def limbo_charge_display_def
        headsetSmStopChargeVbatLog_def SMART_HELMET_ENABLE_SSD1315_def Let_def)
qed

lemma rare_ps_store: "filter rare_call (concat (map (\<lambda>i. [Ext (PsStore (f i)), Ext (PsStore (g i))]) xs)) = []"
  by (induction xs) simp_all

lemma rare_exit: "exit_state e s = Inr s' \<Longrightarrow> rare s' = rare s"
  by (auto simp: exit_state_def headsetExitLimbo_def headsetExitPairing_def headsetExitIdle_def headsetExitBusy_def
      headsetPrepareForBtAudio_def split: headset_state.splits if_splits)

lemma rare_enter: "enter_state e s = Inr s' \<Longrightarrow> rare s' = rare s"
  by (cases "hs_state s") (auto simp: enter_state_def headsetEnterLimbo_def headsetCheckDfu_def headsetEnterPoweringOn_def
      headsetEnterPoweringOff_def headsetEnterFactoryReset_def headsetSmDeletePairingAndReset_def headsetSmClearPsStore_def
      headsetEnterIdle_def headsetEnterBusy_def headsetPrepareForWiredAudio_def HeadsetWiredAudioController_Disable_def
      headsetEnterPairing_def headsetEnterTerminating_def rare_ps_store Let_def)

lemma rare_set_state: "headsetSetState e new s = Inr s' \<Longrightarrow> rare s' = rare s"
  by (auto simp: headsetSetState_def sm_then_Inr dest!: rare_exit rare_enter)

lemma rare_wired:
  "headsetSmWiredAudioConnected e s = Inr s' \<Longrightarrow> rare s' = rare s"
  "headsetSmWiredAudioDisconnected e s = Inr s' \<Longrightarrow> rare s' = rare s"
  "HeadsetWiredAudioController_Enable e s = Inr s' \<Longrightarrow> rare s' = rare s"
  by (auto simp: headsetSmWiredAudioConnected_def headsetSmWiredAudioDisconnected_def HeadsetWiredAudioController_Enable_def
      headsetWiredAudioController_HandleCurrentWiredStatus_def sm_then_Inr dest: rare_set_state split: if_splits)

lemma rare_audio: "audio_changed e s = Inr s' \<Longrightarrow> rare s' = rare s"
  by (auto simp: audio_changed_def dest: rare_set_state split: if_splits)

lemma rare_system_state: "headsetSmHandleSystemStateChange e old new s = Inr s' \<Longrightarrow> rare s' = rare s"
  by (auto simp: headsetSmHandleSystemStateChange_def headsetSmHandleSystemSartedUpToLimbo_def headsetSmHandlePoweredOn_def
      dest: rare_set_state split: if_splits)

lemma rare_charger: "sm_charger e m s = Inr s' \<Longrightarrow> rare s' = rare s"
  by (cases m) (auto simp: charger_to_limbo_def headsetSmHandleChargerMessageDetached_def headsetSmNoteChargerEvent_def
      sm_then_Inr dest: rare_set_state split: if_splits)

text \<open>What a step does towards power-off.\<close>

definition asks_off :: "headset_env \<Rightarrow> headset_event \<Rightarrow> headset \<Rightarrow> sm_call list" where
  "asks_off e ev s =
     (if ev = On_Msg (Sm SM_INTERNAL_TIMEOUT_LIMBO) \<and> hs_state s = HEADSET_STATE_LIMBO \<and> \<not> q_charger_connected e \<and>
         \<not> charge_cable_event (limbo_charge_event s)
      then [Ext appPowerOffRequest]
      else if ev = On_Msg STEREO_TOPOLOGY_STOP_CFM \<and> hs_state s = HEADSET_STATE_POWERING_OFF then [Ext appPowerOffRequest]
      else if ev = On_Msg (Ui_Input ui_input_sm_power_off) then [Sm_SendLater SM_INTERNAL_POWER_OFF 0]
      else if ev = On_Msg (Sm SM_INTERNAL_TIMEOUT_IDLE) \<and> hs_state s = HEADSET_STATE_IDLE \<and> \<not> q_handset_connected e \<and>
         \<not> q_br_online e then [Sm_SendLater SM_INTERNAL_POWER_OFF 0]
      else if ev = On_Msg (Sm SM_INTERNAL_POWER_OFF) \<and> headset_state_num (hs_state s) > headset_state_num HEADSET_STATE_LIMBO
      then [Ext SystemState_PowerOff]
      else [])"

lemma rare_ui: "rare (headsetSmHandleUiInput e i s) = rare s @ asks_off e (On_Msg (Ui_Input i)) s"
  by (cases i) (simp_all add: asks_off_def headsetSmHandlePowerOn_def headsetSmPowerOff_def headsetSmEnableMultipoint_def
      headsetSmDisableMultipoint_def)

lemma rare_internal: "sm_internal e m s = Inr s' \<Longrightarrow> rare s' = rare s @ asks_off e (On_Msg (Sm m)) s"
  by (cases m) (auto simp: asks_off_def headsetSmHandleInternalFactoryReset_def headsetSmHandleInternalPairHandset_def
      headsetSmHandleInternalDeleteHandsets_def headsetSmInitiateLinkDisconnection_def headsetSmDisconnectLink_def
      headsetSmHandleInternalPowerOff_def headsetSmHandleTimeoutIdle_def headsetSmHandleTimeoutLimbo_def headsetSmPowerOff_def
      headsetSmHandleInternalLinkDisconnectionComplete_def headsetSmLinkDisconnectionTimeout_def
      dest!: rare_set_state split: if_splits)

lemma rare_stop_cfm:
  "headetSmHandleTopologyStopCfm e s = Inr s' \<Longrightarrow> rare s' = rare s @ asks_off e (On_Msg STEREO_TOPOLOGY_STOP_CFM) s"
  by (auto simp: asks_off_def headetSmHandleTopologyStopCfm_def sm_then_Inr dest!: rare_set_state rare_wired split: if_splits)

lemma rare_message: "headsetSmHandleMessage e m s = Inr s' \<Longrightarrow> rare s' = rare s @ asks_off e (On_Msg m) s"
proof (cases m)
  case (Ui_Input i)
  then show "headsetSmHandleMessage e m s = Inr s' \<Longrightarrow> rare s' = rare s @ asks_off e (On_Msg m) s" by (auto simp: rare_ui)
next
  case (Sm i)
  then show "headsetSmHandleMessage e m s = Inr s' \<Longrightarrow> rare s' = rare s @ asks_off e (On_Msg m) s" by (simp add: rare_internal)
next
  case STEREO_TOPOLOGY_STOP_CFM
  then show "headsetSmHandleMessage e m s = Inr s' \<Longrightarrow> rare s' = rare s @ asks_off e (On_Msg m) s" by (simp add: rare_stop_cfm)
qed (auto simp: asks_off_def headsetSmHandleAncUpdateStateEnableInd_def headsetSmHandleAncUpdateStateDisableInd_def
    headsetSmHandleLeakthroughStateInd_def headsetSmHandleHandsetServiceConnectedInd_def
    headsetSmHandleHandsetServiceDisconnectedInd_def headsetSmUpdateDisconnectingLink_def telephony_changed_def sm_then_Inr
    headsetSmHandlePairingPairConfirm_def headsetSmHandleStereoTopologyHandsetDisInd_def
    headsetSmHandlePowerShutdownPrepareInd_def Let_def
    dest!: rare_set_state rare_audio rare_system_state rare_charger split: if_splits)

lemma rare_do: "headset_do e ev s = Inr s' \<Longrightarrow> rare s' = rare s @ asks_off e ev s"
proof (cases ev)
  case (On_Wired m)
  then show "headset_do e ev s = Inr s' \<Longrightarrow> rare s' = rare s @ asks_off e ev s"
    by (cases m) (auto simp: asks_off_def headsetWiredAudioController_HandleMessage_def dest!: rare_wired split: if_splits)
qed (auto simp: asks_off_def headsetSmOnWisunBrOnlineChanged_def dest: rare_message split: if_splits)

text \<open>C6: The application asks for power-off exactly when it should: a step requests it from the power manager
  only when the limbo timer runs out with no charging cable (neither seen by the charger nor in the last charger
  message) or when the topology has stopped in the powering-off state, and posts its own power-off only for the
  user or when the idle timer runs out with no handset connected and no border router online. The system itself is
  told to power off only for that posted message, and only in a state beyond limbo; nothing else the machine handles does
  any of the three, the removal of the cable included.\<close>

theorem power_off_asked_exactly:
  assumes "headset_step e ev x = Inr y"
  shows "(Ext appPowerOffRequest \<in> set (hs_out (fst y)) \<longleftrightarrow>
      (ev = On_Msg (Sm SM_INTERNAL_TIMEOUT_LIMBO) \<and> hs_state (fst x) = HEADSET_STATE_LIMBO \<and> \<not> q_charger_connected e \<and>
       limbo_charge_event (fst x) \<in> {CHARGER_MESSAGE_DETACHED, CHARGER_MESSAGE_DISABLED}) \<or>
      (ev = On_Msg STEREO_TOPOLOGY_STOP_CFM \<and> hs_state (fst x) = HEADSET_STATE_POWERING_OFF)) \<and>
    (Sm_SendLater SM_INTERNAL_POWER_OFF 0 \<in> set (hs_out (fst y)) \<longleftrightarrow>
      ev = On_Msg (Ui_Input ui_input_sm_power_off) \<or>
      (ev = On_Msg (Sm SM_INTERNAL_TIMEOUT_IDLE) \<and> hs_state (fst x) = HEADSET_STATE_IDLE \<and> \<not> q_handset_connected e \<and>
       \<not> q_br_online e)) \<and>
    (Ext SystemState_PowerOff \<in> set (hs_out (fst y)) \<longleftrightarrow>
      ev = On_Msg (Sm SM_INTERNAL_POWER_OFF) \<and>
      hs_state (fst x) \<notin> {HEADSET_STATE_NULL, HEADSET_STATE_FACTORY_RESET, HEADSET_STATE_LIMBO})"
proof -
  have r: "rare (fst y) = asks_off e ev (fst x)"
    using assms by (auto simp: headset_step_def asks_off_def dest!: rare_do split: sum.splits)
  have m: "c \<in> set (hs_out (fst y)) \<longleftrightarrow> c \<in> set (asks_off e ev (fst x))" if "rare_call c" for c
    using that by (simp add: r [symmetric] rare_def)
  have "limbo_charge_event (fst x) \<in> {CHARGER_MESSAGE_DETACHED, CHARGER_MESSAGE_DISABLED} \<longleftrightarrow>
      \<not> charge_cable_event (limbo_charge_event (fst x))"
    by (cases "limbo_charge_event (fst x)") (simp_all add: charge_cable_event_def)
  moreover have "headset_state_num (hs_state (fst x)) > headset_state_num HEADSET_STATE_LIMBO \<longleftrightarrow>
      hs_state (fst x) \<notin> {HEADSET_STATE_NULL, HEADSET_STATE_FACTORY_RESET, HEADSET_STATE_LIMBO}"
    by (cases "hs_state (fst x)") simp_all
  ultimately show ?thesis by (auto simp: m asks_off_def)
qed

definition quiet_headset :: headset_env where
  "quiet_headset = \<lparr>q_handset_connected = False, q_bredr_connected = False, q_handset_addr = False, q_addr_connected = False,
     q_any_bredr = False, q_paired = True, q_line_in = False, q_usb_connected = False, q_usb_enabled = False, q_anc = False,
     q_leakthrough = False, q_br_online = False, q_a2dp_streaming = False, q_av_paused = False, q_sco_active = False,
     q_charger_connected = False, q_soc = 60, q_soc_register = True, q_silent_commit = False,
     q_reboot_reason = REBOOT_REASON_NONE, q_reboot_active = False, q_multipoint = False, q_multipoint_now = False,
     q_bredr_handsets = 0, q_max_bredr = 1, q_tdl_size = 8\<rparr>"

theorem power_off_asked_exactly_witness:
  "\<exists>y. headset_step quiet_headset (On_Msg (Sm SM_INTERNAL_TIMEOUT_LIMBO))
         (headset_boot\<lparr>hs_state := HEADSET_STATE_LIMBO\<rparr>, \<lambda>_. 0) = Inr y \<and> Ext appPowerOffRequest \<in> set (hs_out (fst y))"
proof -
  obtain y where y: "headset_step quiet_headset (On_Msg (Sm SM_INTERNAL_TIMEOUT_LIMBO))
      (headset_boot\<lparr>hs_state := HEADSET_STATE_LIMBO\<rparr>, \<lambda>_. 0) = Inr y"
    by (simp add: headset_step_def)
  show ?thesis using power_off_asked_exactly [OF y] y by (simp add: quiet_headset_def headset_boot_def)
qed

section \<open>Several messages\<close>

fun headset_run :: "(headset_env \<times> headset_event) list \<Rightarrow> headset \<times> sm_pending \<Rightarrow> headset_error + headset \<times> sm_pending" where
  "headset_run [] x = Inr x"
| "headset_run ((e, ev) # evs) x = (case headset_step e ev x of Inl err \<Rightarrow> Inl err | Inr y \<Rightarrow> headset_run evs y)"

lemma headset_run_append:
  "headset_run (as @ bs) x = (case headset_run as x of Inl err \<Rightarrow> Inl err | Inr y \<Rightarrow> headset_run bs y)"
  by (induction as arbitrary: x) (auto split: sum.split)

text \<open>When the border router is lost in the idle state and nothing else keeps the helmet in use, the idle timer is
  set exactly once; its expiry posts the power-off message, and that message tells the system to power off.\<close>

theorem idle_power_off_after_loss:
  assumes "hs_state s = HEADSET_STATE_IDLE" and "headsetSmIsIdleTimerNeedToStart e s"
  shows "\<exists>y1 y2 y3. headset_run [(e, On_BrOnline False)] (s, q) = Inr y1 \<and> snd y1 SM_INTERNAL_TIMEOUT_IDLE = 1 \<and>
    headset_run [(e, On_BrOnline False), (e, On_Msg (Sm SM_INTERNAL_TIMEOUT_IDLE))] (s, q) = Inr y2 \<and>
    0 < snd y2 SM_INTERNAL_POWER_OFF \<and>
    headset_run [(e, On_BrOnline False), (e, On_Msg (Sm SM_INTERNAL_TIMEOUT_IDLE)), (e, On_Msg (Sm SM_INTERNAL_POWER_OFF))]
      (s, q) = Inr y3 \<and> Ext SystemState_PowerOff \<in> set (hs_out (fst y3))"
proof -
  let ?idle = SM_INTERNAL_TIMEOUT_IDLE
  obtain y1 where y1: "headset_step e (On_BrOnline False) (s, q) = Inr y1" "hs_state (fst y1) = HEADSET_STATE_IDLE"
      "snd y1 ?idle = 1"
    using assms by (simp add: headset_step_def headsetSmOnWisunBrOnlineChanged_def sm_timer_defs sm_condition_defs)
  obtain y2 where y2: "headset_step e (On_Msg (Sm ?idle)) y1 = Inr y2" "hs_state (fst y2) = HEADSET_STATE_IDLE"
      "0 < snd y2 SM_INTERNAL_POWER_OFF"
    using assms y1(2) by (simp add: headset_step_def headsetSmHandleTimeoutIdle_def headsetSmPowerOff_def sm_condition_defs)
  obtain y3 where y3: "headset_step e (On_Msg (Sm SM_INTERNAL_POWER_OFF)) y2 = Inr y3"
      "Ext SystemState_PowerOff \<in> set (hs_out (fst y3))"
    using y2(2) by (simp add: headset_step_def headsetSmHandleInternalPowerOff_def)
  show ?thesis
    by (rule exI [of _ y1], rule exI [of _ y2], rule exI [of _ y3]) (simp add: y1 y2 y3)
qed

theorem idle_power_off_after_loss_witness:
  "\<exists>y. headset_run [(quiet_headset, On_BrOnline False)] (headset_boot\<lparr>hs_state := HEADSET_STATE_IDLE\<rparr>, \<lambda>_. 0) = Inr y \<and>
     snd y SM_INTERNAL_TIMEOUT_IDLE = 1"
  using idle_power_off_after_loss [of "headset_boot\<lparr>hs_state := HEADSET_STATE_IDLE\<rparr>" quiet_headset "\<lambda>_. 0"]
  by (auto simp: quiet_headset_def sm_condition_defs IsWiredAudioActive_def)

section \<open>The charge LED\<close>

text \<open>While charging in limbo the LED follows the battery with hysteresis; the colour is stored twice.\<close>

lemma led_charging:
  assumes "hs_state s = HEADSET_STATE_LIMBO" "q_soc e \<le> 98"
    and "limbo_charge_event s \<in> {CHARGER_MESSAGE_CHARGING_OK, CHARGER_MESSAGE_CHARGING_LOW}"
  defines "high \<equiv> (if 95 \<le> q_soc e then True else if q_soc e \<le> 92 then False else limbo_charge_high s)"
  shows "limbo_charge_led (headsetSmApplyLimboChargeLed e s) = (if high then 2 else 1)"
    "limbo_charge_high (headsetSmApplyLimboChargeLed e s) = high"
    "limbo_charge_event (headsetSmApplyLimboChargeLed e s) = limbo_charge_event s"
proof -
  let ?s = "register_soc e s"
  have t: "charge_test_disable e ?s = ?s" using assms(2) by (simp add: charge_test_disable_def)
  have n: "\<not> headsetSmChargeCompleted e (limbo_charge_event s)" using assms(3) by (auto simp: headsetSmChargeCompleted_def)
  have c: "headsetSmLimboChargeLedChoice e ?s = (if high then 2 else 1, ?s\<lparr>limbo_charge_high := high\<rparr>)"
    using assms(3) n unfolding headsetSmLimboChargeLedChoice_def t Let_def high_def by simp
  have d: "limbo_charge_high (limbo_charge_display e k t) = limbo_charge_high t" for k t
    by (simp add: limbo_charge_display_def headsetSmLogChargeVbat_def sm_timer_defs)
  have f: "limbo_charge_led (limbo_charge_led_set e k t) = k" "limbo_charge_high (limbo_charge_led_set e k t) = limbo_charge_high t"
    "limbo_charge_event (limbo_charge_led_set e k t) = limbo_charge_event t" if "k = 1 \<or> k = 2" for k t
    using that by (auto simp: limbo_charge_led_set_def sm_timer_defs Let_def)
  show "limbo_charge_led (headsetSmApplyLimboChargeLed e s) = (if high then 2 else 1)"
    "limbo_charge_high (headsetSmApplyLimboChargeLed e s) = high"
    "limbo_charge_event (headsetSmApplyLimboChargeLed e s) = limbo_charge_event s"
    using assms(1) by (simp_all add: headsetSmApplyLimboChargeLed_def c f d)
qed

definition soc_updates :: "headset_env list \<Rightarrow> headset \<Rightarrow> headset" where
  "soc_updates es s = fold headsetSmApplyLimboChargeLed es s"

lemma soc_updates_state: "hs_state (soc_updates es s) = hs_state s"
  by (induction es arbitrary: s) (simp_all add: soc_updates_def)

lemma soc_updates_hold:
  assumes "hs_state s = HEADSET_STATE_LIMBO"
    and "limbo_charge_event s \<in> {CHARGER_MESSAGE_CHARGING_OK, CHARGER_MESSAGE_CHARGING_LOW}"
    and "limbo_charge_high s \<longleftrightarrow> limbo_charge_led s = 2" "limbo_charge_led s \<in> {1, 2}"
    and "\<forall>e\<in>set es. q_soc e \<le> 98 \<and> (if limbo_charge_led s = 2 then 93 \<le> q_soc e else q_soc e \<le> 94)"
  shows "limbo_charge_led (soc_updates es s) = limbo_charge_led s"
  using assms
proof (induction es arbitrary: s)
  case (Cons e es)
  let ?t = "headsetSmApplyLimboChargeLed e s"
  have e: "q_soc e \<le> 98" using Cons.prems(5) by simp
  note l = led_charging [OF Cons.prems(1) e Cons.prems(2)]
  have "limbo_charge_led ?t = limbo_charge_led s" "limbo_charge_high ?t \<longleftrightarrow> limbo_charge_led ?t = 2"
    using Cons.prems(3-5) by (auto simp: l split: if_splits)
  with Cons.IH [of ?t] Cons.prems show ?case by (simp add: soc_updates_def l(3))
qed (simp add: soc_updates_def)

text \<open>The charge LED has hysteresis. While charging in limbo (up to 98 percent) an update of 95 percent or more shows green, 92 or
  less shows yellow; a green LED stays green over any run of updates of at least 93 percent, a yellow one yellow over
  any run of at most 94.\<close>

theorem charge_led_hysteresis:
  assumes "hs_state s = HEADSET_STATE_LIMBO" and "q_soc e \<le> 98"
    and "limbo_charge_event s \<in> {CHARGER_MESSAGE_CHARGING_OK, CHARGER_MESSAGE_CHARGING_LOW}"
    and "\<forall>e'\<in>set es. q_soc e' \<le> 98"
  shows "(95 \<le> q_soc e \<and> (\<forall>e'\<in>set es. 93 \<le> q_soc e') \<longrightarrow> limbo_charge_led (soc_updates (e # es) s) = 2) \<and>
    (q_soc e \<le> 92 \<and> (\<forall>e'\<in>set es. q_soc e' \<le> 94) \<longrightarrow> limbo_charge_led (soc_updates (e # es) s) = 1)"
proof -
  let ?t = "headsetSmApplyLimboChargeLed e s"
  note l = led_charging [OF assms(1-3)]
  have "soc_updates (e # es) s = soc_updates es ?t" by (simp add: soc_updates_def)
  moreover have "hs_state ?t = HEADSET_STATE_LIMBO" using assms(1) by simp
  ultimately show ?thesis
    using soc_updates_hold [of ?t es] assms(3,4) by (auto simp: l)
qed

theorem charge_led_hysteresis_witness:
  "limbo_charge_led (soc_updates [quiet_headset\<lparr>q_soc := 95\<rparr>, quiet_headset\<lparr>q_soc := 93\<rparr>]
     (headset_boot\<lparr>hs_state := HEADSET_STATE_LIMBO, limbo_charge_event := CHARGER_MESSAGE_CHARGING_OK\<rparr>)) = 2"
  using charge_led_hysteresis [of "headset_boot\<lparr>hs_state := HEADSET_STATE_LIMBO, limbo_charge_event := CHARGER_MESSAGE_CHARGING_OK\<rparr>"
      "quiet_headset\<lparr>q_soc := 95\<rparr>" "[quiet_headset\<lparr>q_soc := 93\<rparr>]"] by simp

section \<open>The limbo timer\<close>

text \<open>The situation after the cable is gone: the LED is off and no timer is set.\<close>

definition limbo_stuck :: "headset \<times> sm_pending \<Rightarrow> bool" where
  "limbo_stuck x \<longleftrightarrow> hs_state (fst x) = HEADSET_STATE_LIMBO \<and> limbo_charge_led (fst x) = 0 \<and>
     limbo_charge_event (fst x) \<in> {CHARGER_MESSAGE_DETACHED, CHARGER_MESSAGE_DISABLED} \<and> snd x SM_INTERNAL_TIMEOUT_LIMBO = 0"

definition cable_out_event :: "headset_event \<Rightarrow> bool" where
  "cable_out_event ev \<longleftrightarrow> ev \<in> {On_Msg SOC_UPDATE_IND, On_Msg (Charger CHARGER_MESSAGE_DETACHED),
     On_Msg (Charger CHARGER_MESSAGE_DISABLED), On_Msg (Sm SM_INTERNAL_CHARGE_VBAT_LOG), On_Msg (Sm SM_INTERNAL_DUMMY_LOG)}"

lemma led_cable_out:
  assumes "hs_state s = HEADSET_STATE_LIMBO" "limbo_charge_led s = 0" "\<not> q_charger_connected e"
    and "limbo_charge_event s \<in> {CHARGER_MESSAGE_DETACHED, CHARGER_MESSAGE_DISABLED}"
  shows "limbo_charge_led (headsetSmApplyLimboChargeLed e s) = 0"
    "limbo_charge_event (headsetSmApplyLimboChargeLed e s) = limbo_charge_event s"
    "sm_pend q SM_INTERNAL_TIMEOUT_LIMBO (headsetSmApplyLimboChargeLed e s) = sm_pend q SM_INTERNAL_TIMEOUT_LIMBO s"
proof -
  let ?s = "register_soc e s"
  have n: "\<not> headsetSmChargeCompleted e (limbo_charge_event s)" "\<not> charge_cable_event (limbo_charge_event s)"
    using assms(3,4) by (auto simp: headsetSmChargeCompleted_def charge_cable_event_def)
  have t: "charge_test_disable e ?s = ?s" using assms(4) by (auto simp: charge_test_disable_def)
  have c: "headsetSmLimboChargeLedChoice e ?s = (0, ?s\<lparr>limbo_charge_high := False\<rparr>)"
    using assms(4) n unfolding headsetSmLimboChargeLedChoice_def t Let_def by auto
  show "limbo_charge_led (headsetSmApplyLimboChargeLed e s) = 0"
    "limbo_charge_event (headsetSmApplyLimboChargeLed e s) = limbo_charge_event s"
    "sm_pend q SM_INTERNAL_TIMEOUT_LIMBO (headsetSmApplyLimboChargeLed e s) = sm_pend q SM_INTERNAL_TIMEOUT_LIMBO s"
    using assms n by (simp_all add: headsetSmApplyLimboChargeLed_def c limbo_charge_led_set_def limbo_charge_display_def
        headsetSmStopChargeVbatLog_def SMART_HELMET_ENABLE_SSD1315_def)
qed

lemma apply_led_stuck:
  assumes "hs_state s = HEADSET_STATE_LIMBO" "limbo_charge_led s = 0" "\<not> q_charger_connected e" "hs_out s = []"
    and "limbo_charge_event s \<in> {CHARGER_MESSAGE_DETACHED, CHARGER_MESSAGE_DISABLED}" "q SM_INTERNAL_TIMEOUT_LIMBO = 0"
  shows "limbo_stuck (headsetSmApplyLimboChargeLed e s, \<lambda>m. sm_pend q m (headsetSmApplyLimboChargeLed e s))"
  using led_cable_out [OF assms(1-3,5)] assms by (simp add: limbo_stuck_def) (simp add: sm_pend_def)

lemma limbo_stuck_step:
  assumes "limbo_stuck x" "cable_out_event ev" "\<not> q_charger_connected e"
  shows "\<exists>y. headset_step e ev x = Inr y \<and> limbo_stuck y"
proof -
  have x: "hs_state (fst x) = HEADSET_STATE_LIMBO" "limbo_charge_led (fst x) = 0" "snd x SM_INTERNAL_TIMEOUT_LIMBO = 0"
    "limbo_charge_event (fst x) \<in> {CHARGER_MESSAGE_DETACHED, CHARGER_MESSAGE_DISABLED}"
    using assms(1) by (simp_all add: limbo_stuck_def)
  have n: "\<not> charge_cable_event (limbo_charge_event (fst x))" using x(4) by (auto simp: charge_cable_event_def)
  have led: "limbo_stuck (headsetSmApplyLimboChargeLed e ((fst x)\<lparr>hs_out := [], limbo_charge_event := c\<rparr>),
      \<lambda>m. sm_pend (snd x) m (headsetSmApplyLimboChargeLed e ((fst x)\<lparr>hs_out := [], limbo_charge_event := c\<rparr>)))"
    if "c \<in> {CHARGER_MESSAGE_DETACHED, CHARGER_MESSAGE_DISABLED}" for c
    by (rule apply_led_stuck) (use x that assms(3) in simp_all)
  consider "ev = On_Msg SOC_UPDATE_IND" | "ev = On_Msg (Charger CHARGER_MESSAGE_DETACHED)"
    | "ev = On_Msg (Charger CHARGER_MESSAGE_DISABLED)" | "ev = On_Msg (Sm SM_INTERNAL_CHARGE_VBAT_LOG)"
    | "ev = On_Msg (Sm SM_INTERNAL_DUMMY_LOG)"
    using assms(2) by (auto simp: cable_out_event_def)
  then show ?thesis
  proof cases
    case 1
    then show ?thesis using led [OF x(4)] by (simp add: headset_step_def sm_deliver_def)
  next
    case 2
    then show ?thesis using led [of CHARGER_MESSAGE_DETACHED]
      by (simp add: headset_step_def sm_deliver_def headsetSmHandleChargerMessageDetached_def headsetSmNoteChargerEvent_def)
  next
    case 3
    then show ?thesis using led [of CHARGER_MESSAGE_DISABLED]
      by (simp add: headset_step_def sm_deliver_def headsetSmNoteChargerEvent_def)
  next
    case 4
    then show ?thesis using x assms(3) n
      by (simp add: headset_step_def sm_deliver_def headsetSmLogChargeVbat_def limbo_stuck_def sm_pend_def)
  next
    case 5
    then show ?thesis using x
      by (simp add: headset_step_def sm_deliver_def limbo_stuck_def) (simp add: sm_pend_def)
  qed
qed

lemma limbo_stuck_run:
  "limbo_stuck x \<Longrightarrow> \<forall>(e, ev)\<in>set evs. cable_out_event ev \<and> \<not> q_charger_connected e \<Longrightarrow>
   \<exists>y. headset_run evs x = Inr y \<and> limbo_stuck y"
proof (induction evs arbitrary: x)
  case (Cons a evs)
  obtain e ev where a: "a = (e, ev)" by (cases a)
  then obtain y where y: "headset_step e ev x = Inr y" "limbo_stuck y"
    using limbo_stuck_step [OF Cons.prems(1), of ev e] Cons.prems(2) by auto
  with Cons.IH [OF y(2)] Cons.prems(2) show ?case by (simp add: a)
qed simp

text \<open>C37: A lost power-off: when a cable is attached in limbo and reports no charging before the limbo timer runs out, the timer
  is withdrawn and the LED choice stays "off"; after the cable is pulled the choice has not changed, so the timer is
  not set again; and while the cable stays out, no number and order of state-of-charge updates, further \<^verbatim>\<open>DETACHED\<close> or \<^verbatim>\<open>DISABLED\<close> messages
  of the charger and log ticks sets it. The helmet stays awake on battery. (A cable that is attached again and charges changes
  the choice of the LED, so that its removal sets the timer.)\<close>

theorem limbo_timer_lost:
  assumes "hs_state s = HEADSET_STATE_LIMBO" and "limbo_charge_led s = 0"
    and "q_charger_connected e1" "q_soc e1 \<le> 98" and "q_charger_connected e2" and "\<not> q_charger_connected e3"
    and "\<forall>(e, ev)\<in>set evs. cable_out_event ev \<and> \<not> q_charger_connected e"
  shows "\<exists>y. headset_run ([(e1, On_Msg (Charger CHARGER_MESSAGE_ATTACHED)), (e2, On_Msg (Sm SM_INTERNAL_TIMEOUT_LIMBO)),
      (e3, On_Msg (Charger CHARGER_MESSAGE_DETACHED))] @ evs) (s, q) = Inr y \<and>
    hs_state (fst y) = HEADSET_STATE_LIMBO \<and> snd y SM_INTERNAL_TIMEOUT_LIMBO = 0"
proof -
  let ?a = "s\<lparr>hs_out := [], limbo_charge_event := CHARGER_MESSAGE_ATTACHED\<rparr>"
  let ?s1 = "headsetSmApplyLimboChargeLed e1 ?a"
  have c: "headsetSmLimboChargeLedChoice e1 (register_soc e1 ?a) = (3, register_soc e1 ?a)"
    using assms(4) by (simp add: headsetSmLimboChargeLedChoice_def charge_test_disable_def headsetSmChargeCompleted_def)
  have s1: "hs_state ?s1 = HEADSET_STATE_LIMBO" "limbo_charge_led ?s1 = 0" "limbo_charge_event ?s1 = CHARGER_MESSAGE_ATTACHED"
    using assms(1,2) by (simp_all add: headsetSmApplyLimboChargeLed_def c limbo_charge_led_set_def)
  obtain q1 where y1: "headset_step e1 (On_Msg (Charger CHARGER_MESSAGE_ATTACHED)) (s, q) = Inr (?s1, q1)"
    using assms(1) by (simp add: headset_step_def charger_to_limbo_def headsetSmNoteChargerEvent_def)
  obtain y2 where y2: "headset_step e2 (On_Msg (Sm SM_INTERNAL_TIMEOUT_LIMBO)) (?s1, q1) = Inr y2"
      "hs_state (fst y2) = HEADSET_STATE_LIMBO" "limbo_charge_led (fst y2) = 0" "snd y2 SM_INTERNAL_TIMEOUT_LIMBO = 0"
    using s1 assms(5) by (simp add: headset_step_def headsetSmHandleTimeoutLimbo_def headsetSmStopLimboTimer_def)
  let ?s3 = "headsetSmApplyLimboChargeLed e3 ((fst y2)\<lparr>hs_out := [], limbo_charge_event := CHARGER_MESSAGE_DETACHED\<rparr>)"
  have y3: "headset_step e3 (On_Msg (Charger CHARGER_MESSAGE_DETACHED)) y2 = Inr (?s3, \<lambda>m. sm_pend (snd y2) m ?s3)"
    by (simp add: headset_step_def headsetSmHandleChargerMessageDetached_def headsetSmNoteChargerEvent_def sm_deliver_def)
  have "limbo_stuck (?s3, \<lambda>m. sm_pend (snd y2) m ?s3)"
    by (rule apply_led_stuck) (use y2 assms(6) in simp_all)
  from limbo_stuck_run [OF this assms(7)] show ?thesis
    by (auto simp: headset_run_append y1 y2(1) y3 limbo_stuck_def)
qed

theorem limbo_timer_lost_witness:
  "\<exists>y. headset_run [(quiet_headset\<lparr>q_charger_connected := True\<rparr>, On_Msg (Charger CHARGER_MESSAGE_ATTACHED)),
      (quiet_headset\<lparr>q_charger_connected := True\<rparr>, On_Msg (Sm SM_INTERNAL_TIMEOUT_LIMBO)),
      (quiet_headset, On_Msg (Charger CHARGER_MESSAGE_DETACHED)), (quiet_headset, On_Msg SOC_UPDATE_IND)]
      (headset_boot\<lparr>hs_state := HEADSET_STATE_LIMBO\<rparr>, \<lambda>_. 1) = Inr y \<and> snd y SM_INTERNAL_TIMEOUT_LIMBO = 0"
proof -
  have s: "hs_state (headset_boot\<lparr>hs_state := HEADSET_STATE_LIMBO\<rparr>) = HEADSET_STATE_LIMBO"
    "limbo_charge_led (headset_boot\<lparr>hs_state := HEADSET_STATE_LIMBO\<rparr>) = 0"
    by (simp_all add: headset_boot_def)
  show ?thesis
    using limbo_timer_lost [OF s, of "quiet_headset\<lparr>q_charger_connected := True\<rparr>" "quiet_headset\<lparr>q_charger_connected := True\<rparr>"
        quiet_headset "[(quiet_headset, On_Msg SOC_UPDATE_IND)]" "\<lambda>_. 1"]
    by (auto simp: quiet_headset_def cable_out_event_def)
qed

section \<open>Panic\<close>

text \<open>The state machine panics only in two situations: a message that would leave the factory-reset state, and the start-up
  notification when it is already running. It never enters the initial state again.\<close>

theorem headset_panics_only:
  assumes "headset_step e ev x = Inl err"
  shows "hs_state (fst x) = HEADSET_STATE_FACTORY_RESET \<and> err = Panic_ExitFactoryReset \<or>
    hs_state (fst x) \<noteq> HEADSET_STATE_NULL \<and> err = Panic_StartedUp \<and>
    ev = On_Msg (SYSTEM_STATE_STATE_CHANGE system_state_starting_up system_state_limbo)"
  using assms headset_do_panic [of e ev "(fst x)\<lparr>hs_out := []\<rparr>" err]
  by (auto simp: headset_step_def sm_panics_def split: sum.splits)

theorem headset_panics_only_witness:
  "headset_step quiet_headset (On_Msg APP_POWER_SHUTDOWN_PREPARE_IND)
     (headset_boot\<lparr>hs_state := HEADSET_STATE_FACTORY_RESET\<rparr>, \<lambda>_. 0) = Inl Panic_ExitFactoryReset"
proof -
  obtain err where err: "headset_step quiet_headset (On_Msg APP_POWER_SHUTDOWN_PREPARE_IND)
      (headset_boot\<lparr>hs_state := HEADSET_STATE_FACTORY_RESET\<rparr>, \<lambda>_. 0) = Inl err"
    by (simp add: headset_step_def headsetSmHandlePowerShutdownPrepareInd_def headsetSetState_def exit_state_def)
  with headset_panics_only [OF err] show ?thesis by simp
qed

end
