(* ===== verification/Messages.thy ===== *)
theory Messages
  imports Helmet_Prelude
begin

text \<open>
  The message vocabulary of the helmet task. The firmware modules share one task
  (\<open>sh_task_data\<close>): every timer of every module is a message with its own id, posted with
  \<^verbatim>\<open>MessageSendLater\<close> and withdrawn with \<^verbatim>\<open>MessageCancelAll\<close>. Handlers of the model return
  the calls they make, in order; the pending messages are obtained by replaying the calls
  with the documented meaning of the two primitives (a post adds one pending message, a
  cancel removes every pending message with that id, a delivery consumes one).

  The locale \<open>rearming_timer\<close> states what a periodic handler promises (each delivery of
  its own tick re-posts it exactly once, no other message touches it) and derives that the
  module never loses its timer and never multiplies it.
\<close>

section \<open>Message ids\<close>

datatype helmet_msg =
    ADC_INTERNAL_TRIGGER
  | ADC_SENS_TRIGGER
  | I2C_PROBE_RETRY
  | LIS3DH_LOG_TICK
  | WISUN_LINK_CHECK
  | WISUN_RX_POLL
  | REPORT_TICK
  | MOTION_POLL

fun helmet_msg_id :: "helmet_msg \<Rightarrow> int" where
  "helmet_msg_id ADC_INTERNAL_TRIGGER = 0x5000"
| "helmet_msg_id ADC_SENS_TRIGGER = 0x5001"
| "helmet_msg_id I2C_PROBE_RETRY = 0x5100"
| "helmet_msg_id LIS3DH_LOG_TICK = 0x5101"
| "helmet_msg_id WISUN_LINK_CHECK = 0x5200"
| "helmet_msg_id WISUN_RX_POLL = 0x5201"
| "helmet_msg_id REPORT_TICK = 0x5300"
| "helmet_msg_id MOTION_POLL = 0x5301"

lemma helmet_msg_id_inj: "inj helmet_msg_id"
proof (rule injI)
  fix a b
  assume "helmet_msg_id a = helmet_msg_id b"
  then show "a = b" by (cases a; cases b) simp_all
qed

datatype adc_source =
    adcsel_vref_hq_buff
  | adcsel_led0
  | adcsel_led1
  | adcsel_led2
  | adcsel_led4
  | adcsel_other nat

text \<open>The messages that reach the task: timers, ADC results, UART stream notifications.\<close>

datatype message =
    Tick helmet_msg
  | MESSAGE_ADC_RESULT adc_source int
  | MESSAGE_MORE_DATA
  | MESSAGE_MORE_SPACE
  | MESSAGE_OTHER

section \<open>Pending timers\<close>

datatype timer_call =
    MessageSendLater helmet_msg int
  | MessageCancelAll helmet_msg

type_synonym pending = "helmet_msg \<Rightarrow> nat"

fun timer_apply :: "timer_call \<Rightarrow> pending \<Rightarrow> pending" where
  "timer_apply (MessageSendLater m d) q = q(m := Suc (q m))"
| "timer_apply (MessageCancelAll m) q = q(m := 0)"

definition timers_after :: "timer_call list \<Rightarrow> pending \<Rightarrow> pending" where
  "timers_after cs q = fold timer_apply cs q"

definition deliver :: "message \<Rightarrow> pending \<Rightarrow> pending" where
  "deliver e q = (case e of Tick m \<Rightarrow> q(m := q m - 1) | _ \<Rightarrow> q)"

lemma timers_after_simps [simp]:
  "timers_after [] q = q"
  "timers_after (c # cs) q = timers_after cs (timer_apply c q)"
  by (simp_all add: timers_after_def)

lemma timers_after_append [simp]:
  "timers_after (cs @ ds) q = timers_after ds (timers_after cs q)"
  by (simp add: timers_after_def)

fun timer_call_msg :: "timer_call \<Rightarrow> helmet_msg" where
  "timer_call_msg (MessageSendLater m d) = m"
| "timer_call_msg (MessageCancelAll m) = m"

lemma timers_after_other:
  "m \<notin> timer_call_msg ` set cs \<Longrightarrow> timers_after cs q m = q m"
proof (induction cs arbitrary: q)
  case (Cons c cs)
  then show ?case by (cases c) auto
qed simp

section \<open>The contract of a periodic handler\<close>

text \<open>Deliver a message, run its handler, replay the calls it made.\<close>

definition timed_step ::
  "('e \<Rightarrow> 's \<Rightarrow> 's \<times> timer_call list) \<Rightarrow> ('e \<Rightarrow> message) \<Rightarrow> 'e \<Rightarrow> 's \<times> pending \<Rightarrow> 's \<times> pending" where
  "timed_step handle msg_of e sq =
     (fst (handle e (fst sq)), timers_after (snd (handle e (fst sq))) (deliver (msg_of e) (snd sq)))"

definition timed_run ::
  "('e \<Rightarrow> 's \<Rightarrow> 's \<times> timer_call list) \<Rightarrow> ('e \<Rightarrow> message) \<Rightarrow> 'e list \<Rightarrow> 's \<times> pending \<Rightarrow> 's \<times> pending" where
  "timed_run handle msg_of es = fold (timed_step handle msg_of) es"

locale rearming_timer =
  fixes handle :: "'e \<Rightarrow> 's \<Rightarrow> 's \<times> timer_call list"
    and msg_of :: "'e \<Rightarrow> message"
    and ready :: "'s \<Rightarrow> bool"
    and tick :: helmet_msg
  assumes tick_once: "ready s \<Longrightarrow> msg_of e = Tick tick \<Longrightarrow> q tick = 0 \<Longrightarrow>
      timers_after (snd (handle e s)) q tick = 1"
    and other_quiet: "ready s \<Longrightarrow> msg_of e \<noteq> Tick tick \<Longrightarrow>
      timers_after (snd (handle e s)) q tick = q tick"
    and ready_kept: "ready s \<Longrightarrow> ready (fst (handle e s))"
begin

lemma post_keeps:
  assumes "ready s" and "q tick = 1"
  shows "ready (fst (handle e s)) \<and> timers_after (snd (handle e s)) (deliver (msg_of e) q) tick = 1"
proof (cases "msg_of e = Tick tick")
  case True
  then show ?thesis
    using tick_once [OF assms(1) True, of "deliver (msg_of e) q"] ready_kept [OF assms(1), of e] assms(2)
    by (simp add: deliver_def)
next
  case False
  then have "deliver (msg_of e) q tick = q tick" by (auto simp: deliver_def split: message.splits)
  with False show ?thesis
    using other_quiet [OF assms(1) False, of "deliver (msg_of e) q"] ready_kept [OF assms(1), of e] assms(2)
    by simp
qed

lemma run_keeps:
  "ready s \<Longrightarrow> q tick = 1 \<Longrightarrow> timed_run handle msg_of es (s, q) = (s', q') \<Longrightarrow> ready s' \<and> q' tick = 1"
proof (induction es arbitrary: s q)
  case (Cons e es)
  let ?q = "timers_after (snd (handle e s)) (deliver (msg_of e) q)"
  have "timed_run handle msg_of es (fst (handle e s), ?q) = (s', q')"
    using Cons.prems(3) by (simp add: timed_step_def timed_run_def)
  with post_keeps [of s q e] Cons.prems(1,2) Cons.IH show ?case by blast
qed (simp add: timed_run_def)

end

end
