(* ===== verification/Adc.thy ===== *)
theory Adc
  imports Vitals_Safety Messages
begin

text \<open>
  The ADC client (\<^verbatim>\<open>smart_helmet_adc.c\<close>): two cadences on one converter. The gas scan reads
  the four channels one after the other, each behind a reading of the reference; the SENS
  tick reads only the pulse channel. The default build gives the SENS grid priority
  (\<open>SMART_HELMET_ADC_SENS_PRIORITY\<close>): a tick that finds the converter busy is dropped and
  reported, never taken late, and the SENS reading of a gas scan is not fed to the vitals
  layer.

  State: the file statics. Results: the calls the code makes, in order. The delivery time
  (\<^verbatim>\<open>VmGetTimerTime()\<close>) is an argument.
\<close>

section \<open>State and calls\<close>

datatype adc_mode = adc_idle | adc_full | adc_sens

record adc =
  adc_task :: bool
  adc_index :: nat
  adc_mode :: adc_mode
  adc_vref_mv :: int
  adc_mv :: "int list"
  adc_valid :: "bool list"
  adc_sens_pending :: bool

datatype adc_call =
    Adc_Timer timer_call
  | AdcReadRequest adc_source
  | SensorsShowAdcMv int int int int
  | FeedVitalsSens int int
  | NoteSensDropped

definition sh_adc_sources :: "adc_source list" where
  "sh_adc_sources = [adcsel_led4, adcsel_led0, adcsel_led1, adcsel_led2]"

section \<open>Operations\<close>

definition shAdcRequestNextFull :: "adc \<Rightarrow> adc \<times> adc_call list" where
  "shAdcRequestNextFull a =
     (if adc_index a \<ge> 4 then
        (a\<lparr>adc_mode := adc_idle\<rparr>,
         [SensorsShowAdcMv (adc_mv a ! 0) (adc_mv a ! 1) (adc_mv a ! 2) (adc_mv a ! 3)])
      else (a, [AdcReadRequest adcsel_vref_hq_buff, AdcReadRequest (sh_adc_sources ! adc_index a)]))"

definition shAdcStartSens :: "adc \<Rightarrow> adc \<times> adc_call list" where
  "shAdcStartSens a =
     (a\<lparr>adc_mode := adc_sens, adc_index := 0\<rparr>,
      [AdcReadRequest adcsel_vref_hq_buff, AdcReadRequest adcsel_led4])"

definition SmartHelmet_AdcInit :: "bool \<Rightarrow> adc \<times> adc_call list" where
  "SmartHelmet_AdcInit task =
     (\<lparr>adc_task = task, adc_index = 0, adc_mode = adc_idle, adc_vref_mv = 0,
       adc_mv = replicate 4 0, adc_valid = replicate 4 False, adc_sens_pending = False\<rparr>,
      if task then map Adc_Timer [MessageCancelAll ADC_INTERNAL_TRIGGER, MessageCancelAll ADC_SENS_TRIGGER,
        MessageSendLater ADC_INTERNAL_TRIGGER 1000, MessageSendLater ADC_SENS_TRIGGER 40]
      else [])"

definition SmartHelmet_AdcStop :: "adc \<Rightarrow> adc \<times> adc_call list" where
  "SmartHelmet_AdcStop a =
     (a\<lparr>adc_mode := adc_idle, adc_sens_pending := False\<rparr>,
      if adc_task a then map Adc_Timer [MessageCancelAll ADC_INTERNAL_TRIGGER, MessageCancelAll ADC_SENS_TRIGGER]
      else [])"

definition SmartHelmet_AdcRequestScan :: "adc \<Rightarrow> adc \<times> adc_call list" where
  "SmartHelmet_AdcRequestScan a =
     (if \<not> adc_task a then (a, [])
      else if adc_mode a \<noteq> adc_idle then (a, [])
      else shAdcRequestNextFull (a\<lparr>adc_mode := adc_full, adc_index := 0\<rparr>))"

definition SmartHelmet_AdcRequestSensIn :: "adc \<Rightarrow> adc \<times> adc_call list" where
  "SmartHelmet_AdcRequestSensIn a =
     (if \<not> adc_task a then (a, [])
      else if adc_mode a \<noteq> adc_idle then (a, [NoteSensDropped])
      else shAdcStartSens a)"

definition adc_scale :: "int \<Rightarrow> int \<Rightarrow> int" where
  "adc_scale vref reading = (if vref \<noteq> 0 then u32 (reading * 1200) div vref else reading)"

definition adc_store :: "nat \<Rightarrow> int \<Rightarrow> adc \<Rightarrow> adc" where
  "adc_store i mv a = a\<lparr>adc_mv := (adc_mv a)[i := u16 mv], adc_valid := (adc_valid a)[i := True]\<rparr>"

definition adc_on_result :: "int \<Rightarrow> adc_source \<Rightarrow> int \<Rightarrow> adc \<Rightarrow> bool \<times> adc \<times> adc_call list" where
  "adc_on_result now src reading a =
     (if src = adcsel_vref_hq_buff then (True, a\<lparr>adc_vref_mv := reading\<rparr>, [])
      else if adc_mode a = adc_sens then
        (if src \<noteq> adcsel_led4 then (False, a, [])
         else let mv = adc_scale (adc_vref_mv a) reading
              in (True, (adc_store 0 mv a)\<lparr>adc_mode := adc_idle\<rparr>, [FeedVitalsSens (u16 mv) now]))
      else if adc_mode a = adc_full \<and> adc_index a < 4 \<and> src = sh_adc_sources ! adc_index a then
        (True, shAdcRequestNextFull
           ((adc_store (adc_index a) (adc_scale (adc_vref_mv a) reading) a)\<lparr>adc_index := adc_index a + 1\<rparr>))
      else (False, a, []))"

definition adc_rearm :: "helmet_msg \<Rightarrow> int \<Rightarrow> adc \<times> adc_call list \<Rightarrow> adc \<times> adc_call list" where
  "adc_rearm m ms r = (case r of (a, cs) \<Rightarrow>
     (a, cs @ (if adc_task a then [Adc_Timer (MessageSendLater m ms)] else [])))"

definition SmartHelmet_AdcHandleMessage :: "int \<Rightarrow> message \<Rightarrow> adc \<Rightarrow> bool \<times> adc \<times> adc_call list" where
  "SmartHelmet_AdcHandleMessage now msg a = (case msg of
     MESSAGE_ADC_RESULT src reading \<Rightarrow> adc_on_result now src reading a
   | Tick ADC_INTERNAL_TRIGGER \<Rightarrow>
       (True, adc_rearm ADC_INTERNAL_TRIGGER 1000 (SmartHelmet_AdcRequestScan a))
   | Tick ADC_SENS_TRIGGER \<Rightarrow>
       (True, adc_rearm ADC_SENS_TRIGGER 40 (SmartHelmet_AdcRequestSensIn a))
   | _ \<Rightarrow> (False, a, []))"

definition SmartHelmet_AdcGetLastSample :: "adc \<Rightarrow> int list \<times> bool list" where
  "SmartHelmet_AdcGetLastSample a = (adc_mv a, adc_valid a)"

text \<open>
  The effect of the calls on the vitals layer (\<open>shAdcFeedVitalsSens\<close> pushes the sample and
  then counts it towards the next window; \<open>shAdcSensDropped\<close> reports a gap).
\<close>

fun adc_vitals_event :: "adc_call \<Rightarrow> vitals_event list" where
  "adc_vitals_event (FeedVitalsSens mv now) = [Ev_Sens mv now]"
| "adc_vitals_event NoteSensDropped = [Ev_Dropped]"
| "adc_vitals_event _ = []"

fun adc_timer_call :: "adc_call \<Rightarrow> timer_call list" where
  "adc_timer_call (Adc_Timer c) = [c]"
| "adc_timer_call _ = []"

definition adc_timers :: "adc_call list \<Rightarrow> timer_call list" where
  "adc_timers cs = concat (map adc_timer_call cs)"

definition adc_vitals :: "adc_call list \<Rightarrow> vitals \<Rightarrow> vitals" where
  "adc_vitals cs v = fold vitals_exec (concat (map adc_vitals_event cs)) v"

lemmas adc_op_defs =
  shAdcRequestNextFull_def shAdcStartSens_def SmartHelmet_AdcStop_def SmartHelmet_AdcRequestScan_def
  SmartHelmet_AdcRequestSensIn_def adc_on_result_def adc_rearm_def SmartHelmet_AdcHandleMessage_def
  adc_store_def Let_def


section \<open>Invariant\<close>

definition adc_inv :: "adc \<Rightarrow> bool" where
  "adc_inv a \<longleftrightarrow> length (adc_mv a) = 4 \<and> length (adc_valid a) = 4 \<and> list_all is_u16 (adc_mv a) \<and>
     is_u16 (adc_vref_mv a) \<and> \<not> adc_sens_pending a \<and>
     (adc_mode a = adc_full \<longrightarrow> adc_index a < 4) \<and> (adc_mode a = adc_sens \<longrightarrow> adc_index a = 0)"

lemma list_all_update: "list_all P xs \<Longrightarrow> P y \<Longrightarrow> list_all P (xs[i := y])"
proof (induction xs arbitrary: i)
  case (Cons x xs)
  then show ?case by (cases i) simp_all
qed simp

lemma adc_store_inv: "adc_inv a \<Longrightarrow> adc_inv (adc_store i mv a)"
  by (simp add: adc_inv_def adc_store_def list_all_update)

lemma adc_init_inv: "adc_inv (fst (SmartHelmet_AdcInit t))"
  by (simp add: adc_inv_def SmartHelmet_AdcInit_def crange numeral_eq_Suc)

lemma adc_stop_inv: "adc_inv a \<Longrightarrow> adc_inv (fst (SmartHelmet_AdcStop a))"
  by (simp add: adc_inv_def SmartHelmet_AdcStop_def)

lemma adc_scan_inv: "adc_inv a \<Longrightarrow> adc_inv (fst (SmartHelmet_AdcRequestScan a))"
  by (simp add: adc_inv_def SmartHelmet_AdcRequestScan_def shAdcRequestNextFull_def)

lemma adc_sens_in_inv: "adc_inv a \<Longrightarrow> adc_inv (fst (SmartHelmet_AdcRequestSensIn a))"
  by (simp add: adc_inv_def SmartHelmet_AdcRequestSensIn_def shAdcStartSens_def)

lemma adc_result_inv:
  "adc_inv a \<Longrightarrow> is_u16 r \<Longrightarrow> adc_inv (fst (snd (adc_on_result now src r a)))"
  by (auto simp: adc_on_result_def shAdcRequestNextFull_def adc_inv_def adc_store_def list_all_update Let_def)

lemma adc_rearm_fst [simp]: "fst (adc_rearm m d r) = fst r"
  by (simp add: adc_rearm_def split: prod.splits)

lemma adc_handle_inv:
  assumes "adc_inv a" and "\<And>src r. msg = MESSAGE_ADC_RESULT src r \<Longrightarrow> is_u16 r"
  shows "adc_inv (fst (snd (SmartHelmet_AdcHandleMessage now msg a)))"
  using assms by (auto simp: SmartHelmet_AdcHandleMessage_def adc_result_inv adc_scan_inv adc_sens_in_inv
      split: message.splits helmet_msg.splits)

lemma adc_task_kept:
  "adc_task (fst (SmartHelmet_AdcRequestScan a)) = adc_task a"
  "adc_task (fst (SmartHelmet_AdcRequestSensIn a)) = adc_task a"
  "adc_task (fst (snd (adc_on_result now src r a))) = adc_task a"
  by (simp_all add: adc_op_defs)

lemma adc_handle_task [simp]:
  "adc_task (fst (snd (SmartHelmet_AdcHandleMessage now msg a))) = adc_task a"
  by (simp add: SmartHelmet_AdcHandleMessage_def adc_task_kept split: message.splits helmet_msg.splits)

section \<open>Scaling\<close>

lemma adc_scale_exact:
  assumes "is_u16 reading" "0 < vref"
  shows "adc_scale vref reading = reading * 1200 div vref"
  using assms by (simp add: adc_scale_def crange)

lemma adc_scale_fits:
  assumes "is_u16 reading" "0 < vref" "reading \<le> vref * 54"
  shows "u16 (adc_scale vref reading) = reading * 1200 div vref"
proof -
  have "reading * 1200 div vref < 65536"
    by (rule div_less_mult) (use assms in simp_all)
  moreover have "0 \<le> reading * 1200 div vref" using assms by (simp add: crange pos_imp_zdiv_nonneg_iff)
  ultimately show ?thesis using adc_scale_exact [OF assms(1,2)] by simp
qed

section \<open>Timers\<close>

lemma adc_timers_simps [simp]:
  "adc_timers [] = []"
  "adc_timers (c # cs) = adc_timer_call c @ adc_timers cs"
  "adc_timers (cs @ ds) = adc_timers cs @ adc_timers ds"
  "adc_timers (map Adc_Timer ts) = ts"
  by (simp_all add: adc_timers_def comp_def)

lemma adc_ops_no_timer [simp]:
  "adc_timers (snd (SmartHelmet_AdcRequestScan a)) = []"
  "adc_timers (snd (SmartHelmet_AdcRequestSensIn a)) = []"
  "adc_timers (snd (snd (adc_on_result now src r a))) = []"
  by (simp_all add: adc_op_defs)

lemma adc_rearm_timers [simp]:
  "adc_timers (snd (adc_rearm m d r)) =
   adc_timers (snd r) @ (if adc_task (fst r) then [MessageSendLater m d] else [])"
  by (simp add: adc_rearm_def split: prod.splits)

definition adc_timer_step :: "int \<times> message \<Rightarrow> adc \<Rightarrow> adc \<times> timer_call list" where
  "adc_timer_step e a =
     (case SmartHelmet_AdcHandleMessage (fst e) (snd e) a of (_, a', cs) \<Rightarrow> (a', adc_timers cs))"

lemma adc_timer_step_eqs:
  "fst (adc_timer_step e a) = fst (snd (SmartHelmet_AdcHandleMessage (fst e) (snd e) a))"
  "snd (adc_timer_step e a) = adc_timers (snd (snd (SmartHelmet_AdcHandleMessage (fst e) (snd e) a)))"
  by (simp_all add: adc_timer_step_def split: prod.splits)

interpretation gas_timer: rearming_timer adc_timer_step snd adc_task ADC_INTERNAL_TRIGGER
  by unfold_locales
    (auto simp: adc_timer_step_eqs SmartHelmet_AdcHandleMessage_def adc_task_kept
      split: message.splits helmet_msg.splits)

interpretation sens_timer: rearming_timer adc_timer_step snd adc_task ADC_SENS_TRIGGER
  by unfold_locales
    (auto simp: adc_timer_step_eqs SmartHelmet_AdcHandleMessage_def adc_task_kept
      split: message.splits helmet_msg.splits)

text \<open>From the moment the ADC client is initialised, and whatever messages arrive in whatever
  order, exactly one gas-scan tick and exactly one SENS tick are pending: no message loses a
  cadence or doubles it. Stopping the client withdraws both.\<close>

theorem adc_timers_exactly_one:
  assumes "timed_run adc_timer_step snd es
     (fst (SmartHelmet_AdcInit True), timers_after (adc_timers (snd (SmartHelmet_AdcInit True))) q) = (a, p)"
  shows "p ADC_INTERNAL_TRIGGER = 1 \<and> p ADC_SENS_TRIGGER = 1 \<and>
    timers_after (adc_timers (snd (SmartHelmet_AdcStop a))) p ADC_INTERNAL_TRIGGER = 0 \<and>
    timers_after (adc_timers (snd (SmartHelmet_AdcStop a))) p ADC_SENS_TRIGGER = 0"
proof -
  have t: "adc_task (fst (SmartHelmet_AdcInit True))" by (simp add: SmartHelmet_AdcInit_def)
  have q: "timers_after (adc_timers (snd (SmartHelmet_AdcInit True))) q m = 1"
    if "m = ADC_INTERNAL_TRIGGER \<or> m = ADC_SENS_TRIGGER" for m
    using that by (auto simp: SmartHelmet_AdcInit_def)
  have g: "p ADC_INTERNAL_TRIGGER = 1" using gas_timer.run_keeps [OF t _ assms] q by blast
  have s: "adc_task a \<and> p ADC_SENS_TRIGGER = 1" using sens_timer.run_keeps [OF t _ assms] q by blast
  then have "timers_after (adc_timers (snd (SmartHelmet_AdcStop a))) p ADC_INTERNAL_TRIGGER = 0"
    "timers_after (adc_timers (snd (SmartHelmet_AdcStop a))) p ADC_SENS_TRIGGER = 0"
    by (simp_all add: SmartHelmet_AdcStop_def)
  with g s show ?thesis by simp
qed

theorem adc_timers_exactly_one_witness:
  "snd (timed_run adc_timer_step snd
     [(0, Tick ADC_SENS_TRIGGER), (1, MESSAGE_ADC_RESULT adcsel_vref_hq_buff 1200), (2, Tick ADC_INTERNAL_TRIGGER)]
     (fst (SmartHelmet_AdcInit True),
      timers_after (adc_timers (snd (SmartHelmet_AdcInit True))) (\<lambda>_. 0))) ADC_SENS_TRIGGER = 1"
  using adc_timers_exactly_one [OF prod.collapse [symmetric]] by blast

section \<open>Accounting of the SENS grid\<close>

fun adc_run :: "(int \<times> message) list \<Rightarrow> adc \<Rightarrow> adc \<times> adc_call list" where
  "adc_run [] a = (a, [])"
| "adc_run (e # es) a = (case SmartHelmet_AdcHandleMessage (fst e) (snd e) a of (_, a', ds) \<Rightarrow>
     (fst (adc_run es a'), ds @ snd (adc_run es a')))"

fun is_feed :: "adc_call \<Rightarrow> bool" where
  "is_feed (FeedVitalsSens _ _) = True" | "is_feed _ = False"

fun is_drop :: "adc_call \<Rightarrow> bool" where
  "is_drop NoteSensDropped = True" | "is_drop _ = False"

definition calls_of :: "(adc_call \<Rightarrow> bool) \<Rightarrow> adc_call list \<Rightarrow> nat" where
  "calls_of P cs = length (filter P cs)"

lemma calls_of_simps [simp]:
  "calls_of P [] = 0"
  "calls_of P (c # cs) = (if P c then 1 else 0) + calls_of P cs"
  "calls_of P (cs @ ds) = calls_of P cs + calls_of P ds"
  by (simp_all add: calls_of_def)

abbreviation sens_busy :: "adc \<Rightarrow> nat" where
  "sens_busy a \<equiv> (if adc_mode a = adc_sens then 1 else 0)"

abbreviation sens_ticks :: "(int \<times> message) list \<Rightarrow> nat" where
  "sens_ticks es \<equiv> length (filter (\<lambda>e. snd e = Tick ADC_SENS_TRIGGER) es)"

definition sens_balance :: "adc \<times> adc_call list \<Rightarrow> nat" where
  "sens_balance r = calls_of is_feed (snd r) + calls_of is_drop (snd r) + sens_busy (fst r)"

lemma next_full_balance: "sens_balance (shAdcRequestNextFull a) = (if adc_index a < 4 then sens_busy a else 0)"
  by (simp add: sens_balance_def shAdcRequestNextFull_def)

lemma adc_result_balance: "sens_balance (snd (adc_on_result now src r a)) = sens_busy a"
proof (cases "adc_mode a")
  case adc_idle
  then show ?thesis by (simp add: adc_on_result_def sens_balance_def)
next
  case adc_full
  then show ?thesis by (simp add: adc_on_result_def next_full_balance)
    (simp add: sens_balance_def adc_store_def)
next
  case adc_sens
  then show ?thesis by (simp add: adc_on_result_def sens_balance_def Let_def)
qed

lemma adc_scan_balance: "sens_balance (SmartHelmet_AdcRequestScan a) = sens_busy a"
  by (cases "adc_mode a") (simp_all add: SmartHelmet_AdcRequestScan_def shAdcRequestNextFull_def sens_balance_def)

lemma adc_sens_in_balance:
  "adc_task a \<Longrightarrow> sens_balance (SmartHelmet_AdcRequestSensIn a) = sens_busy a + 1"
  by (cases "adc_mode a") (simp_all add: SmartHelmet_AdcRequestSensIn_def shAdcStartSens_def sens_balance_def)

lemma adc_rearm_balance [simp]: "sens_balance (adc_rearm m d r) = sens_balance r"
  by (simp add: sens_balance_def adc_rearm_def split: prod.splits)

lemma adc_sens_step:
  assumes "adc_task a"
  shows "sens_balance (snd (SmartHelmet_AdcHandleMessage now e a)) =
         sens_busy a + (if e = Tick ADC_SENS_TRIGGER then 1 else 0)"
proof (cases e)
  case (Tick m)
  then show ?thesis using assms
    by (cases m) (simp_all add: SmartHelmet_AdcHandleMessage_def adc_scan_balance adc_sens_in_balance,
        simp_all add: sens_balance_def)
qed (simp_all add: SmartHelmet_AdcHandleMessage_def adc_result_balance, simp_all add: sens_balance_def)

text \<open>C25: Every SENS tick is accounted for. Over any sequence of messages, the samples fed to the
  vitals layer, the gaps reported to it and the conversion still in flight add up to the SENS
  ticks that were delivered (plus a conversion that was in flight at the start): a tick is never
  served late, never served twice, and a gas scan never slips a sample of its own into the
  pulse grid.\<close>

theorem adc_sens_accounting:
  "adc_task a \<Longrightarrow>
   calls_of is_feed (snd (adc_run es a)) + calls_of is_drop (snd (adc_run es a)) +
     sens_busy (fst (adc_run es a)) = sens_busy a + sens_ticks es"
proof (induction es arbitrary: a)
  case (Cons e es)
  obtain b a' ds where eq: "SmartHelmet_AdcHandleMessage (fst e) (snd e) a = (b, a', ds)"
    by (cases "SmartHelmet_AdcHandleMessage (fst e) (snd e) a") auto
  have "adc_task a'" using adc_handle_task [of "fst e" "snd e" a] eq Cons.prems by simp
  from Cons.IH [OF this] adc_sens_step [OF Cons.prems, of "fst e" "snd e"] show ?case
    using eq by (simp add: sens_balance_def split: if_splits)
qed simp

theorem adc_sens_accounting_witness:
  "calls_of is_feed (snd (adc_run [(0, Tick ADC_INTERNAL_TRIGGER), (1, Tick ADC_SENS_TRIGGER)]
       (fst (SmartHelmet_AdcInit True)))) +
   calls_of is_drop (snd (adc_run [(0, Tick ADC_INTERNAL_TRIGGER), (1, Tick ADC_SENS_TRIGGER)]
       (fst (SmartHelmet_AdcInit True)))) +
   sens_busy (fst (adc_run [(0, Tick ADC_INTERNAL_TRIGGER), (1, Tick ADC_SENS_TRIGGER)]
       (fst (SmartHelmet_AdcInit True)))) = 1"
proof -
  have "adc_task (fst (SmartHelmet_AdcInit True))" "sens_busy (fst (SmartHelmet_AdcInit True)) = 0"
    by (simp_all add: SmartHelmet_AdcInit_def)
  with adc_sens_accounting [of "fst (SmartHelmet_AdcInit True)"
      "[(0, Tick ADC_INTERNAL_TRIGGER), (1, Tick ADC_SENS_TRIGGER)]"]
  show ?thesis by simp
qed

section \<open>The gas scan\<close>

definition scan_results :: "int list \<Rightarrow> int list \<Rightarrow> (int \<times> message) list" where
  "scan_results vrefs readings = concat (map (\<lambda>i.
     [(0, MESSAGE_ADC_RESULT adcsel_vref_hq_buff (vrefs ! i)),
      (0, MESSAGE_ADC_RESULT (sh_adc_sources ! i) (readings ! i))]) [0..<4])"

lemma upt4: "[0..<4] = [0, 1, 2, 3 :: nat]"
  by (simp add: numeral_eq_Suc)

lemma length4: "length xs = 4 \<Longrightarrow> \<exists>x0 x1 x2 x3. xs = [x0, x1, x2, x3]"
  by (auto simp: numeral_eq_Suc length_Suc_conv)

text \<open>A gas scan started on an idle client reads the reference and then the channel for
  SENS_IN, CO, NH3 and NO2, in that order, one request pair at a time. When each reading
  arrives the scan ends idle with all four channels valid, each scaled by the reference that was
  read just before it, and the only other effect is one display update with these four values.\<close>

theorem adc_scan_cycle:
  assumes "adc_inv a" "adc_task a" "adc_mode a = adc_idle"
  shows "adc_run (scan_results [v0, v1, v2, v3] [r0, r1, r2, r3]) (fst (SmartHelmet_AdcRequestScan a)) =
     (a\<lparr>adc_index := 4, adc_vref_mv := v3,
        adc_mv := [u16 (adc_scale v0 r0), u16 (adc_scale v1 r1), u16 (adc_scale v2 r2), u16 (adc_scale v3 r3)],
        adc_valid := [True, True, True, True]\<rparr>,
      [AdcReadRequest adcsel_vref_hq_buff, AdcReadRequest adcsel_led0,
       AdcReadRequest adcsel_vref_hq_buff, AdcReadRequest adcsel_led1,
       AdcReadRequest adcsel_vref_hq_buff, AdcReadRequest adcsel_led2,
       SensorsShowAdcMv (u16 (adc_scale v0 r0)) (u16 (adc_scale v1 r1))
         (u16 (adc_scale v2 r2)) (u16 (adc_scale v3 r3))]) \<and>
     snd (SmartHelmet_AdcRequestScan a) =
       [AdcReadRequest adcsel_vref_hq_buff, AdcReadRequest adcsel_led4]"
proof -
  obtain m0 m1 m2 m3 where m: "adc_mv a = [m0, m1, m2, m3]"
    using assms(1) length4 [of "adc_mv a"] unfolding adc_inv_def by blast
  obtain b0 b1 b2 b3 where b: "adc_valid a = [b0, b1, b2, b3]"
    using assms(1) length4 [of "adc_valid a"] unfolding adc_inv_def by blast
  show ?thesis
    using assms(2,3) m b by (simp add: scan_results_def upt4 sh_adc_sources_def adc_op_defs)
qed

theorem adc_scan_cycle_witness:
  "adc_mv (fst (adc_run (scan_results [1200, 1200, 1200, 1000] [900, 1500, 1600, 1700])
     (fst (SmartHelmet_AdcRequestScan (fst (SmartHelmet_AdcInit True)))))) = [900, 1500, 1600, 2040]"
  using adc_scan_cycle [of "fst (SmartHelmet_AdcInit True)" 1200 1200 1200 1000 900 1500 1600 1700]
    adc_init_inv [of True] by (simp add: SmartHelmet_AdcInit_def adc_scale_def)

section \<open>The converter always comes back\<close>

text \<open>
  The client together with the conversions it has requested and the hardware has not yet
  completed, in the order of the requests. \<open>Sys_Complete\<close> is the delivery of the oldest one;
  the client may be stopped and initialised again while conversions are outstanding (that is
  what a power cycle does), so that stale results arrive later.
\<close>

datatype adc_sys_event =
    Sys_Init
  | Sys_Stop
  | Sys_Scan
  | Sys_Tick int helmet_msg
  | Sys_Complete int int

fun adc_reads :: "adc_call list \<Rightarrow> adc_source list" where
  "adc_reads [] = []"
| "adc_reads (AdcReadRequest src # cs) = src # adc_reads cs"
| "adc_reads (_ # cs) = adc_reads cs"

lemma adc_reads_append [simp]: "adc_reads (cs @ ds) = adc_reads cs @ adc_reads ds"
  by (induction cs rule: adc_reads.induct) simp_all

lemma adc_reads_timers [simp]: "adc_reads (map Adc_Timer ts) = []"
  by (induction ts) simp_all

definition adc_queue :: "adc_source list \<Rightarrow> adc \<times> adc_call list \<Rightarrow> adc \<times> adc_source list" where
  "adc_queue q r = (fst r, q @ adc_reads (snd r))"

fun adc_sys_step :: "adc_sys_event \<Rightarrow> adc \<times> adc_source list \<Rightarrow> adc \<times> adc_source list" where
  "adc_sys_step Sys_Init (a, q) = adc_queue q (SmartHelmet_AdcInit True)"
| "adc_sys_step Sys_Stop (a, q) = adc_queue q (SmartHelmet_AdcStop a)"
| "adc_sys_step Sys_Scan (a, q) = adc_queue q (SmartHelmet_AdcRequestScan a)"
| "adc_sys_step (Sys_Tick now m) (a, q) = adc_queue q (snd (SmartHelmet_AdcHandleMessage now (Tick m) a))"
| "adc_sys_step (Sys_Complete now r) (a, []) = (a, [])"
| "adc_sys_step (Sys_Complete now r) (a, src # q) =
     adc_queue q (snd (SmartHelmet_AdcHandleMessage now (MESSAGE_ADC_RESULT src r) a))"

inductive adc_sys_reach :: "adc \<times> adc_source list \<Rightarrow> bool" where
  start: "adc_sys_reach (fst (SmartHelmet_AdcInit True), [])"
| step: "adc_sys_reach s \<Longrightarrow> adc_sys_reach (adc_sys_step e s)"

definition adc_sys_inv :: "adc \<times> adc_source list \<Rightarrow> bool" where
  "adc_sys_inv s \<longleftrightarrow>
     (adc_mode (fst s) = adc_full \<longrightarrow> adc_index (fst s) < 4 \<and> sh_adc_sources ! adc_index (fst s) \<in> set (snd s)) \<and>
     (adc_mode (fst s) = adc_sens \<longrightarrow> adcsel_led4 \<in> set (snd s))"

lemma sources_not_vref: "i < 4 \<Longrightarrow> sh_adc_sources ! i \<noteq> adcsel_vref_hq_buff"
  by (auto simp: sh_adc_sources_def less_Suc_eq numeral_eq_Suc)

lemma adc_sys_step_inv: "adc_sys_inv s \<Longrightarrow> adc_sys_inv (adc_sys_step e s)"
proof (induction e s rule: adc_sys_step.induct)
  case (1 a q)
  then show ?case by (simp add: adc_sys_inv_def adc_queue_def SmartHelmet_AdcInit_def)
next
  case (4 now m a q)
  then show ?case by (cases m) (auto simp: adc_sys_inv_def adc_queue_def adc_op_defs split: if_splits)
next
  case (6 now r a src q)
  then show ?case
    by (auto simp: adc_sys_inv_def adc_queue_def adc_op_defs sources_not_vref split: if_splits)
qed (auto simp: adc_sys_inv_def adc_queue_def adc_op_defs)

lemma adc_sys_reach_inv: "adc_sys_reach s \<Longrightarrow> adc_sys_inv s"
  by (induction rule: adc_sys_reach.induct)
    (simp_all add: adc_sys_step_inv, simp add: adc_sys_inv_def SmartHelmet_AdcInit_def)


fun adc_completes :: "(int \<times> int) list \<Rightarrow> adc \<times> adc_source list \<Rightarrow> adc \<times> adc_source list" where
  "adc_completes [] s = s"
| "adc_completes ((now, r) # rs) s = adc_completes rs (adc_sys_step (Sys_Complete now r) s)"

definition adc_work :: "adc \<times> adc_source list \<Rightarrow> nat \<times> nat" where
  "adc_work s = ((case adc_mode (fst s) of adc_idle \<Rightarrow> 0 | adc_full \<Rightarrow> 4 - adc_index (fst s) | adc_sens \<Rightarrow> 1),
     length (snd s))"

lemma adc_complete_progress:
  assumes "adc_sys_inv s" "adc_mode (fst s) \<noteq> adc_idle"
  shows "(adc_work (adc_sys_step (Sys_Complete now r) s), adc_work s) \<in> less_than <*lex*> less_than"
proof (cases s)
  case (Pair a q)
  with assms obtain src q' where q: "q = src # q'"
    by (cases q; cases "adc_mode a") (auto simp: adc_sys_inv_def)
  show ?thesis
  proof (cases "adc_mode a")
    case adc_full
    then show ?thesis using assms q Pair
      by (auto simp: adc_sys_inv_def adc_queue_def adc_op_defs adc_work_def split: if_splits)
  next
    case adc_sens
    then show ?thesis using q Pair by (simp add: adc_queue_def adc_op_defs adc_work_def)
  qed (use assms Pair in simp)
qed

lemma adc_work_wf: "wf (inv_image (less_than <*lex*> less_than) adc_work)"
  by (intro wf_inv_image wf_lex_prod wf_less_than)

lemma adc_completes_idle:
  "adc_sys_inv s \<Longrightarrow> \<exists>n. adc_mode (fst (adc_completes (map rs [0..<n]) s)) = adc_idle"
proof (induction s arbitrary: rs rule: wf_induct_rule [OF adc_work_wf])
  case (1 s)
  show ?case
  proof (cases "adc_mode (fst s) = adc_idle")
    case True
    then show ?thesis by (intro exI [of _ 0]) simp
  next
    case False
    obtain now r where r: "rs 0 = (now, r)" by fastforce
    let ?s = "adc_sys_step (Sys_Complete now r) s"
    obtain n where "adc_mode (fst (adc_completes (map (rs \<circ> Suc) [0..<n]) ?s)) = adc_idle"
      using 1(1) [of ?s "rs \<circ> Suc"] adc_complete_progress [OF 1(2) False, of now r]
        adc_sys_step_inv [OF 1(2)] by (auto simp only: in_inv_image)
    moreover have "map rs [0..<Suc n] = rs 0 # map (rs \<circ> Suc) [0..<n]"
      by (simp add: upt_conv_Cons map_Suc_upt [symmetric] del: upt_Suc)
    ultimately show ?thesis using r by (intro exI [of _ "Suc n"]) (simp del: upt_Suc)
  qed
qed

text \<open>The converter never wedges. Whatever sequence of initialisations, stops, scan requests
  and ticks led to the current state - stale conversions of an earlier power cycle included - as
  long as the hardware completes its outstanding conversions in order, some finite number of
  completions brings the client back to idle, for any readings and any delivery times.\<close>

theorem adc_returns_to_idle:
  assumes "adc_sys_reach s"
  shows "\<exists>n. adc_mode (fst (adc_completes (map rs [0..<n]) s)) = adc_idle"
  by (rule adc_completes_idle [OF adc_sys_reach_inv [OF assms]])

theorem adc_returns_to_idle_witness:
  "\<exists>n. adc_mode (fst (adc_completes (map (\<lambda>_. (0, 700)) [0..<n])
     (adc_sys_step Sys_Scan (adc_sys_step Sys_Init (adc_sys_step Sys_Scan
        (fst (SmartHelmet_AdcInit True), [])))))) = adc_idle"
  by (rule adc_returns_to_idle) (intro adc_sys_reach.intros)

end
