(* ===== verification/I2c.thy ===== *)
theory I2c
  imports Helmet_Prelude
begin

text \<open>
  The dual I2C master (\<^verbatim>\<open>smart_helmet_i2c.c\<close>). The bitserial driver and the pin multiplexer
  are not part of the repository's own code: they are the functions of the record
  \<open>bitserial_api\<close>, which act on a hardware state of arbitrary type \<open>'w\<close> and which every
  operation takes as its first argument. A result of \<open>None\<close> of the open call is
  \<^verbatim>\<open>BITSERIAL_HANDLE_ERROR\<close>. Buffers are byte lists: a transfer returns the bytes it read, and
  \<open>tx_len\<close> is the length of the bytes sent (the code's checks for a null buffer with a
  positive length have no counterpart in lists).
\<close>

section \<open>Driver interface and state\<close>

datatype bitserial_result = BS_SUCCESS | BS_I2C_NACK | BS_OTHER

datatype pin_function =
    BITSERIAL_0_CLOCK_OUT | BITSERIAL_0_CLOCK_IN | BITSERIAL_0_DATA_OUT | BITSERIAL_0_DATA_IN
  | BITSERIAL_1_CLOCK_OUT | BITSERIAL_1_CLOCK_IN | BITSERIAL_1_DATA_OUT | BITSERIAL_1_DATA_IN

datatype bitserial_op =
    BitserialTransfer "int list" nat
  | BitserialWrite "int list"
  | BitserialRead nat

record 'w bitserial_api =
  PioSetFunction :: "int \<Rightarrow> pin_function \<Rightarrow> 'w \<Rightarrow> bool \<times> 'w"
  PioSetMapPins32Bank :: "int \<Rightarrow> 'w \<Rightarrow> int \<times> 'w"
  BitserialOpen :: "nat \<Rightarrow> int \<Rightarrow> int \<Rightarrow> 'w \<Rightarrow> int option \<times> 'w"
  BitserialChangeParam :: "int option \<Rightarrow> int \<Rightarrow> 'w \<Rightarrow> bitserial_result \<times> 'w"
  BitserialClose :: "int option \<Rightarrow> 'w \<Rightarrow> 'w"
  BitserialRun :: "int option \<Rightarrow> bitserial_op \<Rightarrow> 'w \<Rightarrow> bitserial_result \<times> int list \<times> 'w"

record i2c_bus =
  bus_handle :: "int option"
  bus_block :: nat
  bus_scl :: int
  bus_sda :: int
  bus_speed_khz :: int
  bus_addr7 :: int
  bus_open :: bool
  bus_addr_ready :: bool

record 'w i2c =
  sh_i2c :: "i2c_bus list"
  i2c_hw :: 'w

text \<open>At boot the statics are zero; \<open>h0\<close> is whatever handle value zero denotes.\<close>

definition i2c_bus_zero :: "int option \<Rightarrow> i2c_bus" where
  "i2c_bus_zero h0 = \<lparr>bus_handle = h0, bus_block = 0, bus_scl = 0, bus_sda = 0, bus_speed_khz = 0,
     bus_addr7 = 0, bus_open = False, bus_addr_ready = False\<rparr>"

definition i2c_boot :: "int option \<Rightarrow> 'w \<Rightarrow> 'w i2c" where
  "i2c_boot h0 w = \<lparr>sh_i2c = [i2c_bus_zero h0, i2c_bus_zero h0], i2c_hw = w\<rparr>"

definition upd_bus :: "nat \<Rightarrow> (i2c_bus \<Rightarrow> i2c_bus) \<Rightarrow> 'w i2c \<Rightarrow> 'w i2c" where
  "upd_bus b f s = s\<lparr>sh_i2c := (sh_i2c s)[b := f (sh_i2c s ! b)]\<rparr>"

section \<open>Pins and handle\<close>

definition shI2cUnmapAppsGpio :: "'w bitserial_api \<Rightarrow> int \<Rightarrow> 'w \<Rightarrow> bool \<times> 'w" where
  "shI2cUnmapAppsGpio api pio w = (case PioSetMapPins32Bank api pio w of (r, w') \<Rightarrow> (r = 0, w'))"

fun pio_functions :: "'w bitserial_api \<Rightarrow> (int \<times> pin_function) list \<Rightarrow> 'w \<Rightarrow> bool \<times> 'w" where
  "pio_functions api [] w = (True, w)"
| "pio_functions api ((pio, fn) # fs) w = (case PioSetFunction api pio fn w of (ok, w') \<Rightarrow>
     if ok then pio_functions api fs w' else (False, w'))"

definition bitserial_pins :: "int \<Rightarrow> int \<Rightarrow> nat \<Rightarrow> (int \<times> pin_function) list" where
  "bitserial_pins scl sda block =
     (if block = 0 then
        [(scl, BITSERIAL_0_CLOCK_OUT), (scl, BITSERIAL_0_CLOCK_IN),
         (sda, BITSERIAL_0_DATA_OUT), (sda, BITSERIAL_0_DATA_IN)]
      else
        [(scl, BITSERIAL_1_CLOCK_OUT), (scl, BITSERIAL_1_CLOCK_IN),
         (sda, BITSERIAL_1_DATA_OUT), (sda, BITSERIAL_1_DATA_IN)])"

definition shI2cConfigurePios :: "'w bitserial_api \<Rightarrow> int \<Rightarrow> int \<Rightarrow> nat \<Rightarrow> 'w \<Rightarrow> bool \<times> 'w" where
  "shI2cConfigurePios api scl sda block w =
     (case shI2cUnmapAppsGpio api scl w of (ok1, w1) \<Rightarrow>
        if \<not> ok1 then (False, w1)
        else case shI2cUnmapAppsGpio api sda w1 of (ok2, w2) \<Rightarrow>
          if \<not> ok2 then (False, w2) else pio_functions api (bitserial_pins scl sda block) w2)"

definition shI2cOpenHandle :: "'w bitserial_api \<Rightarrow> nat \<Rightarrow> int \<Rightarrow> 'w i2c \<Rightarrow> bool \<times> 'w i2c" where
  "shI2cOpenHandle api b addr7 s =
     (let st = sh_i2c s ! b
      in case BitserialOpen api (bus_block st) (bus_speed_khz st) addr7 (i2c_hw s) of (h, w) \<Rightarrow>
           if h = None then
             (False, upd_bus b (\<lambda>x. x\<lparr>bus_handle := None, bus_open := False\<rparr>) (s\<lparr>i2c_hw := w\<rparr>))
           else
             (True, upd_bus b (\<lambda>x. x\<lparr>bus_handle := h, bus_addr7 := addr7, bus_open := True\<rparr>) (s\<lparr>i2c_hw := w\<rparr>)))"

definition shI2cChangeAddr :: "'w bitserial_api \<Rightarrow> nat \<Rightarrow> int \<Rightarrow> 'w i2c \<Rightarrow> bool \<times> 'w i2c" where
  "shI2cChangeAddr api b addr7 s =
     (case BitserialChangeParam api (bus_handle (sh_i2c s ! b)) addr7 (i2c_hw s) of (r, w) \<Rightarrow>
        (r = BS_SUCCESS, s\<lparr>i2c_hw := w\<rparr>))"

definition i2c_reopen :: "'w bitserial_api \<Rightarrow> nat \<Rightarrow> int \<Rightarrow> 'w i2c \<Rightarrow> bool \<times> 'w i2c" where
  "i2c_reopen api b addr7 s =
     (let st = sh_i2c s ! b;
          s1 = upd_bus b (\<lambda>x. x\<lparr>bus_handle := None, bus_open := False, bus_addr7 := 0, bus_addr_ready := False\<rparr>)
                 (s\<lparr>i2c_hw := BitserialClose api (bus_handle st) (i2c_hw s)\<rparr>)
      in case shI2cConfigurePios api (bus_scl st) (bus_sda st) (bus_block st) (i2c_hw s1) of (ok, w) \<Rightarrow>
           if ok then shI2cOpenHandle api b addr7 (s1\<lparr>i2c_hw := w\<rparr>) else (False, s1\<lparr>i2c_hw := w\<rparr>))"

definition shI2cSetAddr :: "'w bitserial_api \<Rightarrow> nat \<Rightarrow> int \<Rightarrow> 'w i2c \<Rightarrow> bool \<times> 'w i2c" where
  "shI2cSetAddr api b addr7 s =
     (if \<not> bus_open (sh_i2c s ! b) then (False, s)
      else if bus_addr7 (sh_i2c s ! b) = addr7 then (True, s)
      else case shI2cChangeAddr api b addr7 s of (ok, s1) \<Rightarrow>
        if \<not> ok then
          (case i2c_reopen api b addr7 s1 of (ok2, s2) \<Rightarrow>
             if \<not> ok2 then (False, s2)
             else (True, upd_bus b (\<lambda>x. x\<lparr>bus_addr_ready := False\<rparr>) s2))
        else (True, upd_bus b (\<lambda>x. x\<lparr>bus_addr7 := addr7, bus_addr_ready := False\<rparr>) s1))"

definition shI2cOpenBus ::
  "'w bitserial_api \<Rightarrow> nat \<Rightarrow> nat \<Rightarrow> int \<Rightarrow> int \<Rightarrow> int \<Rightarrow> 'w i2c \<Rightarrow> bool \<times> 'w i2c" where
  "shI2cOpenBus api b block scl sda khz s =
     (if bus_open (sh_i2c s ! b) then (True, s)
      else let s1 = upd_bus b (\<lambda>x. x\<lparr>bus_block := block, bus_scl := scl, bus_sda := sda,
                      bus_speed_khz := khz, bus_addr7 := 0, bus_handle := None\<rparr>) s
           in case shI2cConfigurePios api scl sda block (i2c_hw s1) of (ok, w) \<Rightarrow>
                if \<not> ok then (False, s1\<lparr>i2c_hw := w\<rparr>)
                else shI2cOpenHandle api b 0 (s1\<lparr>i2c_hw := w\<rparr>))"

definition SmartHelmet_I2cInit :: "'w bitserial_api \<Rightarrow> 'w i2c \<Rightarrow> bool \<times> 'w i2c" where
  "SmartHelmet_I2cInit api s =
     (case shI2cOpenBus api 0 0 20 19 100 s of (ok0, s0) \<Rightarrow>
        case shI2cOpenBus api 1 1 16 15 100 s0 of (ok1, s1) \<Rightarrow> (ok1 \<and> ok0, s1))"

definition i2c_close_bus :: "'w bitserial_api \<Rightarrow> nat \<Rightarrow> 'w i2c \<Rightarrow> 'w i2c" where
  "i2c_close_bus api b s =
     (let st = sh_i2c s ! b
      in if bus_open st \<and> bus_handle st \<noteq> None then
           upd_bus b (\<lambda>x. x\<lparr>bus_handle := None, bus_open := False, bus_addr7 := 0\<rparr>)
             (s\<lparr>i2c_hw := BitserialClose api (bus_handle st) (i2c_hw s)\<rparr>)
         else s)"

definition SmartHelmet_I2cClose :: "'w bitserial_api \<Rightarrow> 'w i2c \<Rightarrow> 'w i2c" where
  "SmartHelmet_I2cClose api s = fold (i2c_close_bus api) [0..<2] s"

section \<open>Transfers\<close>

definition i2c_op :: "int list \<Rightarrow> nat \<Rightarrow> bitserial_op" where
  "i2c_op tx rx_len =
     (if length tx \<noteq> 0 \<and> rx_len \<noteq> 0 then BitserialTransfer tx rx_len
      else if length tx \<noteq> 0 then BitserialWrite tx
      else BitserialRead rx_len)"

definition shI2cRunXfer ::
  "'w bitserial_api \<Rightarrow> nat \<Rightarrow> int list \<Rightarrow> nat \<Rightarrow> 'w i2c \<Rightarrow> bitserial_result \<times> int list \<times> 'w i2c" where
  "shI2cRunXfer api b tx rx_len s =
     (case BitserialRun api (bus_handle (sh_i2c s ! b)) (i2c_op tx rx_len) (i2c_hw s) of
        (r, rx, w) \<Rightarrow> (r, rx, s\<lparr>i2c_hw := w\<rparr>))"

definition i2c_xfer_retry ::
  "'w bitserial_api \<Rightarrow> nat \<Rightarrow> int list \<Rightarrow> nat \<Rightarrow> bool \<Rightarrow> 'w i2c \<Rightarrow> bool \<times> int list \<times> 'w i2c" where
  "i2c_xfer_retry api b tx rx_len switched s =
     (let first = shI2cRunXfer api b tx rx_len s;
          second = (if fst first = BS_I2C_NACK \<and> (switched \<or> \<not> bus_addr_ready (sh_i2c (snd (snd first)) ! b))
                    then shI2cRunXfer api b tx rx_len (snd (snd first)) else first)
      in (fst second = BS_SUCCESS, fst (snd second),
          upd_bus b (\<lambda>x. x\<lparr>bus_addr_ready := True\<rparr>) (snd (snd second))))"

definition SmartHelmet_I2cTransfer ::
  "'w bitserial_api \<Rightarrow> nat \<Rightarrow> int \<Rightarrow> int list \<Rightarrow> nat \<Rightarrow> 'w i2c \<Rightarrow> bool \<times> int list \<times> 'w i2c" where
  "SmartHelmet_I2cTransfer api b addr7 tx rx_len s =
     (if b \<ge> 2 \<or> \<not> bus_open (sh_i2c s ! b) then (False, [], s)
      else if length tx = 0 \<and> rx_len = 0 then (True, [], s)
      else case shI2cSetAddr api b addr7 s of (ok, s1) \<Rightarrow>
        if \<not> ok then (False, [], s1)
        else i2c_xfer_retry api b tx rx_len (bus_addr7 (sh_i2c s ! b) \<noteq> addr7) s1)"

definition SmartHelmet_I2cWrite ::
  "'w bitserial_api \<Rightarrow> nat \<Rightarrow> int \<Rightarrow> int list \<Rightarrow> 'w i2c \<Rightarrow> bool \<times> 'w i2c" where
  "SmartHelmet_I2cWrite api b addr7 tx s =
     (case SmartHelmet_I2cTransfer api b addr7 tx 0 s of (ok, _, s') \<Rightarrow> (ok, s'))"

definition SmartHelmet_I2cRead ::
  "'w bitserial_api \<Rightarrow> nat \<Rightarrow> int \<Rightarrow> nat \<Rightarrow> 'w i2c \<Rightarrow> bool \<times> int list \<times> 'w i2c" where
  "SmartHelmet_I2cRead api b addr7 rx_len s = SmartHelmet_I2cTransfer api b addr7 [] rx_len s"

definition SmartHelmet_I2cReadReg ::
  "'w bitserial_api \<Rightarrow> nat \<Rightarrow> int \<Rightarrow> int \<Rightarrow> nat \<Rightarrow> 'w i2c \<Rightarrow> bool \<times> int list \<times> 'w i2c" where
  "SmartHelmet_I2cReadReg api b addr7 reg rx_len s = SmartHelmet_I2cTransfer api b addr7 [reg] rx_len s"

definition SmartHelmet_I2cWriteReg ::
  "'w bitserial_api \<Rightarrow> nat \<Rightarrow> int \<Rightarrow> int \<Rightarrow> int list \<Rightarrow> 'w i2c \<Rightarrow> bool \<times> 'w i2c" where
  "SmartHelmet_I2cWriteReg api b addr7 reg tx s =
     (if length tx > 16 then (False, s)
      else case SmartHelmet_I2cTransfer api b addr7 (reg # tx) 0 s of (ok, _, s') \<Rightarrow> (ok, s'))"


section \<open>Invariant\<close>

definition i2c_inv :: "'w i2c \<Rightarrow> bool" where
  "i2c_inv s \<longleftrightarrow> length (sh_i2c s) = 2 \<and> (\<forall>b < 2. bus_open (sh_i2c s ! b) \<longrightarrow> bus_handle (sh_i2c s ! b) \<noteq> None)"

named_theorems i2c_kept \<open>operations that keep the bus invariant\<close>

lemma upd_bus_simps [simp]:
  "length (sh_i2c (upd_bus b f s)) = length (sh_i2c s)"
  "i2c_hw (upd_bus b f s) = i2c_hw s"
  "b < length (sh_i2c s) \<Longrightarrow> sh_i2c (upd_bus b f s) ! b = f (sh_i2c s ! b)"
  "b \<noteq> c \<Longrightarrow> sh_i2c (upd_bus b f s) ! c = sh_i2c s ! c"
  by (simp_all add: upd_bus_def)

lemma upd_bus_inv:
  assumes "i2c_inv s" and "b < 2 \<Longrightarrow> bus_open (f (sh_i2c s ! b)) \<longrightarrow> bus_handle (f (sh_i2c s ! b)) \<noteq> None"
  shows "i2c_inv (upd_bus b f s)"
  unfolding i2c_inv_def
proof (intro conjI allI impI)
  show "length (sh_i2c (upd_bus b f s)) = 2" using assms(1) by (simp add: i2c_inv_def)
  fix c
  assume "c < 2" "bus_open (sh_i2c (upd_bus b f s) ! c)"
  then show "bus_handle (sh_i2c (upd_bus b f s) ! c) \<noteq> None"
    using assms by (cases "c = b") (auto simp: i2c_inv_def)
qed

lemma i2c_hw_inv [simp]: "i2c_inv (s\<lparr>i2c_hw := w\<rparr>) = i2c_inv s"
  by (simp add: i2c_inv_def)

lemma i2c_boot_inv [i2c_kept]: "i2c_inv (i2c_boot h0 w)"
  by (simp add: i2c_inv_def i2c_boot_def i2c_bus_zero_def nth_Cons split: nat.splits)

lemma shI2cOpenHandle_inv [i2c_kept]: "i2c_inv s \<Longrightarrow> i2c_inv (snd (shI2cOpenHandle api b a s))"
  by (auto simp: shI2cOpenHandle_def Let_def intro!: upd_bus_inv split: prod.splits)

lemma shI2cChangeAddr_inv [i2c_kept]: "i2c_inv s \<Longrightarrow> i2c_inv (snd (shI2cChangeAddr api b a s))"
  by (simp add: shI2cChangeAddr_def split: prod.splits)

lemma i2c_reopen_inv [i2c_kept]:
  assumes "i2c_inv s"
  shows "i2c_inv (snd (i2c_reopen api b a s))"
proof -
  define s1 where "s1 = upd_bus b
     (\<lambda>x. x\<lparr>bus_handle := None, bus_open := False, bus_addr7 := 0, bus_addr_ready := False\<rparr>)
     (s\<lparr>i2c_hw := BitserialClose api (bus_handle (sh_i2c s ! b)) (i2c_hw s)\<rparr>)"
  have "i2c_inv s1" using assms by (auto simp: s1_def intro: upd_bus_inv)
  then show ?thesis
    by (simp add: i2c_reopen_def Let_def shI2cOpenHandle_inv flip: s1_def split: prod.splits)
qed

lemma shI2cSetAddr_inv [i2c_kept]:
  assumes "i2c_inv s"
  shows "i2c_inv (snd (shI2cSetAddr api b a s))"
proof -
  obtain ok s1 where c: "shI2cChangeAddr api b a s = (ok, s1)" by fastforce
  then have s1: "i2c_inv s1" using shI2cChangeAddr_inv [OF assms, of api b a] by simp
  obtain ok2 s2 where r: "i2c_reopen api b a s1 = (ok2, s2)" by fastforce
  then have "i2c_inv s2" using i2c_reopen_inv [OF s1, of api b a] by simp
  with assms s1 show ?thesis
    by (auto simp: shI2cSetAddr_def c r intro!: upd_bus_inv) (auto simp: i2c_inv_def)
qed

lemma shI2cOpenBus_inv [i2c_kept]:
  assumes "i2c_inv s"
  shows "i2c_inv (snd (shI2cOpenBus api b k scl sda khz s))"
proof (cases "bus_open (sh_i2c s ! b)")
  case False
  define s1 where "s1 = upd_bus b (\<lambda>x. x\<lparr>bus_block := k, bus_scl := scl, bus_sda := sda,
     bus_speed_khz := khz, bus_addr7 := 0, bus_handle := None\<rparr>) s"
  have "i2c_inv s1" unfolding s1_def using assms False by (intro upd_bus_inv) simp_all
  then show ?thesis using False
    by (simp add: shI2cOpenBus_def Let_def shI2cOpenHandle_inv flip: s1_def split: prod.splits)
qed (use assms in \<open>simp add: shI2cOpenBus_def\<close>)

lemma SmartHelmet_I2cInit_inv [i2c_kept]: "i2c_inv s \<Longrightarrow> i2c_inv (snd (SmartHelmet_I2cInit api s))"
  using shI2cOpenBus_inv [of s api 0 0 20 19 100]
    shI2cOpenBus_inv [of "snd (shI2cOpenBus api 0 0 20 19 100 s)" api 1 1 16 15 100]
  by (auto simp: SmartHelmet_I2cInit_def split: prod.splits)

lemma i2c_close_bus_inv [i2c_kept]: "i2c_inv s \<Longrightarrow> i2c_inv (i2c_close_bus api b s)"
  by (auto simp: i2c_close_bus_def Let_def intro!: upd_bus_inv)

lemma SmartHelmet_I2cClose_inv [i2c_kept]: "i2c_inv s \<Longrightarrow> i2c_inv (SmartHelmet_I2cClose api s)"
  by (simp add: SmartHelmet_I2cClose_def i2c_close_bus_inv numeral_2_eq_2)

lemma shI2cRunXfer_frame [simp]: "sh_i2c (snd (snd (shI2cRunXfer api b tx n s))) = sh_i2c s"
  by (simp add: shI2cRunXfer_def split: prod.splits)

lemma i2c_inv_cong: "sh_i2c s' = sh_i2c s \<Longrightarrow> i2c_inv s' = i2c_inv s"
  by (simp add: i2c_inv_def)

lemma xfer_retry_frame:
  "sh_i2c (snd (snd (i2c_xfer_retry api b tx n sw s))) =
   sh_i2c (upd_bus b (\<lambda>x. x\<lparr>bus_addr_ready := True\<rparr>) s)"
  by (simp add: i2c_xfer_retry_def Let_def upd_bus_def)

lemma xfer_retry_inv [i2c_kept]: "i2c_inv s \<Longrightarrow> i2c_inv (snd (snd (i2c_xfer_retry api b tx n sw s)))"
  by (subst i2c_inv_cong [OF xfer_retry_frame], rule upd_bus_inv) (simp_all add: i2c_inv_def)

lemma SmartHelmet_I2cTransfer_inv [i2c_kept]:
  assumes "i2c_inv s"
  shows "i2c_inv (snd (snd (SmartHelmet_I2cTransfer api b a tx n s)))"
proof -
  obtain ok s1 where c: "shI2cSetAddr api b a s = (ok, s1)" by fastforce
  then have "i2c_inv s1" using shI2cSetAddr_inv [OF assms, of api b a] by simp
  with assms show ?thesis by (simp add: SmartHelmet_I2cTransfer_def c xfer_retry_inv)
qed

section \<open>The contract of the transfer routine\<close>

text \<open>
  What the sensor drivers rely on: a bus transfer keeps the bus consistent. A driver sequence
  that stops at the first failing transfer then keeps it too, whatever its length.
\<close>

fun write_frames :: "('f \<Rightarrow> 's \<Rightarrow> bool \<times> 's) \<Rightarrow> 'f list \<Rightarrow> 's \<Rightarrow> bool \<times> 's" where
  "write_frames put [] s = (True, s)"
| "write_frames put (f # fs) s = (case put f s of (ok, s') \<Rightarrow> if ok then write_frames put fs s' else (False, s'))"

locale bus_driver =
  fixes put :: "'f \<Rightarrow> 's \<Rightarrow> bool \<times> 's"
    and consistent :: "'s \<Rightarrow> bool"
  assumes put_kept: "consistent s \<Longrightarrow> consistent (snd (put f s))"
begin

lemma frames_kept: "consistent s \<Longrightarrow> consistent (snd (write_frames put fs s))"
proof (induction fs arbitrary: s)
  case (Cons f fs)
  then show ?case using put_kept [of s f] by (auto split: prod.splits)
qed simp

lemma frames_append:
  "write_frames put (fs @ gs) s =
   (if fst (write_frames put fs s) then write_frames put gs (snd (write_frames put fs s))
    else write_frames put fs s)"
  by (induction fs arbitrary: s) (auto split: prod.splits)

end

lemma i2c_wrappers_snd:
  "snd (SmartHelmet_I2cWrite api b a tx s) = snd (snd (SmartHelmet_I2cTransfer api b a tx 0 s))"
  "fst (SmartHelmet_I2cWrite api b a tx s) = fst (SmartHelmet_I2cTransfer api b a tx 0 s)"
  by (simp_all add: SmartHelmet_I2cWrite_def split: prod.splits)

lemma i2c_wrappers_inv [i2c_kept]:
  assumes "i2c_inv s"
  shows "i2c_inv (snd (SmartHelmet_I2cWrite api b a tx s))"
    and "i2c_inv (snd (snd (SmartHelmet_I2cRead api b a n s)))"
    and "i2c_inv (snd (snd (SmartHelmet_I2cReadReg api b a r n s)))"
    and "i2c_inv (snd (SmartHelmet_I2cWriteReg api b a r tx s))"
proof -
  note t = SmartHelmet_I2cTransfer_inv [OF assms]
  show "i2c_inv (snd (SmartHelmet_I2cWrite api b a tx s))" by (simp add: i2c_wrappers_snd t)
  show "i2c_inv (snd (snd (SmartHelmet_I2cRead api b a n s)))" by (simp add: SmartHelmet_I2cRead_def t)
  show "i2c_inv (snd (snd (SmartHelmet_I2cReadReg api b a r n s)))" by (simp add: SmartHelmet_I2cReadReg_def t)
  show "i2c_inv (snd (SmartHelmet_I2cWriteReg api b a r tx s))"
    using t [of api b a "r # tx" 0] assms
    by (simp add: SmartHelmet_I2cWriteReg_def split: prod.splits) auto
qed

interpretation i2c_writes: bus_driver "\<lambda>tx. SmartHelmet_I2cWrite api b a tx" i2c_inv for api b a
  by unfold_locales (rule i2c_wrappers_inv)

section \<open>What a completed transfer means\<close>

lemma set_addr_ok:
  assumes "i2c_inv s" "b < 2" "shI2cSetAddr api b a s = (True, s1)"
  shows "i2c_inv s1 \<and> bus_open (sh_i2c s1 ! b) \<and> bus_addr7 (sh_i2c s1 ! b) = a"
proof -
  have inv: "i2c_inv s1" using shI2cSetAddr_inv [OF assms(1), of api b a] assms(3) by simp
  obtain ok c where c: "shI2cChangeAddr api b a s = (ok, c)" by fastforce
  then have cb: "sh_i2c c = sh_i2c s" by (auto simp: shI2cChangeAddr_def split: prod.splits)
  have len: "b < length (sh_i2c s)" using assms(1,2) by (simp add: i2c_inv_def)
  have ro: "bus_open (sh_i2c (snd (i2c_reopen api b a c)) ! b) \<and>
      bus_addr7 (sh_i2c (snd (i2c_reopen api b a c)) ! b) = a \<and> b < length (sh_i2c (snd (i2c_reopen api b a c)))"
    if "fst (i2c_reopen api b a c)"
    using that len cb by (auto simp: i2c_reopen_def shI2cOpenHandle_def Let_def split: prod.splits if_splits)
  show ?thesis using assms(3) inv len c cb ro
    by (auto simp: shI2cSetAddr_def split: if_splits prod.splits)
qed

lemma set_addr_other: "c \<noteq> b \<Longrightarrow> sh_i2c (snd (shI2cSetAddr api b a s)) ! c = sh_i2c s ! c"
  by (simp add: shI2cSetAddr_def shI2cChangeAddr_def i2c_reopen_def shI2cOpenHandle_def Let_def
      split: prod.splits) auto

lemma transfer_other:
  assumes "c \<noteq> b"
  shows "sh_i2c (snd (snd (SmartHelmet_I2cTransfer api b a tx n s))) ! c = sh_i2c s ! c"
  using set_addr_other [OF assms, of api a s] assms
  by (auto simp: SmartHelmet_I2cTransfer_def xfer_retry_frame split: prod.splits)

text \<open>A transfer on a bus that is not open (or does not exist) fails without touching the
  hardware. A transfer that is reported as done left the bus open, programmed with exactly the
  address of the addressed device, and marked ready; the other bus is unchanged by it.\<close>

theorem i2c_transfer_sound:
  assumes "i2c_inv s" "0 < length tx + n"
    and "SmartHelmet_I2cTransfer api b a tx n s = (ok, rx, s')"
  shows "(b \<ge> 2 \<or> \<not> bus_open (sh_i2c s ! b) \<longrightarrow> \<not> ok \<and> s' = s) \<and>
    (ok \<longrightarrow> bus_open (sh_i2c s' ! b) \<and> bus_addr7 (sh_i2c s' ! b) = a \<and> bus_addr_ready (sh_i2c s' ! b)) \<and>
    (c \<noteq> b \<longrightarrow> sh_i2c s' ! c = sh_i2c s ! c)"
proof -
  obtain ok1 s1 where c: "shI2cSetAddr api b a s = (ok1, s1)" by fastforce
  have other: "sh_i2c s' ! c = sh_i2c s ! c" if "c \<noteq> b"
    using transfer_other [OF that, of api a tx n s] assms(3) by simp
  have *: "bus_open (sh_i2c s' ! b) \<and> bus_addr7 (sh_i2c s' ! b) = a \<and> bus_addr_ready (sh_i2c s' ! b)" if ok
  proof -
    from assms(2,3) that c have b: "b < 2" and ok1
      and r: "i2c_xfer_retry api b tx n (bus_addr7 (sh_i2c s ! b) \<noteq> a) s1 = (ok, rx, s')"
      by (auto simp: SmartHelmet_I2cTransfer_def split: if_splits)
    with set_addr_ok [OF assms(1) b, of api a s1] c
    have s1: "i2c_inv s1" "bus_open (sh_i2c s1 ! b)" "bus_addr7 (sh_i2c s1 ! b) = a" by simp_all
    have "sh_i2c s' = sh_i2c (upd_bus b (\<lambda>x. x\<lparr>bus_addr_ready := True\<rparr>) s1)"
      using xfer_retry_frame [of api b tx n "bus_addr7 (sh_i2c s ! b) \<noteq> a" s1] r by simp
    with s1 b show ?thesis by (simp add: i2c_inv_def)
  qed
  show ?thesis using * other assms(2,3) by (auto simp: SmartHelmet_I2cTransfer_def split: if_splits)
qed

section \<open>Address changes that take effect late\<close>

text \<open>
  The source documents the driver it runs on: a changed device address is used only from the
  next transfer, so that one cycle still carries the previous address. The hardware state is
  then the address on the wire and the programmed one; \<open>dev\<close> gives the bytes the device at an
  address answers with, \<open>None\<close> for an address nobody acknowledges.
\<close>

record late_hw =
  wire_addr :: int
  prog_addr :: int

definition late_api :: "(int \<Rightarrow> int list option) \<Rightarrow> late_hw bitserial_api" where
  "late_api dev = \<lparr>PioSetFunction = (\<lambda>_ _ w. (True, w)), PioSetMapPins32Bank = (\<lambda>_ w. (0, w)),
     BitserialOpen = (\<lambda>_ _ a w. (Some 1, \<lparr>wire_addr = a, prog_addr = a\<rparr>)),
     BitserialChangeParam = (\<lambda>_ a w. (BS_SUCCESS, w\<lparr>prog_addr := a\<rparr>)),
     BitserialClose = (\<lambda>_ w. w),
     BitserialRun = (\<lambda>_ op w. (case dev (wire_addr w) of
          None \<Rightarrow> (BS_I2C_NACK, [], w\<lparr>wire_addr := prog_addr w\<rparr>)
        | Some bs \<Rightarrow> (BS_SUCCESS, bs, w\<lparr>wire_addr := prog_addr w\<rparr>)))\<rparr>"

text \<open>What the retry of the transfer routine achieves on a driver that applies a changed
  address one cycle late. Addressing \<open>a\<close> after the bus was talking to \<open>p\<close>: if nobody answers at
  \<open>p\<close>, the cycle is refused, the retry goes to \<open>a\<close> and the outcome is that of device \<open>a\<close>. If the
  device at \<open>p\<close> answers, there is no refusal to react to: the routine reports success and hands
  back the bytes of device \<open>p\<close> as if they were those of \<open>a\<close>.\<close>

theorem i2c_late_address:
  assumes "i2c_inv s" "b < 2" "bus_open (sh_i2c s ! b)" "bus_addr7 (sh_i2c s ! b) = p" "p \<noteq> a"
    and "i2c_hw s = \<lparr>wire_addr = p, prog_addr = p\<rparr>" "0 < length tx + n"
  shows "(case SmartHelmet_I2cTransfer (late_api dev) b a tx n s of (ok, rx, s') \<Rightarrow> (ok, rx)) =
    (case dev p of Some bs \<Rightarrow> (True, bs)
     | None \<Rightarrow> (case dev a of Some bs \<Rightarrow> (True, bs) | None \<Rightarrow> (False, [])))"
proof -
  let ?s1 = "upd_bus b (\<lambda>x. x\<lparr>bus_addr7 := a, bus_addr_ready := False\<rparr>)
               (s\<lparr>i2c_hw := \<lparr>wire_addr = p, prog_addr = a\<rparr>\<rparr>)"
  have "shI2cSetAddr (late_api dev) b a s = (True, ?s1)"
    using assms by (simp add: shI2cSetAddr_def shI2cChangeAddr_def late_api_def)
  then show ?thesis using assms
    by (auto simp: SmartHelmet_I2cTransfer_def i2c_xfer_retry_def shI2cRunXfer_def late_api_def Let_def
        split: option.splits)
qed

definition late_start :: "late_hw i2c" where
  "late_start = \<lparr>sh_i2c = replicate 2 \<lparr>bus_handle = Some 1, bus_block = 0, bus_scl = 20, bus_sda = 19,
     bus_speed_khz = 100, bus_addr7 = 0x5A, bus_open = True, bus_addr_ready = True\<rparr>,
     i2c_hw = \<lparr>wire_addr = 0x5A, prog_addr = 0x5A\<rparr>\<rparr>"

lemma late_start_ok: "i2c_inv late_start" "bus_open (sh_i2c late_start ! 0)"
  "bus_addr7 (sh_i2c late_start ! 0) = 0x5A" "i2c_hw late_start = \<lparr>wire_addr = 0x5A, prog_addr = 0x5A\<rparr>"
  by (auto simp: late_start_def i2c_inv_def less_Suc_eq numeral_2_eq_2)

theorem i2c_transfer_sound_witness:
  "bus_addr7 (sh_i2c (snd (snd (SmartHelmet_I2cTransfer (late_api (\<lambda>_. Some [7])) 0 0x40 [0] 1 late_start))) ! 0) = 0x40"
proof -
  obtain ok rx s' where e: "SmartHelmet_I2cTransfer (late_api (\<lambda>_. Some [7])) 0 0x40 [0] 1 late_start = (ok, rx, s')"
    by (cases "SmartHelmet_I2cTransfer (late_api (\<lambda>_. Some [7])) 0 0x40 [0] 1 late_start") auto
  then have ok by (auto simp: SmartHelmet_I2cTransfer_def shI2cSetAddr_def shI2cChangeAddr_def late_start_ok
        late_api_def i2c_xfer_retry_def shI2cRunXfer_def Let_def)
  with i2c_transfer_sound [OF late_start_ok(1) _ e] show ?thesis using e by simp
qed

theorem i2c_late_address_witness:
  "(case SmartHelmet_I2cTransfer (late_api [0x5A \<mapsto> [1, 2], 0x40 \<mapsto> [3, 4]]) 0 0x40 [0] 2 late_start of
      (ok, rx, s') \<Rightarrow> (ok, rx)) = (True, [1, 2])"
  using i2c_late_address [OF late_start_ok(1) _ late_start_ok(2,3) _ late_start_ok(4),
      where a = "0x40" and tx = "[0]" and n = 2 and dev = "[0x5A \<mapsto> [1, 2], 0x40 \<mapsto> [3, 4]]"] by simp

end
