(* ===== verification/Oled.thy ===== *)
theory Oled
  imports I2c
begin

text \<open>
  The drawing primitives of the SSD1315 panel (\<^verbatim>\<open>smart_helmet_sensors.c\<close>, lines 302 to 608):
  command and data writes in chunks of at most sixteen bytes behind a control byte, page
  clearing, the 5x7 font, the panel set-up and the splash screen. The reference description of
  a screen update is the list of frames that go over the wire; every primitive is shown to send
  exactly its frames, in order, up to the first one the bus refuses.
\<close>

section \<open>Writes\<close>

definition shSsdBus :: nat where
  "shSsdBus = 1"

definition shSsdRaw :: "'w bitserial_api \<Rightarrow> int list \<Rightarrow> 'w i2c \<Rightarrow> bool \<times> 'w i2c" where
  "shSsdRaw api tx s = SmartHelmet_I2cWrite api shSsdBus 0x3C tx s"

definition shSsdCmd :: "'w bitserial_api \<Rightarrow> int \<Rightarrow> 'w i2c \<Rightarrow> bool \<times> 'w i2c" where
  "shSsdCmd api cmd s = shSsdRaw api [0x00, cmd] s"

function shSsdCmdList :: "'w bitserial_api \<Rightarrow> int list \<Rightarrow> 'w i2c \<Rightarrow> bool \<times> 'w i2c" where
  "shSsdCmdList api cmds s =
     (if cmds = [] then (True, s)
      else case shSsdRaw api (0x00 # take 16 cmds) s of (ok, s') \<Rightarrow>
        if ok then shSsdCmdList api (drop 16 cmds) s' else (False, s'))"
  by pat_completeness auto
termination by (relation "measure (\<lambda>(_, cmds, _). length cmds)") auto

function shSsdData :: "'w bitserial_api \<Rightarrow> int list \<Rightarrow> 'w i2c \<Rightarrow> bool \<times> 'w i2c" where
  "shSsdData api data s =
     (if data = [] then (True, s)
      else case shSsdRaw api (0x40 # take 16 data) s of (ok, s') \<Rightarrow>
        if ok then shSsdData api (drop 16 data) s' else (False, s'))"
  by pat_completeness auto
termination by (relation "measure (\<lambda>(_, data, _). length data)") auto

declare shSsdCmdList.simps [simp del] shSsdData.simps [simp del]

definition sh_font5x7 :: "int list list" where
  "sh_font5x7 =
    [[0x00, 0x00, 0x00, 0x00, 0x00],
     [0x00, 0x00, 0x5F, 0x00, 0x00],
     [0x00, 0x07, 0x00, 0x07, 0x00],
     [0x14, 0x7F, 0x14, 0x7F, 0x14],
     [0x24, 0x2A, 0x7F, 0x2A, 0x12],
     [0x23, 0x13, 0x08, 0x64, 0x62],
     [0x36, 0x49, 0x55, 0x22, 0x50],
     [0x00, 0x05, 0x03, 0x00, 0x00],
     [0x00, 0x1C, 0x22, 0x41, 0x00],
     [0x00, 0x41, 0x22, 0x1C, 0x00],
     [0x14, 0x08, 0x3E, 0x08, 0x14],
     [0x08, 0x08, 0x3E, 0x08, 0x08],
     [0x00, 0x50, 0x30, 0x00, 0x00],
     [0x08, 0x08, 0x08, 0x08, 0x08],
     [0x00, 0x60, 0x60, 0x00, 0x00],
     [0x20, 0x10, 0x08, 0x04, 0x02],
     [0x3E, 0x51, 0x49, 0x45, 0x3E],
     [0x00, 0x42, 0x7F, 0x40, 0x00],
     [0x42, 0x61, 0x51, 0x49, 0x46],
     [0x21, 0x41, 0x45, 0x4B, 0x31],
     [0x18, 0x14, 0x12, 0x7F, 0x10],
     [0x27, 0x45, 0x45, 0x45, 0x39],
     [0x3C, 0x4A, 0x49, 0x49, 0x30],
     [0x01, 0x71, 0x09, 0x05, 0x03],
     [0x36, 0x49, 0x49, 0x49, 0x36],
     [0x06, 0x49, 0x49, 0x29, 0x1E],
     [0x00, 0x36, 0x36, 0x00, 0x00],
     [0x00, 0x56, 0x36, 0x00, 0x00],
     [0x08, 0x14, 0x22, 0x41, 0x00],
     [0x14, 0x14, 0x14, 0x14, 0x14],
     [0x00, 0x41, 0x22, 0x14, 0x08],
     [0x02, 0x01, 0x51, 0x09, 0x06],
     [0x32, 0x49, 0x79, 0x41, 0x3E],
     [0x7E, 0x11, 0x11, 0x11, 0x7E],
     [0x7F, 0x49, 0x49, 0x49, 0x36],
     [0x3E, 0x41, 0x41, 0x41, 0x22],
     [0x7F, 0x41, 0x41, 0x22, 0x1C],
     [0x7F, 0x49, 0x49, 0x49, 0x41],
     [0x7F, 0x09, 0x09, 0x09, 0x01],
     [0x3E, 0x41, 0x49, 0x49, 0x7A],
     [0x7F, 0x08, 0x08, 0x08, 0x7F],
     [0x00, 0x41, 0x7F, 0x41, 0x00],
     [0x20, 0x40, 0x41, 0x3F, 0x01],
     [0x7F, 0x08, 0x14, 0x22, 0x41],
     [0x7F, 0x40, 0x40, 0x40, 0x40],
     [0x7F, 0x02, 0x0C, 0x02, 0x7F],
     [0x7F, 0x04, 0x08, 0x10, 0x7F],
     [0x3E, 0x41, 0x41, 0x41, 0x3E],
     [0x7F, 0x09, 0x09, 0x09, 0x06],
     [0x3E, 0x41, 0x51, 0x21, 0x5E],
     [0x7F, 0x09, 0x19, 0x29, 0x46],
     [0x46, 0x49, 0x49, 0x49, 0x31],
     [0x01, 0x01, 0x7F, 0x01, 0x01],
     [0x3F, 0x40, 0x40, 0x40, 0x3F],
     [0x1F, 0x20, 0x40, 0x20, 0x1F],
     [0x3F, 0x40, 0x38, 0x40, 0x3F],
     [0x63, 0x14, 0x08, 0x14, 0x63],
     [0x07, 0x08, 0x70, 0x08, 0x07],
     [0x61, 0x51, 0x49, 0x45, 0x43]]"

section \<open>Screens\<close>

definition page_col_cmds :: "int \<Rightarrow> int \<Rightarrow> int list" where
  "page_col_cmds page col = [0xB0 + page mod 8, col mod 16, 0x10 + (col div 16) mod 16]"

definition shSsdSetPageCol :: "'w bitserial_api \<Rightarrow> int \<Rightarrow> int \<Rightarrow> 'w i2c \<Rightarrow> bool \<times> 'w i2c" where
  "shSsdSetPageCol api page col s = shSsdCmdList api (page_col_cmds page col) s"

function ssd_zero_cols :: "'w bitserial_api \<Rightarrow> nat \<Rightarrow> 'w i2c \<Rightarrow> bool \<times> 'w i2c" where
  "ssd_zero_cols api col s =
     (if col \<ge> 128 then (True, s)
      else let n = min (128 - col) 16
           in case shSsdData api (replicate n 0) s of (ok, s') \<Rightarrow>
             if ok then ssd_zero_cols api (col + n) s' else (False, s'))"
  by pat_completeness auto
termination by (relation "measure (\<lambda>(_, col, _). 128 - col)") auto

declare ssd_zero_cols.simps [simp del]

definition shSsdClearPage :: "'w bitserial_api \<Rightarrow> int \<Rightarrow> 'w i2c \<Rightarrow> bool \<times> 'w i2c" where
  "shSsdClearPage api page s =
     (case shSsdSetPageCol api page 0 s of (ok, s1) \<Rightarrow> if \<not> ok then (False, s1) else ssd_zero_cols api 0 s1)"

fun ssd_clear_pages :: "'w bitserial_api \<Rightarrow> int list \<Rightarrow> 'w i2c \<Rightarrow> bool \<times> 'w i2c" where
  "ssd_clear_pages api [] s = (True, s)"
| "ssd_clear_pages api (page # ps) s =
     (case shSsdSetPageCol api page 0 s of (ok, s1) \<Rightarrow>
        if \<not> ok then (False, s1)
        else case ssd_zero_cols api 0 s1 of (ok2, s2) \<Rightarrow>
          if \<not> ok2 then (False, s2) else ssd_clear_pages api ps s2)"

definition shSsdClear :: "'w bitserial_api \<Rightarrow> 'w i2c \<Rightarrow> bool \<times> 'w i2c" where
  "shSsdClear api s = ssd_clear_pages api [0, 1, 2, 3, 4, 5, 6, 7] s"

definition glyph_code :: "char \<Rightarrow> nat" where
  "glyph_code c = (let ch = (of_char c :: nat) in if ch < 0x20 \<or> ch > 0x5A then 0x20 else ch)"

fun ssd_glyphs :: "'w bitserial_api \<Rightarrow> string \<Rightarrow> 'w i2c \<Rightarrow> bool \<times> 'w i2c" where
  "ssd_glyphs api [] s = (True, s)"
| "ssd_glyphs api (c # cs) s =
     (case shSsdData api (sh_font5x7 ! (glyph_code c - 0x20)) s of (ok, s1) \<Rightarrow>
        if \<not> ok then (False, s1)
        else case shSsdData api [0] s1 of (ok2, s2) \<Rightarrow>
          if \<not> ok2 then (False, s2) else ssd_glyphs api cs s2)"

definition shSsdDrawText :: "'w bitserial_api \<Rightarrow> int \<Rightarrow> int \<Rightarrow> string \<Rightarrow> 'w i2c \<Rightarrow> bool \<times> 'w i2c" where
  "shSsdDrawText api page col str s =
     (case shSsdSetPageCol api page col s of (ok, s1) \<Rightarrow> if \<not> ok then (False, s1) else ssd_glyphs api str s1)"

definition ssd_init_cmds :: "int list" where
  "ssd_init_cmds = [0xAE, 0xD5, 0x80, 0xA8, 0x3F, 0xD3, 0x00, 0x40, 0x8D, 0x14, 0x20, 0x02, 0xA0, 0xC0,
     0xDA, 0x12, 0x81, 0xCF, 0xD9, 0xF1, 0xDB, 0x40, 0xA4, 0xA6, 0x2E, 0xAF]"

definition shSsdInitPanel :: "'w bitserial_api \<Rightarrow> 'w i2c \<Rightarrow> bool \<times> 'w i2c" where
  "shSsdInitPanel api s = shSsdCmdList api ssd_init_cmds s"

definition shSsdShowSplash :: "'w bitserial_api \<Rightarrow> 'w i2c \<Rightarrow> bool \<times> 'w i2c" where
  "shSsdShowSplash api s =
     (case shSsdClear api s of (ok, s1) \<Rightarrow> if \<not> ok then (False, s1)
      else case shSsdDrawText api 2 28 ''SMART HELMET'' s1 of (ok2, s2) \<Rightarrow> if \<not> ok2 then (False, s2)
      else case shSsdDrawText api 4 40 ''QCC3044'' s2 of (ok3, s3) \<Rightarrow> if \<not> ok3 then (False, s3)
      else shSsdDrawText api 6 46 ''READY'' s3)"

definition shProbeSsd1315 :: "'w bitserial_api \<Rightarrow> 'w i2c \<Rightarrow> bool \<times> 'w i2c" where
  "shProbeSsd1315 api s = shSsdCmd api 0xAE s"

definition shInitSsd1315 :: "'w bitserial_api \<Rightarrow> 'w i2c \<Rightarrow> bool \<times> 'w i2c" where
  "shInitSsd1315 api s =
     (case shSsdInitPanel api s of (ok, s1) \<Rightarrow> if \<not> ok then (False, s1) else shSsdShowSplash api s1)"

section \<open>Frames\<close>

function ssd_frames :: "int \<Rightarrow> int list \<Rightarrow> int list list" where
  "ssd_frames ctrl data = (if data = [] then [] else (ctrl # take 16 data) # ssd_frames ctrl (drop 16 data))"
  by pat_completeness auto
termination by (relation "measure (\<lambda>(_, data). length data)") auto

declare ssd_frames.simps [simp del]

lemma ssd_frames_payload:
  "concat (map tl (ssd_frames ctrl data)) = data \<and>
   list_all (\<lambda>f. hd f = ctrl \<and> 1 < length f \<and> length f \<le> 17) (ssd_frames ctrl data)"
proof (induction ctrl data rule: ssd_frames.induct)
  case (1 ctrl data)
  then show ?case by (subst (1 2) ssd_frames.simps) auto
qed

abbreviation ssd_send :: "'w bitserial_api \<Rightarrow> int list list \<Rightarrow> 'w i2c \<Rightarrow> bool \<times> 'w i2c" where
  "ssd_send api \<equiv> write_frames (shSsdRaw api)"

interpretation ssd: bus_driver "shSsdRaw api" i2c_inv for api
  by unfold_locales (simp add: shSsdRaw_def i2c_wrappers_inv)

lemma cmd_list_frames: "shSsdCmdList api cmds s = ssd_send api (ssd_frames 0x00 cmds) s"
proof (induction api cmds s rule: shSsdCmdList.induct)
  case (1 api cmds s)
  then show ?case by (subst shSsdCmdList.simps, subst ssd_frames.simps) (auto split: prod.splits)
qed

lemma data_frames: "shSsdData api data s = ssd_send api (ssd_frames 0x40 data) s"
proof (induction api data s rule: shSsdData.induct)
  case (1 api data s)
  then show ?case by (subst shSsdData.simps, subst ssd_frames.simps) (auto split: prod.splits)
qed

definition page_frames :: "int \<Rightarrow> int \<Rightarrow> int list list" where
  "page_frames page col = ssd_frames 0x00 (page_col_cmds page col)"

definition blank_frames :: "int \<Rightarrow> int list list" where
  "blank_frames page = page_frames page 0 @ replicate 8 (0x40 # replicate 16 0)"

definition glyph :: "char \<Rightarrow> int list" where
  "glyph c = sh_font5x7 ! (glyph_code c - 0x20)"

definition text_frames :: "int \<Rightarrow> int \<Rightarrow> string \<Rightarrow> int list list" where
  "text_frames page col str = page_frames page col @ concat (map (\<lambda>c. [0x40 # glyph c, [0x40, 0]]) str)"

definition splash_frames :: "int list list" where
  "splash_frames = concat (map blank_frames [0, 1, 2, 3, 4, 5, 6, 7]) @ text_frames 2 28 ''SMART HELMET'' @
     text_frames 4 40 ''QCC3044'' @ text_frames 6 46 ''READY''"


lemma small_frame: "data \<noteq> [] \<Longrightarrow> length data \<le> 16 \<Longrightarrow> ssd_frames ctrl data = [ctrl # data]"
  by (subst ssd_frames.simps) (simp add: ssd_frames.simps)

lemma font_rows: "length sh_font5x7 = 59" "list_all (\<lambda>r. length r = 5 \<and> list_all is_u8 r) sh_font5x7"
  by (simp_all add: sh_font5x7_def crange)

lemma glyph_index: "glyph_code c - 0x20 < 59"
  unfolding glyph_code_def Let_def by (auto simp: not_less)

lemma glyph_length: "length (glyph c) = 5"
  using font_rows glyph_index [of c] by (auto simp: glyph_def list_all_length)

lemma send_one: "ssd_send api [f] s = shSsdRaw api f s"
  by (simp split: prod.splits)

lemma data_small: "data \<noteq> [] \<Longrightarrow> length data \<le> 16 \<Longrightarrow> shSsdData api data s = shSsdRaw api (0x40 # data) s"
  by (simp add: data_frames small_frame split: prod.splits)

lemma zero_cols_frames:
  "col + 16 * k = 128 \<Longrightarrow> ssd_zero_cols api col s = ssd_send api (replicate k (0x40 # replicate 16 0)) s"
proof (induction k arbitrary: col s)
  case 0
  then show ?case by (subst ssd_zero_cols.simps) simp
next
  case (Suc k)
  have n: "min (128 - col) 16 = 16" and c: "\<not> 128 \<le> col" and r: "col + 16 + 16 * k = 128"
    using Suc.prems by auto
  have z: "replicate 16 (0 :: int) \<noteq> []" by simp
  have d: "shSsdData api (replicate 16 0) s = shSsdRaw api (0x40 # replicate 16 0) s"
    by (rule data_small [OF z]) simp
  show ?case
    unfolding ssd_zero_cols.simps [of api col s] Let_def n d replicate_Suc write_frames.simps
    using c Suc.IH [OF r] by (simp cong: if_cong split: prod.splits)
qed

lemmas page_col_frames = shSsdSetPageCol_def cmd_list_frames page_frames_def [symmetric]

lemma clear_page_frames: "shSsdClearPage api page s = ssd_send api (blank_frames page) s"
  using zero_cols_frames [of 0 8 api] by (simp add: shSsdClearPage_def blank_frames_def page_col_frames
      ssd.frames_append split: prod.splits)

lemma clear_pages_frames: "ssd_clear_pages api ps s = ssd_send api (concat (map blank_frames ps)) s"
proof (induction ps arbitrary: s)
  case (Cons p ps)
  have "ssd_clear_pages api (p # ps) s =
      (case shSsdClearPage api p s of (ok, s1) \<Rightarrow> if ok then ssd_clear_pages api ps s1 else (False, s1))"
    by (simp add: shSsdClearPage_def split: prod.splits)
  with Cons show ?case by (simp add: clear_page_frames ssd.frames_append split: prod.splits)
qed simp

lemma glyphs_frames: "ssd_glyphs api str s = ssd_send api (concat (map (\<lambda>c. [0x40 # glyph c, [0x40, 0]]) str)) s"
proof (induction str arbitrary: s)
  case (Cons c str)
  have "glyph c \<noteq> []" "length (glyph c) \<le> 16" using glyph_length [of c] by auto
  then have d: "shSsdData api (glyph c) s = shSsdRaw api (0x40 # glyph c) s"
    "shSsdData api [0] s = shSsdRaw api [0x40, 0] s" for s
    by (simp_all add: data_small)
  with Cons show ?case by (simp add: d glyph_def [symmetric] split: prod.splits)
qed simp

lemma draw_text_frames: "shSsdDrawText api page col str s = ssd_send api (text_frames page col str) s"
  by (simp add: shSsdDrawText_def text_frames_def page_col_frames glyphs_frames ssd.frames_append
      split: prod.splits)

lemma splash_frames: "shSsdShowSplash api s = ssd_send api splash_frames s"
  by (simp add: shSsdShowSplash_def shSsdClear_def clear_pages_frames draw_text_frames splash_frames_def
      ssd.frames_append del: concat.simps list.map split: prod.splits)

text \<open>Bringing up the panel sends exactly this frame sequence over the bus: the set-up
  commands, a blank of all eight pages, and the three lines of the splash screen, in chunks of at
  most seventeen bytes, stopping at the first frame the bus refuses; it succeeds if and only
  if every frame was accepted.\<close>

theorem oled_init_frames:
  "shInitSsd1315 api s = ssd_send api (ssd_frames 0x00 ssd_init_cmds @ splash_frames) s \<and>
   list_all (\<lambda>f. length f \<le> 17) (ssd_frames 0x00 ssd_init_cmds @ splash_frames)"
proof -
  have eq: "shInitSsd1315 api s = ssd_send api (ssd_frames 0x00 ssd_init_cmds @ splash_frames) s"
    by (simp add: shInitSsd1315_def shSsdInitPanel_def cmd_list_frames splash_frames ssd.frames_append
        split: prod.splits)
  have "list_all (\<lambda>f. length f \<le> 17) (text_frames p c str)" for p c str
    using ssd_frames_payload [of 0 "page_col_cmds p c"]
    by (induction str) (auto simp: text_frames_def page_frames_def list_all_iff glyph_length)
  moreover have "list_all (\<lambda>f. length f \<le> 17) (blank_frames p)" for p
    using ssd_frames_payload [of 0 "page_col_cmds p 0"] by (auto simp: blank_frames_def page_frames_def list_all_iff)
  ultimately have "list_all (\<lambda>f. length f \<le> 17) (ssd_frames 0x00 ssd_init_cmds @ splash_frames)"
    using ssd_frames_payload [of 0 ssd_init_cmds] by (auto simp: splash_frames_def list_all_iff)
  with eq show ?thesis by blast
qed

lemma oled_kept [i2c_kept]:
  assumes "i2c_inv s"
  shows "i2c_inv (snd (shInitSsd1315 api s))" and "i2c_inv (snd (shSsdCmd api c s))"
    and "i2c_inv (snd (shSsdCmdList api cs s))" and "i2c_inv (snd (shSsdClear api s))"
    and "i2c_inv (snd (shSsdClearPage api p s))" and "i2c_inv (snd (shSsdDrawText api p col str s))"
proof -
  note k = ssd.frames_kept [OF assms]
  show "i2c_inv (snd (shInitSsd1315 api s))"
    by (simp add: shInitSsd1315_def shSsdInitPanel_def cmd_list_frames splash_frames k ssd.frames_kept
        split: prod.splits) (metis k ssd.frames_kept snd_conv)
  show "i2c_inv (snd (shSsdCmd api c s))" by (simp add: shSsdCmd_def shSsdRaw_def i2c_wrappers_inv assms)
  show "i2c_inv (snd (shSsdCmdList api cs s))" "i2c_inv (snd (shSsdClear api s))"
    "i2c_inv (snd (shSsdClearPage api p s))" "i2c_inv (snd (shSsdDrawText api p col str s))"
    by (simp_all only: cmd_list_frames shSsdClear_def clear_pages_frames clear_page_frames draw_text_frames k)
qed

end
