(* ===== verification/Sensors.thy ===== *)
theory Sensors
  imports Oled Messages
begin

text \<open>
  The I2C sensor hub (\<^verbatim>\<open>smart_helmet_sensors.c\<close>): identification and set-up of the CCS811,
  HDC1080, LIS3DH, MLX90614 and of the OLED, the bounded retry of the bring-up, the polling of
  the measurements with their unit conversions, and the status screen. A byte the driver did not
  deliver reads as the zero the receive buffers are initialised with, and every byte is a
  \<open>uint8\<close>. The inputs of the status screen that other modules own (headset state, battery,
  audio, Wi-SUN status) are the record \<open>ui_env\<close>. The 20 ms busy wait of the HDC1080 reading
  only passes time and is left out; so are the log lines.
\<close>

section \<open>State\<close>

record sensor_data =
  ccs811_ok :: bool
  hdc1080_ok :: bool
  lis3dh_ok :: bool
  mlx90614_ok :: bool
  ssd1315_ok :: bool
  ccs811_eco2 :: int
  ccs811_tvoc :: int
  hdc_temp_x100 :: int
  hdc_humidity_x100 :: int
  lis3dh_x :: int
  lis3dh_y :: int
  lis3dh_z :: int
  object_temp_x100 :: int
  ambient_temp_x100 :: int

record 'w sensors =
  sd :: sensor_data
  sh_probe_task :: bool
  sh_log_task :: bool
  sh_probe_try :: int
  sh_display_blanked :: bool
  sh_oled_prev :: "string list"
  sh_oled_have_prev :: bool
  sh_init_fail_latched :: bool
  sh_init_fail_line :: string
  bus :: "'w i2c"

record ui_env =
  ui_state :: int
  ui_batt_pct :: int
  ui_handset :: bool
  ui_sco :: bool
  ui_a2dp :: bool
  ui_rejoining :: bool
  ui_online :: bool
  ui_passthrough :: bool
  ui_module_seen :: bool
  ui_ip_seen :: bool
  ui_reset_seen :: bool

section \<open>Registers and conversions\<close>

definition rx_byte :: "int list \<Rightarrow> nat \<Rightarrow> int" where
  "rx_byte rx i = (if i < length rx then u8 (rx ! i) else 0)"

definition be16 :: "int list \<Rightarrow> nat \<Rightarrow> int" where
  "be16 rx i = rx_byte rx i * 256 + rx_byte rx (i + 1)"

definition shProbeCcs811 :: "'w bitserial_api \<Rightarrow> 'w i2c \<Rightarrow> bool \<times> 'w i2c" where
  "shProbeCcs811 api b = (case SmartHelmet_I2cReadReg api 0 0x5B 0x20 1 b of (rd, rx, b') \<Rightarrow>
     (rd \<and> rx_byte rx 0 = 0x81, b'))"

definition shInitCcs811 :: "'w bitserial_api \<Rightarrow> 'w i2c \<Rightarrow> bool \<times> 'w i2c" where
  "shInitCcs811 api b = (case SmartHelmet_I2cWriteReg api 0 0x5B 0xF4 [] b of (_, b') \<Rightarrow>
     SmartHelmet_I2cWriteReg api 0 0x5B 0x01 [0x10] b')"

definition shHdcReadU16 :: "'w bitserial_api \<Rightarrow> int \<Rightarrow> 'w i2c \<Rightarrow> int option \<times> 'w i2c" where
  "shHdcReadU16 api reg b =
     (case SmartHelmet_I2cWrite api 0 0x40 [reg] b of (ok1, b1) \<Rightarrow> if \<not> ok1 then (None, b1)
      else case SmartHelmet_I2cRead api 0 0x40 2 b1 of (ok2, first, b2) \<Rightarrow> if \<not> ok2 then (None, b2)
      else case SmartHelmet_I2cRead api 0 0x40 2 b2 of (ok3, buf, b3) \<Rightarrow> if \<not> ok3 then (None, b3)
      else (Some (be16 buf 0), b3))"

definition shProbeHdc1080 :: "'w bitserial_api \<Rightarrow> 'w i2c \<Rightarrow> bool \<times> 'w i2c" where
  "shProbeHdc1080 api b =
     (case shHdcReadU16 api 0xFE b of (manuf, b1) \<Rightarrow>
        case shHdcReadU16 api 0xFF b1 of (devid, b2) \<Rightarrow>
          (manuf = Some 0x5449 \<and> devid = Some 0x1050, b2))"

definition shInitHdc1080 :: "'w bitserial_api \<Rightarrow> 'w i2c \<Rightarrow> bool \<times> 'w i2c" where
  "shInitHdc1080 api b = SmartHelmet_I2cWriteReg api 0 0x40 0x02 [0x10, 0x00] b"

definition shLis3dhRawToMg :: "int \<Rightarrow> int \<Rightarrow> int" where
  "shLis3dhRawToMg lo hi = s16 ((s16 (hi * 256 + lo) sdiv 64) * 4)"

definition shProbeLis3dh :: "'w bitserial_api \<Rightarrow> 'w i2c \<Rightarrow> bool \<times> 'w i2c" where
  "shProbeLis3dh api b = (case SmartHelmet_I2cReadReg api 0 0x18 0x0F 1 b of (rd, rx, b') \<Rightarrow>
     (rd \<and> rx_byte rx 0 = 0x33, b'))"

definition shInitLis3dh :: "'w bitserial_api \<Rightarrow> 'w i2c \<Rightarrow> bool \<times> 'w i2c" where
  "shInitLis3dh api b = (case SmartHelmet_I2cWriteReg api 0 0x18 0x23 [0x80] b of (ok, b') \<Rightarrow>
     if \<not> ok then (False, b') else SmartHelmet_I2cWriteReg api 0 0x18 0x20 [0x57] b')"

definition shMlxRawToCentiC :: "int \<Rightarrow> int" where
  "shMlxRawToCentiC raw = s16 (raw * 2 - 27315)"

definition shReadMlx90614 :: "'w bitserial_api \<Rightarrow> int \<Rightarrow> 'w i2c \<Rightarrow> int option \<times> 'w i2c" where
  "shReadMlx90614 api ram b = (case SmartHelmet_I2cTransfer api 0 0x5A [ram] 3 b of (ok, rx, b') \<Rightarrow>
     let raw = rx_byte rx 0 + rx_byte rx 1 * 256
     in if \<not> ok then (None, b')
        else if raw = 0 \<or> raw = 0xFFFF then (None, b')
        else (Some (shMlxRawToCentiC raw), b'))"

definition hdc_temp :: "int \<Rightarrow> int" where
  "hdc_temp raw = s16 ((raw * 16500) sdiv 65536 - 4000)"

definition hdc_humidity :: "int \<Rightarrow> int" where
  "hdc_humidity raw = u16 (u32 (raw * 10000) div 65536)"

section \<open>Status screen\<close>

definition shStateText :: "bool \<Rightarrow> int \<Rightarrow> string" where
  "shStateText handset state =
     (if state = 2 then ''STATE LIMBO'' else if state = 3 then ''STATE PWR ON''
      else if state = 4 then ''STATE PAIR''
      else if state = 5 then (if handset then ''CONNECTED IDLE'' else ''IDLE'')
      else if state = 6 then ''STATE BUSY'' else if state = 8 then ''STATE PWR OFF''
      else if state = 7 then ''STATE TERM'' else ''STATE OFF'')"

definition shStateIsOn :: "int \<Rightarrow> bool" where
  "shStateIsOn state \<longleftrightarrow> state = 3 \<or> state = 4 \<or> state = 5 \<or> state = 6"

definition shBrText :: "ui_env \<Rightarrow> string" where
  "shBrText e =
     (if ui_rejoining e then ''WISUN REJOIN''
      else if ui_online e then ''WISUN ONLINE''
      else if ui_passthrough e then ''WISUN JOIN''
      else if ui_module_seen e \<or> ui_ip_seen e \<or> ui_reset_seen e then ''WISUN JOIN''
      else ''WISUN WAIT'')"

definition shAudioText :: "ui_env \<Rightarrow> string" where
  "shAudioText e = (if ui_sco e then ''AUDIO CALL'' else if ui_a2dp e then ''AUDIO MUSIC'' else ''AUDIO IDLE'')"

definition digit_char :: "int \<Rightarrow> char" where
  "digit_char d = char_of (48 + d)"

definition shFmtPct :: "int \<Rightarrow> string" where
  "shFmtPct pct = ''BAT  '' @
     (if pct > 99 then ''100''
      else if pct > 9 then [CHR '' '', digit_char (pct div 10), digit_char (pct mod 10)]
      else [CHR '' '', CHR '' '', digit_char pct]) @ ''%''"

definition latch_one :: "bool \<times> string \<Rightarrow> string \<Rightarrow> string" where
  "latch_one d line = (if \<not> fst d \<and> length line + 4 \<le> 15
     then (if line \<noteq> [] then line @ '' '' else line) @ snd d else line)"

definition shLatchInitFail :: "'w sensors \<Rightarrow> 'w sensors" where
  "shLatchInitFail s =
     (let line = fold latch_one [(ccs811_ok (sd s), ''CCS''), (hdc1080_ok (sd s), ''HDC''),
            (mlx90614_ok (sd s), ''MLX''), (lis3dh_ok (sd s), ''LIS'')] []
      in s\<lparr>sh_init_fail_line := line, sh_init_fail_latched := (line \<noteq> [])\<rparr>)"

definition shClearInitFail :: "'w sensors \<Rightarrow> 'w sensors" where
  "shClearInitFail s = s\<lparr>sh_init_fail_latched := False, sh_init_fail_line := []\<rparr>"

definition SmartHelmet_SensorsDisplayOff :: "'w bitserial_api \<Rightarrow> 'w sensors \<Rightarrow> 'w sensors" where
  "SmartHelmet_SensorsDisplayOff api s =
     (if \<not> ssd1315_ok (sd s) then s else s\<lparr>bus := snd (shSsdCmd api 0xAE (bus s))\<rparr>)"

definition SmartHelmet_SensorsDisplayBlank :: "'w bitserial_api \<Rightarrow> 'w sensors \<Rightarrow> 'w sensors" where
  "SmartHelmet_SensorsDisplayBlank api s =
     (let s1 = shClearInitFail (s\<lparr>sh_display_blanked := True, sh_oled_have_prev := False,
                 sh_oled_prev := replicate 4 []\<rparr>)
      in if \<not> ssd1315_ok (sd s1) then s1
         else s1\<lparr>bus := snd (shSsdCmdList api [0x8D, 0x10, 0xAE] (snd (shSsdClear api (bus s1))))\<rparr>)"

definition SmartHelmet_SensorsDisplayOn :: "'w bitserial_api \<Rightarrow> 'w sensors \<Rightarrow> 'w sensors" where
  "SmartHelmet_SensorsDisplayOn api s =
     (if \<not> ssd1315_ok (sd s) then s
      else s\<lparr>sh_display_blanked := False, bus := snd (shSsdCmdList api [0x8D, 0x14, 0xAF] (bus s))\<rparr>)"

definition SmartHelmet_SensorsDisplayResume :: "'w bitserial_api \<Rightarrow> 'w sensors \<Rightarrow> 'w sensors" where
  "SmartHelmet_SensorsDisplayResume api s = SmartHelmet_SensorsDisplayOn api s"

definition sleep_ccs811 :: "'w bitserial_api \<Rightarrow> 'w sensors \<Rightarrow> 'w sensors" where
  "sleep_ccs811 api s = (if ccs811_ok (sd s)
     then s\<lparr>bus := snd (SmartHelmet_I2cWriteReg api 0 0x5B 0x01 [0] (bus s)), sd := (sd s)\<lparr>ccs811_ok := False\<rparr>\<rparr> else s)"

definition sleep_lis3dh :: "'w bitserial_api \<Rightarrow> 'w sensors \<Rightarrow> 'w sensors" where
  "sleep_lis3dh api s = (if lis3dh_ok (sd s)
     then s\<lparr>bus := snd (SmartHelmet_I2cWriteReg api 0 0x18 0x20 [0] (bus s)), sd := (sd s)\<lparr>lis3dh_ok := False\<rparr>\<rparr> else s)"

definition SmartHelmet_SensorsSleep :: "'w bitserial_api \<Rightarrow> 'w sensors \<Rightarrow> 'w sensors" where
  "SmartHelmet_SensorsSleep api s =
     (let s1 = sleep_lis3dh api (sleep_ccs811 api s)
      in shClearInitFail (s1\<lparr>sd := (sd s1)\<lparr>hdc1080_ok := False, mlx90614_ok := False\<rparr>\<rparr>))"

definition oled_lines :: "ui_env \<Rightarrow> 'w sensors \<Rightarrow> string list" where
  "oled_lines e s =
     (let state = ui_state e; pct = (if ui_batt_pct e \<ge> 99 then 100 else ui_batt_pct e)
      in [shStateText (ui_handset e) state, shFmtPct pct] @
         (if sh_init_fail_latched s \<and> shStateIsOn state then [''INIT FAIL'', sh_init_fail_line s]
          else [if state = 2 then '''' else shBrText e, if state = 2 then '''' else shAudioText e]))"

text \<open>The line loop: a line that is already on the panel is skipped, a refused write abandons the update.\<close>

fun oled_draw :: "'w bitserial_api \<Rightarrow> (nat \<times> string) list \<Rightarrow> 'w sensors \<Rightarrow> bool \<times> 'w sensors" where
  "oled_draw api [] s = (True, s)"
| "oled_draw api ((i, line) # rest) s =
     (if sh_oled_have_prev s \<and> sh_oled_prev s ! i = line then oled_draw api rest s
      else case shSsdClearPage api (2 * int i) (bus s) of (ok, b1) \<Rightarrow>
        if \<not> ok then (False, s\<lparr>bus := b1\<rparr>)
        else case (if line \<noteq> [] then shSsdDrawText api (2 * int i) 4 line b1 else (True, b1)) of (ok2, b2) \<Rightarrow>
          if \<not> ok2 then (False, s\<lparr>bus := b2\<rparr>)
          else oled_draw api rest (s\<lparr>bus := b2, sh_oled_prev := (sh_oled_prev s)[i := take 15 line]\<rparr>))"

definition SmartHelmet_SensorsShowAdcMv :: "'w bitserial_api \<Rightarrow> ui_env \<Rightarrow> 'w sensors \<Rightarrow> 'w sensors" where
  "SmartHelmet_SensorsShowAdcMv api e s =
     (if \<not> ssd1315_ok (sd s) then s
      else if sh_display_blanked s \<or> (\<not> shStateIsOn (ui_state e) \<and> ui_state e \<noteq> 2)
      then SmartHelmet_SensorsDisplayBlank api s
      else let s1 = SmartHelmet_SensorsDisplayOn api s
           in case oled_draw api (enumerate 0 (oled_lines e s1)) s1 of (ok, s2) \<Rightarrow>
             if ok then s2\<lparr>sh_oled_have_prev := True\<rparr> else s2)"

section \<open>Bring-up and retry\<close>

definition shSensorsRequiredOk :: "'w sensors \<Rightarrow> bool" where
  "shSensorsRequiredOk s \<longleftrightarrow> ccs811_ok (sd s) \<and> hdc1080_ok (sd s) \<and> mlx90614_ok (sd s) \<and>
     lis3dh_ok (sd s) \<and> ssd1315_ok (sd s)"

definition SmartHelmet_SensorsReady :: "'w sensors \<Rightarrow> bool" where
  "SmartHelmet_SensorsReady s = shSensorsRequiredOk s"

definition shSensorsScheduleRetry :: "'w sensors \<Rightarrow> timer_call list" where
  "shSensorsScheduleRetry s =
     (if sh_probe_task s then [MessageCancelAll I2C_PROBE_RETRY, MessageSendLater I2C_PROBE_RETRY 1000] else [])"

definition bring_up :: "('w i2c \<Rightarrow> bool \<times> 'w i2c) \<Rightarrow> ('w i2c \<Rightarrow> bool \<times> 'w i2c) \<Rightarrow> 'w i2c \<Rightarrow> bool \<times> 'w i2c" where
  "bring_up probe init b = (case probe b of (found, b1) \<Rightarrow> if found then init b1 else (False, b1))"

definition try_ccs811 :: "'w bitserial_api \<Rightarrow> 'w sensors \<Rightarrow> 'w sensors" where
  "try_ccs811 api s = (case bring_up (shProbeCcs811 api) (shInitCcs811 api) (bus s) of (ok, b) \<Rightarrow>
     s\<lparr>bus := b, sd := (sd s)\<lparr>ccs811_ok := ok\<rparr>\<rparr>)"

definition try_hdc1080 :: "'w bitserial_api \<Rightarrow> 'w sensors \<Rightarrow> 'w sensors" where
  "try_hdc1080 api s = (case bring_up (shProbeHdc1080 api) (shInitHdc1080 api) (bus s) of (ok, b) \<Rightarrow>
     s\<lparr>bus := b, sd := (sd s)\<lparr>hdc1080_ok := ok\<rparr>\<rparr>)"

definition try_lis3dh :: "'w bitserial_api \<Rightarrow> 'w sensors \<Rightarrow> 'w sensors" where
  "try_lis3dh api s = (case bring_up (shProbeLis3dh api) (shInitLis3dh api) (bus s) of (ok, b) \<Rightarrow>
     s\<lparr>bus := b, sd := (sd s)\<lparr>lis3dh_ok := ok\<rparr>\<rparr>)"

definition try_mlx90614 :: "'w bitserial_api \<Rightarrow> 'w sensors \<Rightarrow> 'w sensors" where
  "try_mlx90614 api s = (case shReadMlx90614 api 0x06 (bus s) of (r, b) \<Rightarrow>
     (case r of None \<Rightarrow> s\<lparr>bus := b\<rparr>
      | Some t \<Rightarrow> s\<lparr>bus := b, sd := (sd s)\<lparr>ambient_temp_x100 := t, mlx90614_ok := True\<rparr>\<rparr>))"

definition try_ssd1315 :: "'w bitserial_api \<Rightarrow> 'w sensors \<Rightarrow> 'w sensors" where
  "try_ssd1315 api s = (case bring_up (shProbeSsd1315 api) (shInitSsd1315 api) (bus s) of (ok, b) \<Rightarrow>
     s\<lparr>bus := b, sd := (sd s)\<lparr>ssd1315_ok := ok\<rparr>\<rparr>)"

definition retry_missing :: "'w bitserial_api \<Rightarrow> 'w sensors \<Rightarrow> 'w sensors" where
  "retry_missing api s0 =
     (let s1 = (if ccs811_ok (sd s0) then s0 else try_ccs811 api s0);
          s2 = (if hdc1080_ok (sd s1) then s1 else try_hdc1080 api s1);
          s3 = (if lis3dh_ok (sd s2) then s2 else try_lis3dh api s2);
          s4 = (if mlx90614_ok (sd s3) then s3 else try_mlx90614 api s3)
      in if ssd1315_ok (sd s4) then s4 else try_ssd1315 api s4)"

definition shSensorsVerifyPass :: "'w bitserial_api \<Rightarrow> ui_env \<Rightarrow> 'w sensors \<Rightarrow> 'w sensors \<times> timer_call list" where
  "shSensorsVerifyPass api e s0 =
     (let s = retry_missing api (s0\<lparr>sh_probe_try := u16 (sh_probe_try s0 + 1)\<rparr>);
          cancel = (if sh_probe_task s then [MessageCancelAll I2C_PROBE_RETRY] else [])
      in if shSensorsRequiredOk s then (s, cancel)
         else if sh_probe_try s \<ge> 5 then
           (SmartHelmet_SensorsShowAdcMv api e (shLatchInitFail s), cancel)
         else (s, shSensorsScheduleRetry s))"

definition SmartHelmet_SensorsInitDisplay :: "'w bitserial_api \<Rightarrow> 'w sensors \<Rightarrow> 'w sensors" where
  "SmartHelmet_SensorsInitDisplay api s = try_ssd1315 api (s\<lparr>sd := (sd s)\<lparr>ssd1315_ok := False\<rparr>\<rparr>)"

definition SmartHelmet_SensorsInit :: "'w bitserial_api \<Rightarrow> 'w sensors \<Rightarrow> 'w sensors" where
  "SmartHelmet_SensorsInit api s =
     (let s0 = (shClearInitFail s)\<lparr>sd := (sd s)\<lparr>ccs811_ok := False, hdc1080_ok := False, lis3dh_ok := False,
                  mlx90614_ok := False, ssd1315_ok := False\<rparr>, sh_probe_try := 0\<rparr>
      in try_ssd1315 api (try_mlx90614 api (try_lis3dh api (try_hdc1080 api (try_ccs811 api s0)))))"

section \<open>Polling\<close>

definition poll_ccs811 :: "'w bitserial_api \<Rightarrow> 'w sensors \<Rightarrow> 'w sensors" where
  "poll_ccs811 api s =
     (if \<not> ccs811_ok (sd s) then s
      else case SmartHelmet_I2cReadReg api 0 0x5B 0x00 1 (bus s) of (ok, rx, b1) \<Rightarrow>
        if ok \<and> odd (rx_byte rx 0 div 8) then
          (case SmartHelmet_I2cReadReg api 0 0x5B 0x02 4 b1 of (ok2, buf, b2) \<Rightarrow>
             if ok2 then s\<lparr>bus := b2, sd := (sd s)\<lparr>ccs811_eco2 := be16 buf 0, ccs811_tvoc := be16 buf 2\<rparr>\<rparr>
             else s\<lparr>bus := b2\<rparr>)
        else s\<lparr>bus := b1\<rparr>)"

definition SmartHelmet_SensorsPollLis3dh :: "'w bitserial_api \<Rightarrow> 'w sensors \<Rightarrow> 'w sensors" where
  "SmartHelmet_SensorsPollLis3dh api s =
     (if \<not> lis3dh_ok (sd s) then s
      else case SmartHelmet_I2cReadReg api 0 0x18 0xA8 6 (bus s) of (ok, buf, b1) \<Rightarrow>
        if ok then s\<lparr>bus := b1, sd := (sd s)\<lparr>
            lis3dh_x := shLis3dhRawToMg (rx_byte buf 0) (rx_byte buf 1),
            lis3dh_y := shLis3dhRawToMg (rx_byte buf 2) (rx_byte buf 3),
            lis3dh_z := shLis3dhRawToMg (rx_byte buf 4) (rx_byte buf 5)\<rparr>\<rparr>
        else s\<lparr>bus := b1\<rparr>)"

definition hdc_store :: "int list \<Rightarrow> sensor_data \<Rightarrow> sensor_data" where
  "hdc_store sample d =
     (let d1 = (if rx_byte sample 0 \<noteq> 0 \<or> rx_byte sample 1 \<noteq> 0
                then d\<lparr>hdc_temp_x100 := hdc_temp (be16 sample 0)\<rparr> else d)
      in if rx_byte sample 2 \<noteq> 0 \<or> rx_byte sample 3 \<noteq> 0
         then d1\<lparr>hdc_humidity_x100 := hdc_humidity (be16 sample 2)\<rparr> else d1)"

definition poll_hdc1080 :: "'w bitserial_api \<Rightarrow> 'w sensors \<Rightarrow> 'w sensors" where
  "poll_hdc1080 api s =
     (if \<not> hdc1080_ok (sd s) then s
      else case SmartHelmet_I2cWrite api 0 0x40 [0x00] (bus s) of (ok, b1) \<Rightarrow>
        if \<not> ok then s\<lparr>bus := b1\<rparr>
        else case SmartHelmet_I2cRead api 0 0x40 4 b1 of (ok2, first, b2) \<Rightarrow>
          if \<not> ok2 then s\<lparr>bus := b2\<rparr>
          else case SmartHelmet_I2cRead api 0 0x40 4 b2 of (ok3, second, b3) \<Rightarrow>
            s\<lparr>bus := b3, sd := hdc_store (if ok3 then second else first) (sd s)\<rparr>)"

definition poll_mlx90614 :: "'w bitserial_api \<Rightarrow> 'w sensors \<Rightarrow> 'w sensors" where
  "poll_mlx90614 api s =
     (if \<not> mlx90614_ok (sd s) then s
      else case shReadMlx90614 api 0x06 (bus s) of (ta, b1) \<Rightarrow>
        case shReadMlx90614 api 0x07 b1 of (tobj, b2) \<Rightarrow>
          s\<lparr>bus := b2, sd := (sd s)\<lparr>
              ambient_temp_x100 := (case ta of None \<Rightarrow> ambient_temp_x100 (sd s) | Some t \<Rightarrow> t),
              object_temp_x100 := (case tobj of None \<Rightarrow> object_temp_x100 (sd s) | Some t \<Rightarrow> t)\<rparr>\<rparr>)"

definition SmartHelmet_SensorsPoll :: "'w bitserial_api \<Rightarrow> 'w sensors \<Rightarrow> 'w sensors" where
  "SmartHelmet_SensorsPoll api s =
     poll_mlx90614 api (poll_hdc1080 api (SmartHelmet_SensorsPollLis3dh api (poll_ccs811 api s)))"

section \<open>Retry control\<close>

definition SmartHelmet_SensorsStartVerify :: "bool \<Rightarrow> 'w sensors \<Rightarrow> 'w sensors \<times> timer_call list" where
  "SmartHelmet_SensorsStartVerify task s =
     (let s1 = s\<lparr>sh_probe_task := task\<rparr>
      in (s1, if shSensorsRequiredOk s1 then [] else shSensorsScheduleRetry s1))"

definition SmartHelmet_SensorsStopVerify :: "'w sensors \<Rightarrow> 'w sensors \<times> timer_call list" where
  "SmartHelmet_SensorsStopVerify s =
     (s\<lparr>sh_probe_task := False\<rparr>, if sh_probe_task s then [MessageCancelAll I2C_PROBE_RETRY] else [])"

definition shLis3dhLogArm :: "'w sensors \<Rightarrow> timer_call list" where
  "shLis3dhLogArm s =
     (if sh_log_task s then [MessageCancelAll LIS3DH_LOG_TICK, MessageSendLater LIS3DH_LOG_TICK 1000] else [])"

definition SmartHelmet_SensorsAccelBurstCount :: int where
  "SmartHelmet_SensorsAccelBurstCount = 0"

section \<open>Conversions\<close>

lemma rx_byte_range: "0 \<le> rx_byte rx i" "rx_byte rx i < 256"
  by (simp_all add: rx_byte_def u8_def)

lemma be16_range: "is_u16 (be16 rx i)"
  using rx_byte_range [of rx i] rx_byte_range [of rx "i + 1"] by (simp add: be16_def crange)

lemma sdiv_64: "\<bar>x sdiv 64 * 64 - x\<bar> < (64 :: int)" "- 32768 \<le> x \<Longrightarrow> x \<le> 32767 \<Longrightarrow> - 512 \<le> x sdiv 64 \<and> x sdiv 64 \<le> 511"
  by (auto simp: signed_divide_int_def sgn_if)

lemma rx_byte_u8: "is_u8 (rx_byte rx i)"
  using rx_byte_range [of rx i] by (simp add: crange)

lemma lis_range:
  "- 2048 \<le> shLis3dhRawToMg lo hi \<and> shLis3dhRawToMg lo hi \<le> 2044 \<and> 4 dvd shLis3dhRawToMg lo hi \<and>
   \<bar>16 * shLis3dhRawToMg lo hi - s16 (hi * 256 + lo)\<bar> < 64"
proof -
  define x where "x = s16 (hi * 256 + lo)"
  have x: "- 32768 \<le> x" "x \<le> 32767" unfolding x_def s16_def by linarith+
  have q: "- 512 \<le> x sdiv 64" "x sdiv 64 \<le> 511" "\<bar>x sdiv 64 * 64 - x\<bar> < 64"
    using sdiv_64(2) [OF x] sdiv_64(1) [of x] by blast+
  then have "shLis3dhRawToMg lo hi = x sdiv 64 * 4" by (simp add: shLis3dhRawToMg_def x_def)
  with q show ?thesis by (simp add: x_def)
qed

lemma hdc_range:
  assumes "is_u16 raw"
  shows "- 4000 \<le> hdc_temp raw \<and> hdc_temp raw \<le> 12499 \<and> 0 \<le> hdc_humidity raw \<and> hdc_humidity raw \<le> 9999"
proof -
  have "(raw * 16500) sdiv 65536 = raw * 16500 div 65536"
    using assms by (simp add: signed_divide_int_def sgn_if crange)
  moreover have "0 \<le> raw * 16500 div 65536" "raw * 16500 div 65536 \<le> 16499"
    using assms unfolding crange by linarith+
  moreover have h: "0 \<le> raw * 10000 div 65536" "raw * 10000 div 65536 \<le> 9999"
    using assms unfolding crange by linarith+
  moreover have "hdc_humidity raw = raw * 10000 div 65536"
    using assms h by (simp add: hdc_humidity_def crange)
  ultimately show ?thesis by (simp add: hdc_temp_def)
qed

text \<open>The accelerometer conversion keeps the ten significant bits of a left-justified sample
  and truncates towards zero: the result is a multiple of 4 mg between -2048 and 2044, within one
  step of the exact value \<open>raw / 16\<close>. The HDC1080 temperature lies between -40.00 and 124.99 C and
  its humidity between 0.00 and 99.99 %.\<close>

theorem sensor_conversions_bounded:
  assumes "is_u16 raw"
  shows "- 2048 \<le> shLis3dhRawToMg lo hi \<and> shLis3dhRawToMg lo hi \<le> 2044 \<and> 4 dvd shLis3dhRawToMg lo hi \<and>
    \<bar>16 * shLis3dhRawToMg lo hi - s16 (hi * 256 + lo)\<bar> < 64 \<and>
    - 4000 \<le> hdc_temp raw \<and> hdc_temp raw \<le> 12499 \<and> 0 \<le> hdc_humidity raw \<and> hdc_humidity raw \<le> 9999"
  using lis_range [of lo hi] hdc_range [OF assms] by simp

theorem sensor_conversions_bounded_witness:
  "shLis3dhRawToMg 0 0x80 \<ge> - 2048 \<and> hdc_temp 0x6666 \<le> 12499"
  using sensor_conversions_bounded [of "0x6666" 0 "0x80"] by (simp add: crange)

text \<open>The infrared temperature is exact, \<open>raw / 50\<close> Kelvin in hundredths of a degree
  Celsius, precisely up to a raw reading of 30041 (327.67 C). Every larger reading that passes
  the validity check, including readings with the error flag in the top bit, wraps the 16-bit
  result.\<close>

theorem mlx_exact_iff:
  assumes "is_u16 raw"
  shows "shMlxRawToCentiC raw = raw * 2 - 27315 \<longleftrightarrow> raw \<le> 30041"
proof -
  have "shMlxRawToCentiC raw \<le> 32767" unfolding shMlxRawToCentiC_def s16_def by linarith
  with assms show ?thesis by (auto simp: shMlxRawToCentiC_def crange)
qed

theorem mlx_exact_iff_witness:
  "shMlxRawToCentiC 15658 = 4001 \<and> shMlxRawToCentiC 0x7FFF \<noteq> 0x7FFF * 2 - 27315"
  using mlx_exact_iff [of 15658] mlx_exact_iff [of "0x7FFF"] by (simp add: crange)

section \<open>Published values\<close>

definition sensor_data_ok :: "sensor_data \<Rightarrow> bool" where
  "sensor_data_ok d \<longleftrightarrow> is_u16 (ccs811_eco2 d) \<and> is_u16 (ccs811_tvoc d) \<and>
     - 4000 \<le> hdc_temp_x100 d \<and> hdc_temp_x100 d \<le> 12499 \<and>
     0 \<le> hdc_humidity_x100 d \<and> hdc_humidity_x100 d \<le> 9999 \<and>
     list_all (\<lambda>v. - 2048 \<le> v \<and> v \<le> 2044) [lis3dh_x d, lis3dh_y d, lis3dh_z d] \<and>
     is_s16 (object_temp_x100 d) \<and> is_s16 (ambient_temp_x100 d)"

definition sensors_inv :: "'w sensors \<Rightarrow> bool" where
  "sensors_inv s \<longleftrightarrow> i2c_inv (bus s) \<and> sensor_data_ok (sd s) \<and> length (sh_oled_prev s) = 4 \<and>
     length (sh_init_fail_line s) \<le> 15"

definition sensors_boot :: "'w i2c \<Rightarrow> 'w sensors" where
  "sensors_boot b = \<lparr>sd = \<lparr>ccs811_ok = False, hdc1080_ok = False, lis3dh_ok = False, mlx90614_ok = False,
       ssd1315_ok = False, ccs811_eco2 = 0, ccs811_tvoc = 0, hdc_temp_x100 = 0, hdc_humidity_x100 = 0,
       lis3dh_x = 0, lis3dh_y = 0, lis3dh_z = 0, object_temp_x100 = 0, ambient_temp_x100 = 0\<rparr>,
     sh_probe_task = False, sh_log_task = False, sh_probe_try = 0, sh_display_blanked = False,
     sh_oled_prev = replicate 4 [], sh_oled_have_prev = False, sh_init_fail_latched = False,
     sh_init_fail_line = [], bus = b\<rparr>"

named_theorems sens_kept \<open>operations that keep the invariant of the sensor hub\<close>

lemma sensors_invI:
  "i2c_inv (bus s) \<Longrightarrow> sensor_data_ok (sd s) \<Longrightarrow> length (sh_oled_prev s) = 4 \<Longrightarrow>
   length (sh_init_fail_line s) \<le> 15 \<Longrightarrow> sensors_inv s"
  by (simp add: sensors_inv_def)

lemma sensors_invD:
  assumes "sensors_inv s"
  shows "i2c_inv (bus s)" "sensor_data_ok (sd s)" "length (sh_oled_prev s) = 4" "length (sh_init_fail_line s) \<le> 15"
  using assms by (simp_all add: sensors_inv_def)

lemma sensors_boot_inv: "i2c_inv b \<Longrightarrow> sensors_inv (sensors_boot b)"
  by (simp add: sensors_inv_def sensors_boot_def sensor_data_ok_def crange)

lemma ok_flags_data [simp]:
  "sensor_data_ok (d\<lparr>ccs811_ok := b\<rparr>) = sensor_data_ok d" "sensor_data_ok (d\<lparr>hdc1080_ok := b\<rparr>) = sensor_data_ok d"
  "sensor_data_ok (d\<lparr>lis3dh_ok := b\<rparr>) = sensor_data_ok d" "sensor_data_ok (d\<lparr>mlx90614_ok := b\<rparr>) = sensor_data_ok d"
  "sensor_data_ok (d\<lparr>ssd1315_ok := b\<rparr>) = sensor_data_ok d"
  by (simp_all add: sensor_data_ok_def)

lemma bus_update_inv: "sensors_inv s \<Longrightarrow> i2c_inv b \<Longrightarrow> sensors_inv (s\<lparr>bus := b\<rparr>)"
  by (simp add: sensors_inv_def)

lemma s16_range: "is_s16 (s16 x)"
  unfolding crange s16_def by linarith

subsection \<open>Transfers of the device drivers\<close>

lemma probe_kept [i2c_kept]:
  assumes "i2c_inv b"
  shows "i2c_inv (snd (shProbeCcs811 api b))" "i2c_inv (snd (shInitCcs811 api b))"
    "i2c_inv (snd (shProbeLis3dh api b))" "i2c_inv (snd (shInitLis3dh api b))"
    "i2c_inv (snd (shInitHdc1080 api b))" "i2c_inv (snd (shProbeSsd1315 api b))"
  using assms
  by (simp_all add: shProbeCcs811_def shInitCcs811_def shProbeLis3dh_def shInitLis3dh_def shInitHdc1080_def
      shProbeSsd1315_def i2c_wrappers_inv oled_kept case_prod_beta)

lemma hdc_read_kept [i2c_kept]: "i2c_inv b \<Longrightarrow> i2c_inv (snd (shHdcReadU16 api r b))"
  by (simp add: shHdcReadU16_def case_prod_beta i2c_wrappers_inv)

lemma probe_hdc_kept [i2c_kept]: "i2c_inv b \<Longrightarrow> i2c_inv (snd (shProbeHdc1080 api b))"
  by (simp add: shProbeHdc1080_def case_prod_beta hdc_read_kept)

lemma mlx_read_kept [i2c_kept]: "i2c_inv b \<Longrightarrow> i2c_inv (snd (shReadMlx90614 api r b))"
  by (simp add: shReadMlx90614_def case_prod_beta Let_def SmartHelmet_I2cTransfer_inv)

lemma mlx_read_s16: "fst (shReadMlx90614 api r b) = Some t \<Longrightarrow> is_s16 t"
  by (auto simp: shReadMlx90614_def case_prod_beta Let_def shMlxRawToCentiC_def s16_range split: if_splits)

lemma bring_up_kept:
  assumes "i2c_inv b" "\<And>b. i2c_inv b \<Longrightarrow> i2c_inv (snd (probe b))" "\<And>b. i2c_inv b \<Longrightarrow> i2c_inv (snd (init b))"
  shows "i2c_inv (snd (bring_up probe init b))"
proof -
  obtain f b1 where p: "probe b = (f, b1)" by fastforce
  with assms(1,2) have "i2c_inv b1" by (metis snd_conv)
  with assms(3) p show ?thesis by (simp add: bring_up_def)
qed

subsection \<open>Bring-up, display and polling\<close>

lemma try_kept [sens_kept]:
  assumes "sensors_inv s"
  shows "sensors_inv (try_ccs811 api s)" "sensors_inv (try_hdc1080 api s)" "sensors_inv (try_lis3dh api s)"
    "sensors_inv (try_ssd1315 api s)" "sensors_inv (try_mlx90614 api s)"
proof -
  note inv = sensors_invD [OF assms]
  have "i2c_inv (snd (bring_up (shProbeCcs811 api) (shInitCcs811 api) (bus s)))"
    "i2c_inv (snd (bring_up (shProbeHdc1080 api) (shInitHdc1080 api) (bus s)))"
    "i2c_inv (snd (bring_up (shProbeLis3dh api) (shInitLis3dh api) (bus s)))"
    "i2c_inv (snd (bring_up (shProbeSsd1315 api) (shInitSsd1315 api) (bus s)))"
    by (rule bring_up_kept; simp add: inv(1) i2c_kept)+
  with inv show "sensors_inv (try_ccs811 api s)" "sensors_inv (try_hdc1080 api s)" "sensors_inv (try_lis3dh api s)"
    "sensors_inv (try_ssd1315 api s)"
    by (auto simp: try_ccs811_def try_hdc1080_def try_lis3dh_def try_ssd1315_def sensors_inv_def split: prod.splits)
  show "sensors_inv (try_mlx90614 api s)" using inv
    by (auto simp: try_mlx90614_def sensors_inv_def sensor_data_ok_def case_prod_beta mlx_read_kept
        split: option.splits dest: mlx_read_s16)
qed

lemma latch_one_length: "length line \<le> 15 \<Longrightarrow> length (snd d) = 3 \<Longrightarrow> length (latch_one d line) \<le> 15"
  by (auto simp: latch_one_def)

lemma latch_kept [sens_kept]: "sensors_inv s \<Longrightarrow> sensors_inv (shLatchInitFail s)"
  by (auto simp: shLatchInitFail_def Let_def sensors_inv_def intro!: latch_one_length)

lemma clear_fail_kept [sens_kept]: "sensors_inv s \<Longrightarrow> sensors_inv (shClearInitFail s)"
  by (simp add: shClearInitFail_def sensors_inv_def)

lemma blank_kept [sens_kept]: "sensors_inv s \<Longrightarrow> sensors_inv (SmartHelmet_SensorsDisplayBlank api s)"
  by (simp add: SmartHelmet_SensorsDisplayBlank_def Let_def sensors_inv_def shClearInitFail_def oled_kept)

lemma display_on_kept [sens_kept]: "sensors_inv s \<Longrightarrow> sensors_inv (SmartHelmet_SensorsDisplayOn api s)"
  by (simp add: SmartHelmet_SensorsDisplayOn_def sensors_inv_def oled_kept)

lemma display_off_kept [sens_kept]: "sensors_inv s \<Longrightarrow> sensors_inv (SmartHelmet_SensorsDisplayOff api s)"
  by (simp add: SmartHelmet_SensorsDisplayOff_def sensors_inv_def oled_kept)

lemma sleep_kept [sens_kept]: "sensors_inv s \<Longrightarrow> sensors_inv (SmartHelmet_SensorsSleep api s)"
  by (simp add: SmartHelmet_SensorsSleep_def Let_def shClearInitFail_def sleep_ccs811_def sleep_lis3dh_def
      sensors_inv_def i2c_wrappers_inv)

lemma oled_draw_kept: "sensors_inv s \<Longrightarrow> sensors_inv (snd (oled_draw api ls s))"
proof (induction ls arbitrary: s)
  case (Cons l ls)
  obtain i line where l: "l = (i, line)" by fastforce
  obtain ok1 b1 where b1: "shSsdClearPage api (2 * int i) (bus s) = (ok1, b1)" by fastforce
  have i1: "i2c_inv b1" using oled_kept(5) [OF sensors_invD(1) [OF Cons.prems], of api "2 * int i"] b1 by simp
  obtain ok2 b2 where b2: "(if line \<noteq> [] then shSsdDrawText api (2 * int i) 4 line b1 else (True, b1)) = (ok2, b2)"
    by fastforce
  have i2: "i2c_inv b2" using oled_kept(6) [OF i1, of api "2 * int i" 4 line] b2 i1 by (auto split: if_splits)
  have "sensors_inv (s\<lparr>bus := b2, sh_oled_prev := (sh_oled_prev s)[i := take 15 line]\<rparr>)"
    using i2 Cons.prems by (simp add: sensors_inv_def)
  with Cons.IH [OF this] Cons.IH [OF Cons.prems] i1 i2 Cons.prems show ?case
    unfolding l oled_draw.simps b1 b2 prod.case by (simp add: bus_update_inv)
qed simp

lemma have_prev_kept [simp]: "sensors_inv (s\<lparr>sh_oled_have_prev := b\<rparr>) = sensors_inv s"
  by (simp add: sensors_inv_def)

lemma show_kept [sens_kept]: "sensors_inv s \<Longrightarrow> sensors_inv (SmartHelmet_SensorsShowAdcMv api e s)"
  by (simp add: SmartHelmet_SensorsShowAdcMv_def Let_def case_prod_beta blank_kept oled_draw_kept display_on_kept)

lemma retry_kept [sens_kept]: "sensors_inv s \<Longrightarrow> sensors_inv (retry_missing api s)"
  by (simp add: retry_missing_def Let_def try_kept)

lemma probe_try_kept [simp]: "sensors_inv (s\<lparr>sh_probe_try := k\<rparr>) = sensors_inv s"
  by (simp add: sensors_inv_def)

lemma verify_kept [sens_kept]: "sensors_inv s \<Longrightarrow> sensors_inv (fst (shSensorsVerifyPass api e s))"
  by (simp add: shSensorsVerifyPass_def Let_def retry_kept show_kept latch_kept)

lemma init_kept [sens_kept]: "sensors_inv s \<Longrightarrow> sensors_inv (SmartHelmet_SensorsInit api s)"
  unfolding SmartHelmet_SensorsInit_def Let_def
  by (intro try_kept) (simp add: sensors_inv_def shClearInitFail_def)

lemma hdc_store_ok: "sensor_data_ok d \<Longrightarrow> sensor_data_ok (hdc_store rx d)"
  using hdc_range [OF be16_range] by (simp add: hdc_store_def Let_def sensor_data_ok_def)

lemma poll_kept:
  assumes "sensors_inv s"
  shows "sensors_inv (poll_ccs811 api s)" "sensors_inv (SmartHelmet_SensorsPollLis3dh api s)"
    "sensors_inv (poll_hdc1080 api s)" "sensors_inv (poll_mlx90614 api s)"
proof -
  note inv = sensors_invD [OF assms]
  show "sensors_inv (poll_ccs811 api s)" using inv
    by (simp add: poll_ccs811_def sensors_inv_def sensor_data_ok_def be16_range case_prod_beta i2c_wrappers_inv)
  show "sensors_inv (SmartHelmet_SensorsPollLis3dh api s)" using inv
    by (simp add: SmartHelmet_SensorsPollLis3dh_def sensors_inv_def sensor_data_ok_def lis_range
        case_prod_beta i2c_wrappers_inv)
  show "sensors_inv (poll_hdc1080 api s)" using inv
    by (simp add: poll_hdc1080_def sensors_inv_def hdc_store_ok case_prod_beta i2c_wrappers_inv)
  show "sensors_inv (poll_mlx90614 api s)" using inv
    by (auto simp: poll_mlx90614_def sensors_inv_def sensor_data_ok_def case_prod_beta mlx_read_kept
        split: option.splits dest: mlx_read_s16)
qed

lemma poll_all_kept [sens_kept]: "sensors_inv s \<Longrightarrow> sensors_inv (SmartHelmet_SensorsPoll api s)"
  by (simp add: SmartHelmet_SensorsPoll_def poll_kept)

lemmas poll_lis_kept [sens_kept] = poll_kept(2)

text \<open>The operations the rest of the firmware calls, as events.\<close>

datatype sensors_op =
    Op_Init | Op_InitDisplay | Op_Poll | Op_PollLis3dh | Op_Verify ui_env | Op_Show ui_env
  | Op_DisplayOff | Op_Blank | Op_Resume | Op_Sleep | Op_Start bool | Op_Stop

fun sensors_exec :: "'w bitserial_api \<Rightarrow> sensors_op \<Rightarrow> 'w sensors \<Rightarrow> 'w sensors" where
  "sensors_exec api Op_Init s = SmartHelmet_SensorsInit api s"
| "sensors_exec api Op_InitDisplay s = SmartHelmet_SensorsInitDisplay api s"
| "sensors_exec api Op_Poll s = SmartHelmet_SensorsPoll api s"
| "sensors_exec api Op_PollLis3dh s = SmartHelmet_SensorsPollLis3dh api s"
| "sensors_exec api (Op_Verify e) s = fst (shSensorsVerifyPass api e s)"
| "sensors_exec api (Op_Show e) s = SmartHelmet_SensorsShowAdcMv api e s"
| "sensors_exec api Op_DisplayOff s = SmartHelmet_SensorsDisplayOff api s"
| "sensors_exec api Op_Blank s = SmartHelmet_SensorsDisplayBlank api s"
| "sensors_exec api Op_Resume s = SmartHelmet_SensorsDisplayResume api s"
| "sensors_exec api Op_Sleep s = SmartHelmet_SensorsSleep api s"
| "sensors_exec api (Op_Start t) s = fst (SmartHelmet_SensorsStartVerify t s)"
| "sensors_exec api Op_Stop s = fst (SmartHelmet_SensorsStopVerify s)"

lemma task_kept [simp]: "sensors_inv (s\<lparr>sh_probe_task := b\<rparr>) = sensors_inv s"
  by (simp add: sensors_inv_def)

lemma init_display_kept [sens_kept]: "sensors_inv s \<Longrightarrow> sensors_inv (SmartHelmet_SensorsInitDisplay api s)"
  unfolding SmartHelmet_SensorsInitDisplay_def by (intro try_kept) (simp add: sensors_inv_def)

lemma sensors_exec_kept: "sensors_inv s \<Longrightarrow> sensors_inv (sensors_exec api op s)"
  by (cases op) (simp_all add: sens_kept SmartHelmet_SensorsDisplayResume_def
      SmartHelmet_SensorsStartVerify_def SmartHelmet_SensorsStopVerify_def Let_def)

text \<open>C40: Whatever the devices answer and in whatever order the firmware initialises, verifies,
  polls, draws and sleeps the hub, every published value stays in its range (gas readings and
  temperatures in their 16-bit types, HDC1080 and LIS3DH values in their physical ranges), the
  bus stays consistent, and the buffers of the status screen stay within their sizes.\<close>

theorem sensors_values_in_range:
  assumes "i2c_inv b"
  shows "sensors_inv (fold (sensors_exec api) ops (sensors_boot b))"
proof -
  have "sensors_inv s \<Longrightarrow> sensors_inv (fold (sensors_exec api) ops s)" for s
    by (induction ops arbitrary: s) (simp_all add: sensors_exec_kept)
  with sensors_boot_inv [OF assms] show ?thesis by blast
qed

theorem sensors_values_in_range_witness:
  "sensors_inv (fold (sensors_exec (late_api (\<lambda>a. if a = 0x5A then Some [0x2A, 0x3D, 0] else None)))
     [Op_Init, Op_Poll, Op_Sleep] (sensors_boot late_start))"
  by (rule sensors_values_in_range [OF late_start_ok(1)])

section \<open>The bounded retry\<close>

fun verify_run :: "'w bitserial_api \<Rightarrow> ui_env list \<Rightarrow> 'w sensors \<Rightarrow> 'w sensors \<times> timer_call list" where
  "verify_run api [] s = (s, [])"
| "verify_run api (e # es) s = (case shSensorsVerifyPass api e s of (s1, cs) \<Rightarrow>
     case verify_run api es s1 of (s2, cs2) \<Rightarrow> (s2, cs @ cs2))"

lemma try_frame [simp]:
  "sh_probe_try (try_ccs811 api s) = sh_probe_try s" "sh_probe_task (try_ccs811 api s) = sh_probe_task s"
  "sh_probe_try (try_hdc1080 api s) = sh_probe_try s" "sh_probe_task (try_hdc1080 api s) = sh_probe_task s"
  "sh_probe_try (try_lis3dh api s) = sh_probe_try s" "sh_probe_task (try_lis3dh api s) = sh_probe_task s"
  "sh_probe_try (try_mlx90614 api s) = sh_probe_try s" "sh_probe_task (try_mlx90614 api s) = sh_probe_task s"
  "sh_probe_try (try_ssd1315 api s) = sh_probe_try s" "sh_probe_task (try_ssd1315 api s) = sh_probe_task s"
  "sh_display_blanked (try_ccs811 api s) = sh_display_blanked s" "sh_display_blanked (try_hdc1080 api s) = sh_display_blanked s"
  "sh_display_blanked (try_lis3dh api s) = sh_display_blanked s" "sh_display_blanked (try_mlx90614 api s) = sh_display_blanked s"
  "sh_display_blanked (try_ssd1315 api s) = sh_display_blanked s"
  by (simp_all add: try_ccs811_def try_hdc1080_def try_lis3dh_def try_mlx90614_def try_ssd1315_def
      split: prod.splits option.splits)

lemma retry_frame [simp]:
  "sh_probe_try (retry_missing api s) = sh_probe_try s" "sh_probe_task (retry_missing api s) = sh_probe_task s"
  "sh_display_blanked (retry_missing api s) = sh_display_blanked s"
  by (simp_all add: retry_missing_def Let_def)

lemma oled_draw_frame:
  "sh_probe_try (snd (oled_draw api ls s)) = sh_probe_try s \<and> sh_probe_task (snd (oled_draw api ls s)) = sh_probe_task s \<and>
   sd (snd (oled_draw api ls s)) = sd s \<and> sh_display_blanked (snd (oled_draw api ls s)) = sh_display_blanked s"
proof (induction ls arbitrary: s)
  case (Cons l ls)
  obtain i line where "l = (i, line)" by fastforce
  with Cons show ?case by (simp add: case_prod_beta)
qed simp

lemma oled_draw_frame2:
  "sh_init_fail_latched (snd (oled_draw api ls s)) = sh_init_fail_latched s \<and>
   sh_init_fail_line (snd (oled_draw api ls s)) = sh_init_fail_line s"
proof (induction ls arbitrary: s)
  case (Cons l ls)
  obtain i line where "l = (i, line)" by fastforce
  with Cons show ?case by (simp add: case_prod_beta)
qed simp

lemma show_frame [simp]:
  "sh_probe_try (SmartHelmet_SensorsShowAdcMv api e s) = sh_probe_try s"
  "sh_probe_task (SmartHelmet_SensorsShowAdcMv api e s) = sh_probe_task s"
  "sd (SmartHelmet_SensorsShowAdcMv api e s) = sd s"
  by (simp_all add: SmartHelmet_SensorsShowAdcMv_def SmartHelmet_SensorsDisplayBlank_def shClearInitFail_def
      SmartHelmet_SensorsDisplayOn_def Let_def case_prod_beta oled_draw_frame)

lemma latch_frame [simp]:
  "sh_probe_try (shLatchInitFail s) = sh_probe_try s" "sh_probe_task (shLatchInitFail s) = sh_probe_task s"
  "sd (shLatchInitFail s) = sd s" "sh_display_blanked (shLatchInitFail s) = sh_display_blanked s"
  by (simp_all add: shLatchInitFail_def Let_def)

lemma required_cong: "sd s = sd t \<Longrightarrow> shSensorsRequiredOk s = shSensorsRequiredOk t"
  by (simp add: shSensorsRequiredOk_def)

lemma verify_step:
  assumes "sh_probe_task s" "0 \<le> sh_probe_try s" "sh_probe_try s < 65535" "shSensorsVerifyPass api e s = (s', cs)"
  shows "sh_probe_task s'" "sh_probe_try s' = sh_probe_try s + 1"
    "timers_after cs q I2C_PROBE_RETRY = (if SmartHelmet_SensorsReady s' \<or> sh_probe_try s' \<ge> 5 then 0 else 1)"
  using assms by (auto simp: shSensorsVerifyPass_def Let_def shSensorsScheduleRetry_def
      SmartHelmet_SensorsReady_def required_cong [of "SmartHelmet_SensorsShowAdcMv _ _ (shLatchInitFail _)"]
      split: if_splits)

text \<open>The bring-up of the I2C devices retries at most five times. After every pass the retry
  timer is pending exactly if some required device is still missing and fewer than five passes
  were made since the hub was initialised; so once the fifth pass is over, or everything
  answered, nothing of it is left pending.\<close>

theorem i2c_retry_bounded:
  assumes "sh_probe_task s" "sh_probe_try s = 0" "es \<noteq> []" "length es < 65536"
    and "verify_run api es s = (s', cs)"
  shows "sh_probe_try s' = int (length es) \<and>
    timers_after cs q I2C_PROBE_RETRY = (if SmartHelmet_SensorsReady s' \<or> length es \<ge> 5 then 0 else 1)"
proof -
  have "sh_probe_task s \<Longrightarrow> sh_probe_try s = int k \<Longrightarrow> k + length es < 65536 \<Longrightarrow> es \<noteq> [] \<Longrightarrow>
      verify_run api es s = (s', cs) \<Longrightarrow>
      sh_probe_try s' = int (k + length es) \<and>
      timers_after cs q I2C_PROBE_RETRY = (if SmartHelmet_SensorsReady s' \<or> k + length es \<ge> 5 then 0 else 1)"
    for k s cs q
  proof (induction es arbitrary: s k cs q)
    case (Cons e es)
    obtain s1 c1 where p: "shSensorsVerifyPass api e s = (s1, c1)" by fastforce
    obtain c2 where r: "verify_run api es s1 = (s', c2)" "cs = c1 @ c2"
      using Cons.prems(5) p by (auto split: prod.splits)
    have t: "0 \<le> sh_probe_try s" "sh_probe_try s < 65535" using Cons.prems(2,3) by auto
    note v = verify_step [OF Cons.prems(1) t p]
    show ?case
    proof (cases "es = []")
      case True
      then have s: "s' = s1" "cs = c1" using r by auto
      have "sh_probe_try s1 = int (Suc k)" using v(2) Cons.prems(2) by simp
      with v(3) [of q] True s show ?thesis by auto
    next
      case False
      have "sh_probe_try s1 = int (Suc k)" using v(2) Cons.prems(2) by simp
      from Cons.IH [OF v(1) this _ False r(1), of "timers_after c1 q"] Cons.prems(3) r(2) show ?thesis by simp
    qed
  qed simp
  from this [of s 0 cs q] assms show ?thesis by simp
qed

section \<open>The failure line\<close>

definition missing_devices :: "'w sensors \<Rightarrow> string list" where
  "missing_devices s = (if ccs811_ok (sd s) then [] else [''CCS'']) @ (if hdc1080_ok (sd s) then [] else [''HDC'']) @
     (if mlx90614_ok (sd s) then [] else [''MLX'']) @ (if lis3dh_ok (sd s) then [] else [''LIS''])"

fun join_words :: "string list \<Rightarrow> string" where
  "join_words [] = []"
| "join_words [w] = w"
| "join_words (w # v # ws) = w @ '' '' @ join_words (v # ws)"

text \<open>The latched failure line names exactly the sensors that are missing, in the order CCS,
  HDC, MLX, LIS, separated by blanks, and nothing is dropped: even with all four missing it has
  fifteen characters, so that the terminator lands on the last byte of the sixteen-byte buffer.
  The latch is set exactly when one of the four is missing.\<close>

theorem init_fail_line_complete:
  "sh_init_fail_line (shLatchInitFail s) = join_words (missing_devices s) \<and>
   length (sh_init_fail_line (shLatchInitFail s)) \<le> 15 \<and>
   sh_init_fail_latched (shLatchInitFail s) = (missing_devices s \<noteq> [])"
  by (cases "ccs811_ok (sd s)"; cases "hdc1080_ok (sd s)"; cases "mlx90614_ok (sd s)"; cases "lis3dh_ok (sd s)")
    (simp_all add: shLatchInitFail_def latch_one_def missing_devices_def)

section \<open>The dark panel\<close>

lemma blank_sets: "sh_display_blanked (SmartHelmet_SensorsDisplayBlank api s)"
  by (simp add: SmartHelmet_SensorsDisplayBlank_def Let_def shClearInitFail_def)

lemma show_blanked: "sh_display_blanked s \<Longrightarrow> sh_display_blanked (SmartHelmet_SensorsShowAdcMv api e s)"
  by (simp add: SmartHelmet_SensorsShowAdcMv_def blank_sets)

lemma verify_blanked: "sh_display_blanked s \<Longrightarrow> sh_display_blanked (fst (shSensorsVerifyPass api e s))"
  by (simp add: shSensorsVerifyPass_def Let_def show_blanked)

fun show_or_verify :: "sensors_op \<Rightarrow> bool" where
  "show_or_verify (Op_Show e) = True"
| "show_or_verify (Op_Verify e) = True"
| "show_or_verify Op_Poll = True"
| "show_or_verify Op_PollLis3dh = True"
| "show_or_verify _ = False"

lemma poll_blanked [simp]:
  "sh_display_blanked (poll_ccs811 api s) = sh_display_blanked s"
  "sh_display_blanked (SmartHelmet_SensorsPollLis3dh api s) = sh_display_blanked s"
  "sh_display_blanked (poll_hdc1080 api s) = sh_display_blanked s"
  "sh_display_blanked (poll_mlx90614 api s) = sh_display_blanked s"
  by (simp_all add: poll_ccs811_def SmartHelmet_SensorsPollLis3dh_def poll_hdc1080_def poll_mlx90614_def
      case_prod_beta)

text \<open>A panel that misses its first probe after a power cycle stays dark. The power-off blanked
  it; the resume of the next power-on does nothing while the panel is not up; and from then on no
  retry pass, poll or screen update lifts the blanking, not even after a retry has found the panel
  and set it up: every screen update of the whole session blanks it again.\<close>

theorem oled_stays_dark:
  assumes "\<not> ssd1315_ok (sd s)" "sh_display_blanked s" "list_all show_or_verify ops"
  shows "sh_display_blanked (fold (sensors_exec api) ops (SmartHelmet_SensorsDisplayResume api s))"
proof -
  have "sh_display_blanked t \<Longrightarrow> list_all show_or_verify ops \<Longrightarrow>
      sh_display_blanked (fold (sensors_exec api) ops t)" for t
  proof (induction ops arbitrary: t)
    case (Cons op ops)
    then show ?case
      by (cases op) (simp_all add: show_blanked verify_blanked SmartHelmet_SensorsPoll_def)
  qed simp
  with assms show ?thesis by (simp add: SmartHelmet_SensorsDisplayResume_def SmartHelmet_SensorsDisplayOn_def)
qed

section \<open>The screen cache\<close>

lemma oled_lines_short:
  assumes "sensors_inv s"
  shows "length (oled_lines e s) = 4" "list_all (\<lambda>l. length l \<le> 15) (oled_lines e s)"
  using sensors_invD(4) [OF assms]
  by (simp_all add: oled_lines_def Let_def shStateText_def shFmtPct_def shBrText_def shAudioText_def)

lemma oled_draw_cache:
  "oled_draw api (enumerate k ls) s = (True, s') \<Longrightarrow> length (sh_oled_prev s) = k + length ls \<Longrightarrow>
   list_all (\<lambda>l. length l \<le> 15) ls \<Longrightarrow>
   sh_oled_prev s' = take k (sh_oled_prev s) @ ls"
proof (induction ls arbitrary: k s)
  case (Cons l ls)
  have k: "k < length (sh_oled_prev s)" using Cons.prems(2) by simp
  obtain ok1 b1 where b1: "shSsdClearPage api (2 * int k) (bus s) = (ok1, b1)" by fastforce
  obtain ok2 b2 where b2: "(if l \<noteq> [] then shSsdDrawText api (2 * int k) 4 l b1 else (True, b1)) = (ok2, b2)"
    by fastforce
  let ?s = "if sh_oled_have_prev s \<and> sh_oled_prev s ! k = l then s
     else s\<lparr>bus := b2, sh_oled_prev := (sh_oled_prev s)[k := take 15 l]\<rparr>"
  have "oled_draw api (enumerate (Suc k) ls) ?s = (True, s')"
    using Cons.prems(1) unfolding enumerate_simps oled_draw.simps b1 b2 prod.case by (auto split: if_splits)
  moreover have "take (Suc k) (sh_oled_prev ?s) = take k (sh_oled_prev s) @ [l]"
    using k Cons.prems(3) by (auto simp: take_Suc_conv_app_nth)
  ultimately show ?case using Cons.IH [of "Suc k" ?s] Cons.prems(2,3) by simp
qed simp

lemma oled_draw_nothing:
  "sh_oled_have_prev s \<Longrightarrow> (\<forall>(i, l) \<in> set ls. sh_oled_prev s ! i = l) \<Longrightarrow> oled_draw api ls s = (True, s)"
  by (induction ls) auto

text \<open>The redraw cache is exact. After a screen update in which every write was accepted, the
  cache holds precisely the four lines on display (none is cut), and repeating the update with
  nothing changed sends only the charge-pump command: not one page is rewritten.\<close>

theorem oled_cache_exact:
  assumes "sensors_inv s" "ssd1315_ok (sd s)" "\<not> sh_display_blanked s" "shStateIsOn (ui_state e) \<or> ui_state e = 2"
    and "fst (oled_draw api (enumerate 0 (oled_lines e s)) (SmartHelmet_SensorsDisplayOn api s))"
  shows "sh_oled_prev (SmartHelmet_SensorsShowAdcMv api e s) = oled_lines e s \<and>
    SmartHelmet_SensorsShowAdcMv api e (SmartHelmet_SensorsShowAdcMv api e s) =
    SmartHelmet_SensorsDisplayOn api (SmartHelmet_SensorsShowAdcMv api e s)"
proof -
  define s1 where "s1 = SmartHelmet_SensorsDisplayOn api s"
  have on: "oled_lines e s1 = oled_lines e s" "\<not> sh_display_blanked s1" "sd s1 = sd s"
    using assms(2) by (simp_all add: s1_def SmartHelmet_SensorsDisplayOn_def oled_lines_def Let_def)
  have inv1: "sensors_inv s1" unfolding s1_def by (rule display_on_kept [OF assms(1)])
  obtain s2 where d: "oled_draw api (enumerate 0 (oled_lines e s)) s1 = (True, s2)"
    using assms(5) unfolding s1_def by (metis (full_types) prod.collapse)
  have c: "sh_oled_prev s2 = oled_lines e s"
    using oled_draw_cache [OF d] oled_lines_short [OF assms(1), of e] sensors_invD(3) [OF inv1] by simp
  define t where "t = s2\<lparr>sh_oled_have_prev := True\<rparr>"
  have show1: "SmartHelmet_SensorsShowAdcMv api e s = t"
    using assms(2,3,4) d on by (auto simp: SmartHelmet_SensorsShowAdcMv_def Let_def t_def simp flip: s1_def)
  have f: "sd s2 = sd s" "sh_display_blanked s2 = False" "sh_init_fail_latched s2 = sh_init_fail_latched s"
    "sh_init_fail_line s2 = sh_init_fail_line s"
    using oled_draw_frame [of api "enumerate 0 (oled_lines e s)" s1] oled_draw_frame2 [of api "enumerate 0 (oled_lines e s)" s1]
      d on by (simp_all add: s1_def SmartHelmet_SensorsDisplayOn_def)
  have tf: "sd t = sd s" "\<not> sh_display_blanked t" using f by (simp_all add: t_def)
  define t1 where "t1 = SmartHelmet_SensorsDisplayOn api t"
  have "oled_lines e t1 = oled_lines e s" "sh_oled_have_prev t1" "sh_oled_prev t1 = oled_lines e s"
    using f c assms(2) by (simp_all add: t1_def t_def SmartHelmet_SensorsDisplayOn_def oled_lines_def Let_def)
  then have "oled_draw api (enumerate 0 (oled_lines e t1)) t1 = (True, t1)"
    by (intro oled_draw_nothing) (auto simp: in_set_enumerate_eq)
  then have "SmartHelmet_SensorsShowAdcMv api e t = t1\<lparr>sh_oled_have_prev := True\<rparr>"
    using assms(2,4) tf by (auto simp: SmartHelmet_SensorsShowAdcMv_def Let_def simp flip: t1_def)
  moreover have "t1\<lparr>sh_oled_have_prev := True\<rparr> = t1" using \<open>sh_oled_have_prev t1\<close> by simp
  ultimately show ?thesis using show1 c by (simp add: t_def t1_def)
qed

section \<open>A bus that accepts everything\<close>

definition ack_api :: "late_hw bitserial_api" where
  "ack_api = late_api (\<lambda>_. Some [])"

lemma ack_raw:
  assumes "i2c_inv b" "bus_open (sh_i2c b ! 1)"
  shows "fst (shSsdRaw ack_api f b) \<and> i2c_inv (snd (shSsdRaw ack_api f b)) \<and>
    bus_open (sh_i2c (snd (shSsdRaw ack_api f b)) ! 1)"
proof -
  have len: "length (sh_i2c b) = 2" using assms(1) by (simp add: i2c_inv_def)
  obtain ok rx b' where t: "SmartHelmet_I2cTransfer ack_api 1 0x3C f 0 b = (ok, rx, b')"
    by (cases "SmartHelmet_I2cTransfer ack_api 1 0x3C f 0 b") auto
  have "ok \<and> bus_open (sh_i2c b' ! 1)"
    using t assms(2) len
    by (auto simp: SmartHelmet_I2cTransfer_def shI2cSetAddr_def shI2cChangeAddr_def ack_api_def late_api_def
        i2c_xfer_retry_def shI2cRunXfer_def Let_def split: if_splits)
  moreover have "i2c_inv b'" using SmartHelmet_I2cTransfer_inv [OF assms(1), of ack_api 1 "0x3C" f 0] t by simp
  ultimately show ?thesis using t by (simp add: shSsdRaw_def SmartHelmet_I2cWrite_def shSsdBus_def)
qed

lemma ack_send:
  "i2c_inv b \<Longrightarrow> bus_open (sh_i2c b ! 1) \<Longrightarrow>
   fst (ssd_send ack_api fs b) \<and> i2c_inv (snd (ssd_send ack_api fs b)) \<and> bus_open (sh_i2c (snd (ssd_send ack_api fs b)) ! 1)"
proof (induction fs arbitrary: b)
  case (Cons f fs)
  then show ?case using ack_raw [of b f] by (auto simp: case_prod_beta)
qed simp

lemma ack_draw:
  "i2c_inv (bus s) \<Longrightarrow> bus_open (sh_i2c (bus s) ! 1) \<Longrightarrow> fst (oled_draw ack_api ls s)"
proof (induction ls arbitrary: s)
  case (Cons l ls)
  obtain i line where l: "l = (i, line)" by fastforce
  define b1 where "b1 = snd (ssd_send ack_api (blank_frames (2 * int i)) (bus s))"
  have b1: "shSsdClearPage ack_api (2 * int i) (bus s) = (True, b1)" "i2c_inv b1" "bus_open (sh_i2c b1 ! 1)"
    using ack_send [OF Cons.prems, of "blank_frames (2 * int i)"]
    by (simp_all add: clear_page_frames b1_def prod_eq_iff)
  define b2 where "b2 = (if line \<noteq> [] then snd (ssd_send ack_api (text_frames (2 * int i) 4 line) b1) else b1)"
  have b2: "(if line \<noteq> [] then shSsdDrawText ack_api (2 * int i) 4 line b1 else (True, b1)) = (True, b2)"
    "i2c_inv b2" "bus_open (sh_i2c b2 ! 1)"
    using ack_send [OF b1(2,3), of "text_frames (2 * int i) 4 line"] b1(2,3)
    by (simp_all add: draw_text_frames b2_def prod_eq_iff)
  show ?case using Cons.IH [of s] Cons.IH [of "s\<lparr>bus := b2, sh_oled_prev := (sh_oled_prev s)[i := take 15 line]\<rparr>"]
      Cons.prems b2(2,3) unfolding l oled_draw.simps b1(1) prod.case b2(1) by simp
qed simp

definition lit_hub :: "late_hw sensors" where
  "lit_hub = (let s = sensors_boot late_start in s\<lparr>sd := (sd s)\<lparr>ssd1315_ok := True\<rparr>\<rparr>)"

definition idle_env :: ui_env where
  "idle_env = \<lparr>ui_state = 5, ui_batt_pct = 57, ui_handset = False, ui_sco = False, ui_a2dp = False,
     ui_rejoining = False, ui_online = False, ui_passthrough = False, ui_module_seen = False,
     ui_ip_seen = False, ui_reset_seen = False\<rparr>"

lemma late_start_bus1: "bus_open (sh_i2c late_start ! 1)"
  by (simp add: late_start_def)

lemma lit_hub_ok: "sensors_inv lit_hub" "ssd1315_ok (sd lit_hub)" "\<not> sh_display_blanked lit_hub"
  "bus lit_hub = late_start"
  using sensors_boot_inv [OF late_start_ok(1)] by (simp_all add: lit_hub_def Let_def sensors_inv_def, simp_all add: sensors_boot_def)

lemma lit_hub_draws: "fst (oled_draw ack_api ls (SmartHelmet_SensorsDisplayOn ack_api lit_hub))"
proof -
  have "i2c_inv (bus (SmartHelmet_SensorsDisplayOn ack_api lit_hub)) \<and>
      bus_open (sh_i2c (bus (SmartHelmet_SensorsDisplayOn ack_api lit_hub)) ! 1)"
    using ack_send [OF late_start_ok(1) late_start_bus1, of "ssd_frames 0 [0x8D, 0x14, 0xAF]"] lit_hub_ok
    by (simp add: SmartHelmet_SensorsDisplayOn_def cmd_list_frames)
  then show ?thesis by (intro ack_draw) simp_all
qed

lemma bat_57: "shFmtPct 57 = ''BAT   57%''"
  by code_simp

theorem oled_cache_exact_witness:
  "sh_oled_prev (SmartHelmet_SensorsShowAdcMv ack_api idle_env lit_hub) =
     [''IDLE'', ''BAT   57%'', ''WISUN WAIT'', ''AUDIO IDLE'']"
proof -
  have "sh_oled_prev (SmartHelmet_SensorsShowAdcMv ack_api idle_env lit_hub) = oled_lines idle_env lit_hub"
    using oled_cache_exact [OF lit_hub_ok(1,2,3) _ lit_hub_draws, of idle_env]
    by (simp add: idle_env_def shStateIsOn_def)
  also have "\<dots> = [''IDLE'', ''BAT   57%'', ''WISUN WAIT'', ''AUDIO IDLE'']"
    by (simp add: oled_lines_def idle_env_def lit_hub_def sensors_boot_def shStateText_def bat_57
        shBrText_def shAudioText_def)
  finally show ?thesis .
qed

theorem oled_stays_dark_witness:
  "sh_display_blanked (fold (sensors_exec ack_api) [Op_Verify idle_env, Op_Show idle_env]
     (SmartHelmet_SensorsDisplayResume ack_api (SmartHelmet_SensorsDisplayBlank ack_api (sensors_boot late_start))))"
  by (rule oled_stays_dark)
    (simp_all add: SmartHelmet_SensorsDisplayBlank_def sensors_boot_def shClearInitFail_def Let_def)

theorem i2c_retry_bounded_witness:
  "timers_after (snd (verify_run ack_api (replicate 5 idle_env) (sensors_boot late_start \<lparr>sh_probe_task := True\<rparr>)))
     (\<lambda>_. 1) I2C_PROBE_RETRY = 0"
  using i2c_retry_bounded [of "sensors_boot late_start \<lparr>sh_probe_task := True\<rparr>" "replicate 5 idle_env" ack_api, OF _ _ _ _ prod.collapse [symmetric]]
  by (simp add: sensors_boot_def)

end
