(* ===== verification/Report.thy ===== *)
theory Report
  imports Sensors Vitals
begin

text \<open>
  The report of the helmet (\<^verbatim>\<open>smart_helmet.c\<close>, lines 340 to 738): the bounded text builder, the
  gas levels, the motion hold of the report, the text of one report, and its transmission line
  by line. The text buffer is the string written so far; its terminator occupies the next byte,
  so a string of length \<open>n\<close> needs \<open>n + 1\<close> bytes of the buffer of size \<open>cap\<close>.
\<close>

section \<open>Text builder\<close>

fun shAppend :: "nat \<Rightarrow> string \<Rightarrow> string \<Rightarrow> string" where
  "shAppend cap dst [] = dst"
| "shAppend cap dst (c # cs) = (if length dst + 1 < cap then shAppend cap (dst @ [c]) cs else dst)"

text \<open>The digits of \<open>v\<close>, least significant first, at most \<open>k\<close> of them (\<open>tmp[6]\<close>).\<close>

fun u_digits :: "nat \<Rightarrow> int \<Rightarrow> string" where
  "u_digits 0 v = []"
| "u_digits (Suc k) v = (if v = 0 then [] else digit_char (v mod 10) # u_digits k (v div 10))"

definition shAppendU :: "nat \<Rightarrow> string \<Rightarrow> int \<Rightarrow> string" where
  "shAppendU cap dst v =
     (if v = 0 then shAppend cap dst ''0'' else shAppend cap dst (rev (u_digits 6 v)))"

definition shAppendX100 :: "nat \<Rightarrow> string \<Rightarrow> int \<Rightarrow> string" where
  "shAppendX100 cap dst v =
     (let d0 = (if v < 0 then shAppend cap dst ''-'' else dst);
          mag = (if v < 0 then u16 (- v) else u16 v);
          d1 = shAppendU cap d0 (mag div 100);
          d2 = shAppend cap d1 ''.'';
          d3 = shAppendU cap d2 ((mag div 10) mod 10)
      in shAppendU cap d3 (mag mod 10))"

section \<open>Gas levels\<close>

definition shGasRatioX100 :: "int \<Rightarrow> int \<Rightarrow> int" where
  "shGasRatioX100 mv r0 =
     (if mv < 50 \<or> mv \<ge> 3300 \<or> r0 < 50 \<or> r0 \<ge> 3300 then 100
      else let rs = u32 ((3300 - mv) * 1000) div mv; rs0 = u32 ((3300 - r0) * 1000) div r0
           in if rs0 = 0 then 100 else u16 (u32 (rs * 100) div rs0))"

definition shCoPpm :: "int \<Rightarrow> int" where
  "shCoPpm r = (if r \<ge> 80 then 1 else if r \<ge> 40 then 10 else if r \<ge> 20 then 40
     else if r \<ge> 10 then 120 else if r \<ge> 5 then 400 else 1000)"

definition shNh3Ppm :: "int \<Rightarrow> int" where
  "shNh3Ppm r = (if r \<ge> 80 then 1 else if r \<ge> 40 then 15 else if r \<ge> 20 then 60
     else if r \<ge> 10 then 180 else 500)"

definition shNo2PpmX100 :: "int \<Rightarrow> int" where
  "shNo2PpmX100 r = (if r \<le> 120 then 5 else if r \<le> 200 then 25 else if r \<le> 400 then 100
     else if r \<le> 800 then 400 else 1000)"

text \<open>\<open>r0s\<close> is \<open>sh_gas_r0_mv\<close>: the first usable reading of each channel, zero before.\<close>

definition shGasValue :: "nat \<Rightarrow> int \<Rightarrow> int list \<Rightarrow> int \<times> int list" where
  "shGasValue ch mv r0s =
     (let r0s' = (if r0s ! ch = 0 \<and> mv \<ge> 50 \<and> mv < 3300 then r0s[ch := mv] else r0s)
      in (shGasRatioX100 mv (if r0s' ! ch \<noteq> 0 then r0s' ! ch else mv), r0s'))"

section \<open>Motion hold\<close>

record motion_hold =
  mh_since_report :: bool
  mh_quiet_reports :: int
  mh_holding :: bool

definition report_motion :: "motion_hold \<Rightarrow> motion_hold" where
  "report_motion h =
     (let h1 = (if mh_since_report h then h\<lparr>mh_holding := True, mh_quiet_reports := 0\<rparr>
                else if mh_holding h then
                  (let q = (if mh_quiet_reports h < 255 then mh_quiet_reports h + 1 else mh_quiet_reports h)
                   in if q \<ge> 2 then h\<lparr>mh_holding := False, mh_quiet_reports := 0\<rparr>
                      else h\<lparr>mh_quiet_reports := q\<rparr>)
                else h)
      in h1\<lparr>mh_since_report := False\<rparr>)"

section \<open>Report text\<close>

definition pulse_word :: "vitals_status \<Rightarrow> string" where
  "pulse_word v =
     (if st_trend v = trend_absent then ''none''
      else if \<not> st_valid v then ''unknown''
      else if st_trend v = trend_rising then ''rising''
      else if st_trend v = trend_falling then ''falling''
      else ''stable'')"

definition crlf :: string where
  "crlf = [CHR 0x0D, CHR 0x0A]"

definition yes_no :: "bool \<Rightarrow> string" where
  "yes_no b = (if b then ''yes'' else ''no'')"

definition report_flags :: "bool \<Rightarrow> bool \<Rightarrow> bool \<Rightarrow> vitals_status \<Rightarrow> string \<Rightarrow> string" where
  "report_flags holding restart fall v l0 =
     (let l1 = shAppend 192 l0 ''motion:'';
          l2 = shAppend 192 l1 (if holding then ''moving'' else ''still'');
          l3 = shAppend 192 l2 (crlf @ ''restart:'');
          l4 = shAppend 192 l3 (yes_no restart);
          l5 = shAppend 192 l4 (crlf @ ''fall:'');
          l6 = shAppend 192 l5 (yes_no fall);
          l7 = shAppend 192 l6 (crlf @ ''pulse:'')
      in shAppend 192 l7 (pulse_word v))"

definition report_x100 :: "string \<Rightarrow> bool \<Rightarrow> int \<Rightarrow> string \<Rightarrow> string \<Rightarrow> string" where
  "report_x100 name ok v unit l =
     (let l1 = shAppend 192 l (crlf @ name)
      in if \<not> ok then shAppend 192 l1 ''na'' else shAppend 192 (shAppendX100 192 l1 v) unit)"

definition report_sensors :: "sensor_data \<Rightarrow> string \<Rightarrow> string" where
  "report_sensors s l0 =
     (let l1 = report_x100 ''body:'' (mlx90614_ok s) (object_temp_x100 s) ''C'' l0;
          l2 = report_x100 ''amb:'' (hdc1080_ok s) (s16 (hdc_temp_x100 s + 0)) ''C'' l1;
          l3 = report_x100 ''rh:'' (hdc1080_ok s) (s16 (hdc_humidity_x100 s)) ''%'' l2;
          l4 = shAppend 192 l3 (crlf @ ''voc:'')
      in if \<not> ccs811_ok s then shAppend 192 l4 ''na''
         else shAppend 192 (shAppendU 192 l4 (ccs811_tvoc s)) ''ppb'')"

definition report_gas :: "int list \<Rightarrow> int list \<Rightarrow> string \<Rightarrow> string \<times> int list" where
  "report_gas mv r0s l0 =
     (case shGasValue 0 (mv ! 1) r0s of (co, r1) \<Rightarrow>
      case shGasValue 1 (mv ! 2) r1 of (nh3, r2) \<Rightarrow>
      case shGasValue 2 (mv ! 3) r2 of (no2, r3) \<Rightarrow>
        let l1 = shAppend 192 (shAppendU 192 (shAppend 192 l0 (crlf @ ''co:'')) (shCoPpm co)) ''ppm'';
            l2 = shAppend 192 (shAppendU 192 (shAppend 192 l1 (crlf @ ''nh3:'')) (shNh3Ppm nh3)) ''ppm'';
            l3 = shAppend 192 (shAppendX100 192 (shAppend 192 l2 (crlf @ ''no2:'')) (s16 (shNo2PpmX100 no2))) ''ppm''
        in (shAppend 192 l3 crlf, r3))"

definition report_line ::
  "bool \<Rightarrow> bool \<Rightarrow> bool \<Rightarrow> vitals_status \<Rightarrow> sensor_data \<Rightarrow> int list \<Rightarrow> int list \<Rightarrow> string \<times> int list" where
  "report_line holding restart fall v s mv r0s =
     report_gas mv r0s (report_sensors s (report_flags holding restart fall v []))"

section \<open>Transmission\<close>

definition is_eol :: "char \<Rightarrow> bool" where
  "is_eol c \<longleftrightarrow> c = CHR 0x0D \<or> c = CHR 0x0A"

text \<open>
  One turn of the loop takes the next line: skip line ends, copy up to \<open>limit\<close> bytes, skip the
  rest of the line.
\<close>

definition next_line :: "nat \<Rightarrow> string \<Rightarrow> string \<times> string" where
  "next_line limit cs =
     (let body = dropWhile is_eol cs;
          word = takeWhile (\<lambda>c. \<not> is_eol c) body
      in (take limit word, dropWhile (\<lambda>c. \<not> is_eol c) body))"

lemma next_line_shorter: "cs \<noteq> [] \<Longrightarrow> length (snd (next_line k cs)) < length cs"
proof -
  assume "cs \<noteq> []"
  then obtain c ds where cs: "cs = c # ds" by (cases cs) auto
  have "length (dropWhile (\<lambda>c. \<not> is_eol c) (dropWhile is_eol ds)) \<le> length ds"
    using length_dropWhile_le le_trans by blast
  moreover have "length (dropWhile (\<lambda>c. \<not> is_eol c) ds) \<le> length ds" by (rule length_dropWhile_le)
  ultimately show ?thesis by (simp add: cs next_line_def Let_def)
qed

text \<open>\<open>send\<close> is the UART write: it takes the frame and answers whether it was accepted.\<close>

function send_lines :: "(string \<Rightarrow> 's \<Rightarrow> bool \<times> 's) \<Rightarrow> string \<Rightarrow> 's \<Rightarrow> bool \<times> 's" where
  "send_lines send cs s =
     (if cs = [] then (True, s)
      else case next_line 37 cs of (frame, rest) \<Rightarrow>
        if frame = [] then send_lines send rest s
        else case send (frame @ crlf) s of (ok, s') \<Rightarrow>
          if ok then send_lines send rest s' else (False, s'))"
  by pat_completeness auto
termination
  by (relation "measure (\<lambda>(_, cs, _). length cs)")
    (simp_all, (metis next_line_shorter snd_conv)+)

declare send_lines.simps [simp del]

definition shSendReportLines ::
  "(string \<Rightarrow> 's \<Rightarrow> bool \<times> 's) \<Rightarrow> (bool \<Rightarrow> 's \<Rightarrow> 's) \<Rightarrow> string \<Rightarrow> 's \<Rightarrow> 's" where
  "shSendReportLines send note line s = (case send_lines send line s of (ok, s') \<Rightarrow> note ok s')"

text \<open>The pieces \<open>shLogBrReport\<close> prints: the same walk with a limit of 39 characters.\<close>

function shLogBrReport :: "string \<Rightarrow> string list" where
  "shLogBrReport cs =
     (if cs = [] then []
      else case next_line 39 cs of (piece, rest) \<Rightarrow>
        if piece = [] then shLogBrReport rest else piece # shLogBrReport rest)"
  by pat_completeness auto
termination
  by (relation "measure length") (simp_all, (metis next_line_shorter snd_conv)+)

declare shLogBrReport.simps [simp del]

section \<open>The text builder\<close>

lemma append_fits: "length dst + length s < cap \<Longrightarrow> shAppend cap dst s = dst @ s"
  by (induction s arbitrary: dst) simp_all

lemma append_bounded: "length dst < cap \<Longrightarrow> length (shAppend cap dst s) < cap"
  by (induction s arbitrary: dst) simp_all

definition show_u :: "int \<Rightarrow> string" where
  "show_u v = (if v = 0 then ''0'' else rev (u_digits 6 v))"

definition show_x100 :: "int \<Rightarrow> string" where
  "show_x100 v = (if v < 0 then ''-'' else '''') @ show_u (\<bar>v\<bar> div 100) @ ''.'' @
     show_u (\<bar>v\<bar> div 10 mod 10) @ show_u (\<bar>v\<bar> mod 10)"

lemma append_u: "shAppendU cap dst v = shAppend cap dst (show_u v)"
  by (simp add: shAppendU_def show_u_def)

lemma append_append: "shAppend cap (shAppend cap dst s) t = shAppend cap dst (s @ t)"
proof (induction s arbitrary: dst)
  case (Cons c s)
  have "shAppend cap dst t = dst" if "\<not> length dst + 1 < cap" using that by (cases t) simp_all
  with Cons show ?case by simp
qed simp

lemma append_x100:
  assumes "is_s16 v"
  shows "shAppendX100 cap dst v = shAppend cap dst (show_x100 v)"
proof -
  have m: "(if v < 0 then u16 (- v) else u16 v) = \<bar>v\<bar>" using assms by (simp add: crange)
  have p: "(if v < 0 then shAppend cap dst ''-'' else dst) = shAppend cap dst (if v < 0 then ''-'' else [])" by simp
  show ?thesis
    unfolding shAppendX100_def Let_def m p append_u append_append by (simp add: show_x100_def)
qed

lemma digits_length: "v < 10 ^ k \<Longrightarrow> 0 \<le> v \<Longrightarrow> length (u_digits n v) \<le> k"
proof (induction n v arbitrary: k rule: u_digits.induct)
  case (2 n v)
  show ?case
  proof (cases "v = 0")
    case False
    with 2 obtain k' where k: "k = Suc k'" by (cases k) auto
    have "v div 10 < 10 ^ k'" using 2(2) k by simp
    with 2(1) [OF False this] 2(3) k show ?thesis by (simp add: pos_imp_zdiv_nonneg_iff)
  qed simp
qed simp

lemma show_u_length: "0 \<le> v \<Longrightarrow> v < 10 ^ k \<Longrightarrow> 0 < k \<Longrightarrow> length (show_u v) \<le> k"
  using digits_length [of v k 6] by (cases k) (simp_all add: show_u_def)

subsection \<open>Reading the numbers back\<close>

definition digit_val :: "char \<Rightarrow> int" where
  "digit_val c = of_char c - 48"

definition dec_val :: "string \<Rightarrow> int" where
  "dec_val s = foldl (\<lambda>a c. 10 * a + digit_val c) 0 s"

text \<open>The reader of the report: one or more digits; a number in hundredths is an optional sign, digits, a point and exactly two
  digits, anything else is no number.\<close>

definition u_val :: "string \<Rightarrow> int option" where
  "u_val s = (if s \<noteq> [] \<and> list_all (\<lambda>c. 0 \<le> digit_val c \<and> digit_val c \<le> 9) s then Some (dec_val s) else None)"

definition x100_mag :: "string \<Rightarrow> int option" where
  "x100_mag s = (case (u_val (takeWhile (\<lambda>c. c \<noteq> CHR ''.'') s), dropWhile (\<lambda>c. c \<noteq> CHR ''.'') s) of
     (Some whole, [_, tenth, hundredth]) \<Rightarrow> map_option (\<lambda>f. 100 * whole + f) (u_val [tenth, hundredth])
   | _ \<Rightarrow> None)"

definition x100_val :: "string \<Rightarrow> int option" where
  "x100_val s = (case s of [] \<Rightarrow> None
     | c # cs \<Rightarrow> if c = CHR ''-'' then map_option uminus (x100_mag cs) else x100_mag s)"

lemma digit_code: "0 \<le> d \<Longrightarrow> d < 10 \<Longrightarrow> of_char (digit_char d) = 48 + d"
  by (simp add: digit_char_def)

lemma digit_not:
  assumes "0 \<le> d" "d < 10"
  shows "digit_char d \<noteq> CHR ''.''" "digit_char d \<noteq> CHR ''-''" "\<not> is_eol (digit_char d)"
proof -
  have c: "of_char (digit_char d) = 48 + d" by (rule digit_code [OF assms])
  show "digit_char d \<noteq> CHR ''.''" "digit_char d \<noteq> CHR ''-''" using c assms by (auto dest: arg_cong [where f = "of_char :: char \<Rightarrow> int"])
  show "\<not> is_eol (digit_char d)" using c assms
    by (auto simp: is_eol_def dest!: arg_cong [where f = "of_char :: char \<Rightarrow> int"])
qed

lemma dec_val_append: "dec_val (s @ [c]) = 10 * dec_val s + digit_val c"
  by (simp add: dec_val_def)

lemma digits_val: "0 \<le> v \<Longrightarrow> v < 10 ^ n \<Longrightarrow> dec_val (rev (u_digits n v)) = v"
proof (induction n v rule: u_digits.induct)
  case (2 n v)
  have "v div 10 < 10 ^ n" "0 \<le> v div 10" using 2(2,3) by simp_all
  with 2(1) show ?case by (auto simp: dec_val_append digit_val_def digit_code) (simp add: dec_val_def)
qed (simp add: dec_val_def)

lemma digits_chars: "0 \<le> v \<Longrightarrow> c \<in> set (u_digits n v) \<Longrightarrow> \<exists>d. 0 \<le> d \<and> d < 10 \<and> c = digit_char d"
proof (induction n v rule: u_digits.induct)
  case (2 n v)
  have "0 \<le> v mod 10 \<and> v mod 10 < 10" "0 \<le> v div 10" using 2(2) by (simp_all add: pos_imp_zdiv_nonneg_iff)
  moreover from this have "\<exists>d. 0 \<le> d \<and> d < 10 \<and> digit_char (v mod 10) = digit_char d" by blast
  ultimately show ?case using 2 by (auto split: if_splits)
qed simp

lemma show_u_chars: "0 \<le> v \<Longrightarrow> c \<in> set (show_u v) \<Longrightarrow> \<exists>d. 0 \<le> d \<and> d < 10 \<and> c = digit_char d"
proof -
  assume "0 \<le> v" "c \<in> set (show_u v)"
  moreover have "CHR ''0'' = digit_char 0" by code_simp
  ultimately show ?thesis using digits_chars [of v c 6] by (auto simp: show_u_def split: if_splits intro!: exI [of _ 0])
qed

lemma show_u_val: "0 \<le> v \<Longrightarrow> v < 1000000 \<Longrightarrow> dec_val (show_u v) = v"
  using digits_val [of v 6] by (auto simp: show_u_def) (simp add: dec_val_def digit_val_def)

lemma show_u_digit: "0 \<le> d \<Longrightarrow> d < 10 \<Longrightarrow> show_u d = [digit_char d]"
proof -
  assume d: "0 \<le> d" "d < 10"
  have "CHR ''0'' = digit_char 0" by code_simp
  with d show ?thesis by (auto simp: show_u_def numeral_eq_Suc)
qed

lemma show_x100_length: "is_s16 v \<Longrightarrow> length (show_x100 v) \<le> 7"
proof -
  assume v: "is_s16 v"
  define a where "a = show_u (\<bar>v\<bar> div 100)"
  have "length a \<le> 3" unfolding a_def using v by (intro show_u_length) (auto simp: crange)
  then show ?thesis unfolding show_x100_def a_def [symmetric] by (simp add: show_u_digit)
qed

lemma show_u_hd: "0 \<le> v \<Longrightarrow> show_u v \<noteq> [] \<and> hd (show_u v) \<noteq> CHR ''-''"
proof -
  assume v: "0 \<le> v"
  have ne: "show_u v \<noteq> []" by (simp add: show_u_def numeral_eq_Suc)
  then have "hd (show_u v) \<in> set (show_u v)" by simp
  with show_u_chars [OF v this] digit_not(2) ne show ?thesis by metis
qed

lemma digit_val_char: "0 \<le> d \<Longrightarrow> d < 10 \<Longrightarrow> digit_val (digit_char d) = d"
  by (simp add: digit_val_def digit_code)

lemma u_val_show:
  assumes "0 \<le> v" "v < 1000000"
  shows "u_val (show_u v) = Some v"
proof -
  have "\<forall>c\<in>set (show_u v). 0 \<le> digit_val c \<and> digit_val c \<le> 9" using show_u_chars [OF assms(1)] digit_val_char by fastforce
  then show ?thesis using show_u_hd [OF assms(1)] show_u_val [OF assms] by (simp add: u_val_def list_all_iff)
qed

lemma hundredths: "100 * (m div 100) + (10 * (m div 10 mod 10) + m mod 10) = (m :: int)"
proof -
  have e: "m div 100 = m div 10 div 10" using zdiv_zmult2_eq [of 10 m 10] by simp
  have r: "100 * w + (10 * a + b) = 10 * (10 * w + a) + b" for w a b :: int by simp
  show ?thesis unfolding e r mult_div_mod_eq by (rule refl)
qed

lemma x100_mag_show:
  assumes "0 \<le> m" "m < 1000000"
  shows "x100_mag (show_u (m div 100) @ ''.'' @ show_u (m div 10 mod 10) @ show_u (m mod 10)) = Some m"
proof -
  have d: "0 \<le> m div 10 mod 10" "m div 10 mod 10 < 10" "0 \<le> m mod 10" "m mod 10 < 10" "0 \<le> m div 100" "m div 100 < 1000000"
    using assms by (simp_all add: pos_imp_zdiv_nonneg_iff)
  have "\<forall>c\<in>set (show_u (m div 100)). c \<noteq> CHR ''.''" using show_u_chars [OF d(5)] digit_not(1) by metis
  then have split: "takeWhile (\<lambda>c. c \<noteq> CHR ''.'') (show_u (m div 100) @ CHR ''.'' # r) = show_u (m div 100)"
    "dropWhile (\<lambda>c. c \<noteq> CHR ''.'') (show_u (m div 100) @ CHR ''.'' # r) = CHR ''.'' # r" for r
    by (simp_all add: takeWhile_append2 dropWhile_append2)
  have "u_val [digit_char (m div 10 mod 10), digit_char (m mod 10)] = Some (10 * (m div 10 mod 10) + m mod 10)"
    using d(1-4) by (simp add: u_val_def digit_val_char dec_val_def del: Euclidean_Rings.pos_mod_bound)
  then have "map_option (\<lambda>f. 100 * (m div 100) + f) (u_val [digit_char (m div 10 mod 10), digit_char (m mod 10)]) = Some m"
    by (simp only: option.map hundredths)
  then show ?thesis using d(1-4) by (simp only: x100_mag_def append.simps split u_val_show [OF d(5,6)] show_u_digit prod.case option.case list.case)
qed

text \<open>C28: The numbers of the report read back exactly, with a reader that accepts nothing but the documented form. A temperature, a
  humidity or a gas level in hundredths, appended to a line with at least seven free characters, is an optional sign, one or more
  digits, a point and exactly two digits whose value is the number appended, for every 16-bit value, the smallest negative one
  included; an unsigned count, appended with five free characters, is its decimal digits for every 16-bit value.\<close>

theorem report_number_roundtrip:
  assumes "is_s16 v" and "length dst + 7 < cap" and "is_u16 u"
  shows "(\<exists>t. shAppendX100 cap dst v = dst @ t \<and> length t \<le> 7 \<and> x100_val t = Some v) \<and>
    (\<exists>t. shAppendU cap dst u = dst @ t \<and> length t \<le> 5 \<and> u_val t = Some u)"
proof -
  have len: "length (show_x100 v) \<le> 7" by (rule show_x100_length [OF assms(1)])
  let ?a = "show_u (\<bar>v\<bar> div 100)"
  let ?m = "?a @ ''.'' @ show_u (\<bar>v\<bar> div 10 mod 10) @ show_u (\<bar>v\<bar> mod 10)"
  have d: "x100_mag ?m = Some \<bar>v\<bar>" using assms(1) by (intro x100_mag_show) (auto simp: crange)
  have "0 \<le> \<bar>v\<bar> div 100" by (simp add: pos_imp_zdiv_nonneg_iff)
  then obtain h r where "?a = h # r" "h \<noteq> CHR ''-''"
    using show_u_hd [of "\<bar>v\<bar> div 100"] by (cases ?a) auto
  with d have "x100_val (show_x100 v) = Some v"
    unfolding show_x100_def x100_val_def by (cases "v < 0") simp_all
  then have "\<exists>t. shAppendX100 cap dst v = dst @ t \<and> length t \<le> 7 \<and> x100_val t = Some v"
    using len append_x100 [OF assms(1)] append_fits [of dst "show_x100 v" cap] assms(2) by (intro exI [of _ "show_x100 v"]) simp
  moreover have u: "0 \<le> u" "u < 10 ^ 5" using assms(3) by (simp_all add: crange)
  then have "length (show_u u) \<le> 5" by (intro show_u_length) simp_all
  then have "\<exists>t. shAppendU cap dst u = dst @ t \<and> length t \<le> 5 \<and> u_val t = Some u"
    using u u_val_show [of u] append_u [of cap dst u] append_fits [of dst "show_u u" cap] assms(2) by (intro exI [of _ "show_u u"]) simp
  ultimately show ?thesis by blast
qed

theorem report_number_roundtrip_witness:
  "(\<exists>t. shAppendX100 192 ''body:'' (- 32768) = ''body:'' @ t \<and> length t \<le> 7 \<and> x100_val t = Some (- 32768)) \<and>
   (\<exists>t. shAppendU 192 ''body:'' 65535 = ''body:'' @ t \<and> length t \<le> 5 \<and> u_val t = Some 65535)"
  by (rule report_number_roundtrip) (simp_all add: crange)

section \<open>The report text\<close>

definition report_fields ::
  "bool \<Rightarrow> bool \<Rightarrow> bool \<Rightarrow> vitals_status \<Rightarrow> sensor_data \<Rightarrow> int \<Rightarrow> int \<Rightarrow> int \<Rightarrow> (string \<times> string) list" where
  "report_fields holding restart fall v s co nh3 no2 =
     [(''motion'', if holding then ''moving'' else ''still''),
      (''restart'', yes_no restart), (''fall'', yes_no fall), (''pulse'', pulse_word v),
      (''body'', if mlx90614_ok s then show_x100 (object_temp_x100 s) @ ''C'' else ''na''),
      (''amb'', if hdc1080_ok s then show_x100 (hdc_temp_x100 s) @ ''C'' else ''na''),
      (''rh'', if hdc1080_ok s then show_x100 (hdc_humidity_x100 s) @ ''%'' else ''na''),
      (''voc'', if ccs811_ok s then show_u (ccs811_tvoc s) @ ''ppb'' else ''na''),
      (''co'', show_u co @ ''ppm''), (''nh3'', show_u nh3 @ ''ppm''), (''no2'', show_x100 no2 @ ''ppm'')]"

definition field_text :: "string \<times> string \<Rightarrow> string" where
  "field_text f = fst f @ '':'' @ snd f"

definition render :: "(string \<times> string) list \<Rightarrow> string" where
  "render fs = concat (map (\<lambda>f. field_text f @ crlf) fs)"

lemma crlf_length [simp]: "length crlf = 2"
  by (simp add: crlf_def)

lemma ppm_bounds:
  "0 \<le> shCoPpm r" "shCoPpm r < 10 ^ 4" "0 \<le> shNh3Ppm r" "shNh3Ppm r < 10 ^ 3"
  "0 \<le> shNo2PpmX100 r" "shNo2PpmX100 r \<le> 1000"
  by (simp_all add: shCoPpm_def shNh3Ppm_def shNo2PpmX100_def)

lemma x100_text:
  assumes "is_s16 v"
  shows "report_x100 name ok v unit l = shAppend 192 l (crlf @ name @ (if ok then show_x100 v @ unit else ''na''))"
  by (simp only: report_x100_def Let_def append_x100 [OF assms] append_append append_assoc split: if_split) simp

lemma report_appends:
  assumes "sensor_data_ok s"
  shows "report_flags holding restart fall v l = shAppend 192 l
      (''motion:'' @ (if holding then ''moving'' else ''still'') @ crlf @ ''restart:'' @ yes_no restart @ crlf @
       ''fall:'' @ yes_no fall @ crlf @ ''pulse:'' @ pulse_word v)"
    and "report_sensors s l = shAppend 192 l
      (crlf @ ''body:'' @ (if mlx90614_ok s then show_x100 (object_temp_x100 s) @ ''C'' else ''na'') @
       crlf @ ''amb:'' @ (if hdc1080_ok s then show_x100 (hdc_temp_x100 s) @ ''C'' else ''na'') @
       crlf @ ''rh:'' @ (if hdc1080_ok s then show_x100 (hdc_humidity_x100 s) @ ''%'' else ''na'') @
       crlf @ ''voc:'' @ (if ccs811_ok s then show_u (ccs811_tvoc s) @ ''ppb'' else ''na''))"
proof -
  show "report_flags holding restart fall v l = shAppend 192 l
      (''motion:'' @ (if holding then ''moving'' else ''still'') @ crlf @ ''restart:'' @ yes_no restart @ crlf @
       ''fall:'' @ yes_no fall @ crlf @ ''pulse:'' @ pulse_word v)"
    by (simp only: report_flags_def Let_def append_append append_assoc)
  have r: "is_s16 (object_temp_x100 s)" "is_s16 (hdc_temp_x100 s)" "is_s16 (hdc_humidity_x100 s)"
    using assms by (simp_all add: sensor_data_ok_def crange)
  have c: "s16 (hdc_temp_x100 s + 0) = hdc_temp_x100 s" "s16 (hdc_humidity_x100 s) = hdc_humidity_x100 s"
    using r by (simp_all add: crange)
  have voc: "(if \<not> b then shAppend 192 l' ''na'' else shAppend 192 (shAppendU 192 l' x) ''ppb'') =
      shAppend 192 l' (if b then show_u x @ ''ppb'' else ''na'')" for b l' x
    by (simp only: append_u append_append split: if_split) simp
  show "report_sensors s l = shAppend 192 l
      (crlf @ ''body:'' @ (if mlx90614_ok s then show_x100 (object_temp_x100 s) @ ''C'' else ''na'') @
       crlf @ ''amb:'' @ (if hdc1080_ok s then show_x100 (hdc_temp_x100 s) @ ''C'' else ''na'') @
       crlf @ ''rh:'' @ (if hdc1080_ok s then show_x100 (hdc_humidity_x100 s) @ ''%'' else ''na'') @
       crlf @ ''voc:'' @ (if ccs811_ok s then show_u (ccs811_tvoc s) @ ''ppb'' else ''na''))"
    by (simp only: report_sensors_def Let_def c x100_text [OF r(1)] x100_text [OF r(2)] x100_text [OF r(3)]
        voc append_append append_assoc)
qed

lemma gas_appends:
  "report_gas mv r0s l =
    (let g1 = shGasValue 0 (mv ! 1) r0s; g2 = shGasValue 1 (mv ! 2) (snd g1); g3 = shGasValue 2 (mv ! 3) (snd g2)
     in (shAppend 192 l (crlf @ ''co:'' @ show_u (shCoPpm (fst g1)) @ ''ppm'' @ crlf @ ''nh3:'' @ show_u (shNh3Ppm (fst g2)) @
         ''ppm'' @ crlf @ ''no2:'' @ show_x100 (shNo2PpmX100 (fst g3)) @ ''ppm'' @ crlf), snd g3))"
proof -
  have s: "is_s16 (shNo2PpmX100 r)" "s16 (shNo2PpmX100 r) = shNo2PpmX100 r" for r
    using ppm_bounds(5,6) [of r] by (simp_all add: crange)
  show ?thesis
    by (simp only: report_gas_def Let_def case_prod_beta s(2) append_u append_x100 [OF s(1)] append_append append_assoc)
qed

lemma field_lengths:
  assumes "sensor_data_ok s"
  shows "list_all2 (\<lambda>f n. length (field_text f) \<le> n)
     (report_fields holding restart fall v s (shCoPpm r1) (shNh3Ppm r2) (shNo2PpmX100 r3))
     [13, 11, 8, 13, 13, 12, 11, 12, 10, 10, 12]"
proof -
  have r: "is_s16 (object_temp_x100 s)" "is_s16 (hdc_temp_x100 s)" "is_s16 (hdc_humidity_x100 s)"
    and tv: "0 \<le> ccs811_tvoc s" "ccs811_tvoc s < 10 ^ 5"
    using assms by (simp_all add: sensor_data_ok_def crange)
  have n: "length (show_x100 (shNo2PpmX100 r3)) \<le> 5"
    using show_u_length [of "shNo2PpmX100 r3 div 100" 2] ppm_bounds(5,6) [of r3]
    by (simp add: show_x100_def show_u_digit)
  have w: "length (yes_no b) \<le> 3" "length (pulse_word v) \<le> 7" for b by (simp_all add: yes_no_def pulse_word_def)
  show ?thesis
    using w(1) [of restart] w(1) [of fall] w(2) n show_u_length [OF tv] show_x100_length [OF r(1)]
      show_x100_length [OF r(2)] show_x100_length [OF r(3)] show_u_length [OF ppm_bounds(1,2), of r1]
      show_u_length [OF ppm_bounds(3,4), of r2]
    by (simp add: report_fields_def field_text_def)
qed

lemma render_length: "list_all2 (\<lambda>f n. length (field_text f) \<le> n) fs ns \<Longrightarrow> length (render fs) \<le> sum_list ns + 2 * length ns"
  by (induction rule: list_all2_induct) (simp_all add: render_def)

lemma report_line_render:
  assumes "sensor_data_ok s"
  shows "let g1 = shGasValue 0 (mv ! 1) r0s; g2 = shGasValue 1 (mv ! 2) (snd g1); g3 = shGasValue 2 (mv ! 3) (snd g2)
     in report_line holding restart fall v s mv r0s =
          (render (report_fields holding restart fall v s
             (shCoPpm (fst g1)) (shNh3Ppm (fst g2)) (shNo2PpmX100 (fst g3))), snd g3) \<and>
        length (fst (report_line holding restart fall v s mv r0s)) \<le> 147"
proof -
  define g1 where "g1 = shGasValue 0 (mv ! 1) r0s"
  define g2 where "g2 = shGasValue 1 (mv ! 2) (snd g1)"
  define g3 where "g3 = shGasValue 2 (mv ! 3) (snd g2)"
  define fs where "fs = report_fields holding restart fall v s (shCoPpm (fst g1)) (shNh3Ppm (fst g2)) (shNo2PpmX100 (fst g3))"
  have len: "length (render fs) \<le> 147" using render_length [OF field_lengths [OF assms]] unfolding fs_def by simp
  have "report_line holding restart fall v s mv r0s = (shAppend 192 [] (render fs), snd g3)"
    unfolding report_line_def gas_appends Let_def report_appends [OF assms] append_append append_assoc
      g1_def [symmetric] g2_def [symmetric] g3_def [symmetric]
    by (simp add: fs_def render_def report_fields_def field_text_def)
  then have "report_line holding restart fall v s mv r0s = (render fs, snd g3)"
    using append_fits [of "[]" "render fs" 192] len by simp
  with len show ?thesis unfolding Let_def g1_def [symmetric] g2_def [symmetric] g3_def [symmetric] fs_def [symmetric] by simp
qed

text \<open>A report is never cut short. For every combination of flags, vitals status, sensor values
  and gas readings, the text built in the 192-byte buffer is the concatenation of the eleven
  fields in their fixed order, each as \<open>name:value\<close> with its line end, and it has at most 147
  characters.\<close>

theorem report_text_complete:
  assumes "sensor_data_ok s"
  shows "let g1 = shGasValue 0 (mv ! 1) r0s; g2 = shGasValue 1 (mv ! 2) (snd g1); g3 = shGasValue 2 (mv ! 3) (snd g2)
     in report_line holding restart fall v s mv r0s =
          (render (report_fields holding restart fall v s
             (shCoPpm (fst g1)) (shNh3Ppm (fst g2)) (shNo2PpmX100 (fst g3))), snd g3) \<and>
        length (fst (report_line holding restart fall v s mv r0s)) \<le> 147"
  by (rule report_line_render [OF assms])

theorem report_text_complete_witness:
  "length (fst (report_line True False False vitals_status_zero (sd (sensors_boot late_start)) [900, 1500, 1600, 1700] [0, 0, 0])) \<le> 147"
  using report_text_complete [of "sd (sensors_boot late_start)" "[900, 1500, 1600, 1700]" "[0, 0, 0]" True False False vitals_status_zero]
    sensors_invD(2) [OF sensors_boot_inv [OF late_start_ok(1)]] unfolding Let_def by blast

section \<open>Frames\<close>

lemma is_eol_crlf: "\<forall>c \<in> set crlf. is_eol c"
  by (simp add: crlf_def is_eol_def)

lemma next_line_word:
  assumes "w \<noteq> []" "\<forall>c \<in> set w. \<not> is_eol c" "length w \<le> k"
  shows "next_line k (w @ crlf @ rest) = (w, crlf @ rest)"
    and "next_line k (crlf @ w @ crlf @ rest) = (w, crlf @ rest)"
proof -
  have cr: "is_eol CHR 0x0D" "is_eol CHR 0x0A" by (simp_all add: is_eol_def)
  have d: "dropWhile is_eol (w @ crlf @ rest) = w @ crlf @ rest" using assms(1,2) by (cases w) simp_all
  then have d2: "dropWhile is_eol (crlf @ w @ crlf @ rest) = w @ crlf @ rest"
    using cr by (simp add: crlf_def)
  have t: "takeWhile (\<lambda>c. \<not> is_eol c) (w @ crlf @ rest) = w"
    "dropWhile (\<lambda>c. \<not> is_eol c) (w @ crlf @ rest) = crlf @ rest"
    using assms(2) cr by (simp_all add: crlf_def)
  show "next_line k (w @ crlf @ rest) = (w, crlf @ rest)" "next_line k (crlf @ w @ crlf @ rest) = (w, crlf @ rest)"
    using assms(3) unfolding next_line_def Let_def d d2 t by simp_all
qed

definition sendable :: "nat \<Rightarrow> string \<times> string \<Rightarrow> bool" where
  "sendable k f \<longleftrightarrow> (\<forall>c \<in> set (field_text f). \<not> is_eol c) \<and> length (field_text f) \<le> k"

lemma field_text_nonempty: "field_text f \<noteq> []"
  by (simp add: field_text_def)

lemma send_rendered:
  "list_all (sendable 37) fs \<Longrightarrow>
   send_lines send (render fs) s = write_frames send (map (\<lambda>f. field_text f @ crlf) fs) s \<and>
   send_lines send (crlf @ render fs) s = write_frames send (map (\<lambda>f. field_text f @ crlf) fs) s"
proof (induction fs arbitrary: s)
  case Nil
  have "next_line 37 crlf = ([], [])" by (simp add: next_line_def crlf_def is_eol_def)
  moreover have "crlf \<noteq> []" by (simp add: crlf_def)
  ultimately show ?case by (simp add: render_def send_lines.simps [of send "[]"] send_lines.simps [of send crlf])
next
  case (Cons f fs)
  have w: "\<forall>c \<in> set (field_text f). \<not> is_eol c" "length (field_text f) \<le> 37"
    using Cons.prems by (simp_all add: sendable_def)
  note n = next_line_word [OF field_text_nonempty w]
  have r: "render (f # fs) = field_text f @ crlf @ render fs" by (simp add: render_def)
  show ?case unfolding r
    by (subst (1 2) send_lines.simps) (use Cons in \<open>auto simp: n field_text_nonempty split: prod.splits\<close>)
qed

lemma digits_not_eol: "0 \<le> v \<Longrightarrow> \<forall>c \<in> set (show_u v). \<not> is_eol c"
proof
  fix c
  assume "0 \<le> v" "c \<in> set (show_u v)"
  from show_u_chars [OF this] obtain d where "0 \<le> d" "d < 10" "c = digit_char d" by blast
  then show "\<not> is_eol c" by (simp only: digit_not(3)) simp
qed

lemma x100_not_eol: "\<forall>c \<in> set (show_x100 v). \<not> is_eol c"
proof -
  have "0 \<le> \<bar>v\<bar> div 100" "0 \<le> \<bar>v\<bar> div 10 mod 10" "0 \<le> \<bar>v\<bar> mod 10" by (simp_all add: pos_imp_zdiv_nonneg_iff)
  note n = this [THEN digits_not_eol]
  have "\<forall>c \<in> set (if v < 0 then ''-'' else []). \<not> is_eol c" "\<forall>c \<in> set ''.''. \<not> is_eol c"
    by (simp_all add: is_eol_def)
  with n show ?thesis unfolding show_x100_def set_append ball_Un by blast
qed

lemma fields_sendable:
  assumes "sensor_data_ok s"
  shows "list_all (sendable 37) (report_fields holding restart fall v s (shCoPpm r1) (shNh3Ppm r2) (shNo2PpmX100 r3))"
proof -
  have tv: "0 \<le> ccs811_tvoc s" using assms by (simp add: sensor_data_ok_def crange)
  have e: "\<forall>c \<in> set (yes_no b). \<not> is_eol c" "\<forall>c \<in> set (pulse_word v). \<not> is_eol c" for b
    by (simp_all add: yes_no_def pulse_word_def is_eol_def)
  let ?fs = "report_fields holding restart fall v s (shCoPpm r1) (shNh3Ppm r2) (shNo2PpmX100 r3)"
  have chars: "list_all (\<lambda>f. \<forall>c \<in> set (field_text f). \<not> is_eol c) ?fs"
    using e x100_not_eol digits_not_eol [OF tv] digits_not_eol [OF ppm_bounds(1) [of r1]]
      digits_not_eol [OF ppm_bounds(3) [of r2]]
    by (simp add: report_fields_def field_text_def is_eol_def)
  have "list_all2 (\<lambda>f n. length (field_text f) \<le> n) ?fs [13, 11, 8, 13, 13, 12, 11, 12, 10, 10, 12]"
    by (rule field_lengths [OF assms])
  then have "list_all (\<lambda>f. length (field_text f) \<le> 37) ?fs" by (simp add: report_fields_def)
  with chars show ?thesis by (simp add: sendable_def list_all_iff)
qed

text \<open>The transmission of a report puts every field on the wire as one frame of its own, with its
  line end and uncut, in the order of the report. It stops at the first frame the UART refuses, and
  the link layer is told of success exactly when all eleven were accepted. So with a UART that
  accepts everything the bytes sent are the report text.\<close>

theorem report_frames:
  assumes "sensor_data_ok d"
    and "fs = report_fields holding restart fall v d (shCoPpm r1) (shNh3Ppm r2) (shNo2PpmX100 r3)"
  shows "shSendReportLines send note (render fs) s =
      (case write_frames send (map (\<lambda>f. field_text f @ crlf) fs) s of (ok, s') \<Rightarrow> note ok s') \<and>
    concat (map (\<lambda>f. field_text f @ crlf) fs) = render fs \<and>
    list_all (\<lambda>f. length (field_text f @ crlf) \<le> 39) fs"
proof -
  have sd: "list_all (sendable 37) fs" unfolding assms(2) by (rule fields_sendable [OF assms(1)])
  then have "list_all (\<lambda>f. length (field_text f @ crlf) \<le> 39) fs" by (auto simp: sendable_def list_all_iff)
  with send_rendered [OF sd, of send s] show ?thesis by (simp add: shSendReportLines_def render_def)
qed

theorem report_frames_witness:
  "shSendReportLines (\<lambda>f sent. (True, sent @ [f])) (\<lambda>ok sent. if ok then sent else [])
     (render (report_fields False True False vitals_status_zero (sd (sensors_boot late_start))
        (shCoPpm 100) (shNh3Ppm 100) (shNo2PpmX100 100))) [] \<noteq> []"
  using report_frames [of "sd (sensors_boot late_start)" _ False True False vitals_status_zero 100 100 100,
      OF sensors_invD(2) [OF sensors_boot_inv [OF late_start_ok(1)]] refl,
      of "\<lambda>f sent. (True, sent @ [f])" "\<lambda>ok sent. if ok then sent else []" "[]"]
  by (simp add: report_fields_def)

section \<open>Motion hold\<close>

definition hold_reports :: "bool list \<Rightarrow> motion_hold \<Rightarrow> motion_hold" where
  "hold_reports ls h = fold (\<lambda>l h. report_motion (h\<lparr>mh_since_report := l\<rparr>)) ls h"

definition hold_inv :: "motion_hold \<Rightarrow> bool" where
  "hold_inv h \<longleftrightarrow> 0 \<le> mh_quiet_reports h \<and> mh_quiet_reports h \<le> 1"

lemma hold_step_inv: "hold_inv h \<Longrightarrow> hold_inv (report_motion (h\<lparr>mh_since_report := l\<rparr>))"
  by (auto simp: hold_inv_def report_motion_def Let_def)

lemma hold_reports_inv: "hold_inv h \<Longrightarrow> hold_inv (hold_reports ls h)"
  by (induction ls arbitrary: h) (simp_all add: hold_reports_def hold_step_inv)

text \<open>The motion field holds. Over any history of report windows, a report says \<open>moving\<close>
  exactly if a step over the gate was latched in its own window or in the one before: one quiet
  window does not flip it to \<open>still\<close>, two in a row do.\<close>

theorem motion_hold_two_windows:
  assumes "hold_inv h"
  shows "mh_holding (hold_reports (ls @ [a, b]) h) = (a \<or> b)"
proof -
  define g where "g = hold_reports ls h"
  have "hold_inv g" unfolding g_def by (rule hold_reports_inv [OF assms])
  moreover have "hold_reports (ls @ [a, b]) h = hold_reports [a, b] g" by (simp add: g_def hold_reports_def)
  ultimately show ?thesis
    by (cases a; cases b; cases "mh_holding g") (simp_all add: hold_reports_def hold_inv_def report_motion_def Let_def)
qed

theorem motion_hold_two_windows_witness:
  "mh_holding (hold_reports ([False] @ [True, False])
     \<lparr>mh_since_report = False, mh_quiet_reports = 0, mh_holding = False\<rparr>) = (True \<or> False)"
  by (rule motion_hold_two_windows) (simp add: hold_inv_def)

section \<open>Gas levels\<close>

lemma gas_rs:
  fixes mv :: int
  assumes "50 \<le> mv" "mv < 3300"
  shows "u32 ((3300 - mv) * 1000) div mv = (3300 - mv) * 1000 div mv" "0 \<le> (3300 - mv) * 1000 div mv"
    "(3300 - mv) * 1000 div mv \<le> 65000"
proof -
  show "u32 ((3300 - mv) * 1000) div mv = (3300 - mv) * 1000 div mv" using assms by simp
  show "0 \<le> (3300 - mv) * 1000 div mv" using assms by (simp add: pos_imp_zdiv_nonneg_iff)
  have "(3300 - mv) * 1000 < 65001 * mv" using assms by simp
  then have "(3300 - mv) * 1000 div mv < 65001" using assms by (simp add: div_less_mult)
  then show "(3300 - mv) * 1000 div mv \<le> 65000" by simp
qed

lemma gas_rs0:
  fixes r0 :: int
  assumes "50 \<le> r0" "r0 \<le> 3000"
  shows "100 \<le> (3300 - r0) * 1000 div r0"
proof -
  have "100 * r0 \<le> (3300 - r0) * 1000" using assms by simp
  then show ?thesis using assms zdiv_mono1 [of "100 * r0" "(3300 - r0) * 1000" r0] by simp
qed

lemma gas_ratio_exact:
  assumes "50 \<le> mv" "mv < 3300" "50 \<le> r0" "r0 \<le> 3000"
  shows "shGasRatioX100 mv r0 = ((3300 - mv) * 1000 div mv) * 100 div ((3300 - r0) * 1000 div r0)"
proof -
  define a b where "a = (3300 - mv) * 1000 div mv" and "b = (3300 - r0) * 1000 div r0"
  have a: "0 \<le> a" "a \<le> 65000" "u32 ((3300 - mv) * 1000) div mv = a" using gas_rs [OF assms(1,2)] by (simp_all add: a_def)
  have b: "100 \<le> b" "u32 ((3300 - r0) * 1000) div r0 = b" using gas_rs0 [OF assms(3,4)] gas_rs [of r0] assms by (simp_all add: b_def)
  have "a * 100 < 65001 * b" using a b by simp
  then have "a * 100 div b < 65001" using b by (simp add: div_less_mult)
  moreover have "0 \<le> a * 100 div b" using a b by (simp add: pos_imp_zdiv_nonneg_iff)
  ultimately have "u16 (u32 (a * 100) div b) = a * 100 div b" using a by simp
  then show ?thesis using assms a b
    by (simp add: shGasRatioX100_def Let_def a_def [symmetric] b_def [symmetric])
qed

lemma gas_ratio_antimono:
  assumes "50 \<le> mv" "mv \<le> mv'" "mv' < 3300" "50 \<le> r0" "r0 \<le> 3000"
  shows "shGasRatioX100 mv' r0 \<le> shGasRatioX100 mv r0"
proof -
  have "(3300 - mv') * 1000 div mv' \<le> (3300 - mv) * 1000 div mv'"
    using assms by (intro zdiv_mono1) auto
  also have "\<dots> \<le> (3300 - mv) * 1000 div mv" using assms by (intro zdiv_mono2) auto
  finally have "(3300 - mv') * 1000 div mv' * 100 \<le> (3300 - mv) * 1000 div mv * 100" by simp
  then show ?thesis using gas_rs0 [OF assms(4,5)] assms
    by (simp add: gas_ratio_exact zdiv_mono1)
qed

text \<open>The gas levels follow the sensor. With a reference of at most 3000 mV nothing wraps, and for
  two usable readings of a channel the higher voltage (the lower sensor resistance) never gives a
  lower CO or NH3 level and never a higher NO2 level.\<close>

theorem gas_levels_monotone:
  assumes "50 \<le> mv" "mv \<le> mv'" "mv' < 3300" "50 \<le> r0" "r0 \<le> 3000"
  shows "shCoPpm (shGasRatioX100 mv r0) \<le> shCoPpm (shGasRatioX100 mv' r0) \<and>
    shNh3Ppm (shGasRatioX100 mv r0) \<le> shNh3Ppm (shGasRatioX100 mv' r0) \<and>
    shNo2PpmX100 (shGasRatioX100 mv' r0) \<le> shNo2PpmX100 (shGasRatioX100 mv r0)"
  using gas_ratio_antimono [OF assms]
  by (simp add: shCoPpm_def shNh3Ppm_def shNo2PpmX100_def)

theorem gas_levels_monotone_witness:
  "shCoPpm (shGasRatioX100 1000 1000) \<le> shCoPpm (shGasRatioX100 2500 1000)"
  using gas_levels_monotone [of 1000 2500 1000] by simp

end
