(* ===== verification/Wisun_Text.thy ===== *)
theory Wisun_Text
  imports Messages "HOL-Library.Sublist"
begin

text \<open>
  The text scanning of the Wi-SUN link (\<^verbatim>\<open>smart_helmet_uart.c\<close>): the case-insensitive search
  every reply is judged with, the IPv6 heuristic, the status digit, the preview of the last line
  and the count of printable bytes. Received bytes are HOL characters, which are exactly the 256
  byte values.
\<close>

section \<open>Case-insensitive search\<close>

definition byte :: "char \<Rightarrow> int" where
  "byte c = of_char c"

definition fold_char :: "char \<Rightarrow> char" where
  "fold_char c = (if 65 \<le> byte c \<and> byte c \<le> 90 then char_of (byte c - 65 + 97) else c)"

fun match_here :: "string \<Rightarrow> string \<Rightarrow> bool" where
  "match_here ds [] = True"
| "match_here [] (n # ns) = False"
| "match_here (d # ds) (n # ns) = (fold_char d = fold_char n \<and> match_here ds ns)"

fun contains_scan :: "string \<Rightarrow> string \<Rightarrow> bool" where
  "contains_scan ds needle =
     (if length ds < length needle then False
      else if match_here ds needle then True
      else (case ds of [] \<Rightarrow> False | d # ds' \<Rightarrow> contains_scan ds' needle))"

declare contains_scan.simps [simp del]

definition shContainsFold :: "string \<Rightarrow> string \<Rightarrow> bool" where
  "shContainsFold data needle =
     (if length needle = 0 \<or> length data < length needle then False else contains_scan data needle)"

section \<open>Reply heuristics\<close>

definition is_digit_byte :: "char \<Rightarrow> bool" where
  "is_digit_byte c \<longleftrightarrow> 48 \<le> byte c \<and> byte c \<le> 57"

definition is_hex_byte :: "char \<Rightarrow> bool" where
  "is_hex_byte c \<longleftrightarrow> is_digit_byte c \<or> (97 \<le> byte c \<and> byte c \<le> 102) \<or> (65 \<le> byte c \<and> byte c \<le> 70)"

definition count_u8 :: "(char \<Rightarrow> bool) \<Rightarrow> string \<Rightarrow> int" where
  "count_u8 P data = fold (\<lambda>c n. if P c then u8 (n + 1) else n) data 0"

definition shIpv6Like :: "string \<Rightarrow> bool" where
  "shIpv6Like data \<longleftrightarrow> count_u8 (\<lambda>c. c = CHR '':'') data \<ge> 2 \<and>
     count_u8 (\<lambda>c. c \<noteq> CHR '':'' \<and> is_hex_byte c) data \<ge> 4 \<and> shContainsFold data ''fe80''"

function status_digit_at :: "string \<Rightarrow> nat \<Rightarrow> nat \<Rightarrow> nat" where
  "status_digit_at data i j =
     (if j < length data \<and> \<not> is_digit_byte (data ! j)
      then if j + 1 > i + 12 then j + 1 else status_digit_at data i (j + 1)
      else j)"
  by pat_completeness auto
termination by (relation "measure (\<lambda>(data, _, j). length data - j)") auto

declare status_digit_at.simps [simp del]

text \<open>\<open>None\<close>: no status digit; the loop ends at the first position from which the rest of the buffer
  contains one of the words.\<close>

function status_scan :: "string \<Rightarrow> nat \<Rightarrow> int option" where
  "status_scan data i =
     (if i + 6 < length data then
        if shContainsFold (drop i data) ''state'' \<or> shContainsFold (drop i data) ''status'' then
          let j = status_digit_at data i (i + 6)
          in if j < length data \<and> is_digit_byte (data ! j) then Some (u8 (byte (data ! j) - 48)) else None
        else status_scan data (i + 1)
      else None)"
  by pat_completeness auto
termination by (relation "measure (\<lambda>(data, i). length data - i)") auto

declare status_scan.simps [simp del]

definition is_print_byte :: "char \<Rightarrow> bool" where
  "is_print_byte c \<longleftrightarrow> 32 \<le> byte c \<and> byte c < 127"

definition preview_char :: "char \<Rightarrow> char" where
  "preview_char c =
     (if c = CHR 0x0D \<or> c = CHR 0x0A then CHR ''|''
      else if c = CHR '' '' then CHR ''_''
      else if is_print_byte c then c else CHR ''.'')"

definition shCopyPreview :: "string \<Rightarrow> string" where
  "shCopyPreview data = map preview_char (take 47 data)"

definition printable_count :: "string \<Rightarrow> int" where
  "printable_count data = int (length (filter is_print_byte data))"

section \<open>What the search finds\<close>

lemma match_here_prefix: "match_here ds ns \<longleftrightarrow> prefix (map fold_char ns) (map fold_char ds)"
  by (induction ds ns rule: match_here.induct) auto

lemma contains_scan_sublist: "contains_scan ds ns \<longleftrightarrow> sublist (map fold_char ns) (map fold_char ds)"
proof (induction ds)
  case Nil
  show ?case by (subst contains_scan.simps) (auto simp: match_here_prefix)
next
  case (Cons d ds)
  show ?case
  proof (cases "length (d # ds) < length ns")
    case True
    then have "\<not> sublist (map fold_char ns) (map fold_char (d # ds))"
      using sublist_length_le [of "map fold_char ns" "map fold_char (d # ds)"] by auto
    with True show ?thesis by (subst contains_scan.simps) simp
  next
    case False
    then show ?thesis using Cons.IH
      by (subst contains_scan.simps) (auto simp: match_here_prefix sublist_Cons_right)
  qed
qed

lemma contains_iff: "shContainsFold data ns \<longleftrightarrow> ns \<noteq> [] \<and> sublist (map fold_char ns) (map fold_char data)"
proof -
  have "sublist (map fold_char ns) (map fold_char data) \<Longrightarrow> length ns \<le> length data"
    using sublist_length_le [of "map fold_char ns" "map fold_char data"] by simp
  then show ?thesis by (auto simp: shContainsFold_def contains_scan_sublist)
qed

text \<open>The reply search is a case-insensitive substring test: it answers yes exactly if the
  needle is not empty and occurs somewhere in the buffer up to the case of letters. Bytes before
  and after an occurrence, in particular an echo or earlier output left in the buffer, never hide
  it.\<close>

theorem shContainsFold_spec:
  "shContainsFold data ns \<longleftrightarrow>
     ns \<noteq> [] \<and> (\<exists>pre mid post. data = pre @ mid @ post \<and> map fold_char mid = map fold_char ns)"
  (is "_ \<longleftrightarrow> _ \<and> ?occurs")
proof -
  have "sublist (map fold_char ns) (map fold_char data) \<longleftrightarrow> ?occurs"
  proof
    assume "sublist (map fold_char ns) (map fold_char data)"
    then obtain a b where "map fold_char data = a @ map fold_char ns @ b" by (auto simp: sublist_def)
    then obtain us vs where "data = us @ vs" "map fold_char vs = map fold_char ns @ b"
      using map_eq_append_conv [of fold_char data a "map fold_char ns @ b"] by metis
    moreover from this(2) obtain mid post where "vs = mid @ post" "map fold_char mid = map fold_char ns"
      using map_eq_append_conv [of fold_char vs "map fold_char ns" b] by metis
    ultimately show ?occurs by blast
  next
    assume ?occurs
    then show "sublist (map fold_char ns) (map fold_char data)" unfolding sublist_def by force
  qed
  then show ?thesis by (simp add: contains_iff)
qed

lemma status_scan_at_start:
  assumes "6 < length data" "shContainsFold data ''state'' \<or> shContainsFold data ''status''"
  shows "status_scan data 0 = (let j = status_digit_at data 0 6
     in if j < length data \<and> is_digit_byte (data ! j) then Some (u8 (byte (data ! j) - 48)) else None)"
  using assms by (subst status_scan.simps) simp

lemma status_digit_at_bounds: "j \<le> i + 12 \<Longrightarrow> j \<le> status_digit_at data i j \<and> status_digit_at data i j \<le> i + 13"
proof (induction data i j rule: status_digit_at.induct)
  case (1 data i j)
  then show ?case by (subst (1 2) status_digit_at.simps) auto
qed

text \<open>The status digit is not read where the word stands. As soon as the buffer contains
  \<open>state\<close> or \<open>status\<close> anywhere, the search stops at its first position, and the digit is taken from the
  bytes 6 to 13 of the buffer: a buffer that differs only after byte 13 gives the same code.\<close>

theorem status_digit_from_start:
  assumes "13 < length a" "13 < length b" "take 14 a = take 14 b"
    and "shContainsFold a ''state'' \<or> shContainsFold a ''status''"
    and "shContainsFold b ''state'' \<or> shContainsFold b ''status''"
  shows "status_scan a 0 = status_scan b 0"
proof -
  have nth: "a ! k = b ! k" if "k \<le> 13" for k
    using assms(3) that nth_take [of k 14 a] nth_take [of k 14 b] by simp
  have eq: "j \<le> 12 \<Longrightarrow> status_digit_at a 0 j = status_digit_at b 0 j" for j
  proof (induction "13 - j" arbitrary: j)
    case (Suc n)
    then show ?case using nth [of j] assms(1,2)
      by (subst (1 2) status_digit_at.simps) (auto simp: not_less)
  qed simp
  have "status_digit_at b 0 6 \<le> 13" using status_digit_at_bounds [of 6 0 b] by simp
  then show ?thesis using assms(1,2,4,5) eq [of 6] nth [of "status_digit_at b 0 6"]
    by (simp add: status_scan_at_start Let_def)
qed

theorem status_digit_from_start_witness:
  "status_scan ''net role:2 pan 1234 status 5'' 0 = status_scan ''net role:2 pan 9999 state: 3'' 0"
  by (rule status_digit_from_start) (code_simp)+

end
