(* ===== verification/Wisun.thy ===== *)
theory Wisun
  imports Wisun_Text
begin

text \<open>
  The Wi-SUN link (\<^verbatim>\<open>smart_helmet_uart.c\<close>): the UART stream, the line assembly, the bring-up of
  the WS8856 module (leave passthrough, reset, provisioning, read probes, destination, enter
  passthrough), the supervision of the report acknowledgements and the rejoin.

  The state is the file statics; \<open>u_out\<close> collects the calls the code makes, in order. A call that
  starts a report or restarts the vitals layer is executed by the composition; the status screen
  call carries the flags it reads at that moment. Inputs: the free-running clock (in
  microseconds) and whether the stream accepts a write (the sink's slack, claim, map and flush).
  The flag \<open>u_dirty\<close> and the pin routing results of the open sequence are kept; logging and the
  log-only receive statistics (\<open>shLogAscii\<close>, \<open>shLogRxShape\<close>, \<open>shLogAsmKeywords\<close>) are not.
\<close>

section \<open>State\<close>

datatype wisun_step =
    STEP_IDLE | STEP_RESET | STEP_CMD | STEP_DONE | STEP_PROV_READ | STEP_PROV_SET
  | STEP_DEST | STEP_PASS | STEP_LEAVE

datatype wisun_link = wisun_idle | wisun_tx_only | wisun_rx_unknown | wisun_module_ok

record wisun_status =
  ws_result :: wisun_link
  ws_tx_ok :: bool
  ws_rx_seen :: bool
  ws_module_seen :: bool
  ws_ip_seen :: bool
  ws_online :: bool
  ws_reset_seen :: bool
  ws_at_mode :: bool
  ws_at_ok :: bool
  ws_at_pass :: int
  ws_at_fail :: int
  ws_status_code :: int
  ws_tries :: int
  ws_at_cmd :: string
  ws_last_line :: string

record screen_flags =
  sf_rejoining :: bool
  sf_online :: bool
  sf_passthrough :: bool
  sf_module_seen :: bool
  sf_ip_seen :: bool
  sf_reset_seen :: bool

datatype uart_call =
    U_Timer timer_call
  | U_Tx string
  | U_ReportStart
  | U_ShowScreen screen_flags
  | U_OnlineChanged bool
  | U_VitalsInit
  | U_ResetHold bool
  | U_ReleasePins
  | U_RxCallback string

record uart =
  u_sink :: bool
  u_source :: bool
  u_task :: bool
  u_rx_cb :: bool
  wisun :: wisun_status
  u_step :: wisun_step
  at_idx :: nat
  passthrough :: bool
  restart_seen :: bool
  send_ok_wait :: bool
  rejoining :: bool
  missed_ok :: int
  leave_next :: wisun_step
  too_long_retry :: int
  rx_asm :: string
  rx_line :: string
  prov_q :: "string list"
  prov_i :: nat
  prov_done :: bool
  u_dirty :: bool
  rejoin_ms :: int
  u_out :: "uart_call list"

record link_env =
  le_now_us :: int
  le_accepts :: "string \<Rightarrow> bool"

definition wisun_status_zero :: wisun_status where
  "wisun_status_zero = \<lparr>ws_result = wisun_idle, ws_tx_ok = False, ws_rx_seen = False, ws_module_seen = False,
     ws_ip_seen = False, ws_online = False, ws_reset_seen = False, ws_at_mode = False, ws_at_ok = False,
     ws_at_pass = 0, ws_at_fail = 0, ws_status_code = 0, ws_tries = 0, ws_at_cmd = [], ws_last_line = []\<rparr>"

definition uart_boot :: uart where
  "uart_boot = \<lparr>u_sink = False, u_source = False, u_task = False, u_rx_cb = False, wisun = wisun_status_zero,
     u_step = STEP_IDLE, at_idx = 0, passthrough = False, restart_seen = False, send_ok_wait = False,
     rejoining = False, missed_ok = 0, leave_next = STEP_IDLE, too_long_retry = 0, rx_asm = [], rx_line = [],
     prov_q = [], prov_i = 0, prov_done = False, u_dirty = False, rejoin_ms = 0, u_out = []\<rparr>"

definition emit :: "uart_call \<Rightarrow> uart \<Rightarrow> uart" where
  "emit c u = u\<lparr>u_out := u_out u @ [c]\<rparr>"

definition upd_wisun :: "(wisun_status \<Rightarrow> wisun_status) \<Rightarrow> uart \<Rightarrow> uart" where
  "upd_wisun f u = u\<lparr>wisun := f (wisun u)\<rparr>"

definition show_screen :: "uart \<Rightarrow> uart" where
  "show_screen u = emit (U_ShowScreen \<lparr>sf_rejoining = rejoining u, sf_online = ws_online (wisun u),
     sf_passthrough = passthrough u, sf_module_seen = ws_module_seen (wisun u),
     sf_ip_seen = ws_ip_seen (wisun u), sf_reset_seen = ws_reset_seen (wisun u)\<rparr>) u"

definition SmartHelmet_ReportStop :: "uart \<Rightarrow> uart" where
  "SmartHelmet_ReportStop u = emit (U_Timer (MessageCancelAll REPORT_TICK)) u"

section \<open>Sending\<close>

definition SmartHelmet_UartSend :: "link_env \<Rightarrow> string \<Rightarrow> uart \<Rightarrow> bool \<times> uart" where
  "SmartHelmet_UartSend e data u =
     (if \<not> u_sink u \<or> data = [] then (False, u)
      else if \<not> le_accepts e data then (False, u)
      else (True, emit (U_Tx data) u))"

definition crlf_bytes :: string where
  "crlf_bytes = [CHR 0x0D, CHR 0x0A]"

definition shWisunSendProbe :: "link_env \<Rightarrow> string \<Rightarrow> uart \<Rightarrow> uart" where
  "shWisunSendProbe e cmd u =
     (case SmartHelmet_UartSend e (take 46 cmd @ crlf_bytes) u of (ok, u') \<Rightarrow>
        upd_wisun (\<lambda>w. w\<lparr>ws_tx_ok := ok\<rparr>) u')"

definition shWisunArm :: "int \<Rightarrow> uart \<Rightarrow> uart" where
  "shWisunArm ms u = (if u_task u
     then emit (U_Timer (MessageSendLater WISUN_LINK_CHECK ms)) (emit (U_Timer (MessageCancelAll WISUN_LINK_CHECK)) u)
     else u)"

section \<open>Leaving, rejoining, acknowledgements\<close>

definition leave_to :: "link_env \<Rightarrow> wisun_step \<Rightarrow> uart \<Rightarrow> uart" where
  "leave_to e next u = shWisunArm 400 (shWisunSendProbe e ''exit'' (u\<lparr>leave_next := next, u_step := STEP_LEAVE\<rparr>))"

definition set_offline :: "uart \<Rightarrow> uart" where
  "set_offline u = (let was = ws_online (wisun u); u1 = upd_wisun (\<lambda>w. w\<lparr>ws_online := False\<rparr>) u
     in if was then emit (U_OnlineChanged False) u1 else u1)"

definition SmartHelmet_UartRejoin :: "link_env \<Rightarrow> uart \<Rightarrow> uart" where
  "SmartHelmet_UartRejoin e u =
     (let now = u32 (le_now_us e) div 1000
      in if u_step u = STEP_LEAVE \<or> u_step u = STEP_DEST \<or> u_step u = STEP_PASS then u
         else if rejoin_ms u \<noteq> 0 \<and> u32 (now - rejoin_ms u) < 60000 then u
         else let u1 = set_offline (u\<lparr>rejoin_ms := now, rejoining := True, passthrough := False\<rparr>);
                  u2 = show_screen (SmartHelmet_ReportStop (u1\<lparr>send_ok_wait := False\<rparr>))
              in leave_to e STEP_DEST u2)"

definition SmartHelmet_UartNoteReportSent :: "link_env \<Rightarrow> bool \<Rightarrow> uart \<Rightarrow> uart" where
  "SmartHelmet_UartNoteReportSent e ok u =
     (if \<not> ok then SmartHelmet_UartRejoin e (set_offline u)
      else if send_ok_wait u then
        (let n = (if missed_ok u < 12 then missed_ok u + 1 else missed_ok u); u1 = u\<lparr>missed_ok := n\<rparr>
         in if n \<ge> 12 then SmartHelmet_UartRejoin e u1 else u1)
      else u\<lparr>send_ok_wait := True\<rparr>)"

definition shOnCmdTooLong :: "link_env \<Rightarrow> uart \<Rightarrow> uart" where
  "shOnCmdTooLong e u =
     (let u1 = SmartHelmet_ReportStop (u\<lparr>passthrough := False\<rparr>)
      in if u_step u1 = STEP_DONE \<or> u_step u1 = STEP_IDLE then
           if too_long_retry u1 \<ge> 2 then u1
           else leave_to e STEP_DEST (u1\<lparr>too_long_retry := too_long_retry u1 + 1\<rparr>)
         else u1)"

section \<open>Received bytes\<close>

definition shRxLineFlush :: "link_env \<Rightarrow> uart \<Rightarrow> uart" where
  "shRxLineFlush e u =
     (if rx_line u = [] then u
      else (if shContainsFold (rx_line u) ''cmd too long'' then shOnCmdTooLong e u else u)\<lparr>rx_line := []\<rparr>)"

definition note_restart :: "uart \<Rightarrow> uart" where
  "note_restart u = emit U_VitalsInit (u\<lparr>restart_seen := True\<rparr>)"

definition rx_push_byte :: "link_env \<Rightarrow> char \<Rightarrow> uart \<Rightarrow> uart" where
  "rx_push_byte e b u =
     (if b = CHR 0x0A then
        shRxLineFlush e (if shContainsFold (rx_line u) ''RESTART_SENSOR'' then note_restart u else u)
      else if b = CHR 0x0D then u
      else let u1 = (if length (rx_line u) \<ge> 96 then shRxLineFlush e u else u)
           in u1\<lparr>rx_line := rx_line u1 @ [b]\<rparr>)"

definition shRxLinePush :: "link_env \<Rightarrow> string \<Rightarrow> uart \<Rightarrow> uart" where
  "shRxLinePush e data u = fold (rx_push_byte e) data u"

definition shNoteStatus :: "string \<Rightarrow> uart \<Rightarrow> uart" where
  "shNoteStatus data u = (case status_scan data 0 of None \<Rightarrow> u
     | Some d \<Rightarrow> upd_wisun (\<lambda>w. w\<lparr>ws_status_code := d\<rparr>) u)"

definition module_words :: "string list" where
  "module_words = [''8856'', ''role'', ''status'', ''phy'', ''domain'']"

definition note_send_fail :: "link_env \<Rightarrow> uart \<Rightarrow> uart" where
  "note_send_fail e u =
     (let was = ws_online (wisun u);
          u1 = show_screen ((upd_wisun (\<lambda>w. w\<lparr>ws_online := False\<rparr>) u)\<lparr>send_ok_wait := False\<rparr>);
          u2 = (if was then emit (U_OnlineChanged False) u1 else u1)
      in SmartHelmet_UartRejoin e u2)"

definition note_send_ok :: "uart \<Rightarrow> uart" where
  "note_send_ok u =
     (let was = ws_online (wisun u);
          u1 = (upd_wisun (\<lambda>w. w\<lparr>ws_online := True\<rparr>) u)\<lparr>send_ok_wait := False, missed_ok := 0,
                 rejoining := False, too_long_retry := 0\<rparr>;
          u2 = (if \<not> was then emit (U_OnlineChanged True) u1 else u1);
          u3 = (if u_step u2 = STEP_LEAVE \<or> u_step u2 = STEP_DEST \<or> u_step u2 = STEP_PASS
                then u2\<lparr>u_step := STEP_DONE, passthrough := True\<rparr> else u2)
      in show_screen u3)"

definition shWisunNoteRx :: "link_env \<Rightarrow> string \<Rightarrow> uart \<Rightarrow> uart" where
  "shWisunNoteRx e data u0 =
     (if data = [] then u0
      else let u1 = upd_wisun (\<lambda>w. w\<lparr>ws_rx_seen := True, ws_last_line := shCopyPreview data\<rparr>) u0;
               u2 = (if list_ex (shContainsFold data) module_words
                     then shNoteStatus data (upd_wisun (\<lambda>w. w\<lparr>ws_module_seen := True\<rparr>) u1) else u1);
               u3 = (if u_step u2 = STEP_CMD \<and> shIpv6Like data
                     then upd_wisun (\<lambda>w. w\<lparr>ws_ip_seen := True\<rparr>) u2 else u2);
               u4 = (if shContainsFold data ''send fail'' then note_send_fail e u3
                     else if shContainsFold data ''send ok'' then note_send_ok u3 else u3)
           in if shContainsFold data ''RESTART_SENSOR'' then note_restart u4 else u4)"

definition shResetNoteBanner :: "uart \<Rightarrow> uart" where
  "shResetNoteBanner u =
     (let u1 = (if shContainsFold (rx_asm u) ''AT Command mode'' then upd_wisun (\<lambda>w. w\<lparr>ws_at_mode := True\<rparr>) u else u)
      in if shContainsFold (rx_asm u1) ''Router start''
         then shWisunArm 400 (upd_wisun (\<lambda>w. w\<lparr>ws_reset_seen := True\<rparr>) u1) else u1)"

definition rx_assemble :: "string \<Rightarrow> uart \<Rightarrow> uart" where
  "rx_assemble data u = u\<lparr>rx_asm := rx_asm u @ take (512 - length (rx_asm u)) data\<rparr>"

definition shUartConsume :: "link_env \<Rightarrow> string \<Rightarrow> uart \<Rightarrow> uart" where
  "shUartConsume e data u0 =
     (let u1 = shRxLinePush e data (shWisunNoteRx e data (rx_assemble data u0));
          u2 = (if u_rx_cb u1 then emit (U_RxCallback data) u1 else u1)
      in if u_step u2 = STEP_RESET then
           (let u3 = shResetNoteBanner u2
            in if \<not> ws_reset_seen (wisun u3) then shWisunArm 20000 u3 else u3)
         else if u_step u2 = STEP_CMD \<or> u_step u2 = STEP_PROV_READ \<or> u_step u2 = STEP_PROV_SET
         then shWisunArm 400 u2
         else u2)"

text \<open>The stream holds a list of chunks (regions); draining hands them over one by one.\<close>

definition shUartDrain :: "link_env \<Rightarrow> string list \<Rightarrow> uart \<Rightarrow> uart" where
  "shUartDrain e chunks u = (if \<not> u_source u then u else fold (shUartConsume e) chunks u)"

definition shRxPollArm :: "uart \<Rightarrow> uart" where
  "shRxPollArm u = (if u_task u
     then emit (U_Timer (MessageSendLater WISUN_RX_POLL 50)) (emit (U_Timer (MessageCancelAll WISUN_RX_POLL)) u)
     else u)"

section \<open>Probe commands\<close>

definition sh_at_cmds :: "(string \<times> string option) list" where
  "sh_at_cmds = [(''version'', None), (''role'', Some ''role:''), (''param'', Some ''state''), (''mac'', Some '':''),
     (''ip'', None), (''fstat'', None), (''domain'', None), (''cca'', None), (''txpower'', None), (''pan'', None),
     (''chrate'', None), (''chconfig'', None), (''neighbor'', None)]"

definition shAtReplyOk :: "uart \<Rightarrow> bool" where
  "shAtReplyOk u =
     (let cmd = fst (sh_at_cmds ! at_idx u); ex = snd (sh_at_cmds ! at_idx u); asm = rx_asm u
      in if at_idx u \<ge> 13 then False
         else if shContainsFold asm ''invalid'' then False
         else if shContainsFold asm ''ok'' then True
         else if cmd = ''ip'' then shIpv6Like asm
         else if cmd = ''role'' then
           shContainsFold asm ''role:1'' \<or> shContainsFold asm ''role:2'' \<or> shContainsFold asm ''router'' \<or>
           shContainsFold asm ''border''
         else case ex of
             Some x \<Rightarrow> if \<not> shContainsFold cmd x then shContainsFold asm x
                       else printable_count asm > u16 (int (length cmd) + 2)
           | None \<Rightarrow> printable_count asm > u16 (int (length cmd) + 2))"

definition shWisunLogResult :: "uart \<Rightarrow> uart" where
  "shWisunLogResult u = upd_wisun (\<lambda>w. w\<lparr>ws_result :=
     (if ws_module_seen w then wisun_module_ok else if ws_rx_seen w then wisun_rx_unknown
      else if ws_tx_ok w then wisun_tx_only else wisun_idle)\<rparr>) u"

definition shAtFinish :: "link_env \<Rightarrow> uart \<Rightarrow> uart" where
  "shAtFinish e u =
     (let u1 = upd_wisun (\<lambda>w. w\<lparr>ws_at_ok := (ws_at_fail w = 0 \<and> ws_at_pass w > 0 \<and> ws_reset_seen w)\<rparr>)
                 (u\<lparr>u_step := STEP_DONE\<rparr>);
          u2 = upd_wisun (\<lambda>w. if ws_at_ok w \<or> ws_module_seen w then w\<lparr>ws_result := wisun_module_ok\<rparr> else w) u1;
          u3 = shWisunLogResult u2;
          u4 = (if u_task u3 then emit (U_Timer (MessageCancelAll WISUN_LINK_CHECK)) u3 else u3)
      in leave_to e STEP_DEST (u4\<lparr>passthrough := False, rx_asm := []\<rparr>))"

definition shAtSendCurrent :: "link_env \<Rightarrow> uart \<Rightarrow> uart" where
  "shAtSendCurrent e u =
     (if at_idx u \<ge> 13 then shAtFinish e u
      else let cmd = fst (sh_at_cmds ! at_idx u);
               u1 = upd_wisun (\<lambda>w. w\<lparr>ws_at_cmd := take 11 cmd\<rparr>) (u\<lparr>rx_asm := []\<rparr>)
           in shWisunArm 1500 (shWisunSendProbe e cmd (u1\<lparr>u_step := STEP_CMD\<rparr>)))"

definition shAtNoteResult :: "link_env \<Rightarrow> bool \<Rightarrow> uart \<Rightarrow> uart" where
  "shAtNoteResult e pass u =
     (let u1 = upd_wisun (\<lambda>w. if pass then (if ws_at_pass w < 0xff then w\<lparr>ws_at_pass := ws_at_pass w + 1\<rparr> else w)
                 else if ws_at_fail w < 0xff then w\<lparr>ws_at_fail := ws_at_fail w + 1\<rparr> else w) u
      in shAtSendCurrent e (u1\<lparr>at_idx := at_idx u1 + 1\<rparr>))"

section \<open>Provisioning\<close>

definition shProvQueue :: "string \<Rightarrow> string list \<Rightarrow> string list" where
  "shProvQueue cmd q = (if length q \<ge> 8 then q else q @ [take 39 cmd])"

definition prov_rules :: "string \<Rightarrow> (bool \<times> string) list" where
  "prov_rules asm =
     [(\<not> shContainsFold asm ''SmartHelmetWisun'', ''netname SmartHelmetWisun''),
      (shContainsFold asm ''border'' \<and> \<not> shContainsFold asm ''0xdcba'', ''pan 0xdcba''),
      (\<not> shContainsFold asm ''domain=1'' \<and> \<not> shContainsFold asm ''domain:1'', ''domain 1''),
      (\<not> shContainsFold asm ''rate=50kbps'' \<and> \<not> shContainsFold asm ''rate:50'', ''chrate 50''),
      (\<not> shContainsFold asm ''20dbm'' \<and> \<not> shContainsFold asm ''txpower:20'' \<and> \<not> shContainsFold asm '': 20'',
       ''txpower 20''),
      (\<not> shContainsFold asm ''-83'', ''cca -83''),
      (\<not> shContainsFold asm ''udp_port=4321'', ''udpopts udp_port 4321'')]"

definition shProvPlan :: "uart \<Rightarrow> uart" where
  "shProvPlan u = u\<lparr>prov_i := 0,
     prov_q := fold (\<lambda>r q. if fst r then shProvQueue (snd r) q else q) (prov_rules (rx_asm u)) []\<rparr>"

definition shProvSendCurrent :: "link_env \<Rightarrow> uart \<Rightarrow> uart" where
  "shProvSendCurrent e u =
     (if prov_i u \<ge> length (prov_q u) then
        (shWisunArm 1500 (shWisunSendProbe e ''save''
           (u\<lparr>u_dirty := True, rx_asm := [], u_step := STEP_PROV_SET\<rparr>)))\<lparr>prov_i := 0xff\<rparr>
      else shWisunArm 1500 (shWisunSendProbe e (prov_q u ! prov_i u)
             (u\<lparr>rx_asm := [], u_step := STEP_PROV_SET\<rparr>)))"

section \<open>The link-check tick\<close>

definition on_reset :: "link_env \<Rightarrow> uart \<Rightarrow> uart" where
  "on_reset e u =
     (if ws_reset_seen (wisun u) then
        (if \<not> prov_done u then
           shWisunArm 1500 (shWisunSendProbe e ''param'' (u\<lparr>rx_asm := [], u_step := STEP_PROV_READ\<rparr>))
         else shAtSendCurrent e (u\<lparr>at_idx := 0\<rparr>))
      else if ws_tries (wisun u) = 0 then
        shWisunArm 20000 (shWisunSendProbe e ''reset'' (upd_wisun (\<lambda>w. w\<lparr>ws_tries := 1\<rparr>) (u\<lparr>rx_asm := []\<rparr>)))
      else if ws_tries (wisun u) < 2 then
        shWisunArm 20000 (shWisunSendProbe e ''reset''
          (upd_wisun (\<lambda>w. w\<lparr>ws_tries := ws_tries w + 1\<rparr>) (u\<lparr>rx_asm := []\<rparr>)))
      else shAtFinish e (upd_wisun (\<lambda>w. w\<lparr>ws_at_fail := u8 (ws_at_fail w + 1)\<rparr>) u))"

definition on_prov_read :: "link_env \<Rightarrow> uart \<Rightarrow> uart" where
  "on_prov_read e u =
     (let u1 = shProvPlan u
      in if prov_q u1 = [] then shAtSendCurrent e (u1\<lparr>prov_done := True, at_idx := 0\<rparr>) else shProvSendCurrent e u1)"

definition on_prov_set :: "link_env \<Rightarrow> uart \<Rightarrow> uart" where
  "on_prov_set e u =
     (if prov_i u = 0xff then
        shWisunArm 20000 (shWisunSendProbe e ''svrst''
          (upd_wisun (\<lambda>w. w\<lparr>ws_reset_seen := False\<rparr>) (u\<lparr>prov_done := True, u_step := STEP_RESET, rx_asm := []\<rparr>)))
      else shProvSendCurrent e (u\<lparr>prov_i := prov_i u + 1\<rparr>))"

definition on_leave :: "link_env \<Rightarrow> uart \<Rightarrow> uart" where
  "on_leave e u =
     (if leave_next u = STEP_RESET then
        shWisunArm 200 (upd_wisun (\<lambda>w. w\<lparr>ws_tries := 0, ws_reset_seen := False\<rparr>)
          (u\<lparr>rx_asm := [], u_step := STEP_RESET\<rparr>))
      else shWisunArm 1500 (shWisunSendProbe e ''at_dest 2020:abcd::212:4b00:2de1:f9ff''
             (u\<lparr>rx_asm := [], u_step := STEP_DEST\<rparr>)))"

definition on_dest :: "link_env \<Rightarrow> uart \<Rightarrow> uart" where
  "on_dest e u = shWisunArm 1500 (shWisunSendProbe e ''+++''
     (u\<lparr>u_step := STEP_PASS, passthrough := False, rx_asm := []\<rparr>))"

definition on_pass :: "link_env \<Rightarrow> uart \<Rightarrow> uart" where
  "on_pass e u =
     (let entered = shContainsFold (rx_asm u) ''transparent'' \<or> shContainsFold (rx_asm u) ''passthrough'';
          rejected = shContainsFold (rx_asm u) ''cmd too long'' \<or> shContainsFold (rx_asm u) ''format err''
      in if rejected \<and> too_long_retry u < 2 then
           leave_to e STEP_DEST (u\<lparr>too_long_retry := too_long_retry u + 1, passthrough := False, rx_asm := []\<rparr>)
         else let u1 = u\<lparr>u_step := STEP_DONE, passthrough := (entered \<or> \<not> rejected)\<rparr>
              in if \<not> passthrough u1 then u1
                 else emit U_ReportStart (show_screen (upd_wisun (\<lambda>w. w\<lparr>ws_online := False\<rparr>) u1)))"

definition shWisunOnTimeout :: "link_env \<Rightarrow> uart \<Rightarrow> uart" where
  "shWisunOnTimeout e u = (case u_step u of
     STEP_RESET \<Rightarrow> on_reset e u
   | STEP_PROV_READ \<Rightarrow> on_prov_read e u
   | STEP_PROV_SET \<Rightarrow> on_prov_set e u
   | STEP_LEAVE \<Rightarrow> on_leave e u
   | STEP_DEST \<Rightarrow> on_dest e u
   | STEP_PASS \<Rightarrow> on_pass e u
   | STEP_CMD \<Rightarrow> (let u1 = shNoteStatus (rx_asm u) u in shAtNoteResult e (shAtReplyOk u1) u1)
   | _ \<Rightarrow> u)"

section \<open>Opening, closing, messages\<close>

record stream_open =
  so_tx_mux :: bool
  so_rx_mux :: bool
  so_sink :: bool
  so_source :: bool

definition SmartHelmet_UartResetHold :: "bool \<Rightarrow> uart \<Rightarrow> uart" where
  "SmartHelmet_UartResetHold held u = emit (U_ResetHold held) u"

definition SmartHelmet_UartInit :: "stream_open \<Rightarrow> bool \<Rightarrow> uart \<Rightarrow> bool \<times> uart" where
  "SmartHelmet_UartInit so task u =
     (let u1 = u\<lparr>u_task := task\<rparr>
      in if u_sink u1 \<and> u_source u1 then (True, u1)
         else if \<not> so_tx_mux so then (False, u1)
         else if \<not> so_rx_mux so then (False, u1)
         else let u2 = u1\<lparr>u_sink := so_sink so, u_source := so_source so\<rparr>
              in if \<not> u_sink u2 \<or> \<not> u_source u2 then (False, u2)
                 else (True, emit (U_Timer (MessageSendLater WISUN_RX_POLL 50)) u2))"

definition SmartHelmet_UartStartVerify :: "link_env \<Rightarrow> uart \<Rightarrow> uart" where
  "SmartHelmet_UartStartVerify e u =
     leave_to e STEP_RESET (u\<lparr>wisun := wisun_status_zero\<lparr>ws_status_code := 0xFF\<rparr>, at_idx := 0, rx_asm := [],
       prov_done := False, u_dirty := False, prov_q := [], prov_i := 0, passthrough := False, too_long_retry := 0\<rparr>)"

definition SmartHelmet_UartStopVerify :: "uart \<Rightarrow> uart" where
  "SmartHelmet_UartStopVerify u =
     (if u_task u then emit (U_Timer (MessageCancelAll WISUN_LINK_CHECK)) u else u)\<lparr>u_step := STEP_IDLE\<rparr>"

definition SmartHelmet_UartClose :: "link_env \<Rightarrow> uart \<Rightarrow> uart" where
  "SmartHelmet_UartClose e u =
     (let u1 = (if u_sink u then shWisunSendProbe e ''exit'' u else u);
          u2 = SmartHelmet_UartStopVerify (u1\<lparr>passthrough := False\<rparr>);
          u3 = (if u_task u2 then emit (U_Timer (MessageCancelAll WISUN_LINK_CHECK))
                  (emit (U_Timer (MessageCancelAll WISUN_RX_POLL)) u2) else u2)
      in SmartHelmet_UartResetHold True (emit U_ReleasePins (u3\<lparr>u_sink := False, u_source := False\<rparr>)))"

definition SmartHelmet_UartSleep :: "link_env \<Rightarrow> uart \<Rightarrow> uart" where
  "SmartHelmet_UartSleep e u =
     (let u1 = SmartHelmet_UartStopVerify u;
          u2 = (if passthrough u1 \<and> u_sink u1
                then snd (SmartHelmet_UartSend e (''exit'' @ crlf_bytes) (u1\<lparr>passthrough := False\<rparr>)) else u1)
      in SmartHelmet_UartClose e (upd_wisun (\<lambda>w. w\<lparr>ws_online := False\<rparr>) u2))"

definition SmartHelmet_UartTakeRestart :: "uart \<Rightarrow> bool \<times> uart" where
  "SmartHelmet_UartTakeRestart u = (restart_seen u, u\<lparr>restart_seen := False\<rparr>)"

definition SmartHelmet_UartSetRxCallback :: "bool \<Rightarrow> uart \<Rightarrow> uart" where
  "SmartHelmet_UartSetRxCallback cb u = u\<lparr>u_rx_cb := cb\<rparr>"

definition SmartHelmet_UartInPassthrough :: "uart \<Rightarrow> bool" where
  "SmartHelmet_UartInPassthrough u = passthrough u"

definition SmartHelmet_UartIsBrOnline :: "uart \<Rightarrow> bool" where
  "SmartHelmet_UartIsBrOnline u \<longleftrightarrow> ws_online (wisun u) \<and> \<not> rejoining u"

definition SmartHelmet_UartHandleMessage ::
  "link_env \<Rightarrow> string list \<Rightarrow> message \<Rightarrow> uart \<Rightarrow> bool \<times> uart" where
  "SmartHelmet_UartHandleMessage e chunks msg u = (case msg of
     Tick WISUN_RX_POLL \<Rightarrow> (True, shRxPollArm (shUartDrain e chunks u))
   | Tick WISUN_LINK_CHECK \<Rightarrow> (True, shWisunOnTimeout e u)
   | MESSAGE_MORE_DATA \<Rightarrow> (True, shUartDrain e chunks u)
   | MESSAGE_MORE_SPACE \<Rightarrow> (True, u)
   | _ \<Rightarrow> (False, u))"

end
