(* ===== verification/Helmet.thy ===== *)
theory Helmet
  imports Adc Report Wisun
begin

text \<open>
  The orchestration layer (\<^verbatim>\<open>smart_helmet.c\<close>) and the parts of the sensor hub that call back into
  it (the 1 s log of \<^verbatim>\<open>smart_helmet_sensors.c\<close>): initialisation, power on and off, the screen
  refresh, the report, the motion poll, and the dispatch of messages to the components.

  The state is the record \<open>helmet\<close>: the statics of \<^verbatim>\<open>smart_helmet.c\<close> and the state of each
  component. A component's model returns the calls it makes; here they are executed, in order, on
  the other components. \<open>h_out\<close> collects what leaves the firmware module: timers, conversion
  requests and UART activity. Inputs of a step are gathered in \<open>helmet_env\<close>: the hardware functions of
  the bit-serial blocks, the link inputs, the result of opening the stream, the state of the
  rest of the headset shown on the screen, and the clock.
\<close>

section \<open>State\<close>

datatype helmet_call =
    H_Timer timer_call
  | H_Adc adc_source
  | H_Uart uart_call

record 'w helmet =
  sh_ready :: bool
  sh_powered :: bool
  sh_motion :: motion_hold
  motion_prev :: "(int \<times> int \<times> int) option"
  log_last_gate :: motion_gate
  sh_ui_state :: int
  sh_gas_r0_mv :: "int list"
  h_adc :: adc
  h_sens :: "'w sensors"
  h_uart :: uart
  h_vitals :: vitals
  h_out :: "helmet_call list"

record 'w helmet_env =
  he_api :: "'w bitserial_api"
  he_link :: link_env
  he_open :: stream_open
  he_ui :: ui_env
  he_now :: int

definition adc_boot :: adc where
  "adc_boot = \<lparr>adc_task = False, adc_index = 0, adc_mode = adc_idle, adc_vref_mv = 0,
     adc_mv = replicate 4 0, adc_valid = replicate 4 False, adc_sens_pending = False\<rparr>"

text \<open>The statics of the vitals file before its init function has run.\<close>

definition vitals_boot :: vitals where
  "vitals_boot = (SmartHelmet_VitalsInit 0)\<lparr>sens_edge_armed := False,
     guard := \<lparr>hr_win_left = 0, last_hr_valid_bpm = 0, last_hr_valid_have = False, hr_delta_rej = 0\<rparr>\<rparr>"

definition motion_hold_zero :: motion_hold where
  "motion_hold_zero = \<lparr>mh_since_report = False, mh_quiet_reports = 0, mh_holding = False\<rparr>"

definition helmet_boot :: "'w i2c \<Rightarrow> 'w helmet" where
  "helmet_boot b = \<lparr>sh_ready = False, sh_powered = False, sh_motion = motion_hold_zero, motion_prev = None,
     log_last_gate = motion_calm, sh_ui_state = 0, sh_gas_r0_mv = [0, 0, 0], h_adc = adc_boot,
     h_sens = sensors_boot b, h_uart = uart_boot, h_vitals = vitals_boot, h_out = []\<rparr>"

section \<open>Executing the calls of the components\<close>

definition h_emit :: "helmet_call list \<Rightarrow> 'w helmet \<Rightarrow> 'w helmet" where
  "h_emit cs h = h\<lparr>h_out := h_out h @ cs\<rparr>"

text \<open>What the screen shows: the headset's own state, the helmet's UI state and the flags of the link.\<close>

definition screen_env :: "'w helmet_env \<Rightarrow> screen_flags \<Rightarrow> 'w helmet \<Rightarrow> ui_env" where
  "screen_env e f h = (he_ui e)\<lparr>ui_state := sh_ui_state h, ui_rejoining := sf_rejoining f, ui_online := sf_online f,
     ui_passthrough := sf_passthrough f, ui_module_seen := sf_module_seen f, ui_ip_seen := sf_ip_seen f,
     ui_reset_seen := sf_reset_seen f\<rparr>"

definition link_flags :: "uart \<Rightarrow> screen_flags" where
  "link_flags u = \<lparr>sf_rejoining = rejoining u, sf_online = ws_online (wisun u),
     sf_passthrough = passthrough u, sf_module_seen = ws_module_seen (wisun u),
     sf_ip_seen = ws_ip_seen (wisun u), sf_reset_seen = ws_reset_seen (wisun u)\<rparr>"

definition show_now :: "'w helmet_env \<Rightarrow> screen_flags \<Rightarrow> 'w helmet \<Rightarrow> 'w helmet" where
  "show_now e f h = h\<lparr>h_sens := SmartHelmet_SensorsShowAdcMv (he_api e) (screen_env e f h) (h_sens h)\<rparr>"

fun adc_exec :: "'w helmet_env \<Rightarrow> adc_call \<Rightarrow> 'w helmet \<Rightarrow> 'w helmet" where
  "adc_exec e (Adc_Timer t) h = h_emit [H_Timer t] h"
| "adc_exec e (AdcReadRequest src) h = h_emit [H_Adc src] h"
| "adc_exec e (SensorsShowAdcMv a b c d) h = show_now e (link_flags (h_uart h)) h"
| "adc_exec e (FeedVitalsSens mv now) h = h\<lparr>h_vitals := vitals_exec (Ev_Sens mv now) (h_vitals h)\<rparr>"
| "adc_exec e NoteSensDropped h = h\<lparr>h_vitals := vitals_exec Ev_Dropped (h_vitals h)\<rparr>"

definition run_adc :: "'w helmet_env \<Rightarrow> adc \<times> adc_call list \<Rightarrow> 'w helmet \<Rightarrow> 'w helmet" where
  "run_adc e r h = fold (adc_exec e) (snd r) (h\<lparr>h_adc := fst r\<rparr>)"

definition run_sens :: "'w sensors \<times> timer_call list \<Rightarrow> 'w helmet \<Rightarrow> 'w helmet" where
  "run_sens r h = h_emit (map H_Timer (snd r)) (h\<lparr>h_sens := fst r\<rparr>)"

text \<open>
  The calls of the link other than the start of a report, which is the last call of the step
  that makes it.
\<close>

fun uart_exec :: "'w helmet_env \<Rightarrow> uart_call \<Rightarrow> 'w helmet \<Rightarrow> 'w helmet" where
  "uart_exec e (U_Timer t) h = h_emit [H_Timer t] h"
| "uart_exec e (U_ShowScreen f) h = show_now e f h"
| "uart_exec e U_VitalsInit h = h\<lparr>h_vitals := vitals_exec Ev_Init (h_vitals h)\<rparr>"
| "uart_exec e U_ReportStart h = h"
| "uart_exec e c h = h_emit [H_Uart c] h"

definition run_uart :: "'w helmet_env \<Rightarrow> (uart \<Rightarrow> uart) \<Rightarrow> 'w helmet \<Rightarrow> 'w helmet" where
  "run_uart e f h = (let u = f ((h_uart h)\<lparr>u_out := []\<rparr>)
     in fold (uart_exec e) (u_out u) (h\<lparr>h_uart := u\<lparr>u_out := []\<rparr>\<rparr>))"

section \<open>The report\<close>

definition report_can_send :: "'w helmet \<Rightarrow> bool" where
  "report_can_send h \<longleftrightarrow> SmartHelmet_UartInPassthrough (h_uart h) \<and> SmartHelmet_SensorsReady (h_sens h)"

definition push_accel :: "'w helmet \<Rightarrow> 'w helmet" where
  "push_accel h = h\<lparr>h_vitals := SmartHelmet_VitalsPushAccel (lis3dh_x (sd (h_sens h))) (lis3dh_y (sd (h_sens h)))
     (lis3dh_z (sd (h_sens h))) (h_vitals h)\<rparr>"

definition report_refresh :: "'w helmet_env \<Rightarrow> 'w helmet \<Rightarrow> 'w helmet" where
  "report_refresh e h =
     (let h1 = h\<lparr>h_sens := SmartHelmet_SensorsPoll (he_api e) (h_sens h)\<rparr>
      in if lis3dh_ok (sd (h_sens h1))
         then (let h2 = push_accel h1 in h2\<lparr>h_vitals := SmartHelmet_VitalsProcess (h_vitals h2)\<rparr>) else h1)"

text \<open>Build the text: the motion hold advances and the restart and fall latches are taken.\<close>

definition report_build :: "'w helmet \<Rightarrow> string \<times> 'w helmet" where
  "report_build h =
     (let m = report_motion (sh_motion h);
          (restart, u) = SmartHelmet_UartTakeRestart (h_uart h);
          (fall, v) = SmartHelmet_VitalsTakeFall (h_vitals h);
          (line, r0) = report_line (mh_holding m) restart fall (st v) (sd (h_sens h)) (adc_mv (h_adc h)) (sh_gas_r0_mv h)
      in (line, h\<lparr>sh_motion := m, h_uart := u, h_vitals := v, sh_gas_r0_mv := r0\<rparr>))"

definition report_timer :: "'w helmet \<Rightarrow> 'w helmet" where
  "report_timer h = h_emit [H_Timer (MessageCancelAll REPORT_TICK), H_Timer (MessageSendLater REPORT_TICK 2000)] h"

definition SmartHelmet_ReportStart :: "'w helmet_env \<Rightarrow> 'w helmet \<Rightarrow> 'w helmet" where
  "SmartHelmet_ReportStart e h =
     (let can_send = report_can_send h;
          h1 = (if can_send then report_refresh e h else h);
          (line, h2) = report_build h1;
          h3 = (if can_send
                then run_uart e (shSendReportLines (SmartHelmet_UartSend (he_link e))
                       (SmartHelmet_UartNoteReportSent (he_link e)) line) h2
                else h2)
      in report_timer h3)"

text \<open>A step of the link that may end by starting a report.\<close>

definition run_uart_report :: "'w helmet_env \<Rightarrow> (uart \<Rightarrow> bool \<times> uart) \<Rightarrow> 'w helmet \<Rightarrow> bool \<times> 'w helmet" where
  "run_uart_report e f h =
     (let (handled, u) = f ((h_uart h)\<lparr>u_out := []\<rparr>);
          h1 = fold (uart_exec e) (u_out u) (h\<lparr>h_uart := u\<lparr>u_out := []\<rparr>\<rparr>)
      in (handled, if U_ReportStart \<in> set (u_out u) then SmartHelmet_ReportStart e h1 else h1))"

section \<open>The motion poll\<close>

definition motion_poll_step :: "(int \<times> int \<times> int) option \<Rightarrow> int \<Rightarrow> int \<Rightarrow> int \<Rightarrow> int" where
  "motion_poll_step prev x y z = (case prev of None \<Rightarrow> 0
     | Some (px, py, pz) \<Rightarrow>
         let dx = abs_diff_u16 x px; dy = abs_diff_u16 y py; dz = abs_diff_u16 z pz;
             s1 = (if dy > dx then dy else dx)
         in if dz > s1 then dz else s1)"

definition motion_poll :: "'w helmet_env \<Rightarrow> 'w helmet \<Rightarrow> 'w helmet" where
  "motion_poll e h =
     (if \<not> sh_powered h then h
      else let h1 = h\<lparr>h_sens := SmartHelmet_SensorsPollLis3dh (he_api e) (h_sens h)\<rparr>;
               d = sd (h_sens h1);
               h2 = (if lis3dh_ok d
                     then (let step = motion_poll_step (motion_prev h1) (lis3dh_x d) (lis3dh_y d) (lis3dh_z d);
                               h' = push_accel (h1\<lparr>motion_prev := Some (lis3dh_x d, lis3dh_y d, lis3dh_z d)\<rparr>)
                           in if step \<ge> 40 \<and> \<not> mh_since_report (sh_motion h')
                              then h'\<lparr>sh_motion := (sh_motion h')\<lparr>mh_since_report := True\<rparr>\<rparr> else h')
                     else h1)
           in h_emit [H_Timer (MessageSendLater MOTION_POLL 200)] h2)"

section \<open>The 1 s accelerometer log\<close>

definition shLis3dhLogSample :: "'w helmet_env \<Rightarrow> 'w helmet \<Rightarrow> 'w helmet" where
  "shLis3dhLogSample e h =
     (case SmartHelmet_I2cReadReg (he_api e) 0 0x18 0x0F 1 (bus (h_sens h)) of (id_ok, who, b1) \<Rightarrow>
      case SmartHelmet_I2cReadReg (he_api e) 0 0x18 0xA8 6 b1 of (data_ok, buf, b2) \<Rightarrow>
        let h1 = h\<lparr>h_sens := (h_sens h)\<lparr>bus := b2\<rparr>\<rparr>
        in if \<not> data_ok then h1
           else let x = shLis3dhRawToMg (rx_byte buf 0) (rx_byte buf 1);
                    y = shLis3dhRawToMg (rx_byte buf 2) (rx_byte buf 3);
                    z = shLis3dhRawToMg (rx_byte buf 4) (rx_byte buf 5);
                    h2 = push_accel (h1\<lparr>h_sens := (h_sens h1)\<lparr>sd := (sd (h_sens h1))\<lparr>lis3dh_x := x, lis3dh_y := y, lis3dh_z := z\<rparr>\<rparr>\<rparr>);
                    h3 = h2\<lparr>h_vitals := SmartHelmet_VitalsProcess (h_vitals h2)\<rparr>;
                    gate = st_motion (st (h_vitals h3))
                in if gate \<noteq> log_last_gate h3 then SmartHelmet_ReportStart e (h3\<lparr>log_last_gate := gate\<rparr>) else h3)"

definition log_arm :: "'w helmet \<Rightarrow> 'w helmet" where
  "log_arm h = h_emit (map H_Timer (shLis3dhLogArm (h_sens h))) h"

definition lis3dh_chk :: "'w helmet_env \<Rightarrow> bool \<Rightarrow> 'w helmet \<Rightarrow> bool \<times> 'w helmet" where
  "lis3dh_chk e enable h =
     (if \<not> sh_log_task (h_sens h) then (False, h)
      else if enable then (True, log_arm (shLis3dhLogSample e h))
      else (False, h_emit [H_Timer (MessageCancelAll LIS3DH_LOG_TICK)] h))"

definition SmartHelmet_SensorsSetLogTask :: "'w helmet_env \<Rightarrow> bool \<Rightarrow> 'w helmet \<Rightarrow> 'w helmet" where
  "SmartHelmet_SensorsSetLogTask e task h =
     snd (lis3dh_chk e False (h\<lparr>h_sens := (h_sens h)\<lparr>sh_log_task := task\<rparr>\<rparr>))"

definition SmartHelmet_SensorsHandleMessage :: "'w helmet_env \<Rightarrow> message \<Rightarrow> 'w helmet \<Rightarrow> bool \<times> 'w helmet" where
  "SmartHelmet_SensorsHandleMessage e msg h = (case msg of
     Tick LIS3DH_LOG_TICK \<Rightarrow> (True, log_arm (shLis3dhLogSample e h))
   | Tick I2C_PROBE_RETRY \<Rightarrow>
       (True, run_sens (shSensorsVerifyPass (he_api e) (screen_env e (link_flags (h_uart h)) h) (h_sens h)) h)
   | _ \<Rightarrow> (False, h))"

section \<open>Message dispatch\<close>

definition SmartHelmet_HandleMessage :: "'w helmet_env \<Rightarrow> string list \<Rightarrow> message \<Rightarrow> 'w helmet \<Rightarrow> bool \<times> 'w helmet" where
  "SmartHelmet_HandleMessage e chunks msg h =
     (case SmartHelmet_SensorsHandleMessage e msg h of (done1, h1) \<Rightarrow> if done1 then (True, h1)
      else case SmartHelmet_AdcHandleMessage (he_now e) msg (h_adc h1) of (done2, r) \<Rightarrow>
        if done2 then (True, run_adc e r h1)
        else run_uart_report e (SmartHelmet_UartHandleMessage (he_link e) chunks msg) (run_adc e r h1))"

definition smartHelmetTaskHandler :: "'w helmet_env \<Rightarrow> string list \<Rightarrow> message \<Rightarrow> 'w helmet \<Rightarrow> 'w helmet" where
  "smartHelmetTaskHandler e chunks msg h =
     (if msg = Tick REPORT_TICK then SmartHelmet_ReportStart e h
      else if msg = Tick MOTION_POLL then motion_poll e h
      else case SmartHelmet_SensorsHandleMessage e msg h of (handled, h1) \<Rightarrow>
        if handled then
          (if SmartHelmet_SensorsReady (h_sens h1) \<and> SmartHelmet_UartInPassthrough (h_uart h1)
           then SmartHelmet_ReportStart e h1 else h1)
        else snd (SmartHelmet_HandleMessage e chunks msg h1))"

section \<open>Power\<close>

definition report_stop :: "'w helmet \<Rightarrow> 'w helmet" where
  "report_stop h = h_emit [H_Timer (MessageCancelAll REPORT_TICK)] h"

definition motion_stop :: "'w helmet \<Rightarrow> 'w helmet" where
  "motion_stop h = h_emit [H_Timer (MessageCancelAll MOTION_POLL)] h"

definition SmartHelmet_Close :: "'w helmet_env \<Rightarrow> 'w helmet \<Rightarrow> 'w helmet" where
  "SmartHelmet_Close e h =
     (let h1 = motion_stop (report_stop (run_sens (SmartHelmet_SensorsStopVerify (h_sens h)) h));
          h2 = run_adc e (SmartHelmet_AdcStop (h_adc h1)) h1;
          h3 = run_uart e (SmartHelmet_UartClose (he_link e)) h2;
          h4 = h3\<lparr>h_sens := (h_sens h3)\<lparr>bus := SmartHelmet_I2cClose (he_api e) (bus (h_sens h3))\<rparr>\<rparr>
      in h4\<lparr>sh_ready := False, sh_powered := False, sh_motion := motion_hold_zero\<rparr>)"

definition SmartHelmet_Init :: "'w helmet_env \<Rightarrow> 'w helmet \<Rightarrow> bool \<times> 'w helmet" where
  "SmartHelmet_Init e h =
     (let h1 = (if sh_ready h then SmartHelmet_Close e h else h)
      in case SmartHelmet_I2cInit (he_api e) (bus (h_sens h1)) of (ok, b) \<Rightarrow>
        let h2 = h1\<lparr>h_sens := (h_sens h1)\<lparr>bus := b\<rparr>\<rparr>
        in if \<not> ok then (False, h2)
           else let h3 = run_adc e (SmartHelmet_AdcInit True) h2;
                    h4 = run_uart e (SmartHelmet_UartResetHold True) h3;
                    h5 = SmartHelmet_SensorsSetLogTask e True h4
                in (True, h5\<lparr>sh_ready := True\<rparr>))"

definition SmartHelmet_PowerOn :: "'w helmet_env \<Rightarrow> 'w helmet \<Rightarrow> 'w helmet" where
  "SmartHelmet_PowerOn e h =
     (if \<not> sh_ready h \<or> sh_powered h then h
      else let h1 = run_adc e (SmartHelmet_AdcInit True) (h\<lparr>sh_powered := True\<rparr>);
               h2 = h1\<lparr>h_sens := SmartHelmet_SensorsDisplayResume (he_api e) (SmartHelmet_SensorsInit (he_api e) (h_sens h1))\<rparr>;
               h3 = run_sens (SmartHelmet_SensorsStartVerify True (h_sens h2)) h2;
               h4 = h3\<lparr>h_vitals := vitals_exec Ev_Init (h_vitals h3)\<rparr>;
               h5 = run_uart e (SmartHelmet_UartResetHold False) h4;
               h6 = run_uart e (\<lambda>u. snd (SmartHelmet_UartInit (he_open e) True u)) h5;
               h7 = run_uart e (SmartHelmet_UartStartVerify (he_link e)) h6;
               h8 = run_adc e (SmartHelmet_AdcRequestScan (h_adc h7)) h7;
               h9 = SmartHelmet_ReportStart e h8
           in h_emit [H_Timer (MessageSendLater MOTION_POLL 200)] (motion_stop h9))"

definition SmartHelmet_PowerOff :: "'w helmet_env \<Rightarrow> 'w helmet \<Rightarrow> 'w helmet" where
  "SmartHelmet_PowerOff e h =
     (if \<not> sh_powered h then h
      else let h1 = motion_stop (report_stop (h\<lparr>sh_powered := False, sh_motion := motion_hold_zero\<rparr>));
               h2 = run_sens (SmartHelmet_SensorsStopVerify (h_sens h1)) h1;
               h3 = h2\<lparr>h_sens := SmartHelmet_SensorsSleep (he_api e) (h_sens h2)\<rparr>;
               h4 = run_uart e (SmartHelmet_UartSleep (he_link e)) h3;
               h5 = run_adc e (SmartHelmet_AdcStop (h_adc h4)) h4
           in h5\<lparr>h_sens := SmartHelmet_SensorsDisplayBlank (he_api e) (h_sens h5)\<rparr>)"

definition SmartHelmet_PowerSave :: "'w helmet_env \<Rightarrow> 'w helmet \<Rightarrow> 'w helmet" where
  "SmartHelmet_PowerSave e h = SmartHelmet_PowerOff e h"

definition SmartHelmet_UiRefresh :: "'w helmet_env \<Rightarrow> int \<Rightarrow> 'w helmet \<Rightarrow> 'w helmet" where
  "SmartHelmet_UiRefresh e state h =
     (let h1 = h\<lparr>sh_ui_state := state\<rparr>;
          h2 = (if state = 3 \<or> state = 4 \<or> state = 5 \<or> state = 6 then SmartHelmet_PowerOn e h1
                else if sh_powered h1 then SmartHelmet_PowerOff e h1 else h1)
      in show_now e (link_flags (h_uart h2)) h2)"

definition SmartHelmet_UiState :: "'w helmet \<Rightarrow> int" where
  "SmartHelmet_UiState h = sh_ui_state h"

section \<open>The remaining entry points\<close>

definition SmartHelmet_PollSensors :: "'w helmet_env \<Rightarrow> 'w helmet \<Rightarrow> 'w helmet" where
  "SmartHelmet_PollSensors e h =
     (if \<not> sh_ready h then h
      else let h1 = run_adc e (SmartHelmet_AdcRequestScan (h_adc h)) h;
               h2 = h1\<lparr>h_sens := SmartHelmet_SensorsPoll (he_api e) (h_sens h1)\<rparr>
           in if lis3dh_ok (sd (h_sens h2)) then push_accel h2 else h2)"

definition SmartHelmet_VitalsTick :: "'w helmet \<Rightarrow> 'w helmet" where
  "SmartHelmet_VitalsTick h = h\<lparr>h_vitals := SmartHelmet_VitalsProcess (h_vitals h)\<rparr>"

definition SmartHelmet_WisunSend :: "'w helmet_env \<Rightarrow> string \<Rightarrow> 'w helmet \<Rightarrow> 'w helmet" where
  "SmartHelmet_WisunSend e data h = run_uart e (\<lambda>u. snd (SmartHelmet_UartSend (he_link e) data u)) h"

end
