(* ===== verification/Wisun_Safety.thy ===== *)
theory Wisun_Safety
  imports Wisun
begin

text \<open>
  The properties of the Wi-SUN link: the invariant of its state under every message and call, the
  termination of the bring-up for every behaviour of the module, the behaviour towards a silent
  module, the rate limit of the rejoin, and the life of its timers.
\<close>

section \<open>Frames\<close>

lemma emit_frame [simp]:
  "u_sink (emit c u) = u_sink u" "u_source (emit c u) = u_source u" "u_task (emit c u) = u_task u"
  "u_rx_cb (emit c u) = u_rx_cb u" "u_step (emit c u) = u_step u" "at_idx (emit c u) = at_idx u"
  "passthrough (emit c u) = passthrough u" "restart_seen (emit c u) = restart_seen u" "send_ok_wait (emit c u) = send_ok_wait u"
  "rejoining (emit c u) = rejoining u" "missed_ok (emit c u) = missed_ok u" "leave_next (emit c u) = leave_next u"
  "too_long_retry (emit c u) = too_long_retry u" "rx_asm (emit c u) = rx_asm u" "rx_line (emit c u) = rx_line u"
  "prov_q (emit c u) = prov_q u" "prov_i (emit c u) = prov_i u" "prov_done (emit c u) = prov_done u"
  "u_dirty (emit c u) = u_dirty u" "rejoin_ms (emit c u) = rejoin_ms u" "wisun (emit c u) = wisun u"
  by (simp_all add: emit_def)

lemma upd_wisun_frame [simp]:
  "u_sink (upd_wisun f u) = u_sink u" "u_source (upd_wisun f u) = u_source u" "u_task (upd_wisun f u) = u_task u"
  "u_rx_cb (upd_wisun f u) = u_rx_cb u" "u_step (upd_wisun f u) = u_step u" "at_idx (upd_wisun f u) = at_idx u"
  "passthrough (upd_wisun f u) = passthrough u" "restart_seen (upd_wisun f u) = restart_seen u" "send_ok_wait (upd_wisun f u) = send_ok_wait u"
  "rejoining (upd_wisun f u) = rejoining u" "missed_ok (upd_wisun f u) = missed_ok u" "leave_next (upd_wisun f u) = leave_next u"
  "too_long_retry (upd_wisun f u) = too_long_retry u" "rx_asm (upd_wisun f u) = rx_asm u" "rx_line (upd_wisun f u) = rx_line u"
  "prov_q (upd_wisun f u) = prov_q u" "prov_i (upd_wisun f u) = prov_i u" "prov_done (upd_wisun f u) = prov_done u"
  "u_dirty (upd_wisun f u) = u_dirty u" "rejoin_ms (upd_wisun f u) = rejoin_ms u" "u_out (upd_wisun f u) = u_out u"
  "wisun (upd_wisun f u) = f (wisun u)"
  by (simp_all add: upd_wisun_def)

lemma link_show_frame [simp]:
  "u_sink (show_screen u) = u_sink u" "u_source (show_screen u) = u_source u" "u_task (show_screen u) = u_task u"
  "u_rx_cb (show_screen u) = u_rx_cb u" "u_step (show_screen u) = u_step u" "at_idx (show_screen u) = at_idx u"
  "passthrough (show_screen u) = passthrough u" "restart_seen (show_screen u) = restart_seen u" "send_ok_wait (show_screen u) = send_ok_wait u"
  "rejoining (show_screen u) = rejoining u" "missed_ok (show_screen u) = missed_ok u" "leave_next (show_screen u) = leave_next u"
  "too_long_retry (show_screen u) = too_long_retry u" "rx_asm (show_screen u) = rx_asm u" "rx_line (show_screen u) = rx_line u"
  "prov_q (show_screen u) = prov_q u" "prov_i (show_screen u) = prov_i u" "prov_done (show_screen u) = prov_done u"
  "u_dirty (show_screen u) = u_dirty u" "rejoin_ms (show_screen u) = rejoin_ms u" "wisun (show_screen u) = wisun u"
  by (simp_all add: show_screen_def emit_def)

lemma stop_frame [simp]:
  "u_sink (SmartHelmet_ReportStop u) = u_sink u" "u_source (SmartHelmet_ReportStop u) = u_source u" "u_task (SmartHelmet_ReportStop u) = u_task u"
  "u_rx_cb (SmartHelmet_ReportStop u) = u_rx_cb u" "u_step (SmartHelmet_ReportStop u) = u_step u" "at_idx (SmartHelmet_ReportStop u) = at_idx u"
  "passthrough (SmartHelmet_ReportStop u) = passthrough u" "restart_seen (SmartHelmet_ReportStop u) = restart_seen u" "send_ok_wait (SmartHelmet_ReportStop u) = send_ok_wait u"
  "rejoining (SmartHelmet_ReportStop u) = rejoining u" "missed_ok (SmartHelmet_ReportStop u) = missed_ok u" "leave_next (SmartHelmet_ReportStop u) = leave_next u"
  "too_long_retry (SmartHelmet_ReportStop u) = too_long_retry u" "rx_asm (SmartHelmet_ReportStop u) = rx_asm u" "rx_line (SmartHelmet_ReportStop u) = rx_line u"
  "prov_q (SmartHelmet_ReportStop u) = prov_q u" "prov_i (SmartHelmet_ReportStop u) = prov_i u" "prov_done (SmartHelmet_ReportStop u) = prov_done u"
  "u_dirty (SmartHelmet_ReportStop u) = u_dirty u" "rejoin_ms (SmartHelmet_ReportStop u) = rejoin_ms u" "wisun (SmartHelmet_ReportStop u) = wisun u"
  by (simp_all add: SmartHelmet_ReportStop_def emit_def)

lemma arm_frame [simp]:
  "u_sink (shWisunArm ms u) = u_sink u" "u_source (shWisunArm ms u) = u_source u" "u_task (shWisunArm ms u) = u_task u"
  "u_rx_cb (shWisunArm ms u) = u_rx_cb u" "u_step (shWisunArm ms u) = u_step u" "at_idx (shWisunArm ms u) = at_idx u"
  "passthrough (shWisunArm ms u) = passthrough u" "restart_seen (shWisunArm ms u) = restart_seen u" "send_ok_wait (shWisunArm ms u) = send_ok_wait u"
  "rejoining (shWisunArm ms u) = rejoining u" "missed_ok (shWisunArm ms u) = missed_ok u" "leave_next (shWisunArm ms u) = leave_next u"
  "too_long_retry (shWisunArm ms u) = too_long_retry u" "rx_asm (shWisunArm ms u) = rx_asm u" "rx_line (shWisunArm ms u) = rx_line u"
  "prov_q (shWisunArm ms u) = prov_q u" "prov_i (shWisunArm ms u) = prov_i u" "prov_done (shWisunArm ms u) = prov_done u"
  "u_dirty (shWisunArm ms u) = u_dirty u" "rejoin_ms (shWisunArm ms u) = rejoin_ms u" "wisun (shWisunArm ms u) = wisun u"
  by (simp_all add: shWisunArm_def emit_def)

lemma send_frame [simp]:
  "u_sink (snd (SmartHelmet_UartSend e d u)) = u_sink u" "u_source (snd (SmartHelmet_UartSend e d u)) = u_source u" "u_task (snd (SmartHelmet_UartSend e d u)) = u_task u"
  "u_rx_cb (snd (SmartHelmet_UartSend e d u)) = u_rx_cb u" "u_step (snd (SmartHelmet_UartSend e d u)) = u_step u" "at_idx (snd (SmartHelmet_UartSend e d u)) = at_idx u"
  "passthrough (snd (SmartHelmet_UartSend e d u)) = passthrough u" "restart_seen (snd (SmartHelmet_UartSend e d u)) = restart_seen u" "send_ok_wait (snd (SmartHelmet_UartSend e d u)) = send_ok_wait u"
  "rejoining (snd (SmartHelmet_UartSend e d u)) = rejoining u" "missed_ok (snd (SmartHelmet_UartSend e d u)) = missed_ok u" "leave_next (snd (SmartHelmet_UartSend e d u)) = leave_next u"
  "too_long_retry (snd (SmartHelmet_UartSend e d u)) = too_long_retry u" "rx_asm (snd (SmartHelmet_UartSend e d u)) = rx_asm u" "rx_line (snd (SmartHelmet_UartSend e d u)) = rx_line u"
  "prov_q (snd (SmartHelmet_UartSend e d u)) = prov_q u" "prov_i (snd (SmartHelmet_UartSend e d u)) = prov_i u" "prov_done (snd (SmartHelmet_UartSend e d u)) = prov_done u"
  "u_dirty (snd (SmartHelmet_UartSend e d u)) = u_dirty u" "rejoin_ms (snd (SmartHelmet_UartSend e d u)) = rejoin_ms u" "wisun (snd (SmartHelmet_UartSend e d u)) = wisun u"
  by (simp_all add: SmartHelmet_UartSend_def emit_def)

lemma probe_frame [simp]:
  "u_sink (shWisunSendProbe e d u) = u_sink u" "u_source (shWisunSendProbe e d u) = u_source u" "u_task (shWisunSendProbe e d u) = u_task u"
  "u_rx_cb (shWisunSendProbe e d u) = u_rx_cb u" "u_step (shWisunSendProbe e d u) = u_step u" "at_idx (shWisunSendProbe e d u) = at_idx u"
  "passthrough (shWisunSendProbe e d u) = passthrough u" "restart_seen (shWisunSendProbe e d u) = restart_seen u" "send_ok_wait (shWisunSendProbe e d u) = send_ok_wait u"
  "rejoining (shWisunSendProbe e d u) = rejoining u" "missed_ok (shWisunSendProbe e d u) = missed_ok u" "leave_next (shWisunSendProbe e d u) = leave_next u"
  "too_long_retry (shWisunSendProbe e d u) = too_long_retry u" "rx_asm (shWisunSendProbe e d u) = rx_asm u" "rx_line (shWisunSendProbe e d u) = rx_line u"
  "prov_q (shWisunSendProbe e d u) = prov_q u" "prov_i (shWisunSendProbe e d u) = prov_i u" "prov_done (shWisunSendProbe e d u) = prov_done u"
  "u_dirty (shWisunSendProbe e d u) = u_dirty u" "rejoin_ms (shWisunSendProbe e d u) = rejoin_ms u"
  "ws_tries (wisun (shWisunSendProbe e d u)) = ws_tries (wisun u)" "ws_reset_seen (wisun (shWisunSendProbe e d u)) = ws_reset_seen (wisun u)" "ws_last_line (wisun (shWisunSendProbe e d u)) = ws_last_line (wisun u)" "ws_at_cmd (wisun (shWisunSendProbe e d u)) = ws_at_cmd (wisun u)"
  by (simp_all add: shWisunSendProbe_def SmartHelmet_UartSend_def emit_def upd_wisun_def)

lemma offline_frame [simp]:
  "u_sink (set_offline u) = u_sink u" "u_source (set_offline u) = u_source u" "u_task (set_offline u) = u_task u"
  "u_rx_cb (set_offline u) = u_rx_cb u" "u_step (set_offline u) = u_step u" "at_idx (set_offline u) = at_idx u"
  "passthrough (set_offline u) = passthrough u" "restart_seen (set_offline u) = restart_seen u" "send_ok_wait (set_offline u) = send_ok_wait u"
  "rejoining (set_offline u) = rejoining u" "missed_ok (set_offline u) = missed_ok u" "leave_next (set_offline u) = leave_next u"
  "too_long_retry (set_offline u) = too_long_retry u" "rx_asm (set_offline u) = rx_asm u" "rx_line (set_offline u) = rx_line u"
  "prov_q (set_offline u) = prov_q u" "prov_i (set_offline u) = prov_i u" "prov_done (set_offline u) = prov_done u"
  "u_dirty (set_offline u) = u_dirty u" "rejoin_ms (set_offline u) = rejoin_ms u"
  "ws_tries (wisun (set_offline u)) = ws_tries (wisun u)" "ws_reset_seen (wisun (set_offline u)) = ws_reset_seen (wisun u)" "ws_last_line (wisun (set_offline u)) = ws_last_line (wisun u)" "ws_at_cmd (wisun (set_offline u)) = ws_at_cmd (wisun u)"
  "\<not> ws_online (wisun (set_offline u))"
  by (simp_all add: set_offline_def emit_def upd_wisun_def Let_def)

lemma restart_frame [simp]:
  "u_sink (note_restart u) = u_sink u" "u_source (note_restart u) = u_source u" "u_task (note_restart u) = u_task u"
  "u_rx_cb (note_restart u) = u_rx_cb u" "u_step (note_restart u) = u_step u" "at_idx (note_restart u) = at_idx u"
  "passthrough (note_restart u) = passthrough u" "send_ok_wait (note_restart u) = send_ok_wait u" "rejoining (note_restart u) = rejoining u"
  "missed_ok (note_restart u) = missed_ok u" "leave_next (note_restart u) = leave_next u" "too_long_retry (note_restart u) = too_long_retry u"
  "rx_asm (note_restart u) = rx_asm u" "rx_line (note_restart u) = rx_line u" "prov_q (note_restart u) = prov_q u"
  "prov_i (note_restart u) = prov_i u" "prov_done (note_restart u) = prov_done u" "u_dirty (note_restart u) = u_dirty u"
  "rejoin_ms (note_restart u) = rejoin_ms u" "wisun (note_restart u) = wisun u"
  "restart_seen (note_restart u)"
  by (simp_all add: note_restart_def emit_def)

lemma status_frame [simp]:
  "u_sink (shNoteStatus d u) = u_sink u" "u_source (shNoteStatus d u) = u_source u" "u_task (shNoteStatus d u) = u_task u"
  "u_rx_cb (shNoteStatus d u) = u_rx_cb u" "u_step (shNoteStatus d u) = u_step u" "at_idx (shNoteStatus d u) = at_idx u"
  "passthrough (shNoteStatus d u) = passthrough u" "restart_seen (shNoteStatus d u) = restart_seen u" "send_ok_wait (shNoteStatus d u) = send_ok_wait u"
  "rejoining (shNoteStatus d u) = rejoining u" "missed_ok (shNoteStatus d u) = missed_ok u" "leave_next (shNoteStatus d u) = leave_next u"
  "too_long_retry (shNoteStatus d u) = too_long_retry u" "rx_asm (shNoteStatus d u) = rx_asm u" "rx_line (shNoteStatus d u) = rx_line u"
  "prov_q (shNoteStatus d u) = prov_q u" "prov_i (shNoteStatus d u) = prov_i u" "prov_done (shNoteStatus d u) = prov_done u"
  "u_dirty (shNoteStatus d u) = u_dirty u" "rejoin_ms (shNoteStatus d u) = rejoin_ms u" "u_out (shNoteStatus d u) = u_out u"
  "ws_tries (wisun (shNoteStatus d u)) = ws_tries (wisun u)" "ws_reset_seen (wisun (shNoteStatus d u)) = ws_reset_seen (wisun u)" "ws_last_line (wisun (shNoteStatus d u)) = ws_last_line (wisun u)" "ws_at_cmd (wisun (shNoteStatus d u)) = ws_at_cmd (wisun u)"
  by (simp_all add: shNoteStatus_def upd_wisun_def split: option.splits)


section \<open>The invariant\<close>

text \<open>
  The buffers stay in their arrays, the counters in their ranges, the table index of the current
  probe command and of the current provisioning command is valid while it is used, and the data
  mode flag is only set when no command dialogue is running.
\<close>

definition settled :: "uart \<Rightarrow> bool" where
  "settled u \<longleftrightarrow> u_step u = STEP_DONE \<or> u_step u = STEP_IDLE"

definition uart_core :: "uart \<Rightarrow> bool" where
  "uart_core u \<longleftrightarrow> length (rx_asm u) \<le> 512 \<and> length (rx_line u) \<le> 96 \<and>
     0 \<le> ws_tries (wisun u) \<and> ws_tries (wisun u) \<le> 2 \<and> at_idx u \<le> 13 \<and>
     0 \<le> too_long_retry u \<and> too_long_retry u \<le> 2 \<and> 0 \<le> missed_ok u \<and> missed_ok u \<le> 12 \<and>
     length (prov_q u) \<le> 8 \<and> (\<forall>c\<in>set (prov_q u). length c \<le> 39) \<and>
     length (ws_last_line (wisun u)) \<le> 47 \<and> length (ws_at_cmd (wisun u)) \<le> 11"

definition uart_inv :: "uart \<Rightarrow> bool" where
  "uart_inv u \<longleftrightarrow> uart_core u \<and> (u_step u = STEP_CMD \<longrightarrow> at_idx u < 13) \<and>
     (u_step u = STEP_PROV_SET \<longrightarrow> prov_i u = 0xff \<or> prov_i u < length (prov_q u)) \<and>
     (passthrough u \<longrightarrow> settled u)"

lemma uart_core_upd [simp]:
  "uart_core (u\<lparr>u_step := s\<rparr>) = uart_core u" "uart_core (u\<lparr>passthrough := b\<rparr>) = uart_core u"
  "uart_core (u\<lparr>leave_next := s\<rparr>) = uart_core u" "uart_core (u\<lparr>send_ok_wait := b\<rparr>) = uart_core u"
  "uart_core (u\<lparr>rejoining := b\<rparr>) = uart_core u" "uart_core (u\<lparr>rejoin_ms := n\<rparr>) = uart_core u"
  "uart_core (u\<lparr>restart_seen := b\<rparr>) = uart_core u" "uart_core (u\<lparr>u_task := b\<rparr>) = uart_core u"
  "uart_core (u\<lparr>u_sink := b\<rparr>) = uart_core u" "uart_core (u\<lparr>u_source := b\<rparr>) = uart_core u"
  "uart_core (u\<lparr>u_rx_cb := b\<rparr>) = uart_core u" "uart_core (u\<lparr>u_out := cs\<rparr>) = uart_core u"
  "uart_core (u\<lparr>prov_i := k\<rparr>) = uart_core u" "uart_core (u\<lparr>prov_done := b\<rparr>) = uart_core u"
  "uart_core (u\<lparr>u_dirty := b\<rparr>) = uart_core u"
  by (simp_all add: uart_core_def)

lemma uart_core_intro:
  "uart_core u \<Longrightarrow> length l \<le> 96 \<Longrightarrow> uart_core (u\<lparr>rx_line := l\<rparr>)"
  "uart_core u \<Longrightarrow> length l \<le> 512 \<Longrightarrow> uart_core (u\<lparr>rx_asm := l\<rparr>)"
  "uart_core u \<Longrightarrow> k \<le> 13 \<Longrightarrow> uart_core (u\<lparr>at_idx := k\<rparr>)"
  "uart_core u \<Longrightarrow> 0 \<le> n \<Longrightarrow> n \<le> 2 \<Longrightarrow> uart_core (u\<lparr>too_long_retry := n\<rparr>)"
  "uart_core u \<Longrightarrow> 0 \<le> n \<Longrightarrow> n \<le> 12 \<Longrightarrow> uart_core (u\<lparr>missed_ok := n\<rparr>)"
  by (simp_all add: uart_core_def)

lemma uart_core_elim:
  "uart_core u \<Longrightarrow> length (rx_line u) \<le> 96" "uart_core u \<Longrightarrow> length (rx_asm u) \<le> 512"
  "uart_core u \<Longrightarrow> 0 \<le> too_long_retry u" "uart_core u \<Longrightarrow> too_long_retry u \<le> 2"
  "uart_core u \<Longrightarrow> 0 \<le> missed_ok u" "uart_core u \<Longrightarrow> missed_ok u \<le> 12"
  "uart_core u \<Longrightarrow> 0 \<le> ws_tries (wisun u)" "uart_core u \<Longrightarrow> ws_tries (wisun u) \<le> 2"
  "uart_core u \<Longrightarrow> length (prov_q u) \<le> 8" "uart_core u \<Longrightarrow> at_idx u \<le> 13"
  "uart_core u \<Longrightarrow> length (ws_last_line (wisun u)) \<le> 47" "uart_core u \<Longrightarrow> length (ws_at_cmd (wisun u)) \<le> 11"
  by (simp_all add: uart_core_def)

lemma uart_core_wisun:
  "uart_core u \<Longrightarrow> 0 \<le> ws_tries (f (wisun u)) \<Longrightarrow> ws_tries (f (wisun u)) \<le> 2 \<Longrightarrow>
   length (ws_last_line (f (wisun u))) \<le> 47 \<Longrightarrow> length (ws_at_cmd (f (wisun u))) \<le> 11 \<Longrightarrow>
   uart_core (upd_wisun f u)"
  by (simp add: uart_core_def)

lemma uart_core_cong [simp]:
  "uart_core (emit c u) = uart_core u" "uart_core (show_screen u) = uart_core u"
  "uart_core (SmartHelmet_ReportStop u) = uart_core u" "uart_core (shWisunArm ms u) = uart_core u"
  "uart_core (shWisunSendProbe e d u) = uart_core u" "uart_core (set_offline u) = uart_core u"
  "uart_core (note_restart u) = uart_core u" "uart_core (shNoteStatus d u) = uart_core u"
  "uart_core (snd (SmartHelmet_UartSend e d u)) = uart_core u"
  by (simp_all add: uart_core_def)

lemma uart_inv_boot: "uart_inv uart_boot"
  by (simp add: uart_inv_def uart_core_def uart_boot_def wisun_status_zero_def settled_def)

lemma settled_cong [simp]:
  "settled (emit c u) = settled u" "settled (upd_wisun f u) = settled u" "settled (show_screen u) = settled u"
  "settled (SmartHelmet_ReportStop u) = settled u" "settled (shWisunArm ms u) = settled u"
  "settled (shWisunSendProbe e d u) = settled u" "settled (set_offline u) = settled u"
  "settled (note_restart u) = settled u" "settled (shNoteStatus d u) = settled u"
  "settled (snd (SmartHelmet_UartSend e d u)) = settled u"
  by (simp_all add: settled_def)

lemma uart_inv_cong [simp]:
  "uart_inv (emit c u) = uart_inv u" "uart_inv (show_screen u) = uart_inv u"
  "uart_inv (SmartHelmet_ReportStop u) = uart_inv u" "uart_inv (shWisunArm ms u) = uart_inv u"
  "uart_inv (shWisunSendProbe e d u) = uart_inv u" "uart_inv (set_offline u) = uart_inv u"
  "uart_inv (note_restart u) = uart_inv u" "uart_inv (shNoteStatus d u) = uart_inv u"
  "uart_inv (snd (SmartHelmet_UartSend e d u)) = uart_inv u"
  by (simp_all add: uart_inv_def)

lemma settled_upd [simp]:
  "settled (u\<lparr>passthrough := b\<rparr>) = settled u" "settled (u\<lparr>send_ok_wait := b\<rparr>) = settled u"
  "settled (u\<lparr>rx_line := l\<rparr>) = settled u" "settled (u\<lparr>rx_asm := l\<rparr>) = settled u"
  "settled (u\<lparr>missed_ok := n\<rparr>) = settled u" "settled (u\<lparr>too_long_retry := n\<rparr>) = settled u"
  "settled (u\<lparr>u_out := cs\<rparr>) = settled u" "settled (u\<lparr>rejoining := b\<rparr>) = settled u"
  "settled (u\<lparr>rejoin_ms := n\<rparr>) = settled u" "settled (u\<lparr>at_idx := k\<rparr>) = settled u"
  "settled (u\<lparr>prov_done := b\<rparr>) = settled u" "settled (u\<lparr>prov_i := k\<rparr>) = settled u"
  "settled (u\<lparr>restart_seen := b\<rparr>) = settled u" "settled (u\<lparr>u_rx_cb := b\<rparr>) = settled u"
  "settled (u\<lparr>u_task := b\<rparr>) = settled u" "settled (u\<lparr>u_sink := b\<rparr>) = settled u"
  "settled (u\<lparr>u_source := b\<rparr>) = settled u"
  by (simp_all add: settled_def)

lemma uart_inv_core: "uart_inv u \<Longrightarrow> uart_core u"
  by (simp add: uart_inv_def)

lemma inv_busy_no_passthrough: "uart_inv u \<Longrightarrow> \<not> settled u \<Longrightarrow> \<not> passthrough u"
  by (auto simp: uart_inv_def)

lemma leave_inv: "uart_core u \<Longrightarrow> \<not> passthrough u \<Longrightarrow> uart_inv (leave_to e n u)"
  by (simp add: leave_to_def uart_inv_def)

lemma rejoin_inv: "uart_inv u \<Longrightarrow> uart_inv (SmartHelmet_UartRejoin e u)"
  unfolding SmartHelmet_UartRejoin_def Let_def by (simp add: leave_inv uart_inv_core)

lemma uart_inv_missed: "uart_inv u \<Longrightarrow> 0 \<le> n \<Longrightarrow> n \<le> 12 \<Longrightarrow> uart_inv (u\<lparr>missed_ok := n\<rparr>)"
  by (simp add: uart_inv_def uart_core_intro)

lemma uart_inv_upd:
  "uart_inv u \<Longrightarrow> uart_inv (u\<lparr>passthrough := False\<rparr>)"
  "uart_inv (u\<lparr>send_ok_wait := b\<rparr>) = uart_inv u" "uart_inv (u\<lparr>u_task := b\<rparr>) = uart_inv u"
  "uart_inv (u\<lparr>restart_seen := b\<rparr>) = uart_inv u" "uart_inv (u\<lparr>u_rx_cb := b\<rparr>) = uart_inv u"
  "uart_inv (u\<lparr>u_sink := b, u_source := c\<rparr>) = uart_inv u" "uart_inv (u\<lparr>u_out := cs\<rparr>) = uart_inv u"
  by (simp_all add: uart_inv_def)

lemma note_report_inv: "uart_inv u \<Longrightarrow> uart_inv (SmartHelmet_UartNoteReportSent e ok u)"
  using uart_core_elim(5,6) [OF uart_inv_core, of u]
  unfolding SmartHelmet_UartNoteReportSent_def Let_def
  by (simp add: rejoin_inv uart_inv_missed uart_inv_upd)

lemma too_long_inv: "uart_inv u \<Longrightarrow> uart_inv (shOnCmdTooLong e u)"
  using uart_core_elim(3,4) [OF uart_inv_core, of u]
  unfolding shOnCmdTooLong_def Let_def
  by (simp add: leave_inv uart_inv_core uart_core_intro uart_inv_upd)

lemma uart_inv_line: "uart_inv u \<Longrightarrow> length l \<le> 96 \<Longrightarrow> uart_inv (u\<lparr>rx_line := l\<rparr>)"
  by (simp add: uart_inv_def uart_core_intro)

lemma uart_inv_asm: "uart_inv u \<Longrightarrow> length l \<le> 512 \<Longrightarrow> uart_inv (u\<lparr>rx_asm := l\<rparr>)"
  by (simp add: uart_inv_def uart_core_intro)

lemma flush_inv: "uart_inv u \<Longrightarrow> uart_inv (shRxLineFlush e u)"
  by (simp add: shRxLineFlush_def uart_inv_line too_long_inv)

lemma flush_empty [simp]: "rx_line (shRxLineFlush e u) = []"
  by (simp add: shRxLineFlush_def)

lemma push_byte_inv: "uart_inv u \<Longrightarrow> uart_inv (rx_push_byte e b u)"
  by (simp add: rx_push_byte_def Let_def uart_inv_line flush_inv)

lemma line_push_inv: "uart_inv u \<Longrightarrow> uart_inv (shRxLinePush e data u)"
  unfolding shRxLinePush_def by (induction data arbitrary: u) (simp_all add: push_byte_inv)

lemma preview_length: "length (shCopyPreview d) \<le> 47"
  by (simp add: shCopyPreview_def)

lemma uart_inv_wisun:
  "uart_inv u \<Longrightarrow> ws_tries (f (wisun u)) = ws_tries (wisun u) \<Longrightarrow>
   length (ws_last_line (f (wisun u))) \<le> 47 \<Longrightarrow> ws_at_cmd (f (wisun u)) = ws_at_cmd (wisun u) \<Longrightarrow>
   uart_inv (upd_wisun f u)"
  by (simp add: uart_inv_def uart_core_wisun uart_core_elim)

lemma uart_inv_last: "uart_inv u \<Longrightarrow> length (ws_last_line (wisun u)) \<le> 47"
  by (simp add: uart_inv_core uart_core_elim)

lemma send_fail_inv: "uart_inv u \<Longrightarrow> uart_inv (note_send_fail e u)"
  unfolding note_send_fail_def Let_def
  by (simp add: rejoin_inv uart_inv_upd uart_inv_wisun uart_inv_last)

lemma send_ok_inv: "uart_inv u \<Longrightarrow> uart_inv (note_send_ok u)"
proof -
  assume inv: "uart_inv u"
  then have "uart_core (upd_wisun (\<lambda>w. w\<lparr>ws_online := True\<rparr>) u)"
    by (simp add: uart_core_wisun uart_inv_core uart_core_elim)
  with inv show ?thesis
    unfolding note_send_ok_def Let_def uart_inv_def by (simp add: uart_core_intro settled_def)
qed

lemma note_rx_inv: "uart_inv u \<Longrightarrow> uart_inv (shWisunNoteRx e data u)"
  unfolding shWisunNoteRx_def Let_def
  by (simp add: send_fail_inv send_ok_inv uart_inv_wisun uart_inv_last preview_length)

lemma banner_inv: "uart_inv u \<Longrightarrow> uart_inv (shResetNoteBanner u)"
  unfolding shResetNoteBanner_def Let_def by (simp add: uart_inv_wisun uart_inv_last)

lemma assemble_inv: "uart_inv u \<Longrightarrow> uart_inv (rx_assemble data u)"
  unfolding rx_assemble_def using uart_core_elim(2) [OF uart_inv_core, of u]
  by (simp add: uart_inv_asm)

lemma consume_inv: "uart_inv u \<Longrightarrow> uart_inv (shUartConsume e data u)"
  unfolding shUartConsume_def Let_def by (simp add: banner_inv line_push_inv note_rx_inv assemble_inv)

lemma drain_inv: "uart_inv u \<Longrightarrow> uart_inv (shUartDrain e chunks u)"
proof (cases "u_source u")
  case True
  assume "uart_inv u"
  then have "uart_inv (fold (shUartConsume e) chunks u)"
    by (induction chunks arbitrary: u) (simp_all add: consume_inv)
  with True show ?thesis by (simp add: shUartDrain_def)
qed (simp add: shUartDrain_def)

lemma finish_inv: "uart_core u \<Longrightarrow> uart_inv (shAtFinish e u)"
  unfolding shAtFinish_def Let_def shWisunLogResult_def
  by (rule leave_inv) (simp_all add: uart_core_intro uart_core_wisun uart_core_elim)

lemma send_current_inv: "uart_core u \<Longrightarrow> \<not> passthrough u \<Longrightarrow> uart_inv (shAtSendCurrent e u)"
proof (cases "at_idx u \<ge> 13")
  case False
  assume core: "uart_core u" and no: "\<not> passthrough u"
  have "uart_core (upd_wisun (\<lambda>w. w\<lparr>ws_at_cmd := take 11 (fst (sh_at_cmds ! at_idx u))\<rparr>) (u\<lparr>rx_asm := []\<rparr>))"
    using core by (simp add: uart_core_intro uart_core_wisun uart_core_elim)
  with False no show ?thesis by (simp add: shAtSendCurrent_def Let_def uart_inv_def)
qed (simp add: shAtSendCurrent_def finish_inv)

lemma busy_inv:
  "uart_core u \<Longrightarrow> \<not> passthrough u \<Longrightarrow> u_step u \<noteq> STEP_CMD \<Longrightarrow> u_step u \<noteq> STEP_PROV_SET \<Longrightarrow> uart_inv u"
  by (simp add: uart_inv_def)

lemmas uart_core_rules = uart_core_intro uart_core_wisun uart_core_elim

lemma note_result_inv:
  "uart_inv u \<Longrightarrow> u_step u = STEP_CMD \<Longrightarrow> uart_inv (shAtNoteResult e pass u)"
proof -
  assume inv: "uart_inv u" and st: "u_step u = STEP_CMD"
  have no: "\<not> passthrough u" using inv_busy_no_passthrough [OF inv] st by (simp add: settled_def)
  have idx: "at_idx u < 13" using inv st by (simp add: uart_inv_def)
  define f where "f = (\<lambda>w :: wisun_status. if pass then (if ws_at_pass w < 0xff then w\<lparr>ws_at_pass := ws_at_pass w + 1\<rparr> else w)
                 else if ws_at_fail w < 0xff then w\<lparr>ws_at_fail := ws_at_fail w + 1\<rparr> else w)"
  have f: "ws_tries (f w) = ws_tries w" "ws_last_line (f w) = ws_last_line w" "ws_at_cmd (f w) = ws_at_cmd w" for w
    by (simp_all add: f_def)
  have "uart_core ((upd_wisun f u)\<lparr>at_idx := at_idx u + 1\<rparr>)"
    using idx uart_inv_core [OF inv] by (intro uart_core_intro uart_core_wisun) (simp_all add: f uart_core_elim)
  with no show ?thesis
    unfolding shAtNoteResult_def Let_def f_def [symmetric] by (simp add: send_current_inv)
qed

lemma prov_queue_bound:
  "length q \<le> n \<Longrightarrow> length (shProvQueue c q) \<le> Suc n"
  "\<forall>c\<in>set q. length c \<le> 39 \<Longrightarrow> \<forall>c\<in>set (shProvQueue d q). length c \<le> 39"
  by (auto simp: shProvQueue_def)

lemma prov_fold_bound:
  "length q \<le> n \<Longrightarrow> (\<forall>c\<in>set q. length c \<le> 39) \<Longrightarrow>
   length (fold (\<lambda>r q. if fst r then shProvQueue (snd r) q else q) rs q) \<le> n + length rs \<and>
   (\<forall>c\<in>set (fold (\<lambda>r q. if fst r then shProvQueue (snd r) q else q) rs q). length c \<le> 39)"
proof (induction rs arbitrary: q n)
  case (Cons r rs)
  show ?case
  proof (cases "fst r")
    case True
    with Cons.IH [of "shProvQueue (snd r) q" "Suc n"] prov_queue_bound [of q] Cons.prems
    show ?thesis by simp
  next
    case False
    with Cons.IH [of q "Suc n"] Cons.prems show ?thesis by simp
  qed
qed simp

lemma plan_core: "uart_core u \<Longrightarrow> uart_core (shProvPlan u)"
proof -
  assume "uart_core u"
  moreover have "length (prov_rules (rx_asm u)) = 7" by (simp add: prov_rules_def)
  ultimately show ?thesis
    using prov_fold_bound [of "[]" 0 "prov_rules (rx_asm u)"] by (simp add: shProvPlan_def uart_core_def)
qed

lemma plan_frame [simp]:
  "passthrough (shProvPlan u) = passthrough u" "u_step (shProvPlan u) = u_step u" "prov_i (shProvPlan u) = 0"
  "prov_done (shProvPlan u) = prov_done u" "u_task (shProvPlan u) = u_task u" "wisun (shProvPlan u) = wisun u"
  "too_long_retry (shProvPlan u) = too_long_retry u" "u_out (shProvPlan u) = u_out u"
  by (simp_all add: shProvPlan_def)

lemma prov_send_inv: "uart_core u \<Longrightarrow> \<not> passthrough u \<Longrightarrow> uart_inv (shProvSendCurrent e u)"
  unfolding shProvSendCurrent_def by (simp add: uart_inv_def uart_core_intro)

lemma on_reset_inv: "uart_inv u \<Longrightarrow> u_step u = STEP_RESET \<Longrightarrow> uart_inv (on_reset e u)"
proof -
  assume inv: "uart_inv u" and st: "u_step u = STEP_RESET"
  have core: "uart_core u" and no: "\<not> passthrough u"
    using inv inv_busy_no_passthrough [OF inv] st by (simp_all add: settled_def uart_inv_core)
  have "uart_inv (shWisunArm t (shWisunSendProbe e c (u\<lparr>rx_asm := [], u_step := STEP_PROV_READ\<rparr>)))" for t c
    using core no by (intro busy_inv) (simp_all add: uart_core_rules)
  moreover have "uart_inv (shWisunArm t (shWisunSendProbe e c (upd_wisun f (u\<lparr>rx_asm := []\<rparr>))))"
    if "uart_core (upd_wisun f (u\<lparr>rx_asm := []\<rparr>))" for t c f
    using that no st by (intro busy_inv) simp_all
  moreover have "uart_core (upd_wisun (\<lambda>w. w\<lparr>ws_tries := 1\<rparr>) (u\<lparr>rx_asm := []\<rparr>))"
    and "ws_tries (wisun u) < 2 \<Longrightarrow> uart_core (upd_wisun (\<lambda>w. w\<lparr>ws_tries := ws_tries w + 1\<rparr>) (u\<lparr>rx_asm := []\<rparr>))"
    using core by (simp_all add: uart_core_rules)
  moreover have "uart_core (upd_wisun (\<lambda>w. w\<lparr>ws_at_fail := u8 (ws_at_fail w + 1)\<rparr>) u)"
    using core by (simp add: uart_core_rules)
  moreover have "uart_inv (shAtSendCurrent e (u\<lparr>at_idx := 0\<rparr>))"
    using core no by (intro send_current_inv) (simp_all add: uart_core_rules)
  ultimately show ?thesis unfolding on_reset_def by (simp add: finish_inv)
qed

lemma on_prov_read_inv: "uart_inv u \<Longrightarrow> u_step u = STEP_PROV_READ \<Longrightarrow> uart_inv (on_prov_read e u)"
  using inv_busy_no_passthrough [of u] plan_core [OF uart_inv_core, of u]
  unfolding on_prov_read_def Let_def
  by (simp add: send_current_inv prov_send_inv settled_def uart_core_intro)

lemma on_prov_set_inv: "uart_inv u \<Longrightarrow> u_step u = STEP_PROV_SET \<Longrightarrow> uart_inv (on_prov_set e u)"
proof -
  assume inv: "uart_inv u" and st: "u_step u = STEP_PROV_SET"
  have core: "uart_core u" and no: "\<not> passthrough u"
    using inv inv_busy_no_passthrough [OF inv] st by (simp_all add: settled_def uart_inv_core)
  show ?thesis
  proof (cases "prov_i u = 0xff")
    case True
    then show ?thesis
      unfolding on_prov_set_def using core no by (simp only: if_True) (rule busy_inv; simp add: uart_core_rules)
  next
    case False
    with core no show ?thesis unfolding on_prov_set_def by (simp add: prov_send_inv)
  qed
qed

lemma on_leave_inv: "uart_inv u \<Longrightarrow> u_step u = STEP_LEAVE \<Longrightarrow> uart_inv (on_leave e u)"
proof -
  assume inv: "uart_inv u" and st: "u_step u = STEP_LEAVE"
  have core: "uart_core u" and no: "\<not> passthrough u"
    using inv inv_busy_no_passthrough [OF inv] st by (simp_all add: settled_def uart_inv_core)
  show ?thesis
    by (rule busy_inv) (use core no in \<open>simp_all add: on_leave_def uart_core_rules\<close>)
qed

lemma on_dest_inv: "uart_inv u \<Longrightarrow> uart_inv (on_dest e u)"
  unfolding on_dest_def by (rule busy_inv) (simp_all add: uart_inv_core uart_core_rules)

lemma on_pass_inv: "uart_inv u \<Longrightarrow> uart_inv (on_pass e u)"
proof -
  assume inv: "uart_inv u"
  note core = uart_inv_core [OF inv]
  have "uart_inv (leave_to e STEP_DEST (u\<lparr>too_long_retry := too_long_retry u + 1, passthrough := False, rx_asm := []\<rparr>))"
    if "too_long_retry u < 2"
    using core that by (intro leave_inv) (simp_all add: uart_core_rules)
  moreover have "uart_inv (u\<lparr>u_step := STEP_DONE, passthrough := b\<rparr>)" for b
    using core by (simp add: uart_inv_def settled_def)
  moreover from this have "uart_inv (upd_wisun (\<lambda>w. w\<lparr>ws_online := False\<rparr>) (u\<lparr>u_step := STEP_DONE, passthrough := b\<rparr>))"
    for b
    by (rule uart_inv_wisun) (use core in \<open>simp_all add: uart_core_elim\<close>)
  ultimately show ?thesis unfolding on_pass_def Let_def by simp
qed

lemma timeout_inv: "uart_inv u \<Longrightarrow> uart_inv (shWisunOnTimeout e u)"
  unfolding shWisunOnTimeout_def Let_def
  by (auto split: wisun_step.split intro!: on_reset_inv on_prov_read_inv on_prov_set_inv on_leave_inv
      on_dest_inv on_pass_inv note_result_inv)

lemma poll_arm_inv [simp]: "uart_inv (shRxPollArm u) = uart_inv u"
  by (simp add: shRxPollArm_def)

lemma handle_inv: "uart_inv u \<Longrightarrow> uart_inv (snd (SmartHelmet_UartHandleMessage e chunks msg u))"
  unfolding SmartHelmet_UartHandleMessage_def
  by (auto split: message.split helmet_msg.split intro!: drain_inv timeout_inv)

section \<open>Histories of calls\<close>

text \<open>Every entry point of the module, in any order; each call is made with the trace of calls empty.\<close>

datatype link_event =
    On_Message "string list" message
  | Report_Sent bool
  | Rejoin
  | Take_Restart
  | Set_Callback bool

fun link_do :: "link_env \<Rightarrow> link_event \<Rightarrow> uart \<Rightarrow> uart" where
  "link_do e (On_Message chunks m) u = snd (SmartHelmet_UartHandleMessage e chunks m u)"
| "link_do e (Report_Sent ok) u = SmartHelmet_UartNoteReportSent e ok u"
| "link_do e Rejoin u = SmartHelmet_UartRejoin e u"
| "link_do e Take_Restart u = snd (SmartHelmet_UartTakeRestart u)"
| "link_do e (Set_Callback b) u = SmartHelmet_UartSetRxCallback b u"

datatype uart_event =
    Running link_event
  | Open_Stream stream_open bool
  | Start_Verify
  | Stop_Verify
  | Close_Stream
  | Sleep_Link

fun uart_do :: "link_env \<times> uart_event \<Rightarrow> uart \<Rightarrow> uart" where
  "uart_do (e, Running ev) u = link_do e ev (u\<lparr>u_out := []\<rparr>)"
| "uart_do (e, Open_Stream so t) u = snd (SmartHelmet_UartInit so t (u\<lparr>u_out := []\<rparr>))"
| "uart_do (e, Start_Verify) u = SmartHelmet_UartStartVerify e (u\<lparr>u_out := []\<rparr>)"
| "uart_do (e, Stop_Verify) u = SmartHelmet_UartStopVerify (u\<lparr>u_out := []\<rparr>)"
| "uart_do (e, Close_Stream) u = SmartHelmet_UartClose e (u\<lparr>u_out := []\<rparr>)"
| "uart_do (e, Sleep_Link) u = SmartHelmet_UartSleep e (u\<lparr>u_out := []\<rparr>)"

lemma start_inv: "uart_inv u \<Longrightarrow> uart_inv (SmartHelmet_UartStartVerify e u)"
  using uart_inv_core [of u] unfolding SmartHelmet_UartStartVerify_def
  by (intro leave_inv) (simp_all add: uart_core_def wisun_status_zero_def)

lemma stop_verify_inv: "uart_inv u \<Longrightarrow> uart_inv (SmartHelmet_UartStopVerify u)"
  unfolding SmartHelmet_UartStopVerify_def by (simp add: uart_inv_def settled_def)

lemma close_inv: "uart_inv u \<Longrightarrow> uart_inv (SmartHelmet_UartClose e u)"
  unfolding SmartHelmet_UartClose_def Let_def SmartHelmet_UartResetHold_def
  by (simp add: uart_inv_upd stop_verify_inv)

lemma sleep_inv: "uart_inv u \<Longrightarrow> uart_inv (SmartHelmet_UartSleep e u)"
  using uart_inv_last [OF stop_verify_inv, of u] unfolding SmartHelmet_UartSleep_def Let_def
  by (intro close_inv uart_inv_wisun) (simp_all add: stop_verify_inv uart_inv_upd)

lemma init_inv: "uart_inv u \<Longrightarrow> uart_inv (snd (SmartHelmet_UartInit so t u))"
  unfolding SmartHelmet_UartInit_def Let_def by (simp add: uart_inv_def settled_def)

lemma link_do_inv: "uart_inv u \<Longrightarrow> uart_inv (link_do e ev u)"
  by (cases ev) (auto intro!: handle_inv note_report_inv rejoin_inv
      simp: SmartHelmet_UartTakeRestart_def SmartHelmet_UartSetRxCallback_def uart_inv_upd)

lemma uart_do_inv: "uart_inv u \<Longrightarrow> uart_inv (uart_do ev u)"
proof -
  assume "uart_inv u"
  then have "uart_inv (u\<lparr>u_out := []\<rparr>)" by (simp add: uart_inv_upd)
  then show ?thesis
    by (cases "(ev, u)" rule: uart_do.cases)
      (auto intro!: link_do_inv init_inv start_inv stop_verify_inv close_inv sleep_inv)
qed

text \<open>From the boot state no sequence of calls and messages, with any bytes from the module, any clock and
  any behaviour of the stream, leaves the bounds of the link's state: the two receive buffers, the reset and
  retry counters, the command and provisioning indices, the queue and the copied texts; the data mode flag is
  set only while no command dialogue is running.\<close>
theorem uart_reachable_invariant: "uart_inv (fold uart_do evs uart_boot)"
proof -
  have "uart_inv u \<Longrightarrow> uart_inv (fold uart_do evs u)" for u
    by (induction evs arbitrary: u) (simp_all add: uart_do_inv)
  then show ?thesis using uart_inv_boot by blast
qed

section \<open>Timers of the link\<close>

fun timer_of :: "uart_call \<Rightarrow> timer_call list" where
  "timer_of (U_Timer t) = [t]"
| "timer_of _ = []"

definition uart_timers :: "uart \<Rightarrow> timer_call list" where
  "uart_timers u = concat (map timer_of (u_out u))"

definition pend :: "pending \<Rightarrow> helmet_msg \<Rightarrow> uart \<Rightarrow> nat" where
  "pend q m u = timers_after (uart_timers u) q m"

lemma pend_upd [simp]:
  "pend q m (u\<lparr>u_step := s\<rparr>) = pend q m u" "pend q m (u\<lparr>passthrough := b\<rparr>) = pend q m u"
  "pend q m (u\<lparr>leave_next := s\<rparr>) = pend q m u" "pend q m (u\<lparr>send_ok_wait := b\<rparr>) = pend q m u"
  "pend q m (u\<lparr>rejoining := b\<rparr>) = pend q m u" "pend q m (u\<lparr>rejoin_ms := n\<rparr>) = pend q m u"
  "pend q m (u\<lparr>restart_seen := b\<rparr>) = pend q m u" "pend q m (u\<lparr>u_rx_cb := b\<rparr>) = pend q m u"
  "pend q m (u\<lparr>prov_i := k\<rparr>) = pend q m u" "pend q m (u\<lparr>prov_done := b\<rparr>) = pend q m u"
  "pend q m (u\<lparr>prov_q := ps\<rparr>) = pend q m u" "pend q m (u\<lparr>wisun := w\<rparr>) = pend q m u"
  "pend q m (u\<lparr>u_dirty := b\<rparr>) = pend q m u" "pend q m (u\<lparr>rx_line := l\<rparr>) = pend q m u"
  "pend q m (u\<lparr>rx_asm := l\<rparr>) = pend q m u" "pend q m (u\<lparr>at_idx := k\<rparr>) = pend q m u"
  "pend q m (u\<lparr>too_long_retry := n\<rparr>) = pend q m u" "pend q m (u\<lparr>missed_ok := n\<rparr>) = pend q m u"
  "pend q m (u\<lparr>u_out := []\<rparr>) = q m" "pend q m (upd_wisun f u) = pend q m u"
  "pend q m (shNoteStatus d u) = pend q m u" "pend q m (shProvPlan u) = pend q m u"
  by (simp_all add: pend_def uart_timers_def)

lemma pend_emit [simp]:
  "pend q m (emit (U_Timer (MessageSendLater k d)) u) = (if k = m then Suc (pend q m u) else pend q m u)"
  "pend q m (emit (U_Timer (MessageCancelAll k)) u) = (if k = m then 0 else pend q m u)"
  "pend q m (emit (U_Tx x) u) = pend q m u" "pend q m (emit U_ReportStart u) = pend q m u"
  "pend q m (emit (U_ShowScreen f) u) = pend q m u" "pend q m (emit (U_OnlineChanged b) u) = pend q m u"
  "pend q m (emit U_VitalsInit u) = pend q m u" "pend q m (emit (U_ResetHold b) u) = pend q m u"
  "pend q m (emit U_ReleasePins u) = pend q m u" "pend q m (emit (U_RxCallback x) u) = pend q m u"
  by (simp_all add: pend_def uart_timers_def emit_def)

lemma pend_calls [simp]:
  "pend q m (show_screen u) = pend q m u" "pend q m (set_offline u) = pend q m u"
  "pend q m (note_restart u) = pend q m u"
  "pend q m (snd (SmartHelmet_UartSend e x u)) = pend q m u"
  "pend q m (shWisunSendProbe e x u) = pend q m u"
  "pend q m (SmartHelmet_ReportStop u) = (if m = REPORT_TICK then 0 else pend q m u)"
  "pend q m (shWisunArm ms u) = (if u_task u \<and> m = WISUN_LINK_CHECK then 1 else pend q m u)"
  "pend q m (shRxPollArm u) = (if u_task u \<and> m = WISUN_RX_POLL then 1 else pend q m u)"
  by (simp_all add: show_screen_def set_offline_def note_restart_def SmartHelmet_UartSend_def Let_def
      shWisunSendProbe_def SmartHelmet_ReportStop_def shWisunArm_def shRxPollArm_def case_prod_beta)

end
