(* ===== verification/Wisun_Live.thy ===== *)
theory Wisun_Live
  imports Wisun_Safety
begin

text \<open>
  Progress of the Wi-SUN bring-up: a rank that every link-check tick lowers and no received byte
  raises, the life of the link-check and poll timers, the outcome with a module that never answers, and
  the dead end after an acknowledgement during a rejoin.
\<close>

section \<open>Which timer is pending\<close>

definition link_live :: "pending \<Rightarrow> uart \<Rightarrow> bool" where
  "link_live q u \<longleftrightarrow> pend q WISUN_LINK_CHECK u \<le> 1 \<and> (\<not> settled u \<longrightarrow> pend q WISUN_LINK_CHECK u = 1)"

lemma leave_task [simp]:
  "u_task (leave_to e n u) = u_task u" "u_sink (leave_to e n u) = u_sink u" "u_source (leave_to e n u) = u_source u"
  by (simp_all add: leave_to_def)

lemma leave_pend [simp]:
  "pend q m (leave_to e n u) = (if u_task u \<and> m = WISUN_LINK_CHECK then 1 else pend q m u)"
  by (simp add: leave_to_def)

lemma live_upd [simp]:
  "link_live q (u\<lparr>passthrough := b\<rparr>) = link_live q u" "link_live q (u\<lparr>send_ok_wait := b\<rparr>) = link_live q u"
  "link_live q (u\<lparr>rx_line := l\<rparr>) = link_live q u" "link_live q (u\<lparr>rx_asm := l\<rparr>) = link_live q u"
  "link_live q (u\<lparr>missed_ok := n\<rparr>) = link_live q u" "link_live q (u\<lparr>restart_seen := b\<rparr>) = link_live q u"
  "link_live q (u\<lparr>u_rx_cb := b\<rparr>) = link_live q u" "link_live q (upd_wisun f u) = link_live q u"
  "link_live q (show_screen u) = link_live q u" "link_live q (set_offline u) = link_live q u"
  "link_live q (note_restart u) = link_live q u" "link_live q (shNoteStatus d u) = link_live q u"
  "link_live q (SmartHelmet_ReportStop u) = link_live q u" "link_live q (emit (U_RxCallback x) u) = link_live q u"
  "link_live q (shRxPollArm u) = link_live q u"
  by (simp_all add: link_live_def) (simp_all add: shRxPollArm_def)

lemma live_leave [simp]: "u_task u \<Longrightarrow> link_live q (leave_to e n u)"
  by (simp add: link_live_def)

lemma live_arm [simp]: "u_task u \<Longrightarrow> link_live q (shWisunArm ms u)"
  by (simp add: link_live_def)

text \<open>What the receive path keeps, in one predicate: the task is set and the link-check timer is live.\<close>

definition live_task :: "pending \<Rightarrow> uart \<Rightarrow> bool" where
  "live_task q u \<longleftrightarrow> u_task u \<and> link_live q u"

lemma rejoin_live: "live_task q u \<Longrightarrow> live_task q (SmartHelmet_UartRejoin e u)"
  unfolding SmartHelmet_UartRejoin_def Let_def live_task_def by simp

lemma too_long_live: "live_task q u \<Longrightarrow> live_task q (shOnCmdTooLong e u)"
  unfolding shOnCmdTooLong_def Let_def live_task_def by simp

lemma live_task_upd [simp]:
  "live_task q (u\<lparr>rx_line := l\<rparr>) = live_task q u" "live_task q (u\<lparr>rx_asm := k\<rparr>) = live_task q u"
  "live_task q (upd_wisun f u) = live_task q u" "live_task q (note_restart u) = live_task q u"
  "live_task q (shNoteStatus d u) = live_task q u" "live_task q (show_screen u) = live_task q u"
  "live_task q (u\<lparr>send_ok_wait := b\<rparr>) = live_task q u" "live_task q (emit (U_RxCallback x) u) = live_task q u"
  "live_task q (emit (U_OnlineChanged b) u) = live_task q u" "live_task q (set_offline u) = live_task q u"
  "live_task q (u\<lparr>missed_ok := n\<rparr>) = live_task q u" "live_task q (u\<lparr>restart_seen := b\<rparr>) = live_task q u"
  "live_task q (u\<lparr>u_rx_cb := b\<rparr>) = live_task q u" "live_task q (shRxPollArm u) = live_task q u"
  by (simp_all add: live_task_def) (simp_all add: link_live_def shRxPollArm_def)

lemma live_task_arm [simp]: "live_task q (shWisunArm ms u) \<longleftrightarrow> u_task u"
  by (auto simp: live_task_def)

lemma live_task_task: "live_task q u \<Longrightarrow> u_task u"
  by (simp add: live_task_def)

lemma flush_live: "live_task q u \<Longrightarrow> live_task q (shRxLineFlush e u)"
  by (simp add: shRxLineFlush_def too_long_live)

lemma push_byte_live: "live_task q u \<Longrightarrow> live_task q (rx_push_byte e b u)"
  by (simp add: rx_push_byte_def Let_def flush_live)

lemma line_push_live: "live_task q u \<Longrightarrow> live_task q (shRxLinePush e data u)"
  unfolding shRxLinePush_def by (induction data arbitrary: u) (simp_all add: push_byte_live)

lemma send_fail_live: "live_task q u \<Longrightarrow> live_task q (note_send_fail e u)"
  by (simp add: note_send_fail_def Let_def rejoin_live)

lemma send_ok_live: "live_task q u \<Longrightarrow> live_task q (note_send_ok u)"
  by (auto simp: note_send_ok_def Let_def live_task_def link_live_def settled_def)

lemma note_rx_live: "live_task q u \<Longrightarrow> live_task q (shWisunNoteRx e data u)"
  unfolding shWisunNoteRx_def Let_def by (simp add: send_fail_live send_ok_live)

lemma banner_live: "live_task q u \<Longrightarrow> live_task q (shResetNoteBanner u)"
  unfolding shResetNoteBanner_def Let_def by (simp add: live_task_task)

lemma consume_live: "live_task q u \<Longrightarrow> live_task q (shUartConsume e data u)"
proof -
  assume "live_task q u"
  then have "live_task q (shRxLinePush e data (shWisunNoteRx e data (rx_assemble data u)))"
    by (simp add: line_push_live note_rx_live rx_assemble_def)
  then show ?thesis
    unfolding shUartConsume_def Let_def by (auto simp: banner_live live_task_task [OF banner_live] live_task_task)
qed

lemma drain_live: "live_task q u \<Longrightarrow> live_task q (shUartDrain e chunks u)"
proof (cases "u_source u")
  case True
  assume "live_task q u"
  then have "live_task q (fold (shUartConsume e) chunks u)"
    by (induction chunks arbitrary: u) (simp_all add: consume_live)
  with True show ?thesis by (simp add: shUartDrain_def)
qed (simp add: shUartDrain_def)

text \<open>A tick consumes the pending message; whatever the step, the handler arms the next one or ends.\<close>

lemma finish_live: "u_task u \<Longrightarrow> live_task q (shAtFinish e u)"
  by (simp add: shAtFinish_def Let_def live_task_def shWisunLogResult_def)

lemma send_current_live: "u_task u \<Longrightarrow> live_task q (shAtSendCurrent e u)"
  by (simp add: shAtSendCurrent_def Let_def finish_live)

lemma prov_send_live: "u_task u \<Longrightarrow> live_task q (shProvSendCurrent e u)"
  by (simp add: shProvSendCurrent_def) (simp add: live_task_def link_live_def)

lemma settled_live: "settled u \<Longrightarrow> u_task u \<Longrightarrow> pend q WISUN_LINK_CHECK u \<le> 1 \<Longrightarrow> live_task q u"
  by (simp add: live_task_def link_live_def)

lemma on_pass_live: "u_task u \<Longrightarrow> pend q WISUN_LINK_CHECK u \<le> 1 \<Longrightarrow> live_task q (on_pass e u)"
  by (auto simp: on_pass_def Let_def live_task_def link_live_def settled_def)

lemma timeout_live:
  assumes "u_task u" and "pend q WISUN_LINK_CHECK u \<le> 1"
  shows "live_task q (shWisunOnTimeout e u)"
  by (cases "u_step u") (use assms in \<open>simp_all add: shWisunOnTimeout_def on_reset_def on_prov_read_def on_prov_set_def
    on_leave_def on_dest_def on_pass_live shAtNoteResult_def Let_def finish_live send_current_live prov_send_live
    settled_live [unfolded settled_def]\<close>)

section \<open>The rank of the bring-up\<close>

definition bring_rank :: "uart \<Rightarrow> nat" where
  "bring_rank u = (case u_step u of
     STEP_DONE \<Rightarrow> 0 | STEP_IDLE \<Rightarrow> 0
   | STEP_PASS \<Rightarrow> 7 - 3 * nat (too_long_retry u)
   | STEP_DEST \<Rightarrow> 8 - 3 * nat (too_long_retry u)
   | STEP_LEAVE \<Rightarrow> (if leave_next u = STEP_RESET then 40 else 9 - 3 * nat (too_long_retry u))
   | STEP_CMD \<Rightarrow> 22 - at_idx u
   | STEP_RESET \<Rightarrow> (if prov_done u then 25 else 39) - nat (ws_tries (wisun u))
   | STEP_PROV_SET \<Rightarrow> (if prov_i u = 0xff then 26 else 26 + (length (prov_q u) - prov_i u))
   | STEP_PROV_READ \<Rightarrow> 36)"

definition tame :: "uart \<Rightarrow> uart \<Rightarrow> bool" where
  "tame u u' \<longleftrightarrow> (\<not> settled u \<longrightarrow> \<not> settled u' \<and> bring_rank u' \<le> bring_rank u)"

lemma tame_refl [simp]: "tame u u"
  by (simp add: tame_def)

lemma tame_trans: "tame u v \<Longrightarrow> tame v w \<Longrightarrow> tame u w"
  by (auto simp: tame_def)

lemma rank_le: "uart_inv u \<Longrightarrow> bring_rank u \<le> 40"
  by (auto simp: bring_rank_def uart_inv_def uart_core_def split: wisun_step.split)

lemma rank_leave: "n \<noteq> STEP_RESET \<Longrightarrow> bring_rank (leave_to e n u) = 9 - 3 * nat (too_long_retry u)"
  by (simp add: leave_to_def bring_rank_def)

lemma leave_busy [simp]: "\<not> settled (leave_to e n u)"
  by (simp add: leave_to_def settled_def)

lemma same_rank:
  "u_step v = u_step u \<Longrightarrow> too_long_retry v = too_long_retry u \<Longrightarrow> leave_next v = leave_next u \<Longrightarrow>
   at_idx v = at_idx u \<Longrightarrow> prov_done v = prov_done u \<Longrightarrow> ws_tries (wisun v) = ws_tries (wisun u) \<Longrightarrow>
   prov_i v = prov_i u \<Longrightarrow> prov_q v = prov_q u \<Longrightarrow> bring_rank v = bring_rank u"
  by (cases "u_step u") (simp_all add: bring_rank_def)

lemma rank_cong [simp]:
  "bring_rank (u\<lparr>passthrough := b\<rparr>) = bring_rank u" "bring_rank (u\<lparr>send_ok_wait := b\<rparr>) = bring_rank u"
  "bring_rank (u\<lparr>rx_line := l\<rparr>) = bring_rank u" "bring_rank (u\<lparr>rx_asm := l\<rparr>) = bring_rank u"
  "bring_rank (u\<lparr>missed_ok := n\<rparr>) = bring_rank u" "bring_rank (u\<lparr>restart_seen := b\<rparr>) = bring_rank u"
  "bring_rank (u\<lparr>u_rx_cb := b\<rparr>) = bring_rank u" "bring_rank (u\<lparr>u_out := cs\<rparr>) = bring_rank u"
  "bring_rank (emit c u) = bring_rank u" "bring_rank (show_screen u) = bring_rank u"
  "bring_rank (set_offline u) = bring_rank u" "bring_rank (note_restart u) = bring_rank u"
  "bring_rank (shNoteStatus d u) = bring_rank u" "bring_rank (SmartHelmet_ReportStop u) = bring_rank u"
  "bring_rank (shWisunArm ms u) = bring_rank u" "bring_rank (shWisunSendProbe e d u) = bring_rank u"
  "bring_rank (shRxPollArm u) = bring_rank u"
  by (rule same_rank; simp add: shRxPollArm_def)+

lemma rank_wisun [simp]: "(\<And>w. ws_tries (f w) = ws_tries w) \<Longrightarrow> bring_rank (upd_wisun f u) = bring_rank u"
  by (rule same_rank) simp_all

lemma busy_rank_rejoin:
  assumes "uart_inv u" and "\<not> settled u" and "u_step u \<notin> {STEP_LEAVE, STEP_DEST, STEP_PASS}"
  shows "9 < bring_rank u"
  using assms by (cases "u_step u") (auto simp: bring_rank_def settled_def uart_inv_def uart_core_def)

lemma rejoin_tame: "uart_inv u \<Longrightarrow> tame u (SmartHelmet_UartRejoin e u)"
  using busy_rank_rejoin [of u]
  by (auto simp: tame_def SmartHelmet_UartRejoin_def Let_def rank_leave)

lemma too_long_tame: "tame u (shOnCmdTooLong e u)"
  by (auto simp: tame_def shOnCmdTooLong_def Let_def settled_def)

lemma flush_tame: "tame u (shRxLineFlush e u)"
  using too_long_tame [of u e] by (auto simp: shRxLineFlush_def tame_def)

lemma push_byte_tame: "tame u (rx_push_byte e b u)"
  using flush_tame [of u e] flush_tame [of "note_restart u" e]
  by (auto simp: rx_push_byte_def Let_def tame_def)

lemma line_push_tame: "tame u (shRxLinePush e data u)"
  unfolding shRxLinePush_def
  by (induction data arbitrary: u) (auto intro: tame_trans push_byte_tame)

lemma send_fail_tame: "uart_inv u \<Longrightarrow> tame u (note_send_fail e u)"
proof -
  assume inv: "uart_inv u"
  define v where "v = (if ws_online (wisun u)
     then emit (U_OnlineChanged False) (show_screen ((upd_wisun (\<lambda>w. w\<lparr>ws_online := False\<rparr>) u)\<lparr>send_ok_wait := False\<rparr>))
     else show_screen ((upd_wisun (\<lambda>w. w\<lparr>ws_online := False\<rparr>) u)\<lparr>send_ok_wait := False\<rparr>))"
  have "tame u v" by (simp add: v_def tame_def)
  moreover have "uart_inv v" using inv by (simp add: v_def uart_inv_upd uart_inv_wisun uart_inv_last)
  moreover have "note_send_fail e u = SmartHelmet_UartRejoin e v"
    by (simp add: note_send_fail_def v_def Let_def)
  ultimately show ?thesis using rejoin_tame tame_trans by metis
qed

lemma note_rx_tame:
  assumes "uart_inv u" and "\<not> shContainsFold data ''send ok''"
  shows "tame u (shWisunNoteRx e data u)"
proof -
  define u1 where "u1 = upd_wisun (\<lambda>w. w\<lparr>ws_rx_seen := True, ws_last_line := shCopyPreview data\<rparr>) u"
  define u2 where "u2 = (if list_ex (shContainsFold data) module_words
                     then shNoteStatus data (upd_wisun (\<lambda>w. w\<lparr>ws_module_seen := True\<rparr>) u1) else u1)"
  define u3 where "u3 = (if u_step u2 = STEP_CMD \<and> shIpv6Like data
                     then upd_wisun (\<lambda>w. w\<lparr>ws_ip_seen := True\<rparr>) u2 else u2)"
  define u4 where "u4 = (if shContainsFold data ''send fail'' then note_send_fail e u3 else u3)"
  have "tame u u3" by (simp add: u3_def u2_def u1_def tame_def)
  moreover have "uart_inv u3"
    using assms(1) by (simp add: u3_def u2_def u1_def uart_inv_wisun uart_inv_last preview_length)
  ultimately have "tame u u4" using send_fail_tame [of u3 e] by (auto simp: u4_def intro: tame_trans)
  moreover have "shWisunNoteRx e data u = (if data = [] then u
      else if shContainsFold data ''RESTART_SENSOR'' then note_restart u4 else u4)"
    using assms(2) by (simp add: shWisunNoteRx_def Let_def u1_def u2_def u3_def u4_def)
  ultimately show ?thesis by (simp add: tame_def)
qed

lemma banner_tame: "tame u (shResetNoteBanner u)"
  by (simp add: shResetNoteBanner_def Let_def tame_def)

lemma consume_tame:
  assumes "uart_inv u" and "\<not> shContainsFold data ''send ok''"
  shows "tame u (shUartConsume e data u)"
proof -
  define v where "v = shRxLinePush e data (shWisunNoteRx e data (rx_assemble data u))"
  have "tame u (rx_assemble data u)" by (simp add: tame_def rx_assemble_def)
  then have v: "tame u v"
    unfolding v_def
    by (rule tame_trans [OF tame_trans [OF _ note_rx_tame [OF assemble_inv [OF assms(1)] assms(2)]] line_push_tame])
  define w where "w = (if u_rx_cb v then emit (U_RxCallback data) v else v)"
  have w: "tame u w" using v by (simp add: w_def tame_def)
  have b: "tame u (shResetNoteBanner w)" using w banner_tame tame_trans by blast
  have "shUartConsume e data u = (if u_step w = STEP_RESET then
           (if \<not> ws_reset_seen (wisun (shResetNoteBanner w)) then shWisunArm 20000 (shResetNoteBanner w)
            else shResetNoteBanner w)
         else if u_step w = STEP_CMD \<or> u_step w = STEP_PROV_READ \<or> u_step w = STEP_PROV_SET then shWisunArm 400 w
         else w)"
    by (simp add: shUartConsume_def Let_def v_def [symmetric] w_def [symmetric])
  with w b show ?thesis by (simp add: tame_def)
qed

lemma drain_tame:
  assumes "uart_inv u" and "\<forall>c\<in>set chunks. \<not> shContainsFold c ''send ok''"
  shows "tame u (shUartDrain e chunks u)"
proof (cases "u_source u")
  case True
  have "tame u (fold (shUartConsume e) chunks u)"
    using assms
  proof (induction chunks arbitrary: u)
    case (Cons c cs)
    then show ?case using consume_tame [of u c e] consume_inv [of u e c] by (auto intro: tame_trans)
  qed simp
  with True show ?thesis by (simp add: shUartDrain_def)
qed (simp add: shUartDrain_def)

lemma rank_finish [simp]: "bring_rank (shAtFinish e u) = 9 - 3 * nat (too_long_retry u)"
  by (simp add: shAtFinish_def Let_def rank_leave shWisunLogResult_def)

lemma rank_send_current: "at_idx u \<le> 13 \<Longrightarrow> bring_rank (shAtSendCurrent e u) \<le> 22 - at_idx u"
proof (cases "at_idx u \<ge> 13")
  case False
  then show ?thesis by (simp add: shAtSendCurrent_def Let_def) (simp add: bring_rank_def)
qed (simp add: shAtSendCurrent_def)

lemma rank_prov_send:
  "length (prov_q u) \<le> 8 \<Longrightarrow> bring_rank (shProvSendCurrent e u) = 26 + (length (prov_q u) - prov_i u)"
  by (auto simp: shProvSendCurrent_def bring_rank_def)

lemma prov_plan_length: "uart_core u \<Longrightarrow> length (prov_q (shProvPlan u)) \<le> 8"
  using uart_core_elim(9) [OF plan_core] .

lemma timeout_decreases:
  assumes inv: "uart_inv u" and busy: "\<not> settled u"
  shows "bring_rank (shWisunOnTimeout e u) < bring_rank u"
proof -
  note core = uart_inv_core [OF inv]
  note b = uart_core_elim [OF core]
  show ?thesis
  proof (cases "u_step u")
    case STEP_RESET
    then have r: "bring_rank u = (if prov_done u then 25 else 39) - nat (ws_tries (wisun u))"
      by (simp add: bring_rank_def)
    have p: "bring_rank (u\<lparr>rx_asm := [], u_step := STEP_PROV_READ\<rparr>) = 36" by (simp add: bring_rank_def)
    have "bring_rank (on_reset e u) < bring_rank u"
      unfolding r on_reset_def
      using b(7,8) rank_send_current [of "u\<lparr>at_idx := 0\<rparr>" e] STEP_RESET p
      by (auto simp: bring_rank_def [of "upd_wisun f v" for f v])
    with STEP_RESET show ?thesis by (simp add: shWisunOnTimeout_def)
  next
    case STEP_CMD
    then have i: "at_idx u < 13" using inv by (simp add: uart_inv_def)
    then show ?thesis
      using STEP_CMD
      by (auto simp: shWisunOnTimeout_def shAtNoteResult_def Let_def bring_rank_def [of u]
          intro!: le_less_trans [OF rank_send_current])
  next
    case STEP_PROV_READ
    then show ?thesis
      using prov_plan_length [OF core] rank_send_current [of "(shProvPlan u)\<lparr>prov_done := True, at_idx := 0\<rparr>" e]
      by (auto simp: shWisunOnTimeout_def on_prov_read_def Let_def bring_rank_def [of u] rank_prov_send)
  next
    case STEP_PROV_SET
    then have "prov_i u = 0xff \<or> prov_i u < length (prov_q u)" using inv by (simp add: uart_inv_def)
    with STEP_PROV_SET b(7-9) show ?thesis
      by (auto simp: shWisunOnTimeout_def on_prov_set_def bring_rank_def [of u] rank_prov_send)
        (auto simp: bring_rank_def)
  next
    case STEP_LEAVE
    with b(3,4) show ?thesis
      by (auto simp: shWisunOnTimeout_def on_leave_def bring_rank_def)
  next
    case STEP_DEST
    with b(3,4) show ?thesis by (auto simp: shWisunOnTimeout_def on_dest_def bring_rank_def)
  next
    case STEP_PASS
    with b(3,4) show ?thesis
      by (auto simp: shWisunOnTimeout_def on_pass_def Let_def rank_leave bring_rank_def [of u])
        (auto simp: bring_rank_def)
  qed (use busy in \<open>simp_all add: settled_def\<close>)
qed

lemma busy_rank_pos: "uart_inv u \<Longrightarrow> \<not> settled u \<Longrightarrow> 0 < bring_rank u"
  by (cases "u_step u") (auto simp: bring_rank_def settled_def uart_inv_def uart_core_def)

section \<open>Running the link\<close>

definition link_handle :: "link_env \<times> link_event \<Rightarrow> uart \<Rightarrow> uart \<times> timer_call list" where
  "link_handle ev u = (let u' = link_do (fst ev) (snd ev) (u\<lparr>u_out := []\<rparr>) in (u', uart_timers u'))"

fun link_msg :: "link_env \<times> link_event \<Rightarrow> message" where
  "link_msg (e, On_Message chunks m) = m"
| "link_msg (e, _) = MESSAGE_OTHER"

fun no_ack :: "link_env \<times> link_event \<Rightarrow> bool" where
  "no_ack (e, On_Message chunks m) = list_all (\<lambda>c. \<not> shContainsFold c ''send ok'') chunks"
| "no_ack (e, _) = True"

definition link_run :: "(link_env \<times> link_event) list \<Rightarrow> uart \<times> pending \<Rightarrow> uart \<times> pending" where
  "link_run = timed_run link_handle link_msg"

lemma link_run_simps [simp]:
  "link_run [] s = s" "link_run (ev # evs) s = link_run evs (timed_step link_handle link_msg ev s)"
  by (simp_all add: link_run_def timed_run_def)

lemma link_step_fst: "fst (timed_step link_handle link_msg ev (u, q)) = link_do (fst ev) (snd ev) (u\<lparr>u_out := []\<rparr>)"
  by (simp add: timed_step_def link_handle_def Let_def)

lemma link_step_snd:
  "snd (timed_step link_handle link_msg ev (u, q)) m =
   pend (deliver (link_msg ev) q) m (link_do (fst ev) (snd ev) (u\<lparr>u_out := []\<rparr>))"
  by (simp add: timed_step_def link_handle_def Let_def pend_def)

lemma note_report_live: "live_task q u \<Longrightarrow> live_task q (SmartHelmet_UartNoteReportSent e ok u)"
  unfolding SmartHelmet_UartNoteReportSent_def Let_def by (simp add: rejoin_live)

lemma handle_live:
  assumes "live_task q u"
  shows "msg \<noteq> Tick WISUN_LINK_CHECK \<Longrightarrow> live_task q (snd (SmartHelmet_UartHandleMessage e chunks msg u))"
  using drain_live [OF assms, of e chunks] assms
  by (auto simp: SmartHelmet_UartHandleMessage_def split: message.split helmet_msg.split)

lemma link_do_live:
  assumes task: "u_task u" and out: "u_out u = []"
    and q: "q WISUN_LINK_CHECK \<le> 1" "\<not> settled u \<longrightarrow> q WISUN_LINK_CHECK = 1"
  shows "live_task (deliver (link_msg (e, ev)) q) (link_do e ev u)"
proof -
  have p: "pend r m u = r m" for r m by (simp add: pend_def uart_timers_def out)
  show ?thesis
  proof (cases "link_msg (e, ev) = Tick WISUN_LINK_CHECK")
    case True
    then obtain chunks where ev: "ev = On_Message chunks (Tick WISUN_LINK_CHECK)"
      by (cases ev) simp_all
    have "pend (deliver (Tick WISUN_LINK_CHECK) q) WISUN_LINK_CHECK u \<le> 1"
      using q by (simp add: p deliver_def)
    then show ?thesis
      using timeout_live [OF task] by (simp add: ev SmartHelmet_UartHandleMessage_def)
  next
    case False
    then have "deliver (link_msg (e, ev)) q WISUN_LINK_CHECK = q WISUN_LINK_CHECK"
      by (auto simp: deliver_def split: message.split)
    then have l: "live_task (deliver (link_msg (e, ev)) q) u"
      using task q by (simp add: live_task_def link_live_def p)
    then show ?thesis
      using False handle_live [OF l]
      by (cases ev) (auto simp: note_report_live rejoin_live SmartHelmet_UartTakeRestart_def
          SmartHelmet_UartSetRxCallback_def)
  qed
qed

definition live_state :: "uart \<times> pending \<Rightarrow> bool" where
  "live_state s \<longleftrightarrow> u_task (fst s) \<and> snd s WISUN_LINK_CHECK \<le> 1 \<and>
     (\<not> settled (fst s) \<longrightarrow> snd s WISUN_LINK_CHECK = 1)"

lemma link_step_live: "live_state s \<Longrightarrow> live_state (timed_step link_handle link_msg ev s)"
proof (cases s)
  case (Pair u q)
  assume "live_state s"
  then have "live_task (deliver (link_msg ev) q) (link_do (fst ev) (snd ev) (u\<lparr>u_out := []\<rparr>))"
    using link_do_live [of "u\<lparr>u_out := []\<rparr>" q "fst ev" "snd ev"] Pair by (simp add: live_state_def)
  then show ?thesis
    by (simp add: Pair live_state_def link_step_fst link_step_snd live_task_def link_live_def)
qed

lemma link_run_live: "live_state s \<Longrightarrow> live_state (link_run evs s)"
  by (induction evs arbitrary: s) (simp_all add: link_step_live)

lemma link_do_rank:
  assumes inv: "uart_inv u" and busy: "\<not> settled u" and "no_ack (e, ev)"
  shows "bring_rank (link_do e ev u) + (if link_msg (e, ev) = Tick WISUN_LINK_CHECK then 1 else 0) \<le> bring_rank u"
proof (cases ev)
  case (On_Message chunks m)
  have d: "bring_rank (shUartDrain e chunks u) \<le> bring_rank u"
    using drain_tame [OF inv, of chunks e] assms busy by (simp add: On_Message list_all_iff tame_def)
  show ?thesis
    using d timeout_decreases [OF inv busy, of e]
    by (auto simp: On_Message SmartHelmet_UartHandleMessage_def Suc_le_eq split: message.split helmet_msg.split)
next
  case (Report_Sent ok)
  have "tame u (SmartHelmet_UartNoteReportSent e ok u)"
    using rejoin_tame [of "set_offline u" e] rejoin_tame [of "u\<lparr>missed_ok := n\<rparr>" e for n] inv
      uart_core_elim(5,6) [OF uart_inv_core, OF inv]
    by (auto simp: SmartHelmet_UartNoteReportSent_def Let_def tame_def uart_inv_missed)
  with busy show ?thesis by (simp add: Report_Sent tame_def)
next
  case Rejoin
  then show ?thesis using rejoin_tame [OF inv, of e] busy by (simp add: tame_def)
qed (simp_all add: SmartHelmet_UartTakeRestart_def SmartHelmet_UartSetRxCallback_def)

definition link_ticks :: "(link_env \<times> link_event) list \<Rightarrow> nat" where
  "link_ticks evs = length (filter (\<lambda>ev. link_msg ev = Tick WISUN_LINK_CHECK) evs)"

lemma link_run_rank:
  assumes "uart_inv (fst s)" and "list_all no_ack evs"
    and "\<forall>k\<le>length evs. \<not> settled (fst (link_run (take k evs) s))"
  shows "uart_inv (fst (link_run evs s)) \<and> bring_rank (fst (link_run evs s)) + link_ticks evs \<le> bring_rank (fst s)"
  using assms
proof (induction evs arbitrary: s)
  case (Cons ev evs)
  obtain u q where s: "s = (u, q)" by fastforce
  obtain e l where ev: "ev = (e, l)" by fastforce
  let ?s = "timed_step link_handle link_msg ev s"
  have inv: "uart_inv (u\<lparr>u_out := []\<rparr>)" using Cons.prems(1) by (simp add: s uart_inv_upd)
  have busy: "\<not> settled (u\<lparr>u_out := []\<rparr>)" using Cons.prems(3)[rule_format, of 0] by (simp add: s)
  have r: "bring_rank (fst ?s) + (if link_msg ev = Tick WISUN_LINK_CHECK then 1 else 0) \<le> bring_rank u"
    using link_do_rank [OF inv busy, of e l] Cons.prems(2) by (simp add: s ev link_step_fst)
  have "uart_inv (fst ?s)" using link_do_inv [OF inv] by (simp add: s ev link_step_fst)
  moreover have "\<forall>k\<le>length evs. \<not> settled (fst (link_run (take k evs) ?s))"
    using Cons.prems(3) by (metis Suc_le_mono length_Cons link_run_simps(2) take_Suc_Cons)
  ultimately have "uart_inv (fst (link_run evs ?s)) \<and>
      bring_rank (fst (link_run evs ?s)) + link_ticks evs \<le> bring_rank (fst ?s)"
    using Cons.IH Cons.prems(2) by simp
  with r show ?case by (auto simp: s link_ticks_def split: if_splits)
qed (simp add: link_ticks_def)

section \<open>The poll timer\<close>

text \<open>
  While the link is open only its own handlers touch its timers: every other step leaves the stream
  and all timers alone, except that it may arm the link check and cancel the report.
\<close>

definition untouched :: "pending \<Rightarrow> helmet_msg \<Rightarrow> uart \<Rightarrow> uart \<Rightarrow> bool" where
  "untouched q m u u' \<longleftrightarrow> u_task u' = u_task u \<and> u_sink u' = u_sink u \<and> u_source u' = u_source u \<and>
     (m \<noteq> WISUN_LINK_CHECK \<and> m \<noteq> REPORT_TICK \<longrightarrow> pend q m u' = pend q m u)"

lemma untouched_trans: "untouched q m u v \<Longrightarrow> untouched q m v w \<Longrightarrow> untouched q m u w"
  by (simp add: untouched_def)

lemma untouched_refl [simp]: "untouched q m u u"
  by (simp add: untouched_def)

lemma rejoin_untouched: "untouched q m u (SmartHelmet_UartRejoin e u)"
  by (simp add: untouched_def SmartHelmet_UartRejoin_def Let_def)

lemma too_long_untouched: "untouched q m u (shOnCmdTooLong e u)"
  by (simp add: untouched_def shOnCmdTooLong_def Let_def)

lemma flush_untouched: "untouched q m u (shRxLineFlush e u)"
  using too_long_untouched [of q m u e] by (simp add: untouched_def shRxLineFlush_def)

lemma push_byte_untouched: "untouched q m u (rx_push_byte e b u)"
  using flush_untouched [of q m u e] flush_untouched [of q m "note_restart u" e]
  by (simp add: untouched_def rx_push_byte_def Let_def)

lemma line_push_untouched: "untouched q m u (shRxLinePush e data u)"
  unfolding shRxLinePush_def
  by (induction data arbitrary: u) (auto intro: untouched_trans push_byte_untouched)

lemma send_fail_untouched: "untouched q m u (note_send_fail e u)"
  unfolding note_send_fail_def Let_def
  by (rule untouched_trans [OF _ rejoin_untouched]) (simp add: untouched_def)

lemma note_rx_untouched: "untouched q m u (shWisunNoteRx e data u)"
  using send_fail_untouched [of q m _ e]
  by (simp add: shWisunNoteRx_def Let_def untouched_def note_send_ok_def)

lemma consume_untouched: "untouched q m u (shUartConsume e data u)"
proof -
  have "untouched q m u (rx_assemble data u)" by (simp add: untouched_def rx_assemble_def)
  then have "untouched q m u (shRxLinePush e data (shWisunNoteRx e data (rx_assemble data u)))"
    by (rule untouched_trans [OF untouched_trans [OF _ note_rx_untouched] line_push_untouched])
  then show ?thesis by (simp add: shUartConsume_def Let_def untouched_def shResetNoteBanner_def)
qed

lemma drain_untouched: "untouched q m u (shUartDrain e chunks u)"
proof (cases "u_source u")
  case True
  have "untouched q m u (fold (shUartConsume e) chunks u)"
    by (induction chunks arbitrary: u) (auto intro: untouched_trans consume_untouched)
  with True show ?thesis by (simp add: shUartDrain_def)
qed (simp add: shUartDrain_def)

lemma finish_untouched: "untouched q m u (shAtFinish e u)"
  by (simp add: shAtFinish_def Let_def untouched_def shWisunLogResult_def)

lemma send_current_untouched: "untouched q m u (shAtSendCurrent e u)"
  using finish_untouched [of q m u e] by (simp add: shAtSendCurrent_def Let_def untouched_def)

lemma prov_send_untouched: "untouched q m u (shProvSendCurrent e u)"
  by (simp add: shProvSendCurrent_def untouched_def)

lemma plan_stream [simp]: "u_sink (shProvPlan u) = u_sink u" "u_source (shProvPlan u) = u_source u"
  by (simp_all add: shProvPlan_def)

lemma timeout_untouched: "untouched q m u (shWisunOnTimeout e u)"
  using finish_untouched [of q m _ e] send_current_untouched [of q m _ e] prov_send_untouched [of q m _ e]
  by (cases "u_step u") (simp_all add: shWisunOnTimeout_def on_reset_def on_prov_read_def on_prov_set_def
    on_leave_def on_dest_def on_pass_def shAtNoteResult_def Let_def untouched_def)

lemma note_report_untouched: "untouched q m u (SmartHelmet_UartNoteReportSent e ok u)"
  using rejoin_untouched [of q m _ e]
  by (simp add: SmartHelmet_UartNoteReportSent_def Let_def untouched_def)

text \<open>The link never posts the report timer, it only cancels it.\<close>

definition report_once :: "pending \<Rightarrow> uart \<Rightarrow> bool" where
  "report_once q u \<longleftrightarrow> pend q REPORT_TICK u \<le> 1"

lemma report_once_upd [simp]:
  "report_once q (u\<lparr>rx_line := l\<rparr>) = report_once q u" "report_once q (u\<lparr>rx_asm := k\<rparr>) = report_once q u"
  "report_once q (upd_wisun f u) = report_once q u" "report_once q (note_restart u) = report_once q u"
  "report_once q (shNoteStatus d u) = report_once q u" "report_once q (show_screen u) = report_once q u"
  "report_once q (u\<lparr>send_ok_wait := b\<rparr>) = report_once q u" "report_once q (emit (U_RxCallback x) u) = report_once q u"
  "report_once q (emit (U_OnlineChanged b) u) = report_once q u" "report_once q (set_offline u) = report_once q u"
  "report_once q (u\<lparr>missed_ok := n\<rparr>) = report_once q u" "report_once q (shRxPollArm u) = report_once q u"
  "report_once q (shWisunArm ms u) = report_once q u" "report_once q (leave_to e s u) = report_once q u"
  "report_once q (SmartHelmet_ReportStop u)" "report_once q (shAtFinish e u) = report_once q u"
  "report_once q (shAtSendCurrent e u) = report_once q u" "report_once q (shProvSendCurrent e u) = report_once q u"
  by (simp_all add: report_once_def shAtFinish_def shAtSendCurrent_def shProvSendCurrent_def Let_def shWisunLogResult_def)

lemma rejoin_once: "report_once q u \<Longrightarrow> report_once q (SmartHelmet_UartRejoin e u)"
  by (simp add: SmartHelmet_UartRejoin_def Let_def)

lemma too_long_once: "report_once q (shOnCmdTooLong e u)"
  by (simp add: shOnCmdTooLong_def Let_def) (simp add: report_once_def)

lemma flush_once: "report_once q u \<Longrightarrow> report_once q (shRxLineFlush e u)"
  by (simp add: shRxLineFlush_def too_long_once)

lemma line_push_once: "report_once q u \<Longrightarrow> report_once q (shRxLinePush e data u)"
  unfolding shRxLinePush_def
  by (induction data arbitrary: u) (simp_all add: rx_push_byte_def Let_def flush_once)

lemma note_rx_once: "report_once q u \<Longrightarrow> report_once q (shWisunNoteRx e data u)"
  unfolding shWisunNoteRx_def Let_def
  by (simp add: note_send_fail_def Let_def rejoin_once) (simp add: report_once_def note_send_ok_def Let_def)

lemma consume_once: "report_once q u \<Longrightarrow> report_once q (shUartConsume e data u)"
  by (simp add: shUartConsume_def Let_def line_push_once note_rx_once rx_assemble_def shResetNoteBanner_def)

lemma drain_once: "report_once q u \<Longrightarrow> report_once q (shUartDrain e chunks u)"
proof (cases "u_source u")
  case True
  assume "report_once q u"
  then have "report_once q (fold (shUartConsume e) chunks u)"
    by (induction chunks arbitrary: u) (simp_all add: consume_once)
  with True show ?thesis by (simp add: shUartDrain_def)
qed (simp add: shUartDrain_def)

lemma timeout_once: "report_once q u \<Longrightarrow> report_once q (shWisunOnTimeout e u)"
  by (cases "u_step u") (simp_all add: shWisunOnTimeout_def on_reset_def on_prov_read_def on_prov_set_def
    on_leave_def on_dest_def on_pass_def shAtNoteResult_def Let_def, simp_all add: report_once_def)

lemma note_report_once: "report_once q u \<Longrightarrow> report_once q (SmartHelmet_UartNoteReportSent e ok u)"
  by (simp add: SmartHelmet_UartNoteReportSent_def Let_def rejoin_once)

lemma link_do_poll:
  "link_msg (e, ev) \<noteq> Tick WISUN_RX_POLL \<Longrightarrow> untouched q WISUN_RX_POLL u (link_do e ev u)"
  using drain_untouched [of q WISUN_RX_POLL u e] timeout_untouched [of q WISUN_RX_POLL u e]
    note_report_untouched [of q WISUN_RX_POLL u e] rejoin_untouched [of q WISUN_RX_POLL u e]
  by (cases ev) (auto simp: SmartHelmet_UartHandleMessage_def SmartHelmet_UartTakeRestart_def
      SmartHelmet_UartSetRxCallback_def untouched_def split: message.splits helmet_msg.splits)

lemma link_do_task: "u_task (link_do e ev u) = u_task u"
proof (cases "link_msg (e, ev) = Tick WISUN_RX_POLL")
  case True
  then obtain chunks where "ev = On_Message chunks (Tick WISUN_RX_POLL)" by (cases ev) simp_all
  then show ?thesis
    using drain_untouched [of q m u e chunks for q m]
    by (simp add: SmartHelmet_UartHandleMessage_def untouched_def shRxPollArm_def)
qed (use link_do_poll [of e ev undefined u] in \<open>simp add: untouched_def\<close>)

interpretation rx_poll: rearming_timer link_handle link_msg u_task WISUN_RX_POLL
proof
  fix u :: uart and ev :: "link_env \<times> link_event" and q :: pending
  obtain e l where ev: "ev = (e, l)" by fastforce
  assume task: "u_task u"
  show "u_task (fst (link_handle ev u))"
    using task by (simp add: link_handle_def Let_def link_do_task)
  {
    assume "link_msg ev = Tick WISUN_RX_POLL" and "q WISUN_RX_POLL = 0"
    then obtain chunks where l: "l = On_Message chunks (Tick WISUN_RX_POLL)" by (cases l) (simp_all add: ev)
    have "u_task (shUartDrain e chunks (u\<lparr>u_out := []\<rparr>))"
      using drain_untouched [of q m "u\<lparr>u_out := []\<rparr>" e chunks for q m] task by (simp add: untouched_def)
    then show "timers_after (snd (link_handle ev u)) q WISUN_RX_POLL = 1"
      by (simp add: ev l link_handle_def Let_def SmartHelmet_UartHandleMessage_def pend_def [symmetric])
  }
  assume "link_msg ev \<noteq> Tick WISUN_RX_POLL"
  then show "timers_after (snd (link_handle ev u)) q WISUN_RX_POLL = q WISUN_RX_POLL"
    using link_do_poll [of e l q "u\<lparr>u_out := []\<rparr>"]
    by (simp add: ev link_handle_def Let_def pend_def [symmetric] untouched_def)
qed

section \<open>The bring-up ends\<close>

text \<open>C14: The bring-up comes to an end unless the module acknowledges a report meanwhile. The poll timer stays pending exactly once; while a
  command dialogue is running so does the link-check timer, and 40 expiries of it are enough to end the dialogue (data mode reached or
  given up), whichever writes the stream refuses, whenever reports fail or a rejoin is requested, and whatever bytes the module
  sends, provided no chunk contains the acknowledgement \<open>send ok\<close>. That line is excluded because it ends the dialogue in the middle of a chunk,
  and a failure line behind it in the same chunk starts it anew with fresh retries.\<close>
theorem bring_up_terminates:
  assumes "uart_inv u" and "u_task u" and "q WISUN_LINK_CHECK = 1" and "q WISUN_RX_POLL = 1"
    and "list_all no_ack evs"
  shows "(\<forall>k\<le>length evs. case link_run (take k evs) (u, q) of (u', q') \<Rightarrow>
            q' WISUN_RX_POLL = 1 \<and> (\<not> settled u' \<longrightarrow> q' WISUN_LINK_CHECK = 1)) \<and>
         (40 \<le> link_ticks evs \<longrightarrow> (\<exists>k\<le>length evs. settled (fst (link_run (take k evs) (u, q)))))"
proof (intro conjI allI impI)
  fix k
  have "live_state (u, q)" using assms(2,3) by (simp add: live_state_def)
  then have "live_state (link_run (take k evs) (u, q))" by (rule link_run_live)
  moreover have "snd (link_run (take k evs) (u, q)) WISUN_RX_POLL = 1"
    using rx_poll.run_keeps [of u q "take k evs"] assms(2,4) by (simp add: link_run_def prod_eq_iff)
  ultimately show "case link_run (take k evs) (u, q) of (u', q') \<Rightarrow>
      q' WISUN_RX_POLL = 1 \<and> (\<not> settled u' \<longrightarrow> q' WISUN_LINK_CHECK = 1)"
    by (auto simp: live_state_def)
next
  assume t: "40 \<le> link_ticks evs"
  show "\<exists>k\<le>length evs. settled (fst (link_run (take k evs) (u, q)))"
  proof (rule ccontr)
    assume no: "\<not> ?thesis"
    have "uart_inv (fst (link_run evs (u, q))) \<and> bring_rank (fst (link_run evs (u, q))) + link_ticks evs \<le> bring_rank u"
      using link_run_rank [of "(u, q)" evs] no assms by simp
    moreover have "\<not> settled (fst (link_run evs (u, q)))" using no by auto
    ultimately show False
      using busy_rank_pos rank_le [OF assms(1)] t by fastforce
  qed
qed

definition silent_env :: link_env where
  "silent_env = \<lparr>le_now_us = 0, le_accepts = (\<lambda>_. True)\<rparr>"

definition open_link :: uart where
  "open_link = uart_boot\<lparr>u_sink := True, u_source := True, u_task := True\<rparr>"

lemma open_link_inv: "uart_inv open_link"
  using uart_inv_boot by (simp add: open_link_def uart_inv_def settled_def)

theorem bring_up_terminates_witness:
  "\<exists>k\<le>41. settled (fst (link_run (take k ((silent_env, On_Message [''Router start''] (Tick WISUN_RX_POLL)) #
      replicate 40 (silent_env, On_Message [] (Tick WISUN_LINK_CHECK))))
      (SmartHelmet_UartStartVerify silent_env open_link, (\<lambda>_. 0)(WISUN_LINK_CHECK := 1, WISUN_RX_POLL := 1))))"
proof -
  let ?evs = "(silent_env, On_Message [''Router start''] (Tick WISUN_RX_POLL)) #
      replicate 40 (silent_env, On_Message [] (Tick WISUN_LINK_CHECK))"
  have "list_all no_ack ?evs" by code_simp
  moreover have "link_ticks ?evs = 40" by (simp add: link_ticks_def)
  moreover have "u_task (SmartHelmet_UartStartVerify silent_env open_link)"
    by (simp add: SmartHelmet_UartStartVerify_def open_link_def)
  ultimately show ?thesis
    using bring_up_terminates [of "SmartHelmet_UartStartVerify silent_env open_link"
        "(\<lambda>_. 0)(WISUN_LINK_CHECK := 1, WISUN_RX_POLL := 1)" ?evs] start_inv [OF open_link_inv]
    by simp
qed

section \<open>A module that never answers\<close>

lemma contains_nil [simp]: "shContainsFold [] p = False"
  by (cases p) (simp_all add: shContainsFold_def)

lemma probe_flags [simp]:
  "ws_rx_seen (wisun (shWisunSendProbe e d u)) = ws_rx_seen (wisun u)"
  "ws_module_seen (wisun (shWisunSendProbe e d u)) = ws_module_seen (wisun u)"
  by (simp_all add: shWisunSendProbe_def case_prod_beta)

abbreviation link_tick :: "link_env \<Rightarrow> uart \<Rightarrow> uart" where
  "link_tick e u \<equiv> uart_do (e, Running (On_Message [] (Tick WISUN_LINK_CHECK))) u"

definition unanswered :: "uart \<Rightarrow> bool" where
  "unanswered u \<longleftrightarrow> rx_asm u = [] \<and> \<not> ws_rx_seen (wisun u) \<and> \<not> ws_reset_seen (wisun u)"

lemma tick_timeout: "link_tick e u = shWisunOnTimeout e (u\<lparr>u_out := []\<rparr>)"
  by (simp add: SmartHelmet_UartHandleMessage_def)

lemma silent_start:
  "u_step (SmartHelmet_UartStartVerify e u) = STEP_LEAVE \<and> leave_next (SmartHelmet_UartStartVerify e u) = STEP_RESET \<and>
   unanswered (SmartHelmet_UartStartVerify e u)"
  by (simp add: SmartHelmet_UartStartVerify_def leave_to_def unanswered_def wisun_status_zero_def)

lemma silent_leave_reset:
  "u_step u = STEP_LEAVE \<Longrightarrow> leave_next u = STEP_RESET \<Longrightarrow> unanswered u \<Longrightarrow>
   u_step (link_tick e u) = STEP_RESET \<and> ws_tries (wisun (link_tick e u)) = 0 \<and> unanswered (link_tick e u)"
  by (simp add: tick_timeout shWisunOnTimeout_def on_leave_def unanswered_def del: uart_do.simps)

lemma silent_reset:
  "u_step u = STEP_RESET \<Longrightarrow> unanswered u \<Longrightarrow> 0 \<le> ws_tries (wisun u) \<Longrightarrow> ws_tries (wisun u) < 2 \<Longrightarrow>
   u_step (link_tick e u) = STEP_RESET \<and> ws_tries (wisun (link_tick e u)) = ws_tries (wisun u) + 1 \<and>
   unanswered (link_tick e u)"
  by (simp add: tick_timeout shWisunOnTimeout_def on_reset_def unanswered_def del: uart_do.simps)

lemma silent_give_up:
  "u_step u = STEP_RESET \<Longrightarrow> unanswered u \<Longrightarrow> ws_tries (wisun u) = 2 \<Longrightarrow>
   u_step (link_tick e u) = STEP_LEAVE \<and> leave_next (link_tick e u) = STEP_DEST \<and> unanswered (link_tick e u)"
  by (simp add: tick_timeout shWisunOnTimeout_def on_reset_def unanswered_def shAtFinish_def Let_def
      shWisunLogResult_def leave_to_def del: uart_do.simps)

lemma silent_dest:
  "u_step u = STEP_LEAVE \<Longrightarrow> leave_next u = STEP_DEST \<Longrightarrow> unanswered u \<Longrightarrow>
   u_step (link_tick e u) = STEP_DEST \<and> unanswered (link_tick e u)"
  "u_step u = STEP_DEST \<Longrightarrow> unanswered u \<Longrightarrow> u_step (link_tick e u) = STEP_PASS \<and> unanswered (link_tick e u)"
  by (simp_all add: tick_timeout shWisunOnTimeout_def on_leave_def on_dest_def unanswered_def del: uart_do.simps)

lemma silent_pass:
  "u_step u = STEP_PASS \<Longrightarrow> unanswered u \<Longrightarrow>
   u_step (link_tick e u) = STEP_DONE \<and> passthrough (link_tick e u) \<and> U_ReportStart \<in> set (u_out (link_tick e u)) \<and>
   unanswered (link_tick e u)"
  by (simp add: tick_timeout shWisunOnTimeout_def on_pass_def unanswered_def Let_def del: uart_do.simps)
    (simp add: emit_def)

text \<open>With a module that never sends a byte, even when the stream refuses every write, the bring-up ends after
  seven timer expiries in data mode: the data mode flag is set, reporting is started, and nothing has ever been
  received. The flag therefore does not show that the module accepted the mode switch.\<close>
theorem silent_module_passes:
  "let u' = fold link_tick [e1, e2, e3, e4, e5, e6, e7] (SmartHelmet_UartStartVerify e u)
   in u_step u' = STEP_DONE \<and> SmartHelmet_UartInPassthrough u' \<and> U_ReportStart \<in> set (u_out u') \<and>
      \<not> ws_rx_seen (wisun u') \<and> \<not> ws_reset_seen (wisun u')"
proof -
  let ?a = "link_tick e1 (SmartHelmet_UartStartVerify e u)"
  let ?b = "link_tick e3 (link_tick e2 ?a)"
  let ?c = "link_tick e4 ?b"
  let ?d = "link_tick e6 (link_tick e5 ?c)"
  have a: "u_step ?a = STEP_RESET \<and> ws_tries (wisun ?a) = 0 \<and> unanswered ?a"
    by (rule silent_leave_reset) (use silent_start in blast)+
  then have b: "u_step ?b = STEP_RESET \<and> ws_tries (wisun ?b) = 2 \<and> unanswered ?b"
    using silent_reset [of ?a e2] silent_reset [of "link_tick e2 ?a" e3] by (simp del: uart_do.simps)
  then have "u_step ?c = STEP_LEAVE \<and> leave_next ?c = STEP_DEST \<and> unanswered ?c"
    using silent_give_up [of ?b e4] by blast
  then have "u_step ?d = STEP_PASS \<and> unanswered ?d"
    using silent_dest(1) [of ?c e5] silent_dest(2) [of "link_tick e5 ?c" e6] by blast
  then have "u_step (link_tick e7 ?d) = STEP_DONE \<and> passthrough (link_tick e7 ?d) \<and>
      U_ReportStart \<in> set (u_out (link_tick e7 ?d)) \<and> unanswered (link_tick e7 ?d)"
    using silent_pass [of ?d e7] by blast
  then show ?thesis by (simp add: Let_def unanswered_def SmartHelmet_UartInPassthrough_def del: uart_do.simps)
qed

section \<open>An acknowledgement during a rejoin\<close>

lemma push_plain:
  "\<forall>b\<in>set data. b \<noteq> CHR 0x0A \<and> b \<noteq> CHR 0x0D \<Longrightarrow> length (rx_line u) + length data \<le> 96 \<Longrightarrow>
   shRxLinePush e data u = u\<lparr>rx_line := rx_line u @ data\<rparr>"
  unfolding shRxLinePush_def
proof (induction data arbitrary: u)
  case (Cons b bs)
  then show ?case by (simp add: rx_push_byte_def)
qed simp

lemma send_ok_text:
  "shContainsFold ''send ok'' ''send ok''" "\<not> shContainsFold ''send ok'' ''send fail''"
  "\<not> shContainsFold ''send ok'' ''RESTART_SENSOR''" "\<not> list_ex (shContainsFold ''send ok'') module_words"
  "\<forall>b\<in>set ''send ok''. b \<noteq> CHR 0x0A \<and> b \<noteq> CHR 0x0D"
  by code_simp+

lemma note_send_ok_frame [simp]:
  "rx_line (note_send_ok u) = rx_line u" "u_rx_cb (note_send_ok u) = u_rx_cb u" "u_task (note_send_ok u) = u_task u"
  "pend q m (note_send_ok u) = pend q m u"
  by (simp_all add: note_send_ok_def Let_def)

lemma note_rx_send_ok:
  assumes "u_step u \<noteq> STEP_CMD"
  shows "shWisunNoteRx e ''send ok'' u =
    note_send_ok (upd_wisun (\<lambda>w. w\<lparr>ws_rx_seen := True, ws_last_line := shCopyPreview ''send ok''\<rparr>) u)"
  unfolding shWisunNoteRx_def Let_def using assms by (simp only: send_ok_text) simp

definition data_mode :: "uart \<Rightarrow> bool" where
  "data_mode u \<longleftrightarrow> u_step u = STEP_DONE \<and> passthrough u \<and> u_source u"

lemma note_send_ok_data_mode:
  "u_step u \<in> {STEP_LEAVE, STEP_DEST, STEP_PASS} \<Longrightarrow> u_source u \<Longrightarrow> data_mode (note_send_ok u)"
  by (auto simp: note_send_ok_def Let_def data_mode_def)

lemma note_send_ok_quiet: "U_ReportStart \<notin> set (u_out u) \<Longrightarrow> U_ReportStart \<notin> set (u_out (note_send_ok u))"
  by (auto simp: note_send_ok_def Let_def emit_def upd_wisun_def show_screen_def)

lemma consume_send_ok:
  assumes st: "u_step u \<in> {STEP_LEAVE, STEP_DEST, STEP_PASS}" and src: "u_source u" and line: "rx_line u = []"
    and out: "u_out u = []"
  shows "data_mode (shUartConsume e ''send ok'' u) \<and> U_ReportStart \<notin> set (u_out (shUartConsume e ''send ok'' u)) \<and>
    (\<forall>q m. pend q m (shUartConsume e ''send ok'' u) = q m)"
proof -
  define v where "v = upd_wisun (\<lambda>w. w\<lparr>ws_rx_seen := True, ws_last_line := shCopyPreview ''send ok''\<rparr>)
    (rx_assemble ''send ok'' u)"
  define w where "w = (note_send_ok v)\<lparr>rx_line := ''send ok''\<rparr>"
  have v: "u_step v = u_step u" "u_source v" "rx_line v = []" "u_out v = []" "\<And>q m. pend q m v = q m"
    using src line out by (simp_all add: v_def rx_assemble_def pend_def uart_timers_def)
  have "shRxLinePush e ''send ok'' (shWisunNoteRx e ''send ok'' (rx_assemble ''send ok'' u)) = w"
    using st by (subst note_rx_send_ok) (auto simp: rx_assemble_def w_def v_def line intro!: trans [OF push_plain])
  then have c: "shUartConsume e ''send ok'' u = (if u_rx_cb w then emit (U_RxCallback ''send ok'') w else w)"
    using note_send_ok_data_mode [of v] st v(1,2)
    by (simp add: shUartConsume_def Let_def data_mode_def w_def)
  have "pend q m (shUartConsume e ''send ok'' u) = q m" for q m
    unfolding c using v(5) by (simp add: w_def)
  moreover have "data_mode (shUartConsume e ''send ok'' u) \<and>
      U_ReportStart \<notin> set (u_out (shUartConsume e ''send ok'' u))"
    unfolding c using note_send_ok_data_mode [of v] note_send_ok_quiet [of v] st v
    by (auto simp: w_def data_mode_def emit_def)
  ultimately show ?thesis by blast
qed

lemma quiet_data_mode:
  assumes "data_mode u"
  shows "data_mode (link_do e (On_Message [] m) (u\<lparr>u_out := []\<rparr>)) \<and>
    U_ReportStart \<notin> set (u_out (link_do e (On_Message [] m) (u\<lparr>u_out := []\<rparr>))) \<and>
    pend q REPORT_TICK (link_do e (On_Message [] m) (u\<lparr>u_out := []\<rparr>)) = q REPORT_TICK"
  using assms
  by (auto simp: data_mode_def SmartHelmet_UartHandleMessage_def shUartDrain_def shWisunOnTimeout_def
      shRxPollArm_def emit_def pend_def uart_timers_def split: message.split helmet_msg.split)

fun silent_event :: "link_env \<times> link_event \<Rightarrow> bool" where
  "silent_event (e, On_Message [] m) = (m \<noteq> Tick REPORT_TICK)"
| "silent_event _ = False"

definition strand_inv :: "uart \<times> pending \<Rightarrow> bool" where
  "strand_inv s \<longleftrightarrow> data_mode (fst s) \<and> U_ReportStart \<notin> set (u_out (fst s)) \<and> snd s REPORT_TICK = 0"

lemma strand_step:
  assumes "strand_inv s" and "silent_event ev"
  shows "strand_inv (timed_step link_handle link_msg ev s)"
proof -
  obtain e m where ev: "ev = (e, On_Message [] m)" and m: "m \<noteq> Tick REPORT_TICK"
    using assms(2) by (cases ev rule: silent_event.cases) auto
  obtain u q where s: "s = (u, q)" by fastforce
  have "deliver m q REPORT_TICK = 0" using m assms(1) by (auto simp: deliver_def strand_inv_def s split: message.split)
  then show ?thesis
    using quiet_data_mode [of u e m "deliver m q"] assms(1)
    by (simp add: strand_inv_def s ev link_step_fst link_step_snd del: link_do.simps)
qed

lemma strand_run: "strand_inv s \<Longrightarrow> list_all silent_event evs \<Longrightarrow> strand_inv (link_run evs s)"
  by (induction evs arbitrary: s) (simp_all add: strand_step)

text \<open>C39: If the acknowledgement of an earlier report arrives while the link is being rejoined (the report timer
  was cancelled when the rejoin began), the dialogue is abandoned in data mode but reporting is not restarted:
  as long as the module sends no further bytes, no message, however many ticks are delivered, posts the report timer or
  starts a report. (A later failure line of the module begins a new rejoin.)\<close>
theorem send_ok_strands_reports:
  assumes "u_step u \<in> {STEP_LEAVE, STEP_DEST, STEP_PASS}" and "u_source u" and "rx_line u = []"
    and "q REPORT_TICK = 0" and "list_all silent_event evs"
  shows "case link_run ((e, On_Message [''send ok''] MESSAGE_MORE_DATA) # evs) (u, q) of (u', q') \<Rightarrow>
    u_step u' = STEP_DONE \<and> SmartHelmet_UartInPassthrough u' \<and> q' REPORT_TICK = 0 \<and> U_ReportStart \<notin> set (u_out u')"
proof -
  let ?s = "timed_step link_handle link_msg (e, On_Message [''send ok''] MESSAGE_MORE_DATA) (u, q)"
  have "link_do e (On_Message [''send ok''] MESSAGE_MORE_DATA) (u\<lparr>u_out := []\<rparr>) =
      shUartConsume e ''send ok'' (u\<lparr>u_out := []\<rparr>)"
    using assms(2) by (simp add: SmartHelmet_UartHandleMessage_def shUartDrain_def)
  then have "strand_inv ?s"
    using consume_send_ok [of "u\<lparr>u_out := []\<rparr>" e] assms(1-4)
    by (simp add: strand_inv_def link_step_fst link_step_snd deliver_def del: link_do.simps)
  then have "strand_inv (link_run evs ?s)" using assms(5) by (rule strand_run)
  then show ?thesis
    by (auto simp: strand_inv_def data_mode_def SmartHelmet_UartInPassthrough_def)
qed

theorem send_ok_strands_reports_witness:
  "case link_run ((silent_env, On_Message [''send ok''] MESSAGE_MORE_DATA) #
        replicate 100 (silent_env, On_Message [] (Tick WISUN_RX_POLL)))
      (SmartHelmet_UartRejoin silent_env (open_link\<lparr>u_step := STEP_DONE, passthrough := True\<rparr>), \<lambda>_. 0) of (u', q') \<Rightarrow>
    u_step u' = STEP_DONE \<and> SmartHelmet_UartInPassthrough u' \<and> q' REPORT_TICK = 0 \<and> U_ReportStart \<notin> set (u_out u')"
  by (rule send_ok_strands_reports)
    (simp_all add: SmartHelmet_UartRejoin_def Let_def leave_to_def open_link_def uart_boot_def list_all_iff)

end
