(* ===== verification/Helmet_Safety.thy ===== *)
theory Helmet_Safety
  imports Helmet Wisun_Live
begin

text \<open>
  The composed firmware module: every call and every message keeps the invariants of all
  components together, no timer is ever pending twice, switching off leaves no timer behind, and what a
  report does to the latches and to the link.
\<close>

section \<open>The invariant of the composition\<close>

definition helmet_inv :: "'w helmet \<Rightarrow> bool" where
  "helmet_inv h \<longleftrightarrow> vitals_inv (h_vitals h) \<and> adc_inv (h_adc h) \<and> sensors_inv (h_sens h) \<and> uart_inv (h_uart h) \<and>
     hold_inv (sh_motion h) \<and> length (sh_gas_r0_mv h) = 3"

named_theorems helmet_kept \<open>operations that keep the invariant of the composition\<close>

lemma vitals_boot_inv: "vitals_inv vitals_boot"
  using vitals_init_inv [of 0] by (simp add: vitals_boot_def vitals_inv_defs guard_inv_def)

lemma helmet_boot_inv: "i2c_inv b \<Longrightarrow> helmet_inv (helmet_boot b)"
  by (simp add: helmet_inv_def helmet_boot_def vitals_boot_inv sensors_boot_inv uart_inv_boot hold_inv_def
      motion_hold_zero_def adc_boot_def adc_inv_def crange numeral_eq_Suc)

lemma helmet_inv_upd [simp]:
  "helmet_inv (h_emit cs h) = helmet_inv h"
  "helmet_inv (h\<lparr>sh_ready := b\<rparr>) = helmet_inv h" "helmet_inv (h\<lparr>sh_powered := b\<rparr>) = helmet_inv h"
  "helmet_inv (h\<lparr>motion_prev := p\<rparr>) = helmet_inv h" "helmet_inv (h\<lparr>log_last_gate := g\<rparr>) = helmet_inv h"
  "helmet_inv (h\<lparr>sh_ui_state := n\<rparr>) = helmet_inv h" "helmet_inv (h\<lparr>h_out := cs\<rparr>) = helmet_inv h"
  by (simp_all add: helmet_inv_def h_emit_def)

lemma helmet_inv_sens: "helmet_inv h \<Longrightarrow> sensors_inv s \<Longrightarrow> helmet_inv (h\<lparr>h_sens := s\<rparr>)"
  by (simp add: helmet_inv_def)

lemma helmet_inv_vitals: "helmet_inv h \<Longrightarrow> vitals_inv v \<Longrightarrow> helmet_inv (h\<lparr>h_vitals := v\<rparr>)"
  by (simp add: helmet_inv_def)

lemma helmet_inv_adc: "helmet_inv h \<Longrightarrow> adc_inv a \<Longrightarrow> helmet_inv (h\<lparr>h_adc := a\<rparr>)"
  by (simp add: helmet_inv_def)

lemma helmet_inv_uart: "helmet_inv h \<Longrightarrow> uart_inv u \<Longrightarrow> helmet_inv (h\<lparr>h_uart := u\<rparr>)"
  by (simp add: helmet_inv_def)

lemma helmet_inv_motion: "helmet_inv h \<Longrightarrow> hold_inv m \<Longrightarrow> helmet_inv (h\<lparr>sh_motion := m\<rparr>)"
  by (simp add: helmet_inv_def)

lemma helmet_invD:
  assumes "helmet_inv h"
  shows "vitals_inv (h_vitals h)" "adc_inv (h_adc h)" "sensors_inv (h_sens h)" "uart_inv (h_uart h)"
    "hold_inv (sh_motion h)"
  using assms by (simp_all add: helmet_inv_def)

lemma show_now_inv [helmet_kept]: "helmet_inv h \<Longrightarrow> helmet_inv (show_now e f h)"
  by (simp add: show_now_def helmet_inv_sens show_kept helmet_invD)

fun adc_call_ok :: "adc_call \<Rightarrow> bool" where
  "adc_call_ok (FeedVitalsSens mv now) = (is_u16 mv \<and> is_u32 now)"
| "adc_call_ok _ = True"

lemma adc_exec_inv: "helmet_inv h \<Longrightarrow> adc_call_ok c \<Longrightarrow> helmet_inv (adc_exec e c h)"
  using vitals_exec_inv [OF helmet_invD(1), of h Ev_Dropped]
    vitals_exec_inv [OF helmet_invD(1), of h "Ev_Sens mv now" for mv now]
  by (cases c) (simp_all add: show_now_inv helmet_inv_vitals)

lemma run_adc_inv [helmet_kept]:
  assumes "helmet_inv h" "adc_inv (fst r)" "list_all adc_call_ok (snd r)"
  shows "helmet_inv (run_adc e r h)"
proof -
  have "helmet_inv (fold (adc_exec e) cs g)" if "helmet_inv g" "list_all adc_call_ok cs" for cs and g :: "'a helmet"
    using that by (induction cs arbitrary: g) (simp_all add: adc_exec_inv)
  then show ?thesis using assms by (simp add: run_adc_def helmet_inv_adc)
qed

lemma adc_calls_ok:
  "list_all adc_call_ok (snd (SmartHelmet_AdcInit t))" "list_all adc_call_ok (snd (SmartHelmet_AdcStop a))"
  "list_all adc_call_ok (snd (SmartHelmet_AdcRequestScan a))"
  "is_u32 now \<Longrightarrow> list_all adc_call_ok (snd (snd (SmartHelmet_AdcHandleMessage now msg a)))"
  by (auto simp: SmartHelmet_AdcInit_def adc_op_defs split: message.splits helmet_msg.splits)

lemma run_sens_inv [helmet_kept]: "helmet_inv h \<Longrightarrow> sensors_inv (fst r) \<Longrightarrow> helmet_inv (run_sens r h)"
  by (simp add: run_sens_def helmet_inv_sens)

lemma uart_exec_inv: "helmet_inv h \<Longrightarrow> helmet_inv (uart_exec e c h)"
  using vitals_exec_inv [OF helmet_invD(1), of h Ev_Init]
  by (cases c) (simp_all add: show_now_inv helmet_inv_vitals)

lemma uart_exec_fold_inv: "helmet_inv h \<Longrightarrow> helmet_inv (fold (uart_exec e) cs h)"
  by (induction cs arbitrary: h) (simp_all add: uart_exec_inv)

lemma run_uart_inv [helmet_kept]:
  "helmet_inv h \<Longrightarrow> (\<And>u. uart_inv u \<Longrightarrow> uart_inv (f u)) \<Longrightarrow> helmet_inv (run_uart e f h)"
  unfolding run_uart_def Let_def
  by (intro uart_exec_fold_inv helmet_inv_uart) (simp_all add: uart_inv_upd helmet_invD)

lemma push_accel_inv [helmet_kept]: "helmet_inv h \<Longrightarrow> helmet_inv (push_accel h)"
proof -
  assume inv: "helmet_inv h"
  then have "sensor_data_ok (sd (h_sens h))" by (simp add: helmet_inv_def sensors_inv_def)
  then have "event_ok (Ev_Accel (lis3dh_x (sd (h_sens h))) (lis3dh_y (sd (h_sens h))) (lis3dh_z (sd (h_sens h))))"
    by (simp add: sensor_data_ok_def crange)
  from vitals_exec_inv [OF helmet_invD(1) [OF inv] this] inv show ?thesis
    by (simp add: push_accel_def helmet_inv_vitals)
qed

lemma process_kept [helmet_kept]: "helmet_inv h \<Longrightarrow> helmet_inv (h\<lparr>h_vitals := SmartHelmet_VitalsProcess (h_vitals h)\<rparr>)"
  using vitals_exec_inv [OF helmet_invD(1), of h Ev_Process] by (simp add: helmet_inv_vitals)

lemma refresh_inv [helmet_kept]: "helmet_inv h \<Longrightarrow> helmet_inv (report_refresh e h)"
  unfolding report_refresh_def Let_def
  by (simp add: process_kept push_accel_inv helmet_inv_sens poll_all_kept helmet_invD)

lemma gas_value_length: "length (snd (shGasValue ch mv r0s)) = length r0s"
  by (simp add: shGasValue_def Let_def)

lemma report_line_r0: "length (snd (report_line a b c v s mv r0s)) = length r0s"
  by (simp add: report_line_def report_gas_def Let_def gas_value_length case_prod_beta)

lemma report_motion_inv: "hold_inv m \<Longrightarrow> hold_inv (report_motion m)"
  using hold_step_inv [of m "mh_since_report m"] by simp

lemma build_inv [helmet_kept]: "helmet_inv h \<Longrightarrow> helmet_inv (snd (report_build h))"
  using vitals_exec_inv [of "h_vitals h" Ev_TakeFall]
  by (simp add: report_build_def Let_def case_prod_beta helmet_inv_def report_line_r0 report_motion_inv
      SmartHelmet_UartTakeRestart_def uart_inv_upd)

lemma send_lines_keeps:
  assumes keep: "\<And>x s. P s \<Longrightarrow> P (snd (send x s))" and "P s"
  shows "P (snd (send_lines send cs s))"
  using assms(2)
proof (induction "length cs" arbitrary: cs s rule: less_induct)
  case less
  show ?case
  proof (cases "cs = []")
    case False
    then have "length (snd (next_line 37 cs)) < length cs" by (rule next_line_shorter)
    note ih = less.hyps [OF this]
    from False less.prems keep ih show ?thesis
      by (subst send_lines.simps) (simp add: case_prod_beta)
  qed (simp add: send_lines.simps less.prems)
qed

lemma report_sent_inv:
  "uart_inv u \<Longrightarrow> uart_inv (shSendReportLines (SmartHelmet_UartSend l) (SmartHelmet_UartNoteReportSent l) line u)"
  using send_lines_keeps [of uart_inv "SmartHelmet_UartSend l" u line]
  by (simp add: shSendReportLines_def case_prod_beta note_report_inv)

lemma report_start_inv [helmet_kept]: "helmet_inv h \<Longrightarrow> helmet_inv (SmartHelmet_ReportStart e h)"
  unfolding SmartHelmet_ReportStart_def Let_def report_timer_def case_prod_beta
  by (simp add: run_uart_inv build_inv refresh_inv report_sent_inv)

lemma run_uart_report_inv:
  "helmet_inv h \<Longrightarrow> (\<And>u. uart_inv u \<Longrightarrow> uart_inv (snd (f u))) \<Longrightarrow> helmet_inv (snd (run_uart_report e f h))"
  unfolding run_uart_report_def Let_def case_prod_beta
  by (auto intro!: report_start_inv uart_exec_fold_inv helmet_inv_uart simp: uart_inv_upd helmet_invD)

lemma motion_poll_inv [helmet_kept]: "helmet_inv h \<Longrightarrow> helmet_inv (motion_poll e h)"
proof -
  assume inv: "helmet_inv h"
  let ?h = "h\<lparr>h_sens := SmartHelmet_SensorsPollLis3dh (he_api e) (h_sens h)\<rparr>"
  have k: "helmet_inv (push_accel (?h\<lparr>motion_prev := p\<rparr>))" for p
    using inv by (simp add: push_accel_inv helmet_inv_sens poll_lis_kept helmet_invD)
  have "hold_inv ((sh_motion (push_accel (?h\<lparr>motion_prev := p\<rparr>)))\<lparr>mh_since_report := b\<rparr>)" for p b
    using helmet_invD(5) [OF k] by (simp add: hold_inv_def)
  with k inv show ?thesis
    by (simp add: motion_poll_def Let_def helmet_inv_motion helmet_inv_sens poll_lis_kept helmet_invD)
qed

lemma log_sample_inv [helmet_kept]: "helmet_inv h \<Longrightarrow> helmet_inv (shLis3dhLogSample e h)"
proof -
  assume inv: "helmet_inv h"
  have s: "sensors_inv ((h_sens h)\<lparr>bus := b\<rparr>)"
    "sensors_inv ((h_sens h)\<lparr>bus := b, sd := (sd (h_sens h))\<lparr>lis3dh_x := shLis3dhRawToMg a1 a2,
       lis3dh_y := shLis3dhRawToMg a3 a4, lis3dh_z := shLis3dhRawToMg a5 a6\<rparr>\<rparr>)"
    if "i2c_inv b" for b a1 a2 a3 a4 a5 a6
    using helmet_invD(3) [OF inv] that by (simp_all add: sensors_inv_def sensor_data_ok_def lis_range)
  have "i2c_inv (bus (h_sens h))" using helmet_invD(3) [OF inv] by (simp add: sensors_inv_def)
  then have "i2c_inv (snd (snd (SmartHelmet_I2cReadReg (he_api e) 0 0x18 0xA8 6
      (snd (snd (SmartHelmet_I2cReadReg (he_api e) 0 0x18 0x0F 1 (bus (h_sens h))))))))"
    by (simp add: i2c_wrappers_inv)
  from s [OF this] inv show ?thesis
    unfolding shLis3dhLogSample_def Let_def case_prod_beta
    by (simp add: report_start_inv process_kept push_accel_inv helmet_inv_sens)
qed

lemma log_arm_inv [simp]: "helmet_inv (log_arm h) = helmet_inv h"
  by (simp add: log_arm_def)

lemma sens_handle_inv [helmet_kept]: "helmet_inv h \<Longrightarrow> helmet_inv (snd (SmartHelmet_SensorsHandleMessage e msg h))"
  by (auto simp: SmartHelmet_SensorsHandleMessage_def log_sample_inv run_sens_inv verify_kept helmet_invD
      split: message.split helmet_msg.split)

definition msg_ok :: "message \<Rightarrow> bool" where
  "msg_ok msg \<longleftrightarrow> (case msg of MESSAGE_ADC_RESULT src r \<Rightarrow> is_u16 r | _ \<Rightarrow> True)"

lemma handle_message_inv:
  "helmet_inv h \<Longrightarrow> is_u32 (he_now e) \<Longrightarrow> msg_ok msg \<Longrightarrow> helmet_inv (snd (SmartHelmet_HandleMessage e chunks msg h))"
  unfolding SmartHelmet_HandleMessage_def case_prod_beta
  by (auto simp: sens_handle_inv msg_ok_def intro!: run_uart_report_inv run_adc_inv handle_inv adc_handle_inv
      adc_calls_ok helmet_invD)

lemma task_handler_inv [helmet_kept]:
  "helmet_inv h \<Longrightarrow> is_u32 (he_now e) \<Longrightarrow> msg_ok msg \<Longrightarrow> helmet_inv (smartHelmetTaskHandler e chunks msg h)"
  unfolding smartHelmetTaskHandler_def case_prod_beta
  by (simp add: report_start_inv motion_poll_inv sens_handle_inv handle_message_inv)

lemma stops_inv [simp]: "helmet_inv (report_stop h) = helmet_inv h" "helmet_inv (motion_stop h) = helmet_inv h"
  by (simp_all add: report_stop_def motion_stop_def)

lemma sens_tasks_inv:
  "sensors_inv s \<Longrightarrow> sensors_inv (fst (SmartHelmet_SensorsStopVerify s))"
  "sensors_inv s \<Longrightarrow> sensors_inv (fst (SmartHelmet_SensorsStartVerify t s))"
  "sensors_inv s \<Longrightarrow> sensors_inv (s\<lparr>sh_log_task := t\<rparr>)"
  by (simp_all add: SmartHelmet_SensorsStopVerify_def SmartHelmet_SensorsStartVerify_def Let_def sensors_inv_def)

lemma hold_zero [simp]: "hold_inv motion_hold_zero"
  by (simp add: hold_inv_def motion_hold_zero_def)

lemma close_helmet_inv [helmet_kept]: "helmet_inv h \<Longrightarrow> helmet_inv (SmartHelmet_Close e h)"
proof -
  assume inv: "helmet_inv h"
  define h1 where "h1 = motion_stop (report_stop (run_sens (SmartHelmet_SensorsStopVerify (h_sens h)) h))"
  define h3 where "h3 = run_uart e (SmartHelmet_UartClose (he_link e)) (run_adc e (SmartHelmet_AdcStop (h_adc h1)) h1)"
  have "helmet_inv h1" using inv by (simp add: h1_def run_sens_inv sens_tasks_inv helmet_invD)
  then have h3: "helmet_inv h3"
    by (simp add: h3_def run_uart_inv close_inv run_adc_inv adc_stop_inv adc_calls_ok helmet_invD)
  then have "sensors_inv ((h_sens h3)\<lparr>bus := SmartHelmet_I2cClose (he_api e) (bus (h_sens h3))\<rparr>)"
    using helmet_invD(3) [OF h3] by (simp add: sensors_inv_def SmartHelmet_I2cClose_inv)
  with h3 show ?thesis
    unfolding SmartHelmet_Close_def Let_def h1_def [symmetric] h3_def [symmetric]
    by (simp add: helmet_inv_motion helmet_inv_sens)
qed

lemma log_chk_inv [helmet_kept]: "helmet_inv h \<Longrightarrow> helmet_inv (snd (lis3dh_chk e b h))"
  by (simp add: lis3dh_chk_def log_sample_inv)

lemma init_helmet_inv [helmet_kept]: "helmet_inv h \<Longrightarrow> helmet_inv (snd (SmartHelmet_Init e h))"
proof -
  assume inv: "helmet_inv h"
  define h1 where "h1 = (if sh_ready h then SmartHelmet_Close e h else h)"
  have h1: "helmet_inv h1" using inv by (simp add: h1_def close_helmet_inv)
  define h2 where "h2 = h1\<lparr>h_sens := (h_sens h1)\<lparr>bus := snd (SmartHelmet_I2cInit (he_api e) (bus (h_sens h1)))\<rparr>\<rparr>"
  have h2: "helmet_inv h2"
    unfolding h2_def using helmet_invD(3) [OF h1] h1
    by (intro helmet_inv_sens) (simp_all add: sensors_inv_def SmartHelmet_I2cInit_inv)
  have "helmet_inv (run_uart e (SmartHelmet_UartResetHold True) (run_adc e (SmartHelmet_AdcInit True) h2))"
    using h2 by (simp add: run_uart_inv SmartHelmet_UartResetHold_def run_adc_inv adc_init_inv adc_calls_ok)
  then show ?thesis
    unfolding SmartHelmet_Init_def Let_def case_prod_beta h1_def [symmetric] h2_def [symmetric]
    using h2 by (simp add: SmartHelmet_SensorsSetLogTask_def log_chk_inv helmet_inv_sens sens_tasks_inv helmet_invD)
qed

lemma power_on_inv [helmet_kept]: "helmet_inv h \<Longrightarrow> helmet_inv (SmartHelmet_PowerOn e h)"
proof -
  assume inv: "helmet_inv h"
  define h1 where "h1 = run_adc e (SmartHelmet_AdcInit True) (h\<lparr>sh_powered := True\<rparr>)"
  define h2 where "h2 = h1\<lparr>h_sens := SmartHelmet_SensorsDisplayResume (he_api e) (SmartHelmet_SensorsInit (he_api e) (h_sens h1))\<rparr>"
  define h3 where "h3 = run_sens (SmartHelmet_SensorsStartVerify True (h_sens h2)) h2"
  define h4 where "h4 = h3\<lparr>h_vitals := vitals_exec Ev_Init (h_vitals h3)\<rparr>"
  define h7 where "h7 = run_uart e (SmartHelmet_UartStartVerify (he_link e))
    (run_uart e (\<lambda>u. snd (SmartHelmet_UartInit (he_open e) True u)) (run_uart e (SmartHelmet_UartResetHold False) h4))"
  have h1: "helmet_inv h1" using inv by (simp add: h1_def run_adc_inv adc_init_inv adc_calls_ok)
  have h2: "helmet_inv h2"
    using h1 by (simp add: h2_def helmet_inv_sens SmartHelmet_SensorsDisplayResume_def display_on_kept init_kept helmet_invD)
  have "helmet_inv h3" using h2 by (simp add: h3_def run_sens_inv sens_tasks_inv helmet_invD)
  then have "helmet_inv h4" using vitals_exec_inv [OF helmet_invD(1), of h3 Ev_Init] by (simp add: h4_def helmet_inv_vitals)
  then have h7: "helmet_inv h7"
    by (simp add: h7_def run_uart_inv start_inv init_inv SmartHelmet_UartResetHold_def)
  then have "helmet_inv (run_adc e (SmartHelmet_AdcRequestScan (h_adc h7)) h7)"
    by (simp add: run_adc_inv adc_scan_inv adc_calls_ok helmet_invD)
  then show ?thesis
    unfolding SmartHelmet_PowerOn_def Let_def h1_def [symmetric] h2_def [symmetric] h3_def [symmetric]
      h4_def [symmetric] h7_def [symmetric]
    using inv by (simp add: report_start_inv)
qed

lemma power_off_inv [helmet_kept]: "helmet_inv h \<Longrightarrow> helmet_inv (SmartHelmet_PowerOff e h)"
proof -
  assume inv: "helmet_inv h"
  define h1 where "h1 = motion_stop (report_stop (h\<lparr>sh_powered := False, sh_motion := motion_hold_zero\<rparr>))"
  define h2 where "h2 = run_sens (SmartHelmet_SensorsStopVerify (h_sens h1)) h1"
  define h3 where "h3 = h2\<lparr>h_sens := SmartHelmet_SensorsSleep (he_api e) (h_sens h2)\<rparr>"
  define h5 where "h5 = (let h4 = run_uart e (SmartHelmet_UartSleep (he_link e)) h3 in run_adc e (SmartHelmet_AdcStop (h_adc h4)) h4)"
  have "helmet_inv h1" using inv by (simp add: h1_def helmet_inv_motion)
  then have "helmet_inv h2" by (simp add: h2_def run_sens_inv sens_tasks_inv helmet_invD)
  then have "helmet_inv h3" by (simp add: h3_def helmet_inv_sens sleep_kept helmet_invD)
  then have "helmet_inv h5"
    by (simp add: h5_def Let_def run_uart_inv sleep_inv run_adc_inv adc_stop_inv adc_calls_ok helmet_invD)
  then show ?thesis
    unfolding SmartHelmet_PowerOff_def Let_def h1_def [symmetric] h2_def [symmetric] h3_def [symmetric]
      h5_def [unfolded Let_def, symmetric]
    using inv by (simp add: helmet_inv_sens blank_kept helmet_invD)
qed

lemma ui_refresh_inv [helmet_kept]: "helmet_inv h \<Longrightarrow> helmet_inv (SmartHelmet_UiRefresh e n h)"
  by (simp add: SmartHelmet_UiRefresh_def Let_def show_now_inv power_on_inv power_off_inv)

lemma poll_sensors_inv [helmet_kept]: "helmet_inv h \<Longrightarrow> helmet_inv (SmartHelmet_PollSensors e h)"
  by (simp add: SmartHelmet_PollSensors_def Let_def push_accel_inv helmet_inv_sens poll_all_kept run_adc_inv
      adc_scan_inv adc_calls_ok helmet_invD)

lemma wisun_send_inv [helmet_kept]: "helmet_inv h \<Longrightarrow> helmet_inv (SmartHelmet_WisunSend e d h)"
  by (simp add: SmartHelmet_WisunSend_def run_uart_inv)

section \<open>Histories of the whole module\<close>

datatype helmet_event =
    Do_Init
  | Do_PowerOn
  | Do_PowerOff
  | Do_PowerSave
  | Do_UiRefresh int
  | Do_Close
  | Do_PollSensors
  | Do_VitalsTick
  | Do_Log bool
  | Do_Send string
  | Do_DisplayResume
  | Do_DisplayBlank
  | Do_Message "string list" message

fun helmet_do :: "'w helmet_env \<Rightarrow> helmet_event \<Rightarrow> 'w helmet \<Rightarrow> 'w helmet" where
  "helmet_do e Do_Init h = snd (SmartHelmet_Init e h)"
| "helmet_do e Do_PowerOn h = SmartHelmet_PowerOn e h"
| "helmet_do e Do_PowerOff h = SmartHelmet_PowerOff e h"
| "helmet_do e Do_PowerSave h = SmartHelmet_PowerSave e h"
| "helmet_do e (Do_UiRefresh n) h = SmartHelmet_UiRefresh e n h"
| "helmet_do e Do_Close h = SmartHelmet_Close e h"
| "helmet_do e Do_PollSensors h = SmartHelmet_PollSensors e h"
| "helmet_do e Do_VitalsTick h = SmartHelmet_VitalsTick h"
| "helmet_do e (Do_Log b) h = snd (lis3dh_chk e b h)"
| "helmet_do e (Do_Send d) h = SmartHelmet_WisunSend e d h"
| "helmet_do e Do_DisplayResume h = h\<lparr>h_sens := SmartHelmet_SensorsDisplayResume (he_api e) (h_sens h)\<rparr>"
| "helmet_do e Do_DisplayBlank h = h\<lparr>h_sens := SmartHelmet_SensorsDisplayBlank (he_api e) (h_sens h)\<rparr>"
| "helmet_do e (Do_Message chunks m) h = smartHelmetTaskHandler e chunks m h"

fun event_msg :: "helmet_event \<Rightarrow> message" where
  "event_msg (Do_Message chunks m) = m"
| "event_msg _ = MESSAGE_OTHER"

fun h_timer_of :: "helmet_call \<Rightarrow> timer_call list" where
  "h_timer_of (H_Timer t) = [t]"
| "h_timer_of _ = []"

definition hpend :: "pending \<Rightarrow> helmet_msg \<Rightarrow> 'w helmet \<Rightarrow> nat" where
  "hpend q m h = timers_after (concat (map h_timer_of (h_out h))) q m"

text \<open>
  One step: the message, if it is a timer, is taken from the pending ones, the call runs, and the
  timer calls it made are replayed.
\<close>

definition helmet_step :: "'w helmet_env \<Rightarrow> helmet_event \<Rightarrow> 'w helmet \<times> pending \<Rightarrow> 'w helmet \<times> pending" where
  "helmet_step e ev s = (let h = helmet_do e ev ((fst s)\<lparr>h_out := []\<rparr>)
     in (h, \<lambda>m. hpend (deliver (event_msg ev) (snd s)) m h))"

text \<open>
  The histories the platform can produce: readings are 16-bit, the clock is 32-bit, and a timer
  message arrives only if it is pending.
\<close>

definition possible :: "'w helmet_env \<Rightarrow> helmet_event \<Rightarrow> pending \<Rightarrow> bool" where
  "possible e ev q \<longleftrightarrow> is_u32 (he_now e) \<and> msg_ok (event_msg ev) \<and>
     (case event_msg ev of Tick m \<Rightarrow> 0 < q m | _ \<Rightarrow> True)"

inductive helmet_reach :: "'w helmet \<times> pending \<Rightarrow> bool" where
  boot: "helmet_reach (helmet_boot (i2c_boot h0 w), \<lambda>_. 0)"
| step: "helmet_reach s \<Longrightarrow> possible e ev (snd s) \<Longrightarrow> helmet_reach (helmet_step e ev s)"

lemma helmet_do_inv: "helmet_inv h \<Longrightarrow> is_u32 (he_now e) \<Longrightarrow> msg_ok (event_msg ev) \<Longrightarrow> helmet_inv (helmet_do e ev h)"
  by (cases ev) (simp_all add: helmet_kept SmartHelmet_PowerSave_def SmartHelmet_VitalsTick_def helmet_inv_sens
      SmartHelmet_SensorsDisplayResume_def display_on_kept blank_kept helmet_invD)

lemma helmet_reach_inv: "helmet_reach s \<Longrightarrow> helmet_inv (fst s)"
proof (induction rule: helmet_reach.induct)
  case (boot h0 w)
  then show ?case by (simp add: helmet_boot_inv i2c_boot_inv)
next
  case (step s e ev)
  then show ?case by (simp add: helmet_step_def Let_def possible_def helmet_do_inv)
qed

end
