(* ===== verification/Helmet_Timers.thy ===== *)
theory Helmet_Timers
  imports Helmet_Safety
begin

text \<open>
  The timers of the whole module, over all histories: no timer is ever pending twice, the motion
  poll is pending exactly while the module is powered, the link check whenever a command dialogue
  is running; and switching off leaves no timer pending.
\<close>

section \<open>The link's share\<close>

lemma pend_task [simp]:
  "pend q m (u\<lparr>u_task := t\<rparr>) = pend q m u" "pend q m (u\<lparr>u_sink := a\<rparr>) = pend q m u"
  "pend q m (u\<lparr>u_source := b\<rparr>) = pend q m u"
  by (simp_all add: pend_def uart_timers_def)

text \<open>
  \<open>link_ok P u\<close>: the pending timers \<open>P\<close> fit the state \<open>u\<close> of the link. Before the module was ever
  powered the link has no task and is inert.
\<close>

definition link_ok :: "pending \<Rightarrow> uart \<Rightarrow> bool" where
  "link_ok P u \<longleftrightarrow> P WISUN_RX_POLL \<le> 1 \<and> P REPORT_TICK \<le> 1 \<and> P WISUN_LINK_CHECK \<le> 1 \<and>
     (0 < P WISUN_RX_POLL \<longrightarrow> u_sink u \<and> u_source u) \<and>
     (u_task u \<longrightarrow> \<not> settled u \<longrightarrow> P WISUN_LINK_CHECK = 1) \<and>
     (\<not> u_task u \<longrightarrow> \<not> u_sink u \<and> \<not> u_source u \<and> \<not> passthrough u \<and> u_step u = STEP_IDLE \<and>
        P WISUN_LINK_CHECK = 0)"

abbreviation after :: "pending \<Rightarrow> uart \<Rightarrow> pending" where
  "after P u \<equiv> (\<lambda>m. pend P m u)"

lemma link_ok_quiet:
  assumes "link_ok P u" and "\<And>m. pend P m v = P m"
    and "u_sink v = u_sink u" "u_source v = u_source u" "u_task v = u_task u" "u_step v = u_step u"
    and "passthrough v \<longrightarrow> passthrough u"
  shows "link_ok (after P v) v"
  using assms by (auto simp: link_ok_def settled_def)

lemma link_ok_live:
  assumes "untouched P WISUN_RX_POLL u v" "report_once P v" "live_task P v"
    and "pend P WISUN_RX_POLL u \<le> 1" "0 < pend P WISUN_RX_POLL u \<longrightarrow> u_sink u \<and> u_source u"
  shows "link_ok (after P v) v"
  using assms by (auto simp: link_ok_def untouched_def report_once_def live_task_def link_live_def)

lemma link_ok_start:
  assumes "link_ok P u" and "u_task u"
  shows "live_task P (u\<lparr>u_out := []\<rparr>) \<and> report_once P (u\<lparr>u_out := []\<rparr>)"
  using assms by (auto simp: link_ok_def live_task_def link_live_def report_once_def)

lemma send_keeps_pend:
  "pend q m (snd (send_lines (SmartHelmet_UartSend l) line u)) = pend q m u"
  by (rule send_lines_keeps [where P = "\<lambda>v. pend q m v = pend q m u"]) simp_all

lemma send_keeps_flags:
  "u_task (snd (send_lines (SmartHelmet_UartSend l) line u)) = u_task u \<and>
   u_sink (snd (send_lines (SmartHelmet_UartSend l) line u)) = u_sink u \<and>
   u_source (snd (send_lines (SmartHelmet_UartSend l) line u)) = u_source u \<and>
   settled (snd (send_lines (SmartHelmet_UartSend l) line u)) = settled u"
  by (rule send_lines_keeps [where P = "\<lambda>v. u_task v = u_task u \<and> u_sink v = u_sink u \<and> u_source v = u_source u \<and>
      settled v = settled u"]) simp_all

lemma report_sent_ok:
  assumes "link_ok P u" and "passthrough u"
    and v_def: "v = shSendReportLines (SmartHelmet_UartSend l) (SmartHelmet_UartNoteReportSent l) line (u\<lparr>u_out := []\<rparr>)"
  shows "link_ok (after P v) v"
    and "m \<noteq> WISUN_LINK_CHECK \<Longrightarrow> m \<noteq> REPORT_TICK \<Longrightarrow> pend P m v = P m"
proof -
  have task: "u_task u" using assms(1,2) by (auto simp: link_ok_def)
  define w where "w = snd (send_lines (SmartHelmet_UartSend l) line (u\<lparr>u_out := []\<rparr>))"
  define ok where "ok = fst (send_lines (SmartHelmet_UartSend l) line (u\<lparr>u_out := []\<rparr>))"
  have v: "v = SmartHelmet_UartNoteReportSent l ok w"
    by (simp add: v_def w_def ok_def shSendReportLines_def case_prod_beta)
  have w: "live_task P w" "report_once P w" "pend P m w = P m" "u_sink w = u_sink u" "u_source w = u_source u" for m
    using link_ok_start [OF assms(1) task] send_keeps_pend [of P _ l line "u\<lparr>u_out := []\<rparr>"]
      send_keeps_flags [of l line "u\<lparr>u_out := []\<rparr>"]
    by (simp_all add: w_def live_task_def link_live_def report_once_def)
  show "link_ok (after P v) v"
    unfolding v using note_report_untouched [of P WISUN_RX_POLL w l ok]
    by (rule link_ok_live) (use w assms(1) in \<open>simp_all add: note_report_once note_report_live link_ok_def\<close>)
  show "m \<noteq> WISUN_LINK_CHECK \<Longrightarrow> m \<noteq> REPORT_TICK \<Longrightarrow> pend P m v = P m"
    using note_report_untouched [of P m w l ok] w(3) by (simp add: v untouched_def)
qed

text \<open>A message for the link, delivered to it.\<close>

lemma handle_ok:
  assumes ok: "link_ok P u" and p: "case msg of Tick m \<Rightarrow> 0 < P m | _ \<Rightarrow> True"
    and v_def: "v = snd (SmartHelmet_UartHandleMessage l chunks msg (u\<lparr>u_out := []\<rparr>))"
  shows "link_ok (after (deliver msg P) v) v"
    and "m \<notin> {WISUN_LINK_CHECK, WISUN_RX_POLL, REPORT_TICK} \<Longrightarrow> pend (deliver msg P) m v = deliver msg P m"
proof -
  let ?u = "u\<lparr>u_out := []\<rparr>"
  let ?P = "deliver msg P"
  have vdo: "v = link_do l (On_Message chunks msg) ?u" by (simp add: v_def)
  have other: "link_ok (after ?P v) v" if "\<not> u_task u"
  proof -
    have "v = ?u" "msg \<noteq> Tick WISUN_RX_POLL" "msg \<noteq> Tick WISUN_LINK_CHECK"
      using that ok p by (auto simp: v_def link_ok_def SmartHelmet_UartHandleMessage_def shUartDrain_def
          split: message.split helmet_msg.split)
    then show ?thesis
      using ok by (auto simp: link_ok_def settled_def deliver_def split: message.split)
  qed
  have live: "link_ok (after ?P v) v" if task: "u_task u"
  proof -
    have l: "live_task ?P v"
      unfolding vdo using link_do_live [of ?u P l "On_Message chunks msg"] task ok by (simp add: link_ok_def)
    have r0: "report_once ?P ?u" using ok by (auto simp: report_once_def link_ok_def deliver_def split: message.split)
    then have r: "report_once ?P v"
      using drain_once [OF r0, of l chunks] timeout_once [OF r0, of l]
      by (auto simp: v_def SmartHelmet_UartHandleMessage_def split: message.split helmet_msg.split)
    show ?thesis
    proof (cases "msg = Tick WISUN_RX_POLL")
      case True
      have "untouched ?P WISUN_RX_POLL ?u (shUartDrain l chunks ?u)" by (rule drain_untouched)
      moreover have "u_sink u \<and> u_source u" using ok p True by (simp add: link_ok_def)
      ultimately show ?thesis
        using l r task unfolding link_ok_def
        by (simp add: v_def True SmartHelmet_UartHandleMessage_def untouched_def report_once_def live_task_def link_live_def)
          (simp add: shRxPollArm_def)
    next
      case False
      then have "untouched ?P WISUN_RX_POLL ?u v"
        unfolding vdo by (intro link_do_poll) simp
      moreover have "pend ?P WISUN_RX_POLL ?u = P WISUN_RX_POLL"
        using False by (auto simp: deliver_def split: message.split)
      ultimately show ?thesis
        using link_ok_live [of ?P ?u v] l r ok unfolding link_ok_def [of P u] by simp
    qed
  qed
  show "link_ok (after ?P v) v" using live other by blast
  show "pend ?P m v = ?P m" if m: "m \<notin> {WISUN_LINK_CHECK, WISUN_RX_POLL, REPORT_TICK}"
    using m drain_untouched [of ?P m ?u l chunks] timeout_untouched [of ?P m ?u l]
    by (auto simp: v_def SmartHelmet_UartHandleMessage_def untouched_def split: message.split helmet_msg.split)
qed


lemma uart_init_ok:
  assumes ok: "link_ok P u" and v_def: "v = snd (SmartHelmet_UartInit so True (u\<lparr>u_out := []\<rparr>))"
  shows "link_ok (after P v) v" and "u_task v" and "m \<noteq> WISUN_RX_POLL \<Longrightarrow> pend P m v = P m"
proof -
  have idle: "\<not> u_task u \<Longrightarrow> settled u" "\<not> (u_sink u \<and> u_source u) \<Longrightarrow> P WISUN_RX_POLL = 0"
    using ok by (auto simp: link_ok_def settled_def)
  show "u_task v" by (simp add: v_def SmartHelmet_UartInit_def Let_def)
  show "link_ok (after P v) v"
  proof (cases "u_sink u \<and> u_source u")
    case True
    then have "v = u\<lparr>u_out := [], u_task := True\<rparr>" by (simp add: v_def SmartHelmet_UartInit_def Let_def)
    with ok idle(1) show ?thesis by (auto simp: link_ok_def)
  next
    case False
    define w where "w = u\<lparr>u_out := [], u_task := True\<rparr>"
    have "v = w \<or> v = w\<lparr>u_sink := so_sink so, u_source := so_source so\<rparr> \<or>
        (v = emit (U_Timer (MessageSendLater WISUN_RX_POLL 50)) (w\<lparr>u_sink := True, u_source := True\<rparr>))"
      using False by (auto simp: v_def w_def SmartHelmet_UartInit_def Let_def)
    moreover have "P WISUN_RX_POLL = 0" "P REPORT_TICK \<le> 1" "P WISUN_LINK_CHECK \<le> 1"
      "settled u \<or> P WISUN_LINK_CHECK = 1"
      using ok idle False by (auto simp: link_ok_def)
    ultimately show ?thesis by (elim disjE) (auto simp: link_ok_def w_def)
  qed
  show "m \<noteq> WISUN_RX_POLL \<Longrightarrow> pend P m v = P m"
    by (simp add: v_def SmartHelmet_UartInit_def Let_def pend_task)
qed

lemma start_ok:
  assumes "link_ok P u" and "u_task u" and v_def: "v = SmartHelmet_UartStartVerify l (u\<lparr>u_out := []\<rparr>)"
  shows "link_ok (after P v) v" and "m \<noteq> WISUN_LINK_CHECK \<Longrightarrow> pend P m v = P m"
  using assms by (simp_all add: SmartHelmet_UartStartVerify_def link_ok_def)

lemma close_ok:
  assumes ok: "link_ok P u" and v_def: "v = SmartHelmet_UartClose l (u\<lparr>u_out := []\<rparr>)"
  shows "link_ok (after P v) v" and "pend P WISUN_RX_POLL v = 0" and "pend P WISUN_LINK_CHECK v = 0"
    and "m \<noteq> WISUN_RX_POLL \<Longrightarrow> m \<noteq> WISUN_LINK_CHECK \<Longrightarrow> pend P m v = P m"
proof -
  have p: "pend P m v = (if m = WISUN_RX_POLL \<or> m = WISUN_LINK_CHECK then 0 else P m)" for m
    using ok by (cases "u_task u") (auto simp: v_def SmartHelmet_UartClose_def SmartHelmet_UartStopVerify_def
        SmartHelmet_UartResetHold_def Let_def link_ok_def)
  then show "pend P WISUN_RX_POLL v = 0" and "pend P WISUN_LINK_CHECK v = 0"
    and "m \<noteq> WISUN_RX_POLL \<Longrightarrow> m \<noteq> WISUN_LINK_CHECK \<Longrightarrow> pend P m v = P m" by simp_all
  have "\<not> u_sink v" "\<not> u_source v" "u_step v = STEP_IDLE" "\<not> passthrough v"
    by (simp_all add: v_def SmartHelmet_UartClose_def SmartHelmet_UartStopVerify_def SmartHelmet_UartResetHold_def Let_def)
  then show "link_ok (after P v) v" using ok unfolding link_ok_def p settled_def by simp
qed

lemma sleep_ok:
  assumes ok: "link_ok P u" and v_def: "v = SmartHelmet_UartSleep l (u\<lparr>u_out := []\<rparr>)"
  shows "link_ok (after P v) v" and "pend P WISUN_RX_POLL v = 0" and "pend P WISUN_LINK_CHECK v = 0"
    and "m \<noteq> WISUN_RX_POLL \<Longrightarrow> m \<noteq> WISUN_LINK_CHECK \<Longrightarrow> pend P m v = P m"
proof -
  have p: "pend P m v = (if m = WISUN_RX_POLL \<or> m = WISUN_LINK_CHECK then 0 else P m)" for m
    using ok by (cases "u_task u") (auto simp: v_def SmartHelmet_UartSleep_def SmartHelmet_UartClose_def
        SmartHelmet_UartStopVerify_def SmartHelmet_UartResetHold_def Let_def link_ok_def)
  then show "pend P WISUN_RX_POLL v = 0" and "pend P WISUN_LINK_CHECK v = 0"
    and "m \<noteq> WISUN_RX_POLL \<Longrightarrow> m \<noteq> WISUN_LINK_CHECK \<Longrightarrow> pend P m v = P m" by simp_all
  have "\<not> u_sink v" "\<not> u_source v" "u_step v = STEP_IDLE" "\<not> passthrough v"
    by (simp_all add: v_def SmartHelmet_UartSleep_def SmartHelmet_UartClose_def SmartHelmet_UartStopVerify_def
        SmartHelmet_UartResetHold_def Let_def)
  then show "link_ok (after P v) v" using ok unfolding link_ok_def p settled_def by simp
qed

section \<open>Replaying the calls of the composition\<close>

lemma hpend_upd [simp]:
  "hpend q m (h\<lparr>h_sens := s\<rparr>) = hpend q m h" "hpend q m (h\<lparr>h_vitals := v\<rparr>) = hpend q m h"
  "hpend q m (h\<lparr>h_adc := a\<rparr>) = hpend q m h" "hpend q m (h\<lparr>h_uart := u\<rparr>) = hpend q m h"
  "hpend q m (h\<lparr>sh_ready := b\<rparr>) = hpend q m h" "hpend q m (h\<lparr>sh_powered := b\<rparr>) = hpend q m h"
  "hpend q m (h\<lparr>motion_prev := p\<rparr>) = hpend q m h" "hpend q m (h\<lparr>log_last_gate := g\<rparr>) = hpend q m h"
  "hpend q m (h\<lparr>sh_ui_state := n\<rparr>) = hpend q m h" "hpend q m (h\<lparr>sh_motion := mh\<rparr>) = hpend q m h"
  "hpend q m (h\<lparr>sh_gas_r0_mv := rs\<rparr>) = hpend q m h" "hpend q m (h\<lparr>h_out := []\<rparr>) = q m"
  "hpend q m (show_now e f h) = hpend q m h" "hpend q m (push_accel h) = hpend q m h"
  by (simp_all add: hpend_def show_now_def push_accel_def)

lemma hpend_emit [simp]:
  "hpend q m (h_emit cs h) = timers_after (concat (map h_timer_of cs)) (\<lambda>m. hpend q m h) m"
  by (simp add: hpend_def h_emit_def)

lemma timers_of_map [simp]: "concat (map h_timer_of (map H_Timer ts)) = ts" "concat (map (h_timer_of \<circ> H_Timer) ts) = ts"
  by (induction ts) simp_all

lemma hpend_adc_exec:
  "hpend q m (adc_exec e c h) = timers_after (adc_timer_call c) (\<lambda>m. hpend q m h) m"
  by (cases c) simp_all

lemma hpend_adc_fold:
  "hpend q m (fold (adc_exec e) cs h) = timers_after (adc_timers cs) (\<lambda>m. hpend q m h) m"
proof (induction cs arbitrary: h)
  case (Cons c cs)
  have "(\<lambda>m. hpend q m (adc_exec e c h)) = timers_after (adc_timer_call c) (\<lambda>m. hpend q m h)"
    by (rule ext) (rule hpend_adc_exec)
  with Cons show ?case by (simp add: adc_timers_def)
qed (simp add: adc_timers_def)

lemma hpend_run_adc: "hpend q m (run_adc e r h) = timers_after (adc_timers (snd r)) (\<lambda>m. hpend q m h) m"
  by (simp add: run_adc_def hpend_adc_fold)

lemma hpend_run_sens: "hpend q m (run_sens r h) = timers_after (snd r) (\<lambda>m. hpend q m h) m"
  by (simp add: run_sens_def)

lemma hpend_uart_exec: "hpend q m (uart_exec e c h) = timers_after (timer_of c) (\<lambda>m. hpend q m h) m"
  by (cases c) simp_all

lemma hpend_uart_fold:
  "hpend q m (fold (uart_exec e) cs h) = timers_after (concat (map timer_of cs)) (\<lambda>m. hpend q m h) m"
proof (induction cs arbitrary: h)
  case (Cons c cs)
  have "(\<lambda>m. hpend q m (uart_exec e c h)) = timers_after (timer_of c) (\<lambda>m. hpend q m h)"
    by (rule ext) (rule hpend_uart_exec)
  with Cons show ?case by simp
qed simp

lemma hpend_run_uart:
  "hpend q m (run_uart e f h) = pend (\<lambda>m. hpend q m h) m (f ((h_uart h)\<lparr>u_out := []\<rparr>))"
  by (simp add: run_uart_def Let_def hpend_uart_fold pend_def uart_timers_def)

text \<open>What executing the calls of a component leaves alone in the others.\<close>

lemma h_emit_frame [simp]:
  "h_uart (h_emit cs h) = h_uart h" "h_adc (h_emit cs h) = h_adc h" "h_sens (h_emit cs h) = h_sens h"
  "sh_powered (h_emit cs h) = sh_powered h" "sh_ready (h_emit cs h) = sh_ready h" "h_vitals (h_emit cs h) = h_vitals h"
  "sh_motion (h_emit cs h) = sh_motion h"
  by (simp_all add: h_emit_def)

lemma show_now_frame [simp]:
  "h_uart (show_now e f h) = h_uart h" "h_adc (show_now e f h) = h_adc h"
  "sh_powered (show_now e f h) = sh_powered h" "sh_ready (show_now e f h) = sh_ready h"
  "h_vitals (show_now e f h) = h_vitals h"
  by (simp_all add: show_now_def)

lemma oled_draw_task: "sh_probe_task (snd (oled_draw api ls s)) = sh_probe_task s"
proof (induction ls arbitrary: s)
  case (Cons l ls)
  then show ?case by (cases l) (simp add: case_prod_beta)
qed simp

lemma show_probe_task [simp]: "sh_probe_task (SmartHelmet_SensorsShowAdcMv api e s) = sh_probe_task s"
  by (simp add: SmartHelmet_SensorsShowAdcMv_def case_prod_beta Let_def oled_draw_task
      SmartHelmet_SensorsDisplayBlank_def SmartHelmet_SensorsDisplayOn_def shClearInitFail_def)

lemma show_now_task [simp]: "sh_probe_task (h_sens (show_now e f h)) = sh_probe_task (h_sens h)"
  by (simp add: show_now_def)

lemma adc_exec_frame [simp]:
  "h_uart (adc_exec e c h) = h_uart h" "h_adc (adc_exec e c h) = h_adc h"
  "sh_powered (adc_exec e c h) = sh_powered h" "sh_ready (adc_exec e c h) = sh_ready h"
  "sh_probe_task (h_sens (adc_exec e c h)) = sh_probe_task (h_sens h)"
  by (cases c; simp)+

lemma adc_fold_frame [simp]:
  "h_uart (fold (adc_exec e) cs h) = h_uart h" "h_adc (fold (adc_exec e) cs h) = h_adc h"
  "sh_powered (fold (adc_exec e) cs h) = sh_powered h" "sh_ready (fold (adc_exec e) cs h) = sh_ready h"
  "sh_probe_task (h_sens (fold (adc_exec e) cs h)) = sh_probe_task (h_sens h)"
  by (induction cs arbitrary: h) simp_all

lemma run_adc_frame [simp]:
  "h_uart (run_adc e r h) = h_uart h" "h_adc (run_adc e r h) = fst r"
  "sh_powered (run_adc e r h) = sh_powered h" "sh_ready (run_adc e r h) = sh_ready h"
  "sh_probe_task (h_sens (run_adc e r h)) = sh_probe_task (h_sens h)"
  by (simp_all add: run_adc_def)

lemma run_sens_frame [simp]:
  "h_uart (run_sens r h) = h_uart h" "h_adc (run_sens r h) = h_adc h" "h_sens (run_sens r h) = fst r"
  "sh_powered (run_sens r h) = sh_powered h" "sh_ready (run_sens r h) = sh_ready h"
  by (simp_all add: run_sens_def)

lemma uart_exec_frame [simp]:
  "h_uart (uart_exec e c h) = h_uart h" "h_adc (uart_exec e c h) = h_adc h"
  "sh_powered (uart_exec e c h) = sh_powered h" "sh_ready (uart_exec e c h) = sh_ready h"
  "sh_probe_task (h_sens (uart_exec e c h)) = sh_probe_task (h_sens h)"
  by (cases c; simp)+

lemma uart_fold_frame [simp]:
  "h_uart (fold (uart_exec e) cs h) = h_uart h" "h_adc (fold (uart_exec e) cs h) = h_adc h"
  "sh_powered (fold (uart_exec e) cs h) = sh_powered h" "sh_ready (fold (uart_exec e) cs h) = sh_ready h"
  "sh_probe_task (h_sens (fold (uart_exec e) cs h)) = sh_probe_task (h_sens h)"
  by (induction cs arbitrary: h) simp_all

lemma run_uart_frame [simp]:
  "h_uart (run_uart e f h) = (f ((h_uart h)\<lparr>u_out := []\<rparr>))\<lparr>u_out := []\<rparr>" "h_adc (run_uart e f h) = h_adc h"
  "sh_powered (run_uart e f h) = sh_powered h" "sh_ready (run_uart e f h) = sh_ready h"
  "sh_probe_task (h_sens (run_uart e f h)) = sh_probe_task (h_sens h)"
  by (simp_all add: run_uart_def Let_def)

lemma link_ok_out [simp]: "link_ok P (u\<lparr>u_out := cs\<rparr>) = link_ok P u"
  by (simp add: link_ok_def)

section \<open>The timer invariant\<close>

definition rest_ok :: "pending \<Rightarrow> 'w helmet \<Rightarrow> bool" where
  "rest_ok P h \<longleftrightarrow> P LIS3DH_LOG_TICK \<le> 1 \<and> P I2C_PROBE_RETRY \<le> 1 \<and>
     P ADC_INTERNAL_TRIGGER \<le> 1 \<and> P ADC_SENS_TRIGGER \<le> 1 \<and>
     (0 < P I2C_PROBE_RETRY \<longrightarrow> sh_probe_task (h_sens h)) \<and>
     (0 < P ADC_INTERNAL_TRIGGER \<or> 0 < P ADC_SENS_TRIGGER \<longrightarrow> adc_task (h_adc h))"

text \<open>\<open>n\<close> is the number of pending motion polls.\<close>

definition tinv :: "nat \<Rightarrow> pending \<Rightarrow> 'w helmet \<Rightarrow> bool" where
  "tinv n P h \<longleftrightarrow> P MOTION_POLL = n \<and> rest_ok P h \<and> link_ok P (h_uart h)"

abbreviation held :: "pending \<Rightarrow> 'w helmet \<Rightarrow> pending" where
  "held q h \<equiv> (\<lambda>m. hpend q m h)"

lemma tinv_same:
  assumes "tinv n (held q h) h" "\<And>m. hpend q m g = hpend q m h" "h_uart g = h_uart h"
    "sh_probe_task (h_sens g) = sh_probe_task (h_sens h)" "adc_task (h_adc g) = adc_task (h_adc h)"
  shows "tinv n (held q g) g"
  using assms unfolding tinv_def rest_ok_def by simp

text \<open>A step of the link in the composition.\<close>

lemma tinv_uart_step:
  assumes t: "hpend q MOTION_POLL h = n" "rest_ok (held q h) h" and f: "v = f ((h_uart h)\<lparr>u_out := []\<rparr>)"
    and ok: "link_ok (after (held q h) v) v"
    and same: "\<And>m. m \<notin> {WISUN_LINK_CHECK, WISUN_RX_POLL, REPORT_TICK} \<Longrightarrow> pend (held q h) m v = hpend q m h"
  shows "tinv n (held q (run_uart e f h)) (run_uart e f h)"
  using t ok same unfolding tinv_def rest_ok_def by (simp add: hpend_run_uart f [symmetric])

lemma tinv_uart:
  assumes "tinv n (held q h) h" and "v = f ((h_uart h)\<lparr>u_out := []\<rparr>)"
    and "link_ok (after (held q h) v) v"
    and "\<And>m. m \<notin> {WISUN_LINK_CHECK, WISUN_RX_POLL, REPORT_TICK} \<Longrightarrow> pend (held q h) m v = hpend q m h"
  shows "tinv n (held q (run_uart e f h)) (run_uart e f h)"
  using tinv_uart_step [of q h n v f e] assms by (simp add: tinv_def)

lemma tinv_uart_quiet:
  assumes "tinv n (held q h) h" and "\<And>m P u. pend P m (f u) = pend P m u"
    and "\<And>u. u_sink (f u) = u_sink u \<and> u_source (f u) = u_source u \<and> u_task (f u) = u_task u \<and> u_step (f u) = u_step u \<and>
      passthrough (f u) = passthrough u"
  shows "tinv n (held q (run_uart e f h)) (run_uart e f h)"
proof (rule tinv_uart [OF assms(1) refl])
  show "link_ok (after (held q h) (f ((h_uart h)\<lparr>u_out := []\<rparr>))) (f ((h_uart h)\<lparr>u_out := []\<rparr>))"
    by (rule link_ok_quiet [of _ "h_uart h"]) (use assms in \<open>simp_all add: tinv_def\<close>)
qed (use assms(2) in simp)

lemma tinv_reset_hold: "tinv n (held q h) h \<Longrightarrow> tinv n (held q (run_uart e (SmartHelmet_UartResetHold b) h)) (run_uart e (SmartHelmet_UartResetHold b) h)"
  by (rule tinv_uart_quiet) (simp_all add: SmartHelmet_UartResetHold_def)

lemma tinv_send: "tinv n (held q h) h \<Longrightarrow> tinv n (held q (SmartHelmet_WisunSend e d h)) (SmartHelmet_WisunSend e d h)"
  unfolding SmartHelmet_WisunSend_def by (rule tinv_uart_quiet) simp_all

lemma tinv_uart_init:
  assumes "tinv n (held q h) h"
    and g_def: "g = run_uart e (\<lambda>u. snd (SmartHelmet_UartInit (he_open e) True u)) h"
  shows "tinv n (held q g) g \<and> u_task (h_uart g)"
proof -
  have ok: "link_ok (held q h) (h_uart h)" using assms by (simp add: tinv_def)
  note i = uart_init_ok [OF ok refl, where so = "he_open e"]
  have "tinv n (held q g) g" unfolding g_def by (rule tinv_uart [OF assms(1) refl]) (simp_all add: i)
  then show ?thesis using i(2) by (simp add: g_def)
qed

lemma tinv_uart_start:
  assumes "tinv n (held q h) h" and "u_task (h_uart h)"
    and g_def: "g = run_uart e (SmartHelmet_UartStartVerify (he_link e)) h"
  shows "tinv n (held q g) g"
proof -
  have "link_ok (held q h) (h_uart h)" using assms by (simp add: tinv_def)
  note i = start_ok [OF this assms(2) refl, where l = "he_link e"]
  show ?thesis unfolding g_def by (rule tinv_uart [OF assms(1) refl]) (simp_all add: i)
qed

lemma tinv_uart_close:
  assumes "tinv n (held q h) h"
    and g_def: "g = run_uart e (SmartHelmet_UartClose (he_link e)) h"
  shows "tinv n (held q g) g"
proof -
  have "link_ok (held q h) (h_uart h)" using assms by (simp add: tinv_def)
  note i = close_ok [OF this refl, where l = "he_link e"]
  show ?thesis unfolding g_def by (rule tinv_uart [OF assms(1) refl]) (simp_all add: i)
qed

lemma tinv_uart_sleep:
  assumes "tinv n (held q h) h"
    and g_def: "g = run_uart e (SmartHelmet_UartSleep (he_link e)) h"
  shows "tinv n (held q g) g"
    and "hpend q m g = (if m = WISUN_RX_POLL \<or> m = WISUN_LINK_CHECK then 0 else hpend q m h)"
proof -
  have "link_ok (held q h) (h_uart h)" using assms by (simp add: tinv_def)
  note i = sleep_ok [OF this refl, where l = "he_link e"]
  show "tinv n (held q g) g" unfolding g_def by (rule tinv_uart [OF assms(1) refl]) (simp_all add: i)
  show "hpend q m g = (if m = WISUN_RX_POLL \<or> m = WISUN_LINK_CHECK then 0 else hpend q m h)"
    by (simp add: g_def hpend_run_uart i)
qed

text \<open>Steps of the converter.\<close>

lemma tinv_adc:
  assumes t: "tinv n (held q h) h"
    and same: "\<And>m P. m \<noteq> ADC_INTERNAL_TRIGGER \<Longrightarrow> m \<noteq> ADC_SENS_TRIGGER \<Longrightarrow> timers_after (adc_timers (snd r)) P m = P m"
    and le: "timers_after (adc_timers (snd r)) (held q h) ADC_INTERNAL_TRIGGER \<le> 1"
      "timers_after (adc_timers (snd r)) (held q h) ADC_SENS_TRIGGER \<le> 1"
    and task: "adc_task (fst r) \<or> (timers_after (adc_timers (snd r)) (held q h) ADC_INTERNAL_TRIGGER = 0 \<and>
      timers_after (adc_timers (snd r)) (held q h) ADC_SENS_TRIGGER = 0)"
  shows "tinv n (held q (run_adc e r h)) (run_adc e r h)"
  using t le task unfolding tinv_def rest_ok_def link_ok_def hpend_run_adc by (auto simp: same)

lemma adc_op_timers:
  "adc_timers (snd (SmartHelmet_AdcInit True)) = [MessageCancelAll ADC_INTERNAL_TRIGGER, MessageCancelAll ADC_SENS_TRIGGER,
     MessageSendLater ADC_INTERNAL_TRIGGER 1000, MessageSendLater ADC_SENS_TRIGGER 40]"
  "adc_timers (snd (SmartHelmet_AdcStop a)) =
     (if adc_task a then [MessageCancelAll ADC_INTERNAL_TRIGGER, MessageCancelAll ADC_SENS_TRIGGER] else [])"
  "adc_timers (snd (SmartHelmet_AdcRequestScan a)) = []"
  "adc_timers (snd (SmartHelmet_AdcRequestSensIn a)) = []"
  by (simp_all add: adc_timers_def SmartHelmet_AdcInit_def adc_op_defs)

lemma tinv_adc_init: "tinv n (held q h) h \<Longrightarrow> tinv n (held q (run_adc e (SmartHelmet_AdcInit True) h)) (run_adc e (SmartHelmet_AdcInit True) h)"
  by (rule tinv_adc) (simp_all add: adc_op_timers SmartHelmet_AdcInit_def)

lemma tinv_adc_stop:
  assumes "tinv n (held q h) h"
    and g_def: "g = run_adc e (SmartHelmet_AdcStop (h_adc h)) h"
  shows "tinv n (held q g) g"
    and "hpend q m g = (if m = ADC_INTERNAL_TRIGGER \<or> m = ADC_SENS_TRIGGER then 0 else hpend q m h)"
proof -
  show "tinv n (held q g) g"
    unfolding g_def by (rule tinv_adc [OF assms(1)])
      (use assms(1) in \<open>auto simp: adc_op_timers SmartHelmet_AdcStop_def tinv_def rest_ok_def\<close>)
  show "hpend q m g = (if m = ADC_INTERNAL_TRIGGER \<or> m = ADC_SENS_TRIGGER then 0 else hpend q m h)"
    using assms(1) by (auto simp: g_def hpend_run_adc adc_op_timers tinv_def rest_ok_def)
qed

lemma tinv_scan:
  "tinv n (held q h) h \<Longrightarrow>
   tinv n (held q (run_adc e (SmartHelmet_AdcRequestScan (h_adc h)) h)) (run_adc e (SmartHelmet_AdcRequestScan (h_adc h)) h)"
  by (rule tinv_same) (simp_all add: hpend_run_adc adc_op_timers adc_task_kept)

text \<open>The report.\<close>

lemma refresh_frame [simp]:
  "h_uart (report_refresh e h) = h_uart h" "h_adc (report_refresh e h) = h_adc h"
  "sh_powered (report_refresh e h) = sh_powered h" "sh_ready (report_refresh e h) = sh_ready h"
  "hpend q m (report_refresh e h) = hpend q m h"
  by (simp_all add: report_refresh_def Let_def push_accel_def)

lemma poll_task [simp]:
  "sh_probe_task (SmartHelmet_SensorsPoll api s) = sh_probe_task s"
  "sh_probe_task (SmartHelmet_SensorsPollLis3dh api s) = sh_probe_task s"
proof -
  have "sh_probe_task (poll_ccs811 api s) = sh_probe_task s" for s :: "'a sensors"
    by (simp add: poll_ccs811_def case_prod_beta Let_def)
  moreover have "sh_probe_task (poll_hdc1080 api s) = sh_probe_task s" for s :: "'a sensors"
    by (simp add: poll_hdc1080_def case_prod_beta Let_def)
  moreover have "sh_probe_task (poll_mlx90614 api s) = sh_probe_task s" for s :: "'a sensors"
    by (simp add: poll_mlx90614_def case_prod_beta Let_def split: option.split)
  moreover have lis: "sh_probe_task (SmartHelmet_SensorsPollLis3dh api s) = sh_probe_task s" for s :: "'a sensors"
    by (simp add: SmartHelmet_SensorsPollLis3dh_def case_prod_beta Let_def)
  ultimately show "sh_probe_task (SmartHelmet_SensorsPoll api s) = sh_probe_task s"
    by (simp add: SmartHelmet_SensorsPoll_def)
  show "sh_probe_task (SmartHelmet_SensorsPollLis3dh api s) = sh_probe_task s" by (rule lis)
qed

lemma helmet_push_accel_frame [simp]:
  "h_uart (push_accel h) = h_uart h" "h_adc (push_accel h) = h_adc h" "h_sens (push_accel h) = h_sens h"
  "sh_powered (push_accel h) = sh_powered h" "sh_ready (push_accel h) = sh_ready h"
  "sh_motion (push_accel h) = sh_motion h"
  by (simp_all add: push_accel_def)

lemma refresh_task [simp]: "sh_probe_task (h_sens (report_refresh e h)) = sh_probe_task (h_sens h)"
  by (simp add: report_refresh_def Let_def)

lemma build_frame [simp]:
  "h_adc (snd (report_build h)) = h_adc h" "h_sens (snd (report_build h)) = h_sens h"
  "h_uart (snd (report_build h)) = (h_uart h)\<lparr>restart_seen := False\<rparr>"
  "sh_powered (snd (report_build h)) = sh_powered h" "sh_ready (snd (report_build h)) = sh_ready h"
  "hpend q m (snd (report_build h)) = hpend q m h"
  by (simp_all add: report_build_def Let_def case_prod_beta SmartHelmet_UartTakeRestart_def)

lemma link_ok_restart [simp]: "link_ok P (u\<lparr>restart_seen := b\<rparr>) = link_ok P u"
  by (simp add: link_ok_def)

lemma report_timer_frame [simp]:
  "h_uart (report_timer h) = h_uart h" "h_adc (report_timer h) = h_adc h" "h_sens (report_timer h) = h_sens h"
  "sh_powered (report_timer h) = sh_powered h" "sh_ready (report_timer h) = sh_ready h"
  "hpend q m (report_timer h) = (if m = REPORT_TICK then 1 else hpend q m h)"
  by (simp_all add: report_timer_def)

lemma tinv_report_timer: "tinv n (held q h) h \<Longrightarrow> tinv n (held q (report_timer h)) (report_timer h)"
  by (simp add: tinv_def rest_ok_def link_ok_def)

lemma tinv_report:
  assumes "tinv n (held q h) h"
  shows "tinv n (held q (SmartHelmet_ReportStart e h)) (SmartHelmet_ReportStart e h)"
proof -
  define h2 where "h2 = (if report_can_send h then report_refresh e h else h)"
  define h3 where "h3 = snd (report_build h2)"
  have h3: "tinv n (held q h3) h3"
    using assms by (simp add: h2_def h3_def tinv_def rest_ok_def)
  let ?f = "shSendReportLines (SmartHelmet_UartSend (he_link e)) (SmartHelmet_UartNoteReportSent (he_link e))
      (fst (report_build h2))"
  have "tinv n (held q (run_uart e ?f h3)) (run_uart e ?f h3)" if "report_can_send h"
  proof -
    have "link_ok (held q h3) (h_uart h3)" using h3 by (simp add: tinv_def)
    moreover have "passthrough (h_uart h3)"
      using that by (simp add: h3_def h2_def report_can_send_def SmartHelmet_UartInPassthrough_def)
    ultimately have i: "link_ok (after (held q h3) (?f ((h_uart h3)\<lparr>u_out := []\<rparr>))) (?f ((h_uart h3)\<lparr>u_out := []\<rparr>))"
      "m \<noteq> WISUN_LINK_CHECK \<Longrightarrow> m \<noteq> REPORT_TICK \<Longrightarrow> pend (held q h3) m (?f ((h_uart h3)\<lparr>u_out := []\<rparr>)) = hpend q m h3" for m
      using report_sent_ok [OF _ _ refl, of "held q h3" "h_uart h3"] by blast+
    show ?thesis by (rule tinv_uart [OF h3 refl]) (simp_all add: i)
  qed
  then show ?thesis
    unfolding SmartHelmet_ReportStart_def Let_def case_prod_beta h2_def [symmetric] h3_def [symmetric]
    using h3 by (cases "report_can_send h") (simp_all only: if_True if_False simp_thms tinv_report_timer)
qed

text \<open>The sensor hub.\<close>

lemma tinv_log_arm: "tinv n (held q h) h \<Longrightarrow> tinv n (held q (log_arm h)) (log_arm h)"
  by (simp add: log_arm_def shLis3dhLogArm_def tinv_def rest_ok_def link_ok_def)

lemma tinv_log_sample:
  assumes "tinv n (held q h) h"
  shows "tinv n (held q (shLis3dhLogSample e h)) (shLis3dhLogSample e h)"
proof -
  have quiet: "tinv n (held q g) g" if "h_uart g = h_uart h" "h_adc g = h_adc h" "h_out g = h_out h"
    "sh_probe_task (h_sens g) = sh_probe_task (h_sens h)" for g :: "'a helmet"
    using assms that by (simp add: tinv_def rest_ok_def hpend_def)
  show ?thesis
    unfolding shLis3dhLogSample_def Let_def case_prod_beta
    by (simp only: split: if_split) (intro conjI impI tinv_report quiet; simp add: push_accel_def)
qed

lemma sens_tasks:
  "sh_probe_task (SmartHelmet_SensorsDisplayOn api s) = sh_probe_task s"
  "sh_probe_task (SmartHelmet_SensorsDisplayBlank api s) = sh_probe_task s"
  "sh_probe_task (sleep_ccs811 api s) = sh_probe_task s" "sh_probe_task (sleep_lis3dh api s) = sh_probe_task s"
  "sh_probe_task (try_ccs811 api s) = sh_probe_task s" "sh_probe_task (try_hdc1080 api s) = sh_probe_task s"
  "sh_probe_task (try_lis3dh api s) = sh_probe_task s" "sh_probe_task (try_mlx90614 api s) = sh_probe_task s"
  "sh_probe_task (try_ssd1315 api s) = sh_probe_task s"
  by (simp_all add: SmartHelmet_SensorsDisplayOn_def SmartHelmet_SensorsDisplayBlank_def Let_def shClearInitFail_def
      sleep_ccs811_def sleep_lis3dh_def try_ccs811_def try_hdc1080_def try_lis3dh_def try_mlx90614_def try_ssd1315_def
      case_prod_beta split: option.split)

lemmas blank_task = sens_tasks(2)

lemma retry_task:
  "sh_probe_task (retry_missing api s) = sh_probe_task s"
  by (simp add: retry_missing_def Let_def sens_tasks)

lemma verify_pass_task:
  "sh_probe_task (fst (shSensorsVerifyPass api e s)) = sh_probe_task s"
  by (simp add: shSensorsVerifyPass_def Let_def retry_task shLatchInitFail_def)

lemma verify_pass_timers:
  "m \<noteq> I2C_PROBE_RETRY \<Longrightarrow> timers_after (snd (shSensorsVerifyPass api e s)) P m = P m"
  "\<not> sh_probe_task s \<Longrightarrow> timers_after (snd (shSensorsVerifyPass api e s)) P I2C_PROBE_RETRY = P I2C_PROBE_RETRY"
  "sh_probe_task s \<Longrightarrow> timers_after (snd (shSensorsVerifyPass api e s)) P I2C_PROBE_RETRY \<le> 1"
  by (simp_all add: shSensorsVerifyPass_def Let_def shSensorsScheduleRetry_def retry_task)

lemma tinv_verify:
  assumes "tinv n (held q h) h"
  shows "tinv n (held q (run_sens (shSensorsVerifyPass api u (h_sens h)) h)) (run_sens (shSensorsVerifyPass api u (h_sens h)) h)"
proof (cases "sh_probe_task (h_sens h)")
  case True
  then show ?thesis
    using assms verify_pass_timers(3) [OF True, of api u "held q h"]
    unfolding tinv_def rest_ok_def link_ok_def hpend_run_sens
    by (simp add: verify_pass_timers(1) verify_pass_task)
next
  case False
  then have "timers_after (snd (shSensorsVerifyPass api u (h_sens h))) P m = P m" for P m
    using verify_pass_timers(1) [of m api u "h_sens h" P] verify_pass_timers(2) [of "h_sens h" api u P] by metis
  with assms show ?thesis
    unfolding tinv_def rest_ok_def link_ok_def hpend_run_sens by (simp add: verify_pass_task)
qed

lemma tinv_sens_handle:
  "tinv n (held q h) h \<Longrightarrow>
   tinv n (held q (snd (SmartHelmet_SensorsHandleMessage e msg h))) (snd (SmartHelmet_SensorsHandleMessage e msg h))"
  unfolding SmartHelmet_SensorsHandleMessage_def
  by (auto simp del: hpend_emit intro!: tinv_log_arm tinv_log_sample tinv_verify split: message.split helmet_msg.split)

section \<open>Messages\<close>

lemma deliver_tinv:
  "tinv n q h \<Longrightarrow> msg \<noteq> Tick WISUN_LINK_CHECK \<Longrightarrow> msg \<noteq> Tick MOTION_POLL \<Longrightarrow> tinv n (deliver msg q) h"
  by (auto simp: tinv_def rest_ok_def link_ok_def deliver_def split: message.split)

lemma deliver_rest: "tinv n q h \<Longrightarrow> rest_ok (deliver msg q) h"
  by (auto simp: tinv_def rest_ok_def deliver_def split: message.split)

lemma adc_unhandled:
  "\<not> fst (SmartHelmet_AdcHandleMessage now msg a) \<Longrightarrow> snd (SmartHelmet_AdcHandleMessage now msg a) = (a, [])"
  by (auto simp: SmartHelmet_AdcHandleMessage_def adc_on_result_def Let_def split: message.splits helmet_msg.splits if_splits)

lemma adc_handle_timers:
  "adc_timers (snd (snd (SmartHelmet_AdcHandleMessage now msg a))) =
     (case msg of Tick ADC_INTERNAL_TRIGGER \<Rightarrow> if adc_task a then [MessageSendLater ADC_INTERNAL_TRIGGER 1000] else []
      | Tick ADC_SENS_TRIGGER \<Rightarrow> if adc_task a then [MessageSendLater ADC_SENS_TRIGGER 40] else []
      | _ \<Rightarrow> [])"
  by (auto simp: adc_timers_def adc_op_defs split: message.split helmet_msg.split)

lemma tinv_adc_message:
  assumes t: "tinv n q h" and out: "h_out h = []"
    and r_def: "r = snd (SmartHelmet_AdcHandleMessage (he_now e) msg (h_adc h))"
    and m: "msg \<noteq> Tick WISUN_LINK_CHECK" "msg \<noteq> Tick MOTION_POLL"
  shows "tinv n (held (deliver msg q) (run_adc e r h)) (run_adc e r h)"
proof -
  have held: "held (deliver msg q) h = deliver msg q" by (simp add: hpend_def out)
  have q: "q ADC_INTERNAL_TRIGGER \<le> 1" "q ADC_SENS_TRIGGER \<le> 1" using t by (simp_all add: tinv_def rest_ok_def)
  show ?thesis
  proof (rule tinv_adc)
    show "tinv n (held (deliver msg q) h) h" unfolding held by (rule deliver_tinv [OF t m])
    show "adc_task (fst r) \<or> (timers_after (adc_timers (snd r)) (held (deliver msg q) h) ADC_INTERNAL_TRIGGER = 0 \<and>
      timers_after (adc_timers (snd r)) (held (deliver msg q) h) ADC_SENS_TRIGGER = 0)"
    proof (cases "adc_task (h_adc h)")
      case False
      then have "q ADC_INTERNAL_TRIGGER = 0 \<and> q ADC_SENS_TRIGGER = 0" using t by (simp add: tinv_def rest_ok_def)
      with False show ?thesis
        unfolding held r_def adc_handle_timers by (auto simp: deliver_def split: message.split helmet_msg.split)
    qed (simp add: r_def)
  qed (use q in \<open>unfold held r_def adc_handle_timers, auto simp: deliver_def split: message.split helmet_msg.split\<close>)
qed

lemma run_uart_report_snd:
  "snd (run_uart_report e f h) =
     (let g = run_uart e (\<lambda>u. snd (f u)) h
      in if U_ReportStart \<in> set (u_out (snd (f ((h_uart h)\<lparr>u_out := []\<rparr>)))) then SmartHelmet_ReportStart e g else g)"
  by (simp add: run_uart_report_def run_uart_def Let_def case_prod_beta)

lemma tinv_uart_message:
  assumes t: "tinv n q h" and out: "h_out h = []" and p: "case msg of Tick m \<Rightarrow> 0 < q m | _ \<Rightarrow> True"
    and m: "msg \<noteq> Tick MOTION_POLL"
    and f_def: "f = SmartHelmet_UartHandleMessage (he_link e) chunks msg"
  shows "tinv n (held (deliver msg q) (snd (run_uart_report e f h))) (snd (run_uart_report e f h))"
proof -
  have held: "held (deliver msg q) h = deliver msg q" by (simp add: hpend_def out)
  have ok: "link_ok q (h_uart h)" using t by (simp add: tinv_def)
  note i = handle_ok [OF ok p refl, where l = "he_link e" and chunks = chunks, folded f_def]
  have "deliver msg q MOTION_POLL = n" using t m by (auto simp: tinv_def deliver_def split: message.split)
  then have "tinv n (held (deliver msg q) (run_uart e (\<lambda>u. snd (f u)) h)) (run_uart e (\<lambda>u. snd (f u)) h)"
    by (intro tinv_uart_step [OF _ _ refl]) (simp_all add: held deliver_rest [OF t] i fun_cong [OF held])
  then show ?thesis unfolding run_uart_report_snd Let_def by (simp only: tinv_report split: if_split) simp
qed

lemma tinv_message:
  assumes t: "tinv n q h" and out: "h_out h = []" and p: "case msg of Tick m \<Rightarrow> 0 < q m | _ \<Rightarrow> True"
    and m: "msg \<noteq> Tick MOTION_POLL" "msg \<noteq> Tick LIS3DH_LOG_TICK" "msg \<noteq> Tick I2C_PROBE_RETRY"
    and g_def: "g = snd (SmartHelmet_HandleMessage e chunks msg h)"
  shows "tinv n (held (deliver msg q) g) g"
proof -
  let ?a = "SmartHelmet_AdcHandleMessage (he_now e) msg (h_adc h)"
  have s: "SmartHelmet_SensorsHandleMessage e msg h = (False, h)"
    using m by (auto simp: SmartHelmet_SensorsHandleMessage_def split: message.split helmet_msg.split)
  show ?thesis
  proof (cases "fst ?a")
    case True
    then have "g = run_adc e (snd ?a) h" by (simp add: g_def SmartHelmet_HandleMessage_def s case_prod_beta)
    moreover have "msg \<noteq> Tick WISUN_LINK_CHECK" using True by (auto simp: SmartHelmet_AdcHandleMessage_def)
    ultimately show ?thesis using tinv_adc_message [OF t out refl _ m(1)] by simp
  next
    case False
    then have "snd ?a = (h_adc h, [])" by (rule adc_unhandled)
    then have "g = snd (run_uart_report e (SmartHelmet_UartHandleMessage (he_link e) chunks msg) h)"
      using False by (simp add: g_def SmartHelmet_HandleMessage_def s case_prod_beta run_adc_def)
    then show ?thesis using tinv_uart_message [OF t out p m(1) refl] by simp
  qed
qed

lemma motion_poll_frame:
  "sh_powered (motion_poll e h) = sh_powered h" "h_uart (motion_poll e h) = h_uart h" "h_adc (motion_poll e h) = h_adc h"
  "sh_probe_task (h_sens (motion_poll e h)) = sh_probe_task (h_sens h)"
  "hpend q m (motion_poll e h) = (if sh_powered h \<and> m = MOTION_POLL then Suc (hpend q m h) else hpend q m h)"
  by (simp_all add: motion_poll_def Let_def)

lemma tinv_motion_poll:
  "tinv 0 (held q h) h \<Longrightarrow> tinv (if sh_powered h then 1 else 0) (held q (motion_poll e h)) (motion_poll e h)"
  by (simp add: tinv_def rest_ok_def link_ok_def motion_poll_frame)

lemma report_powered [simp]:
  "sh_powered (SmartHelmet_ReportStart e h) = sh_powered h" "sh_ready (SmartHelmet_ReportStart e h) = sh_ready h"
  by (simp_all add: SmartHelmet_ReportStart_def Let_def case_prod_beta)

lemma log_powered [simp]:
  "sh_powered (shLis3dhLogSample e h) = sh_powered h" "sh_ready (shLis3dhLogSample e h) = sh_ready h"
  "sh_powered (log_arm h) = sh_powered h" "sh_ready (log_arm h) = sh_ready h"
  by (simp_all add: shLis3dhLogSample_def Let_def case_prod_beta log_arm_def)

lemma sens_handle_powered [simp]:
  "sh_powered (snd (SmartHelmet_SensorsHandleMessage e msg h)) = sh_powered h"
  "sh_ready (snd (SmartHelmet_SensorsHandleMessage e msg h)) = sh_ready h"
  by (simp_all add: SmartHelmet_SensorsHandleMessage_def split: message.split helmet_msg.split)

lemma task_handler_powered [simp]:
  "sh_powered (smartHelmetTaskHandler e chunks msg h) = sh_powered h"
  "sh_ready (smartHelmetTaskHandler e chunks msg h) = sh_ready h"
proof -
  have "sh_powered (snd (SmartHelmet_HandleMessage e chunks msg h)) = sh_powered h \<and>
      sh_ready (snd (SmartHelmet_HandleMessage e chunks msg h)) = sh_ready h" for h :: "'a helmet"
    by (simp add: SmartHelmet_HandleMessage_def case_prod_beta run_uart_report_snd Let_def)
  moreover have "sh_ready (motion_poll e h) = sh_ready h" by (simp add: motion_poll_def Let_def)
  ultimately show "sh_powered (smartHelmetTaskHandler e chunks msg h) = sh_powered h"
    "sh_ready (smartHelmetTaskHandler e chunks msg h) = sh_ready h"
    by (simp_all add: smartHelmetTaskHandler_def case_prod_beta motion_poll_frame)
qed

definition polls :: "'w helmet \<Rightarrow> nat" where
  "polls h = (if sh_powered h then 1 else 0)"

lemma tinv_task_handler:
  assumes t: "tinv (polls h) q h" and out: "h_out h = []" and p: "case msg of Tick m \<Rightarrow> 0 < q m | _ \<Rightarrow> True"
    and g_def: "g = smartHelmetTaskHandler e chunks msg h"
  shows "tinv (polls g) (held (deliver msg q) g) g"
proof -
  let ?q = "deliver msg q"
  have held: "held ?q h = ?q" by (simp add: hpend_def out)
  have polls: "polls g = polls h" by (simp add: polls_def g_def)
  consider (report) "msg = Tick REPORT_TICK" | (motion) "msg = Tick MOTION_POLL"
    | (sens) "msg = Tick LIS3DH_LOG_TICK \<or> msg = Tick I2C_PROBE_RETRY"
    | (other) "msg \<noteq> Tick REPORT_TICK" "msg \<noteq> Tick MOTION_POLL" "msg \<noteq> Tick LIS3DH_LOG_TICK" "msg \<noteq> Tick I2C_PROBE_RETRY"
    by blast
  then show ?thesis
  proof cases
    case report
    then have "tinv (polls h) (held ?q h) h" unfolding held by (intro deliver_tinv [OF t]) simp_all
    then show ?thesis unfolding polls using report by (simp add: g_def smartHelmetTaskHandler_def tinv_report del: report_timer_frame)
  next
    case motion
    then have "tinv 0 ?q h" using t by (auto simp: tinv_def rest_ok_def link_ok_def deliver_def polls_def)
    then have "tinv (polls h) (held ?q (motion_poll e h)) (motion_poll e h)"
      using tinv_motion_poll [of ?q h e] by (simp add: held polls_def)
    then show ?thesis unfolding polls using motion by (simp add: g_def smartHelmetTaskHandler_def)
  next
    case sens
    let ?h = "snd (SmartHelmet_SensorsHandleMessage e msg h)"
    have "tinv (polls h) (held ?q h) h" unfolding held using sens by (intro deliver_tinv [OF t]) auto
    then have "tinv (polls h) (held ?q ?h) ?h" by (rule tinv_sens_handle)
    moreover have "fst (SmartHelmet_SensorsHandleMessage e msg h)"
      using sens by (auto simp: SmartHelmet_SensorsHandleMessage_def)
    ultimately show ?thesis
      unfolding polls using sens by (auto simp: g_def smartHelmetTaskHandler_def case_prod_beta intro: tinv_report)
  next
    case other
    have s: "SmartHelmet_SensorsHandleMessage e msg h = (False, h)"
      using other by (auto simp: SmartHelmet_SensorsHandleMessage_def split: message.split helmet_msg.split)
    have "g = snd (SmartHelmet_HandleMessage e chunks msg h)"
      using other by (simp add: g_def smartHelmetTaskHandler_def s)
    then show ?thesis unfolding polls using tinv_message [OF t out p other(2-4)] by blast
  qed
qed

section \<open>Power\<close>

lemma stop_frames [simp]:
  "h_uart (report_stop h) = h_uart h" "h_adc (report_stop h) = h_adc h" "h_sens (report_stop h) = h_sens h"
  "h_uart (motion_stop h) = h_uart h" "h_adc (motion_stop h) = h_adc h" "h_sens (motion_stop h) = h_sens h"
  "sh_powered (report_stop h) = sh_powered h" "sh_powered (motion_stop h) = sh_powered h"
  "hpend q m (report_stop h) = (if m = REPORT_TICK then 0 else hpend q m h)"
  "hpend q m (motion_stop h) = (if m = MOTION_POLL then 0 else hpend q m h)"
  by (simp_all add: report_stop_def motion_stop_def)

lemma tinv_report_stop: "tinv n (held q h) h \<Longrightarrow> tinv n (held q (report_stop h)) (report_stop h)"
  by (auto simp: tinv_def rest_ok_def link_ok_def)

lemma tinv_motion_stop: "tinv n (held q h) h \<Longrightarrow> tinv 0 (held q (motion_stop h)) (motion_stop h)"
  by (auto simp: tinv_def rest_ok_def link_ok_def)

lemma hpend_stop_verify:
  "tinv n (held q h) h \<Longrightarrow>
   hpend q m (run_sens (SmartHelmet_SensorsStopVerify (h_sens h)) h) = (if m = I2C_PROBE_RETRY then 0 else hpend q m h)"
  by (auto simp: hpend_run_sens SmartHelmet_SensorsStopVerify_def tinv_def rest_ok_def)

lemma tinv_stop_verify:
  assumes "tinv n (held q h) h"
  shows "tinv n (held q (run_sens (SmartHelmet_SensorsStopVerify (h_sens h)) h)) (run_sens (SmartHelmet_SensorsStopVerify (h_sens h)) h)"
  using assms unfolding tinv_def rest_ok_def link_ok_def hpend_stop_verify [OF assms]
  by (simp add: SmartHelmet_SensorsStopVerify_def)

lemma tinv_start_verify:
  assumes "tinv n (held q h) h"
  shows "tinv n (held q (run_sens (SmartHelmet_SensorsStartVerify True (h_sens h)) h)) (run_sens (SmartHelmet_SensorsStartVerify True (h_sens h)) h)"
  using assms unfolding tinv_def rest_ok_def link_ok_def hpend_run_sens
  by (simp add: SmartHelmet_SensorsStartVerify_def Let_def shSensorsScheduleRetry_def)

lemma tinv_sens_upd:
  "tinv n P h \<Longrightarrow> sh_probe_task s = sh_probe_task (h_sens h) \<Longrightarrow> tinv n P (h\<lparr>h_sens := s\<rparr>)"
  by (simp add: tinv_def rest_ok_def)

lemma tinv_field [simp]:
  "tinv n P (h\<lparr>sh_powered := b\<rparr>) = tinv n P h" "tinv n P (h\<lparr>sh_ready := b\<rparr>) = tinv n P h"
  "tinv n P (h\<lparr>sh_motion := mh\<rparr>) = tinv n P h" "tinv n P (h\<lparr>h_vitals := v\<rparr>) = tinv n P h"
  "tinv n P (h\<lparr>sh_ui_state := i\<rparr>) = tinv n P h" "tinv n P (h\<lparr>h_out := cs\<rparr>) = tinv n P h"
  "tinv n P (show_now e f h) = tinv n P h" "tinv n P (push_accel h) = tinv n P h"
  by (simp_all add: tinv_def rest_ok_def)

lemma tinv_close:
  assumes "tinv n (held q h) h"
  shows "tinv 0 (held q (SmartHelmet_Close e h)) (SmartHelmet_Close e h)"
proof -
  define h1 where "h1 = motion_stop (report_stop (run_sens (SmartHelmet_SensorsStopVerify (h_sens h)) h))"
  define h2 where "h2 = run_adc e (SmartHelmet_AdcStop (h_adc h1)) h1"
  define h3 where "h3 = run_uart e (SmartHelmet_UartClose (he_link e)) h2"
  have "tinv 0 (held q h1) h1"
    unfolding h1_def by (intro tinv_motion_stop [of n] tinv_report_stop tinv_stop_verify assms)
  then have "tinv 0 (held q h2) h2" using tinv_adc_stop(1) [OF _ h2_def] by blast
  then have h3: "tinv 0 (held q h3) h3" using tinv_uart_close [OF _ h3_def] by blast
  then show ?thesis
    unfolding SmartHelmet_Close_def Let_def h1_def [symmetric] h2_def [symmetric] h3_def [symmetric]
    by (simp add: tinv_sens_upd)
qed

lemma init_resume_task:
  "sh_probe_task (SmartHelmet_SensorsDisplayResume api (SmartHelmet_SensorsInit api s)) = sh_probe_task s"
  by (simp add: SmartHelmet_SensorsDisplayResume_def SmartHelmet_SensorsInit_def Let_def sens_tasks shClearInitFail_def)

lemma sleep_task: "sh_probe_task (SmartHelmet_SensorsSleep api s) = sh_probe_task s"
  by (simp add: SmartHelmet_SensorsSleep_def Let_def shClearInitFail_def sens_tasks)

lemma tinv_log_chk:
  "tinv n (held q h) h \<Longrightarrow> tinv n (held q (snd (lis3dh_chk e b h))) (snd (lis3dh_chk e b h))"
proof -
  assume t: "tinv n (held q h) h"
  have "tinv n (held q (h_emit [H_Timer (MessageCancelAll LIS3DH_LOG_TICK)] h)) (h_emit [H_Timer (MessageCancelAll LIS3DH_LOG_TICK)] h)"
    using t by (simp add: tinv_def rest_ok_def link_ok_def)
  with t show ?thesis
    unfolding lis3dh_chk_def by (auto simp del: hpend_emit intro: tinv_log_arm tinv_log_sample)
qed

lemma tinv_init:
  assumes "tinv (polls h) (held q h) h" and "sh_powered h \<longrightarrow> sh_ready h"
  shows "tinv (polls (snd (SmartHelmet_Init e h))) (held q (snd (SmartHelmet_Init e h))) (snd (SmartHelmet_Init e h))"
proof -
  define h1 where "h1 = (if sh_ready h then SmartHelmet_Close e h else h)"
  have h1: "tinv 0 (held q h1) h1"
    using tinv_close [OF assms(1), of e] assms by (auto simp: h1_def polls_def)
  define h2 where "h2 = h1\<lparr>h_sens := (h_sens h1)\<lparr>bus := snd (SmartHelmet_I2cInit (he_api e) (bus (h_sens h1)))\<rparr>\<rparr>"
  have h2: "tinv 0 (held q h2) h2" using h1 by (simp add: h2_def tinv_sens_upd)
  define h4 where "h4 = run_uart e (SmartHelmet_UartResetHold True) (run_adc e (SmartHelmet_AdcInit True) h2)"
  have h4: "tinv 0 (held q h4) h4" unfolding h4_def by (intro tinv_reset_hold tinv_adc_init h2)
  have "tinv 0 (held q (h4\<lparr>h_sens := (h_sens h4)\<lparr>sh_log_task := True\<rparr>\<rparr>)) (h4\<lparr>h_sens := (h_sens h4)\<lparr>sh_log_task := True\<rparr>\<rparr>)"
    using h4 by (simp add: tinv_sens_upd)
  from tinv_log_chk [OF this, of e False]
  have h5: "tinv 0 (held q (SmartHelmet_SensorsSetLogTask e True h4)) (SmartHelmet_SensorsSetLogTask e True h4)"
    by (simp add: SmartHelmet_SensorsSetLogTask_def)
  have "\<not> sh_powered h1" using assms(2) by (auto simp: h1_def SmartHelmet_Close_def Let_def)
  then have p: "\<not> sh_powered h2" "\<not> sh_powered (SmartHelmet_SensorsSetLogTask e True h4)"
    by (simp_all add: h2_def h4_def SmartHelmet_SensorsSetLogTask_def lis3dh_chk_def)
  show ?thesis
    unfolding SmartHelmet_Init_def Let_def case_prod_beta h1_def [symmetric] h2_def [symmetric] h4_def [symmetric]
    using h2 h5 p by (simp add: polls_def)
qed

lemma tinv_power_on:
  assumes "tinv (polls h) (held q h) h"
  shows "tinv (polls (SmartHelmet_PowerOn e h)) (held q (SmartHelmet_PowerOn e h)) (SmartHelmet_PowerOn e h)"
proof (cases "\<not> sh_ready h \<or> sh_powered h")
  case True
  then show ?thesis using assms by (simp add: SmartHelmet_PowerOn_def)
next
  case False
  define h1 where "h1 = run_adc e (SmartHelmet_AdcInit True) (h\<lparr>sh_powered := True\<rparr>)"
  define h2 where "h2 = h1\<lparr>h_sens := SmartHelmet_SensorsDisplayResume (he_api e) (SmartHelmet_SensorsInit (he_api e) (h_sens h1))\<rparr>"
  define h3 where "h3 = run_sens (SmartHelmet_SensorsStartVerify True (h_sens h2)) h2"
  define h4 where "h4 = h3\<lparr>h_vitals := vitals_exec Ev_Init (h_vitals h3)\<rparr>"
  define h5 where "h5 = run_uart e (SmartHelmet_UartResetHold False) h4"
  define h6 where "h6 = run_uart e (\<lambda>u. snd (SmartHelmet_UartInit (he_open e) True u)) h5"
  define h7 where "h7 = run_uart e (SmartHelmet_UartStartVerify (he_link e)) h6"
  define h8 where "h8 = run_adc e (SmartHelmet_AdcRequestScan (h_adc h7)) h7"
  define h9 where "h9 = SmartHelmet_ReportStart e h8"
  have on: "SmartHelmet_PowerOn e h = h_emit [H_Timer (MessageSendLater MOTION_POLL 200)] (motion_stop h9)"
    unfolding SmartHelmet_PowerOn_def Let_def h9_def h8_def h7_def h6_def h5_def h4_def h3_def h2_def h1_def
    using False by simp
  have "tinv 0 (held q (h\<lparr>sh_powered := True\<rparr>)) (h\<lparr>sh_powered := True\<rparr>)" using assms False by (simp add: polls_def)
  then have h1: "tinv 0 (held q h1) h1" unfolding h1_def by (rule tinv_adc_init)
  have "sh_probe_task (SmartHelmet_SensorsDisplayResume (he_api e) (SmartHelmet_SensorsInit (he_api e) (h_sens h1))) =
      sh_probe_task (h_sens h1)" by (rule init_resume_task)
  then have "tinv 0 (held q h2) h2" using h1 by (simp add: h2_def tinv_sens_upd)
  then have "tinv 0 (held q h3) h3" unfolding h3_def by (rule tinv_start_verify)
  then have "tinv 0 (held q h4) h4" by (simp add: h4_def)
  then have "tinv 0 (held q h5) h5" unfolding h5_def by (rule tinv_reset_hold)
  then have h6: "tinv 0 (held q h6) h6 \<and> u_task (h_uart h6)" by (rule tinv_uart_init [OF _ h6_def])
  then have "tinv 0 (held q h7) h7" using tinv_uart_start [OF _ _ h7_def] by blast
  then have "tinv 0 (held q h8) h8" unfolding h8_def by (rule tinv_scan)
  then have "tinv 0 (held q h9) h9" unfolding h9_def by (rule tinv_report)
  then have t: "tinv 0 (held q (motion_stop h9)) (motion_stop h9)" by (rule tinv_motion_stop)
  have p: "sh_powered h9"
    by (simp add: h9_def h8_def h7_def h6_def h5_def h4_def h3_def h2_def h1_def)
  show ?thesis unfolding on using t p by (simp add: tinv_def rest_ok_def link_ok_def polls_def)
qed

lemma power_off_timers:
  assumes "tinv (polls h) (held q h) h" and "sh_powered h"
  shows "tinv 0 (held q (SmartHelmet_PowerOff e h)) (SmartHelmet_PowerOff e h)"
    and "m \<noteq> LIS3DH_LOG_TICK \<Longrightarrow> hpend q m (SmartHelmet_PowerOff e h) = 0"
proof -
  define h1 where "h1 = motion_stop (report_stop (h\<lparr>sh_powered := False, sh_motion := motion_hold_zero\<rparr>))"
  define h2 where "h2 = run_sens (SmartHelmet_SensorsStopVerify (h_sens h1)) h1"
  define h3 where "h3 = h2\<lparr>h_sens := SmartHelmet_SensorsSleep (he_api e) (h_sens h2)\<rparr>"
  define h4 where "h4 = run_uart e (SmartHelmet_UartSleep (he_link e)) h3"
  define h5 where "h5 = run_adc e (SmartHelmet_AdcStop (h_adc h4)) h4"
  have off: "SmartHelmet_PowerOff e h = h5\<lparr>h_sens := SmartHelmet_SensorsDisplayBlank (he_api e) (h_sens h5)\<rparr>"
    unfolding SmartHelmet_PowerOff_def Let_def h5_def h4_def h3_def h2_def h1_def using assms(2) by simp
  have h1: "tinv 0 (held q h1) h1"
    unfolding h1_def using assms(1) by (intro tinv_motion_stop [of "polls h"] tinv_report_stop) simp
  then have h2: "tinv 0 (held q h2) h2" unfolding h2_def by (rule tinv_stop_verify)
  then have h3: "tinv 0 (held q h3) h3" by (simp add: h3_def tinv_sens_upd sleep_task)
  have h4: "tinv 0 (held q h4) h4" by (rule tinv_uart_sleep(1) [OF h3 h4_def])
  have h5: "tinv 0 (held q h5) h5" by (rule tinv_adc_stop(1) [OF h4 h5_def])
  then show "tinv 0 (held q (SmartHelmet_PowerOff e h)) (SmartHelmet_PowerOff e h)"
    by (simp add: off tinv_sens_upd blank_task)
  show "hpend q m (SmartHelmet_PowerOff e h) = 0" if m: "m \<noteq> LIS3DH_LOG_TICK"
  proof (cases m)
    case ADC_INTERNAL_TRIGGER
    then show ?thesis by (simp add: off tinv_adc_stop(2) [OF h4 h5_def])
  next
    case ADC_SENS_TRIGGER
    then show ?thesis by (simp add: off tinv_adc_stop(2) [OF h4 h5_def])
  next
    case I2C_PROBE_RETRY
    then show ?thesis
      by (simp add: off tinv_adc_stop(2) [OF h4 h5_def] tinv_uart_sleep(2) [OF h3 h4_def] h3_def)
        (simp add: h2_def hpend_stop_verify [OF h1])
  next
    case REPORT_TICK
    then show ?thesis
      by (simp add: off tinv_adc_stop(2) [OF h4 h5_def] tinv_uart_sleep(2) [OF h3 h4_def] h3_def)
        (simp add: h2_def hpend_stop_verify [OF h1], simp add: h1_def)
  next
    case MOTION_POLL
    then show ?thesis using h5 by (simp add: off tinv_def)
  qed (use m in \<open>simp_all add: off tinv_adc_stop(2) [OF h4 h5_def] tinv_uart_sleep(2) [OF h3 h4_def]\<close>)
qed

text \<open>The debug log is the one timer that switching off does not touch.\<close>

lemma power_off_log:
  assumes "tinv (polls h) (held q h) h"
  shows "hpend q LIS3DH_LOG_TICK (SmartHelmet_PowerOff e h) = hpend q LIS3DH_LOG_TICK h"
proof (cases "sh_powered h")
  case True
  define h1 where "h1 = motion_stop (report_stop (h\<lparr>sh_powered := False, sh_motion := motion_hold_zero\<rparr>))"
  define h2 where "h2 = run_sens (SmartHelmet_SensorsStopVerify (h_sens h1)) h1"
  define h3 where "h3 = h2\<lparr>h_sens := SmartHelmet_SensorsSleep (he_api e) (h_sens h2)\<rparr>"
  define h4 where "h4 = run_uart e (SmartHelmet_UartSleep (he_link e)) h3"
  have h1: "tinv 0 (held q h1) h1"
    unfolding h1_def using assms(1) by (intro tinv_motion_stop [of "polls h"] tinv_report_stop) simp
  then have h2: "tinv 0 (held q h2) h2" unfolding h2_def by (rule tinv_stop_verify)
  then have h3: "tinv 0 (held q h3) h3" by (simp add: h3_def tinv_sens_upd sleep_task)
  have h4: "tinv 0 (held q h4) h4" by (rule tinv_uart_sleep(1) [OF h3 h4_def])
  have "hpend q LIS3DH_LOG_TICK (SmartHelmet_PowerOff e h) = hpend q LIS3DH_LOG_TICK h4"
    using True by (simp add: SmartHelmet_PowerOff_def Let_def h4_def h3_def h2_def h1_def hpend_run_adc adc_op_timers)
  also have "\<dots> = hpend q LIS3DH_LOG_TICK h3" by (simp add: tinv_uart_sleep(2) [OF h3 h4_def])
  also have "\<dots> = hpend q LIS3DH_LOG_TICK h"
    by (simp add: h3_def) (simp add: h2_def hpend_stop_verify [OF h1], simp add: h1_def)
  finally show ?thesis .
qed (simp add: SmartHelmet_PowerOff_def)

section \<open>All histories\<close>

definition timers_ok :: "'w helmet \<times> pending \<Rightarrow> bool" where
  "timers_ok s \<longleftrightarrow> tinv (polls (fst s)) (snd s) (fst s) \<and> (sh_powered (fst s) \<longrightarrow> sh_ready (fst s))"

lemma power_off_powered [simp]:
  "\<not> sh_powered (SmartHelmet_PowerOff e h)" "sh_ready (SmartHelmet_PowerOff e h) = sh_ready h"
  by (auto simp: SmartHelmet_PowerOff_def Let_def motion_stop_def report_stop_def)

lemma power_on_ready [simp]: "sh_ready (SmartHelmet_PowerOn e h) = sh_ready h"
  by (simp add: SmartHelmet_PowerOn_def Let_def motion_stop_def)

lemma power_on_powered: "sh_powered (SmartHelmet_PowerOn e h) \<longrightarrow> sh_ready h \<or> sh_powered h"
  by (simp add: SmartHelmet_PowerOn_def)

lemma tinv_power_off:
  "tinv (polls h) (held q h) h \<Longrightarrow>
   tinv (polls (SmartHelmet_PowerOff e h)) (held q (SmartHelmet_PowerOff e h)) (SmartHelmet_PowerOff e h)"
proof (cases "sh_powered h")
  case True
  assume "tinv (polls h) (held q h) h"
  from power_off_timers(1) [OF this True] show ?thesis by (simp add: polls_def)
qed (simp add: SmartHelmet_PowerOff_def)

lemma tinv_ui_refresh:
  assumes "tinv (polls h) (held q h) h"
  shows "tinv (polls (SmartHelmet_UiRefresh e n h)) (held q (SmartHelmet_UiRefresh e n h)) (SmartHelmet_UiRefresh e n h)"
proof -
  let ?h = "h\<lparr>sh_ui_state := n\<rparr>"
  have t: "tinv (polls ?h) (held q ?h) ?h" using assms by (simp add: polls_def)
  have shown: "tinv (polls (show_now e f g)) (held q (show_now e f g)) (show_now e f g)"
    if "tinv (polls g) (held q g) g" for f and g :: "'a helmet" using that by (simp add: polls_def)
  show ?thesis
    unfolding SmartHelmet_UiRefresh_def Let_def
    by (rule shown) (simp only: t tinv_power_on tinv_power_off split: if_split, simp)
qed

lemma tinv_poll_sensors:
  assumes "tinv n (held q h) h"
  shows "tinv n (held q (SmartHelmet_PollSensors e h)) (SmartHelmet_PollSensors e h)"
  using tinv_scan [OF assms, of e] assms
  by (simp add: SmartHelmet_PollSensors_def Let_def tinv_sens_upd)

lemma timers_step:
  assumes "timers_ok s" and "possible e ev (snd s)"
  shows "timers_ok (helmet_step e ev s)"
proof -
  obtain h q where s: "s = (h, q)" by fastforce
  let ?h = "h\<lparr>h_out := []\<rparr>"
  have t: "tinv (polls ?h) q ?h" and r: "sh_powered h \<longrightarrow> sh_ready h"
    using assms(1) by (simp_all add: timers_ok_def s polls_def)
  have t0: "tinv (polls ?h) (held q ?h) ?h" using t by simp
  have other: "deliver MESSAGE_OTHER q = q" by (simp add: deliver_def)
  have ready: "sh_powered (helmet_do e ev ?h) \<longrightarrow> sh_ready (helmet_do e ev ?h)"
    using r power_on_powered [of e ?h] power_on_powered [of e "?h\<lparr>sh_ui_state := n\<rparr>" for n]
    by (cases ev) (auto simp: SmartHelmet_Init_def SmartHelmet_Close_def SmartHelmet_PowerSave_def
        SmartHelmet_UiRefresh_def SmartHelmet_PollSensors_def SmartHelmet_VitalsTick_def lis3dh_chk_def
        SmartHelmet_WisunSend_def SmartHelmet_SensorsSetLogTask_def Let_def case_prod_beta)
  have "tinv (polls (helmet_do e ev ?h)) (held (deliver (event_msg ev) q) (helmet_do e ev ?h)) (helmet_do e ev ?h)"
  proof (cases ev)
    case (Do_Message chunks m)
    have "case m of Tick m \<Rightarrow> 0 < q m | _ \<Rightarrow> True" using assms(2) by (simp add: possible_def s Do_Message)
    from tinv_task_handler [OF t _ this refl] show ?thesis by (simp add: Do_Message)
  next
    case Do_Init
    then show ?thesis using tinv_init [OF t0, of e] r by (simp add: other)
  next
    case Do_PowerOn
    then show ?thesis using tinv_power_on [OF t0, of e] by (simp add: other)
  next
    case Do_PowerOff
    then show ?thesis using tinv_power_off [OF t0, of e] by (simp add: other)
  next
    case Do_PowerSave
    then show ?thesis using tinv_power_off [OF t0, of e] by (simp add: other SmartHelmet_PowerSave_def)
  next
    case (Do_UiRefresh n)
    then show ?thesis using tinv_ui_refresh [OF t0, of e n] by (simp add: other)
  next
    case Do_Close
    moreover have "polls (SmartHelmet_Close e ?h) = 0" by (simp add: polls_def SmartHelmet_Close_def Let_def)
    ultimately show ?thesis using tinv_close [OF t0, of e] by (simp add: other)
  next
    case Do_PollSensors
    moreover have "polls (SmartHelmet_PollSensors e ?h) = polls ?h"
      by (simp add: polls_def SmartHelmet_PollSensors_def Let_def)
    ultimately show ?thesis using tinv_poll_sensors [OF t0, of e] by (simp add: other)
  next
    case Do_VitalsTick
    then show ?thesis using t0 by (simp add: other SmartHelmet_VitalsTick_def polls_def)
  next
    case (Do_Log b)
    moreover have "polls (snd (lis3dh_chk e b ?h)) = polls ?h" by (simp add: polls_def lis3dh_chk_def)
    ultimately show ?thesis using tinv_log_chk [OF t0, of e b] by (simp add: other)
  next
    case Do_DisplayResume
    then show ?thesis
      using t0 by (simp add: other polls_def tinv_sens_upd SmartHelmet_SensorsDisplayResume_def sens_tasks)
  next
    case Do_DisplayBlank
    then show ?thesis using t0 by (simp add: other polls_def tinv_sens_upd sens_tasks)
  next
    case (Do_Send d)
    moreover have "polls (SmartHelmet_WisunSend e d ?h) = polls ?h" by (simp add: polls_def SmartHelmet_WisunSend_def)
    ultimately show ?thesis using tinv_send [OF t0, of e d] by (simp add: other)
  qed
  with ready show ?thesis by (simp add: timers_ok_def helmet_step_def Let_def s)
qed

lemma helmet_reach_timers: "helmet_reach s \<Longrightarrow> timers_ok s"
proof (induction rule: helmet_reach.induct)
  case (boot h0 w)
  then show ?case
    by (simp add: timers_ok_def tinv_def rest_ok_def link_ok_def helmet_boot_def polls_def uart_boot_def)
next
  case (step s e ev)
  then show ?case using timers_step by blast
qed

end
