(* ===== verification/Helmet_Behaviour.thy ===== *)
theory Helmet_Behaviour
  imports Helmet_Timers
begin

text \<open>
  What the composition does over several steps: the module stays asleep after power-off, and the
  frames a report puts on the wire.
\<close>

section \<open>Quiet after power-off\<close>

lemma quiet_message:
  assumes "\<not> u_source (h_uart h)" and "\<forall>t. msg \<noteq> Tick t" and out: "h_out h = []"
  shows "hpend q m (smartHelmetTaskHandler e chunks msg h) = q m \<and>
    \<not> u_source (h_uart (smartHelmetTaskHandler e chunks msg h))"
proof -
  let ?a = "SmartHelmet_AdcHandleMessage (he_now e) msg (h_adc h)"
  have s: "SmartHelmet_SensorsHandleMessage e msg g = (False, g)" for g
    using assms(2) by (auto simp: SmartHelmet_SensorsHandleMessage_def split: message.split)
  have held: "held q h = q" by (simp add: hpend_def out)
  have t: "smartHelmetTaskHandler e chunks msg h = snd (SmartHelmet_HandleMessage e chunks msg h)"
    using assms(2) by (simp add: smartHelmetTaskHandler_def s)
  show ?thesis
  proof (cases "fst ?a")
    case True
    then have "smartHelmetTaskHandler e chunks msg h = run_adc e (snd ?a) h"
      by (simp add: t SmartHelmet_HandleMessage_def s case_prod_beta)
    moreover have "adc_timers (snd (snd ?a)) = []"
      unfolding adc_handle_timers using assms(2) by (auto split: message.split)
    ultimately show ?thesis using assms(1) by (simp add: hpend_run_adc held)
  next
    case False
    let ?f = "SmartHelmet_UartHandleMessage (he_link e) chunks msg"
    have f: "snd (?f ((h_uart h)\<lparr>u_out := []\<rparr>)) = (h_uart h)\<lparr>u_out := []\<rparr>"
      using assms(1,2) by (auto simp: SmartHelmet_UartHandleMessage_def shUartDrain_def split: message.split)
    have "smartHelmetTaskHandler e chunks msg h = snd (run_uart_report e ?f h)"
      using False adc_unhandled [OF False] by (simp add: t SmartHelmet_HandleMessage_def s case_prod_beta run_adc_def)
    then have g: "smartHelmetTaskHandler e chunks msg h = run_uart e (\<lambda>u. snd (?f u)) h"
      by (simp add: run_uart_report_snd Let_def f)
    show ?thesis unfolding g using assms(1) by (simp add: hpend_run_uart f held)
  qed
qed

lemma power_off_stream: "sh_powered h \<Longrightarrow> \<not> u_source (h_uart (SmartHelmet_PowerOff e h))"
  by (simp add: SmartHelmet_PowerOff_def Let_def SmartHelmet_UartSleep_def SmartHelmet_UartClose_def
      SmartHelmet_UartStopVerify_def SmartHelmet_UartResetHold_def)

text \<open>The module after power-off, with the messages that can still reach it.\<close>

definition off_run :: "('w helmet_env \<times> string list \<times> message) list \<Rightarrow> 'w helmet \<times> pending \<Rightarrow> 'w helmet \<times> pending" where
  "off_run ms s = fold (\<lambda>(e, chunks, msg). helmet_step e (Do_Message chunks msg)) ms s"

lemma off_run_quiet:
  assumes "\<not> u_source (h_uart (fst s))" and "\<forall>m. snd s m = 0" and "list_all (\<lambda>(e, chunks, msg). \<forall>t. msg \<noteq> Tick t) ms"
  shows "\<forall>m. snd (off_run ms s) m = 0"
  using assms
proof (induction ms arbitrary: s)
  case (Cons x ms)
  obtain e chunks msg where x: "x = (e, chunks, msg)" by (cases x) auto
  let ?s = "helmet_step e (Do_Message chunks msg) s"
  have "\<forall>t. msg \<noteq> Tick t" using Cons.prems(3) by (simp add: x)
  moreover from this have "deliver msg (snd s) = snd s" by (auto simp: deliver_def split: message.split)
  ultimately have "\<not> u_source (h_uart (fst ?s))" "\<forall>m. snd ?s m = 0"
    using quiet_message [of "(fst s)\<lparr>h_out := []\<rparr>" msg "snd s"] Cons.prems(1,2)
    by (simp_all add: helmet_step_def Let_def)
  then have "\<forall>m. snd (off_run ms ?s) m = 0" using Cons.prems(3) by (intro Cons.IH) (simp_all add: x)
  then show ?case by (simp add: off_run_def x)
qed (simp add: off_run_def)

section \<open>Reports\<close>

definition tx_frames :: "helmet_call list \<Rightarrow> string list" where
  "tx_frames cs = concat (map (\<lambda>c. case c of H_Uart (U_Tx d) \<Rightarrow> [d] | _ \<Rightarrow> []) cs)"

fun tx_of :: "uart_call \<Rightarrow> string list" where
  "tx_of (U_Tx d) = [d]"
| "tx_of _ = []"

lemma tx_show [simp]: "h_out (show_now e f h) = h_out h"
  by (simp add: show_now_def)

lemma tx_frames_append [simp]: "tx_frames (cs @ ds) = tx_frames cs @ tx_frames ds" "tx_frames [] = []"
  by (simp_all add: tx_frames_def)

lemma tx_uart_fold: "tx_frames (h_out (fold (uart_exec e) cs h)) = tx_frames (h_out h) @ concat (map tx_of cs)"
proof (induction cs arbitrary: h)
  case (Cons c cs)
  have "tx_frames (h_out (uart_exec e c h)) = tx_frames (h_out h) @ tx_of c"
    by (cases c) (simp_all add: h_emit_def tx_frames_def)
  with Cons show ?case by simp
qed simp

lemma tx_run_uart:
  "tx_frames (h_out (run_uart e f h)) = tx_frames (h_out h) @ concat (map tx_of (u_out (f ((h_uart h)\<lparr>u_out := []\<rparr>))))"
  by (simp add: run_uart_def Let_def tx_uart_fold)

lemma tx_report_timer [simp]: "tx_frames (h_out (report_timer h)) = tx_frames (h_out h)"
  by (simp add: report_timer_def h_emit_def) (simp add: tx_frames_def)

lemma out_report_parts [simp]:
  "h_out (report_refresh e h) = h_out h" "h_out (snd (report_build h)) = h_out h"
  by (simp_all add: report_refresh_def report_build_def push_accel_def Let_def case_prod_beta)

lemma write_all_frames:
  assumes "u_sink u" and "\<And>d. le_accepts l d" and "\<forall>d\<in>set ds. d \<noteq> []"
  shows "write_frames (SmartHelmet_UartSend l) ds u = (True, u\<lparr>u_out := u_out u @ map U_Tx ds\<rparr>)"
  using assms(1,3)
proof (induction ds arbitrary: u)
  case (Cons d ds)
  have "SmartHelmet_UartSend l d u = (True, u\<lparr>u_out := u_out u @ [U_Tx d]\<rparr>)"
    using Cons.prems assms(2) by (simp add: SmartHelmet_UartSend_def emit_def)
  then show ?case using Cons.IH [of "u\<lparr>u_out := u_out u @ [U_Tx d]\<rparr>"] Cons.prems by simp
qed simp

lemma tx_probe [simp]:
  "u_sink u \<Longrightarrow> le_accepts l (take 46 c @ crlf_bytes) \<Longrightarrow> u_out (shWisunSendProbe l c u) = u_out u @ [U_Tx (take 46 c @ crlf_bytes)]"
  by (simp add: shWisunSendProbe_def SmartHelmet_UartSend_def crlf_bytes_def) (simp add: emit_def)

lemma tx_calls [simp]:
  "concat (map tx_of (u_out (shWisunArm ms u))) = concat (map tx_of (u_out u))"
  "concat (map tx_of (u_out (show_screen u))) = concat (map tx_of (u_out u))"
  "concat (map tx_of (u_out (set_offline u))) = concat (map tx_of (u_out u))"
  "concat (map tx_of (u_out (SmartHelmet_ReportStop u))) = concat (map tx_of (u_out u))"
  by (simp_all add: shWisunArm_def show_screen_def set_offline_def SmartHelmet_ReportStop_def Let_def emit_def upd_wisun_def)

lemma tx_rejoin:
  assumes "u_sink u" and "\<And>d. le_accepts l d"
  shows "concat (map tx_of (u_out (SmartHelmet_UartRejoin l u))) \<in>
    {concat (map tx_of (u_out u)), concat (map tx_of (u_out u)) @ [''exit'' @ crlf_bytes]}"
  using assms by (simp add: SmartHelmet_UartRejoin_def Let_def leave_to_def)

lemma tx_note_ok:
  assumes "u_sink u" and "\<And>d. le_accepts l d"
  shows "concat (map tx_of (u_out (SmartHelmet_UartNoteReportSent l True u))) \<in>
    {concat (map tx_of (u_out u)), concat (map tx_of (u_out u)) @ [''exit'' @ crlf_bytes]}"
  using tx_rejoin [of "u\<lparr>missed_ok := n\<rparr>" l for n] assms
  by (simp add: SmartHelmet_UartNoteReportSent_def Let_def)

lemma refresh_rest [simp]:
  "sh_motion (report_refresh e h) = sh_motion h" "sh_gas_r0_mv (report_refresh e h) = sh_gas_r0_mv h"
  by (simp_all add: report_refresh_def Let_def push_accel_def)

lemma fields_pulse: "pulse_word v = pulse_word v' \<Longrightarrow> report_fields a b c v d x y z = report_fields a b c v' d x y z"
  by (simp add: report_fields_def)

text \<open>The text a report builds, field by field.\<close>

lemma report_build_text:
  assumes "sensor_data_ok (sd (h_sens h))"
    and "g1 = shGasValue 0 (adc_mv (h_adc h) ! 1) (sh_gas_r0_mv h)"
    and "g2 = shGasValue 1 (adc_mv (h_adc h) ! 2) (snd g1)" and "g3 = shGasValue 2 (adc_mv (h_adc h) ! 3) (snd g2)"
    and "m = sh_motion h" and "r = restart_seen (h_uart h)"
  shows "fst (report_build h) = render (report_fields (mh_holding (report_motion m)) r
    (sh_fall_pending (h_vitals h)) (st (h_vitals h)) (sd (h_sens h)) (shCoPpm (fst g1)) (shNh3Ppm (fst g2)) (shNo2PpmX100 (fst g3)))"
proof -
  let ?v = "snd (SmartHelmet_VitalsTakeFall (h_vitals h))"
  have p: "pulse_word (st ?v) = pulse_word (st (h_vitals h))"
    by (simp add: SmartHelmet_VitalsTakeFall_def pulse_word_def)
  have "fst (report_build h) = fst (report_line (mh_holding (report_motion m)) r (sh_fall_pending (h_vitals h)) (st ?v)
      (sd (h_sens h)) (adc_mv (h_adc h)) (sh_gas_r0_mv h))"
    by (simp add: report_build_def Let_def case_prod_beta SmartHelmet_VitalsTakeFall_def SmartHelmet_UartTakeRestart_def assms(5,6))
  then show ?thesis
    using report_line_render [OF assms(1), of "adc_mv (h_adc h)" "sh_gas_r0_mv h" "mh_holding (report_motion m)" r
        "sh_fall_pending (h_vitals h)" "st ?v"] fields_pulse [OF p]
    unfolding Let_def assms(2-4) [symmetric] by simp
qed

section \<open>Switching on\<close>

lemma init_result:
  assumes "\<not> sh_ready h" "\<not> sh_powered h" "fst (SmartHelmet_I2cInit (he_api e) (bus (h_sens h)))"
  shows "sh_ready (snd (SmartHelmet_Init e h))" "\<not> sh_powered (snd (SmartHelmet_Init e h))"
    "hpend q LIS3DH_LOG_TICK (snd (SmartHelmet_Init e h)) = 0"
  using assms
  by (simp_all add: SmartHelmet_Init_def Let_def case_prod_beta SmartHelmet_SensorsSetLogTask_def lis3dh_chk_def)

lemma power_on_result:
  assumes "sh_ready h" "\<not> sh_powered h"
  shows "sh_powered (SmartHelmet_PowerOn e h)"
    and "hpend q LIS3DH_LOG_TICK (SmartHelmet_PowerOn e h) = hpend q LIS3DH_LOG_TICK h"
proof -
  define h3 where "h3 = (let h1 = run_adc e (SmartHelmet_AdcInit True) (h\<lparr>sh_powered := True\<rparr>);
      h2 = h1\<lparr>h_sens := SmartHelmet_SensorsDisplayResume (he_api e) (SmartHelmet_SensorsInit (he_api e) (h_sens h1))\<rparr>
    in run_sens (SmartHelmet_SensorsStartVerify True (h_sens h2)) h2)"
  define h6 where "h6 = run_uart e (\<lambda>u. snd (SmartHelmet_UartInit (he_open e) True u))
    (run_uart e (SmartHelmet_UartResetHold False) (h3\<lparr>h_vitals := vitals_exec Ev_Init (h_vitals h3)\<rparr>))"
  define h7 where "h7 = run_uart e (SmartHelmet_UartStartVerify (he_link e)) h6"
  define h8 where "h8 = run_adc e (SmartHelmet_AdcRequestScan (h_adc h7)) h7"
  have on: "SmartHelmet_PowerOn e h = h_emit [H_Timer (MessageSendLater MOTION_POLL 200)]
      (motion_stop (SmartHelmet_ReportStart e h8))"
    unfolding SmartHelmet_PowerOn_def Let_def h8_def h7_def h6_def h3_def using assms by simp
  have "\<not> passthrough (h_uart h8)" by (simp add: h8_def h7_def SmartHelmet_UartStartVerify_def leave_to_def)
  then have no: "\<not> report_can_send h8" by (simp add: report_can_send_def SmartHelmet_UartInPassthrough_def)
  have "hpend q LIS3DH_LOG_TICK h3 = hpend q LIS3DH_LOG_TICK h"
    by (simp add: h3_def Let_def hpend_run_sens hpend_run_adc adc_op_timers SmartHelmet_SensorsStartVerify_def
        shSensorsScheduleRetry_def)
  moreover have "hpend q LIS3DH_LOG_TICK h6 = hpend q LIS3DH_LOG_TICK h3"
    by (simp add: h6_def hpend_run_uart SmartHelmet_UartInit_def Let_def SmartHelmet_UartResetHold_def)
  moreover have "hpend q LIS3DH_LOG_TICK h8 = hpend q LIS3DH_LOG_TICK h6"
    by (simp add: h8_def h7_def hpend_run_adc adc_op_timers hpend_run_uart SmartHelmet_UartStartVerify_def)
  ultimately show "hpend q LIS3DH_LOG_TICK (SmartHelmet_PowerOn e h) = hpend q LIS3DH_LOG_TICK h"
    using no by (simp add: on SmartHelmet_ReportStart_def Let_def case_prod_beta)
  show "sh_powered (SmartHelmet_PowerOn e h)"
    by (simp add: on) (simp add: h8_def h7_def h6_def h3_def Let_def)
qed

end
