(* ===== verification/Application.thy ===== *)
theory Application
  imports Headset_Behaviour Helmet_Behaviour
begin

text \<open>
  The headset application and the helmet module together. The state machine calls the helmet's entry points, which
  are executed in the order it makes the calls; the helmet calls back when the border router comes online or is
  lost. Both keep their own pending messages, and messages of either task arrive in any order.
\<close>

section \<open>Calls in both directions\<close>

fun call_event :: "sm_call \<Rightarrow> helmet_event option" where
  "call_event Call_PowerOn = Some Do_PowerOn"
| "call_event Call_PowerOff = Some Do_PowerOff"
| "call_event Call_PowerSave = Some Do_PowerSave"
| "call_event (Call_UiRefresh n) = Some (Do_UiRefresh n)"
| "call_event Call_DisplayResume = Some Do_DisplayResume"
| "call_event Call_DisplayBlank = Some Do_DisplayBlank"
| "call_event _ = None"

definition app_call :: "'w helmet_env \<Rightarrow> sm_call \<Rightarrow> 'w helmet \<times> pending \<Rightarrow> 'w helmet \<times> pending" where
  "app_call he c h = (case call_event c of Some ev \<Rightarrow> helmet_step he ev h | None \<Rightarrow> h)"

definition app_calls :: "'w helmet_env \<Rightarrow> sm_call list \<Rightarrow> 'w helmet \<times> pending \<Rightarrow> 'w helmet \<times> pending" where
  "app_calls he cs = fold (app_call he) cs"

fun online_change :: "helmet_call \<Rightarrow> bool list" where
  "online_change (H_Uart (U_OnlineChanged b)) = [b]"
| "online_change _ = []"

text \<open>At the callback the link has already stored the flag the machine reads back.\<close>

definition br_callback :: "headset_env \<Rightarrow> bool \<Rightarrow> headset \<times> sm_pending \<Rightarrow> headset \<times> sm_pending" where
  "br_callback e b x = (let s = headsetSmOnWisunBrOnlineChanged (e\<lparr>q_br_online := b\<rparr>) b ((fst x)\<lparr>hs_out := []\<rparr>)
     in (s, \<lambda>m. sm_pend (snd x) m s))"

definition br_callbacks :: "headset_env \<Rightarrow> helmet_call list \<Rightarrow> headset \<times> sm_pending \<Rightarrow> headset \<times> sm_pending" where
  "br_callbacks e cs = fold (br_callback e) (concat (map online_change cs))"

section \<open>Steps and histories\<close>

type_synonym 'w app = "(headset \<times> sm_pending) \<times> ('w helmet \<times> pending)"

datatype app_event =
    App_Headset headset_event
  | App_Helmet "string list" message

fun app_step :: "headset_env \<Rightarrow> 'w helmet_env \<Rightarrow> app_event \<Rightarrow> 'w app \<Rightarrow> headset_error + 'w app" where
  "app_step e he (App_Headset ev) (x, h) = (case headset_step e ev x of
     Inl err \<Rightarrow> Inl err
   | Inr y \<Rightarrow> Inr (y, app_calls he (hs_out (fst y)) h))"
| "app_step e he (App_Helmet chunks m) (x, h) = (let h' = helmet_step he (Do_Message chunks m) h
     in Inr (br_callbacks e (h_out (fst h')) x, h'))"

text \<open>
  What can arrive: a message a task posted to itself only if it is pending; the callback only from the
  helmet; and the idle timeout reads the state of the link.
\<close>

fun app_possible :: "headset_env \<Rightarrow> 'w helmet_env \<Rightarrow> app_event \<Rightarrow> 'w app \<Rightarrow> bool" where
  "app_possible e he (App_Headset ev) (x, h) \<longleftrightarrow> is_u32 (he_now he) \<and> sm_possible ev (snd x) \<and> (\<forall>b. ev \<noteq> On_BrOnline b) \<and>
     (ev = On_Msg (Sm SM_INTERNAL_TIMEOUT_IDLE) \<longrightarrow> q_br_online e = SmartHelmet_UartIsBrOnline (h_uart (fst h)))"
| "app_possible e he (App_Helmet chunks m) (x, h) \<longleftrightarrow> possible he (Do_Message chunks m) (snd h)"

definition app_start :: "headset_env \<Rightarrow> 'w helmet_env \<Rightarrow> 'w i2c \<Rightarrow> 'w app" where
  "app_start e he b = (headset_start e, helmet_step he Do_Init (helmet_boot b, \<lambda>_. 0))"

inductive app_reach :: "'w app \<Rightarrow> bool" where
  start: "is_u32 (he_now he) \<Longrightarrow> app_reach (app_start e he (i2c_boot h0 w))"
| step: "app_reach s \<Longrightarrow> app_possible e he ev s \<Longrightarrow> app_step e he ev s = Inr t \<Longrightarrow> app_reach t"

section \<open>The parts run as they do alone\<close>

lemma app_call_reach: "helmet_reach h \<Longrightarrow> is_u32 (he_now he) \<Longrightarrow> helmet_reach (app_call he c h)"
  by (cases c) (auto simp: app_call_def possible_def msg_ok_def intro!: helmet_reach.step)

lemma app_calls_reach: "helmet_reach h \<Longrightarrow> is_u32 (he_now he) \<Longrightarrow> helmet_reach (app_calls he cs h)"
  by (induction cs arbitrary: h) (simp_all add: app_calls_def app_call_reach)

lemma br_callback_step: "headset_step (e\<lparr>q_br_online := b\<rparr>) (On_BrOnline b) x = Inr (br_callback e b x)"
  by (simp add: headset_step_def br_callback_def sm_deliver_def Let_def)

lemma br_callbacks_reach: "headset_reach x \<Longrightarrow> headset_reach (br_callbacks e cs x)"
proof -
  have "headset_reach x \<Longrightarrow> headset_reach (fold (br_callback e) bs x)" for bs
  proof (induction bs arbitrary: x)
    case (Cons b bs)
    have "headset_reach (br_callback e b x)"
      by (rule headset_reach.step [OF Cons.prems _ br_callback_step]) (simp add: sm_possible_def)
    then show ?case using Cons.IH by simp
  qed simp
  then show "headset_reach x \<Longrightarrow> headset_reach (br_callbacks e cs x)" by (simp add: br_callbacks_def)
qed

lemma app_reach_parts: "app_reach s \<Longrightarrow> headset_reach (fst s) \<and> helmet_reach (snd s)"
proof (induction rule: app_reach.induct)
  case (start he e h0 w)
  have "helmet_reach (helmet_step he Do_Init (helmet_boot (i2c_boot h0 w), \<lambda>_. 0))"
    by (rule helmet_reach.step [OF helmet_reach.boot]) (use start in \<open>simp add: possible_def msg_ok_def\<close>)
  then show ?case by (simp add: app_start_def headset_reach.start)
next
  case (step s e he ev t)
  obtain x h where s: "s = (x, h)" by (cases s)
  show ?case
  proof (cases ev)
    case (App_Headset ev')
    with step s obtain y where y: "headset_step e ev' x = Inr y" "t = (y, app_calls he (hs_out (fst y)) h)"
      by (auto split: sum.splits)
    show ?thesis using step s App_Headset y by (auto intro: headset_reach.step app_calls_reach)
  next
    case (App_Helmet chunks m)
    with step s show ?thesis
      by (auto simp: Let_def intro: br_callbacks_reach helmet_reach.step [where ev = "Do_Message chunks m"])
  qed
qed

section \<open>Entry points make no callback\<close>

definition onlines :: "helmet_call list \<Rightarrow> bool list" where
  "onlines cs = concat (map online_change cs)"

fun link_online :: "uart_call \<Rightarrow> bool list" where
  "link_online (U_OnlineChanged b) = [b]"
| "link_online _ = []"

lemma onlines_append [simp]: "onlines (cs @ ds) = onlines cs @ onlines ds" "onlines [] = []"
  by (simp_all add: onlines_def)

lemma onlines_emit [simp]: "onlines (h_out (h_emit cs h)) = onlines (h_out h) @ onlines cs"
  by (simp add: h_emit_def)

lemma onlines_timers [simp]: "onlines (map H_Timer ts) = []" "onlines [H_Timer t] = []" "onlines [H_Timer t, H_Timer t'] = []"
  by (simp_all add: onlines_def comp_def)

lemma onlines_run_adc [simp]: "onlines (h_out (run_adc e r h)) = onlines (h_out h)"
proof -
  have "onlines (h_out (fold (adc_exec e) cs h)) = onlines (h_out h)" for cs and h :: "'a helmet"
  proof (induction cs arbitrary: h)
    case (Cons c cs)
    then show ?case by (cases c) (simp_all add: onlines_def h_emit_def)
  qed simp
  then show ?thesis by (simp add: run_adc_def)
qed

lemma onlines_run_sens [simp]: "onlines (h_out (run_sens r h)) = onlines (h_out h)"
  by (simp add: run_sens_def)

lemma onlines_run_uart:
  "onlines (h_out (run_uart e f h)) = onlines (h_out h) @ concat (map link_online (u_out (f ((h_uart h)\<lparr>u_out := []\<rparr>))))"
proof -
  have "onlines (h_out (fold (uart_exec e) cs h)) = onlines (h_out h) @ concat (map link_online cs)" for cs and h :: "'a helmet"
  proof (induction cs arbitrary: h)
    case (Cons c cs)
    then show ?case by (cases c) (simp_all add: onlines_def h_emit_def)
  qed simp
  then show ?thesis by (simp add: run_uart_def Let_def)
qed

lemma link_quiet_calls:
  "concat (map link_online (u_out (shWisunSendProbe e d u))) = concat (map link_online (u_out u))"
  "concat (map link_online (u_out (snd (SmartHelmet_UartSend e d u)))) = concat (map link_online (u_out u))"
  "concat (map link_online (u_out (shWisunArm ms u))) = concat (map link_online (u_out u))"
  "concat (map link_online (u_out (SmartHelmet_UartResetHold b u))) = concat (map link_online (u_out u))"
  by (simp_all add: shWisunSendProbe_def SmartHelmet_UartSend_def shWisunArm_def SmartHelmet_UartResetHold_def emit_def
      upd_wisun_def)

lemma link_entry_calls:
  "concat (map link_online (u_out (SmartHelmet_UartStartVerify l u))) = concat (map link_online (u_out u))"
  "concat (map link_online (u_out (snd (SmartHelmet_UartInit so t u)))) = concat (map link_online (u_out u))"
  "concat (map link_online (u_out (SmartHelmet_UartClose l u))) = concat (map link_online (u_out u))"
  "concat (map link_online (u_out (SmartHelmet_UartSleep l u))) = concat (map link_online (u_out u))"
proof -
  have e: "concat (map link_online (u_out (emit c u))) = concat (map link_online (u_out u)) @ link_online c" for c u
    by (simp add: emit_def)
  have stop: "concat (map link_online (u_out (SmartHelmet_UartStopVerify u))) = concat (map link_online (u_out u))" for u
    by (simp add: SmartHelmet_UartStopVerify_def e)
  have close: "concat (map link_online (u_out (SmartHelmet_UartClose l u))) = concat (map link_online (u_out u))" for u
    by (simp add: SmartHelmet_UartClose_def Let_def link_quiet_calls e stop)
  show "concat (map link_online (u_out (SmartHelmet_UartStartVerify l u))) = concat (map link_online (u_out u))"
    by (simp add: SmartHelmet_UartStartVerify_def leave_to_def link_quiet_calls)
  show "concat (map link_online (u_out (snd (SmartHelmet_UartInit so t u)))) = concat (map link_online (u_out u))"
    by (simp add: SmartHelmet_UartInit_def Let_def e)
  show "concat (map link_online (u_out (SmartHelmet_UartClose l u))) = concat (map link_online (u_out u))" by (rule close)
  show "concat (map link_online (u_out (SmartHelmet_UartSleep l u))) = concat (map link_online (u_out u))"
    by (simp add: SmartHelmet_UartSleep_def Let_def close link_quiet_calls stop upd_wisun_def)
qed

lemma power_on_callback: "onlines (h_out (SmartHelmet_PowerOn e h)) = onlines (h_out h)"
proof -
  have r: "onlines (h_out (SmartHelmet_ReportStart e g)) = onlines (h_out g)" if "\<not> passthrough (h_uart g)" for g :: "'a helmet"
    using that by (simp add: SmartHelmet_ReportStart_def report_can_send_def SmartHelmet_UartInPassthrough_def case_prod_beta
        report_timer_def)
  show ?thesis
    by (simp add: SmartHelmet_PowerOn_def Let_def motion_stop_def onlines_run_uart link_entry_calls link_quiet_calls r
        SmartHelmet_UartStartVerify_def leave_to_def)
qed

lemma power_off_callback: "onlines (h_out (SmartHelmet_PowerOff e h)) = onlines (h_out h)"
  by (simp add: SmartHelmet_PowerOff_def Let_def motion_stop_def report_stop_def onlines_run_uart link_entry_calls)

text \<open>No call of the state machine makes the helmet call back within the same handler.\<close>

lemma app_call_no_callback: "call_event c = Some ev \<Longrightarrow> onlines (h_out (helmet_do he ev (h\<lparr>h_out := []\<rparr>))) = []"
  by (cases c) (auto simp: power_on_callback power_off_callback SmartHelmet_PowerSave_def SmartHelmet_UiRefresh_def Let_def
      split: if_splits)

section \<open>The helmet's power\<close>

lemma power_on_result_flag: "sh_powered (SmartHelmet_PowerOn e h) = (sh_ready h \<or> sh_powered h)"
  by (auto simp: SmartHelmet_PowerOn_def Let_def motion_stop_def)

lemma app_call_power:
  assumes "sh_powered (fst h) \<longrightarrow> sh_ready (fst h)"
  shows "sh_ready (fst (app_call he c h)) = sh_ready (fst h)"
    "sh_powered (fst (app_call he c h)) = (sh_ready (fst h) \<and> power_apply c (sh_powered (fst h)))"
  using assms by (cases c; auto simp: app_call_def helmet_step_def SmartHelmet_PowerSave_def SmartHelmet_UiRefresh_def
      power_on_result_flag Let_def split: if_splits)+

lemma app_calls_power:
  assumes "sh_powered (fst h) \<longrightarrow> sh_ready (fst h)"
  shows "sh_ready (fst (app_calls he cs h)) = sh_ready (fst h) \<and>
    sh_powered (fst (app_calls he cs h)) = (sh_ready (fst h) \<and> fold power_apply cs (sh_powered (fst h)))"
  using assms
proof (induction cs arbitrary: h)
  case (Cons c cs)
  show ?case
    using Cons.IH [of "app_call he c h"] app_call_power [OF Cons.prems, of he c]
    by (cases "sh_ready (fst h)") (simp_all add: app_calls_def)
qed (auto simp: app_calls_def)

text \<open>The helmet is powered exactly in the four states of use, if its initialisation succeeded.\<close>

definition power_follows :: "'w app \<Rightarrow> bool" where
  "power_follows s \<longleftrightarrow> sh_powered (fst (snd s)) = (sh_ready (fst (snd s)) \<and> on_state (hs_state (fst (fst s))))"

lemma init_powered: "\<not> sh_powered h \<Longrightarrow> \<not> sh_powered (snd (SmartHelmet_Init e h))"
  by (simp add: SmartHelmet_Init_def SmartHelmet_Close_def SmartHelmet_SensorsSetLogTask_def lis3dh_chk_def Let_def
      case_prod_beta)

lemma br_callbacks_state [simp]: "hs_state (fst (br_callbacks e cs x)) = hs_state (fst x)"
proof -
  have "hs_state (fst (fold (br_callback e) bs x)) = hs_state (fst x)" for bs
    by (induction bs arbitrary: x)
      (simp_all add: br_callback_def headsetSmOnWisunBrOnlineChanged_def Let_def)
  then show ?thesis by (simp add: br_callbacks_def)
qed

lemma app_power_step:
  assumes "headset_inv (fst s)" "power_follows s" "app_step e he ev s = Inr t"
  shows "power_follows t"
proof (cases ev)
  case (App_Headset ev')
  obtain x h where s: "s = (x, h)" by (cases s)
  from assms(3) s App_Headset obtain y where
    y: "headset_step e ev' x = Inr y" "t = (y, app_calls he (hs_out (fst y)) h)" by (auto split: sum.splits)
  have "fold power_apply (hs_out (fst y)) (on_state (hs_state (fst x))) = on_state (hs_state (fst y))"
    using headset_step_inv(2) [OF _ y(1)] assms(1) s by (simp add: power_after_def)
  with app_calls_power [of h he "hs_out (fst y)"] assms(2) s y show ?thesis by (auto simp: power_follows_def)
next
  case (App_Helmet chunks m)
  with assms show ?thesis by (cases s) (auto simp: power_follows_def helmet_step_def Let_def)
qed

lemma app_reach_power: "app_reach s \<Longrightarrow> power_follows s"
proof (induction rule: app_reach.induct)
  case (start he e h0 w)
  show ?case
    by (simp add: app_start_def power_follows_def headset_start_def HeadsetWiredAudioController_Init_def headsetSmInit_def helmet_step_def on_state_def Let_def
        init_powered helmet_boot_def)
next
  case (step s e he ev t)
  then show ?case using app_power_step [OF headset_reach_inv] app_reach_parts by blast
qed

section \<open>The panel in limbo\<close>

definition helmet_calls :: "headset \<Rightarrow> sm_call list" where
  "helmet_calls s = filter (\<lambda>c. call_event c \<noteq> None) (hs_out s)"

lemma helmet_calls_emit [simp]: "helmet_calls (sm_emit cs s) = helmet_calls s @ filter (\<lambda>c. call_event c \<noteq> None) cs"
  by (simp add: helmet_calls_def)

lemma helmet_calls_upd [simp]:
  "helmet_calls (s\<lparr>limbo_charge_event := c\<rparr>) = helmet_calls s" "helmet_calls (s\<lparr>limbo_charge_led := l\<rparr>) = helmet_calls s"
  "helmet_calls (s\<lparr>limbo_charge_high := b\<rparr>) = helmet_calls s" "helmet_calls (s\<lparr>limbo_soc_registered := b\<rparr>) = helmet_calls s"
  "helmet_calls (s\<lparr>hs_out := []\<rparr>) = []"
  by (simp_all add: helmet_calls_def)

lemma helmet_calls_timers [simp]:
  "helmet_calls (headsetSmStartLimboTimer s) = helmet_calls s" "helmet_calls (headsetSmStopLimboTimer s) = helmet_calls s"
  "helmet_calls (headsetSmStopChargeVbatLog s) = helmet_calls s" "helmet_calls (headsetSmLogChargeVbat e s) = helmet_calls s"
  by (simp_all add: sm_timer_defs headsetSmLogChargeVbat_def)

lemma app_calls_filter: "app_calls he (filter (\<lambda>c. call_event c \<noteq> None) cs) h = app_calls he cs h"
proof (induction cs arbitrary: h)
  case (Cons c cs)
  then show ?case by (cases "call_event c") (simp_all add: app_calls_def app_call_def)
qed (simp add: app_calls_def)

text \<open>The charging indication calls the helmet only to refresh the screen.\<close>

lemma apply_led_calls:
  "set (helmet_calls (headsetSmApplyLimboChargeLed e s)) \<subseteq> set (helmet_calls s) \<union> {Call_UiRefresh 2}"
proof -
  obtain c s2 where c: "headsetSmLimboChargeLedChoice e (register_soc e s) = (c, s2)" by (meson surj_pair)
  have "helmet_calls (register_soc e s) = helmet_calls s" by (simp add: register_soc_def)
  moreover have "helmet_calls s2 = helmet_calls (register_soc e s)"
    using c by (auto simp: headsetSmLimboChargeLedChoice_def charge_test_disable_def Let_def split: if_splits)
  ultimately show ?thesis
    by (auto simp: headsetSmApplyLimboChargeLed_def c limbo_charge_led_set_def limbo_charge_display_def
        SMART_HELMET_ENABLE_SSD1315_def Let_def split: if_splits)
qed

definition charge_event :: "headset_event \<Rightarrow> bool" where
  "charge_event ev \<longleftrightarrow> ev = On_Msg SOC_UPDATE_IND \<or> ev = On_Msg (Sm SM_INTERNAL_CHARGE_VBAT_LOG) \<or> (\<exists>m. ev = On_Msg (Charger m))"

lemma charge_event_step:
  assumes "charge_event ev" "hs_state (fst x) = HEADSET_STATE_LIMBO"
  shows "\<exists>y. headset_step e ev x = Inr y \<and> hs_state (fst y) = HEADSET_STATE_LIMBO \<and>
    set (helmet_calls (fst y)) \<subseteq> {Call_UiRefresh 2}"
proof -
  let ?s = "(fst x)\<lparr>hs_out := []\<rparr>"
  have led: "set (helmet_calls (headsetSmApplyLimboChargeLed e (?s\<lparr>limbo_charge_event := m\<rparr>))) \<subseteq> {Call_UiRefresh 2}" for m
    using apply_led_calls [of e "?s\<lparr>limbo_charge_event := m\<rparr>"] by simp
  have log: "hs_state (headsetSmLogChargeVbat e t) = hs_state t" for t
    by (simp add: headsetSmLogChargeVbat_def sm_timer_defs)
  have chg: "headset_do e (On_Msg (Charger m)) ?s = Inr (headsetSmApplyLimboChargeLed e (?s\<lparr>limbo_charge_event := m\<rparr>))" for m
    using assms(2) by (cases m) (simp_all add: charger_to_limbo_def headsetSmNoteChargerEvent_def
        headsetSmHandleChargerMessageDetached_def)
  consider "ev = On_Msg SOC_UPDATE_IND" | "ev = On_Msg (Sm SM_INTERNAL_CHARGE_VBAT_LOG)" | m where "ev = On_Msg (Charger m)"
    using assms(1) by (auto simp: charge_event_def)
  then show ?thesis
  proof cases
    case 1
    then show ?thesis using assms(2) apply_led_calls [of e ?s] by (simp add: headset_step_def)
  next
    case 2
    then show ?thesis using assms(2) log [of ?s] by (simp add: headset_step_def)
  next
    case 3
    then show ?thesis using assms(2) chg [of m] led [of m] by (simp add: headset_step_def del: headset_do.simps)
  qed
qed

text \<open>A panel that power-off has blanked is not woken by a screen refresh.\<close>

lemma refresh_stays_blank:
  assumes "sh_display_blanked (h_sens (fst h))" "\<not> sh_powered (fst h)"
  shows "sh_display_blanked (h_sens (fst (helmet_step he (Do_UiRefresh 2) h))) \<and> \<not> sh_powered (fst (helmet_step he (Do_UiRefresh 2) h))"
proof -
  have "sh_display_blanked (SmartHelmet_SensorsShowAdcMv api u s)" if "sh_display_blanked s" for api u and s :: "'a sensors"
    using that by (simp add: SmartHelmet_SensorsShowAdcMv_def SmartHelmet_SensorsDisplayBlank_def shClearInitFail_def Let_def)
  with assms show ?thesis by (simp add: helmet_step_def SmartHelmet_UiRefresh_def show_now_def Let_def)
qed

lemma refreshes_stay_blank:
  "set cs \<subseteq> {Call_UiRefresh 2} \<Longrightarrow> sh_display_blanked (h_sens (fst h)) \<and> \<not> sh_powered (fst h) \<Longrightarrow>
   sh_display_blanked (h_sens (fst (app_calls he cs h))) \<and> \<not> sh_powered (fst (app_calls he cs h))"
proof (induction cs arbitrary: h)
  case (Cons c cs)
  then show ?case using refresh_stays_blank [of h he] by (simp add: app_calls_def app_call_def)
qed (simp add: app_calls_def)

fun app_run :: "(headset_env \<times> 'w helmet_env \<times> app_event) list \<Rightarrow> 'w app \<Rightarrow> headset_error + 'w app" where
  "app_run [] s = Inr s"
| "app_run ((e, he, ev) # evs) s = (case app_step e he ev s of Inl err \<Rightarrow> Inl err | Inr t \<Rightarrow> app_run evs t)"

lemma charge_run_blank:
  assumes "hs_state (fst x) = HEADSET_STATE_LIMBO" "sh_display_blanked (h_sens (fst h)) \<and> \<not> sh_powered (fst h)"
    and "\<forall>(e, he, ev)\<in>set evs. \<exists>m. ev = App_Headset m \<and> charge_event m"
  shows "\<exists>y g. app_run evs (x, h) = Inr (y, g) \<and> hs_state (fst y) = HEADSET_STATE_LIMBO \<and> sh_display_blanked (h_sens (fst g))"
  using assms
proof (induction evs arbitrary: x h)
  case (Cons a evs)
  then obtain e he m where a: "a = (e, he, App_Headset m)" "charge_event m" by (cases a) auto
  obtain y where y: "headset_step e m x = Inr y" "hs_state (fst y) = HEADSET_STATE_LIMBO"
      "set (helmet_calls (fst y)) \<subseteq> {Call_UiRefresh 2}"
    using charge_event_step [OF a(2) Cons.prems(1)] by blast
  have "sh_display_blanked (h_sens (fst (app_calls he (hs_out (fst y)) h))) \<and> \<not> sh_powered (fst (app_calls he (hs_out (fst y)) h))"
    using refreshes_stay_blank [OF y(3) Cons.prems(2), of he] unfolding helmet_calls_def app_calls_filter .
  from Cons.IH [OF y(2) this] Cons.prems(3) show ?case by (simp add: a y(1))
qed simp

end
