(* ===== verification/Machine.thy ===== *)
theory Machine
  imports Main
begin

text \<open>
  Sequences of operations on a component that may stop the program: an operation yields the next
  state or \<open>None\<close> (the code panics or its behaviour is undefined), and \<open>run\<close> executes a list of
  them. The locale \<open>kept_invariant\<close> is the contract of such a component: an invariant that every
  operation keeps; \<open>safe_machine\<close> adds that permitted operations do not stop the program.
  The power manager, the charger monitor, the system state machine and the state of charge are
  instances.
\<close>

primrec run :: "('op \<Rightarrow> 's \<Rightarrow> 's option) \<Rightarrow> 'op list \<Rightarrow> 's \<Rightarrow> 's option" where
  "run f [] s = Some s"
| "run f (x # xs) s = (case f x s of None \<Rightarrow> None | Some t \<Rightarrow> run f xs t)"

lemma run_append: "run f (xs @ ys) s = (case run f xs s of None \<Rightarrow> None | Some t \<Rightarrow> run f ys t)"
  by (induction xs arbitrary: s) (auto split: option.split)

locale kept_invariant =
  fixes f :: "'op \<Rightarrow> 's \<Rightarrow> 's option" and inv :: "'s \<Rightarrow> bool"
  assumes keep: "inv s \<Longrightarrow> f x s = Some t \<Longrightarrow> inv t"
begin

lemma run_keeps: "inv s \<Longrightarrow> run f xs s = Some t \<Longrightarrow> inv t"
  by (induction xs arbitrary: s) (auto intro: keep split: option.splits)

end

locale safe_machine = kept_invariant +
  fixes allowed :: "'a \<Rightarrow> bool"
  assumes safe: "inv s \<Longrightarrow> allowed x \<Longrightarrow> f x s \<noteq> None"
begin

lemma run_safe: "inv s \<Longrightarrow> list_all allowed xs \<Longrightarrow> \<exists>t. run f xs s = Some t \<and> inv t"
proof (induction xs arbitrary: s)
  case (Cons x xs)
  then obtain t where t: "f x s = Some t" using safe by fastforce
  with Cons show ?case using keep [OF _ t] by simp
qed simp

end

end
