(* ===== verification/System_State.thy ===== *)
theory System_State
  imports Headset Machine
begin

text \<open>
  The power states of the system and the step tables run between them
  (\<^verbatim>\<open>src/adk/src/domains/power/system_state/system_state.c\<close>), with the tables the headset registers
  (\<^verbatim>\<open>headset_init.c\<close>). A table is a list of steps; a step names the function it calls, the message
  it waits for and the function called on that message. The calls are collected in \<open>ss_out\<close>.

  The task handler indexes the table with the current position without a bounds check: reading past
  the table is undefined in C and \<open>None\<close> here.
\<close>

section \<open>Tables and state\<close>

datatype ('f, 'm, 'h) system_state_step = Step (step_fun: 'f) (async_message_id: "'m option") (async_handler: "'h option")

datatype transition = tbl_init | tbl_startup | tbl_power_on | tbl_power_off | tbl_sleep | tbl_shutdown | tbl_emergency_shutdown

datatype ('f, 'h) system_call =
    Notify_State system_state system_state
  | Run_Step 'f
  | Run_Handler 'h

record ('f, 'm, 'h) system_state_ctx =
  ss_state :: system_state
  is_limbo_removed :: bool
  tr_current :: "transition option"
  tr_index :: nat
  state_on_completition :: system_state
  tables :: "transition \<Rightarrow> ('f, 'm, 'h) system_state_step list option"
  ss_out :: "('f, 'h) system_call list"

definition ss_emit :: "('f, 'h) system_call list \<Rightarrow> ('f, 'm, 'h) system_state_ctx \<Rightarrow> ('f, 'm, 'h) system_state_ctx" where
  "ss_emit cs s = s\<lparr>ss_out := ss_out s @ cs\<rparr>"

definition table_of :: "transition \<Rightarrow> ('f, 'm, 'h) system_state_ctx \<Rightarrow> ('f, 'm, 'h) system_state_step list" where
  "table_of t s = (case tables s t of None \<Rightarrow> [] | Some tbl \<Rightarrow> tbl)"

section \<open>Operations\<close>

definition SystemState_Init :: "('f, 'm, 'h) system_state_ctx" where
  "SystemState_Init = \<lparr>ss_state = system_state_powered_off, is_limbo_removed = False, tr_current = None, tr_index = 0,
     state_on_completition = system_state_powered_off, tables = \<lambda>_. None, ss_out = []\<rparr>"

definition SystemState_RemoveLimboState :: "('f, 'm, 'h) system_state_ctx \<Rightarrow> ('f, 'm, 'h) system_state_ctx" where
  "SystemState_RemoveLimboState s = s\<lparr>is_limbo_removed := True\<rparr>"

definition systemState_RegisterTable ::
  "transition \<Rightarrow> ('f, 'm, 'h) system_state_step list \<Rightarrow> ('f, 'm, 'h) system_state_ctx \<Rightarrow> ('f, 'm, 'h) system_state_ctx" where
  "systemState_RegisterTable t tbl s = s\<lparr>tables := (tables s)(t \<mapsto> tbl)\<rparr>"

definition systemState_SetState :: "system_state \<Rightarrow> ('f, 'm, 'h) system_state_ctx \<Rightarrow> ('f, 'm, 'h) system_state_ctx" where
  "systemState_SetState new s = (ss_emit [Notify_State (ss_state s) new] s)\<lparr>ss_state := new\<rparr>"

definition systemState_CompleteTransition :: "('f, 'm, 'h) system_state_ctx \<Rightarrow> ('f, 'm, 'h) system_state_ctx" where
  "systemState_CompleteTransition s = systemState_SetState (state_on_completition s) s"

text \<open>The loop of \<^verbatim>\<open>systemState_DoTransition\<close>: run steps until one waits for a message.\<close>

function transition_loop ::
  "('f, 'm, 'h) system_state_step list \<Rightarrow> ('f, 'm, 'h) system_state_ctx \<Rightarrow> ('f, 'm, 'h) system_state_ctx" where
  "transition_loop tbl s =
     (if tr_index s < length tbl
      then let st = tbl ! tr_index s; s1 = ss_emit [Run_Step (step_fun st)] s
           in if async_message_id st \<noteq> None then s1
              else transition_loop tbl (s1\<lparr>tr_index := tr_index s1 + 1\<rparr>)
      else systemState_CompleteTransition s)"
  by auto

termination transition_loop
  by (relation "measure (\<lambda>(tbl, s). length tbl - tr_index s)") (auto simp: ss_emit_def)

declare transition_loop.simps [simp del]

text \<open>\<^verbatim>\<open>index\<close> is an \<^verbatim>\<open>unsigned\<close> that starts at -1 and is incremented first.\<close>

definition systemState_DoTransition :: "transition \<Rightarrow> ('f, 'm, 'h) system_state_ctx \<Rightarrow> ('f, 'm, 'h) system_state_ctx" where
  "systemState_DoTransition t s = transition_loop (table_of t s) (s\<lparr>tr_index := (tr_index s + 1) mod 2 ^ 32\<rparr>)"

definition systemState_SetupCurrentTransition ::
  "transition \<Rightarrow> system_state \<Rightarrow> ('f, 'm, 'h) system_state_ctx \<Rightarrow> ('f, 'm, 'h) system_state_ctx" where
  "systemState_SetupCurrentTransition t end_state s =
     s\<lparr>tr_current := Some t, tr_index := 2 ^ 32 - 1, state_on_completition := end_state\<rparr>"

definition systemState_InitiateTransiton ::
  "system_state set \<Rightarrow> system_state \<Rightarrow> system_state \<Rightarrow> transition \<Rightarrow> ('f, 'm, 'h) system_state_ctx \<Rightarrow>
     bool \<times> ('f, 'm, 'h) system_state_ctx" where
  "systemState_InitiateTransiton start_state transitional_state end_state t s =
     (if ss_state s \<notin> start_state then (False, s)
      else (True, systemState_DoTransition t
             (systemState_SetupCurrentTransition t end_state (systemState_SetState transitional_state s))))"

definition SystemState_Initialise :: "('f, 'm, 'h) system_state_ctx \<Rightarrow> bool \<times> ('f, 'm, 'h) system_state_ctx" where
  "SystemState_Initialise s =
     systemState_InitiateTransiton {system_state_powered_off} system_state_initialisation system_state_initialised tbl_init s"

definition SystemState_StartUp :: "('f, 'm, 'h) system_state_ctx \<Rightarrow> bool \<times> ('f, 'm, 'h) system_state_ctx" where
  "SystemState_StartUp s =
     systemState_InitiateTransiton {system_state_initialised} system_state_starting_up
       (if is_limbo_removed s then system_state_active else system_state_limbo) tbl_startup s"

definition SystemState_PowerOn_op :: "('f, 'm, 'h) system_state_ctx \<Rightarrow> bool \<times> ('f, 'm, 'h) system_state_ctx" where
  "SystemState_PowerOn_op s =
     (if is_limbo_removed s then (False, s)
      else systemState_InitiateTransiton {system_state_powering_off, system_state_limbo} system_state_powering_on
             system_state_active tbl_power_on s)"

definition SystemState_PowerOff_op :: "('f, 'm, 'h) system_state_ctx \<Rightarrow> bool \<times> ('f, 'm, 'h) system_state_ctx" where
  "SystemState_PowerOff_op s =
     (if is_limbo_removed s then (False, s)
      else systemState_InitiateTransiton {system_state_powering_on, system_state_active} system_state_powering_off
             system_state_limbo tbl_power_off s)"

definition SystemState_Sleep :: "('f, 'm, 'h) system_state_ctx \<Rightarrow> bool \<times> ('f, 'm, 'h) system_state_ctx" where
  "SystemState_Sleep s =
     systemState_InitiateTransiton {if is_limbo_removed s then system_state_active else system_state_limbo}
       system_state_going_to_sleep system_state_sleeping tbl_sleep s"

definition SystemState_Shutdown :: "('f, 'm, 'h) system_state_ctx \<Rightarrow> bool \<times> ('f, 'm, 'h) system_state_ctx" where
  "SystemState_Shutdown s =
     systemState_InitiateTransiton {if is_limbo_removed s then system_state_active else system_state_limbo}
       system_state_shutting_down system_state_powered_off tbl_shutdown s"

definition SystemState_EmergencyShutdown :: "('f, 'm, 'h) system_state_ctx \<Rightarrow> bool \<times> ('f, 'm, 'h) system_state_ctx" where
  "SystemState_EmergencyShutdown s =
     (True, systemState_DoTransition tbl_emergency_shutdown
       (systemState_SetupCurrentTransition tbl_emergency_shutdown system_state_powered_off
         (systemState_SetState system_state_shutting_down_promptly s)))"

text \<open>A message to the task of the current transition.\<close>

definition systemState_MessageHandler ::
  "'m \<Rightarrow> ('f, 'm, 'h) system_state_ctx \<Rightarrow> ('f, 'm, 'h) system_state_ctx option" where
  "systemState_MessageHandler m s = (case tr_current s of
     None \<Rightarrow> Some s
   | Some t \<Rightarrow> (case tables s t of
       None \<Rightarrow> Some s
     | Some tbl \<Rightarrow>
         if length tbl \<le> tr_index s then None
         else if async_message_id (tbl ! tr_index s) \<noteq> Some m then Some s
         else Some (systemState_DoTransition t
                (case async_handler (tbl ! tr_index s) of None \<Rightarrow> s | Some h \<Rightarrow> ss_emit [Run_Handler h] s))))"

section \<open>The life cycle\<close>

text \<open>
  The documented transitions: a stable state is left through a transitional one, an emergency shutdown
  from everywhere. \<open>r\<close> says that the limbo state has been removed.
\<close>

definition lifecycle :: "bool \<Rightarrow> (system_state \<times> system_state) set" where
  "lifecycle r =
     {(system_state_powered_off, system_state_initialisation), (system_state_initialisation, system_state_initialised),
      (system_state_initialised, system_state_starting_up), (system_state_going_to_sleep, system_state_sleeping),
      (system_state_shutting_down, system_state_powered_off),
      (system_state_shutting_down_promptly, system_state_powered_off)} \<union>
     (\<lambda>x. (x, system_state_shutting_down_promptly)) ` UNIV \<union>
     (if r
      then {(system_state_starting_up, system_state_active), (system_state_active, system_state_going_to_sleep),
            (system_state_active, system_state_shutting_down)}
      else {(system_state_starting_up, system_state_limbo), (system_state_limbo, system_state_powering_on),
            (system_state_powering_off, system_state_powering_on), (system_state_powering_on, system_state_active),
            (system_state_powering_on, system_state_powering_off), (system_state_active, system_state_powering_off),
            (system_state_powering_off, system_state_limbo), (system_state_limbo, system_state_going_to_sleep),
            (system_state_limbo, system_state_shutting_down)})"

datatype 'm system_op =
    Op_Initialise
  | Op_StartUp
  | Op_PowerOn
  | Op_PowerOff
  | Op_GoToSleep
  | Op_Shutdown
  | Op_EmergencyShutdown
  | Op_Message 'm

fun system_do :: "'m system_op \<Rightarrow> ('f, 'm, 'h) system_state_ctx \<Rightarrow> ('f, 'm, 'h) system_state_ctx option" where
  "system_do Op_Initialise s = Some (snd (SystemState_Initialise s))"
| "system_do Op_StartUp s = Some (snd (SystemState_StartUp s))"
| "system_do Op_PowerOn s = Some (snd (SystemState_PowerOn_op s))"
| "system_do Op_PowerOff s = Some (snd (SystemState_PowerOff_op s))"
| "system_do Op_GoToSleep s = Some (snd (SystemState_Sleep s))"
| "system_do Op_Shutdown s = Some (snd (SystemState_Shutdown s))"
| "system_do Op_EmergencyShutdown s = Some (snd (SystemState_EmergencyShutdown s))"
| "system_do (Op_Message m) s = systemState_MessageHandler m s"

fun state_note :: "('f, 'h) system_call \<Rightarrow> (system_state \<times> system_state) list" where
  "state_note (Notify_State a b) = [(a, b)]"
| "state_note _ = []"

definition state_notes :: "('f, 'h) system_call list \<Rightarrow> (system_state \<times> system_state) list" where
  "state_notes cs = concat (map state_note cs)"

fun walks :: "'a \<Rightarrow> ('a \<times> 'a) list \<Rightarrow> 'a \<Rightarrow> bool" where
  "walks a [] b \<longleftrightarrow> a = b"
| "walks a ((x, y) # ps) b \<longleftrightarrow> a = x \<and> walks y ps b"

lemma walks_snoc: "walks a (ps @ [(x, y)]) b \<longleftrightarrow> walks a ps x \<and> y = b"
  by (induction a ps b rule: walks.induct) auto

lemma state_notes_append [simp]: "state_notes (xs @ ys) = state_notes xs @ state_notes ys"
  by (simp add: state_notes_def)

lemma state_notes_simps [simp]:
  "state_notes [] = []" "state_notes [Notify_State x y] = [(x, y)]" "state_notes [Run_Step g] = []" "state_notes [Run_Handler k] = []"
  by (simp_all add: state_notes_def)

text \<open>The notifications so far form a path of the life cycle from \<open>a\<close> to the current state.\<close>

definition traced :: "bool \<Rightarrow> system_state \<Rightarrow> ('f, 'm, 'h) system_state_ctx \<Rightarrow> bool" where
  "traced r a s \<longleftrightarrow> walks a (state_notes (ss_out s)) (ss_state s) \<and> set (state_notes (ss_out s)) \<subseteq> lifecycle r \<and>
     is_limbo_removed s = r"

text \<open>A transition that still waits for a message ends in a state its current state may be left for.\<close>

definition awaits :: "('f, 'm, 'h) system_state_ctx \<Rightarrow> bool" where
  "awaits s \<longleftrightarrow> (case tr_current s of None \<Rightarrow> False | Some t \<Rightarrow> tr_index s < length (table_of t s))"

definition system_inv :: "bool \<Rightarrow> system_state \<Rightarrow> ('f, 'm, 'h) system_state_ctx \<Rightarrow> bool" where
  "system_inv r a s \<longleftrightarrow> traced r a s \<and> (awaits s \<longrightarrow> (ss_state s, state_on_completition s) \<in> lifecycle r)"

lemma traced_emit [simp]:
  "traced r a (ss_emit [Run_Step g] s) \<longleftrightarrow> traced r a s" "traced r a (ss_emit [Run_Handler k] s) \<longleftrightarrow> traced r a s"
  by (simp_all add: traced_def ss_emit_def)

lemma traced_upd [simp]:
  "traced r a (s\<lparr>tr_index := i\<rparr>) \<longleftrightarrow> traced r a s" "traced r a (s\<lparr>tr_current := t\<rparr>) \<longleftrightarrow> traced r a s"
  "traced r a (s\<lparr>state_on_completition := x\<rparr>) \<longleftrightarrow> traced r a s"
  by (simp_all add: traced_def)

lemma traced_set_state: "traced r a s \<Longrightarrow> (ss_state s, new) \<in> lifecycle r \<Longrightarrow> traced r a (systemState_SetState new s)"
  by (auto simp: traced_def systemState_SetState_def ss_emit_def walks_snoc)

lemma ss_frame [simp]:
  "ss_state (ss_emit cs s) = ss_state s" "tr_current (ss_emit cs s) = tr_current s" "tr_index (ss_emit cs s) = tr_index s"
  "tables (ss_emit cs s) = tables s" "state_on_completition (ss_emit cs s) = state_on_completition s"
  "is_limbo_removed (ss_emit cs s) = is_limbo_removed s" "ss_out (ss_emit cs s) = ss_out s @ cs"
  "tr_current (systemState_SetState x s) = tr_current s" "tr_index (systemState_SetState x s) = tr_index s"
  "tables (systemState_SetState x s) = tables s" "ss_state (systemState_SetState x s) = x"
  "state_on_completition (systemState_SetState x s) = state_on_completition s"
  "is_limbo_removed (systemState_SetState x s) = is_limbo_removed s"
  "ss_out (systemState_SetState x s) = ss_out s @ [Notify_State (ss_state s) x]"
  by (simp_all add: ss_emit_def systemState_SetState_def)

lemma table_of_frame [simp]:
  "table_of t (ss_emit cs s) = table_of t s" "table_of t (systemState_SetState x s) = table_of t s"
  "table_of t (s\<lparr>tr_index := i\<rparr>) = table_of t s" "table_of t (s\<lparr>tr_current := c\<rparr>) = table_of t s"
  "table_of t (s\<lparr>state_on_completition := x\<rparr>) = table_of t s"
  by (simp_all add: table_of_def)

lemma loop_inv:
  assumes "traced r a s" "(ss_state s, state_on_completition s) \<in> lifecycle r" "tr_current s = Some t" "tbl = table_of t s"
  shows "system_inv r a (transition_loop tbl s)"
  using assms
proof (induction tbl s rule: transition_loop.induct)
  case (1 tbl s)
  let ?st = "tbl ! tr_index s"
  let ?s1 = "ss_emit [Run_Step (step_fun ?st)] s"
  consider (sync) "tr_index s < length tbl" "async_message_id ?st = None"
    | (async) "tr_index s < length tbl" "async_message_id ?st \<noteq> None" | (over) "\<not> tr_index s < length tbl"
    by blast
  then show ?case
  proof cases
    case sync
    have "system_inv r a (transition_loop tbl (?s1\<lparr>tr_index := tr_index ?s1 + 1\<rparr>))"
      by (rule 1(1) [OF sync(1) refl refl]) (use sync 1(2-) in simp_all)
    with sync show ?thesis by (subst transition_loop.simps) (simp add: Let_def)
  next
    case async
    then show ?thesis using 1(2-) by (subst transition_loop.simps) (simp add: Let_def system_inv_def awaits_def)
  next
    case over
    then show ?thesis
      using 1(2-) by (subst transition_loop.simps)
        (simp add: systemState_CompleteTransition_def system_inv_def awaits_def traced_set_state)
  qed
qed

lemma do_transition_inv:
  "traced r a s \<Longrightarrow> (ss_state s, state_on_completition s) \<in> lifecycle r \<Longrightarrow> tr_current s = Some t \<Longrightarrow>
   system_inv r a (systemState_DoTransition t s)"
  unfolding systemState_DoTransition_def by (rule loop_inv) simp_all

lemma initiate_inv:
  assumes "system_inv r a s" and "\<And>x. x \<in> start \<Longrightarrow> (x, mid) \<in> lifecycle r" and "(mid, fin) \<in> lifecycle r"
  shows "system_inv r a (snd (systemState_InitiateTransiton start mid fin t s))"
  using assms unfolding systemState_InitiateTransiton_def
  by (auto simp: systemState_SetupCurrentTransition_def traced_set_state system_inv_def [of r a s] intro!: do_transition_inv)

lemmas system_op_defs = SystemState_Initialise_def SystemState_StartUp_def SystemState_PowerOn_op_def
  SystemState_PowerOff_op_def SystemState_Sleep_def SystemState_Shutdown_def

lemma system_inv_limbo: "system_inv r a s \<Longrightarrow> is_limbo_removed s = r"
  by (simp add: system_inv_def traced_def)

lemma message_inv:
  assumes "system_inv r a s" "systemState_MessageHandler m s = Some t"
  shows "system_inv r a t"
proof (cases "t = s")
  case False
  then obtain tr where c: "tr_current s = Some tr"
    using assms(2) by (auto simp: systemState_MessageHandler_def split: option.splits)
  then obtain tbl where tbl: "tables s tr = Some tbl"
    using assms(2) False by (auto simp: systemState_MessageHandler_def split: option.splits)
  let ?h = "case async_handler (tbl ! tr_index s) of None \<Rightarrow> s | Some h \<Rightarrow> ss_emit [Run_Handler h] s"
  have "tr_index s < length tbl" "t = systemState_DoTransition tr ?h"
    using assms(2) False by (simp_all add: systemState_MessageHandler_def c tbl split: if_splits)
  with assms(1) c tbl show ?thesis
    by (simp add: system_inv_def [of r a s] awaits_def table_of_def) (auto split: option.split intro!: do_transition_inv)
qed (use assms in simp)

lemma system_do_inv:
  assumes "system_inv r a s" "system_do op s = Some t"
  shows "system_inv r a t"
proof (cases op)
  case Op_EmergencyShutdown
  have "system_inv r a (snd (SystemState_EmergencyShutdown s))"
    using assms(1) unfolding SystemState_EmergencyShutdown_def snd_conv
    by (intro do_transition_inv)
      (simp_all add: systemState_SetupCurrentTransition_def traced_set_state system_inv_def lifecycle_def)
  with assms(2) Op_EmergencyShutdown show ?thesis by simp
next
  case (Op_Message m)
  then show ?thesis using message_inv assms by simp
qed (use assms system_inv_limbo [OF assms(1)] in
    \<open>auto simp: system_op_defs lifecycle_def split: if_splits intro!: initiate_inv\<close>)+

interpretation sys: kept_invariant system_do "system_inv r a" for r a
  by unfold_locales (rule system_do_inv)

text \<open>C12: Whatever is requested of the system state machine and whatever messages its steps receive, the state changes it announces
  to its listeners form one connected path of the documented life cycle that ends in the current state: no state is
  skipped, a stable state is left only through its transitional state, and only an emergency shutdown starts anywhere.\<close>

theorem system_state_follows_lifecycle:
  assumes "run system_do ops s = Some t" and "ss_out s = []" and "\<not> awaits s"
  shows "walks (ss_state s) (state_notes (ss_out t)) (ss_state t) \<and>
    set (state_notes (ss_out t)) \<subseteq> lifecycle (is_limbo_removed s)"
  using sys.run_keeps [of "is_limbo_removed s" "ss_state s" s ops t] assms
  by (simp add: system_inv_def traced_def)

section \<open>Completion of a transition\<close>

definition awaited :: "('f, 'm, 'h) system_state_step list \<Rightarrow> 'm list" where
  "awaited tbl = List.map_filter async_message_id tbl"

definition step_calls :: "('f, 'm, 'h) system_state_step \<Rightarrow> ('f, 'h) system_call list" where
  "step_calls st = Run_Step (step_fun st) #
     (case (async_message_id st, async_handler st) of (Some _, Some h) \<Rightarrow> [Run_Handler h] | _ \<Rightarrow> [])"

text \<open>The loop started at any position, fed the messages the rest of the table waits for.\<close>

lemma loop_completes:
  assumes "tr_index s \<le> length tbl" "length tbl < 2 ^ 32" "tr_current s = Some t" "tables s t = Some tbl"
  shows "\<exists>u. run systemState_MessageHandler (awaited (drop (tr_index s) tbl)) (transition_loop tbl s) = Some u \<and>
    ss_state u = state_on_completition s \<and> tr_current u = Some t \<and> tables u = tables s \<and> length tbl \<le> tr_index u \<and>
    ss_out u = ss_out s @ concat (map step_calls (drop (tr_index s) tbl)) @
      [Notify_State (ss_state s) (state_on_completition s)]"
  using assms
proof (induction "length tbl - tr_index s" arbitrary: s)
  case 0
  then show ?case
    by (subst transition_loop.simps) (simp add: awaited_def systemState_CompleteTransition_def List.map_filter_simps)
next
  case (Suc n)
  let ?st = "tbl ! tr_index s"
  let ?s1 = "ss_emit [Run_Step (step_fun ?st)] s"
  let ?s2 = "case (async_message_id ?st, async_handler ?st) of (Some _, Some h) \<Rightarrow> ss_emit [Run_Handler h] ?s1 | _ \<Rightarrow> ?s1"
  let ?s3 = "?s2\<lparr>tr_index := tr_index s + 1\<rparr>"
  have i: "tr_index s < length tbl" using Suc(2) by simp
  have d: "drop (tr_index s) tbl = ?st # drop (tr_index s + 1) tbl" using i by (simp add: Cons_nth_drop_Suc)
  have s2: "tr_index ?s2 = tr_index s" "tr_current ?s2 = Some t" "tables ?s2 = tables s" "ss_state ?s2 = ss_state s"
    "state_on_completition ?s2 = state_on_completition s" "ss_out ?s2 = ss_out s @ step_calls ?st"
    using Suc.prems by (auto simp: step_calls_def split: option.split)
  have "run systemState_MessageHandler (awaited (drop (tr_index s) tbl)) (transition_loop tbl s) =
    run systemState_MessageHandler (awaited (drop (tr_index s + 1) tbl)) (transition_loop tbl ?s3)"
  proof (cases "async_message_id ?st")
    case None
    then show ?thesis
      by (subst transition_loop.simps) (simp add: i d Let_def awaited_def List.map_filter_simps)
  next
    case (Some m)
    have l: "transition_loop tbl s = ?s1" by (subst transition_loop.simps) (simp add: i Some Let_def)
    have "systemState_MessageHandler m ?s1 = Some (transition_loop tbl ?s3)"
      using i Suc.prems Some
      by (auto simp: systemState_MessageHandler_def systemState_DoTransition_def table_of_def split: option.split)
    then show ?thesis unfolding l by (simp add: d Some awaited_def List.map_filter_simps)
  qed
  then show ?case
    using Suc(1) [of ?s3] Suc(2) Suc.prems s2 d by simp
qed

text \<open>C23: A transition that is accepted runs its table from the first to the last step: with the messages its asynchronous steps
  wait for delivered in order, every step function is called exactly once, each confirmation is passed to its
  handler, and the system ends in the target state with exactly two state changes announced.\<close>

theorem transition_runs_table:
  assumes "tables s t = Some tbl" and "length tbl < 2 ^ 32" and "ss_state s \<in> start"
  shows "\<exists>u. run systemState_MessageHandler (awaited tbl) (snd (systemState_InitiateTransiton start mid fin t s)) = Some u \<and>
    ss_state u = fin \<and> ss_out u = ss_out s @ [Notify_State (ss_state s) mid] @ concat (map step_calls tbl) @ [Notify_State mid fin]"
proof -
  let ?s = "systemState_SetupCurrentTransition t fin (systemState_SetState mid s)\<lparr>tr_index := 0\<rparr>"
  have "snd (systemState_InitiateTransiton start mid fin t s) = transition_loop tbl ?s"
    using assms by (simp add: systemState_InitiateTransiton_def systemState_DoTransition_def
        systemState_SetupCurrentTransition_def table_of_def)
  then show ?thesis
    using loop_completes [of ?s tbl t] assms by (auto simp: systemState_SetupCurrentTransition_def)
qed

section \<open>The tables of the headset\<close>

datatype headset_step_fun = headset_trigger_power_on | Step_StereoTopology_Start | headset_enable_upgrade
  | Step_StereoTopology_Stop | headset_disable_upgrade | finalPowerOffSleepStep | finalEmergencyShutdownStep | Step_Init nat

datatype headset_async = UI_MANDATORY_PROMPT_PLAYBACK_COMPLETED | Async_STEREO_TOPOLOGY_STOP_CFM | Async_Init nat

datatype headset_step_handler = Handler_TopologyStopCfm

type_synonym headset_table = "(headset_step_fun, headset_async, headset_step_handler) system_state_step list"
type_synonym headset_system = "(headset_step_fun, headset_async, headset_step_handler) system_state_ctx"

definition power_on_table :: headset_table where
  "power_on_table =
     [Step headset_trigger_power_on (Some UI_MANDATORY_PROMPT_PLAYBACK_COMPLETED) None,
      Step Step_StereoTopology_Start None None,
      Step headset_enable_upgrade None None]"

definition power_off_table :: headset_table where
  "power_off_table =
     [Step Step_StereoTopology_Stop (Some Async_STEREO_TOPOLOGY_STOP_CFM) (Some Handler_TopologyStopCfm),
      Step headset_disable_upgrade None None]"

definition shutdown_table :: headset_table where
  "shutdown_table = [Step finalPowerOffSleepStep None None]"

definition emergency_shutdown_table :: headset_table where
  "emergency_shutdown_table = [Step finalEmergencyShutdownStep None None]"

text \<open>The tables registered by \<^verbatim>\<open>HeadsetInit_StartInitialisation\<close>; the long table of the initialisation is a parameter.\<close>

definition HeadsetInit_StartInitialisation :: "headset_table \<Rightarrow> headset_system" where
  "HeadsetInit_StartInitialisation headsetInitTable =
     systemState_RegisterTable tbl_emergency_shutdown emergency_shutdown_table
      (systemState_RegisterTable tbl_shutdown shutdown_table
       (systemState_RegisterTable tbl_power_off power_off_table
        (systemState_RegisterTable tbl_power_on power_on_table
         (systemState_RegisterTable tbl_init headsetInitTable SystemState_Init))))"

definition headset_tables :: "headset_system \<Rightarrow> bool" where
  "headset_tables s \<longleftrightarrow> tables s tbl_power_on = Some power_on_table \<and> tables s tbl_power_off = Some power_off_table \<and>
     tables s tbl_shutdown = Some shutdown_table \<and> tables s tbl_emergency_shutdown = Some emergency_shutdown_table \<and>
     tables s tbl_startup = None \<and> tables s tbl_sleep = None"

lemma headset_tables_start: "headset_tables (HeadsetInit_StartInitialisation it)"
  by (simp add: headset_tables_def HeadsetInit_StartInitialisation_def systemState_RegisterTable_def SystemState_Init_def)

lemmas system_eval = system_op_defs systemState_InitiateTransiton_def systemState_DoTransition_def
  systemState_SetupCurrentTransition_def table_of_def transition_loop.simps systemState_MessageHandler_def
  systemState_CompleteTransition_def Let_def

lemmas headset_start_system = HeadsetInit_StartInitialisation_def systemState_RegisterTable_def SystemState_Init_def

text \<open>C35: The power-off prompt reads past the step table. The prompt of the power-off event is mandatory, so the prompt player
  confirms its end to the task of the current transition; by then the power-off transition has completed, its
  position is the length of the table, and the handler indexes the table there.\<close>

theorem power_off_prompt_overruns:
  assumes "headset_tables s" and "ss_state s = system_state_active" and "\<not> is_limbo_removed s"
  shows "run system_do [Op_PowerOff, Op_Message Async_STEREO_TOPOLOGY_STOP_CFM] s \<noteq> None \<and>
    run system_do [Op_PowerOff, Op_Message Async_STEREO_TOPOLOGY_STOP_CFM, Op_Message UI_MANDATORY_PROMPT_PLAYBACK_COMPLETED] s = None"
  using assms by (simp add: headset_tables_def power_off_table_def system_eval)

text \<open>The hypotheses are met by the system the headset registers.\<close>

theorem system_state_follows_lifecycle_witness:
  "\<exists>t. run system_do [Op_Initialise, Op_StartUp, Op_PowerOn, Op_Message UI_MANDATORY_PROMPT_PLAYBACK_COMPLETED]
       (HeadsetInit_StartInitialisation []) = Some t \<and>
     walks system_state_powered_off (state_notes (ss_out t)) (ss_state t) \<and> ss_state t = system_state_active"
proof -
  let ?s = "HeadsetInit_StartInitialisation []"
  let ?ops = "[Op_Initialise, Op_StartUp, Op_PowerOn, Op_Message UI_MANDATORY_PROMPT_PLAYBACK_COMPLETED]"
  have "map_option ss_state (run system_do ?ops ?s) = Some system_state_active"
    by (simp add: headset_start_system power_on_table_def system_eval)
  then obtain t where t: "run system_do ?ops ?s = Some t" "ss_state t = system_state_active" by auto
  have "ss_out ?s = []" "\<not> awaits ?s" "ss_state ?s = system_state_powered_off"
    by (simp_all add: headset_start_system awaits_def)
  with system_state_follows_lifecycle [OF t(1)] t show ?thesis by auto
qed

theorem transition_runs_table_witness:
  "\<exists>u. run systemState_MessageHandler [UI_MANDATORY_PROMPT_PLAYBACK_COMPLETED]
      (snd (systemState_InitiateTransiton {system_state_limbo} system_state_powering_on system_state_active tbl_power_on
        ((HeadsetInit_StartInitialisation [])\<lparr>ss_state := system_state_limbo\<rparr>))) = Some u \<and> ss_state u = system_state_active"
proof -
  let ?s = "(HeadsetInit_StartInitialisation [])\<lparr>ss_state := system_state_limbo\<rparr>"
  have "tables ?s tbl_power_on = Some power_on_table" "length power_on_table < 2 ^ 32"
    using headset_tables_start [of "[]"] by (simp_all add: headset_tables_def power_on_table_def)
  moreover have "awaited power_on_table = [UI_MANDATORY_PROMPT_PLAYBACK_COMPLETED]"
    by (simp add: awaited_def power_on_table_def List.map_filter_simps)
  ultimately show ?thesis
    using transition_runs_table [of ?s tbl_power_on power_on_table "{system_state_limbo}" system_state_powering_on system_state_active]
    by auto
qed

theorem power_off_prompt_overruns_witness:
  "run system_do [Op_PowerOff, Op_Message Async_STEREO_TOPOLOGY_STOP_CFM, Op_Message UI_MANDATORY_PROMPT_PLAYBACK_COMPLETED]
     ((HeadsetInit_StartInitialisation [])\<lparr>ss_state := system_state_active\<rparr>) = None"
  using power_off_prompt_overruns [of "(HeadsetInit_StartInitialisation [])\<lparr>ss_state := system_state_active\<rparr>"]
    headset_tables_start [of "[]"]
  by (simp add: headset_tables_def headset_start_system)

end
