(* ===== verification/Task_List.thy ===== *)
theory Task_List
  imports Machine
begin

text \<open>
  The list of tasks every module keeps of its clients
  (\<^verbatim>\<open>src/adk/src/libs/task_list/task_list.c\<close>). The first tasks are stored in an array allocated with the
  list, one more in a union member, and from the next one on the union holds a pointer to an array on
  the heap, to which the one in the union is moved; the size is a field of four bits. The
  representation relation \<open>repr\<close> says which list of tasks such a record stands for.

  A task is a number, 0 is the null pointer. \<open>None\<close> is an execution that panics or whose behaviour is
  undefined: an access outside an allocated array, or a union read through the wrong member. The argument
  \<open>m\<close> of an operation says whether the heap can serve the allocations it makes.
\<close>

section \<open>Storage\<close>

type_synonym task = nat

datatype task_store = U_Task task | U_Tasks "task option list option"

record 'd task_list =
  size_list :: nat
  size_flexible_tasks :: nat
  type_with_data :: bool
  no_destroy :: bool
  flexible_tasks :: "task list"
  u_store :: task_store
  list_data :: "'d option list"

definition TASK_LIST_MAX_TASKS :: nat where
  "TASK_LIST_MAX_TASKS = 15"

text \<open>Both members of the union read as null after either was set to null.\<close>

fun store_task :: "task_store \<Rightarrow> task option" where
  "store_task (U_Task t) = Some t"
| "store_task (U_Tasks None) = Some 0"
| "store_task (U_Tasks (Some a)) = None"

fun store_tasks :: "task_store \<Rightarrow> task option list option option" where
  "store_tasks (U_Tasks p) = Some p"
| "store_tasks (U_Task t) = (if t = 0 then Some None else None)"

definition array_get :: "task option list option \<Rightarrow> nat \<Rightarrow> task option" where
  "array_get p i = (case p of None \<Rightarrow> None | Some a \<Rightarrow> if i < length a then a ! i else None)"

definition taskList_GetTaskAtIndex :: "'d task_list \<Rightarrow> nat \<Rightarrow> task option" where
  "taskList_GetTaskAtIndex l i =
     (if i < size_flexible_tasks l then (if i < length (flexible_tasks l) then Some (flexible_tasks l ! i) else None)
      else if i = size_flexible_tasks l \<and> size_list l = i + 1 then store_task (u_store l)
      else Option.bind (store_tasks (u_store l)) (\<lambda>p. array_get p (i - size_flexible_tasks l)))"

definition taskList_SetTaskAtIndex :: "'d task_list \<Rightarrow> task \<Rightarrow> nat \<Rightarrow> 'd task_list option" where
  "taskList_SetTaskAtIndex l t i =
     (if i < size_flexible_tasks l
      then (if i < length (flexible_tasks l) then Some (l\<lparr>flexible_tasks := (flexible_tasks l)[i := t]\<rparr>) else None)
      else if i = size_flexible_tasks l \<and> i + 1 = size_list l then Some (l\<lparr>u_store := U_Task t\<rparr>)
      else (case store_tasks (u_store l) of
          Some (Some a) \<Rightarrow> (if i - size_flexible_tasks l < length a
            then Some (l\<lparr>u_store := U_Tasks (Some (a[i - size_flexible_tasks l := Some t]))\<rparr>) else None)
        | _ \<Rightarrow> None))"

function find_loop :: "'d task_list \<Rightarrow> task \<Rightarrow> nat \<Rightarrow> nat option \<Rightarrow> nat option option" where
  "find_loop l t iter found =
     (if iter < size_list l
      then (case taskList_GetTaskAtIndex l iter of
          None \<Rightarrow> None
        | Some x \<Rightarrow> find_loop l t (iter + 1) (if x = t then Some iter else found))
      else Some found)"
  by auto

termination find_loop
  by (relation "measure (\<lambda>(l, t, iter, found). size_list l - iter)") auto

declare find_loop.simps [simp del]

definition taskList_FindTaskIndex :: "'d task_list \<Rightarrow> task \<Rightarrow> nat option option" where
  "taskList_FindTaskIndex l t = find_loop l t 0 None"

text \<open>\<^verbatim>\<open>realloc\<close>: the common prefix is kept, new cells are uninitialised.\<close>

definition resize_array :: "nat \<Rightarrow> 'a option list \<Rightarrow> 'a option list" where
  "resize_array n a = take n a @ replicate (n - length a) None"

definition resize_store :: "bool \<Rightarrow> nat \<Rightarrow> 'd task_list \<Rightarrow> task_store option" where
  "resize_store m new_size l =
     (let flex_size = size_flexible_tasks l; static_size = flex_size + 1; old_size = size_list l; u = u_store l
      in if new_size = static_size then
           (if old_size > static_size
            then (case store_tasks u of
                Some (Some (Some t # _)) \<Rightarrow> Some (U_Task t)
              | _ \<Rightarrow> None)
            else if old_size < static_size then Some (U_Task 0) else Some u)
         else if new_size > static_size then
           (if \<not> m then None
            else if old_size = static_size
            then (case store_task u of None \<Rightarrow> None | Some t \<Rightarrow> Some (U_Tasks (Some ((resize_array (new_size - flex_size) [])[0 := Some t]))))
            else (case store_tasks u of
                None \<Rightarrow> None
              | Some p \<Rightarrow> Some (U_Tasks (Some (resize_array (new_size - flex_size) (case p of None \<Rightarrow> [] | Some a \<Rightarrow> a))))))
         else if old_size > static_size then Some (U_Tasks None)
         else if old_size = static_size then Some (U_Task 0)
         else Some u)"

definition taskList_Resize :: "bool \<Rightarrow> nat \<Rightarrow> 'd task_list \<Rightarrow> 'd task_list option" where
  "taskList_Resize m new_size l = (case resize_store m new_size l of
     None \<Rightarrow> None
   | Some u \<Rightarrow>
       if type_with_data l \<and> new_size \<noteq> 0 \<and> \<not> m then None
       else Some (l\<lparr>u_store := u, size_list := new_size mod 2 ^ 4,
              list_data := (if type_with_data l then resize_array new_size (list_data l) else list_data l)\<rparr>))"

section \<open>Creation\<close>

text \<open>\<^verbatim>\<open>memset\<close> fills the array of the list with null pointers; its size wraps for a capacity of 0.\<close>

definition TaskList_InitialiseWithCapacity :: "nat \<Rightarrow> 'd task_list option" where
  "TaskList_InitialiseWithCapacity capacity =
     (if 1 \<le> capacity \<and> capacity \<le> TASK_LIST_MAX_TASKS
      then Some \<lparr>size_list = 0, size_flexible_tasks = capacity - 1, type_with_data = False, no_destroy = True,
             flexible_tasks = replicate (capacity - 1) 0, u_store = U_Task 0, list_data = []\<rparr>
      else None)"

definition TaskList_Initialise :: "'d task_list option" where
  "TaskList_Initialise = TaskList_InitialiseWithCapacity 1"

definition TaskList_CreateWithCapacity :: "bool \<Rightarrow> nat \<Rightarrow> 'd task_list option" where
  "TaskList_CreateWithCapacity m capacity =
     (if \<not> m then None
      else map_option (\<lambda>l. l\<lparr>no_destroy := False\<rparr>) (TaskList_InitialiseWithCapacity (if capacity = 0 then 1 else capacity)))"

definition TaskList_Create :: "bool \<Rightarrow> 'd task_list option" where
  "TaskList_Create m = TaskList_CreateWithCapacity m 1"

definition TaskList_WithDataInitialise :: "'d task_list" where
  "TaskList_WithDataInitialise = \<lparr>size_list = 0, size_flexible_tasks = 0, type_with_data = True, no_destroy = True,
     flexible_tasks = [], u_store = U_Task 0, list_data = []\<rparr>"

section \<open>Operations\<close>

definition TaskList_IsTaskOnList :: "'d task_list \<Rightarrow> task \<Rightarrow> bool option" where
  "TaskList_IsTaskOnList l t = map_option (\<lambda>r. r \<noteq> None) (taskList_FindTaskIndex l t)"

text \<open>The index passed to \<^verbatim>\<open>taskList_SetTaskAtIndex\<close> is a \<^verbatim>\<open>uint16\<close>.\<close>

definition TaskList_AddTask :: "bool \<Rightarrow> task \<Rightarrow> 'd task_list \<Rightarrow> (bool \<times> 'd task_list) option" where
  "TaskList_AddTask m t l =
     (if t = 0 then None
      else Option.bind (TaskList_IsTaskOnList l t) (\<lambda>on.
        if on then Some (False, l)
        else Option.bind (taskList_Resize m (size_list l + 1) l) (\<lambda>l1.
          map_option (Pair True) (taskList_SetTaskAtIndex l1 t ((size_list l1 + 65535) mod 65536)))))"

definition TaskList_AddTaskWithData :: "bool \<Rightarrow> task \<Rightarrow> 'd \<Rightarrow> 'd task_list \<Rightarrow> (bool \<times> 'd task_list) option" where
  "TaskList_AddTaskWithData m t d l =
     (if \<not> type_with_data l then Some (False, l)
      else Option.bind (TaskList_AddTask m t l) (\<lambda>(added, l1).
        if added then (if size_list l1 - 1 < length (list_data l1) \<and> 0 < size_list l1
             then Some (True, l1\<lparr>list_data := (list_data l1)[size_list l1 - 1 := Some d]\<rparr>) else None)
        else Some (False, l1)))"

fun shift_loop :: "nat \<Rightarrow> nat \<Rightarrow> 'd task_list \<Rightarrow> 'd task_list option" where
  "shift_loop iter 0 l = Some l"
| "shift_loop iter (Suc n) l =
     Option.bind (taskList_GetTaskAtIndex l (iter + 1)) (\<lambda>next.
     Option.bind (taskList_SetTaskAtIndex l next iter) (\<lambda>l1. shift_loop (iter + 1) n l1))"

definition TaskList_RemoveTask :: "bool \<Rightarrow> task \<Rightarrow> 'd task_list \<Rightarrow> (bool \<times> 'd task_list) option" where
  "TaskList_RemoveTask m t l =
     (if t = 0 then None
      else Option.bind (taskList_FindTaskIndex l t) (\<lambda>found. case found of
          None \<Rightarrow> Some (False, l)
        | Some index \<Rightarrow>
            Option.bind (shift_loop index (size_list l - 1 - index) l) (\<lambda>l1.
              map_option (Pair True) (taskList_Resize m (size_list l1 - 1)
                (if type_with_data l1
                 then l1\<lparr>list_data := take index (list_data l1) @ drop (index + 1) (list_data l1) @ drop (size_list l1 - 1) (list_data l1)\<rparr>
                 else l1)))))"

definition TaskList_RemoveAllTasks :: "bool \<Rightarrow> 'd task_list \<Rightarrow> 'd task_list option" where
  "TaskList_RemoveAllTasks m l = (if type_with_data l then None else taskList_Resize m 0 l)"

definition TaskList_Size :: "'d task_list option \<Rightarrow> nat" where
  "TaskList_Size p = (case p of None \<Rightarrow> 0 | Some l \<Rightarrow> size_list l)"

text \<open>One step of an iteration: \<^verbatim>\<open>next_task\<close> is null at the start; the result is the next task with its index, if any.\<close>

definition iterateIndex :: "'d task_list \<Rightarrow> task \<Rightarrow> (task \<times> nat) option option" where
  "iterateIndex l next_task =
     (if size_list l = 0 then Some None
      else if next_task = 0 then map_option (\<lambda>x. Some (x, 0)) (taskList_GetTaskAtIndex l 0)
      else Option.bind (taskList_FindTaskIndex l next_task) (\<lambda>found. case found of
          None \<Rightarrow> Some None
        | Some i \<Rightarrow> (if i + 1 < size_list l then map_option (\<lambda>x. Some (x, i + 1)) (taskList_GetTaskAtIndex l (i + 1))
                    else Some None)))"

definition TaskList_GetDataForTaskRaw :: "'d task_list \<Rightarrow> task \<Rightarrow> 'd option option" where
  "TaskList_GetDataForTaskRaw l t =
     (if \<not> type_with_data l then Some None
      else Option.bind (taskList_FindTaskIndex l t) (\<lambda>found. case found of
          None \<Rightarrow> Some None
        | Some i \<Rightarrow> (if i < length (list_data l) then map_option Some (list_data l ! i) else None)))"

definition TaskList_SetDataForTask :: "task \<Rightarrow> 'd \<Rightarrow> 'd task_list \<Rightarrow> (bool \<times> 'd task_list) option" where
  "TaskList_SetDataForTask t d l =
     (if \<not> type_with_data l then Some (False, l)
      else Option.bind (taskList_FindTaskIndex l t) (\<lambda>found. case found of
          None \<Rightarrow> Some (False, l)
        | Some i \<Rightarrow> (if i < length (list_data l) then Some (True, l\<lparr>list_data := (list_data l)[i := Some d]\<rparr>) else None)))"

text \<open>
  A copy: the new list is created with the flexible size of the old one as its capacity, then takes over
  the header of the old one and its tasks one by one.
\<close>

fun copy_loop :: "nat \<Rightarrow> nat \<Rightarrow> 'd task_list \<Rightarrow> 'd task_list \<Rightarrow> 'd task_list option" where
  "copy_loop index 0 l new_list = Some new_list"
| "copy_loop index (Suc n) l new_list =
     Option.bind (taskList_GetTaskAtIndex l index) (\<lambda>t.
     Option.bind (taskList_SetTaskAtIndex new_list t index) (copy_loop (index + 1) n l))"

definition TaskList_Duplicate :: "bool \<Rightarrow> 'd task_list \<Rightarrow> 'd task_list option" where
  "TaskList_Duplicate m l =
     Option.bind (if type_with_data l then (if m then Some (TaskList_WithDataInitialise\<lparr>no_destroy := False\<rparr>) else None)
                  else TaskList_CreateWithCapacity m (size_flexible_tasks l)) (\<lambda>new_list.
     Option.bind (taskList_Resize m (size_list l) (new_list\<lparr>size_list := size_list l, size_flexible_tasks := size_flexible_tasks l,
         type_with_data := type_with_data l, no_destroy := False\<rparr>)) (\<lambda>l1.
     map_option (\<lambda>l2. if type_with_data l then l2\<lparr>list_data := take (size_list l) (list_data l)\<rparr> else l2)
       (copy_loop 0 (size_list l) l l1)))"

section \<open>Representation\<close>

text \<open>The record stores the list \<open>xs\<close>, position by position.\<close>

definition stores :: "'d task_list \<Rightarrow> task list \<Rightarrow> bool" where
  "stores l xs \<longleftrightarrow> (let flex = size_flexible_tasks l; n = length xs in
     size_list l = n \<and> n \<le> TASK_LIST_MAX_TASKS \<and> length (flexible_tasks l) = flex \<and>
     take n (flexible_tasks l) = take flex xs \<and>
     u_store l \<in> (if n \<le> flex then {U_Task 0, U_Tasks None}
                  else if n = flex + 1 then {U_Task (xs ! flex)}
                  else {U_Tasks (Some (map Some (drop flex xs)))}))"

definition repr :: "'d task_list \<Rightarrow> task list \<Rightarrow> bool" where
  "repr l xs \<longleftrightarrow> stores l xs \<and> distinct xs \<and> 0 \<notin> set xs"

definition same_header :: "'d task_list \<Rightarrow> 'd task_list \<Rightarrow> bool" where
  "same_header l k \<longleftrightarrow> size_flexible_tasks k = size_flexible_tasks l \<and> type_with_data k = type_with_data l \<and>
     no_destroy k = no_destroy l"

lemma stores_size: "stores l xs \<Longrightarrow> size_list l = length xs"
  by (simp add: stores_def Let_def)

lemma storesD:
  assumes "stores l xs"
  shows "size_list l = length xs" "length xs \<le> TASK_LIST_MAX_TASKS" "length (flexible_tasks l) = size_flexible_tasks l"
    "take (length xs) (flexible_tasks l) = take (size_flexible_tasks l) xs"
    "length xs \<le> size_flexible_tasks l \<Longrightarrow> u_store l = U_Task 0 \<or> u_store l = U_Tasks None"
    "length xs = size_flexible_tasks l + 1 \<Longrightarrow> u_store l = U_Task (xs ! size_flexible_tasks l)"
    "size_flexible_tasks l + 1 < length xs \<Longrightarrow> u_store l = U_Tasks (Some (map Some (drop (size_flexible_tasks l) xs)))"
  using assms by (simp_all add: stores_def Let_def split: if_splits)

lemma storesI:
  assumes "size_list l = length xs" "length xs \<le> TASK_LIST_MAX_TASKS" "length (flexible_tasks l) = size_flexible_tasks l"
    "take (length xs) (flexible_tasks l) = take (size_flexible_tasks l) xs"
    "length xs \<le> size_flexible_tasks l \<Longrightarrow> u_store l = U_Task 0 \<or> u_store l = U_Tasks None"
    "length xs = size_flexible_tasks l + 1 \<Longrightarrow> u_store l = U_Task (xs ! size_flexible_tasks l)"
    "size_flexible_tasks l + 1 < length xs \<Longrightarrow> u_store l = U_Tasks (Some (map Some (drop (size_flexible_tasks l) xs)))"
  shows "stores l xs"
  using assms by (simp add: stores_def Let_def)

lemma stores_get:
  assumes "stores l xs" "i < length xs"
  shows "taskList_GetTaskAtIndex l i = Some (xs ! i)"
proof -
  note d = storesD [OF assms(1)]
  consider (flex) "i < size_flexible_tasks l" | (one) "i = size_flexible_tasks l" "length xs = size_flexible_tasks l + 1"
    | (heap) "size_flexible_tasks l \<le> i" "size_flexible_tasks l + 1 < length xs"
    using assms(2) by linarith
  then show ?thesis
  proof cases
    case flex
    with assms(2) d(4) have "flexible_tasks l ! i = xs ! i" by (metis nth_take)
    with flex d(3) show ?thesis by (simp add: taskList_GetTaskAtIndex_def)
  next
    case one
    with assms(2) d(1,6) show ?thesis by (simp add: taskList_GetTaskAtIndex_def)
  next
    case heap
    with assms(2) d(1,7) show ?thesis by (simp add: taskList_GetTaskAtIndex_def array_get_def)
  qed
qed

lemma stores_set:
  assumes "stores l xs" "i < length xs"
  shows "\<exists>k. taskList_SetTaskAtIndex l t i = Some k \<and> stores k (xs[i := t]) \<and> same_header l k \<and> list_data k = list_data l"
proof -
  note d = storesD [OF assms(1)]
  let ?flex = "size_flexible_tasks l"
  consider (flex) "i < ?flex" | (one) "i = ?flex" "length xs = ?flex + 1" | (heap) "?flex \<le> i" "?flex + 1 < length xs"
    using assms(2) by linarith
  then show ?thesis
  proof cases
    case flex
    have "taskList_SetTaskAtIndex l t i = Some (l\<lparr>flexible_tasks := (flexible_tasks l)[i := t]\<rparr>)"
      using flex d(3) by (simp add: taskList_SetTaskAtIndex_def)
    moreover have "stores (l\<lparr>flexible_tasks := (flexible_tasks l)[i := t]\<rparr>) (xs[i := t])"
      by (rule storesI) (use flex d in \<open>auto simp: take_update_swap\<close>)
    ultimately show ?thesis by (simp add: same_header_def)
  next
    case one
    have "taskList_SetTaskAtIndex l t i = Some (l\<lparr>u_store := U_Task t\<rparr>)"
      using one d(1) by (simp add: taskList_SetTaskAtIndex_def)
    moreover have "stores (l\<lparr>u_store := U_Task t\<rparr>) (xs[i := t])"
      by (rule storesI) (use one d in \<open>auto simp: take_update_swap list_update_beyond\<close>)
    ultimately show ?thesis by (simp add: same_header_def)
  next
    case heap
    let ?u = "U_Tasks (Some (map Some (drop ?flex (xs[i := t]))))"
    have "taskList_SetTaskAtIndex l t i = Some (l\<lparr>u_store := ?u\<rparr>)"
      using heap d(1,7) assms(2) by (auto simp: taskList_SetTaskAtIndex_def drop_update_swap map_update)
    moreover have "stores (l\<lparr>u_store := ?u\<rparr>) (xs[i := t])"
      by (rule storesI) (use heap d in \<open>auto simp: take_update_swap list_update_beyond\<close>)
    ultimately show ?thesis by (simp add: same_header_def)
  qed
qed

lemma find_loop_stores:
  assumes "stores l xs" "distinct xs" "iter \<le> length xs"
  shows "find_loop l t iter found =
    Some (if t \<in> set (drop iter xs) then Some (iter + length (takeWhile (\<lambda>x. x \<noteq> t) (drop iter xs))) else found)"
  using assms(3)
proof (induction "length xs - iter" arbitrary: iter found)
  case 0
  then show ?case using assms(1) by (subst find_loop.simps) (simp add: stores_size)
next
  case (Suc n)
  then have i: "iter < length xs" and d: "drop iter xs = xs ! iter # drop (iter + 1) xs" by (simp_all add: Cons_nth_drop_Suc)
  have "xs ! iter \<notin> set (drop (iter + 1) xs)"
    using assms(2) d by (metis distinct.simps(2) distinct_drop)
  with Suc i d show ?case
    by (subst find_loop.simps) (auto simp: stores_get [OF assms(1)] stores_size [OF assms(1)])
qed

lemma find_stores:
  assumes "stores l xs" "distinct xs"
  shows "taskList_FindTaskIndex l t = Some (if t \<in> set xs then Some (length (takeWhile (\<lambda>x. x \<noteq> t) xs)) else None)"
  using find_loop_stores [OF assms, of 0] by (simp add: taskList_FindTaskIndex_def)

lemma takeWhile_index:
  assumes "t \<in> set xs"
  shows "length (takeWhile (\<lambda>x. x \<noteq> t) xs) < length xs" "xs ! length (takeWhile (\<lambda>x. x \<noteq> t) xs) = t"
proof -
  show i: "length (takeWhile (\<lambda>x. x \<noteq> t) xs) < length xs" using assms by (induction xs) auto
  show "xs ! length (takeWhile (\<lambda>x. x \<noteq> t) xs) = t" using nth_length_takeWhile [OF i] by simp
qed

lemma find_nth: "stores l xs \<Longrightarrow> distinct xs \<Longrightarrow> i < length xs \<Longrightarrow> taskList_FindTaskIndex l (xs ! i) = Some (Some i)"
  using takeWhile_index [of "xs ! i" xs] by (simp add: find_stores nth_eq_iff_index_eq [of xs])

section \<open>Growing, shrinking and shifting\<close>

lemma length_resize_array [simp]: "length (resize_array n a) = n"
  by (simp add: resize_array_def)

lemma resize_snoc: "(resize_array (Suc (length a)) a)[length a := Some t] = a @ [Some t]"
  by (simp add: resize_array_def)

lemma take_flex_snoc:
  "take n f = take x xs \<Longrightarrow> length f = x \<Longrightarrow> length xs = n \<Longrightarrow> x \<le> n \<Longrightarrow> take (Suc n) f = take x (xs @ [t])"
  by simp

text \<open>A list that is not full grows by one and the new last position is set.\<close>

lemma grow_stores:
  assumes "stores l xs" "length xs < TASK_LIST_MAX_TASKS"
  shows "\<exists>k. Option.bind (taskList_Resize True (length xs + 1) l) (\<lambda>l1. taskList_SetTaskAtIndex l1 t (length xs)) = Some k \<and>
    stores k (xs @ [t]) \<and> same_header l k \<and>
    list_data k = (if type_with_data l then resize_array (length xs + 1) (list_data l) else list_data l)"
proof -
  note d = storesD [OF assms(1)]
  let ?flex = "size_flexible_tasks l" and ?n = "length xs"
  let ?data = "if type_with_data l then resize_array (?n + 1) (list_data l) else list_data l"
  have m: "(?n + 1) mod 2 ^ 4 = ?n + 1" using assms(2) by (simp add: TASK_LIST_MAX_TASKS_def)
  have r: "resize_store True (?n + 1) l = Some w \<Longrightarrow>
      taskList_Resize True (?n + 1) l = Some (l\<lparr>u_store := w, size_list := ?n + 1, list_data := ?data\<rparr>)" for w
    using m by (simp add: taskList_Resize_def)
  have done_if: ?thesis if "resize_store True (?n + 1) l = Some w"
    "taskList_SetTaskAtIndex (l\<lparr>u_store := w, size_list := ?n + 1, list_data := ?data\<rparr>) t ?n = Some k"
    "stores k (xs @ [t])" "same_header l k" "list_data k = ?data" for w k
    using r that by auto
  consider (flex) "?n < ?flex" | (one) "?n = ?flex" | (two) "?n = ?flex + 1" | (heap) "?flex + 1 < ?n" by linarith
  then show ?thesis
  proof cases
    case flex
    let ?k = "l\<lparr>u_store := if ?n + 1 = ?flex + 1 then U_Task 0 else u_store l, size_list := ?n + 1, list_data := ?data,
        flexible_tasks := (flexible_tasks l)[?n := t]\<rparr>"
    have "take (?n + 1) ((flexible_tasks l)[?n := t]) = xs @ [t]"
      using flex d(3,4) by (simp add: take_Suc_conv_app_nth)
    then have "stores ?k (xs @ [t])" using flex d assms(2) by (intro storesI) auto
    with flex d(1,3,5) show ?thesis
      by (intro done_if [where k = ?k]) (auto simp: resize_store_def Let_def taskList_SetTaskAtIndex_def same_header_def)
  next
    case one
    let ?k = "l\<lparr>u_store := U_Task t, size_list := ?n + 1, list_data := ?data\<rparr>"
    have "stores ?k (xs @ [t])" using one d assms(2) by (intro storesI) (auto simp: nth_append)
    with one d(1) show ?thesis
      by (intro done_if [where w = "U_Task 0" and k = ?k])
        (auto simp: resize_store_def Let_def taskList_SetTaskAtIndex_def same_header_def)
  next
    case two
    let ?w = "U_Tasks (Some ((resize_array 2 [])[0 := Some (xs ! ?flex)]))"
    let ?k = "l\<lparr>u_store := U_Tasks (Some [Some (xs ! ?flex), Some t]), size_list := ?n + 1, list_data := ?data\<rparr>"
    have x: "drop ?flex xs = [xs ! ?flex]" using two by (simp add: Cons_nth_drop_Suc [symmetric])
    then have "stores ?k (xs @ [t])" using two d assms(2) by (intro storesI) auto
    moreover have "taskList_SetTaskAtIndex (l\<lparr>u_store := ?w, size_list := ?n + 1, list_data := ?data\<rparr>) t ?n = Some ?k"
      using two by (simp add: taskList_SetTaskAtIndex_def resize_array_def numeral_2_eq_2)
    ultimately show ?thesis
      using two d(1,6) by (intro done_if [where w = ?w and k = ?k])
        (auto simp: resize_store_def Let_def same_header_def)
  next
    case heap
    let ?a = "map Some (drop ?flex xs)"
    let ?w = "U_Tasks (Some (resize_array (?n + 1 - ?flex) ?a))"
    let ?k = "l\<lparr>u_store := U_Tasks (Some (?a @ [Some t])), size_list := ?n + 1, list_data := ?data\<rparr>"
    have e: "?n + 1 - ?flex = Suc (length ?a)" using heap by simp
    have "stores ?k (xs @ [t])" using heap d assms(2) by (intro storesI) auto
    moreover have "taskList_SetTaskAtIndex (l\<lparr>u_store := ?w, size_list := ?n + 1, list_data := ?data\<rparr>) t ?n = Some ?k"
      using heap resize_snoc [of ?a t] unfolding e by (simp add: taskList_SetTaskAtIndex_def)
    ultimately show ?thesis
      using heap d(1,7) by (intro done_if [where w = ?w and k = ?k])
        (auto simp: resize_store_def Let_def same_header_def)
  qed
qed

lemma resize_drop: "n \<le> length a \<Longrightarrow> resize_array n a = take n a"
  by (simp add: resize_array_def)

lemma shrink_stores:
  assumes "stores l xs" "xs \<noteq> []"
  shows "\<exists>k. taskList_Resize True (length xs - 1) l = Some k \<and> stores k (butlast xs) \<and> same_header l k \<and>
    list_data k = (if type_with_data l then resize_array (length xs - 1) (list_data l) else list_data l)"
proof -
  note d = storesD [OF assms(1)]
  let ?flex = "size_flexible_tasks l" and ?n = "length xs - 1"
  have n: "length xs = ?n + 1" using assms(2) by (cases xs) simp_all
  have m: "?n mod 2 ^ 4 = ?n" using d(2) n by (simp add: TASK_LIST_MAX_TASKS_def)
  have f: "take ?n (flexible_tasks l) = take ?flex (butlast xs)"
  proof -
    have "take ?n (flexible_tasks l) = take ?n (take (length xs) (flexible_tasks l))" by simp
    also have "\<dots> = take ?flex (butlast xs)" unfolding d(4) by (simp add: butlast_conv_take min.commute)
    finally show ?thesis .
  qed
  have done_if: ?thesis if "resize_store True ?n l = Some w" "stores (l\<lparr>u_store := w, size_list := ?n\<rparr>) (butlast xs)" for w
  proof -
    have "stores (l\<lparr>u_store := w, size_list := ?n, list_data := dd\<rparr>) (butlast xs)" for dd
      using that(2) by (simp add: stores_def)
    with that(1) m show ?thesis by (simp add: taskList_Resize_def same_header_def)
  qed
  consider (flex) "length xs \<le> ?flex" | (one) "length xs = ?flex + 1" | (two) "length xs = ?flex + 2" | (heap) "?flex + 2 < length xs"
    by linarith
  then show ?thesis
  proof cases
    case flex
    show ?thesis
      by (rule done_if [where w = "u_store l"])
        (use flex n d(1) in \<open>simp add: resize_store_def Let_def\<close>, rule storesI, use flex n d f in auto)
  next
    case one
    show ?thesis
      by (rule done_if [where w = "U_Task 0"])
        (use one n d(1) in \<open>simp add: resize_store_def Let_def\<close>, rule storesI, use one n d f in auto)
  next
    case two
    then have x: "drop ?flex xs = [xs ! ?flex, xs ! (?flex + 1)]" by (simp add: Cons_nth_drop_Suc [symmetric])
    show ?thesis
      by (rule done_if [where w = "U_Task (xs ! ?flex)"])
        (use two n d(1,7) x in \<open>simp add: resize_store_def Let_def\<close>, rule storesI, use two n d f in \<open>auto simp: nth_butlast\<close>)
  next
    case heap
    have e: "map Some (drop ?flex (butlast xs)) = resize_array (?n - ?flex) (map Some (drop ?flex xs))"
      using heap by (simp add: resize_drop butlast_conv_take drop_take take_map)
    show ?thesis
      by (rule done_if [where w = "U_Tasks (Some (map Some (drop ?flex (butlast xs))))"])
        (use heap n d(1,7) e in \<open>simp add: resize_store_def Let_def\<close>, rule storesI, use heap n d f in auto)
  qed
qed

lemma shift_stores:
  assumes "stores l xs" "i + k < length xs"
  shows "\<exists>l'. shift_loop i k l = Some l' \<and> stores l' (take i xs @ take k (drop (i + 1) xs) @ drop (i + k) xs) \<and> same_header l l' \<and>
    list_data l' = list_data l"
  using assms
proof (induction k arbitrary: i l xs)
  case 0
  then show ?case by (simp add: same_header_def)
next
  case (Suc k)
  let ?ys = "xs[i := xs ! (i + 1)]"
  have g: "taskList_GetTaskAtIndex l (i + 1) = Some (xs ! (i + 1))"
    using Suc.prems by (intro stores_get) simp_all
  obtain l1 where l1: "taskList_SetTaskAtIndex l (xs ! (i + 1)) i = Some l1" "stores l1 ?ys" "same_header l l1" "list_data l1 = list_data l"
    using stores_set [OF Suc.prems(1), of i "xs ! (i + 1)"] Suc.prems(2) by auto
  obtain l2 where l2: "shift_loop (i + 1) k l1 = Some l2" "same_header l1 l2" "list_data l2 = list_data l1"
    "stores l2 (take (i + 1) ?ys @ take k (drop (i + 2) ?ys) @ drop (i + 1 + k) ?ys)"
    using Suc.IH [OF l1(2), of "i + 1"] Suc.prems(2) by (auto simp: numeral_2_eq_2)
  have e: "take (i + 1) ?ys @ take k (drop (i + 2) ?ys) @ drop (i + 1 + k) ?ys =
      take i xs @ take (Suc k) (drop (i + 1) xs) @ drop (i + Suc k) xs"
    using Suc.prems(2) by (simp add: take_Suc_conv_app_nth Cons_nth_drop_Suc [symmetric] numeral_2_eq_2)
  have "stores l2 (take i xs @ take (Suc k) (drop (i + 1) xs) @ drop (i + Suc k) xs)" using l2(4) unfolding e .
  moreover have "shift_loop i (Suc k) l = Some l2" using g l1(1) l2(1) by simp
  ultimately show ?case using l1(3,4) l2(2,3) unfolding same_header_def by (intro exI [of _ l2]) simp
qed

section \<open>The operations on the represented list\<close>

lemma find_repr:
  "repr l xs \<Longrightarrow> taskList_FindTaskIndex l t = Some (if t \<in> set xs then Some (length (takeWhile (\<lambda>x. x \<noteq> t) xs)) else None)"
  by (simp add: repr_def find_stores)

lemma add_repr:
  assumes "repr l xs" "t \<noteq> 0" "t \<in> set xs \<or> length xs < TASK_LIST_MAX_TASKS"
  shows "\<exists>k. TaskList_AddTask True t l = Some (t \<notin> set xs, k) \<and> repr k (if t \<in> set xs then xs else xs @ [t]) \<and>
    same_header l k \<and> list_data k = (if type_with_data l \<and> t \<notin> set xs then resize_array (length xs + 1) (list_data l) else list_data l)"
proof (cases "t \<in> set xs")
  case True
  then show ?thesis
    using assms by (simp add: TaskList_AddTask_def TaskList_IsTaskOnList_def find_repr [OF assms(1)] same_header_def)
next
  case False
  let ?n = "length xs"
  obtain k where k: "Option.bind (taskList_Resize True (?n + 1) l) (\<lambda>l1. taskList_SetTaskAtIndex l1 t ?n) = Some k"
    "stores k (xs @ [t])" "same_header l k"
    "list_data k = (if type_with_data l then resize_array (?n + 1) (list_data l) else list_data l)"
    using grow_stores [of l xs t] assms False by (auto simp: repr_def)
  obtain l1 where l1: "taskList_Resize True (?n + 1) l = Some l1" "taskList_SetTaskAtIndex l1 t ?n = Some k"
    using k(1) by (auto simp: bind_eq_Some_conv)
  have n: "?n < 15" using assms(3) False by (simp add: TASK_LIST_MAX_TASKS_def)
  have "size_list l1 = ?n + 1"
    using l1(1) n by (auto simp: taskList_Resize_def split: option.splits if_splits)
  then have "(size_list l1 + 65535) mod 65536 = ?n" using n by simp
  moreover have "size_list l = ?n" using assms(1) by (simp add: repr_def stores_size)
  ultimately show ?thesis
    using l1 k assms False by (simp add: TaskList_AddTask_def TaskList_IsTaskOnList_def find_repr [OF assms(1)] repr_def)
qed

lemma remove1_split:
  "take (length (takeWhile (\<lambda>x. x \<noteq> t) xs)) xs @ drop (Suc (length (takeWhile (\<lambda>x. x \<noteq> t) xs))) xs = remove1 t xs"
  by (induction xs) auto

lemma butlast_shift: "i < length xs \<Longrightarrow>
  butlast (take i xs @ take (length xs - 1 - i) (drop (i + 1) xs) @ drop (length xs - 1) xs) = take i xs @ drop (i + 1) xs"
  by (simp add: butlast_append) (simp add: butlast_conv_take)

lemma remove_repr:
  assumes "repr l xs" "t \<noteq> 0"
  shows "\<exists>k. TaskList_RemoveTask True t l = Some (t \<in> set xs, k) \<and> repr k (remove1 t xs) \<and> same_header l k \<and>
    (type_with_data l \<longrightarrow> length (list_data l) = length xs \<longrightarrow> t \<in> set xs \<longrightarrow>
       (let i = length (takeWhile (\<lambda>x. x \<noteq> t) xs) in list_data k = take i (list_data l) @ drop (i + 1) (list_data l)))"
proof (cases "t \<in> set xs")
  case False
  with assms show ?thesis
    by (simp add: TaskList_RemoveTask_def find_repr [OF assms(1)] same_header_def remove1_idem)
next
  case True
  let ?i = "length (takeWhile (\<lambda>x. x \<noteq> t) xs)" and ?n = "length xs"
  let ?ys = "take ?i xs @ take (?n - 1 - ?i) (drop (?i + 1) xs) @ drop (?i + (?n - 1 - ?i)) xs"
  note i = takeWhile_index [OF True]
  obtain l1 where l1: "shift_loop ?i (?n - 1 - ?i) l = Some l1" "stores l1 ?ys" "same_header l l1" "list_data l1 = list_data l"
    using shift_stores [of l xs ?i "?n - 1 - ?i"] assms(1) i(1) unfolding repr_def by fastforce
  have e: "?i + (?n - 1 - ?i) = ?n - 1" using i(1) by simp
  have len: "length ?ys = ?n" using i(1) by simp
  let ?d = "take ?i (list_data l1) @ drop (?i + 1) (list_data l1) @ drop (?n - 1) (list_data l1)"
  let ?l2 = "if type_with_data l1 then l1\<lparr>list_data := ?d\<rparr> else l1"
  have "stores ?l2 ?ys" using l1(2) by (simp add: stores_def)
  then obtain k where k: "taskList_Resize True (?n - 1) ?l2 = Some k" "stores k (butlast ?ys)" "same_header ?l2 k"
    "list_data k = (if type_with_data ?l2 then resize_array (?n - 1) (list_data ?l2) else list_data ?l2)"
    using shrink_stores [of ?l2 ?ys] len i(1) by (metis length_greater_0_conv gr_implies_not0 neq0_conv)
  have "butlast ?ys = remove1 t xs"
    using butlast_shift [OF i(1)] remove1_split [of t xs] unfolding e by simp
  moreover have "TaskList_RemoveTask True t l = Some (True, k)"
  proof -
    have "size_list l1 = ?n" "size_list l = ?n"
      using stores_size [OF l1(2)] len assms(1) by (simp_all add: repr_def stores_size)
    then show ?thesis
      using assms(2) True l1(1) k(1)
      by (cases "type_with_data l1") (simp_all add: TaskList_RemoveTask_def find_repr [OF assms(1)])
  qed
  moreover have "same_header l k" using l1(3) k(3) by (auto simp: same_header_def split: if_splits)
  moreover have "list_data k = take ?i (list_data l) @ drop (?i + 1) (list_data l)"
    if "type_with_data l" "length (list_data l) = ?n"
    using that k(4) l1(3,4) i(1) by (simp add: same_header_def resize_array_def)
  ultimately show ?thesis
    using assms(1) k(2) True by (auto simp: repr_def Let_def dest: notin_set_remove1)
qed

lemma iterate_repr:
  assumes "repr l xs"
  shows "iterateIndex l 0 = Some (if xs = [] then None else Some (xs ! 0, 0))"
    "i < length xs \<Longrightarrow> iterateIndex l (xs ! i) = Some (if i + 1 < length xs then Some (xs ! (i + 1), i + 1) else None)"
proof -
  have s: "stores l xs" "distinct xs" "0 \<notin> set xs" using assms by (simp_all add: repr_def)
  show "iterateIndex l 0 = Some (if xs = [] then None else Some (xs ! 0, 0))"
    by (simp add: iterateIndex_def stores_size [OF s(1)] stores_get [OF s(1)])
  show "iterateIndex l (xs ! i) = Some (if i + 1 < length xs then Some (xs ! (i + 1), i + 1) else None)" if "i < length xs"
  proof -
    have "xs ! i \<noteq> 0" using s(3) nth_mem [OF that] by metis
    moreover have "xs \<noteq> []" using that by auto
    ultimately show ?thesis
      using that by (simp add: iterateIndex_def stores_size [OF s(1)] find_nth [OF s(1,2)] stores_get [OF s(1)])
  qed
qed

section \<open>The registry a module relies on\<close>

text \<open>
  What a module expects of the list of its clients: adding appends a task that is not on the list and
  reports whether it did, removing takes it away, and exactly \<open>cap\<close> tasks fit.
\<close>

datatype registry_op = Reg_Add (reg_task: task) | Reg_Remove (reg_task: task)

fun registry_do :: "(task \<Rightarrow> 'l \<Rightarrow> (bool \<times> 'l) option) \<Rightarrow> (task \<Rightarrow> 'l \<Rightarrow> (bool \<times> 'l) option) \<Rightarrow> registry_op \<Rightarrow> 'l \<Rightarrow> 'l option" where
  "registry_do add del (Reg_Add t) l = map_option snd (add t l)"
| "registry_do add del (Reg_Remove t) l = map_option snd (del t l)"

text \<open>A registry of \<open>cap\<close> places refuses the null task, and a new task when it is full.\<close>

fun registry_bounded :: "nat \<Rightarrow> registry_op \<Rightarrow> task list \<Rightarrow> task list option" where
  "registry_bounded cap (Reg_Add t) xs = (if t = 0 \<or> t \<notin> set xs \<and> cap \<le> length xs then None else Some (if t \<in> set xs then xs else xs @ [t]))"
| "registry_bounded cap (Reg_Remove t) xs = (if t = 0 then None else Some (remove1 t xs))"

locale task_registry =
  fixes R :: "'l \<Rightarrow> task list \<Rightarrow> bool"
    and add del :: "task \<Rightarrow> 'l \<Rightarrow> (bool \<times> 'l) option"
    and cap :: nat
  assumes add: "R l xs \<Longrightarrow> t \<noteq> 0 \<Longrightarrow> t \<in> set xs \<or> length xs < cap \<Longrightarrow>
      \<exists>k. add t l = Some (t \<notin> set xs, k) \<and> R k (if t \<in> set xs then xs else xs @ [t])"
    and del: "R l xs \<Longrightarrow> t \<noteq> 0 \<Longrightarrow> \<exists>k. del t l = Some (t \<in> set xs, k) \<and> R k (remove1 t xs)"
    and null: "R l xs \<Longrightarrow> add 0 l = None" "R l xs \<Longrightarrow> del 0 l = None"
    and full: "R l xs \<Longrightarrow> t \<notin> set xs \<Longrightarrow> cap \<le> length xs \<Longrightarrow> add t l = None"
begin

lemma do_exact:
  assumes "R l xs"
  shows "case registry_bounded cap op xs of None \<Rightarrow> registry_do add del op l = None
    | Some ys \<Rightarrow> \<exists>k. registry_do add del op l = Some k \<and> R k ys"
proof (cases op)
  case (Reg_Add t)
  show ?thesis
  proof (cases "t = 0 \<or> t \<notin> set xs \<and> cap \<le> length xs")
    case True
    with null(1) [OF assms] full [OF assms] have "add t l = None" by auto
    with True Reg_Add show ?thesis by simp
  next
    case False
    then obtain k where k: "add t l = Some (t \<notin> set xs, k)" "R k (if t \<in> set xs then xs else xs @ [t])"
      using add [OF assms, of t] by auto
    then have "registry_do add del op l = Some k" using Reg_Add by simp
    with False k(2) Reg_Add show ?thesis by (simp del: registry_do.simps)
  qed
next
  case (Reg_Remove t)
  show ?thesis
  proof (cases "t = 0")
    case False
    then obtain k where k: "del t l = Some (t \<in> set xs, k)" "R k (remove1 t xs)" using del [OF assms] by blast
    then have "registry_do add del op l = Some k" using Reg_Remove by simp
    with False k(2) Reg_Remove show ?thesis by (simp del: registry_do.simps)
  qed (use null(2) [OF assms] Reg_Remove in simp)
qed

lemma run_exact:
  assumes "R l xs"
  shows "case run (registry_bounded cap) ops xs of None \<Rightarrow> run (registry_do add del) ops l = None
    | Some ys \<Rightarrow> \<exists>k. run (registry_do add del) ops l = Some k \<and> R k ys"
  using assms
proof (induction ops arbitrary: l xs)
  case (Cons op ops)
  show ?case
  proof (cases "registry_bounded cap op xs")
    case None
    with do_exact [OF Cons.prems, of op] show ?thesis by simp
  next
    case (Some ys)
    with do_exact [OF Cons.prems, of op] obtain k where "registry_do add del op l = Some k" "R k ys" by auto
    with Cons.IH [of k ys] Some show ?thesis by (simp split: option.splits)
  qed
qed simp

end

text \<open>Whether a list of the given tasks takes or releases a task; \<open>m\<close> is whether the heap can serve an allocation.\<close>

definition room_for :: "bool \<Rightarrow> task \<Rightarrow> task list \<Rightarrow> bool" where
  "room_for m t ts \<longleftrightarrow> t \<noteq> 0 \<and> (t \<in> set ts \<or> m \<and> length ts < TASK_LIST_MAX_TASKS)"

definition can_drop :: "bool \<Rightarrow> task \<Rightarrow> task list \<Rightarrow> bool" where
  "can_drop m t ts \<longleftrightarrow> t \<noteq> 0 \<and> (t \<in> set ts \<and> 1 < length ts \<longrightarrow> m)"

lemma room_within:
  assumes "distinct ts" "set ts \<subseteq> T" "finite T" "card T \<le> TASK_LIST_MAX_TASKS" "t \<in> T" "t \<noteq> 0"
  shows "room_for True t ts"
proof (cases "length ts < TASK_LIST_MAX_TASKS")
  case False
  then have "card T \<le> card (set ts)" using assms(1,4) by (simp add: distinct_card)
  then have "set ts = T" using card_seteq [OF assms(3,2)] by simp
  then show ?thesis using assms(5,6) by (simp add: room_for_def)
qed (use assms(6) in \<open>simp add: room_for_def\<close>)

text \<open>A full list: the size field wraps to 0 and the new task is written through index 65535.\<close>

lemma full_list_add:
  assumes "repr l xs" "length xs = TASK_LIST_MAX_TASKS" "t \<noteq> 0" "t \<notin> set xs" "size_flexible_tasks l < TASK_LIST_MAX_TASKS"
  shows "TaskList_AddTask True t l = None"
proof -
  have s: "size_list l = 15" using assms(1,2) by (auto simp: repr_def TASK_LIST_MAX_TASKS_def dest: stores_size)
  have f: "size_flexible_tasks l < 15" using assms(5) by (simp add: TASK_LIST_MAX_TASKS_def)
  have "Option.bind (taskList_Resize True 16 l) (\<lambda>l1. map_option (Pair True) (taskList_SetTaskAtIndex l1 t ((size_list l1 + 65535) mod 65536))) = None"
  proof (cases "taskList_Resize True 16 l")
    case (Some l1)
    then have l1: "size_list l1 = 0" "size_flexible_tasks l1 = size_flexible_tasks l" "Some (u_store l1) = resize_store True 16 l"
      by (auto simp: taskList_Resize_def split: option.splits if_splits)
    then have "\<exists>a. u_store l1 = U_Tasks (Some a) \<and> length a = 16 - size_flexible_tasks l"
      using f s by (auto simp: resize_store_def Let_def split: if_splits option.splits)
    with l1 f Some show ?thesis by (auto simp: taskList_SetTaskAtIndex_def)
  qed simp
  with assms s show ?thesis
    by (simp add: TaskList_AddTask_def TaskList_IsTaskOnList_def find_repr [OF assms(1)])
qed

definition fits :: "'d task_list \<Rightarrow> task list \<Rightarrow> bool" where
  "fits l xs \<longleftrightarrow> repr l xs \<and> size_flexible_tasks l < TASK_LIST_MAX_TASKS"

interpretation tl: task_registry fits "TaskList_AddTask True" "TaskList_RemoveTask True" TASK_LIST_MAX_TASKS
proof unfold_locales
  fix l :: "'d task_list" and xs t
  assume f: "fits l xs"
  then have r: "repr l xs" by (simp add: fits_def)
  show "\<exists>k. TaskList_AddTask True t l = Some (t \<notin> set xs, k) \<and> fits k (if t \<in> set xs then xs else xs @ [t])"
    if "t \<noteq> 0" "t \<in> set xs \<or> length xs < TASK_LIST_MAX_TASKS"
    using add_repr [OF r that] f by (auto simp: fits_def same_header_def)
  show "\<exists>k. TaskList_RemoveTask True t l = Some (t \<in> set xs, k) \<and> fits k (remove1 t xs)" if "t \<noteq> 0"
    using remove_repr [OF r that] f by (auto simp: fits_def same_header_def)
  show "TaskList_AddTask True 0 l = None" "TaskList_RemoveTask True 0 l = None"
    by (simp_all add: TaskList_AddTask_def TaskList_RemoveTask_def)
  show "TaskList_AddTask True t l = None" if "t \<notin> set xs" "TASK_LIST_MAX_TASKS \<le> length xs"
  proof (cases "t = 0")
    case False
    have "length xs = TASK_LIST_MAX_TASKS" using that(2) storesD(2) [of l xs] r by (simp add: repr_def)
    then show ?thesis using full_list_add [OF r _ False that(1)] f by (simp add: fits_def)
  qed (simp add: TaskList_AddTask_def)
qed

text \<open>Lists with data: the data of a task stays with it.\<close>

definition repr_data :: "'d task_list \<Rightarrow> (task \<times> 'd) list \<Rightarrow> bool" where
  "repr_data l ps \<longleftrightarrow> repr l (map fst ps) \<and> type_with_data l \<and> list_data l = map (Some \<circ> snd) ps"

lemma add_data_repr:
  assumes "repr_data l ps" "t \<noteq> 0" "t \<in> fst ` set ps \<or> length ps < TASK_LIST_MAX_TASKS"
  shows "\<exists>k. TaskList_AddTaskWithData True t d l = Some (t \<notin> fst ` set ps, k) \<and>
    repr_data k (if t \<in> fst ` set ps then ps else ps @ [(t, d)])"
proof -
  have r: "repr l (map fst ps)" "type_with_data l" "list_data l = map (Some \<circ> snd) ps" using assms(1) by (simp_all add: repr_data_def)
  obtain k where k: "TaskList_AddTask True t l = Some (t \<notin> fst ` set ps, k)" "repr k (if t \<in> fst ` set ps then map fst ps else map fst ps @ [t])"
    "same_header l k" "list_data k = (if t \<notin> fst ` set ps then resize_array (length ps + 1) (list_data l) else list_data l)"
    using add_repr [OF r(1) assms(2)] assms(3) r(2) by auto
  show ?thesis
  proof (cases "t \<in> fst ` set ps")
    case True
    with k r show ?thesis by (simp add: TaskList_AddTaskWithData_def repr_data_def same_header_def)
  next
    case False
    then have "size_list k = length ps + 1" using k(2) by (auto simp: repr_def dest!: stores_size)
    moreover have "repr (k\<lparr>list_data := x\<rparr>) ys \<longleftrightarrow> repr k ys" for x ys by (simp add: repr_def stores_def)
    ultimately show ?thesis
      using False k r resize_snoc [of "map (Some \<circ> snd) ps" d]
      by (simp add: TaskList_AddTaskWithData_def repr_data_def same_header_def)
  qed
qed

lemma remove_data_repr:
  assumes "repr_data l ps" "t \<noteq> 0"
  shows "\<exists>k. TaskList_RemoveTask True t l = Some (t \<in> fst ` set ps, k) \<and> repr_data k (filter (\<lambda>p. fst p \<noteq> t) ps)"
proof -
  let ?xs = "map fst ps"
  have r: "repr l ?xs" "type_with_data l" "list_data l = map (Some \<circ> snd) ps" "distinct ?xs"
    using assms(1) by (simp_all add: repr_data_def repr_def)
  have x: "remove1 t ?xs = map fst (filter (\<lambda>p. fst p \<noteq> t) ps)"
    using r(4) by (simp add: distinct_remove1_removeAll removeAll_filter_not_eq filter_map comp_def eq_commute)
  obtain k where k: "TaskList_RemoveTask True t l = Some (t \<in> fst ` set ps, k)" "repr k (remove1 t ?xs)" "same_header l k"
    "t \<in> fst ` set ps \<Longrightarrow> (let i = length (takeWhile (\<lambda>x. x \<noteq> t) ?xs) in list_data k = take i (list_data l) @ drop (i + 1) (list_data l))"
    using remove_repr [OF r(1) assms(2)] r(2,3) by auto
  have s: "distinct (map fst qs) \<Longrightarrow>
    (let i = length (takeWhile (\<lambda>x. x \<noteq> t) (map fst qs)) in take i qs @ drop (i + 1) qs) = filter (\<lambda>p. fst p \<noteq> t) qs" for qs :: "(task \<times> 'a) list"
    by (induction qs) (auto simp: Let_def image_iff intro!: filter_True [symmetric])
  show ?thesis
  proof (cases "t \<in> fst ` set ps")
    case True
    have "list_data k = map (Some \<circ> snd) (filter (\<lambda>p. fst p \<noteq> t) ps)"
      using k(4) [OF True] s [OF r(4)] by (simp add: r(3) Let_def take_map drop_map flip: map_append)
    with k r True x show ?thesis by (simp add: repr_data_def same_header_def)
  next
    case False
    then have f: "filter (\<lambda>p. fst p \<noteq> t) ps = ps" by (auto simp: filter_id_conv)
    have "TaskList_RemoveTask True t l = Some (False, l)"
      using False assms(2) by (simp add: TaskList_RemoveTask_def find_repr [OF r(1)])
    with False f assms(1) show ?thesis by simp
  qed
qed

text \<open>Exactly when an operation on the list of clients with data stops the program.\<close>

lemma add_data_stops:
  assumes "repr_data l ps" "size_flexible_tasks l < TASK_LIST_MAX_TASKS"
  shows "TaskList_AddTaskWithData m t d l = None \<longleftrightarrow> \<not> room_for m t (map fst ps)"
proof -
  have r: "repr l (map fst ps)" "type_with_data l" using assms(1) by (simp_all add: repr_data_def)
  consider (null) "t = 0" | (on) "t \<noteq> 0" "t \<in> fst ` set ps" | (low) "t \<noteq> 0" "t \<notin> fst ` set ps" "\<not> m"
    | (full) "t \<noteq> 0" "t \<notin> fst ` set ps" m "TASK_LIST_MAX_TASKS \<le> length ps" | (new) "t \<noteq> 0" m "length ps < TASK_LIST_MAX_TASKS"
    by fastforce
  then show ?thesis
  proof cases
    case on
    then show ?thesis
      using r by (simp add: TaskList_AddTaskWithData_def TaskList_AddTask_def TaskList_IsTaskOnList_def find_repr [OF r(1)] room_for_def)
  next
    case low
    have "taskList_Resize False (size_list l + 1) l = None"
      using r(2) by (auto simp: taskList_Resize_def split: option.split)
    with low r show ?thesis
      by (simp add: TaskList_AddTaskWithData_def TaskList_AddTask_def TaskList_IsTaskOnList_def find_repr [OF r(1)] room_for_def)
  next
    case full
    have "length (map fst ps) = TASK_LIST_MAX_TASKS" using full(4) storesD(2) [of l "map fst ps"] r(1) by (simp add: repr_def)
    then have "TaskList_AddTask True t l = None" using full_list_add [OF r(1) _ full(1)] full(2) assms(2) by simp
    with full r show ?thesis by (simp add: TaskList_AddTaskWithData_def room_for_def)
  next
    case new
    then show ?thesis using add_data_repr [OF assms(1) new(1), of d] by (auto simp: room_for_def)
  qed (use r in \<open>simp add: TaskList_AddTaskWithData_def TaskList_AddTask_def room_for_def\<close>)
qed

lemma remove_data_stops:
  assumes "repr_data l ps" "size_flexible_tasks l = 0"
  shows "TaskList_RemoveTask m t l = None \<longleftrightarrow> \<not> can_drop m t (map fst ps)"
proof -
  have r: "repr l (map fst ps)" "type_with_data l" using assms(1) by (simp_all add: repr_data_def)
  then have size: "size_list l = length ps" using stores_size [of l "map fst ps"] by (simp add: repr_def)
  consider (null) "t = 0" | (off) "t \<noteq> 0" "t \<notin> fst ` set ps" | (heap) "t \<noteq> 0" m | (one) "t \<noteq> 0" "t \<in> fst ` set ps" "length ps = 1"
    | (low) "t \<noteq> 0" "t \<in> fst ` set ps" "1 < length ps" "\<not> m"
    by (cases ps) fastforce+
  then show ?thesis
  proof cases
    case off
    then show ?thesis using r by (simp add: TaskList_RemoveTask_def find_repr [OF r(1)] can_drop_def)
  next
    case heap
    then show ?thesis using remove_data_repr [OF assms(1) heap(1)] by (auto simp: can_drop_def)
  next
    case one
    then obtain q where q: "ps = [q]" "t = fst q" by (cases ps) auto
    then show ?thesis using one r size assms(2)
      by (simp add: TaskList_RemoveTask_def find_repr [OF r(1)] can_drop_def taskList_Resize_def resize_store_def)
  next
    case low
    let ?i = "length (takeWhile (\<lambda>x. x \<noteq> t) (map fst ps))"
    have i: "?i < length ps" using takeWhile_index(1) [of t "map fst ps"] low(2) by simp
    obtain l1 where l1: "shift_loop ?i (length ps - 1 - ?i) l = Some l1" "same_header l l1" "size_list l1 = length ps"
      using shift_stores [of l "map fst ps" ?i "length ps - 1 - ?i"] r(1) i by (fastforce simp: repr_def dest: stores_size)
    then have "type_with_data l1" using r(2) by (simp add: same_header_def)
    then have "taskList_Resize False (size_list l1 - 1) (l1\<lparr>list_data := dd\<rparr>) = None" for dd
      using low(3) l1(3) by (auto simp: taskList_Resize_def split: option.split)
    with low l1 r size \<open>type_with_data l1\<close> show ?thesis
      by (auto simp: TaskList_RemoveTask_def find_repr [OF r(1)] can_drop_def)
  qed (simp add: TaskList_RemoveTask_def can_drop_def)
qed

lemma data_repr:
  assumes "repr_data l ps"
  shows "TaskList_GetDataForTaskRaw l t = Some (map_of ps t)"
proof -
  have r: "repr l (map fst ps)" "type_with_data l" "list_data l = map (Some \<circ> snd) ps" using assms by (simp_all add: repr_data_def)
  show ?thesis
  proof (cases "t \<in> fst ` set ps")
    case True
    let ?i = "length (takeWhile (\<lambda>x. x \<noteq> t) (map fst ps))"
    have i: "?i < length ps" "fst (ps ! ?i) = t" using takeWhile_index [of t "map fst ps"] True by auto
    then have "map_of ps t = Some (snd (ps ! ?i))"
      using r(1) by (intro map_of_is_SomeI) (auto simp: repr_def in_set_conv_nth prod_eq_iff)
    with r True i show ?thesis by (simp add: TaskList_GetDataForTaskRaw_def find_repr [OF r(1)])
  next
    case False
    then have "map_of ps t = None" by (simp add: map_of_eq_None_iff)
    with r False show ?thesis by (simp add: TaskList_GetDataForTaskRaw_def find_repr [OF r(1)])
  qed
qed

section \<open>Properties\<close>

lemma create_repr: "TaskList_CreateWithCapacity True c = Some l \<Longrightarrow> repr l []"
  by (auto simp: TaskList_CreateWithCapacity_def TaskList_InitialiseWithCapacity_def repr_def stores_def Let_def split: if_splits)

lemma create_fits: "TaskList_CreateWithCapacity True c = Some l \<Longrightarrow> fits l []"
  by (auto simp: fits_def dest: create_repr)
    (auto simp: TaskList_CreateWithCapacity_def TaskList_InitialiseWithCapacity_def TASK_LIST_MAX_TASKS_def split: if_splits)

text \<open>C13: The task list implements a bounded list of distinct tasks, exactly. For every sequence of additions and removals of any tasks
  on a new list of any capacity, as long as the heap serves the allocations: if the specification accepts every operation, the
  code returns from all of them and its positions then hold exactly the tasks of the specification, in the order of their registration, however
  they are spread over the inline array, the union and the heap; if the specification refuses one, a null task or a
  sixteenth different task, the execution panics or leaves its memory.\<close>

theorem task_list_refines:
  assumes "TaskList_CreateWithCapacity True c = Some l"
  shows "case run (registry_bounded 15) ops [] of
      None \<Rightarrow> run (registry_do (TaskList_AddTask True) (TaskList_RemoveTask True)) ops l = None
    | Some xs \<Rightarrow> \<exists>k. run (registry_do (TaskList_AddTask True) (TaskList_RemoveTask True)) ops l = Some k \<and>
        map (taskList_GetTaskAtIndex k) [0..<size_list k] = map Some xs"
proof -
  have positions: "map (taskList_GetTaskAtIndex k) [0..<size_list k] = map Some xs" if "fits k xs" for k :: "'a task_list" and xs
  proof -
    have s: "stores k xs" using that by (simp add: fits_def repr_def)
    show ?thesis by (rule nth_equalityI) (simp_all add: stores_size [OF s] stores_get [OF s])
  qed
  have fifteen: "TASK_LIST_MAX_TASKS = 15" by (simp add: TASK_LIST_MAX_TASKS_def)
  note e = tl.run_exact [OF create_fits [OF assms], of ops, unfolded fifteen]
  show ?thesis
  proof (cases "run (registry_bounded 15) ops []")
    case (Some xs)
    with e positions show ?thesis by auto
  qed (use e in simp)
qed

theorem task_list_refines_witness:
  "\<exists>k. run (registry_do (TaskList_AddTask True) (TaskList_RemoveTask True)) [Reg_Add 7, Reg_Add 8, Reg_Add 9, Reg_Remove 8]
      (the (TaskList_CreateWithCapacity True 2) :: nat task_list) = Some k \<and>
     map (taskList_GetTaskAtIndex k) [0..<size_list k] = [Some 7, Some 9]"
proof -
  have "TaskList_CreateWithCapacity True 2 = Some (the (TaskList_CreateWithCapacity True 2) :: nat task_list)"
    by (simp add: TaskList_CreateWithCapacity_def TaskList_InitialiseWithCapacity_def TASK_LIST_MAX_TASKS_def)
  from task_list_refines [OF this, of "[Reg_Add 7, Reg_Add 8, Reg_Add 9, Reg_Remove 8]"] show ?thesis by simp
qed

lemma add_new_tasks:
  assumes "repr l xs" "distinct (xs @ ts)" "0 \<notin> set ts" "length (xs @ ts) \<le> TASK_LIST_MAX_TASKS"
  shows "\<exists>k. run (\<lambda>t l. map_option snd (TaskList_AddTask True t l)) ts l = Some k \<and> repr k (xs @ ts) \<and> same_header l k"
  using assms
proof (induction ts arbitrary: l xs)
  case (Cons t ts)
  then obtain k where k: "TaskList_AddTask True t l = Some (True, k)" "repr k (xs @ [t])" "same_header l k"
    using add_repr [of l xs t] by auto
  then show ?case using Cons.IH [of k "xs @ [t]"] Cons.prems by (auto simp: same_header_def)
qed (simp add: same_header_def)

text \<open>The sixteenth client corrupts memory: the size of a task list is a field of four bits and nothing checks it. Fifteen
  different tasks can be registered on a list of any capacity; adding one more wraps the size to 0 and writes the
  task far outside the array.\<close>

theorem task_list_sixteenth_task:
  assumes "TaskList_CreateWithCapacity True c = Some l" and "length ts = 16" and "distinct ts" and "0 \<notin> set ts"
  shows "run (\<lambda>t l. map_option snd (TaskList_AddTask True t l)) (take 15 ts) l \<noteq> None \<and>
    run (\<lambda>t l. map_option snd (TaskList_AddTask True t l)) ts l = None"
proof -
  have t: "ts = take 15 ts @ [ts ! 15]" using assms(2) by (simp add: take_Suc_conv_app_nth [symmetric])
  have f: "size_flexible_tasks l < TASK_LIST_MAX_TASKS"
    using assms(1) by (auto simp: TaskList_CreateWithCapacity_def TaskList_InitialiseWithCapacity_def TASK_LIST_MAX_TASKS_def split: if_splits)
  have "\<exists>k. run (\<lambda>t l. map_option snd (TaskList_AddTask True t l)) (take 15 ts) l = Some k \<and> repr k ([] @ take 15 ts) \<and> same_header l k"
    using assms by (intro add_new_tasks create_repr [OF assms(1)]) (auto simp: TASK_LIST_MAX_TASKS_def dest: in_set_takeD)
  then obtain k where k: "run (\<lambda>t l. map_option snd (TaskList_AddTask True t l)) (take 15 ts) l = Some k" "repr k (take 15 ts)" "same_header l k"
    by auto
  have "ts ! 15 \<notin> set (take 15 ts)" using assms(3) t by (metis distinct_append disjoint_insert(1) list.simps(15) not_distinct_conv_prefix)
  moreover have "ts ! 15 \<noteq> 0" using assms(2,4) by (metis nth_mem lessI numeral_nat(1) eval_nat_numeral(3) semiring_norm)
  ultimately have "TaskList_AddTask True (ts ! 15) k = None"
    using k f assms(2) by (intro full_list_add [OF k(2)]) (auto simp: same_header_def TASK_LIST_MAX_TASKS_def)
  then have "run (\<lambda>t l. map_option snd (TaskList_AddTask True t l)) (take 15 ts @ [ts ! 15]) l = None"
    using k(1) by (simp add: run_append)
  with k(1) t show ?thesis by simp
qed

theorem task_list_sixteenth_task_witness:
  "run (\<lambda>t l. map_option snd (TaskList_AddTask True t l)) [1..<17] (the (TaskList_CreateWithCapacity True 3) :: nat task_list) = None"
proof -
  have "TaskList_CreateWithCapacity True 3 = Some (the (TaskList_CreateWithCapacity True 3) :: nat task_list)"
    by (simp add: TaskList_CreateWithCapacity_def TaskList_InitialiseWithCapacity_def TASK_LIST_MAX_TASKS_def)
  from task_list_sixteenth_task [OF this, of "[1..<17]"] show ?thesis by simp
qed

lemma set_task_header:
  "taskList_SetTaskAtIndex l t i = Some k \<Longrightarrow>
   size_flexible_tasks k = size_flexible_tasks l \<and> length (flexible_tasks k) = length (flexible_tasks l)"
  by (auto simp: taskList_SetTaskAtIndex_def split: if_splits option.splits)

lemma copy_overrun:
  "i \<le> j \<Longrightarrow> j < i + n \<Longrightarrow> j < size_flexible_tasks new \<Longrightarrow> length (flexible_tasks new) \<le> j \<Longrightarrow> copy_loop i n l new = None"
proof (induction n arbitrary: i new)
  case (Suc n)
  then show ?case
  proof (cases "i = j")
    case True
    with Suc.prems show ?thesis by (cases "taskList_GetTaskAtIndex l i") (simp_all add: taskList_SetTaskAtIndex_def)
  next
    case False
    have "copy_loop (i + 1) n l k = None" if "taskList_SetTaskAtIndex new t i = Some k" for t k
      using Suc.IH [of "i + 1" k] Suc.prems False set_task_header [OF that] by simp
    then show ?thesis
      by (cases "taskList_GetTaskAtIndex l i"; cases "taskList_SetTaskAtIndex new (the (taskList_GetTaskAtIndex l i)) i") simp_all
  qed
qed simp

lemma copy_heap:
  assumes "repr l xs" "size_flexible_tasks new = 0" "size_list new = length xs" "1 < length xs"
    "u_store new = U_Tasks (Some (map Some (take i xs) @ replicate n None))" "i + n = length xs"
  shows "copy_loop i n l new = Some (new\<lparr>u_store := U_Tasks (Some (map Some xs))\<rparr>)"
  using assms(2-)
proof (induction n arbitrary: i new)
  case (Suc n)
  let ?new = "new\<lparr>u_store := U_Tasks (Some (map Some (take (i + 1) xs) @ replicate n None))\<rparr>"
  have i: "i < length xs" using Suc.prems by simp
  have "taskList_GetTaskAtIndex l i = Some (xs ! i)" using assms(1) i by (intro stores_get) (simp_all add: repr_def)
  moreover have "taskList_SetTaskAtIndex new (xs ! i) i = Some ?new"
    using Suc.prems i by (auto simp: taskList_SetTaskAtIndex_def take_Suc_conv_app_nth list_update_append)
  ultimately show ?case using Suc.IH [of ?new "i + 1"] Suc.prems by simp
qed simp

text \<open>Duplicating a list of tasks is only safe for a list without an inline array: the copy is created one place too small
  and then takes over the header of the original, so copying the last inline task writes behind the allocation. Without an
  inline array the copy holds the same tasks.\<close>

theorem task_list_duplicate:
  assumes "repr l xs" and "\<not> type_with_data l" and "size_flexible_tasks l < TASK_LIST_MAX_TASKS"
  shows "(size_flexible_tasks l = 0 \<longrightarrow> (\<exists>k. TaskList_Duplicate True l = Some k \<and> repr k xs)) \<and>
    (0 < size_flexible_tasks l \<and> size_flexible_tasks l \<le> length xs \<longrightarrow> TaskList_Duplicate True l = None)"
proof (intro conjI impI)
  let ?flex = "size_flexible_tasks l" and ?n = "length xs"
  have s: "size_list l = ?n" "?n \<le> 15" using storesD [of l xs] assms(1) by (simp_all add: repr_def TASK_LIST_MAX_TASKS_def)
  define new :: "'a task_list" where "new = \<lparr>size_list = ?n, size_flexible_tasks = ?flex, type_with_data = False, no_destroy = False,
      flexible_tasks = replicate (?flex - 1) 0, u_store = U_Task 0, list_data = []\<rparr>"
  have d: "TaskList_Duplicate True l = Option.bind (taskList_Resize True ?n new) (copy_loop 0 ?n l)"
    using assms(2,3) s
    by (cases "taskList_Resize True ?n new")
      (auto simp: TaskList_Duplicate_def TaskList_CreateWithCapacity_def TaskList_InitialiseWithCapacity_def new_def
        TASK_LIST_MAX_TASKS_def option.map_id0 [unfolded id_def])
  show "\<exists>k. TaskList_Duplicate True l = Some k \<and> repr k xs" if f: "?flex = 0"
  proof (cases "1 < ?n")
    case True
    let ?k = "new\<lparr>u_store := U_Tasks (Some (map Some xs))\<rparr>"
    have "taskList_Resize True ?n new = Some (new\<lparr>u_store := U_Tasks (Some (replicate ?n None))\<rparr>)"
      using True f s(2) by (simp add: taskList_Resize_def resize_store_def Let_def new_def resize_array_def)
    then have "TaskList_Duplicate True l = Some ?k"
      using d copy_heap [OF assms(1), of "new\<lparr>u_store := U_Tasks (Some (replicate ?n None))\<rparr>" 0 ?n] True f by (simp add: new_def)
    moreover have "repr ?k xs"
      using assms(1) f True s by (auto simp: repr_def TASK_LIST_MAX_TASKS_def new_def intro!: storesI)
    ultimately show ?thesis by blast
  next
    case False
    then consider "xs = []" | t where "xs = [t]" by (cases xs) auto
    then show ?thesis
    proof cases
      case 1
      with d assms(1) f s show ?thesis
        by (simp add: taskList_Resize_def resize_store_def Let_def new_def repr_def stores_def)
    next
      case 2
      have "taskList_GetTaskAtIndex l 0 = Some t" using stores_get [of l xs 0] assms(1) 2 by (simp add: repr_def)
      with 2 d assms(1) f s show ?thesis
        by (simp add: taskList_Resize_def resize_store_def Let_def new_def repr_def stores_def taskList_SetTaskAtIndex_def
            TASK_LIST_MAX_TASKS_def)
    qed
  qed
  show "TaskList_Duplicate True l = None" if f: "0 < ?flex \<and> ?flex \<le> ?n"
  proof (cases "taskList_Resize True ?n new")
    case (Some l1)
    then have "size_flexible_tasks l1 = ?flex" "length (flexible_tasks l1) = ?flex - 1"
      by (auto simp: taskList_Resize_def new_def split: option.splits if_splits)
    moreover have "?flex - 1 < 0 + ?n" using f by linarith
    ultimately show ?thesis using copy_overrun [of 0 "?flex - 1" ?n l1 l] f d Some by simp
  qed (use d in simp)
qed

theorem task_list_duplicate_witness:
  "TaskList_Duplicate True (the (run (\<lambda>t l. map_option snd (TaskList_AddTask True t l)) [4, 5]
     (the (TaskList_CreateWithCapacity True 2) :: nat task_list))) = None"
proof -
  let ?c = "the (TaskList_CreateWithCapacity True 2) :: nat task_list"
  have c: "TaskList_CreateWithCapacity True 2 = Some ?c"
    by (simp add: TaskList_CreateWithCapacity_def TaskList_InitialiseWithCapacity_def TASK_LIST_MAX_TASKS_def)
  have h: "size_flexible_tasks ?c = 1" "\<not> type_with_data ?c"
    by (simp_all add: TaskList_CreateWithCapacity_def TaskList_InitialiseWithCapacity_def TASK_LIST_MAX_TASKS_def)
  obtain k where k: "run (\<lambda>t l. map_option snd (TaskList_AddTask True t l)) [4, 5] ?c = Some k" "repr k [4, 5]" "same_header ?c k"
    using add_new_tasks [OF create_repr [OF c], of "[4, 5]"] by (auto simp: TASK_LIST_MAX_TASKS_def)
  with h task_list_duplicate [of k "[4, 5]"] show ?thesis by (simp add: same_header_def TASK_LIST_MAX_TASKS_def)
qed

end
