(* ===== verification/Flag_Words.thy ===== *)
theory Flag_Words
  imports "HOL-Library.Word"
begin

text \<open>
  Words used as sets of flags: setting a flag with OR, clearing it with AND NOT, testing it with AND. The power manager keeps one such
  word per client, the charger monitor one for the reasons it is disabled.
\<close>

unbundle bit_operations_syntax

lemma flag_set_self: "(d OR f) AND f = (f :: 32 word)"
  by (auto simp: bit_eq_iff bit_simps)

lemma flag_clear_self: "(d AND NOT f) AND f = (0 :: 32 word)"
  by (auto simp: bit_eq_iff bit_simps)

lemma flag_other:
  assumes "f AND g = (0 :: 32 word)"
  shows "(d OR f) AND g = d AND g" "(d AND NOT f) AND g = d AND g"
  using assms by (auto simp: bit_eq_iff bit_simps)

lemma flag_or_zero: "d OR f = (0 :: 32 word) \<longleftrightarrow> d = 0 \<and> f = 0"
  by (auto simp: bit_eq_iff bit_simps)

lemma flag_present: "d AND f \<noteq> (0 :: 32 word) \<Longrightarrow> d \<noteq> 0"
  by auto

end
