(* ===== verification/Power_Manager.thy ===== *)
theory Power_Manager
  imports Task_List Flag_Words
begin

text \<open>
  The power manager (\<^verbatim>\<open>src/adk/src/domains/power/power_manager\<close>): the client list with its flags
  (\<^verbatim>\<open>power_manager_flags.c\<close>), the state machine (\<^verbatim>\<open>power_manager_sm.c\<close>), the conditions
  (\<^verbatim>\<open>power_manager_conditions.c\<close>), the interface (\<^verbatim>\<open>power_manager.c\<close>), the performance profile counter
  (\<^verbatim>\<open>power_manager_performance.c\<close>), the monitors (\<^verbatim>\<open>power_manager_monitors.c\<close>), the contexts
  (\<^verbatim>\<open>power_manager_ui.c\<close>) and the final actions (\<^verbatim>\<open>power_manager_action.c\<close>).

  The clients are the list that the task list of \<open>Task_List\<close> represents, each with its flag word; an addition or a removal that
  stops the program there (a null task, a sixteenth client, no memory) stops it here (\<open>room_for\<close>, \<open>can_drop\<close>). The
  answers of the charger, battery and temperature modules during one call, and whether the heap has memory, are the record
  \<open>power_env\<close>; messages sent and calls made are collected in \<open>pw_out\<close>; \<open>None\<close> is \<^verbatim>\<open>Panic()\<close>.
\<close>

unbundle bit_operations_syntax

section \<open>Flags of the clients\<close>

type_synonym client = "task \<times> 32 word"

definition APP_POWER_ALLOW_SLEEP :: "32 word" where
  "APP_POWER_ALLOW_SLEEP = 1"

definition APP_POWER_SHUTDOWN_PREPARE_RESPONSE_PENDING :: "32 word" where
  "APP_POWER_SHUTDOWN_PREPARE_RESPONSE_PENDING = 2"

definition APP_POWER_SLEEP_PREPARE_RESPONSE_PENDING :: "32 word" where
  "APP_POWER_SLEEP_PREPARE_RESPONSE_PENDING = 4"

abbreviation "allow \<equiv> APP_POWER_ALLOW_SLEEP"
abbreviation "shut_pending \<equiv> APP_POWER_SHUTDOWN_PREPARE_RESPONSE_PENDING"
abbreviation "sleep_pending \<equiv> APP_POWER_SLEEP_PREPARE_RESPONSE_PENDING"

definition appPowerAllClientsHaveFlagCleared :: "32 word \<Rightarrow> client list \<Rightarrow> bool" where
  "appPowerAllClientsHaveFlagCleared flag cs \<longleftrightarrow> cs \<noteq> [] \<and> list_all (\<lambda>(t, d). d AND flag = 0) cs"

definition appPowerAllClientsHaveFlagSet :: "32 word \<Rightarrow> client list \<Rightarrow> bool" where
  "appPowerAllClientsHaveFlagSet flag cs \<longleftrightarrow> list_all (\<lambda>(t, d). d AND flag \<noteq> 0) cs"

definition change_client :: "task \<Rightarrow> (32 word \<Rightarrow> 32 word) \<Rightarrow> client list \<Rightarrow> client list" where
  "change_client t g cs = map (\<lambda>(x, d). (x, if x = t then g d else d)) cs"

definition appPowerSetFlagInClient :: "task \<Rightarrow> 32 word \<Rightarrow> client list \<Rightarrow> bool \<times> client list" where
  "appPowerSetFlagInClient t flag cs = (t \<in> fst ` set cs, change_client t (\<lambda>d. d OR flag) cs)"

definition appPowerClearFlagInClient :: "task \<Rightarrow> 32 word \<Rightarrow> client list \<Rightarrow> bool \<times> client list" where
  "appPowerClearFlagInClient t flag cs = (t \<in> fst ` set cs, change_client t (\<lambda>d. d AND NOT flag) cs)"

definition appPowerSetFlagInAllClients :: "32 word \<Rightarrow> client list \<Rightarrow> client list" where
  "appPowerSetFlagInAllClients flag cs = map (\<lambda>(x, d). (x, d OR flag)) cs"

section \<open>State\<close>

datatype power_state =
    POWER_STATE_INIT
  | POWER_STATE_OK
  | POWER_STATE_TERMINATING_CLIENTS_NOTIFIED
  | POWER_STATE_TERMINATING_CLIENTS_RESPONDED
  | POWER_STATE_SOPORIFIC_CLIENTS_NOTIFIED
  | POWER_STATE_SOPORIFIC_CLIENTS_RESPONDED

datatype power_msg = IND_SLEEP_PREPARE | IND_SLEEP_CANCELLED | IND_SHUTDOWN_PREPARE | IND_SHUTDOWN_CANCELLED | MSG_POWER_ON | MSG_POWER_OFF

datatype power_call =
    To_Client task power_msg
  | Cancel_Client task power_msg
  | Send_INIT_CFM
  | Call_SystemState_Shutdown
  | Call_SystemState_EmergencyShutdown
  | Call_SystemState_Sleep
  | VmRequest_PERFORMANCE
  | VmRequest_BALANCED
  | Relinquish_CancelFirst
  | Relinquish_SendLater int

record power =
  pw_state :: power_state
  pw_clients :: "client list"
  performance_req_count :: int
  allow_dormant :: bool
  user_initiated_shutdown :: bool
  init_complete :: bool
  panic_on_sleep :: bool
  pw_out :: "power_call list"

record power_env =
  pe_can_power_off :: bool
  pe_can_enter_dormant :: bool
  pe_battery_unsafe :: bool
  pe_temperature_extreme :: bool
  pe_heap :: bool

definition pw_emit :: "power_call list \<Rightarrow> power \<Rightarrow> power" where
  "pw_emit cs p = p\<lparr>pw_out := pw_out p @ cs\<rparr>"

definition to_clients :: "power_msg \<Rightarrow> power \<Rightarrow> power" where
  "to_clients m p = pw_emit (map (\<lambda>(t, d). To_Client t m) (pw_clients p)) p"

section \<open>Conditions\<close>

definition appPowerCanPowerOff :: "power_env \<Rightarrow> bool" where
  "appPowerCanPowerOff e \<longleftrightarrow> pe_can_power_off e"

definition appPowerCanSleep :: "power_env \<Rightarrow> power \<Rightarrow> bool" where
  "appPowerCanSleep e p \<longleftrightarrow> pe_can_enter_dormant e \<and> allow_dormant p \<and> init_complete p"

definition appPowerNeedsToPowerOff :: "power_env \<Rightarrow> power \<Rightarrow> bool" where
  "appPowerNeedsToPowerOff e p \<longleftrightarrow>
     appPowerCanPowerOff e \<and> (pe_temperature_extreme e \<or> user_initiated_shutdown p \<or> pe_battery_unsafe e)"

section \<open>State machine\<close>

definition power_exit :: "power \<Rightarrow> power" where
  "power_exit p = (case pw_state p of
     POWER_STATE_INIT \<Rightarrow> pw_emit [Send_INIT_CFM] p
   | POWER_STATE_TERMINATING_CLIENTS_RESPONDED \<Rightarrow> to_clients IND_SHUTDOWN_CANCELLED p
   | POWER_STATE_SOPORIFIC_CLIENTS_RESPONDED \<Rightarrow> to_clients IND_SLEEP_CANCELLED p
   | _ \<Rightarrow> p)"

fun power_rank :: "power_state \<Rightarrow> nat" where
  "power_rank POWER_STATE_TERMINATING_CLIENTS_NOTIFIED = 2"
| "power_rank POWER_STATE_TERMINATING_CLIENTS_RESPONDED = 1"
| "power_rank POWER_STATE_SOPORIFIC_CLIENTS_NOTIFIED = 2"
| "power_rank POWER_STATE_SOPORIFIC_CLIENTS_RESPONDED = 1"
| "power_rank _ = 0"

text \<open>The entry actions call \<^verbatim>\<open>appPowerSetState\<close> again: with no clients, or when the power-off is no longer needed.\<close>

function appPowerSetState :: "power_env \<Rightarrow> power_state \<Rightarrow> power \<Rightarrow> power option" where
  "appPowerSetState e new p =
     (let p1 = (power_exit p)\<lparr>pw_state := new\<rparr>
      in case new of
        POWER_STATE_INIT \<Rightarrow> None
      | POWER_STATE_OK \<Rightarrow> Some (p1\<lparr>user_initiated_shutdown := False\<rparr>)
      | POWER_STATE_TERMINATING_CLIENTS_NOTIFIED \<Rightarrow>
          (if pw_clients p1 \<noteq> []
           then Some (to_clients MSG_POWER_OFF
             ((to_clients IND_SHUTDOWN_PREPARE p1)\<lparr>pw_clients := appPowerSetFlagInAllClients shut_pending (pw_clients p1)\<rparr>))
           else appPowerSetState e POWER_STATE_TERMINATING_CLIENTS_RESPONDED p1)
      | POWER_STATE_TERMINATING_CLIENTS_RESPONDED \<Rightarrow>
          appPowerSetState e POWER_STATE_OK
            (if appPowerNeedsToPowerOff e p1
             then pw_emit [if user_initiated_shutdown p1 then Call_SystemState_Shutdown else Call_SystemState_EmergencyShutdown] p1
             else p1)
      | POWER_STATE_SOPORIFIC_CLIENTS_NOTIFIED \<Rightarrow>
          (if pw_clients p1 \<noteq> []
           then Some ((to_clients IND_SLEEP_PREPARE p1)\<lparr>pw_clients := appPowerSetFlagInAllClients sleep_pending (pw_clients p1)\<rparr>)
           else appPowerSetState e POWER_STATE_SOPORIFIC_CLIENTS_RESPONDED p1)
      | POWER_STATE_SOPORIFIC_CLIENTS_RESPONDED \<Rightarrow>
          (if appPowerCanSleep e p1 then Some (pw_emit [Call_SystemState_Sleep] p1)
           else appPowerSetState e POWER_STATE_OK p1))"
  by auto

termination appPowerSetState
  by (relation "measure (\<lambda>(e, new, p). power_rank new)") auto

declare appPowerSetState.simps [simp del]

definition appPowerHandlePowerEvent :: "power_env \<Rightarrow> power \<Rightarrow> power option" where
  "appPowerHandlePowerEvent e p = (case pw_state p of
     POWER_STATE_INIT \<Rightarrow>
       appPowerSetState e POWER_STATE_OK (if appPowerNeedsToPowerOff e p then pw_emit [Call_SystemState_Shutdown] p else p)
   | POWER_STATE_OK \<Rightarrow>
       (if appPowerNeedsToPowerOff e p then appPowerSetState e POWER_STATE_TERMINATING_CLIENTS_NOTIFIED p
        else if appPowerAllClientsHaveFlagSet allow (pw_clients p) \<and> appPowerCanSleep e p
        then appPowerSetState e POWER_STATE_SOPORIFIC_CLIENTS_NOTIFIED p
        else Some p)
   | _ \<Rightarrow> Some p)"

section \<open>Interface\<close>

definition appPowerInit :: power where
  "appPowerInit = \<lparr>pw_state = POWER_STATE_INIT, pw_clients = [], performance_req_count = 0, allow_dormant = True,
     user_initiated_shutdown = False, init_complete = False, panic_on_sleep = False, pw_out = [VmRequest_BALANCED]\<rparr>"

definition appPowerInitComplete :: "power_env \<Rightarrow> power \<Rightarrow> power option" where
  "appPowerInitComplete e p = appPowerHandlePowerEvent e (p\<lparr>init_complete := True\<rparr>)"

definition appPowerOn :: "power \<Rightarrow> power" where
  "appPowerOn p = to_clients MSG_POWER_ON p"

definition appPowerOffRequest_op :: "power_env \<Rightarrow> power \<Rightarrow> (bool \<times> power) option" where
  "appPowerOffRequest_op e p =
     (if \<not> appPowerCanPowerOff e then Some (False, p)
      else case pw_state p of
        POWER_STATE_OK \<Rightarrow>
          map_option (Pair True) (appPowerSetState e POWER_STATE_TERMINATING_CLIENTS_NOTIFIED (p\<lparr>user_initiated_shutdown := True\<rparr>))
      | POWER_STATE_TERMINATING_CLIENTS_NOTIFIED \<Rightarrow> Some (True, p)
      | POWER_STATE_TERMINATING_CLIENTS_RESPONDED \<Rightarrow> Some (True, p)
      | _ \<Rightarrow> Some (False, p))"

definition appPowerClientRegister :: "power_env \<Rightarrow> task \<Rightarrow> power \<Rightarrow> power option" where
  "appPowerClientRegister e t p =
     (if \<not> room_for (pe_heap e) t (map fst (pw_clients p)) then None
      else if t \<in> fst ` set (pw_clients p) then Some p
      else let p1 = p\<lparr>pw_clients := pw_clients p @ [(t, 0)]\<rparr>
           in case pw_state p1 of
             POWER_STATE_INIT \<Rightarrow> None
           | POWER_STATE_TERMINATING_CLIENTS_NOTIFIED \<Rightarrow>
               Some (pw_emit [To_Client t IND_SHUTDOWN_PREPARE]
                 (p1\<lparr>pw_clients := snd (appPowerSetFlagInClient t shut_pending (pw_clients p1))\<rparr>))
           | POWER_STATE_SOPORIFIC_CLIENTS_NOTIFIED \<Rightarrow>
               Some (pw_emit [To_Client t IND_SLEEP_PREPARE]
                 (p1\<lparr>pw_clients := snd (appPowerSetFlagInClient t sleep_pending (pw_clients p1))\<rparr>))
           | _ \<Rightarrow> Some p1)"

definition appPowerClientAllowSleep :: "power_env \<Rightarrow> task \<Rightarrow> power \<Rightarrow> power option" where
  "appPowerClientAllowSleep e t p =
     (let p1 = p\<lparr>pw_clients := snd (appPowerSetFlagInClient t allow (pw_clients p))\<rparr>
      in if pw_state p1 = POWER_STATE_OK \<and> appPowerAllClientsHaveFlagSet allow (pw_clients p1) \<and> appPowerCanSleep e p1
         then appPowerSetState e POWER_STATE_SOPORIFIC_CLIENTS_NOTIFIED p1 else Some p1)"

definition appPowerClientProhibitSleep :: "task \<Rightarrow> power \<Rightarrow> power" where
  "appPowerClientProhibitSleep t p = p\<lparr>pw_clients := snd (appPowerClearFlagInClient t allow (pw_clients p))\<rparr>"

text \<open>The two responses differ in the state they belong to, the flag and the next state.\<close>

definition power_response :: "power_state \<Rightarrow> 32 word \<Rightarrow> power_state \<Rightarrow> power_env \<Rightarrow> task \<Rightarrow> power \<Rightarrow> power option" where
  "power_response notified flag responded e t p =
     (if pw_state p \<noteq> notified then Some p
      else case appPowerClearFlagInClient t flag (pw_clients p) of (known, cs) \<Rightarrow>
        let p1 = p\<lparr>pw_clients := cs\<rparr>
        in if known \<and> appPowerAllClientsHaveFlagCleared flag cs then appPowerSetState e responded p1 else Some p1)"

definition appPowerShutdownPrepareResponse_op :: "power_env \<Rightarrow> task \<Rightarrow> power \<Rightarrow> power option" where
  "appPowerShutdownPrepareResponse_op =
     power_response POWER_STATE_TERMINATING_CLIENTS_NOTIFIED shut_pending POWER_STATE_TERMINATING_CLIENTS_RESPONDED"

definition appPowerSleepPrepareResponse :: "power_env \<Rightarrow> task \<Rightarrow> power \<Rightarrow> power option" where
  "appPowerSleepPrepareResponse =
     power_response POWER_STATE_SOPORIFIC_CLIENTS_NOTIFIED sleep_pending POWER_STATE_SOPORIFIC_CLIENTS_RESPONDED"

definition appPowerClientUnregister :: "power_env \<Rightarrow> task \<Rightarrow> power \<Rightarrow> power option" where
  "appPowerClientUnregister e t p =
     Option.bind (appPowerClientAllowSleep e t p) (\<lambda>p1.
     Option.bind (appPowerShutdownPrepareResponse_op e t p1) (\<lambda>p2.
     Option.bind (appPowerSleepPrepareResponse e t p2) (\<lambda>p3.
     if \<not> can_drop (pe_heap e) t (map fst (pw_clients p3)) then None
     else Some ((pw_emit [Cancel_Client t IND_SLEEP_PREPARE, Cancel_Client t IND_SLEEP_CANCELLED, Cancel_Client t IND_SHUTDOWN_PREPARE,
              Cancel_Client t IND_SHUTDOWN_CANCELLED] p3)\<lparr>pw_clients := filter (\<lambda>c. fst c \<noteq> t) (pw_clients p3)\<rparr>))))"

definition appPowerIsShuttingDown :: "power \<Rightarrow> bool" where
  "appPowerIsShuttingDown p \<longleftrightarrow> pw_state p = POWER_STATE_TERMINATING_CLIENTS_NOTIFIED \<or>
     pw_state p = POWER_STATE_TERMINATING_CLIENTS_RESPONDED"

section \<open>Performance profile\<close>

definition appPowerPerformanceProfileRequest :: "power \<Rightarrow> power option" where
  "appPowerPerformanceProfileRequest p =
     (let p1 = (if performance_req_count p = 0 then pw_emit [VmRequest_PERFORMANCE] p else p);
          n = (performance_req_count p1 + 1) mod 2 ^ 32
      in if n = 0 then None else Some (p1\<lparr>performance_req_count := n\<rparr>))"

text \<open>\<open>due\<close> is the remaining time of a pending relinquish message, if there is one.\<close>

definition appPowerPerformanceProfileRequestDuration :: "int option \<Rightarrow> int \<Rightarrow> power \<Rightarrow> power option" where
  "appPowerPerformanceProfileRequestDuration due duration p =
     (let send = (\<lambda>d p. Some (pw_emit [Relinquish_CancelFirst, Relinquish_SendLater d] p))
      in case due of
        Some r \<Rightarrow> send (if r > 0 then max r duration else duration) p
      | None \<Rightarrow> Option.bind (appPowerPerformanceProfileRequest p) (send duration))"

definition appPowerPerformanceProfileRelinquish :: "power \<Rightarrow> power" where
  "appPowerPerformanceProfileRelinquish p =
     (if performance_req_count p > 0
      then let p1 = p\<lparr>performance_req_count := performance_req_count p - 1\<rparr>
           in if performance_req_count p1 = 0 then pw_emit [VmRequest_BALANCED] p1 else p1
      else p)"

section \<open>Messages, context, final actions\<close>

datatype power_event = Charger_Or_Monitor_Message | PERFORMANCE_RELINIQUISH | Power_Other_Message

definition appPowerHandleMessage :: "power_env \<Rightarrow> power_event \<Rightarrow> power \<Rightarrow> power option" where
  "appPowerHandleMessage e m p = (case m of
     Charger_Or_Monitor_Message \<Rightarrow> appPowerHandlePowerEvent e p
   | PERFORMANCE_RELINIQUISH \<Rightarrow> Some (appPowerPerformanceProfileRelinquish p)
   | Power_Other_Message \<Rightarrow> Some p)"

datatype power_provider_context = BAD_POWER_CONTEXT | context_power_on | context_powering_off | context_entering_sleep

definition appPowerCurrentContext :: "power \<Rightarrow> power_provider_context" where
  "appPowerCurrentContext p = (case pw_state p of
     POWER_STATE_INIT \<Rightarrow> BAD_POWER_CONTEXT
   | POWER_STATE_OK \<Rightarrow> context_power_on
   | POWER_STATE_TERMINATING_CLIENTS_NOTIFIED \<Rightarrow> context_powering_off
   | POWER_STATE_TERMINATING_CLIENTS_RESPONDED \<Rightarrow> context_powering_off
   | POWER_STATE_SOPORIFIC_CLIENTS_NOTIFIED \<Rightarrow> context_entering_sleep
   | POWER_STATE_SOPORIFIC_CLIENTS_RESPONDED \<Rightarrow> context_entering_sleep)"

text \<open>How the final actions end: the chip sleeps, the supplies are off, the code panics, or the call returns.\<close>

datatype power_outcome = Chip_Dormant | Supplies_Off | Power_Panic | Returned bool

definition appPowerEnterDormantMode :: "bool \<Rightarrow> power \<Rightarrow> power_outcome" where
  "appPowerEnterDormantMode dormant_works p =
     (if panic_on_sleep p then Power_Panic else if dormant_works then Chip_Dormant else Power_Panic)"

definition appPowerDoPowerOff :: "bool \<Rightarrow> bool \<Rightarrow> bool \<Rightarrow> power \<Rightarrow> power_outcome" where
  "appPowerDoPowerOff supplies_switch dormant_works attached_pending p =
     (if panic_on_sleep p then Power_Panic
      else if supplies_switch then Supplies_Off
      else if \<not> attached_pending then appPowerEnterDormantMode dormant_works p
      else Returned False)"

end
