(* ===== verification/Power_Safety.thy ===== *)
theory Power_Safety
  imports Power_Manager
begin

text \<open>
  The guarantees of the power manager over all sequences of calls and messages: the handshake with
  the clients before a power-off or a sleep, who is still awaited, and when the system state machine is told to
  shut down.
\<close>

section \<open>Flag words\<close>

lemmas flag_defs = APP_POWER_ALLOW_SLEEP_def APP_POWER_SHUTDOWN_PREPARE_RESPONSE_PENDING_def
  APP_POWER_SLEEP_PREPARE_RESPONSE_PENDING_def

lemma flags_disjoint:
  "allow AND shut_pending = 0" "allow AND sleep_pending = 0" "shut_pending AND sleep_pending = 0" "sleep_pending AND shut_pending = 0"
  "shut_pending \<noteq> 0" "sleep_pending \<noteq> 0"
  by (simp_all add: flag_defs)

lemmas flag_simps = flag_set_self flag_clear_self flags_disjoint flags_disjoint(1-4) [THEN flag_other(1)] flags_disjoint(1-4) [THEN flag_other(2)]

definition pending_flag :: "32 word \<Rightarrow> client list \<Rightarrow> bool" where
  "pending_flag f cs \<longleftrightarrow> (\<exists>(t, d)\<in>set cs. d AND f \<noteq> 0)"

lemma all_cleared: "appPowerAllClientsHaveFlagCleared f cs \<longleftrightarrow> cs \<noteq> [] \<and> \<not> pending_flag f cs"
  by (auto simp: appPowerAllClientsHaveFlagCleared_def pending_flag_def list_all_iff)

lemma fst_change [simp]: "map fst (change_client t g cs) = map fst cs" "fst ` set (change_client t g cs) = fst ` set cs"
  by (simp_all add: change_client_def comp_def case_prod_beta' image_image)

lemma change_client_nil [simp]: "change_client t g cs = [] \<longleftrightarrow> cs = []"
  by (simp add: change_client_def)

lemma fst_set_all [simp]: "map fst (appPowerSetFlagInAllClients f cs) = map fst cs"
  by (simp add: appPowerSetFlagInAllClients_def comp_def case_prod_beta')

lemma set_all_nil [simp]: "appPowerSetFlagInAllClients f cs = [] \<longleftrightarrow> cs = []"
  by (simp add: appPowerSetFlagInAllClients_def)

lemma pending_map: "pending_flag g (map (\<lambda>(x, d). (x, h x d)) cs) \<longleftrightarrow> (\<exists>(x, d)\<in>set cs. h x d AND g \<noteq> 0)"
  by (auto simp: pending_flag_def case_prod_beta')

lemma pending_set_all:
  "f \<noteq> 0 \<Longrightarrow> pending_flag f (appPowerSetFlagInAllClients f cs) \<longleftrightarrow> cs \<noteq> []"
  "f AND g = 0 \<Longrightarrow> pending_flag g (appPowerSetFlagInAllClients f cs) \<longleftrightarrow> pending_flag g cs"
  unfolding appPowerSetFlagInAllClients_def pending_map
  by (cases cs) (auto simp: flag_set_self flag_other pending_flag_def)

lemma pending_change_client:
  "(\<And>d. h d AND g = d AND g) \<Longrightarrow> pending_flag g (change_client t h cs) \<longleftrightarrow> pending_flag g cs"
  unfolding change_client_def pending_map by (auto simp: pending_flag_def split: if_splits)

lemma pending_set_client:
  assumes "f AND g = 0"
  shows "pending_flag g (snd (appPowerSetFlagInClient t f cs)) \<longleftrightarrow> pending_flag g cs"
    "pending_flag g (snd (appPowerClearFlagInClient t f cs)) \<longleftrightarrow> pending_flag g cs"
  by (simp_all add: appPowerSetFlagInClient_def appPowerClearFlagInClient_def pending_change_client flag_other [OF assms])

lemma pending_new_client:
  "f \<noteq> 0 \<Longrightarrow> pending_flag f (snd (appPowerSetFlagInClient t f (cs @ [(t, d)])))"
  by (auto simp: pending_flag_def appPowerSetFlagInClient_def change_client_def flag_set_self)

lemma clear_client_pending:
  "pending_flag f (snd (appPowerClearFlagInClient t f cs)) \<longleftrightarrow> (\<exists>(x, d)\<in>set cs. x \<noteq> t \<and> d AND f \<noteq> 0)"
  unfolding appPowerClearFlagInClient_def change_client_def snd_conv pending_map
  by (auto simp: flag_clear_self split: if_splits)

section \<open>State changes\<close>

lemma pw_emit_frame [simp]:
  "pw_state (pw_emit cs p) = pw_state p" "pw_clients (pw_emit cs p) = pw_clients p" "pw_out (pw_emit cs p) = pw_out p @ cs"
  "performance_req_count (pw_emit cs p) = performance_req_count p" "user_initiated_shutdown (pw_emit cs p) = user_initiated_shutdown p"
  "init_complete (pw_emit cs p) = init_complete p" "allow_dormant (pw_emit cs p) = allow_dormant p"
  by (simp_all add: pw_emit_def)

lemma to_clients_frame [simp]:
  "pw_state (to_clients m p) = pw_state p" "pw_clients (to_clients m p) = pw_clients p"
  "performance_req_count (to_clients m p) = performance_req_count p" "user_initiated_shutdown (to_clients m p) = user_initiated_shutdown p"
  "init_complete (to_clients m p) = init_complete p" "allow_dormant (to_clients m p) = allow_dormant p"
  "pw_out (to_clients m p) = pw_out p @ map (\<lambda>(t, d). To_Client t m) (pw_clients p)"
  by (simp_all add: to_clients_def)

lemma power_exit_frame [simp]:
  "pw_clients (power_exit p) = pw_clients p" "performance_req_count (power_exit p) = performance_req_count p"
  "user_initiated_shutdown (power_exit p) = user_initiated_shutdown p" "init_complete (power_exit p) = init_complete p"
  "allow_dormant (power_exit p) = allow_dormant p"
  by (simp_all add: power_exit_def split: power_state.split)

text \<open>The calls of a shut-down or sleep on the system state machine.\<close>

definition system_calls :: "power_call list \<Rightarrow> power_call list" where
  "system_calls cs = filter (\<lambda>c. c \<in> {Call_SystemState_Shutdown, Call_SystemState_EmergencyShutdown, Call_SystemState_Sleep}) cs"

lemma system_calls_simps [simp]:
  "system_calls [] = []" "system_calls (xs @ ys) = system_calls xs @ system_calls ys"
  "system_calls (map (\<lambda>(t, d). To_Client t m) cs) = []"
  "system_calls (Call_SystemState_Shutdown # xs) = Call_SystemState_Shutdown # system_calls xs"
  "system_calls (Call_SystemState_EmergencyShutdown # xs) = Call_SystemState_EmergencyShutdown # system_calls xs"
  "system_calls (Call_SystemState_Sleep # xs) = Call_SystemState_Sleep # system_calls xs"
  "system_calls (To_Client t m # xs) = system_calls xs" "system_calls (Cancel_Client t m # xs) = system_calls xs"
  "system_calls (Send_INIT_CFM # xs) = system_calls xs" "system_calls (VmRequest_PERFORMANCE # xs) = system_calls xs"
  "system_calls (VmRequest_BALANCED # xs) = system_calls xs" "system_calls (Relinquish_CancelFirst # xs) = system_calls xs"
  "system_calls (Relinquish_SendLater z # xs) = system_calls xs"
  by (auto simp: system_calls_def filter_empty_conv)

lemma power_exit_calls [simp]: "system_calls (pw_out (power_exit p)) = system_calls (pw_out p)"
  by (simp add: power_exit_def split: power_state.split)

lemma set_ok: "appPowerSetState e POWER_STATE_OK p = Some ((power_exit p)\<lparr>pw_state := POWER_STATE_OK, user_initiated_shutdown := False\<rparr>)"
  by (simp add: appPowerSetState.simps)

definition power_down_call :: "power_env \<Rightarrow> power \<Rightarrow> power_call list" where
  "power_down_call e p =
     (if appPowerNeedsToPowerOff e p
      then [if user_initiated_shutdown p then Call_SystemState_Shutdown else Call_SystemState_EmergencyShutdown] else [])"

lemma needs_upd [simp]:
  "appPowerNeedsToPowerOff e (p\<lparr>pw_state := x\<rparr>) = appPowerNeedsToPowerOff e p"
  "appPowerNeedsToPowerOff e (power_exit p) = appPowerNeedsToPowerOff e p"
  "appPowerCanSleep e (p\<lparr>pw_state := x\<rparr>) = appPowerCanSleep e p" "appPowerCanSleep e (power_exit p) = appPowerCanSleep e p"
  "appPowerNeedsToPowerOff e (pw_emit cs p) = appPowerNeedsToPowerOff e p" "appPowerCanSleep e (pw_emit cs p) = appPowerCanSleep e p"
  "appPowerNeedsToPowerOff e (to_clients m p) = appPowerNeedsToPowerOff e p" "appPowerCanSleep e (to_clients m p) = appPowerCanSleep e p"
  by (simp_all add: appPowerNeedsToPowerOff_def appPowerCanSleep_def)

lemma set_responded:
  "\<exists>q. appPowerSetState e POWER_STATE_TERMINATING_CLIENTS_RESPONDED p = Some q \<and> pw_state q = POWER_STATE_OK \<and>
     pw_clients q = pw_clients p \<and> performance_req_count q = performance_req_count p \<and> init_complete q = init_complete p \<and>
     system_calls (pw_out q) = system_calls (pw_out p) @ power_down_call e p"
  by (subst appPowerSetState.simps) (simp add: set_ok Let_def power_down_call_def power_exit_def split: power_state.split)

lemma set_terminating:
  "\<exists>q. appPowerSetState e POWER_STATE_TERMINATING_CLIENTS_NOTIFIED p = Some q \<and>
     pw_state q = (if pw_clients p = [] then POWER_STATE_OK else POWER_STATE_TERMINATING_CLIENTS_NOTIFIED) \<and>
     pw_clients q = appPowerSetFlagInAllClients shut_pending (pw_clients p) \<and>
     performance_req_count q = performance_req_count p \<and> init_complete q = init_complete p \<and>
     (pw_clients p \<noteq> [] \<longrightarrow> user_initiated_shutdown q = user_initiated_shutdown p) \<and>
     system_calls (pw_out q) = system_calls (pw_out p) @ (if pw_clients p = [] then power_down_call e p else [])"
proof (cases "pw_clients p = []")
  case True
  let ?p = "(power_exit p)\<lparr>pw_state := POWER_STATE_TERMINATING_CLIENTS_NOTIFIED\<rparr>"
  have "power_down_call e ?p = power_down_call e p" by (simp add: power_down_call_def)
  with set_responded [of e ?p] True show ?thesis
    by (subst appPowerSetState.simps) (auto simp: Let_def appPowerSetFlagInAllClients_def)
qed (subst appPowerSetState.simps, simp add: Let_def)

lemma set_sleep_responded:
  "\<exists>q. appPowerSetState e POWER_STATE_SOPORIFIC_CLIENTS_RESPONDED p = Some q \<and>
     pw_state q = (if appPowerCanSleep e p then POWER_STATE_SOPORIFIC_CLIENTS_RESPONDED else POWER_STATE_OK) \<and>
     pw_clients q = pw_clients p \<and> performance_req_count q = performance_req_count p \<and> init_complete q = init_complete p \<and>
     system_calls (pw_out q) = system_calls (pw_out p) @ (if appPowerCanSleep e p then [Call_SystemState_Sleep] else [])"
  by (subst appPowerSetState.simps) (simp add: set_ok Let_def power_exit_def split: power_state.split)

lemma set_soporific:
  "\<exists>q. appPowerSetState e POWER_STATE_SOPORIFIC_CLIENTS_NOTIFIED p = Some q \<and>
     pw_state q = (if pw_clients p \<noteq> [] then POWER_STATE_SOPORIFIC_CLIENTS_NOTIFIED
       else if appPowerCanSleep e p then POWER_STATE_SOPORIFIC_CLIENTS_RESPONDED else POWER_STATE_OK) \<and>
     pw_clients q = appPowerSetFlagInAllClients sleep_pending (pw_clients p) \<and>
     performance_req_count q = performance_req_count p \<and> init_complete q = init_complete p \<and>
     system_calls (pw_out q) = system_calls (pw_out p) @
       (if pw_clients p = [] \<and> appPowerCanSleep e p then [Call_SystemState_Sleep] else [])"
proof (cases "pw_clients p = []")
  case True
  let ?p = "(power_exit p)\<lparr>pw_state := POWER_STATE_SOPORIFIC_CLIENTS_NOTIFIED\<rparr>"
  from set_sleep_responded [of e ?p] True show ?thesis
    by (subst appPowerSetState.simps) (auto simp: Let_def appPowerSetFlagInAllClients_def)
qed (subst appPowerSetState.simps, simp add: Let_def)

lemma set_state_clients:
  assumes "appPowerSetState e new p = Some q"
  shows "map fst (pw_clients q) = map fst (pw_clients p)"
proof (cases new)
  case POWER_STATE_INIT
  with assms show ?thesis by (simp add: appPowerSetState.simps)
next
  case POWER_STATE_OK
  with assms show ?thesis by (auto simp: set_ok)
qed (use assms set_terminating [of e p] set_responded [of e p] set_soporific [of e p] set_sleep_responded [of e p] in auto)

section \<open>The invariant\<close>

text \<open>
  Between two calls: the clients are distinct; somebody owes a response to a shutdown exactly while the clients
  have been told to prepare for one, and the same for sleep; nobody is registered before the
  initialisation has ended; the counter of the performance requests is a 32-bit number.
\<close>

definition pm_inv :: "power \<Rightarrow> bool" where
  "pm_inv p \<longleftrightarrow> distinct (map fst (pw_clients p)) \<and> pw_state p \<noteq> POWER_STATE_TERMINATING_CLIENTS_RESPONDED \<and>
     (pw_state p = POWER_STATE_TERMINATING_CLIENTS_NOTIFIED \<longleftrightarrow> pending_flag shut_pending (pw_clients p)) \<and>
     (pw_state p = POWER_STATE_SOPORIFIC_CLIENTS_NOTIFIED \<longleftrightarrow> pending_flag sleep_pending (pw_clients p)) \<and>
     (pw_state p = POWER_STATE_INIT \<longrightarrow> pw_clients p = []) \<and>
     0 \<le> performance_req_count p \<and> performance_req_count p < 2 ^ 32"

lemma pm_inv_init: "pm_inv appPowerInit"
  by (simp add: pm_inv_def appPowerInit_def pending_flag_def)

lemma pending_nil [simp]: "\<not> pending_flag f []"
  by (simp add: pending_flag_def)

lemma pm_inv_emit [simp]: "pm_inv (pw_emit cs p) \<longleftrightarrow> pm_inv p" "pm_inv (to_clients m p) \<longleftrightarrow> pm_inv p"
  by (simp_all add: pm_inv_def)

lemma pm_inv_upd [simp]: "pm_inv (p\<lparr>init_complete := b\<rparr>) \<longleftrightarrow> pm_inv p" "pm_inv (p\<lparr>user_initiated_shutdown := b\<rparr>) \<longleftrightarrow> pm_inv p"
  by (simp_all add: pm_inv_def)

text \<open>Starting a shutdown or a sleep from the normal state.\<close>

lemma start_terminating:
  assumes "pm_inv p" "pw_state p = POWER_STATE_OK"
  shows "\<exists>q. appPowerSetState e POWER_STATE_TERMINATING_CLIENTS_NOTIFIED p = Some q \<and> pm_inv q \<and>
    map fst (pw_clients q) = map fst (pw_clients p) \<and>
    system_calls (pw_out q) = system_calls (pw_out p) @ (if pw_clients p = [] then power_down_call e p else [])"
proof -
  obtain q where q: "appPowerSetState e POWER_STATE_TERMINATING_CLIENTS_NOTIFIED p = Some q"
    "pw_state q = (if pw_clients p = [] then POWER_STATE_OK else POWER_STATE_TERMINATING_CLIENTS_NOTIFIED)"
    "pw_clients q = appPowerSetFlagInAllClients shut_pending (pw_clients p)" "performance_req_count q = performance_req_count p"
    "system_calls (pw_out q) = system_calls (pw_out p) @ (if pw_clients p = [] then power_down_call e p else [])"
    using set_terminating by blast
  have "pm_inv q" using assms by (simp add: pm_inv_def q(2-4) pending_set_all flags_disjoint)
  with q show ?thesis by simp
qed

lemma start_soporific:
  assumes "pm_inv p" "pw_state p = POWER_STATE_OK"
  shows "\<exists>q. appPowerSetState e POWER_STATE_SOPORIFIC_CLIENTS_NOTIFIED p = Some q \<and> pm_inv q \<and>
    map fst (pw_clients q) = map fst (pw_clients p) \<and>
    system_calls (pw_out q) = system_calls (pw_out p) @
       (if pw_clients p = [] \<and> appPowerCanSleep e p then [Call_SystemState_Sleep] else [])"
proof -
  obtain q where q: "appPowerSetState e POWER_STATE_SOPORIFIC_CLIENTS_NOTIFIED p = Some q"
    "pw_state q = (if pw_clients p \<noteq> [] then POWER_STATE_SOPORIFIC_CLIENTS_NOTIFIED
       else if appPowerCanSleep e p then POWER_STATE_SOPORIFIC_CLIENTS_RESPONDED else POWER_STATE_OK)"
    "pw_clients q = appPowerSetFlagInAllClients sleep_pending (pw_clients p)" "performance_req_count q = performance_req_count p"
    "system_calls (pw_out q) = system_calls (pw_out p) @ (if pw_clients p = [] \<and> appPowerCanSleep e p then [Call_SystemState_Sleep] else [])"
    using set_soporific by blast
  have "pm_inv q" using assms by (simp add: pm_inv_def q(2-4) pending_set_all flags_disjoint)
  with q show ?thesis by simp
qed

text \<open>The response that everybody has been waiting for.\<close>

definition last_response :: "power_state \<Rightarrow> 32 word \<Rightarrow> task \<Rightarrow> power \<Rightarrow> bool" where
  "last_response st f t p \<longleftrightarrow> pw_state p = st \<and> t \<in> fst ` set (pw_clients p) \<and> (\<forall>(x, d)\<in>set (pw_clients p). x \<noteq> t \<longrightarrow> d AND f = 0)"

lemma fst_clear [simp]: "map fst (snd (appPowerClearFlagInClient t f cs)) = map fst cs"
  "map fst (snd (appPowerSetFlagInClient t f cs)) = map fst cs"
  by (simp_all add: appPowerClearFlagInClient_def appPowerSetFlagInClient_def)

lemma clear_known: "fst (appPowerClearFlagInClient t f cs) \<longleftrightarrow> t \<in> fst ` set cs"
  by (simp add: appPowerClearFlagInClient_def)

lemma clear_unknown: "t \<notin> fst ` set cs \<Longrightarrow> snd (appPowerClearFlagInClient t f cs) = cs"
  by (auto simp: appPowerClearFlagInClient_def change_client_def image_iff intro!: map_idI)

lemma response_cases:
  assumes "pw_state p = st"
  shows "power_response st f res e t p =
    (if last_response st f t p then appPowerSetState e res (p\<lparr>pw_clients := snd (appPowerClearFlagInClient t f (pw_clients p))\<rparr>)
     else Some (p\<lparr>pw_clients := snd (appPowerClearFlagInClient t f (pw_clients p))\<rparr>))"
proof -
  let ?cs = "pw_clients p"
  have "fst (appPowerClearFlagInClient t f ?cs) \<and> appPowerAllClientsHaveFlagCleared f (snd (appPowerClearFlagInClient t f ?cs)) \<longleftrightarrow>
      last_response st f t p"
    using clear_client_pending [of f t ?cs] assms
    by (auto simp: last_response_def clear_known all_cleared appPowerClearFlagInClient_def case_prod_beta')
  then show ?thesis using assms by (simp add: power_response_def case_prod_beta' Let_def)
qed

lemma shutdown_response:
  assumes "pm_inv p"
  shows "\<exists>q. appPowerShutdownPrepareResponse_op e t p = Some q \<and> pm_inv q \<and> map fst (pw_clients q) = map fst (pw_clients p) \<and>
    (\<forall>(x, d)\<in>set (pw_clients q). x = t \<longrightarrow> d AND shut_pending = 0) \<and>
    system_calls (pw_out q) = system_calls (pw_out p) @
      (if last_response POWER_STATE_TERMINATING_CLIENTS_NOTIFIED shut_pending t p then power_down_call e p else [])"
proof (cases "pw_state p = POWER_STATE_TERMINATING_CLIENTS_NOTIFIED")
  case False
  then have "\<not> pending_flag shut_pending (pw_clients p)" using assms by (simp add: pm_inv_def)
  with False assms show ?thesis
    by (auto simp: appPowerShutdownPrepareResponse_op_def power_response_def last_response_def pending_flag_def)
next
  case True
  let ?cs = "snd (appPowerClearFlagInClient t shut_pending (pw_clients p))"
  let ?p = "p\<lparr>pw_clients := ?cs\<rparr>"
  have sleep: "\<not> pending_flag sleep_pending ?cs"
    using assms True by (simp add: pm_inv_def pending_set_client flags_disjoint)
  have t: "\<forall>(x, d)\<in>set ?cs. x = t \<longrightarrow> d AND shut_pending = 0"
    by (auto simp: appPowerClearFlagInClient_def change_client_def flag_clear_self)
  note r = response_cases [OF True, of shut_pending POWER_STATE_TERMINATING_CLIENTS_RESPONDED e t, folded appPowerShutdownPrepareResponse_op_def]
  show ?thesis
  proof (cases "last_response POWER_STATE_TERMINATING_CLIENTS_NOTIFIED shut_pending t p")
    case last: True
    then have "\<not> pending_flag shut_pending ?cs" by (auto simp: clear_client_pending last_response_def)
    moreover obtain q where q: "appPowerSetState e POWER_STATE_TERMINATING_CLIENTS_RESPONDED ?p = Some q" "pw_state q = POWER_STATE_OK"
      "pw_clients q = ?cs" "performance_req_count q = performance_req_count p"
      "system_calls (pw_out q) = system_calls (pw_out p) @ power_down_call e ?p"
      using set_responded [of e ?p] by auto
    moreover have "power_down_call e ?p = power_down_call e p"
      by (simp add: power_down_call_def appPowerNeedsToPowerOff_def)
    ultimately show ?thesis
      using r last assms sleep t by (intro exI [of _ q]) (simp add: pm_inv_def)
  next
    case False
    then have "pending_flag shut_pending ?cs"
    proof (cases "t \<in> fst ` set (pw_clients p)")
      case True
      with False \<open>pw_state p = _\<close> show ?thesis unfolding clear_client_pending by (auto simp: last_response_def)
    next
      case False
      with True assms show ?thesis by (simp add: clear_unknown pm_inv_def)
    qed
    with r False True assms sleep t show ?thesis by (intro exI [of _ ?p]) (simp add: pm_inv_def)
  qed
qed

lemma sleep_response:
  assumes "pm_inv p"
  shows "\<exists>q. appPowerSleepPrepareResponse e t p = Some q \<and> pm_inv q \<and> map fst (pw_clients q) = map fst (pw_clients p) \<and>
    (\<forall>(x, d)\<in>set (pw_clients q). x = t \<longrightarrow> d AND sleep_pending = 0) \<and>
    ((\<forall>(x, d)\<in>set (pw_clients p). x = t \<longrightarrow> d AND shut_pending = 0) \<longrightarrow> (\<forall>(x, d)\<in>set (pw_clients q). x = t \<longrightarrow> d AND shut_pending = 0)) \<and>
    system_calls (pw_out q) = system_calls (pw_out p) @
      (if last_response POWER_STATE_SOPORIFIC_CLIENTS_NOTIFIED sleep_pending t p \<and> appPowerCanSleep e p then [Call_SystemState_Sleep] else [])"
proof (cases "pw_state p = POWER_STATE_SOPORIFIC_CLIENTS_NOTIFIED")
  case False
  then have "\<not> pending_flag sleep_pending (pw_clients p)" using assms by (simp add: pm_inv_def)
  with False assms show ?thesis
    by (auto simp: appPowerSleepPrepareResponse_def power_response_def last_response_def pending_flag_def)
next
  case True
  let ?cs = "snd (appPowerClearFlagInClient t sleep_pending (pw_clients p))"
  let ?p = "p\<lparr>pw_clients := ?cs\<rparr>"
  have shut: "\<not> pending_flag shut_pending ?cs"
    using assms True by (simp add: pm_inv_def pending_set_client flags_disjoint)
  have t: "\<forall>(x, d)\<in>set ?cs. x = t \<longrightarrow> d AND sleep_pending = 0" "\<forall>(x, d)\<in>set ?cs. x = t \<longrightarrow> d AND shut_pending = 0"
    using shut by (auto simp: appPowerClearFlagInClient_def change_client_def flag_clear_self pending_flag_def)
  note r = response_cases [OF True, of sleep_pending POWER_STATE_SOPORIFIC_CLIENTS_RESPONDED e t, folded appPowerSleepPrepareResponse_def]
  show ?thesis
  proof (cases "last_response POWER_STATE_SOPORIFIC_CLIENTS_NOTIFIED sleep_pending t p")
    case last: True
    then have "\<not> pending_flag sleep_pending ?cs" by (auto simp: clear_client_pending last_response_def)
    moreover obtain q where q: "appPowerSetState e POWER_STATE_SOPORIFIC_CLIENTS_RESPONDED ?p = Some q"
      "pw_state q = (if appPowerCanSleep e ?p then POWER_STATE_SOPORIFIC_CLIENTS_RESPONDED else POWER_STATE_OK)"
      "pw_clients q = ?cs" "performance_req_count q = performance_req_count p"
      "system_calls (pw_out q) = system_calls (pw_out p) @ (if appPowerCanSleep e ?p then [Call_SystemState_Sleep] else [])"
      using set_sleep_responded [of e ?p] by auto
    moreover have "appPowerCanSleep e ?p = appPowerCanSleep e p" by (simp add: appPowerCanSleep_def)
    ultimately show ?thesis
      using r last assms shut t by (intro exI [of _ q]) (simp add: pm_inv_def)
  next
    case False
    then have "pending_flag sleep_pending ?cs"
    proof (cases "t \<in> fst ` set (pw_clients p)")
      case True
      with False \<open>pw_state p = _\<close> show ?thesis unfolding clear_client_pending by (auto simp: last_response_def)
    next
      case False
      with True assms show ?thesis by (simp add: clear_unknown pm_inv_def)
    qed
    with r False True assms shut t show ?thesis by (intro exI [of _ ?p]) (simp add: pm_inv_def)
  qed
qed

section \<open>Every operation keeps the invariant\<close>

datatype pm_op =
    Pm_InitComplete
  | Pm_On
  | Pm_OffRequest
  | Pm_Register task
  | Pm_Unregister task
  | Pm_AllowSleep task
  | Pm_ProhibitSleep task
  | Pm_ShutdownResponse task
  | Pm_SleepResponse task
  | Pm_PerformanceRequest
  | Pm_PerformanceDuration "int option" int
  | Pm_PerformanceRelinquish
  | Pm_Message power_event

text \<open>One call or message with the answers the charger, battery and temperature modules give during it.\<close>

fun pm_do :: "power_env \<times> pm_op \<Rightarrow> power \<Rightarrow> power option" where
  "pm_do (e, Pm_InitComplete) p = appPowerInitComplete e p"
| "pm_do (e, Pm_On) p = Some (appPowerOn p)"
| "pm_do (e, Pm_OffRequest) p = map_option snd (appPowerOffRequest_op e p)"
| "pm_do (e, Pm_Register t) p = appPowerClientRegister e t p"
| "pm_do (e, Pm_Unregister t) p = appPowerClientUnregister e t p"
| "pm_do (e, Pm_AllowSleep t) p = appPowerClientAllowSleep e t p"
| "pm_do (e, Pm_ProhibitSleep t) p = Some (appPowerClientProhibitSleep t p)"
| "pm_do (e, Pm_ShutdownResponse t) p = appPowerShutdownPrepareResponse_op e t p"
| "pm_do (e, Pm_SleepResponse t) p = appPowerSleepPrepareResponse e t p"
| "pm_do (e, Pm_PerformanceRequest) p = appPowerPerformanceProfileRequest p"
| "pm_do (e, Pm_PerformanceDuration due d) p = appPowerPerformanceProfileRequestDuration due d p"
| "pm_do (e, Pm_PerformanceRelinquish) p = Some (appPowerPerformanceProfileRelinquish p)"
| "pm_do (e, Pm_Message m) p = appPowerHandleMessage e m p"

lemma pm_inv_allow:
  "pm_inv p \<Longrightarrow> pm_inv (p\<lparr>pw_clients := snd (appPowerSetFlagInClient t allow (pw_clients p))\<rparr>)"
  "pm_inv p \<Longrightarrow> pm_inv (p\<lparr>pw_clients := snd (appPowerClearFlagInClient t allow (pw_clients p))\<rparr>)"
  by (auto simp: pm_inv_def pending_set_client flags_disjoint)
    (simp_all add: appPowerSetFlagInClient_def appPowerClearFlagInClient_def change_client_def)

lemma event_ok:
  assumes "pm_inv p"
  shows "\<exists>q. appPowerHandlePowerEvent e p = Some q \<and> pm_inv q"
proof (cases "pw_state p")
  case POWER_STATE_INIT
  with assms show ?thesis
    by (auto simp: appPowerHandlePowerEvent_def set_ok pm_inv_def)
next
  case POWER_STATE_OK
  with start_terminating [OF assms] start_soporific [OF assms] assms show ?thesis
    by (auto simp: appPowerHandlePowerEvent_def)
qed (use assms in \<open>simp_all add: appPowerHandlePowerEvent_def\<close>)

lemma allow_ok:
  assumes "pm_inv p"
  shows "\<exists>q. appPowerClientAllowSleep e t p = Some q \<and> pm_inv q"
  using start_soporific [OF pm_inv_allow(1) [OF assms], of t e] pm_inv_allow(1) [OF assms, of t]
  by (auto simp: appPowerClientAllowSleep_def Let_def)

lemma off_ok:
  assumes "pm_inv p"
  shows "\<exists>b q. appPowerOffRequest_op e p = Some (b, q) \<and> pm_inv q"
  using start_terminating [of "p\<lparr>user_initiated_shutdown := True\<rparr>" e] assms
  by (auto simp: appPowerOffRequest_op_def split: power_state.split)

lemma register_ok:
  assumes "pm_inv p" "appPowerClientRegister e t p = Some q"
  shows "pm_inv q"
proof (cases "t \<in> fst ` set (pw_clients p)")
  case False
  have new: "pending_flag f (pw_clients p @ [(t, 0)]) \<longleftrightarrow> pending_flag f (pw_clients p)" for f
    by (auto simp: pending_flag_def)
  from False assms show ?thesis
    by (auto simp: appPowerClientRegister_def Let_def pm_inv_def pending_new_client pending_set_client flags_disjoint new
        split: power_state.splits if_splits)
qed (use assms in \<open>simp add: appPowerClientRegister_def split: if_splits\<close>)

lemma pending_filter:
  "\<forall>(x, d)\<in>set cs. x = t \<longrightarrow> d AND f = 0 \<Longrightarrow> pending_flag f (filter (\<lambda>c. fst c \<noteq> t) cs) \<longleftrightarrow> pending_flag f cs"
  unfolding pending_flag_def by fastforce

lemma allow_clients:
  "appPowerClientAllowSleep e t p = Some q \<Longrightarrow> map fst (pw_clients q) = map fst (pw_clients p)"
  by (auto simp: appPowerClientAllowSleep_def Let_def split: if_splits dest: set_state_clients)

text \<open>Leaving stops the program exactly when the list of the clients does.\<close>

lemma unregister_ok:
  assumes "pm_inv p"
  shows "if can_drop (pe_heap e) t (map fst (pw_clients p))
    then \<exists>q. appPowerClientUnregister e t p = Some q \<and> pm_inv q \<and> pw_clients q = filter (\<lambda>c. fst c \<noteq> t) (pw_clients q) \<and>
      map fst (pw_clients q) = filter (\<lambda>x. x \<noteq> t) (map fst (pw_clients p))
    else appPowerClientUnregister e t p = None"
proof -
  obtain p1 where p1: "appPowerClientAllowSleep e t p = Some p1" "pm_inv p1" using allow_ok [OF assms] by blast
  have f1: "map fst (pw_clients p1) = map fst (pw_clients p)" by (rule allow_clients [OF p1(1)])
  obtain p2 where p2: "appPowerShutdownPrepareResponse_op e t p1 = Some p2" "pm_inv p2" "map fst (pw_clients p2) = map fst (pw_clients p)"
    "\<forall>(x, d)\<in>set (pw_clients p2). x = t \<longrightarrow> d AND shut_pending = 0"
    using shutdown_response [OF p1(2), of e t] f1 by auto
  obtain p3 where p3: "appPowerSleepPrepareResponse e t p2 = Some p3" "pm_inv p3" "map fst (pw_clients p3) = map fst (pw_clients p)"
    "\<forall>(x, d)\<in>set (pw_clients p3). x = t \<longrightarrow> d AND sleep_pending = 0"
    "\<forall>(x, d)\<in>set (pw_clients p3). x = t \<longrightarrow> d AND shut_pending = 0"
    using sleep_response [OF p2(2), of e t] p2(3,4) by auto
  have "pm_inv (p3\<lparr>pw_clients := filter (\<lambda>c. fst c \<noteq> t) (pw_clients p3)\<rparr>)"
    using p3 by (simp add: pm_inv_def pending_filter distinct_map_filter)
  moreover have "map fst (filter (\<lambda>c. fst c \<noteq> t) (pw_clients p3)) = filter (\<lambda>x. x \<noteq> t) (map fst (pw_clients p))"
    by (simp add: p3(3) [symmetric] filter_map comp_def)
  ultimately show ?thesis
    unfolding appPowerClientUnregister_def p1(1) p2(1) p3(1) bind.bind_lunit p3(3)
    by (simp add: pm_inv_def)
qed

lemma performance_ok:
  assumes "pm_inv p"
  shows "appPowerPerformanceProfileRequest p = Some q \<Longrightarrow> pm_inv q" "pm_inv (appPowerPerformanceProfileRelinquish p)"
    "appPowerPerformanceProfileRequestDuration due d p = Some q \<Longrightarrow> pm_inv q"
proof -
  have r: "appPowerPerformanceProfileRequest p = Some q \<Longrightarrow> pm_inv q" for q
    using assms by (auto simp: appPowerPerformanceProfileRequest_def Let_def pm_inv_def split: if_splits)
  show "appPowerPerformanceProfileRequest p = Some q \<Longrightarrow> pm_inv q" by (rule r)
  show "appPowerPerformanceProfileRequestDuration due d p = Some q \<Longrightarrow> pm_inv q"
    using assms r by (auto simp: appPowerPerformanceProfileRequestDuration_def Let_def bind_eq_Some_conv split: option.splits)
  show "pm_inv (appPowerPerformanceProfileRelinquish p)"
    using assms by (auto simp: appPowerPerformanceProfileRelinquish_def Let_def pm_inv_def)
qed

lemma pm_keep:
  assumes "pm_inv p" "pm_do x p = Some q"
  shows "pm_inv q"
proof (cases x)
  case (Pair e op)
  show ?thesis
  proof (cases op)
    case Pm_InitComplete
    with assms event_ok [of "p\<lparr>init_complete := True\<rparr>" e] show ?thesis by (auto simp: Pair appPowerInitComplete_def)
  next
    case (Pm_Message m)
    with assms event_ok [OF assms(1), of e] show ?thesis
      by (auto simp: Pair appPowerHandleMessage_def performance_ok(2) split: power_event.splits)
  next
    case Pm_OffRequest
    with assms off_ok [OF assms(1), of e] show ?thesis by (auto simp: Pair)
  next
    case (Pm_Register t)
    with assms register_ok [OF assms(1)] show ?thesis by (auto simp: Pair)
  next
    case (Pm_Unregister t)
    with assms unregister_ok [OF assms(1), of e t] show ?thesis by (auto simp: Pair split: if_splits)
  next
    case (Pm_AllowSleep t)
    with assms allow_ok [OF assms(1), of e t] show ?thesis by (auto simp: Pair)
  next
    case (Pm_ShutdownResponse t)
    with assms(2) show ?thesis using shutdown_response [OF assms(1), of e t] by (auto simp: Pair)
  next
    case (Pm_SleepResponse t)
    with assms(2) show ?thesis using sleep_response [OF assms(1), of e t] by (auto simp: Pair)
  qed (use assms(2) in \<open>auto simp: Pair appPowerOn_def appPowerClientProhibitSleep_def assms(1) pm_inv_allow
      performance_ok(2) performance_ok(1,3) [OF assms(1)]\<close>)
qed

interpretation pm: kept_invariant pm_do pm_inv
  by unfold_locales (rule pm_keep)

section \<open>When the system is powered down\<close>

text \<open>Every client that owes an answer is the one whose answer (or departure) the operation is.\<close>

definition answered :: "pm_op \<Rightarrow> power \<Rightarrow> bool" where
  "answered op p \<longleftrightarrow> (\<forall>(t, d)\<in>set (pw_clients p). d AND shut_pending \<noteq> 0 \<or> d AND sleep_pending \<noteq> 0 \<longrightarrow>
     op \<in> {Pm_ShutdownResponse t, Pm_SleepResponse t, Pm_Unregister t})"

definition power_down_allowed :: "power_env \<Rightarrow> pm_op \<Rightarrow> power \<Rightarrow> power_call \<Rightarrow> bool" where
  "power_down_allowed e op p c \<longleftrightarrow> answered op p \<and>
     (if c = Call_SystemState_Sleep then pe_can_enter_dormant e
      else pe_can_power_off e \<and>
        (pe_temperature_extreme e \<or> pe_battery_unsafe e \<or> user_initiated_shutdown p \<or> op = Pm_OffRequest))"

definition justified :: "power_env \<Rightarrow> pm_op \<Rightarrow> power \<Rightarrow> power \<Rightarrow> bool" where
  "justified e op p q \<longleftrightarrow> (\<exists>cs. system_calls (pw_out q) = system_calls (pw_out p) @ cs \<and> length cs \<le> 1 \<and>
     (\<forall>c\<in>set cs. power_down_allowed e op p c))"

lemma justified_same: "system_calls (pw_out q) = system_calls (pw_out p) \<Longrightarrow> justified e op p q"
  unfolding justified_def by (rule exI [of _ "[]"]) simp

lemma justified_one:
  "system_calls (pw_out q) = system_calls (pw_out p) @ (if b then [c] else []) \<Longrightarrow> (b \<Longrightarrow> power_down_allowed e op p c) \<Longrightarrow> justified e op p q"
  unfolding justified_def by (intro exI [of _ "if b then [c] else []"]) simp

lemma power_down_if: "power_down_call e p =
  (if appPowerNeedsToPowerOff e p then [if user_initiated_shutdown p then Call_SystemState_Shutdown else Call_SystemState_EmergencyShutdown] else [])"
  by (rule power_down_call_def)

lemma nobody_owes:
  assumes "pm_inv p" "pw_state p \<noteq> POWER_STATE_TERMINATING_CLIENTS_NOTIFIED" "pw_state p \<noteq> POWER_STATE_SOPORIFIC_CLIENTS_NOTIFIED"
  shows "answered op p"
  using assms by (auto simp: pm_inv_def answered_def pending_flag_def)

lemma last_shutdown_answered:
  assumes "pm_inv p" "last_response POWER_STATE_TERMINATING_CLIENTS_NOTIFIED shut_pending t p"
  shows "answered (Pm_ShutdownResponse t) p" "answered (Pm_Unregister t) p"
  using assms by (auto simp: pm_inv_def answered_def pending_flag_def last_response_def)

lemma last_sleep_answered:
  assumes "pm_inv p" "last_response POWER_STATE_SOPORIFIC_CLIENTS_NOTIFIED sleep_pending t p"
  shows "answered (Pm_SleepResponse t) p" "answered (Pm_Unregister t) p"
  using assms by (auto simp: pm_inv_def answered_def pending_flag_def last_response_def)

lemma start_terminating_justified:
  assumes "pm_inv p" "pw_state p = POWER_STATE_OK" "appPowerSetState e POWER_STATE_TERMINATING_CLIENTS_NOTIFIED p = Some q"
    and "appPowerCanPowerOff e \<Longrightarrow> pe_temperature_extreme e \<or> pe_battery_unsafe e \<or> user_initiated_shutdown p' \<or> op = Pm_OffRequest"
    and "pw_clients p' = pw_clients p" "pw_out p' = pw_out p"
  shows "justified e op p' q"
proof -
  have "answered op p'" using nobody_owes [OF assms(1), of op] assms(2,5) by (simp add: answered_def)
  then show ?thesis
    using start_terminating [OF assms(1,2), of e] assms(3-)
    by (auto simp: power_down_call_def appPowerNeedsToPowerOff_def appPowerCanPowerOff_def power_down_allowed_def justified_def
        split: if_splits)
qed

lemma start_soporific_justified:
  assumes "pm_inv p" "pw_state p = POWER_STATE_OK" "appPowerSetState e POWER_STATE_SOPORIFIC_CLIENTS_NOTIFIED p = Some q"
    and "pw_out p' = pw_out p" "answered op p'"
  shows "justified e op p' q"
  using start_soporific [OF assms(1,2), of e] assms(3-)
  by (intro justified_one [of _ _ "pw_clients p = [] \<and> appPowerCanSleep e p" Call_SystemState_Sleep])
    (auto simp: power_down_allowed_def appPowerCanSleep_def)

lemma event_justified:
  assumes "pm_inv p" "appPowerHandlePowerEvent e p = Some q" "pw_out p' = pw_out p" "pw_clients p' = pw_clients p"
    "user_initiated_shutdown p' = user_initiated_shutdown p"
  shows "justified e op p' q"
proof -
  have a: "answered op p'" if "pw_state p = POWER_STATE_INIT \<or> pw_state p = POWER_STATE_OK"
    using nobody_owes [OF assms(1), of op] that assms(4) by (auto simp: answered_def)
  consider (init) "pw_state p = POWER_STATE_INIT" | (ok) "pw_state p = POWER_STATE_OK" | (other) "q = p"
    using assms(2) by (cases "pw_state p") (auto simp: appPowerHandlePowerEvent_def)
  then show ?thesis
  proof cases
    case init
    then have "system_calls (pw_out q) = system_calls (pw_out p') @ (if appPowerNeedsToPowerOff e p then [Call_SystemState_Shutdown] else [])"
      using assms(2,3) by (auto simp: appPowerHandlePowerEvent_def set_ok)
    then show ?thesis
      using a init assms(5)
      by (intro justified_one [of _ _ "appPowerNeedsToPowerOff e p" Call_SystemState_Shutdown])
        (auto simp: power_down_allowed_def appPowerNeedsToPowerOff_def appPowerCanPowerOff_def)
  next
    case ok
    show ?thesis
    proof (cases "appPowerNeedsToPowerOff e p")
      case True
      with ok assms(2) have "appPowerSetState e POWER_STATE_TERMINATING_CLIENTS_NOTIFIED p = Some q"
        by (simp add: appPowerHandlePowerEvent_def)
      from start_terminating_justified [OF assms(1) ok this _ assms(4,3)] True assms(5) show ?thesis
        by (auto simp: appPowerNeedsToPowerOff_def)
    next
      case False
      with ok assms(2) have "q = p \<or> appPowerSetState e POWER_STATE_SOPORIFIC_CLIENTS_NOTIFIED p = Some q"
        by (auto simp: appPowerHandlePowerEvent_def split: if_splits)
      with start_soporific_justified [OF assms(1) ok _ assms(3) a] ok assms(3) show ?thesis by (auto intro: justified_same)
    qed
  qed (use assms in \<open>auto intro: justified_same\<close>)
qed

lemma allow_stays:
  assumes "pw_state p \<noteq> POWER_STATE_OK"
  shows "appPowerClientAllowSleep e t p = Some (p\<lparr>pw_clients := snd (appPowerSetFlagInClient t allow (pw_clients p))\<rparr>)"
  using assms by (simp add: appPowerClientAllowSleep_def)

lemma allow_from_ok:
  assumes "pm_inv p" "appPowerClientAllowSleep e t p = Some q" "pw_state p = POWER_STATE_OK"
  shows "system_calls (pw_out q) = system_calls (pw_out p) @
      (if pw_clients p = [] \<and> appPowerCanSleep e p then [Call_SystemState_Sleep] else [])"
    "pw_state q \<noteq> POWER_STATE_TERMINATING_CLIENTS_NOTIFIED" "map fst (pw_clients q) = map fst (pw_clients p)"
proof -
  let ?p = "p\<lparr>pw_clients := snd (appPowerSetFlagInClient t allow (pw_clients p))\<rparr>"
  have *: "appPowerCanSleep e ?p = appPowerCanSleep e p" "pw_clients ?p = [] \<longleftrightarrow> pw_clients p = []"
    by (simp_all add: appPowerCanSleep_def appPowerSetFlagInClient_def)
  have "system_calls (pw_out q) = system_calls (pw_out p) @
      (if pw_clients p = [] \<and> appPowerCanSleep e p then [Call_SystemState_Sleep] else []) \<and>
    pw_state q \<noteq> POWER_STATE_TERMINATING_CLIENTS_NOTIFIED \<and> map fst (pw_clients q) = map fst (pw_clients p)"
  proof (cases "appPowerAllClientsHaveFlagSet allow (pw_clients ?p) \<and> appPowerCanSleep e ?p")
    case True
    then have "appPowerSetState e POWER_STATE_SOPORIFIC_CLIENTS_NOTIFIED ?p = Some q"
      using assms(2,3) by (simp add: appPowerClientAllowSleep_def)
    then show ?thesis using set_soporific [of e ?p] * by auto
  next
    case False
    then have "q = ?p" using assms(2,3) by (auto simp: appPowerClientAllowSleep_def Let_def split: if_splits)
    moreover have "pw_clients p = [] \<Longrightarrow> \<not> appPowerCanSleep e p"
      using False * by (simp add: appPowerAllClientsHaveFlagSet_def)
    ultimately show ?thesis using assms(3) by auto
  qed
  then show "system_calls (pw_out q) = system_calls (pw_out p) @
      (if pw_clients p = [] \<and> appPowerCanSleep e p then [Call_SystemState_Sleep] else [])"
    "pw_state q \<noteq> POWER_STATE_TERMINATING_CLIENTS_NOTIFIED" "map fst (pw_clients q) = map fst (pw_clients p)"
    by blast+
qed

lemma shutdown_response_state:
  "pw_state p \<noteq> POWER_STATE_TERMINATING_CLIENTS_NOTIFIED \<Longrightarrow> appPowerShutdownPrepareResponse_op e t p = Some p"
  "pw_state p = POWER_STATE_TERMINATING_CLIENTS_NOTIFIED \<Longrightarrow> appPowerShutdownPrepareResponse_op e t p = Some q \<Longrightarrow>
     pw_state q \<in> {POWER_STATE_TERMINATING_CLIENTS_NOTIFIED, POWER_STATE_OK}"
proof -
  let ?q = "p\<lparr>pw_clients := snd (appPowerClearFlagInClient t shut_pending (pw_clients p))\<rparr>"
  show "pw_state p \<noteq> POWER_STATE_TERMINATING_CLIENTS_NOTIFIED \<Longrightarrow> appPowerShutdownPrepareResponse_op e t p = Some p"
    by (simp add: appPowerShutdownPrepareResponse_op_def power_response_def)
  show "pw_state q \<in> {POWER_STATE_TERMINATING_CLIENTS_NOTIFIED, POWER_STATE_OK}"
    if "pw_state p = POWER_STATE_TERMINATING_CLIENTS_NOTIFIED" "appPowerShutdownPrepareResponse_op e t p = Some q"
    using that(2) set_responded [of e ?q] response_cases [OF that(1), of shut_pending POWER_STATE_TERMINATING_CLIENTS_RESPONDED e t]
    by (auto simp: appPowerShutdownPrepareResponse_op_def that(1) split: if_splits)
qed

lemma sleep_response_state:
  "pw_state p \<noteq> POWER_STATE_SOPORIFIC_CLIENTS_NOTIFIED \<Longrightarrow> appPowerSleepPrepareResponse e t p = Some p"
  by (simp add: appPowerSleepPrepareResponse_def power_response_def)

lemma unregister_from_ok:
  assumes "pm_inv p" and ok: "pw_state p = POWER_STATE_OK" and p1: "appPowerClientAllowSleep e t p = Some p1"
    and p2: "appPowerShutdownPrepareResponse_op e t p1 = Some p2" and p3: "appPowerSleepPrepareResponse e t p2 = Some p3"
  shows "justified e (Pm_Unregister t) p p3"
proof -
  have i1: "pm_inv p1" using allow_ok [OF assms(1), of e t] p1 by auto
  note a = allow_from_ok [OF assms(1) p1 ok]
  have "p2 = p1" using p2 shutdown_response_state(1) [OF a(2)] by simp
  have owes: "answered (Pm_Unregister t) p" using nobody_owes [OF assms(1)] ok by simp
  show ?thesis
  proof (cases "pw_clients p = []")
    case True
    then have "pw_clients p1 = []" using a(3) by simp
    then have "p3 = p1" using sleep_response [OF i1, of e t] p3 a(3) i1 \<open>p2 = p1\<close> sleep_response_state [of p1 e t]
      by (auto simp: pm_inv_def)
    with a(1) owes show ?thesis
      by (intro justified_one [of _ _ "pw_clients p = [] \<and> appPowerCanSleep e p" Call_SystemState_Sleep])
        (auto simp: power_down_allowed_def appPowerCanSleep_def)
  next
    case False
    let ?b = "last_response POWER_STATE_SOPORIFIC_CLIENTS_NOTIFIED sleep_pending t p1 \<and> appPowerCanSleep e p1"
    have "system_calls (pw_out p3) = system_calls (pw_out p) @ (if ?b then [Call_SystemState_Sleep] else [])"
      using sleep_response [OF i1, of e t] p3 a(1) False \<open>p2 = p1\<close> by auto
    then show ?thesis
      using owes by (intro justified_one [of _ _ ?b Call_SystemState_Sleep]) (auto simp: power_down_allowed_def appPowerCanSleep_def)
  qed
qed

lemma unregister_justified:
  assumes "pm_inv p" "appPowerClientUnregister e t p = Some q"
  shows "justified e (Pm_Unregister t) p q"
proof -
  obtain p1 p2 p3 where p1: "appPowerClientAllowSleep e t p = Some p1" and p2: "appPowerShutdownPrepareResponse_op e t p1 = Some p2"
    and p3: "appPowerSleepPrepareResponse e t p2 = Some p3" and q: "system_calls (pw_out q) = system_calls (pw_out p3)"
    using assms(2) by (auto simp: appPowerClientUnregister_def bind_eq_Some_conv split: if_splits)
  have i1: "pm_inv p1" using allow_ok [OF assms(1), of e t] p1 by auto
  have same: "justified e (Pm_Unregister t) p p3 \<Longrightarrow> ?thesis" by (simp add: justified_def q)
  let ?p = "p\<lparr>pw_clients := snd (appPowerSetFlagInClient t allow (pw_clients p))\<rparr>"
  have last: "last_response st f t ?p = last_response st f t p" if "allow AND f = 0" for st f
    using that fst_change(2) [of t "\<lambda>d. d OR allow" "pw_clients p"]
    by (simp add: last_response_def appPowerSetFlagInClient_def) (auto simp: change_client_def)
  consider (ok) "pw_state p = POWER_STATE_OK" | (shut) "pw_state p = POWER_STATE_TERMINATING_CLIENTS_NOTIFIED"
    | (nap) "pw_state p = POWER_STATE_SOPORIFIC_CLIENTS_NOTIFIED"
    | (other) "pw_state p \<notin> {POWER_STATE_OK, POWER_STATE_TERMINATING_CLIENTS_NOTIFIED, POWER_STATE_SOPORIFIC_CLIENTS_NOTIFIED}"
    by blast
  then show ?thesis
  proof cases
    case ok
    from unregister_from_ok [OF assms(1) this p1 p2 p3] show ?thesis by (rule same)
  next
    case shut
    have e1: "p1 = ?p" using p1 allow_stays [of p e t] shut by simp
    have "pw_state p2 \<noteq> POWER_STATE_SOPORIFIC_CLIENTS_NOTIFIED" using shutdown_response_state(2) [OF _ p2] shut e1 by auto
    then have "p3 = p2" using p3 sleep_response_state by simp
    let ?b = "last_response POWER_STATE_TERMINATING_CLIENTS_NOTIFIED shut_pending t p \<and> appPowerNeedsToPowerOff e p"
    let ?c = "if user_initiated_shutdown p then Call_SystemState_Shutdown else Call_SystemState_EmergencyShutdown"
    have "system_calls (pw_out p3) = system_calls (pw_out p) @ (if ?b then [?c] else [])"
      using shutdown_response [OF i1, of e t] p2 \<open>p3 = p2\<close> last [of shut_pending]
      by (auto simp: e1 flags_disjoint power_down_call_def appPowerNeedsToPowerOff_def)
    then show ?thesis
      using last_shutdown_answered(2) [OF assms(1)]
      by (intro same justified_one [of _ _ ?b ?c]) (auto simp: power_down_allowed_def appPowerNeedsToPowerOff_def appPowerCanPowerOff_def)
  next
    case nap
    have e1: "p1 = ?p" using p1 allow_stays [of p e t] nap by simp
    then have "p2 = p1" using p2 shutdown_response_state(1) [of p1] nap by simp
    let ?b = "last_response POWER_STATE_SOPORIFIC_CLIENTS_NOTIFIED sleep_pending t p \<and> appPowerCanSleep e p"
    have "system_calls (pw_out p3) = system_calls (pw_out p) @ (if ?b then [Call_SystemState_Sleep] else [])"
      using sleep_response [OF i1, of e t] p3 \<open>p2 = p1\<close> last [of sleep_pending]
      by (auto simp: e1 flags_disjoint appPowerCanSleep_def)
    then show ?thesis
      using last_sleep_answered(2) [OF assms(1)]
      by (intro same justified_one [of _ _ ?b Call_SystemState_Sleep]) (auto simp: power_down_allowed_def appPowerCanSleep_def)
  next
    case other
    have e1: "p1 = ?p" using p1 allow_stays [of p e t] other by simp
    then have "p2 = p1" "p3 = p2" using p2 p3 shutdown_response_state(1) [of p1] sleep_response_state [of p2] other by auto
    with e1 show ?thesis by (intro same justified_same) simp
  qed
qed

lemma pm_do_justified:
  assumes "pm_inv p" "pm_do (e, op) p = Some q"
  shows "justified e op p q"
proof (cases op)
  case Pm_InitComplete
  with assms show ?thesis
    using event_justified [of "p\<lparr>init_complete := True\<rparr>" e q p op] by (simp add: appPowerInitComplete_def)
next
  case (Pm_Message m)
  with assms show ?thesis
    using event_justified [of p e q p op]
    by (cases m) (auto simp: appPowerHandleMessage_def appPowerPerformanceProfileRelinquish_def Let_def intro: justified_same)
next
  case Pm_OffRequest
  let ?p = "p\<lparr>user_initiated_shutdown := True\<rparr>"
  consider "q = p" | "pw_state p = POWER_STATE_OK" "appPowerSetState e POWER_STATE_TERMINATING_CLIENTS_NOTIFIED ?p = Some q"
    using assms(2) by (cases "pw_state p") (auto simp: Pm_OffRequest appPowerOffRequest_op_def split: if_splits)
  then show ?thesis
  proof cases
    case 2
    then show ?thesis using start_terminating_justified [of ?p e q p op] assms(1) Pm_OffRequest by simp
  qed (simp add: justified_same)
next
  case (Pm_Register t)
  with assms(2) show ?thesis
    by (intro justified_same) (auto simp: appPowerClientRegister_def Let_def split: if_splits power_state.splits)
next
  case (Pm_Unregister t)
  with assms show ?thesis using unregister_justified by simp
next
  case (Pm_AllowSleep t)
  with assms(2) have q: "appPowerClientAllowSleep e t p = Some q" by simp
  show ?thesis
  proof (cases "pw_state p = POWER_STATE_OK")
    case True
    from allow_from_ok(1) [OF assms(1) q True] nobody_owes [OF assms(1), of op] True show ?thesis
      by (intro justified_one [of _ _ "pw_clients p = [] \<and> appPowerCanSleep e p" Call_SystemState_Sleep])
        (auto simp: power_down_allowed_def appPowerCanSleep_def)
  next
    case False
    with q allow_stays [of p e t] show ?thesis by (auto intro: justified_same)
  qed
next
  case (Pm_ShutdownResponse t)
  let ?b = "last_response POWER_STATE_TERMINATING_CLIENTS_NOTIFIED shut_pending t p \<and> appPowerNeedsToPowerOff e p"
  let ?c = "if user_initiated_shutdown p then Call_SystemState_Shutdown else Call_SystemState_EmergencyShutdown"
  have "system_calls (pw_out q) = system_calls (pw_out p) @ (if ?b then [?c] else [])"
    using shutdown_response [OF assms(1), of e t] assms(2) Pm_ShutdownResponse by (auto simp: power_down_call_def)
  then show ?thesis
    using last_shutdown_answered(1) [OF assms(1), of t] Pm_ShutdownResponse
    by (intro justified_one [of _ _ ?b ?c]) (auto simp: power_down_allowed_def appPowerNeedsToPowerOff_def appPowerCanPowerOff_def)
next
  case (Pm_SleepResponse t)
  let ?b = "last_response POWER_STATE_SOPORIFIC_CLIENTS_NOTIFIED sleep_pending t p \<and> appPowerCanSleep e p"
  have "system_calls (pw_out q) = system_calls (pw_out p) @ (if ?b then [Call_SystemState_Sleep] else [])"
    using sleep_response [OF assms(1), of e t] assms(2) Pm_SleepResponse by auto
  then show ?thesis
    using last_sleep_answered(1) [OF assms(1), of t] Pm_SleepResponse
    by (intro justified_one [of _ _ ?b Call_SystemState_Sleep]) (auto simp: power_down_allowed_def appPowerCanSleep_def)
next
  case (Pm_PerformanceDuration due d)
  with assms(2) show ?thesis
    by (intro justified_same) (auto simp: appPowerPerformanceProfileRequestDuration_def appPowerPerformanceProfileRequest_def Let_def
        bind_eq_Some_conv split: if_splits option.splits)
qed (use assms(2) in \<open>auto simp: appPowerOn_def appPowerClientProhibitSleep_def appPowerPerformanceProfileRequest_def
    appPowerPerformanceProfileRelinquish_def Let_def split: if_splits intro!: justified_same\<close>)

text \<open>C7: Nothing is powered down behind a client's back. Whatever was called before and whatever the charger, battery and temperature
  answered, an operation tells the system state machine at most once to shut down or to sleep, and only when every client that
  still owed an answer is the one answering (or leaving) now, when the charger allows it, and, for a shutdown, when the user, the
  battery or the temperature asks for it.\<close>

theorem power_down_only_when_answered:
  assumes "run pm_do ops appPowerInit = Some p" and "pm_do (e, op) p = Some q"
  shows "\<exists>cs. system_calls (pw_out q) = system_calls (pw_out p) @ cs \<and> length cs \<le> 1 \<and> (\<forall>c\<in>set cs. power_down_allowed e op p c)"
  using pm_do_justified [OF pm.run_keeps [OF pm_inv_init assms(1)] assms(2)] by (simp add: justified_def)

section \<open>The handshake completes\<close>

text \<open>The clients that still owe an answer to a shutdown.\<close>

definition owing :: "power \<Rightarrow> task set" where
  "owing p = {t. \<exists>d. (t, d) \<in> set (pw_clients p) \<and> d AND shut_pending \<noteq> 0}"

lemma owing_none: "pm_inv p \<Longrightarrow> owing p = {} \<longleftrightarrow> pw_state p \<noteq> POWER_STATE_TERMINATING_CLIENTS_NOTIFIED"
  by (auto simp: pm_inv_def owing_def pending_flag_def)

lemma response_owing:
  assumes "pm_inv p" "pw_state p = POWER_STATE_TERMINATING_CLIENTS_NOTIFIED" "appPowerShutdownPrepareResponse_op e t p = Some q"
  shows "owing q = owing p - {t}"
proof -
  let ?p = "p\<lparr>pw_clients := snd (appPowerClearFlagInClient t shut_pending (pw_clients p))\<rparr>"
  have "pw_clients q = pw_clients ?p"
    using assms(3) set_responded [of e ?p] response_cases [OF assms(2), of shut_pending POWER_STATE_TERMINATING_CLIENTS_RESPONDED e t]
    by (auto simp: appPowerShutdownPrepareResponse_op_def split: if_splits)
  then show ?thesis
    by (auto simp: owing_def appPowerClearFlagInClient_def change_client_def flag_clear_self split: if_splits)
qed

lemma last_owing:
  assumes "pm_inv p" "pw_state p = POWER_STATE_TERMINATING_CLIENTS_NOTIFIED"
  shows "last_response POWER_STATE_TERMINATING_CLIENTS_NOTIFIED shut_pending t p \<longleftrightarrow> owing p - {t} = {}"
proof
  assume "owing p - {t} = {}"
  moreover have "owing p \<noteq> {}" using owing_none [OF assms(1)] assms(2) by simp
  ultimately have "owing p = {t}" by blast
  then have "t \<in> owing p" "owing p \<subseteq> {t}" by simp_all
  then have "t \<in> fst ` set (pw_clients p)" "\<forall>x d. (x, d) \<in> set (pw_clients p) \<longrightarrow> d AND shut_pending \<noteq> 0 \<longrightarrow> x = t"
    unfolding owing_def by force+
  with assms(2) show "last_response POWER_STATE_TERMINATING_CLIENTS_NOTIFIED shut_pending t p"
    by (auto simp: last_response_def)
qed (auto simp: last_response_def owing_def)

lemma late_responses:
  assumes "pw_state p = POWER_STATE_OK"
  shows "run pm_do (map (\<lambda>(e, t). (e, Pm_ShutdownResponse t)) rs) p = Some p"
  using assms by (induction rs) (auto simp: shutdown_response_state(1))

lemma response_keeps_user:
  assumes "pw_state p = POWER_STATE_TERMINATING_CLIENTS_NOTIFIED" "appPowerShutdownPrepareResponse_op e t p = Some q"
    "pw_state q = POWER_STATE_TERMINATING_CLIENTS_NOTIFIED"
  shows "user_initiated_shutdown q = user_initiated_shutdown p"
proof -
  let ?p = "p\<lparr>pw_clients := snd (appPowerClearFlagInClient t shut_pending (pw_clients p))\<rparr>"
  show ?thesis
    using assms set_responded [of e ?p] response_cases [OF assms(1), of shut_pending POWER_STATE_TERMINATING_CLIENTS_RESPONDED e t]
    by (auto simp: appPowerShutdownPrepareResponse_op_def split: if_splits)
qed

lemma responses_complete:
  assumes "pm_inv p" "pw_state p = POWER_STATE_TERMINATING_CLIENTS_NOTIFIED" "user_initiated_shutdown p"
    and "\<forall>(e, t)\<in>set rs. pe_can_power_off e" "owing p \<subseteq> snd ` set rs"
  shows "\<exists>q. run pm_do (map (\<lambda>(e, t). (e, Pm_ShutdownResponse t)) rs) p = Some q \<and> pw_state q = POWER_STATE_OK \<and>
    system_calls (pw_out q) = system_calls (pw_out p) @ [Call_SystemState_Shutdown]"
  using assms
proof (induction rs arbitrary: p)
  case Nil
  then show ?case using owing_none [of p] by simp
next
  case (Cons r rs)
  obtain e t where r: "r = (e, t)" by (cases r)
  obtain q where q: "appPowerShutdownPrepareResponse_op e t p = Some q" "pm_inv q"
    "system_calls (pw_out q) = system_calls (pw_out p) @
      (if last_response POWER_STATE_TERMINATING_CLIENTS_NOTIFIED shut_pending t p then power_down_call e p else [])"
    using shutdown_response [OF Cons.prems(1), of e t] by blast
  have down: "power_down_call e p = [Call_SystemState_Shutdown]"
    using Cons.prems(3,4) by (simp add: r power_down_call_def appPowerNeedsToPowerOff_def appPowerCanPowerOff_def)
  have ow: "owing q = owing p - {t}" by (rule response_owing [OF Cons.prems(1,2) q(1)])
  have last: "last_response POWER_STATE_TERMINATING_CLIENTS_NOTIFIED shut_pending t p \<longleftrightarrow> owing q = {}"
    unfolding ow by (rule last_owing [OF Cons.prems(1,2)])
  show ?case
  proof (cases "owing q = {}")
    case True
    then have "pw_state q = POWER_STATE_OK"
      using shutdown_response_state(2) [OF Cons.prems(2) q(1)] owing_none [OF q(2)] by auto
    with late_responses [of q rs] q(1,3) last True down show ?thesis by (simp add: r)
  next
    case False
    then have st: "pw_state q = POWER_STATE_TERMINATING_CLIENTS_NOTIFIED" using owing_none [OF q(2)] by simp
    have "user_initiated_shutdown q" using response_keeps_user [OF Cons.prems(2) q(1) st] Cons.prems(3) by simp
    moreover have "owing q \<subseteq> snd ` set rs" "\<forall>(e, t)\<in>set rs. pe_can_power_off e" using Cons.prems(4,5) ow by (auto simp: r)
    ultimately show ?thesis using Cons.IH [OF q(2) st] q(1,3) last False by (auto simp: r)
  qed
qed

text \<open>C8: A power-off request completes: when the charger keeps allowing it, the request is accepted, every client is asked
  to prepare, and once all of them have answered, in any order, repeatedly or with strangers in between, the system has been told
  exactly once to shut down and the power manager is back in its normal state.\<close>

theorem power_off_handshake_completes:
  assumes "run pm_do ops appPowerInit = Some p" and "pw_state p = POWER_STATE_OK" and "pe_can_power_off e"
    and "\<forall>(e', t)\<in>set rs. pe_can_power_off e'" and "fst ` set (pw_clients p) \<subseteq> snd ` set rs"
  shows "\<exists>p1 q. appPowerOffRequest_op e p = Some (True, p1) \<and>
    (\<forall>t\<in>fst ` set (pw_clients p). To_Client t IND_SHUTDOWN_PREPARE \<in> set (pw_out p1)) \<and>
    run pm_do (map (\<lambda>(e', t). (e', Pm_ShutdownResponse t)) rs) p1 = Some q \<and> pw_state q = POWER_STATE_OK \<and>
    system_calls (pw_out q) = system_calls (pw_out p) @ [Call_SystemState_Shutdown]"
proof -
  let ?p = "p\<lparr>user_initiated_shutdown := True\<rparr>"
  have inv: "pm_inv ?p" using pm.run_keeps [OF pm_inv_init assms(1)] by simp
  obtain p1 where p1: "appPowerSetState e POWER_STATE_TERMINATING_CLIENTS_NOTIFIED ?p = Some p1"
    "pw_state p1 = (if pw_clients p = [] then POWER_STATE_OK else POWER_STATE_TERMINATING_CLIENTS_NOTIFIED)"
    "pw_clients p1 = appPowerSetFlagInAllClients shut_pending (pw_clients p)"
    "pw_clients p \<noteq> [] \<Longrightarrow> user_initiated_shutdown p1"
    "system_calls (pw_out p1) = system_calls (pw_out p) @ (if pw_clients p = [] then power_down_call e ?p else [])"
    using set_terminating [of e ?p] by auto
  have off: "appPowerOffRequest_op e p = Some (True, p1)"
    using assms(2,3) p1(1) by (simp add: appPowerOffRequest_op_def appPowerCanPowerOff_def)
  have inv1: "pm_inv p1" using start_terminating [OF inv, of e] assms(2) p1(1) by auto
  have told: "\<forall>t\<in>fst ` set (pw_clients p). To_Client t IND_SHUTDOWN_PREPARE \<in> set (pw_out p1)"
    using p1(1) by (cases "pw_clients p = []") (force simp: appPowerSetState.simps Let_def)+
  show ?thesis
  proof (cases "pw_clients p = []")
    case True
    with off told p1 late_responses [of p1 rs] assms(3) show ?thesis
      by (auto simp: power_down_call_def appPowerNeedsToPowerOff_def appPowerCanPowerOff_def)
  next
    case False
    have "owing p1 \<subseteq> snd ` set rs" using assms(5) by (force simp: owing_def p1(3) appPowerSetFlagInAllClients_def)
    with responses_complete [OF inv1 _ _ assms(4)] off told p1 False show ?thesis by auto
  qed
qed

text \<open>C36: A client that prohibits sleep after the clients were told to prepare for it is not heard: when its answer is the last one
  awaited and the charger permits, the system is put to sleep with that client's permission withdrawn.\<close>

theorem prohibit_sleep_ignored:
  assumes "run pm_do ops appPowerInit = Some p" and "last_response POWER_STATE_SOPORIFIC_CLIENTS_NOTIFIED sleep_pending t p"
    and "appPowerCanSleep e p"
  shows "\<exists>q. run pm_do [(e', Pm_ProhibitSleep t), (e, Pm_SleepResponse t)] p = Some q \<and>
    system_calls (pw_out q) = system_calls (pw_out p) @ [Call_SystemState_Sleep] \<and>
    \<not> appPowerAllClientsHaveFlagSet allow (pw_clients (appPowerClientProhibitSleep t p))"
proof -
  let ?p = "appPowerClientProhibitSleep t p"
  have inv: "pm_inv ?p" using pm.run_keeps [OF pm_inv_init assms(1)] by (simp add: appPowerClientProhibitSleep_def pm_inv_allow)
  have fl: "(d AND NOT allow) AND sleep_pending = d AND sleep_pending" for d by (simp add: flag_other flags_disjoint)
  have "last_response POWER_STATE_SOPORIFIC_CLIENTS_NOTIFIED sleep_pending t ?p"
    using assms(2) fst_change(2) [of t "\<lambda>d. d AND NOT allow" "pw_clients p"]
    by (simp add: last_response_def appPowerClientProhibitSleep_def appPowerClearFlagInClient_def) (auto simp: change_client_def)
  moreover have "appPowerCanSleep e ?p" using assms(3) by (simp add: appPowerCanSleep_def appPowerClientProhibitSleep_def)
  moreover have "\<not> appPowerAllClientsHaveFlagSet allow (pw_clients ?p)"
    using assms(2) by (force simp: last_response_def appPowerClientProhibitSleep_def appPowerClearFlagInClient_def
        appPowerAllClientsHaveFlagSet_def change_client_def list_all_iff flag_clear_self)
  moreover have "pw_out ?p = pw_out p" by (simp add: appPowerClientProhibitSleep_def)
  ultimately show ?thesis using sleep_response [OF inv, of e t] by auto
qed

text \<open>Concrete runs: a client registers, the user powers off and the client answers; and a client that allows sleep.\<close>

definition free_power_env :: power_env where
  "free_power_env = \<lparr>pe_can_power_off = True, pe_can_enter_dormant = True, pe_battery_unsafe = False, pe_temperature_extreme = False,
     pe_heap = True\<rparr>"

lemmas power_eval = pm_do.simps run.simps appPowerInit_def appPowerInitComplete_def appPowerHandlePowerEvent_def appPowerSetState.simps
  appPowerClientRegister_def appPowerOffRequest_op_def appPowerClientAllowSleep_def appPowerShutdownPrepareResponse_op_def
  appPowerSleepPrepareResponse_def power_response_def appPowerSetFlagInClient_def appPowerClearFlagInClient_def change_client_def
  appPowerSetFlagInAllClients_def appPowerAllClientsHaveFlagSet_def appPowerAllClientsHaveFlagCleared_def appPowerCanSleep_def
  appPowerNeedsToPowerOff_def appPowerCanPowerOff_def power_exit_def to_clients_def pw_emit_def flag_defs free_power_env_def room_for_def
  TASK_LIST_MAX_TASKS_def Let_def

abbreviation "power_demo ops \<equiv> run pm_do (map (Pair free_power_env) (Pm_InitComplete # Pm_Register 1 # ops)) appPowerInit"

theorem power_down_only_when_answered_witness:
  "\<exists>p q cs. power_demo [Pm_OffRequest] = Some p \<and> pm_do (free_power_env, Pm_ShutdownResponse 1) p = Some q \<and>
     system_calls (pw_out q) = system_calls (pw_out p) @ cs \<and> length cs \<le> 1 \<and>
     (\<forall>c\<in>set cs. power_down_allowed free_power_env (Pm_ShutdownResponse 1) p c)"
proof -
  let ?op = "Pm_ShutdownResponse 1"
  have "Option.bind (power_demo [Pm_OffRequest]) (pm_do (free_power_env, ?op)) \<noteq> None"
    by (simp add: power_eval)
  then obtain p q where "power_demo [Pm_OffRequest] = Some p" "pm_do (free_power_env, ?op) p = Some q"
    by (auto simp: bind_eq_Some_conv simp del: pm_do.simps)
  with power_down_only_when_answered show ?thesis by blast
qed

theorem power_off_handshake_completes_witness:
  "\<exists>p p1 q. power_demo [] = Some p \<and> appPowerOffRequest_op free_power_env p = Some (True, p1) \<and>
     run pm_do [(free_power_env, Pm_ShutdownResponse 1)] p1 = Some q \<and>
     system_calls (pw_out q) = system_calls (pw_out p) @ [Call_SystemState_Shutdown]"
proof -
  have "map_option (\<lambda>p. (pw_state p, map fst (pw_clients p))) (power_demo []) = Some (POWER_STATE_OK, [1])"
    by (simp add: power_eval)
  then obtain p where p: "power_demo [] = Some p" "pw_state p = POWER_STATE_OK" "fst ` set (pw_clients p) = {1}"
    by (auto simp flip: set_map simp del: pm_do.simps)
  from power_off_handshake_completes [OF p(1,2), of free_power_env "[(free_power_env, 1)]"] p(1,3) show ?thesis
    by (auto simp: free_power_env_def simp del: pm_do.simps run.simps)
qed

theorem prohibit_sleep_ignored_witness:
  "\<exists>p q. power_demo [Pm_AllowSleep 1] = Some p \<and>
     run pm_do [(free_power_env, Pm_ProhibitSleep 1), (free_power_env, Pm_SleepResponse 1)] p = Some q \<and>
     system_calls (pw_out q) = system_calls (pw_out p) @ [Call_SystemState_Sleep]"
proof -
  have "map_option (\<lambda>p. last_response POWER_STATE_SOPORIFIC_CLIENTS_NOTIFIED sleep_pending 1 p \<and> appPowerCanSleep free_power_env p)
      (power_demo [Pm_AllowSleep 1]) = Some True"
    by (simp add: power_eval last_response_def)
  then obtain p where p: "power_demo [Pm_AllowSleep 1] = Some p"
    "last_response POWER_STATE_SOPORIFIC_CLIENTS_NOTIFIED sleep_pending 1 p" "appPowerCanSleep free_power_env p"
    by (auto simp del: pm_do.simps)
  from prohibit_sleep_ignored [OF p, of free_power_env] p(1) show ?thesis by blast
qed

section \<open>No panic after the initialisation\<close>

lemma set_state_not_init:
  assumes "appPowerSetState e new p = Some q"
  shows "pw_state q \<noteq> POWER_STATE_INIT"
proof (cases new)
  case POWER_STATE_INIT
  with assms show ?thesis by (simp add: appPowerSetState.simps)
next
  case POWER_STATE_OK
  with assms show ?thesis by (auto simp: set_ok)
qed (use assms set_terminating [of e p] set_responded [of e p] set_soporific [of e p] set_sleep_responded [of e p] in
    \<open>auto split: if_splits\<close>)

lemma relinquish_state [simp]: "pw_state (appPowerPerformanceProfileRelinquish p) = pw_state p"
  by (simp add: appPowerPerformanceProfileRelinquish_def Let_def)

definition pm_up :: "power \<Rightarrow> bool" where
  "pm_up p \<longleftrightarrow> pm_inv p \<and> pw_state p \<noteq> POWER_STATE_INIT"

lemma response_not_init: "pw_state p \<noteq> POWER_STATE_INIT \<Longrightarrow> power_response n f r e t p = Some q \<Longrightarrow> pw_state q \<noteq> POWER_STATE_INIT"
  by (auto simp: power_response_def Let_def split: if_splits prod.splits dest: set_state_not_init)

lemma allow_not_init: "pw_state p \<noteq> POWER_STATE_INIT \<Longrightarrow> appPowerClientAllowSleep e t p = Some q \<Longrightarrow> pw_state q \<noteq> POWER_STATE_INIT"
  by (auto simp: appPowerClientAllowSleep_def Let_def split: if_splits dest: set_state_not_init)

lemma event_not_init: "pw_state p \<noteq> POWER_STATE_INIT \<Longrightarrow> appPowerHandlePowerEvent e p = Some q \<Longrightarrow> pw_state q \<noteq> POWER_STATE_INIT"
  by (auto simp: appPowerHandlePowerEvent_def split: if_splits power_state.splits dest: set_state_not_init)

lemma pm_do_not_init:
  assumes "pw_state p \<noteq> POWER_STATE_INIT" "pm_do (e, op) p = Some q"
  shows "pw_state q \<noteq> POWER_STATE_INIT"
proof (cases op)
  case Pm_InitComplete
  with assms event_not_init [of "p\<lparr>init_complete := True\<rparr>" e q] show ?thesis by (simp add: appPowerInitComplete_def)
next
  case (Pm_Message m)
  with assms event_not_init [of p e q] show ?thesis
    by (cases m) (auto simp: appPowerHandleMessage_def)
next
  case Pm_OffRequest
  with assms show ?thesis
    by (auto simp: appPowerOffRequest_op_def split: if_splits power_state.splits dest: set_state_not_init)
next
  case (Pm_Register t)
  with assms show ?thesis by (auto simp: appPowerClientRegister_def Let_def split: if_splits power_state.splits)
next
  case (Pm_Unregister t)
  then obtain p1 p2 p3 where "appPowerClientAllowSleep e t p = Some p1" "appPowerShutdownPrepareResponse_op e t p1 = Some p2"
      "appPowerSleepPrepareResponse e t p2 = Some p3" "pw_state q = pw_state p3"
    using assms(2) by (auto simp: appPowerClientUnregister_def bind_eq_Some_conv split: if_splits)
  with assms(1) show ?thesis
    unfolding appPowerShutdownPrepareResponse_op_def appPowerSleepPrepareResponse_def
    by (metis allow_not_init response_not_init)
next
  case (Pm_PerformanceDuration due d)
  with assms show ?thesis
    by (auto simp: appPowerPerformanceProfileRequestDuration_def appPowerPerformanceProfileRequest_def Let_def bind_eq_Some_conv
        split: if_splits option.splits)
qed (use assms in \<open>auto simp: appPowerOn_def appPowerClientProhibitSleep_def appPowerPerformanceProfileRequest_def
    appPowerShutdownPrepareResponse_op_def appPowerSleepPrepareResponse_def Let_def
    split: if_splits dest: allow_not_init response_not_init\<close>)

text \<open>The operations that stop the program, from every state after the initialisation: what the list of the clients refuses, and
  counting performance requests past 32 bits.\<close>

fun power_panics :: "power_env \<times> pm_op \<Rightarrow> power \<Rightarrow> bool" where
  "power_panics (e, Pm_Register t) p \<longleftrightarrow> \<not> room_for (pe_heap e) t (map fst (pw_clients p))"
| "power_panics (e, Pm_Unregister t) p \<longleftrightarrow> \<not> can_drop (pe_heap e) t (map fst (pw_clients p))"
| "power_panics (e, Pm_PerformanceRequest) p \<longleftrightarrow> performance_req_count p = 2 ^ 32 - 1"
| "power_panics (e, Pm_PerformanceDuration due d) p \<longleftrightarrow> due = None \<and> performance_req_count p = 2 ^ 32 - 1"
| "power_panics _ p \<longleftrightarrow> False"

lemma request_panics:
  assumes "pm_inv p"
  shows "appPowerPerformanceProfileRequest p = None \<longleftrightarrow> performance_req_count p = 2 ^ 32 - 1"
proof -
  have r: "0 \<le> performance_req_count p" "performance_req_count p < 2 ^ 32" using assms by (simp_all add: pm_inv_def)
  then have "(performance_req_count p + 1) mod 2 ^ 32 = 0 \<longleftrightarrow> performance_req_count p = 2 ^ 32 - 1"
    by (cases "performance_req_count p + 1 = 2 ^ 32") simp_all
  then show ?thesis by (simp add: appPowerPerformanceProfileRequest_def Let_def)
qed

lemma pm_do_panics:
  assumes "pm_up p"
  shows "pm_do (e, op) p = None \<longleftrightarrow> power_panics (e, op) p"
proof -
  have i: "pm_inv p" using assms by (simp add: pm_up_def)
  show ?thesis
  proof (cases op)
    case Pm_InitComplete
    with i event_ok [of "p\<lparr>init_complete := True\<rparr>" e] show ?thesis by (auto simp: appPowerInitComplete_def)
  next
    case (Pm_Message m)
    with event_ok [OF i, of e] show ?thesis by (auto simp: appPowerHandleMessage_def split: power_event.split)
  next
    case Pm_OffRequest
    with off_ok [OF i, of e] show ?thesis by auto
  next
    case (Pm_Register t)
    with assms show ?thesis by (auto simp: pm_up_def appPowerClientRegister_def Let_def split: power_state.split)
  next
    case (Pm_Unregister t)
    with unregister_ok [OF i, of e t] show ?thesis by (auto split: if_splits)
  next
    case (Pm_AllowSleep t)
    with allow_ok [OF i, of e t] show ?thesis by auto
  next
    case (Pm_ShutdownResponse t)
    with shutdown_response [OF i, of e t] show ?thesis by auto
  next
    case (Pm_SleepResponse t)
    with sleep_response [OF i, of e t] show ?thesis by auto
  next
    case Pm_PerformanceRequest
    with request_panics [OF i] show ?thesis by simp
  next
    case (Pm_PerformanceDuration due d)
    with request_panics [OF i] show ?thesis
      by (auto simp: appPowerPerformanceProfileRequestDuration_def Let_def bind_eq_None_conv split: option.split)
  qed auto
qed

text \<open>Calls that only use tasks of a set \<open>T\<close>, while there is memory, and do not count performance requests.\<close>

fun tame :: "task set \<Rightarrow> power_env \<times> pm_op \<Rightarrow> bool" where
  "tame T (e, Pm_Register t) \<longleftrightarrow> pe_heap e \<and> t \<in> T \<and> t \<noteq> 0"
| "tame T (e, Pm_Unregister t) \<longleftrightarrow> pe_heap e \<and> t \<noteq> 0"
| "tame T (e, Pm_PerformanceRequest) \<longleftrightarrow> False"
| "tame T (e, Pm_PerformanceDuration due d) \<longleftrightarrow> False"
| "tame T _ \<longleftrightarrow> True"

definition pm_within :: "task set \<Rightarrow> power \<Rightarrow> bool" where
  "pm_within T p \<longleftrightarrow> pm_up p \<and> fst ` set (pw_clients p) \<subseteq> T \<and> finite T \<and> card T \<le> TASK_LIST_MAX_TASKS"

definition tame_do :: "task set \<Rightarrow> power_env \<times> pm_op \<Rightarrow> power \<Rightarrow> power option" where
  "tame_do T x p = (if tame T x then pm_do x p else None)"

lemma response_clients: "power_response n f r e t p = Some q \<Longrightarrow> map fst (pw_clients q) = map fst (pw_clients p)"
  by (auto simp: power_response_def Let_def case_prod_beta' split: if_splits dest: set_state_clients)

lemma event_clients: "appPowerHandlePowerEvent e p = Some q \<Longrightarrow> map fst (pw_clients q) = map fst (pw_clients p)"
  by (auto simp: appPowerHandlePowerEvent_def split: if_splits power_state.splits dest!: set_state_clients)

lemma register_clients:
  "appPowerClientRegister e t p = Some q \<Longrightarrow> set (map fst (pw_clients q)) \<subseteq> insert t (set (map fst (pw_clients p)))"
  using fst_clear(2) [of t _ "pw_clients p @ [(t, 0)]"] unfolding set_map [symmetric]
  by (auto simp: appPowerClientRegister_def Let_def simp del: set_map split: if_splits power_state.splits)

lemma tame_clients:
  assumes "pm_inv p" "tame T x" "pm_do x p = Some q" "set (map fst (pw_clients p)) \<subseteq> T"
  shows "set (map fst (pw_clients q)) \<subseteq> T"
proof (cases x)
  case (Pair e op)
  have same: ?thesis if "map fst (pw_clients q) = map fst (pw_clients p)" using that assms(4) by simp
  show ?thesis
  proof (cases op)
    case Pm_InitComplete
    then show ?thesis using assms(3) Pair event_clients [of e "p\<lparr>init_complete := True\<rparr>" q] by (intro same) (simp add: appPowerInitComplete_def)
  next
    case (Pm_Message m)
    then show ?thesis using assms(3) Pair event_clients [of e p q]
      by (intro same) (auto simp: appPowerHandleMessage_def appPowerPerformanceProfileRelinquish_def Let_def split: power_event.splits)
  next
    case Pm_OffRequest
    then show ?thesis using assms(3) Pair
      by (intro same) (auto simp: appPowerOffRequest_op_def split: if_splits power_state.splits dest!: set_state_clients)
  next
    case (Pm_Register t)
    then have "set (map fst (pw_clients q)) \<subseteq> insert t (set (map fst (pw_clients p)))" "t \<in> T"
      using assms(2,3) Pair register_clients [of e t p q] by simp_all
    then show ?thesis using assms(4) by blast
  next
    case (Pm_Unregister t)
    then have "set (map fst (pw_clients q)) \<subseteq> set (map fst (pw_clients p))"
      using assms(3) Pair unregister_ok [OF assms(1), of e t] by (auto split: if_splits simp del: set_map)
    then show ?thesis using assms(4) by blast
  next
    case (Pm_AllowSleep t)
    then show ?thesis using assms(3) Pair by (intro same) (simp add: allow_clients)
  next
    case (Pm_ShutdownResponse t)
    then show ?thesis using assms(3) Pair by (intro same) (simp add: appPowerShutdownPrepareResponse_op_def response_clients)
  next
    case (Pm_SleepResponse t)
    then show ?thesis using assms(3) Pair by (intro same) (simp add: appPowerSleepPrepareResponse_def response_clients)
  qed (rule same; use assms(2,3) Pair in
      \<open>auto simp: appPowerOn_def appPowerClientProhibitSleep_def appPowerPerformanceProfileRelinquish_def Let_def\<close>)+
qed

lemma tame_safe:
  assumes "pm_within T p" "tame T x"
  shows "\<not> power_panics x p"
proof -
  have d: "distinct (map fst (pw_clients p))" "set (map fst (pw_clients p)) \<subseteq> T" "finite T" "card T \<le> TASK_LIST_MAX_TASKS"
    using assms(1) by (simp_all add: pm_within_def pm_up_def pm_inv_def)
  obtain e op where x: "x = (e, op)" by (cases x)
  show ?thesis
  proof (cases op)
    case (Pm_Register t)
    then show ?thesis using assms(2) room_within [OF d] x by simp
  qed (use assms(2) x in \<open>simp_all add: can_drop_def\<close>)
qed

interpretation pm_up: safe_machine "tame_do T" "pm_within T" "tame T" for T
proof unfold_locales
  show "pm_within T t" if "pm_within T s" "tame_do T x s = Some t" for s x t
  proof -
    have do: "pm_do x s = Some t" "tame T x" using that(2) by (auto simp: tame_do_def split: if_splits)
    have "pm_inv s" "set (map fst (pw_clients s)) \<subseteq> T" using that(1) by (simp_all add: pm_within_def pm_up_def)
    from tame_clients [OF this(1) do(2,1) this(2)] show ?thesis
      using that(1) do(1) pm_keep [of s x t] pm_do_not_init [of s "fst x" "snd x" t] by (simp add: pm_within_def pm_up_def)
  qed
  show "tame_do T x s \<noteq> None" if "pm_within T s" "tame T x" for s x
    using that pm_do_panics [of s "fst x" "snd x"] tame_safe [OF that] by (simp add: tame_do_def pm_within_def)
qed




end
