(* ===== verification/Table_Search.thy ===== *)
theory Table_Search
  imports Helmet_Prelude
begin

text \<open>
  Searching a lookup table from the previous position. The state of charge keeps the index of the last result
  and walks from there towards the new reading. The locale \<open>split_table\<close> is what makes such a walk
  right: a predicate on the positions that holds up to some position and nowhere after it.
\<close>

definition split_point :: "nat \<Rightarrow> (nat \<Rightarrow> bool) \<Rightarrow> nat" where
  "split_point n P = length (takeWhile P [0..<n])"

lemma split_point_le: "split_point n P \<le> n"
  unfolding split_point_def by (metis length_takeWhile_le length_upt minus_nat.diff_0)

lemma split_point_eq:
  assumes "k \<le> n" "\<And>i. i < k \<Longrightarrow> P i" "k < n \<Longrightarrow> \<not> P k"
  shows "split_point n P = k"
proof -
  have "[0..<n] = [0..<k] @ [k..<n]" using assms(1) by (metis le_add_diff_inverse plus_nat.add_0 upt_add_eq_append zero_le)
  moreover have "takeWhile P [k..<n] = []" using assms(1,3) by (cases "k < n") (simp_all add: upt_conv_Cons)
  moreover have "takeWhile P ([0..<k] @ [k..<n]) = [0..<k] @ takeWhile P [k..<n]"
    using assms(2) by (intro takeWhile_append2) simp
  ultimately show ?thesis by (simp add: split_point_def)
qed

locale split_table =
  fixes n :: nat and P :: "nat \<Rightarrow> bool"
  assumes down: "i \<le> j \<Longrightarrow> j < n \<Longrightarrow> P j \<Longrightarrow> P i"
begin

lemma split_here:
  assumes "k \<le> n" "0 < k \<Longrightarrow> P (k - 1)" "k < n \<Longrightarrow> \<not> P k"
  shows "split_point n P = k"
proof -
  have "P i" if "i < k" for i using down [of i "k - 1"] that assms(1,2) by simp
  then show ?thesis using split_point_eq [of k n P] assms(1,3) by blast
qed

end

lemma sorted_split:
  assumes "sorted xs"
  shows "split_table (length xs) (\<lambda>i. xs ! i \<le> (v :: 'a :: linorder))"
proof
  show "xs ! i \<le> v" if "i \<le> j" "j < length xs" "xs ! j \<le> v" for i j
    using that sorted_nth_mono [OF assms] by (meson order.trans)
qed

end
