(* ===== verification/Soc.thy ===== *)
theory Soc
  imports Table_Search Task_List
begin

text \<open>
  The state of charge of the battery (\<^verbatim>\<open>src/adk/src/domains/power/state_of_charge/state_of_charge.c\<close>) with the table of the
  helmet build (\<^verbatim>\<open>headset_soc_config.c\<close>). Reading outside the table is undefined in C and \<open>None\<close> here. Messages, the persistent
  store and the user interface are collected in \<open>soc_out\<close>; \<open>blocked\<close> says that an upgrade blocks the persistent store.
\<close>

section \<open>Tables\<close>

record soc_lookup =
  lk_voltage :: int
  lk_percentage :: int

definition lk :: "int \<times> int \<Rightarrow> soc_lookup" where
  "lk x = \<lparr>lk_voltage = fst x, lk_percentage = snd x\<rparr>"

definition appConfigBatteryVoltageCritical :: int where
  "appConfigBatteryVoltageCritical = 3000"

definition appConfigBatteryFullyCharged :: int where
  "appConfigBatteryFullyCharged = 4200"

definition soc_clamp :: "int \<Rightarrow> int" where
  "soc_clamp v = (if v < appConfigBatteryVoltageCritical then appConfigBatteryVoltageCritical
     else if v > appConfigBatteryFullyCharged then appConfigBatteryFullyCharged else v)"

definition soc_at :: "soc_lookup list \<Rightarrow> nat \<Rightarrow> soc_lookup option" where
  "soc_at tbl i = (if i < length tbl then Some (tbl ! i) else None)"

section \<open>Searching\<close>

text \<open>Forwards and backwards from the last index; \<open>prev_mv\<close> is the voltage read last.\<close>

function soc_forward :: "soc_lookup list \<Rightarrow> int \<Rightarrow> int \<Rightarrow> nat \<Rightarrow> nat" where
  "soc_forward tbl v prev_mv index =
     (if index < length tbl
      then let this_mv = prev_mv; prev_mv = lk_voltage (tbl ! index)
           in if v < prev_mv \<and> v \<ge> this_mv then index - 1 else soc_forward tbl v prev_mv (index + 1)
      else length tbl - 1)"
  by auto

termination soc_forward
  by (relation "measure (\<lambda>(tbl, v, m, i). length tbl - i)") auto

fun soc_backward :: "soc_lookup list \<Rightarrow> int \<Rightarrow> int \<Rightarrow> nat \<Rightarrow> nat" where
  "soc_backward tbl v prev_mv 0 = 0"
| "soc_backward tbl v prev_mv (Suc index) =
     (let this_mv = prev_mv; prev_mv = lk_voltage (tbl ! index)
      in if v < this_mv \<and> v \<ge> prev_mv then index else soc_backward tbl v prev_mv index)"

declare soc_forward.simps [simp del]

text \<open>\<^verbatim>\<open>config_index\<close> is a \<^verbatim>\<open>uint8\<close>.\<close>

definition soc_StateOfChargeUpdate :: "soc_lookup list \<Rightarrow> int \<Rightarrow> nat \<Rightarrow> nat option" where
  "soc_StateOfChargeUpdate tbl voltage prev_index =
     (let v = soc_clamp voltage
      in map_option (\<lambda>x. (if v \<ge> lk_voltage x then soc_forward tbl v (lk_voltage x) (prev_index + 1)
             else soc_backward tbl v (lk_voltage x) prev_index) mod 256) (soc_at tbl prev_index))"

text \<open>The search from the bottom of the table. Its counter is a \<^verbatim>\<open>uint8\<close>: the tables have fewer than 256 entries.\<close>

function soc_getIndex_loop :: "soc_lookup list \<Rightarrow> int \<Rightarrow> int \<Rightarrow> nat \<Rightarrow> nat" where
  "soc_getIndex_loop tbl v prev_mv i =
     (if i < length tbl
      then let this_mv = prev_mv; prev_mv = lk_voltage (tbl ! i)
           in if v < prev_mv \<and> v \<ge> this_mv then i - 1 else soc_getIndex_loop tbl v prev_mv (i + 1)
      else length tbl - 1)"
  by auto

termination soc_getIndex_loop
  by (relation "measure (\<lambda>(tbl, v, m, i). length tbl - i)") auto

declare soc_getIndex_loop.simps [simp del]

definition soc_getIndex :: "soc_lookup list \<Rightarrow> int \<Rightarrow> nat option" where
  "soc_getIndex tbl v = map_option (\<lambda>x. soc_getIndex_loop tbl v (lk_voltage x) 1) (soc_at tbl 0)"

definition Soc_ConvertLevelToPercentage :: "soc_lookup list \<Rightarrow> int \<Rightarrow> int option" where
  "Soc_ConvertLevelToPercentage tbl level =
     Option.bind (soc_getIndex tbl (soc_clamp level)) (\<lambda>i. map_option lk_percentage (soc_at tbl i))"

section \<open>State and clients\<close>

datatype soc_event_id = SOC_BATTERY_BECAME_LOW | SOC_BATTERY_BECAME_OK | SOC_BATTERY_BECAME_FULL

datatype soc_call =
    Send_SOC_UPDATE_IND task int
  | Send_Soc_Event task soc_event_id
  | Soc_PsStore int
  | Soc_InformContext int

record soc_data =
  state_of_charge :: int
  charger_connected :: bool
  config_index :: nat
  low_battery_percent :: int
  full_battery_percent :: int
  client_list :: "(task \<times> int) list"
  soc_context :: int
  soc_out :: "soc_call list"

definition soc_emit :: "soc_call list \<Rightarrow> soc_data \<Rightarrow> soc_data" where
  "soc_emit cs s = s\<lparr>soc_out := soc_out s @ cs\<rparr>"

definition soc_ServiceClients :: "soc_data \<Rightarrow> soc_data" where
  "soc_ServiceClients s =
     (let percent = u8 (state_of_charge s)
      in (soc_emit (map (\<lambda>(t, p). Send_SOC_UPDATE_IND t percent) (filter (\<lambda>(t, p). percent \<noteq> p) (client_list s))) s)
           \<lparr>client_list := map (\<lambda>(t, p). (t, percent)) (client_list s)\<rparr>)"

definition soc_ClientAdd :: "bool \<Rightarrow> task \<Rightarrow> soc_data \<Rightarrow> bool \<times> soc_data" where
  "soc_ClientAdd mem t s = (if mem then (True, s\<lparr>client_list := (t, 0) # client_list s\<rparr>) else (False, s))"

fun remove_first :: "task \<Rightarrow> (task \<times> int) list \<Rightarrow> (task \<times> int) list" where
  "remove_first t [] = []"
| "remove_first t ((x, p) # cs) = (if x = t then cs else (x, p) # remove_first t cs)"

definition Soc_Register_op :: "bool \<Rightarrow> task \<Rightarrow> soc_data \<Rightarrow> bool \<times> soc_data" where
  "Soc_Register_op mem t s = (case soc_ClientAdd mem t s of (ok, s1) \<Rightarrow> if ok then (True, soc_ServiceClients s1) else (False, s1))"

definition Soc_Unregister :: "task \<Rightarrow> soc_data \<Rightarrow> soc_data" where
  "Soc_Unregister t s = s\<lparr>client_list := remove_first t (client_list s)\<rparr>"

text \<open>The contexts are numbered: low, ok, full and the same three while charging.\<close>

definition appSocCurrentContext :: "soc_data \<Rightarrow> int" where
  "appSocCurrentContext s =
     (if state_of_charge s < low_battery_percent s then 0 else if state_of_charge s > full_battery_percent s then 2 else 1) +
     (if charger_connected s then 3 else 0)"

definition Soc_NotifyBatteryChanged :: "int \<Rightarrow> soc_data \<Rightarrow> soc_data" where
  "Soc_NotifyBatteryChanged new_context s =
     (let id = (if new_context = 0 \<or> new_context = 3 then SOC_BATTERY_BECAME_LOW
           else if new_context = 1 \<or> new_context = 4 then SOC_BATTERY_BECAME_OK
           else if new_context = 2 \<or> new_context = 5 then SOC_BATTERY_BECAME_FULL
           else SOC_BATTERY_BECAME_LOW)
      in soc_emit (map (\<lambda>(t, p). Send_Soc_Event t id) (client_list s)) s)"

definition Soc_ForceNotifyBatteryChanged :: "soc_data \<Rightarrow> soc_data" where
  "Soc_ForceNotifyBatteryChanged s = Soc_NotifyBatteryChanged (appSocCurrentContext s) s"

definition Soc_SetReportingLimits :: "int \<Rightarrow> int \<Rightarrow> soc_data \<Rightarrow> soc_data" where
  "Soc_SetReportingLimits low full s = s\<lparr>low_battery_percent := low, full_battery_percent := full\<rparr>"

definition Soc_GetBatterySoc :: "soc_data \<Rightarrow> int" where
  "Soc_GetBatterySoc s = u8 (state_of_charge s)"

definition Soc_Init :: "int option \<Rightarrow> bool \<Rightarrow> soc_data" where
  "Soc_Init ps connected =
     \<lparr>state_of_charge = (case ps of Some soc \<Rightarrow> soc | None \<Rightarrow> 100), charger_connected = connected, config_index = 0,
      low_battery_percent = 30, full_battery_percent = 90, client_list = [], soc_context = 0, soc_out = []\<rparr>"

section \<open>Messages\<close>

datatype soc_msg = Soc_Voltage int | Soc_Charger_Attached | Soc_Charger_Detached | Soc_Other

definition soc_store :: "int \<Rightarrow> soc_data \<Rightarrow> soc_data" where
  "soc_store p s = soc_ServiceClients (soc_emit [Soc_PsStore p] (s\<lparr>state_of_charge := p\<rparr>))"

fun soc_note :: "soc_lookup list \<Rightarrow> soc_msg \<Rightarrow> soc_data \<Rightarrow> soc_data option" where
  "soc_note tbl (Soc_Voltage v) s = map_option (\<lambda>i. s\<lparr>config_index := i\<rparr>) (soc_StateOfChargeUpdate tbl v (config_index s))"
| "soc_note tbl Soc_Charger_Attached s = Some (s\<lparr>charger_connected := True\<rparr>)"
| "soc_note tbl Soc_Charger_Detached s = Some (s\<lparr>charger_connected := False\<rparr>)"
| "soc_note tbl Soc_Other s = Some s"

definition soc_adopt :: "bool \<Rightarrow> int \<Rightarrow> soc_data \<Rightarrow> soc_data" where
  "soc_adopt blocked p s =
     (if (if charger_connected s then p \<noteq> u8 (state_of_charge s) else p < u8 (state_of_charge s)) \<and> \<not> blocked
      then soc_store p s else s)"

definition soc_publish :: "soc_data \<Rightarrow> soc_data" where
  "soc_publish s =
     (let s1 = (if soc_context s \<noteq> appSocCurrentContext s
           then (Soc_NotifyBatteryChanged (appSocCurrentContext s) s)\<lparr>soc_context := appSocCurrentContext s\<rparr> else s)
      in soc_emit [Soc_InformContext (appSocCurrentContext s1)] s1)"

definition soc_HandleMessage :: "soc_lookup list \<Rightarrow> bool \<Rightarrow> soc_msg \<Rightarrow> soc_data \<Rightarrow> soc_data option" where
  "soc_HandleMessage tbl blocked m s =
     Option.bind (soc_note tbl m s) (\<lambda>s1.
     map_option (\<lambda>x. soc_publish (soc_adopt blocked (lk_percentage x) s1)) (soc_at tbl (config_index s1)))"

section \<open>The table of the helmet\<close>

definition headset_soc_config_table :: "soc_lookup list" where
  "headset_soc_config_table = map lk
    [(3120, 0), (3138, 1), (3156, 2), (3174, 3), (3192, 4), (3210, 5), (3228, 6), (3246, 7), (3264, 8), (3282, 9),
     (3300, 10), (3308, 11), (3315, 12), (3323, 13), (3330, 14), (3338, 15), (3345, 16), (3353, 17), (3360, 18), (3368, 19),
     (3375, 20), (3383, 21), (3390, 22), (3398, 23), (3405, 24), (3413, 25), (3420, 26), (3428, 27), (3435, 28), (3443, 29),
     (3450, 30), (3458, 31), (3465, 32), (3473, 33), (3480, 34), (3488, 35), (3495, 36), (3503, 37), (3510, 38), (3518, 39),
     (3525, 40), (3533, 41), (3540, 42), (3548, 43), (3555, 44), (3563, 45), (3570, 46), (3578, 47), (3585, 48), (3593, 49),
     (3600, 50), (3608, 51), (3615, 52), (3623, 53), (3630, 54), (3638, 55), (3645, 56), (3653, 57), (3660, 58), (3668, 59),
     (3675, 60), (3683, 61), (3690, 62), (3698, 63), (3705, 64), (3713, 65), (3720, 66), (3728, 67), (3735, 68), (3743, 69),
     (3750, 70), (3758, 71), (3765, 72), (3773, 73), (3780, 74), (3788, 75), (3795, 76), (3803, 77), (3810, 78), (3818, 79),
     (3825, 80), (3833, 81), (3840, 82), (3848, 83), (3855, 84), (3863, 85), (3870, 86), (3878, 87), (3885, 88), (3893, 89),
     (3900, 90), (3930, 91), (3960, 92), (3990, 93), (4020, 94), (4050, 95), (4080, 96), (4110, 97), (4140, 98), (4170, 99),
     (4200, 100)]"

lemma soc_table_eval:
  "length headset_soc_config_table = 101" "map lk_percentage headset_soc_config_table = map int [0..<101]"
  "sorted (map lk_voltage headset_soc_config_table)" "lk_voltage (headset_soc_config_table ! 0) = 3120"
  "lk_voltage (headset_soc_config_table ! 100) = 4200" "lk_percentage (headset_soc_config_table ! 100) = 100"
  by code_simp+

section \<open>The searches find the entry of the reading\<close>

definition soc_volts :: "soc_lookup list \<Rightarrow> int list" where
  "soc_volts tbl = map lk_voltage tbl"

lemma soc_split:
  "sorted (soc_volts tbl) \<Longrightarrow> split_table (length tbl) (\<lambda>i. lk_voltage (tbl ! i) \<le> v)"
proof -
  assume "sorted (soc_volts tbl)"
  then have s: "split_table (length tbl) (\<lambda>i. soc_volts tbl ! i \<le> v)" using sorted_split [of "soc_volts tbl" v] by (simp add: soc_volts_def)
  show ?thesis
  proof
    show "lk_voltage (tbl ! i) \<le> v" if "i \<le> j" "j < length tbl" "lk_voltage (tbl ! j) \<le> v" for i j
      using split_table.down [OF s that(1,2)] that by (simp add: soc_volts_def)
  qed
qed

interpretation soc_table: split_table "length headset_soc_config_table" "\<lambda>i. lk_voltage (headset_soc_config_table ! i) \<le> v" for v
  using soc_split soc_table_eval(3) by (simp add: soc_volts_def)

text \<open>The entry of a reading: the last one that is not above it, the first one if all are above.\<close>

definition soc_index :: "soc_lookup list \<Rightarrow> int \<Rightarrow> nat" where
  "soc_index tbl v = split_point (length tbl) (\<lambda>i. lk_voltage (tbl ! i) \<le> v) - 1"

lemma soc_index_less: "tbl \<noteq> [] \<Longrightarrow> soc_index tbl v < length tbl"
  using split_point_le [of "length tbl" "\<lambda>i. lk_voltage (tbl ! i) \<le> v"] by (cases tbl) (auto simp: soc_index_def)

lemma soc_forward_index:
  assumes "sorted (soc_volts tbl)" "0 < i" "i \<le> length tbl" "lk_voltage (tbl ! (i - 1)) \<le> v"
  shows "soc_forward tbl v (lk_voltage (tbl ! (i - 1))) i = soc_index tbl v"
  using assms(2-)
proof (induction "length tbl - i" arbitrary: i)
  case 0
  then have "split_point (length tbl) (\<lambda>i. lk_voltage (tbl ! i) \<le> v) = length tbl"
    by (intro split_table.split_here [OF soc_split [OF assms(1)]]) simp_all
  with 0 show ?case by (simp add: soc_forward.simps soc_index_def)
next
  case (Suc n)
  then have i: "i < length tbl" by simp
  show ?case
  proof (cases "v < lk_voltage (tbl ! i)")
    case True
    then have "split_point (length tbl) (\<lambda>i. lk_voltage (tbl ! i) \<le> v) = i"
      using Suc.prems by (intro split_table.split_here [OF soc_split [OF assms(1)]]) simp_all
    with True Suc.prems i show ?thesis by (simp add: soc_forward.simps [of tbl v _ i] soc_index_def)
  next
    case False
    then show ?thesis using Suc(1) [of "i + 1"] Suc(2) i by (simp add: soc_forward.simps [of tbl v _ i] Let_def)
  qed
qed

lemma soc_backward_index:
  assumes "sorted (soc_volts tbl)" "i < length tbl" "v < lk_voltage (tbl ! i)"
  shows "soc_backward tbl v (lk_voltage (tbl ! i)) i = soc_index tbl v"
  using assms(2-)
proof (induction i)
  case 0
  then have "split_point (length tbl) (\<lambda>i. lk_voltage (tbl ! i) \<le> v) = 0"
    by (intro split_table.split_here [OF soc_split [OF assms(1)]]) simp_all
  then show ?case by (simp add: soc_index_def)
next
  case (Suc i)
  show ?case
  proof (cases "lk_voltage (tbl ! i) \<le> v")
    case True
    then have "split_point (length tbl) (\<lambda>i. lk_voltage (tbl ! i) \<le> v) = Suc i"
      using Suc.prems by (intro split_table.split_here [OF soc_split [OF assms(1)]]) simp_all
    with True Suc.prems show ?thesis by (simp add: soc_index_def)
  next
    case False
    then show ?thesis using Suc by simp
  qed
qed

lemma soc_update_index:
  assumes "sorted (soc_volts tbl)" "length tbl \<le> 256" "i < length tbl"
  shows "soc_StateOfChargeUpdate tbl v i = Some (soc_index tbl (soc_clamp v))"
proof -
  have "soc_index tbl (soc_clamp v) < length tbl" using assms(3) by (intro soc_index_less) auto
  then have m: "soc_index tbl (soc_clamp v) mod 256 = soc_index tbl (soc_clamp v)" using assms(2) by simp
  show ?thesis
  proof (cases "lk_voltage (tbl ! i) \<le> soc_clamp v")
    case True
    then have "soc_forward tbl (soc_clamp v) (lk_voltage (tbl ! i)) (i + 1) = soc_index tbl (soc_clamp v)"
      using soc_forward_index [OF assms(1), of "i + 1" "soc_clamp v"] assms(3) by simp
    with True m assms(3) show ?thesis by (simp add: soc_StateOfChargeUpdate_def soc_at_def)
  next
    case False
    with m assms(3) soc_backward_index [OF assms(1,3), of "soc_clamp v"] show ?thesis
      by (simp add: soc_StateOfChargeUpdate_def soc_at_def)
  qed
qed

lemma getIndex_loop_forward: "soc_getIndex_loop tbl v m i = soc_forward tbl v m i"
proof (induction tbl v m i rule: soc_getIndex_loop.induct)
  case (1 tbl v m i)
  then show ?case by (simp add: soc_getIndex_loop.simps [of tbl v m i] soc_forward.simps [of tbl v m i] Let_def)
qed

lemma soc_forward_below:
  assumes "sorted (soc_volts tbl)" "0 < i" "i \<le> length tbl" "v < lk_voltage (tbl ! (i - 1))"
  shows "soc_forward tbl v (lk_voltage (tbl ! (i - 1))) i = length tbl - 1"
  using assms(2-)
proof (induction "length tbl - i" arbitrary: i)
  case 0
  then show ?case by (simp add: soc_forward.simps)
next
  case (Suc n)
  then have i: "i < length tbl" by simp
  have "lk_voltage (tbl ! (i - 1)) \<le> lk_voltage (tbl ! i)"
    using sorted_nth_mono [OF assms(1), of "i - 1" i] i by (simp add: soc_volts_def)
  with Suc.prems(3) have "v < lk_voltage (tbl ! i)" by simp
  then show ?case
    using Suc(1) [of "i + 1"] Suc(2) Suc.prems i by (simp add: soc_forward.simps [of tbl v _ i] Let_def)
qed

lemma soc_getIndex_index:
  assumes "sorted (soc_volts tbl)" "tbl \<noteq> []"
  shows "soc_getIndex tbl v = Some (if lk_voltage (tbl ! 0) \<le> v then soc_index tbl v else length tbl - 1)"
  using soc_forward_index [OF assms(1), of 1 v] soc_forward_below [OF assms(1), of 1 v] assms(2)
  by (cases tbl) (auto simp: soc_getIndex_def soc_at_def getIndex_loop_forward)

text \<open>The reference: the last entry whose voltage is not above the reading.\<close>

definition soc_reference :: "soc_lookup list \<Rightarrow> int \<Rightarrow> soc_lookup" where
  "soc_reference tbl v = last (hd tbl # filter (\<lambda>x. lk_voltage x \<le> v) tbl)"

lemma filter_prefix:
  assumes "k \<le> length xs" "\<And>i. i < k \<Longrightarrow> Q (xs ! i)" "\<And>i. k \<le> i \<Longrightarrow> i < length xs \<Longrightarrow> \<not> Q (xs ! i)"
  shows "filter Q xs = take k xs"
proof -
  have "filter Q (take k xs) = take k xs" using assms(1,2) by (intro filter_True) (auto simp: in_set_conv_nth)
  moreover have "filter Q (drop k xs) = []"
  proof (rule filter_False)
    show "\<forall>x\<in>set (drop k xs). \<not> Q x" using assms(1,3) by (auto simp: in_set_conv_nth)
  qed
  ultimately show ?thesis by (metis append_take_drop_id filter_append append_Nil2)
qed

lemma soc_reference_index:
  assumes "sorted (soc_volts tbl)" "tbl \<noteq> []"
  shows "soc_reference tbl v = tbl ! soc_index tbl v"
proof -
  let ?P = "\<lambda>i. lk_voltage (tbl ! i) \<le> v"
  let ?k = "split_point (length tbl) ?P"
  have le: "?k \<le> length tbl" by (rule split_point_le)
  have before: "?P i" if "i < ?k" for i
  proof -
    have "takeWhile ?P [0..<length tbl] ! i = i" using that le by (simp add: split_point_def takeWhile_nth)
    then show ?thesis using that nth_mem [of i "takeWhile ?P [0..<length tbl]"] by (auto simp: split_point_def dest: set_takeWhileD)
  qed
  have after: "\<not> ?P i" if "?k \<le> i" "i < length tbl" for i
  proof
    assume "?P i"
    then have "?P ?k" using split_table.down [OF soc_split [OF assms(1)], of ?k i v] that by simp
    moreover have "?k < length [0..<length tbl]" using that by simp
    ultimately show False using nth_length_takeWhile [of ?P "[0..<length tbl]"] that by (simp add: split_point_def)
  qed
  have f: "filter (\<lambda>x. lk_voltage x \<le> v) tbl = take ?k tbl" 
    using filter_prefix [of ?k tbl "\<lambda>x. lk_voltage x \<le> v"] le before after by blast
  show ?thesis
    using le assms(2) by (cases "?k = 0") (auto simp: soc_reference_def f soc_index_def hd_conv_nth last_conv_nth min_def)
qed

text \<open>C16: Walking from the previous position is as good as searching the whole table: with a table of ascending voltages and any
  valid previous index, every battery reading leads to the entry that the definition asks for, the last one whose voltage does
  not exceed the (clamped) reading, within the table and whatever the readings before were.\<close>

theorem soc_search_exact:
  assumes "sorted (map lk_voltage tbl)" and "length tbl \<le> 256" and "i < length tbl"
  shows "\<exists>k. soc_StateOfChargeUpdate tbl v i = Some k \<and> k < length tbl \<and> tbl ! k = soc_reference tbl (soc_clamp v)"
proof -
  have s: "sorted (soc_volts tbl)" "tbl \<noteq> []" using assms by (auto simp: soc_volts_def)
  with assms(2,3) soc_update_index [OF s(1)] soc_reference_index [OF s] soc_index_less [OF s(2)] show ?thesis by auto
qed

theorem soc_search_exact_witness:
  "\<exists>k. soc_StateOfChargeUpdate headset_soc_config_table 3701 90 = Some k \<and> k < 101 \<and>
     headset_soc_config_table ! k = soc_reference headset_soc_config_table 3701"
  using soc_search_exact [of headset_soc_config_table 90 3701] by (simp add: soc_table_eval soc_clamp_def
      appConfigBatteryVoltageCritical_def appConfigBatteryFullyCharged_def)

text \<open>The one-shot conversion reports an empty battery as full. It agrees with the reference from 3120 mV on, the first voltage of
  the helmet's table; for every reading below, down to a dead battery, it returns 100 percent, because its search falls
  through to the last entry and the clamp at 3000 mV lies below the table.\<close>

lemma soc_convert_low_is_full:
  "Soc_ConvertLevelToPercentage headset_soc_config_table v =
     Some (if v < 3120 then 100 else lk_percentage (soc_reference headset_soc_config_table (soc_clamp v)))"
proof -
  let ?t = headset_soc_config_table
  have s: "sorted (soc_volts ?t)" "?t \<noteq> []" using soc_table_eval(1,3) by (auto simp: soc_volts_def)
  have c: "lk_voltage (?t ! 0) \<le> soc_clamp v \<longleftrightarrow> \<not> v < 3120"
    by (auto simp: soc_table_eval soc_clamp_def appConfigBatteryVoltageCritical_def appConfigBatteryFullyCharged_def)
  show ?thesis
    using soc_getIndex_index [OF s, of "soc_clamp v"] c soc_index_less [OF s(2)] soc_reference_index [OF s]
    by (simp add: Soc_ConvertLevelToPercentage_def soc_at_def soc_table_eval)
qed

section \<open>Clients and the life of the value\<close>

datatype soc_op =
    Soc_Op_Message bool soc_msg
  | Soc_Op_Register bool task
  | Soc_Op_Unregister task
  | Soc_Op_Limits int int
  | Soc_Op_Force

fun soc_do :: "soc_lookup list \<Rightarrow> soc_op \<Rightarrow> soc_data \<Rightarrow> soc_data option" where
  "soc_do tbl (Soc_Op_Message blocked m) s = soc_HandleMessage tbl blocked m s"
| "soc_do tbl (Soc_Op_Register mem t) s = Some (snd (Soc_Register_op mem t s))"
| "soc_do tbl (Soc_Op_Unregister t) s = Some (Soc_Unregister t s)"
| "soc_do tbl (Soc_Op_Limits low full) s = Some (Soc_SetReportingLimits low full s)"
| "soc_do tbl Soc_Op_Force s = Some (Soc_ForceNotifyBatteryChanged s)"

definition soc_inv :: "soc_lookup list \<Rightarrow> soc_data \<Rightarrow> bool" where
  "soc_inv tbl s \<longleftrightarrow> config_index s < length tbl \<and> (\<forall>(t, p)\<in>set (client_list s). p = u8 (state_of_charge s))"

lemma soc_frames [simp]:
  "state_of_charge (soc_emit cs s) = state_of_charge s" "config_index (soc_emit cs s) = config_index s"
  "charger_connected (soc_emit cs s) = charger_connected s" "client_list (soc_emit cs s) = client_list s"
  "state_of_charge (soc_ServiceClients s) = state_of_charge s" "config_index (soc_ServiceClients s) = config_index s"
  "charger_connected (soc_ServiceClients s) = charger_connected s"
  "client_list (soc_ServiceClients s) = map (\<lambda>(t, p). (t, u8 (state_of_charge s))) (client_list s)"
  "state_of_charge (Soc_NotifyBatteryChanged c s) = state_of_charge s" "config_index (Soc_NotifyBatteryChanged c s) = config_index s"
  "charger_connected (Soc_NotifyBatteryChanged c s) = charger_connected s"
  "client_list (Soc_NotifyBatteryChanged c s) = client_list s"
  by (simp_all add: soc_emit_def soc_ServiceClients_def Soc_NotifyBatteryChanged_def Let_def)

lemma soc_publish_frames [simp]:
  "state_of_charge (soc_publish s) = state_of_charge s" "config_index (soc_publish s) = config_index s"
  "charger_connected (soc_publish s) = charger_connected s" "client_list (soc_publish s) = client_list s"
  by (simp_all add: soc_publish_def Let_def)

lemma soc_adopt_frames [simp]:
  "config_index (soc_adopt b p s) = config_index s" "charger_connected (soc_adopt b p s) = charger_connected s"
  by (simp_all add: soc_adopt_def soc_store_def)

lemma soc_adopt_clients:
  "\<forall>(t, p)\<in>set (client_list s). p = u8 (state_of_charge s) \<Longrightarrow>
   \<forall>(t, q)\<in>set (client_list (soc_adopt b p s)). q = u8 (state_of_charge (soc_adopt b p s))"
  by (auto simp: soc_adopt_def soc_store_def)

lemma remove_first_set: "set (remove_first t cs) \<subseteq> set cs"
  by (induction t cs rule: remove_first.induct) auto

lemma soc_note_ok:
  assumes "sorted (soc_volts tbl)" "length tbl \<le> 256" "config_index s < length tbl"
  shows "\<exists>s1. soc_note tbl m s = Some s1 \<and> config_index s1 < length tbl \<and> client_list s1 = client_list s \<and>
    state_of_charge s1 = state_of_charge s \<and>
    charger_connected s1 = (case m of Soc_Charger_Attached \<Rightarrow> True | Soc_Charger_Detached \<Rightarrow> False | _ \<Rightarrow> charger_connected s)"
proof (cases m)
  case (Soc_Voltage v)
  have "tbl \<noteq> []" using assms(3) by auto
  with Soc_Voltage show ?thesis
    using soc_update_index [OF assms] soc_index_less [of tbl "soc_clamp v"] by simp
qed (use assms in simp_all)

lemma soc_message_ok:
  assumes "sorted (soc_volts tbl)" "length tbl \<le> 256" "soc_inv tbl s"
  shows "\<exists>s1 t x. soc_note tbl m s = Some s1 \<and> x \<in> set tbl \<and> t = soc_publish (soc_adopt b (lk_percentage x) s1) \<and>
    soc_HandleMessage tbl b m s = Some t \<and> soc_inv tbl t \<and> state_of_charge s1 = state_of_charge s \<and>
    charger_connected t = (case m of Soc_Charger_Attached \<Rightarrow> True | Soc_Charger_Detached \<Rightarrow> False | _ \<Rightarrow> charger_connected s)"
proof -
  obtain s1 where s1: "soc_note tbl m s = Some s1" "config_index s1 < length tbl" "client_list s1 = client_list s"
    "state_of_charge s1 = state_of_charge s"
    "charger_connected s1 = (case m of Soc_Charger_Attached \<Rightarrow> True | Soc_Charger_Detached \<Rightarrow> False | _ \<Rightarrow> charger_connected s)"
    using soc_note_ok [OF assms(1,2), of s m] assms(3) unfolding soc_inv_def by blast
  let ?x = "tbl ! config_index s1"
  have "soc_inv tbl (soc_publish (soc_adopt b (lk_percentage ?x) s1))"
    using soc_adopt_clients [of s1 b "lk_percentage ?x"] s1 assms(3) by (simp add: soc_inv_def)
  with s1 show ?thesis
    by (intro exI [of _ s1] exI [of _ "soc_publish (soc_adopt b (lk_percentage ?x) s1)"] exI [of _ ?x])
      (simp add: soc_HandleMessage_def soc_at_def)
qed

lemma soc_do_ok:
  assumes "sorted (soc_volts tbl)" "length tbl \<le> 256" "soc_inv tbl s"
  shows "\<exists>t. soc_do tbl op s = Some t \<and> soc_inv tbl t"
proof (cases op)
  case (Soc_Op_Message b m)
  with soc_message_ok [OF assms, of m b] show ?thesis by auto
next
  case (Soc_Op_Register mem t)
  with assms(3) show ?thesis by (auto simp: soc_inv_def Soc_Register_op_def soc_ClientAdd_def)
next
  case (Soc_Op_Unregister t)
  with assms(3) remove_first_set [of t "client_list s"] show ?thesis by (auto simp: soc_inv_def Soc_Unregister_def)
qed (use assms(3) in \<open>simp_all add: soc_inv_def Soc_SetReportingLimits_def Soc_ForceNotifyBatteryChanged_def\<close>)

interpretation soc: safe_machine "soc_do headset_soc_config_table" "soc_inv headset_soc_config_table" "\<lambda>_. True"
proof -
  have s: "sorted (soc_volts headset_soc_config_table)" "length headset_soc_config_table \<le> 256"
    using soc_table_eval(1,3) by (simp_all add: soc_volts_def)
  show "safe_machine (soc_do headset_soc_config_table) (soc_inv headset_soc_config_table) (\<lambda>_. True)"
  proof
    show "soc_inv headset_soc_config_table t"
      if "soc_inv headset_soc_config_table x" "soc_do headset_soc_config_table op x = Some t" for x op t
      using soc_do_ok [OF s that(1), of op] that(2) by auto
    show "soc_do headset_soc_config_table op x \<noteq> None" if "soc_inv headset_soc_config_table x" for x op
      using soc_do_ok [OF s that, of op] by auto
  qed
qed

lemma soc_init_inv: "soc_inv headset_soc_config_table (Soc_Init ps c)"
  by (simp add: soc_inv_def Soc_Init_def soc_table_eval)

fun attaches :: "soc_op \<Rightarrow> bool" where
  "attaches (Soc_Op_Message b Soc_Charger_Attached) = True"
| "attaches _ = False"

lemma soc_adopt_falls:
  "\<not> charger_connected s \<Longrightarrow> 0 \<le> state_of_charge s \<Longrightarrow> state_of_charge (soc_adopt b p s) \<le> state_of_charge s"
proof -
  assume a: "\<not> charger_connected s" "0 \<le> state_of_charge s"
  have "u8 (state_of_charge s) \<le> state_of_charge s" using a(2) by (simp add: u8_def zmod_le_nonneg_dividend)
  with a show ?thesis by (auto simp: soc_adopt_def soc_store_def)
qed

lemma soc_percent_nonneg: "x \<in> set headset_soc_config_table \<Longrightarrow> 0 \<le> lk_percentage x"
proof -
  assume "x \<in> set headset_soc_config_table"
  then have "lk_percentage x \<in> set (map lk_percentage headset_soc_config_table)" by simp
  then show ?thesis unfolding soc_table_eval(2) by auto
qed

definition discharging :: "int \<Rightarrow> soc_data \<Rightarrow> bool" where
  "discharging n s \<longleftrightarrow> soc_inv headset_soc_config_table s \<and> \<not> charger_connected s \<and> 0 \<le> state_of_charge s \<and> state_of_charge s \<le> n"

lemma discharging_step:
  assumes "discharging n s" "\<not> attaches op" "soc_do headset_soc_config_table op s = Some t"
  shows "discharging n t"
proof -
  let ?tbl = headset_soc_config_table
  have i: "soc_inv ?tbl s" "soc_inv ?tbl t" using assms(1) soc.keep [OF _ assms(3)] by (auto simp: discharging_def)
  have tbl: "sorted (soc_volts ?tbl)" "length ?tbl \<le> 256" using soc_table_eval(1,3) by (simp_all add: soc_volts_def)
  show ?thesis
  proof (cases op)
    case (Soc_Op_Message b m)
    have m: "m \<noteq> Soc_Charger_Attached" using assms(2) Soc_Op_Message by auto
    obtain s1 x where x: "x \<in> set ?tbl" "soc_note ?tbl m s = Some s1" "t = soc_publish (soc_adopt b (lk_percentage x) s1)"
      "state_of_charge s1 = state_of_charge s" "\<not> charger_connected t"
      using soc_message_ok [OF tbl i(1), of m b] assms(1,3) Soc_Op_Message m
      by (auto simp: discharging_def split: soc_msg.splits)
    have "\<not> charger_connected s1" using x(3,5) by simp
    then have "state_of_charge t \<le> state_of_charge s" "0 \<le> state_of_charge t"
      using soc_adopt_falls [of s1 b "lk_percentage x"] soc_percent_nonneg [OF x(1)] x(3,4) assms(1)
      by (auto simp: discharging_def soc_adopt_def soc_store_def)
    with x(5) i(2) assms(1) show ?thesis by (simp add: discharging_def)
  next
    case (Soc_Op_Register mem k)
    with assms(1,3) i(2) show ?thesis
      by (cases mem) (auto simp: discharging_def Soc_Register_op_def soc_ClientAdd_def)
  qed (use assms(1,3) i(2) in \<open>auto simp: discharging_def Soc_Unregister_def Soc_SetReportingLimits_def Soc_ForceNotifyBatteryChanged_def\<close>)
qed

text \<open>C19: On battery the state of charge never rises: from the stored value of any earlier run, as long as no charger is attached, every
  sequence of battery readings (however they fluctuate), registrations and upgrades keeps the published percentage at or below
  its previous value, never reads outside the table, and leaves every client with the current percentage.\<close>

theorem soc_never_rises_on_battery:
  assumes "soc_inv headset_soc_config_table s" and "\<not> charger_connected s" and "0 \<le> state_of_charge s"
    and "list_all (\<lambda>op. \<not> attaches op) ops"
  shows "\<exists>t. run (soc_do headset_soc_config_table) ops s = Some t \<and> state_of_charge t \<le> state_of_charge s \<and>
    (\<forall>(k, p)\<in>set (client_list t). p = Soc_GetBatterySoc t)"
proof -
  let ?tbl = headset_soc_config_table
  have "discharging (state_of_charge s) t" if "run (soc_do ?tbl) xs x = Some t" "discharging (state_of_charge s) x"
    "list_all (\<lambda>op. \<not> attaches op) xs" for xs x t
    using that by (induction xs arbitrary: x) (auto split: option.splits dest: discharging_step)
  moreover obtain t where "run (soc_do ?tbl) ops s = Some t" using soc.run_safe [OF assms(1), of ops] by (auto simp: list_all_iff)
  ultimately show ?thesis using assms by (fastforce simp: discharging_def soc_inv_def Soc_GetBatterySoc_def)
qed

theorem soc_never_rises_on_battery_witness:
  "\<exists>t. run (soc_do headset_soc_config_table) [Soc_Op_Register True 7, Soc_Op_Message False (Soc_Voltage 3700),
      Soc_Op_Message False (Soc_Voltage 4100)] (Soc_Init (Some 80) False) = Some t \<and> state_of_charge t \<le> 80"
  using soc_never_rises_on_battery [OF soc_init_inv, of "Some 80" False "[Soc_Op_Register True 7, Soc_Op_Message False (Soc_Voltage 3700),
      Soc_Op_Message False (Soc_Voltage 4100)]"]
  by (auto simp: Soc_Init_def)

end
