(* ===== verification/Charger.thy ===== *)
theory Charger
  imports Flag_Words Task_List Helmet_Prelude
begin

text \<open>
  The charger monitor (\<^verbatim>\<open>src/adk/src/domains/power/charger_monitor/charger_monitor.c\<close>) in the configuration \<^verbatim>\<open>SH_debug\<close> of the
  helmet: no detection of the cable type, charging through the internal regulator (\<^verbatim>\<open>FAST_CHARGE_EXTERNAL_RESISTOR\<close> is 0), end-of-charge
  hysteresis in software (\<^verbatim>\<open>HJC_11Be\<close> defines \<^verbatim>\<open>ENABLE_CHARGER_HYSTERESIS_SW\<close> at the top of the file). Commands to the charger
  hardware, messages and notifications are collected in \<open>ch_out\<close>. A command the hardware refuses is a panic, \<open>None\<close>. What the hardware
  accepts, the status it reports and the current of the battery region during a call are the record \<open>charger_env\<close>. The timeouts of the
  charging phases are zero in this configuration (\<^verbatim>\<open>charger_monitor_config.h\<close>), so no \<^verbatim>\<open>CHARGER_INTERNAL_CHARGE_TIMEOUT\<close> is ever scheduled and
  cancelling it has no effect; the enumeration constant for the hysteresis of the hardware is written as the 250 mV it names; the reason \<^verbatim>\<open>TIMEOUT\<close> comes from the timer of the battery region.
\<close>

unbundle bit_operations_syntax

section \<open>Data\<close>

definition CHARGER_DISABLE_REASON_TIMEOUT :: "32 word" where
  "CHARGER_DISABLE_REASON_TIMEOUT = 1"

definition CHARGER_DISABLE_REASON_REQUEST :: "32 word" where
  "CHARGER_DISABLE_REASON_REQUEST = 2"

definition CHARGER_DISABLE_REASON_ERROR :: "32 word" where
  "CHARGER_DISABLE_REASON_ERROR = 4"

definition CHARGER_DISABLE_REASON_ZERO_CURRENT :: "32 word" where
  "CHARGER_DISABLE_REASON_ZERO_CURRENT = 8"

definition CHARGER_DISABLE_REASON_NOT_CONNECTED :: "32 word" where
  "CHARGER_DISABLE_REASON_NOT_CONNECTED = 16"

definition CHARGER_DISABLE_REASON_CHARGED :: "32 word" where
  "CHARGER_DISABLE_REASON_CHARGED = 32"

definition CHARGER_DISABLE_REASON_INTERNAL :: "32 word" where
  "CHARGER_DISABLE_REASON_INTERNAL = 64"

abbreviation "cd_timeout \<equiv> CHARGER_DISABLE_REASON_TIMEOUT"
abbreviation "cd_request \<equiv> CHARGER_DISABLE_REASON_REQUEST"
abbreviation "cd_error \<equiv> CHARGER_DISABLE_REASON_ERROR"
abbreviation "cd_zero \<equiv> CHARGER_DISABLE_REASON_ZERO_CURRENT"
abbreviation "cd_unplugged \<equiv> CHARGER_DISABLE_REASON_NOT_CONNECTED"
abbreviation "cd_charged \<equiv> CHARGER_DISABLE_REASON_CHARGED"
abbreviation "cd_internal \<equiv> CHARGER_DISABLE_REASON_INTERNAL"

datatype charger_status = TRICKLE_CHARGE | FAST_CHARGE | DISABLED_ERROR | STANDBY | PRE_CHARGE | NO_POWER | HEADROOM_ERROR
  | VBAT_OVERVOLT_ERROR | CONFIG_FAIL_VALUES_OUT_OF_RANGE | ENABLE_FAIL_UNKNOWN | Charger_Other_Status nat

datatype charger_key = CHARGER_ENABLE | CHARGER_FAST_CURRENT | CHARGER_TRICKLE_CURRENT | CHARGER_PRE_CURRENT | CHARGER_ITERM_CTRL
  | CHARGER_PRE_FAST_THRESHOLD | CHARGER_TERM_VOLTAGE | CHARGER_STANDBY_FAST_HYSTERESIS | CHARGER_STATE_CHANGE_DEBOUNCE

datatype charger_notice = Notice_ATTACHED | Notice_DETACHED | Notice_COMPLETED | Notice_CHARGING_OK | Notice_CHARGING_LOW
  | Notice_DISABLED | Notice_ERROR

datatype charger_provider_context = BAD_CHARGER_CONTEXT | context_charger_disabled | context_charger_detached
  | context_charger_completed | context_charger_low | context_charger_fast | context_charger_error

datatype charger_call =
    ChargerConfigure charger_key int
  | PsuConfigure_Vchg
  | Charger_Tell task charger_notice
  | Charger_Inform charger_provider_context
  | Battery_Register_Voltage int
  | Charging_Timer_Stop
  | Charging_Timer_Start

record charger =
  ch_status :: charger_status
  is_connected :: nat
  is_enabled :: bool
  force_allow_power_off :: bool
  disallow_dormant :: bool
  test_mode :: bool
  fast_current :: int
  max_supported_current :: int
  power_source_vbat :: bool
  disable_reason :: "32 word"
  charger_client_tasks :: "task list option"
  re_enable_pending :: bool
  disable_after_charged_pending :: bool
  ch_out :: "charger_call list"

record charger_env =
  ce_accepts :: "charger_key \<Rightarrow> int \<Rightarrow> bool"
  ce_status :: charger_status
  ce_region_current :: nat

definition appConfigChargerFastCurrent :: int where
  "appConfigChargerFastCurrent = min 1470 500"

definition appConfigChargerInternalMaxCurrent :: int where
  "appConfigChargerInternalMaxCurrent = 200"

definition appConfigChargerTerminationVoltage :: int where
  "appConfigChargerTerminationVoltage = 4200"

definition appConfigChargerStandbyFastVoltageHysteresis :: int where
  "appConfigChargerStandbyFastVoltageHysteresis = 250"

definition ch_emit :: "charger_call list \<Rightarrow> charger \<Rightarrow> charger" where
  "ch_emit cs c = c\<lparr>ch_out := ch_out c @ cs\<rparr>"

definition ch_configure :: "charger_env \<Rightarrow> charger_key \<Rightarrow> int \<Rightarrow> charger \<Rightarrow> charger option" where
  "ch_configure e k v c = (if ce_accepts e k v then Some (ch_emit [ChargerConfigure k v] c) else None)"

section \<open>Reasons\<close>

definition Charger_Enable :: "charger_env \<Rightarrow> charger \<Rightarrow> charger option" where
  "Charger_Enable e c = ch_configure e CHARGER_ENABLE 1 (c\<lparr>is_enabled := True\<rparr>)"

definition Charger_Disable :: "charger_env \<Rightarrow> charger \<Rightarrow> charger option" where
  "Charger_Disable e c = ch_configure e CHARGER_ENABLE 0 (c\<lparr>is_enabled := False\<rparr>)"

definition Charger_DisableReasonClear :: "charger_env \<Rightarrow> 32 word \<Rightarrow> charger \<Rightarrow> charger option" where
  "Charger_DisableReasonClear e reason c =
     (if reason \<noteq> 0 \<and> disable_reason c \<noteq> 0
      then let c1 = c\<lparr>disable_reason := disable_reason c AND NOT reason\<rparr>
           in if disable_reason c1 = 0 then Charger_Enable e c1 else Some c1
      else Some c)"

definition Charger_DisableReasonAdd :: "charger_env \<Rightarrow> 32 word \<Rightarrow> charger \<Rightarrow> charger option" where
  "Charger_DisableReasonAdd e reason c =
     Option.bind (if reason \<noteq> 0
       then map_option (\<lambda>c1. c1\<lparr>disable_reason := disable_reason c1 OR reason\<rparr>)
              (if disable_reason c = 0 then Charger_Disable e c else Some c)
       else Some c) (\<lambda>c2.
     if reason \<noteq> cd_charged then Charger_DisableReasonClear e cd_charged c2 else Some c2)"

definition charger_HasCompleted :: "charger \<Rightarrow> bool" where
  "charger_HasCompleted c \<longleftrightarrow> disable_reason c = cd_charged"

section \<open>Queries\<close>

definition Charger_IsConnected :: "charger \<Rightarrow> bool" where
  "Charger_IsConnected c \<longleftrightarrow> is_connected c \<noteq> 0"

definition Charger_IsEnabled :: "charger \<Rightarrow> bool" where
  "Charger_IsEnabled c \<longleftrightarrow> is_enabled c"

definition Charger_IsCharging :: "charger \<Rightarrow> bool" where
  "Charger_IsCharging c \<longleftrightarrow> Charger_IsConnected c \<and> Charger_IsEnabled c \<and> ch_status c \<in> {TRICKLE_CHARGE, FAST_CHARGE, PRE_CHARGE}"

definition Charger_Status :: "charger_env \<Rightarrow> charger \<Rightarrow> charger_status" where
  "Charger_Status e c = (if test_mode c then ch_status c else ce_status e)"

definition Charger_CanPowerOff :: "charger \<Rightarrow> bool" where
  "Charger_CanPowerOff c \<longleftrightarrow> force_allow_power_off c \<or> \<not> Charger_IsConnected c"

definition Charger_CanEnterDormant :: "charger \<Rightarrow> bool" where
  "Charger_CanEnterDormant c \<longleftrightarrow> \<not> disallow_dormant c \<and> (force_allow_power_off c \<or> \<not> Charger_IsCharging c)"

definition appChargerCurrentContext :: "charger \<Rightarrow> charger_provider_context" where
  "appChargerCurrentContext c =
     (if Charger_IsConnected c
      then if Charger_IsEnabled c
           then (case ch_status c of TRICKLE_CHARGE \<Rightarrow> context_charger_low | PRE_CHARGE \<Rightarrow> context_charger_low
             | FAST_CHARGE \<Rightarrow> context_charger_fast | STANDBY \<Rightarrow> context_charger_completed
             | VBAT_OVERVOLT_ERROR \<Rightarrow> context_charger_error | HEADROOM_ERROR \<Rightarrow> context_charger_error
             | DISABLED_ERROR \<Rightarrow> context_charger_error | _ \<Rightarrow> BAD_CHARGER_CONTEXT)
           else if charger_HasCompleted c then context_charger_completed else context_charger_disabled
      else context_charger_detached)"

definition charger_StatusMessageId :: "charger_status \<Rightarrow> charger_notice" where
  "charger_StatusMessageId st = (case st of TRICKLE_CHARGE \<Rightarrow> Notice_CHARGING_LOW | PRE_CHARGE \<Rightarrow> Notice_CHARGING_LOW
     | FAST_CHARGE \<Rightarrow> Notice_CHARGING_OK | STANDBY \<Rightarrow> Notice_COMPLETED | VBAT_OVERVOLT_ERROR \<Rightarrow> Notice_ERROR
     | HEADROOM_ERROR \<Rightarrow> Notice_ERROR | _ \<Rightarrow> Notice_DISABLED)"

definition Charger_NotifyClients :: "charger_notice \<Rightarrow> charger \<Rightarrow> charger" where
  "Charger_NotifyClients n c =
     (case charger_client_tasks c of None \<Rightarrow> c | Some ts \<Rightarrow> ch_emit (map (\<lambda>t. Charger_Tell t n) ts) c)"

section \<open>Current and connection\<close>

definition charger_SetFastCurrent :: "charger_env \<Rightarrow> int \<Rightarrow> charger \<Rightarrow> charger option" where
  "charger_SetFastCurrent e current c =
     Option.bind (if current = 0 then Charger_DisableReasonAdd e cd_zero c else Some c) (\<lambda>c1.
     let fc = (if current > appConfigChargerInternalMaxCurrent then appConfigChargerInternalMaxCurrent else current)
     in Option.bind (ch_configure e CHARGER_FAST_CURRENT fc c1) (\<lambda>c2.
        let c3 = c2\<lparr>fast_current := fc\<rparr>
        in if fc \<noteq> 0 then Charger_DisableReasonClear e cd_zero c3 else Some c3))"

definition Charger_UpdateCurrent :: "charger_env \<Rightarrow> charger \<Rightarrow> charger option" where
  "Charger_UpdateCurrent e c =
     (let fc = min (int (ce_region_current e)) (max_supported_current c)
      in if fast_current c \<noteq> fc then charger_SetFastCurrent e (u16 fc) c else Some c)"

definition Charger_HandleChange :: "charger \<Rightarrow> charger" where
  "Charger_HandleChange c =
     (if \<not> Charger_IsConnected c then c\<lparr>power_source_vbat := True\<rparr>
      else if power_source_vbat c then ch_emit [PsuConfigure_Vchg] (c\<lparr>power_source_vbat := False\<rparr>) else c)"

definition Charger_UpdateConnected :: "charger_env \<Rightarrow> bool \<Rightarrow> charger \<Rightarrow> charger option" where
  "Charger_UpdateConnected e connected c =
     (let new = (if connected then 1 else 0)
      in if is_connected c = new then Some c
         else let c1 = c\<lparr>is_connected := new\<rparr>
              in map_option (\<lambda>c2. Charger_NotifyClients (if connected then Notice_ATTACHED else Notice_DETACHED) (Charger_HandleChange c2))
                (if connected
                 then Option.bind (Charger_UpdateCurrent e c1) (Charger_DisableReasonClear e cd_unplugged)
                 else Option.bind (Charger_DisableReasonAdd e cd_unplugged c1) (\<lambda>c2.
                      Option.bind (Charger_DisableReasonClear e cd_timeout c2) (\<lambda>c3.
                      Charger_DisableReasonClear e cd_charged (c3\<lparr>disable_after_charged_pending := False\<rparr>)))))"

section \<open>Status\<close>

definition Charger_Error :: "charger_env \<Rightarrow> charger \<Rightarrow> charger option" where
  "Charger_Error e c = map_option (\<lambda>c1. c1\<lparr>re_enable_pending := True\<rparr>) (Charger_DisableReasonAdd e cd_error c)"

definition charger_on_status :: "charger_env \<Rightarrow> charger \<Rightarrow> charger option" where
  "charger_on_status e c = (case ch_status c of
     DISABLED_ERROR \<Rightarrow> Some (if charger_HasCompleted c then c\<lparr>ch_status := STANDBY\<rparr> else c)
   | STANDBY \<Rightarrow> Some (c\<lparr>disable_after_charged_pending := True\<rparr>)
   | HEADROOM_ERROR \<Rightarrow> Charger_Error e c
   | VBAT_OVERVOLT_ERROR \<Rightarrow> Charger_Error e c
   | CONFIG_FAIL_VALUES_OUT_OF_RANGE \<Rightarrow>
       (if fast_current c > appConfigChargerInternalMaxCurrent
        then Option.bind (Charger_UpdateCurrent e (c\<lparr>max_supported_current := fast_current c - 50\<rparr>)) (\<lambda>c1.
             Option.bind (Charger_DisableReasonAdd e cd_internal c1) (Charger_DisableReasonClear e cd_internal))
        else Charger_Error e c)
   | _ \<Rightarrow> Some c)"

definition Charger_StatusChanged :: "charger_env \<Rightarrow> charger_status \<Rightarrow> charger \<Rightarrow> charger option" where
  "Charger_StatusChanged e st c =
     map_option (\<lambda>c1.
       if ch_status c \<noteq> ch_status c1
       then ch_emit [Charger_Inform (appChargerCurrentContext c1)] (Charger_NotifyClients (charger_StatusMessageId (ch_status c1)) c1)
       else c1)
     (charger_on_status e (c\<lparr>ch_status := st, disable_after_charged_pending := False\<rparr>))"

definition Charger_HandleBatteryLevelUpdate :: "charger_env \<Rightarrow> int \<Rightarrow> charger \<Rightarrow> charger option" where
  "Charger_HandleBatteryLevelUpdate e battery_voltage c =
     (if s32 (appConfigChargerTerminationVoltage - battery_voltage) \<ge> appConfigChargerStandbyFastVoltageHysteresis
      then Charger_DisableReasonClear e cd_charged c else Some c)"

section \<open>Messages and interface\<close>

datatype charger_msg = CHARGER_INTERNAL_CHARGE_TIMEOUT | CHARGER_INTERNAL_RE_ENABLE_TIMEOUT | MESSAGE_CHARGER_DETECTED
  | MESSAGE_CHARGER_CHANGED bool | MESSAGE_CHARGER_STATUS charger_status | MESSAGE_BATTERY_LEVEL_UPDATE_VOLTAGE int
  | CHARGER_INTERNAL_DISABLE_AFTER_CHARGED

fun charger_HandleMessage :: "charger_env \<Rightarrow> charger_msg \<Rightarrow> charger \<Rightarrow> charger option" where
  "charger_HandleMessage e CHARGER_INTERNAL_CHARGE_TIMEOUT c = Charger_DisableReasonAdd e cd_timeout c"
| "charger_HandleMessage e CHARGER_INTERNAL_RE_ENABLE_TIMEOUT c = Charger_DisableReasonClear e cd_error c"
| "charger_HandleMessage e MESSAGE_CHARGER_DETECTED c = Some c"
| "charger_HandleMessage e (MESSAGE_CHARGER_CHANGED b) c = (if \<not> test_mode c then Charger_UpdateConnected e b c else Some c)"
| "charger_HandleMessage e (MESSAGE_CHARGER_STATUS st) c = (if \<not> test_mode c then Charger_StatusChanged e st c else Some c)"
| "charger_HandleMessage e (MESSAGE_BATTERY_LEVEL_UPDATE_VOLTAGE v) c = Charger_HandleBatteryLevelUpdate e v c"
| "charger_HandleMessage e CHARGER_INTERNAL_DISABLE_AFTER_CHARGED c = Charger_DisableReasonAdd e cd_charged c"

definition charger_ConfigureCharger :: "charger_env \<Rightarrow> charger \<Rightarrow> charger option" where
  "charger_ConfigureCharger e c =
     Option.bind (ch_configure e CHARGER_TRICKLE_CURRENT 10 c) (\<lambda>c.
     Option.bind (ch_configure e CHARGER_PRE_CURRENT 20 c) (\<lambda>c.
     Option.bind (ch_configure e CHARGER_ITERM_CTRL 10 c) (\<lambda>c.
     Option.bind (charger_SetFastCurrent e 0 c) (\<lambda>c.
     Option.bind (ch_configure e CHARGER_PRE_FAST_THRESHOLD 3000 c) (\<lambda>c.
     Option.bind (ch_configure e CHARGER_TERM_VOLTAGE appConfigChargerTerminationVoltage c) (\<lambda>c.
     Option.bind (ch_configure e CHARGER_STANDBY_FAST_HYSTERESIS 250 c) (\<lambda>c.
     ch_configure e CHARGER_STATE_CHANGE_DEBOUNCE 128 c)))))))"

definition charger_zero :: charger where
  "charger_zero = \<lparr>ch_status = ENABLE_FAIL_UNKNOWN, is_connected = 2, is_enabled = False, force_allow_power_off = False,
     disallow_dormant = False, test_mode = False, fast_current = 0, max_supported_current = appConfigChargerFastCurrent,
     power_source_vbat = True, disable_reason = 0, charger_client_tasks = None, re_enable_pending = False,
     disable_after_charged_pending = False, ch_out = []\<rparr>"

definition Charger_Init :: "charger_env \<Rightarrow> charger option" where
  "Charger_Init e =
     Option.bind (Charger_DisableReasonAdd e cd_unplugged charger_zero) (\<lambda>c1.
     Option.bind (charger_ConfigureCharger e c1) (\<lambda>c2.
     map_option (ch_emit [Battery_Register_Voltage 5]) (Charger_UpdateConnected e (Charger_Status e c2 \<noteq> NO_POWER) c2)))"

definition Charger_ClientRegister :: "task \<Rightarrow> charger \<Rightarrow> bool \<times> charger" where
  "Charger_ClientRegister t c =
     (let ts = (case charger_client_tasks c of None \<Rightarrow> [] | Some ts \<Rightarrow> ts)
      in if t \<in> set ts then (False, c\<lparr>charger_client_tasks := Some ts\<rparr>)
         else (True, ch_emit [Charger_Tell t (if Charger_IsConnected c then Notice_ATTACHED else Notice_DETACHED),
                Charger_Tell t (charger_StatusMessageId (ch_status c))] (c\<lparr>charger_client_tasks := Some (ts @ [t])\<rparr>)))"

definition Charger_ClientUnregister :: "task \<Rightarrow> charger \<Rightarrow> charger option" where
  "Charger_ClientUnregister t c = (case charger_client_tasks c of None \<Rightarrow> None
     | Some ts \<Rightarrow> Some (c\<lparr>charger_client_tasks := Some (filter (\<lambda>x. x \<noteq> t) ts)\<rparr>))"

definition Charger_ForceDisable :: "charger_env \<Rightarrow> charger \<Rightarrow> charger option" where
  "Charger_ForceDisable e c = map_option (ch_emit [Charging_Timer_Stop]) (Charger_DisableReasonAdd e cd_request c)"

definition forced_restart_charging_timer :: "charger_env \<Rightarrow> charger \<Rightarrow> charger option" where
  "forced_restart_charging_timer e c =
     map_option (ch_emit [Charging_Timer_Start]) (Charger_DisableReasonClear e cd_timeout (ch_emit [Charging_Timer_Stop] c))"

definition Charger_RestoreState :: "charger_env \<Rightarrow> charger \<Rightarrow> charger option" where
  "Charger_RestoreState e c = Option.bind (Charger_DisableReasonClear e cd_request c) (forced_restart_charging_timer e)"

definition Charger_ForceAllowPowerOff :: "bool \<Rightarrow> charger \<Rightarrow> charger" where
  "Charger_ForceAllowPowerOff b c = c\<lparr>force_allow_power_off := b\<rparr>"

definition Charger_DisallowDormant :: "bool \<Rightarrow> charger \<Rightarrow> charger" where
  "Charger_DisallowDormant b c = c\<lparr>disallow_dormant := b\<rparr>"

definition Charger_TestModeControl :: "charger_env \<Rightarrow> bool \<Rightarrow> charger \<Rightarrow> charger option" where
  "Charger_TestModeControl e b c =
     (if b then Some (c\<lparr>test_mode := True\<rparr>)
      else if test_mode c
      then let c1 = c\<lparr>test_mode := False\<rparr> in Charger_UpdateConnected e (Charger_Status e c1 \<noteq> NO_POWER) c1
      else Some c)"

definition Charger_TestChargerConnected :: "charger_env \<Rightarrow> bool \<Rightarrow> charger \<Rightarrow> charger option" where
  "Charger_TestChargerConnected e b c = (if \<not> test_mode c then Some c else Charger_UpdateConnected e b c)"

definition Charger_TestChargerStatus :: "charger_env \<Rightarrow> charger_status \<Rightarrow> charger \<Rightarrow> charger option" where
  "Charger_TestChargerStatus e st c = (if \<not> test_mode c then Some c else Charger_StatusChanged e st c)"

end
