(* ===== verification/Charger_Safety.thy ===== *)
theory Charger_Safety
  imports Charger Machine
begin

text \<open>
  The guarantees of the charger monitor over all sequences of calls and messages. \<open>charger_hw\<close> replays the commands the monitor
  has sent and is the state of the charger hardware, so a theorem about it is a theorem about what the hardware was told, after every
  single command and not only between calls.
\<close>

unbundle bit_operations_syntax

section \<open>The hardware\<close>

definition hw_step :: "charger_call \<Rightarrow> bool \<times> int \<Rightarrow> bool \<times> int" where
  "hw_step x h = (case x of ChargerConfigure k v \<Rightarrow>
       (if k = CHARGER_ENABLE then (v = 1, snd h) else if k = CHARGER_FAST_CURRENT then (fst h, v) else h)
     | _ \<Rightarrow> h)"

definition charger_hw :: "charger_call list \<Rightarrow> bool \<times> int" where
  "charger_hw out = fold hw_step out (False, 0)"

text \<open>Enabled only with a current the internal regulator can deliver.\<close>

definition hw_ok :: "bool \<times> int \<Rightarrow> bool" where
  "hw_ok h \<longleftrightarrow> (fst h \<longrightarrow> 0 < snd h \<and> snd h \<le> appConfigChargerInternalMaxCurrent)"

definition always_ok :: "charger_call list \<Rightarrow> bool" where
  "always_ok out \<longleftrightarrow> list_all (\<lambda>n. hw_ok (charger_hw (take n out))) [0..<Suc (length out)]"

lemma hw_append: "charger_hw (xs @ ys) = fold hw_step ys (charger_hw xs)"
  by (simp add: charger_hw_def)

lemma always_iff: "always_ok out \<longleftrightarrow> (\<forall>n\<le>length out. hw_ok (charger_hw (take n out)))"
  by (auto simp: always_ok_def list_all_iff simp del: upt_Suc)

lemma always_snoc: "always_ok (xs @ [x]) \<longleftrightarrow> always_ok xs \<and> hw_ok (charger_hw (xs @ [x]))"
proof -
  have "(\<forall>n\<le>Suc (length xs). hw_ok (charger_hw (take n (xs @ [x])))) \<longleftrightarrow>
      (\<forall>n\<le>length xs. hw_ok (charger_hw (take n (xs @ [x])))) \<and> hw_ok (charger_hw (take (Suc (length xs)) (xs @ [x])))"
    by (auto simp: le_Suc_eq)
  then show ?thesis by (simp add: always_iff)
qed

lemma always_last: "always_ok out \<Longrightarrow> hw_ok (charger_hw out)"
  unfolding always_iff by (metis order_refl take_all_iff)

text \<open>Calls that are no commands to the charger.\<close>

definition silent_calls :: "charger_call list \<Rightarrow> bool" where
  "silent_calls cs \<longleftrightarrow> list_all (\<lambda>x. case x of ChargerConfigure k v \<Rightarrow> k \<noteq> CHARGER_ENABLE \<and> k \<noteq> CHARGER_FAST_CURRENT | _ \<Rightarrow> True) cs"

lemma silent_hw: "silent_calls cs \<Longrightarrow> charger_hw (xs @ cs) = charger_hw xs"
proof (induction cs rule: rev_induct)
  case (snoc c cs)
  then have "charger_hw (xs @ cs) = charger_hw xs" "hw_step c h = h" for h
    by (auto simp: silent_calls_def hw_step_def split: charger_call.splits)
  then show ?case by (simp add: hw_append)
qed simp

lemma silent_always: "silent_calls cs \<Longrightarrow> always_ok (xs @ cs) \<longleftrightarrow> always_ok xs"
proof (induction cs rule: rev_induct)
  case (snoc c cs)
  then have s: "silent_calls cs" by (simp add: silent_calls_def)
  have "always_ok (xs @ cs @ [c]) \<longleftrightarrow> always_ok (xs @ cs) \<and> hw_ok (charger_hw (xs @ cs @ [c]))"
    using always_snoc [of "xs @ cs" c] by simp
  also have "charger_hw (xs @ cs @ [c]) = charger_hw xs" by (rule silent_hw [OF snoc.prems])
  finally show ?case using snoc.IH [OF s] always_last [of xs] by auto
qed simp

lemma silent_tells [simp]: "silent_calls (map (\<lambda>t. Charger_Tell t n) ts)"
  by (simp add: silent_calls_def list_all_iff)

lemma hw_enable: "charger_hw (xs @ [ChargerConfigure CHARGER_ENABLE v]) = (v = 1, snd (charger_hw xs))"
  by (simp add: hw_append hw_step_def)

lemma hw_current: "charger_hw (xs @ [ChargerConfigure CHARGER_FAST_CURRENT v]) = (fst (charger_hw xs), v)"
  by (simp add: hw_append hw_step_def)

section \<open>The core of the invariant\<close>

text \<open>It holds at every point of every handler after start-up: the charger is enabled exactly when there is no reason against it, a
  current of zero is such a reason, and the hardware has been told exactly this.\<close>

definition ch_core :: "charger \<Rightarrow> bool" where
  "ch_core c \<longleftrightarrow> (is_enabled c \<longleftrightarrow> disable_reason c = 0) \<and> (fast_current c = 0 \<longrightarrow> disable_reason c AND cd_zero \<noteq> 0) \<and>
     0 \<le> fast_current c \<and> fast_current c \<le> appConfigChargerInternalMaxCurrent \<and>
     charger_hw (ch_out c) = (is_enabled c, fast_current c) \<and> always_ok (ch_out c)"

text \<open>What only an operation on the reasons leaves alone.\<close>

definition same_rest :: "charger \<Rightarrow> charger \<Rightarrow> bool" where
  "same_rest c d \<longleftrightarrow> fast_current d = fast_current c \<and> is_connected d = is_connected c \<and> re_enable_pending d = re_enable_pending c \<and>
     max_supported_current d = max_supported_current c \<and> ch_status d = ch_status c \<and> test_mode d = test_mode c \<and>
     power_source_vbat d = power_source_vbat c \<and> charger_client_tasks d = charger_client_tasks c"

lemmas charger_defs = CHARGER_DISABLE_REASON_TIMEOUT_def CHARGER_DISABLE_REASON_REQUEST_def CHARGER_DISABLE_REASON_ERROR_def
  CHARGER_DISABLE_REASON_ZERO_CURRENT_def CHARGER_DISABLE_REASON_NOT_CONNECTED_def CHARGER_DISABLE_REASON_CHARGED_def
  CHARGER_DISABLE_REASON_INTERNAL_def

lemma reasons_disjoint:
  "cd_timeout AND cd_zero = 0" "cd_request AND cd_zero = 0" "cd_error AND cd_zero = 0" "cd_unplugged AND cd_zero = 0"
  "cd_charged AND cd_zero = 0"
  "cd_timeout AND cd_unplugged = 0" "cd_request AND cd_unplugged = 0" "cd_error AND cd_unplugged = 0" "cd_zero AND cd_unplugged = 0"
  "cd_charged AND cd_unplugged = 0"
  "cd_timeout AND cd_error = 0" "cd_request AND cd_error = 0" "cd_zero AND cd_error = 0" "cd_unplugged AND cd_error = 0"
  "cd_charged AND cd_error = 0"
  "cd_timeout AND cd_charged = 0" "cd_request AND cd_charged = 0" "cd_zero AND cd_charged = 0" "cd_unplugged AND cd_charged = 0"
  "cd_error AND cd_charged = 0"
  by (simp_all add: charger_defs)

lemma reasons_nonzero [simp]:
  "cd_timeout \<noteq> 0" "cd_request \<noteq> 0" "cd_error \<noteq> 0" "cd_zero \<noteq> 0" "cd_unplugged \<noteq> 0" "cd_charged \<noteq> 0"
  by (simp_all add: charger_defs)

lemmas reason_simps = flag_set_self flag_clear_self reasons_disjoint reasons_disjoint [THEN flag_other(1)] reasons_disjoint [THEN flag_other(2)]

lemma configure_Some: "ch_configure e k v c = Some d \<longleftrightarrow> ce_accepts e k v \<and> d = ch_emit [ChargerConfigure k v] c"
  by (auto simp: ch_configure_def)

lemma clear_spec:
  assumes "Charger_DisableReasonClear e r c = Some d" "ch_core c" "r AND cd_zero = 0 \<or> fast_current c \<noteq> 0"
  shows "ch_core d \<and> disable_reason d = disable_reason c AND NOT r \<and> same_rest c d"
proof (cases "r = 0 \<or> disable_reason c = 0")
  case True
  then have "d = c" using assms(1) by (auto simp: Charger_DisableReasonClear_def)
  with True assms(2) show ?thesis by (auto simp: same_rest_def)
next
  case False
  let ?r = "disable_reason c AND NOT r"
  have z: "fast_current c = 0 \<longrightarrow> ?r AND cd_zero \<noteq> 0"
    using assms(2,3) flag_other(2) [of r cd_zero "disable_reason c"] by (auto simp: ch_core_def)
  show ?thesis
  proof (cases "?r = 0")
    case True
    with z have fc: "fast_current c \<noteq> 0" by auto
    have "d = ch_emit [ChargerConfigure CHARGER_ENABLE 1] (c\<lparr>disable_reason := ?r, is_enabled := True\<rparr>)"
      using assms(1) False True by (simp add: Charger_DisableReasonClear_def Charger_Enable_def configure_Some)
    with True fc assms(2) show ?thesis
      by (auto simp: ch_core_def same_rest_def ch_emit_def hw_enable always_snoc hw_ok_def)
  next
    case nz: False
    then have "d = c\<lparr>disable_reason := ?r\<rparr>" using assms(1) False by (simp add: Charger_DisableReasonClear_def)
    with nz z False assms(2) show ?thesis by (auto simp: ch_core_def same_rest_def)
  qed
qed

text \<open>Adding a reason other than \<^verbatim>\<open>CHARGED\<close> replaces \<^verbatim>\<open>CHARGED\<close>.\<close>

definition reasons_with :: "32 word \<Rightarrow> 32 word \<Rightarrow> 32 word" where
  "reasons_with d r = (if r = cd_charged then d OR r else (d OR r) AND NOT cd_charged)"

lemma add_only:
  assumes "(if r \<noteq> 0 then map_option (\<lambda>c1. c1\<lparr>disable_reason := disable_reason c1 OR r\<rparr>)
      (if disable_reason c = 0 then Charger_Disable e c else Some c) else Some c) = Some d" "ch_core c"
  shows "ch_core d \<and> disable_reason d = disable_reason c OR r \<and> same_rest c d"
proof (cases "r = 0")
  case True
  with assms show ?thesis by (auto simp: same_rest_def)
next
  case r: False
  show ?thesis
  proof (cases "disable_reason c = 0")
    case True
    then have "d = (ch_emit [ChargerConfigure CHARGER_ENABLE 0] (c\<lparr>is_enabled := False\<rparr>))\<lparr>disable_reason := r\<rparr>"
      using assms(1) r by (auto simp: Charger_Disable_def configure_Some ch_emit_def)
    with True r assms(2) show ?thesis
      by (auto simp: ch_core_def same_rest_def ch_emit_def hw_enable always_snoc hw_ok_def)
  next
    case False
    then have "d = c\<lparr>disable_reason := disable_reason c OR r\<rparr>" using assms(1) r by auto
    moreover have "(disable_reason c OR r) AND cd_zero \<noteq> 0" if "disable_reason c AND cd_zero \<noteq> 0"
      using that by (auto simp: bit_eq_iff bit_simps)
    ultimately show ?thesis using False assms(2) by (auto simp: ch_core_def same_rest_def flag_or_zero)
  qed
qed

lemma add_spec:
  assumes "Charger_DisableReasonAdd e r c = Some d" "ch_core c"
  shows "ch_core d \<and> disable_reason d = reasons_with (disable_reason c) r \<and> same_rest c d"
proof -
  obtain c2 where c2: "(if r \<noteq> 0 then map_option (\<lambda>c1. c1\<lparr>disable_reason := disable_reason c1 OR r\<rparr>)
      (if disable_reason c = 0 then Charger_Disable e c else Some c) else Some c) = Some c2"
    "(if r \<noteq> cd_charged then Charger_DisableReasonClear e cd_charged c2 else Some c2) = Some d"
    using assms(1) unfolding Charger_DisableReasonAdd_def bind_eq_Some_conv by blast
  note s2 = add_only [OF c2(1) assms(2)]
  show ?thesis
  proof (cases "r = cd_charged")
    case True
    with c2(2) s2 show ?thesis by (simp add: reasons_with_def)
  next
    case False
    then have "Charger_DisableReasonClear e cd_charged c2 = Some d" using c2(2) by simp
    from clear_spec [OF this] s2 False show ?thesis by (simp add: reasons_with_def reasons_disjoint same_rest_def)
  qed
qed

lemma reasons_with_and:
  "cd_charged AND f = 0 \<Longrightarrow> reasons_with d r AND f = (d OR r) AND f"
  by (auto simp: reasons_with_def bit_eq_iff bit_simps)

lemmas with_simps = reasons_disjoint(5,10,15) [THEN reasons_with_and]

lemma configure_current_core:
  assumes "ch_core c" "0 \<le> fc" "fc \<le> appConfigChargerInternalMaxCurrent" "fc = 0 \<Longrightarrow> disable_reason c AND cd_zero \<noteq> 0"
  shows "ch_core ((ch_emit [ChargerConfigure CHARGER_FAST_CURRENT fc] c)\<lparr>fast_current := fc\<rparr>)"
  using assms by (cases "fc = 0") (auto simp: ch_core_def ch_emit_def hw_current always_snoc hw_ok_def)

lemma emit_core: "silent_calls cs \<Longrightarrow> ch_core (ch_emit cs c) = ch_core c"
  by (simp add: ch_core_def ch_emit_def silent_hw silent_always)

section \<open>The invariant of the monitor\<close>

text \<open>Between two calls: the core, no cable is a reason against charging exactly while there is none, likewise the current of zero, and
  an error is a reason only while the message that lifts it is on its way.\<close>

definition ch_inv :: "charger \<Rightarrow> bool" where
  "ch_inv c \<longleftrightarrow> ch_core c \<and> is_connected c \<le> 1 \<and> (disable_reason c AND cd_unplugged \<noteq> 0 \<longleftrightarrow> is_connected c = 0) \<and>
     (disable_reason c AND cd_zero \<noteq> 0 \<longleftrightarrow> fast_current c = 0) \<and>
     (disable_reason c AND cd_error \<noteq> 0 \<longrightarrow> re_enable_pending c) \<and> max_supported_current c = appConfigChargerFastCurrent"

lemma internal_max [simp]: "appConfigChargerInternalMaxCurrent = 200" "appConfigChargerFastCurrent = 500"
  by (simp_all add: appConfigChargerInternalMaxCurrent_def appConfigChargerFastCurrent_def)

definition set_current :: "int \<Rightarrow> int" where
  "set_current current = min current 200"

lemma set_fast_current_spec:
  assumes "charger_SetFastCurrent e current c = Some d" "ch_core c" "0 \<le> current"
  shows "ch_core d \<and> fast_current d = set_current current \<and> same_rest (c\<lparr>fast_current := set_current current\<rparr>) d \<and>
    disable_reason d = (if current = 0 then reasons_with (disable_reason c) cd_zero else disable_reason c AND NOT cd_zero)"
proof -
  let ?fc = "set_current current"
  let ?set = "\<lambda>c. (ch_emit [ChargerConfigure CHARGER_FAST_CURRENT ?fc] c)\<lparr>fast_current := ?fc\<rparr>"
  have fc: "(if current > appConfigChargerInternalMaxCurrent then appConfigChargerInternalMaxCurrent else current) = ?fc" "0 \<le> ?fc"
    "?fc \<le> appConfigChargerInternalMaxCurrent" "?fc = 0 \<longleftrightarrow> current = 0"
    using assms by (auto simp: set_current_def)
  show ?thesis
  proof (cases "current = 0")
    case True
    then obtain c1 where c1: "Charger_DisableReasonAdd e cd_zero c = Some c1" "d = ?set c1"
      using assms(1) unfolding charger_SetFastCurrent_def
      by (auto simp: configure_Some bind_eq_Some_conv Let_def set_current_def)
    note s = add_spec [OF c1(1) assms(2)]
    then have "ch_core d" unfolding c1(2)
      by (intro configure_current_core fc) (auto simp: with_simps flag_set_self)
    with s True c1(2) show ?thesis by (auto simp: same_rest_def ch_emit_def)
  next
    case False
    then have d: "Charger_DisableReasonClear e cd_zero (?set c) = Some d"
      using assms(1) unfolding charger_SetFastCurrent_def
      by (auto simp: configure_Some bind_eq_Some_conv Let_def set_current_def split: if_splits)
    have core: "ch_core (?set c)" using False fc by (intro configure_current_core assms(2)) auto
    have "fast_current (?set c) \<noteq> 0" using False fc(4) by simp
    then show ?thesis using clear_spec [OF d core] False by (auto simp: same_rest_def ch_emit_def)
  qed
qed

lemma update_current_spec:
  assumes "Charger_UpdateCurrent e c = Some d" "ch_core c" "max_supported_current c = 500"
    "disable_reason c AND cd_zero \<noteq> 0 \<longleftrightarrow> fast_current c = 0"
  shows "ch_core d \<and> fast_current d = min (int (ce_region_current e)) 200 \<and> same_rest (c\<lparr>fast_current := fast_current d\<rparr>) d \<and>
    (disable_reason d AND cd_zero \<noteq> 0 \<longleftrightarrow> fast_current d = 0) \<and>
    (\<forall>f. cd_zero AND f = 0 \<and> (cd_charged AND f = 0 \<or> fast_current d \<noteq> 0) \<longrightarrow> disable_reason d AND f = disable_reason c AND f)"
proof (cases "fast_current c = min (int (ce_region_current e)) 500")
  case True
  then have "d = c" using assms(1,3) by (simp add: Charger_UpdateCurrent_def Let_def)
  with True assms show ?thesis by (auto simp: same_rest_def ch_core_def)
next
  case False
  let ?m = "min (int (ce_region_current e)) 500"
  have "charger_SetFastCurrent e ?m c = Some d"
    using assms(1,3) False by (simp add: Charger_UpdateCurrent_def Let_def)
  note s = set_fast_current_spec [OF this assms(2)]
  have m: "0 \<le> ?m" "set_current ?m = min (int (ce_region_current e)) 200" "?m = 0 \<longleftrightarrow> min (int (ce_region_current e)) 200 = 0"
    using assms by (auto simp: set_current_def)
  have f: "(x OR cd_zero) AND f = x AND f" "(x AND NOT cd_zero) AND f = x AND f" if "cd_zero AND f = 0" for x f
    using flag_other [OF that] by auto
  from s [OF m(1)] show ?thesis unfolding m(2)
    by (auto simp: f with_simps reasons_with_and flag_set_self flag_clear_self m(3) simp del: min_def)
qed

section \<open>Every operation keeps the invariant\<close>

datatype charger_op = Op_Charger_Message charger_msg | Op_UpdateCurrent | Op_ForceDisable | Op_RestoreState
  | Op_Timeout_Add | Op_Timeout_Clear | Op_Charged_Add | Op_Charged_Clear
  | Op_Charger_Register task | Op_Charger_Unregister task | Op_ForceAllowPowerOff bool | Op_DisallowDormant bool
  | Op_TestMode bool | Op_TestConnected bool | Op_TestStatus charger_status

text \<open>The calls of the battery region (timeout reason, current), of the power manager (request), of the headset state machine (charged
  reason) and of test code, and the messages. Delivering a message the monitor sends to itself takes it from the queue.\<close>

fun charger_do :: "charger_env \<times> charger_op \<Rightarrow> charger \<Rightarrow> charger option" where
  "charger_do (e, Op_Charger_Message m) c =
     charger_HandleMessage e m
       (if m = CHARGER_INTERNAL_RE_ENABLE_TIMEOUT then c\<lparr>re_enable_pending := False\<rparr>
        else if m = CHARGER_INTERNAL_DISABLE_AFTER_CHARGED then c\<lparr>disable_after_charged_pending := False\<rparr> else c)"
| "charger_do (e, Op_UpdateCurrent) c = Charger_UpdateCurrent e c"
| "charger_do (e, Op_ForceDisable) c = Charger_ForceDisable e c"
| "charger_do (e, Op_RestoreState) c = Charger_RestoreState e c"
| "charger_do (e, Op_Timeout_Add) c = Charger_DisableReasonAdd e cd_timeout c"
| "charger_do (e, Op_Timeout_Clear) c = Charger_DisableReasonClear e cd_timeout c"
| "charger_do (e, Op_Charged_Add) c = Charger_DisableReasonAdd e cd_charged c"
| "charger_do (e, Op_Charged_Clear) c = Charger_DisableReasonClear e cd_charged c"
| "charger_do (e, Op_Charger_Register t) c = Some (snd (Charger_ClientRegister t c))"
| "charger_do (e, Op_Charger_Unregister t) c = Charger_ClientUnregister t c"
| "charger_do (e, Op_ForceAllowPowerOff b) c = Some (Charger_ForceAllowPowerOff b c)"
| "charger_do (e, Op_DisallowDormant b) c = Some (Charger_DisallowDormant b c)"
| "charger_do (e, Op_TestMode b) c = Charger_TestModeControl e b c"
| "charger_do (e, Op_TestConnected b) c = Charger_TestChargerConnected e b c"
| "charger_do (e, Op_TestStatus st) c = Charger_TestChargerStatus e st c"

text \<open>A step that leaves the current and the connection alone and treats the three reasons of the invariant as it should.\<close>

lemma inv_step:
  assumes "ch_inv c" "ch_core d" "same_rest c d" "disable_reason d AND cd_unplugged = disable_reason c AND cd_unplugged"
    "disable_reason d AND cd_zero = disable_reason c AND cd_zero" "disable_reason d AND cd_error = disable_reason c AND cd_error"
  shows "ch_inv d"
  using assms by (simp add: ch_inv_def same_rest_def)

lemma add_inv:
  assumes "Charger_DisableReasonAdd e r c = Some d" "ch_inv c" "r \<in> {cd_timeout, cd_request, cd_charged}"
  shows "ch_inv d"
proof -
  have core: "ch_core c" using assms(2) by (simp add: ch_inv_def)
  from add_spec [OF assms(1) core] assms(3) show ?thesis by (intro inv_step [OF assms(2)]) (auto simp: with_simps reason_simps)
qed

lemma clear_inv:
  assumes "Charger_DisableReasonClear e r c = Some d" "ch_inv c" "r \<in> {cd_timeout, cd_request, cd_charged}"
  shows "ch_inv d"
proof -
  have core: "ch_core c" using assms(2) by (simp add: ch_inv_def)
  have "r AND cd_zero = 0" using assms(3) by (auto simp: reasons_disjoint)
  with clear_spec [OF assms(1) core] assms(3) show ?thesis by (intro inv_step [OF assms(2)]) (auto simp: reason_simps)
qed

lemma emit_inv: "silent_calls cs \<Longrightarrow> ch_inv (ch_emit cs c) = ch_inv c"
  using emit_core [of cs c] by (simp add: ch_inv_def ch_emit_def)

lemma update_current_inv:
  assumes "Charger_UpdateCurrent e c = Some d" "ch_inv c"
  shows "ch_inv d"
  using update_current_spec [OF assms(1)] assms(2) reasons_disjoint(9,10,13,15) by (simp add: ch_inv_def same_rest_def)

lemma re_enable_inv:
  assumes "Charger_DisableReasonClear e cd_error (c\<lparr>re_enable_pending := False\<rparr>) = Some d" "ch_inv c"
  shows "ch_inv d"
proof -
  have "ch_core (c\<lparr>re_enable_pending := False\<rparr>)" using assms(2) by (simp add: ch_inv_def ch_core_def)
  from clear_spec [OF assms(1) this] assms(2) show ?thesis by (simp add: ch_inv_def reason_simps same_rest_def)
qed

lemma error_inv:
  assumes "Charger_Error e c = Some d" "ch_inv c"
  shows "ch_inv d"
proof -
  obtain d1 where d1: "Charger_DisableReasonAdd e cd_error c = Some d1" "d = d1\<lparr>re_enable_pending := True\<rparr>"
    using assms(1) by (auto simp: Charger_Error_def)
  have "ch_core c" using assms(2) by (simp add: ch_inv_def)
  from add_spec [OF d1(1) this] assms(2) show ?thesis
    by (auto simp: d1(2) ch_inv_def with_simps reason_simps same_rest_def ch_core_def)
qed

lemma status_irrelevant: "ch_inv (c\<lparr>ch_status := st\<rparr>) = ch_inv c" "ch_inv (c\<lparr>disable_after_charged_pending := b\<rparr>) = ch_inv c"
  by (simp_all add: ch_inv_def ch_core_def)

lemma notify_inv: "ch_inv (Charger_NotifyClients n c) = ch_inv c"
  by (auto simp: Charger_NotifyClients_def emit_inv split: option.split)

lemma change_inv: "ch_inv (Charger_HandleChange c) = ch_inv c"
  using emit_core [of "[PsuConfigure_Vchg]" "c\<lparr>power_source_vbat := False\<rparr>"]
  by (auto simp: Charger_HandleChange_def ch_inv_def ch_core_def ch_emit_def silent_calls_def)

text \<open>At start-up the connection is not known yet: 2, neither yes nor no.\<close>

lemma update_connected_new:
  assumes "Charger_UpdateConnected e b c = Some d" "ch_inv (c\<lparr>is_connected := k\<rparr>)" and new: "is_connected c \<noteq> (if b then 1 else 0)"
  shows "ch_inv d"
proof -
  let ?c1 = "c\<lparr>is_connected := if b then 1 else 0\<rparr>"
  have core: "ch_core ?c1" using assms(2) by (simp add: ch_inv_def ch_core_def)
  show ?thesis
  proof (cases b)
    case True
    then obtain c2 c3 where u: "Charger_UpdateCurrent e ?c1 = Some c2" "Charger_DisableReasonClear e cd_unplugged c2 = Some c3"
      and d: "d = Charger_NotifyClients Notice_ATTACHED (Charger_HandleChange c3)"
      using assms(1) new by (auto simp: Charger_UpdateConnected_def Let_def bind_eq_Some_conv)
    note s1 = update_current_spec [OF u(1) core]
    with assms(2) have "ch_core c2" by (simp add: ch_inv_def)
    note s2 = clear_spec [OF u(2) this]
    from s1 s2 assms(2) True have "ch_inv c3" by (simp add: ch_inv_def same_rest_def reason_simps)
    then show ?thesis by (simp add: d notify_inv change_inv)
  next
    case False
    then obtain c2 c3 c4 where u: "Charger_DisableReasonAdd e cd_unplugged ?c1 = Some c2" "Charger_DisableReasonClear e cd_timeout c2 = Some c3"
      "Charger_DisableReasonClear e cd_charged (c3\<lparr>disable_after_charged_pending := False\<rparr>) = Some c4"
      and d: "d = Charger_NotifyClients Notice_DETACHED (Charger_HandleChange c4)"
      using assms(1) new by (auto simp: Charger_UpdateConnected_def Let_def bind_eq_Some_conv)
    note s1 = add_spec [OF u(1) core]
    then have "ch_inv c2" using assms(2) False by (simp add: ch_inv_def same_rest_def with_simps reason_simps)
    then have "ch_inv c3" by (rule clear_inv [OF u(2)]) simp
    then have "ch_inv c4" using clear_inv [OF u(3)] by (simp add: status_irrelevant)
    then show ?thesis by (simp add: d notify_inv change_inv)
  qed
qed

lemma update_connected_inv:
  assumes "Charger_UpdateConnected e b c = Some d" "ch_inv c"
  shows "ch_inv d"
proof (cases "is_connected c = (if b then 1 else 0)")
  case True
  with assms show ?thesis by (auto simp: Charger_UpdateConnected_def Let_def)
next
  case False
  with assms update_connected_new [of e b c d "is_connected c"] show ?thesis by simp
qed

lemma on_status_inv:
  assumes "charger_on_status e c = Some d" "ch_inv c"
  shows "ch_inv d"
proof -
  have "\<not> appConfigChargerInternalMaxCurrent < fast_current c" using assms(2) by (simp add: ch_inv_def ch_core_def)
  then show ?thesis using assms error_inv [of e c d]
    by (cases "ch_status c") (auto simp: charger_on_status_def status_irrelevant)
qed

lemma status_changed_inv:
  assumes "Charger_StatusChanged e st c = Some d" "ch_inv c"
  shows "ch_inv d"
proof -
  obtain c1 where c1: "charger_on_status e (c\<lparr>ch_status := st, disable_after_charged_pending := False\<rparr>) = Some c1"
    "d = (if ch_status c \<noteq> ch_status c1
          then ch_emit [Charger_Inform (appChargerCurrentContext c1)] (Charger_NotifyClients (charger_StatusMessageId (ch_status c1)) c1)
          else c1)"
    using assms(1) by (auto simp: Charger_StatusChanged_def)
  have "ch_inv c1" using on_status_inv [OF c1(1)] assms(2) by (simp add: status_irrelevant)
  then show ?thesis by (simp add: c1(2) emit_inv notify_inv silent_calls_def)
qed

lemma record_irrelevant:
  "ch_inv (c\<lparr>test_mode := b\<rparr>) = ch_inv c" "ch_inv (c\<lparr>force_allow_power_off := b\<rparr>) = ch_inv c"
  "ch_inv (c\<lparr>disallow_dormant := b\<rparr>) = ch_inv c" "ch_inv (c\<lparr>charger_client_tasks := ts\<rparr>) = ch_inv c"
  by (simp_all add: ch_inv_def ch_core_def)

lemma level_inv:
  assumes "Charger_HandleBatteryLevelUpdate e v c = Some d" "ch_inv c"
  shows "ch_inv d"
  using assms clear_inv [of e cd_charged c d] by (auto simp: Charger_HandleBatteryLevelUpdate_def split: if_splits)

lemma ch_message_inv:
  assumes "charger_do (e, Op_Charger_Message m) c = Some d" "ch_inv c"
  shows "ch_inv d"
  using assms add_inv [of e cd_timeout c d] add_inv [of e cd_charged "c\<lparr>disable_after_charged_pending := False\<rparr>" d]
    level_inv [of e _ c d] status_irrelevant(2) [of False c] re_enable_inv [of e c d] update_connected_inv [of e _ c d] status_changed_inv [of e _ c d]
  by (cases m) (auto split: if_splits)

lemma restore_inv:
  assumes "Charger_RestoreState e c = Some d" "ch_inv c"
  shows "ch_inv d"
proof -
  obtain c1 c2 where c: "Charger_DisableReasonClear e cd_request c = Some c1"
    "Charger_DisableReasonClear e cd_timeout (ch_emit [Charging_Timer_Stop] c1) = Some c2" "d = ch_emit [Charging_Timer_Start] c2"
    using assms(1) by (auto simp: Charger_RestoreState_def forced_restart_charging_timer_def bind_eq_Some_conv)
  have "ch_inv c1" using clear_inv [OF c(1) assms(2)] by simp
  then have "ch_inv c2" using clear_inv [OF c(2)] by (simp add: emit_inv silent_calls_def)
  then show ?thesis by (simp add: c(3) emit_inv silent_calls_def)
qed

lemma force_disable_inv:
  assumes "Charger_ForceDisable e c = Some d" "ch_inv c"
  shows "ch_inv d"
  using assms add_inv [of e cd_request c] by (auto simp: Charger_ForceDisable_def emit_inv silent_calls_def)

lemma test_mode_inv:
  assumes "Charger_TestModeControl e b c = Some d" "ch_inv c"
  shows "ch_inv d"
  using assms update_connected_inv [of e _ "c\<lparr>test_mode := False\<rparr>" d]
  by (auto simp: Charger_TestModeControl_def Let_def record_irrelevant split: if_splits)

lemma register_inv: "ch_inv (snd (Charger_ClientRegister t c)) = ch_inv c"
  by (simp add: Charger_ClientRegister_def Let_def emit_inv silent_calls_def record_irrelevant)

lemma charger_keeps:
  assumes "ch_inv c" "charger_do x c = Some d"
  shows "ch_inv d"
proof (cases x)
  case (Pair e op)
  note do = assms(2) [unfolded Pair]
  show ?thesis
  proof (cases op)
    case (Op_Charger_Message m)
    with do ch_message_inv [of e m c d] assms(1) show ?thesis by simp
  next
    case (Op_Charger_Register t)
    with do register_inv [of t c] assms(1) show ?thesis by auto
  next
    case (Op_Charger_Unregister t)
    with do assms(1) show ?thesis by (auto simp: Charger_ClientUnregister_def record_irrelevant split: option.splits)
  qed (use do assms(1) update_current_inv [of e c d] force_disable_inv [of e c d] restore_inv [of e c d] add_inv [of e _ c d]
      clear_inv [of e _ c d] test_mode_inv [of e _ c d] update_connected_inv [of e _ c d] status_changed_inv [of e _ c d] in
      \<open>auto simp: Charger_ForceAllowPowerOff_def Charger_DisallowDormant_def Charger_TestChargerConnected_def
        Charger_TestChargerStatus_def record_irrelevant split: if_splits\<close>)
qed

text \<open>No operation stops the program when the hardware accepts the commands; only removing a client before the first one has
  registered does.\<close>

definition accepting :: "charger_env \<Rightarrow> bool" where
  "accepting e \<longleftrightarrow> (\<forall>k v. ce_accepts e k v)"

definition charger_allowed :: "charger_env \<times> charger_op \<Rightarrow> bool" where
  "charger_allowed x \<longleftrightarrow> accepting (fst x) \<and> (case snd x of Op_Charger_Unregister t \<Rightarrow> False | _ \<Rightarrow> True)"

lemma total_configure: "accepting e \<Longrightarrow> ch_configure e k v c \<noteq> None"
  by (simp add: ch_configure_def accepting_def)

lemma bind_total: "x \<noteq> None \<Longrightarrow> (\<And>y. f y \<noteq> None) \<Longrightarrow> Option.bind x f \<noteq> None"
  by (cases x) simp_all

lemma total_clear: "accepting e \<Longrightarrow> Charger_DisableReasonClear e r c \<noteq> None"
  by (simp add: Charger_DisableReasonClear_def Charger_Enable_def ch_configure_def Let_def accepting_def)

lemma total_add: "accepting e \<Longrightarrow> Charger_DisableReasonAdd e r c \<noteq> None"
  unfolding Charger_DisableReasonAdd_def using total_clear [of e]
  by (intro bind_total) (simp_all add: Charger_Disable_def ch_configure_def accepting_def)

lemmas total_reasons = total_add total_clear

lemma total_current:
  assumes "accepting e"
  shows "charger_SetFastCurrent e v c \<noteq> None" "Charger_UpdateCurrent e c \<noteq> None"
proof -
  show "charger_SetFastCurrent e v c \<noteq> None" for v
    unfolding charger_SetFastCurrent_def Let_def
  proof (intro bind_total)
    show "(if v = 0 then Charger_DisableReasonAdd e cd_zero c else Some c) \<noteq> None" using total_reasons [OF assms] by simp
  next
    fix c1 show "ch_configure e k w c1 \<noteq> None" for k w by (rule total_configure [OF assms])
  next
    fix c2 show "(if w \<noteq> 0 then Charger_DisableReasonClear e cd_zero (c2\<lparr>fast_current := w\<rparr>) else Some (c2\<lparr>fast_current := w\<rparr>)) \<noteq> None" for w :: int
      using total_reasons [OF assms] by simp
  qed
  then show "Charger_UpdateCurrent e c \<noteq> None" by (simp add: Charger_UpdateCurrent_def Let_def)
qed

lemma total_connected:
  assumes "accepting e"
  shows "Charger_UpdateConnected e b c \<noteq> None"
  using bind_total [OF total_current(2) [OF assms] total_reasons(2) [OF assms]]
    bind_total [OF total_reasons(1) [OF assms] bind_total [OF total_reasons(2) [OF assms] total_reasons(2) [OF assms]]]
  by (simp add: Charger_UpdateConnected_def Let_def del: not_None_eq)

lemma total_status:
  assumes "accepting e"
  shows "Charger_StatusChanged e st c \<noteq> None"
proof -
  have "Charger_Error e c \<noteq> None" for c using total_reasons [OF assms] by (simp add: Charger_Error_def)
  then have "charger_on_status e c \<noteq> None" for c
    using bind_total [OF total_current(2) [OF assms] bind_total [OF total_reasons(1) [OF assms] total_reasons(2) [OF assms]]]
    by (simp add: charger_on_status_def del: not_None_eq split: charger_status.split)
  then show ?thesis by (simp add: Charger_StatusChanged_def)
qed

lemma charger_total:
  assumes "charger_allowed x"
  shows "charger_do x c \<noteq> None"
proof (cases x)
  case (Pair e op)
  then have a: "accepting e" using assms by (simp add: charger_allowed_def)
  have level: "Charger_HandleBatteryLevelUpdate e v c \<noteq> None" for v
    using total_clear [OF a] by (simp add: Charger_HandleBatteryLevelUpdate_def)
  note t = total_reasons [OF a] total_current [OF a] total_connected [OF a] total_status [OF a] level
  show ?thesis
  proof (cases op)
    case (Op_Charger_Message m)
    with t Pair show ?thesis by (cases m) auto
  next
    case (Op_Charger_Unregister t)
    with assms Pair show ?thesis by (simp add: charger_allowed_def)
  qed (use Pair t in \<open>auto simp: Charger_ForceDisable_def Charger_RestoreState_def forced_restart_charging_timer_def bind_eq_None_conv
      Charger_TestModeControl_def Charger_TestChargerConnected_def Charger_TestChargerStatus_def Let_def\<close>)
qed

interpretation ch: kept_invariant charger_do ch_inv
  by unfold_locales (rule charger_keeps)

interpretation ch_up: safe_machine charger_do ch_inv charger_allowed
  by unfold_locales (rule charger_total)

section \<open>Start-up\<close>

lemma init_config:
  assumes "Option.bind (Charger_DisableReasonAdd e cd_unplugged charger_zero) (charger_ConfigureCharger e) = Some c"
  shows "ch_inv (c\<lparr>is_connected := 0\<rparr>) \<and> is_connected c = 2"
proof -
  obtain out where "c = charger_zero\<lparr>disable_reason := cd_unplugged OR cd_zero, ch_out := out\<rparr>"
    "out = [ChargerConfigure CHARGER_ENABLE 0, ChargerConfigure CHARGER_TRICKLE_CURRENT 10, ChargerConfigure CHARGER_PRE_CURRENT 20,
       ChargerConfigure CHARGER_ITERM_CTRL 10, ChargerConfigure CHARGER_FAST_CURRENT 0, ChargerConfigure CHARGER_PRE_FAST_THRESHOLD 3000,
       ChargerConfigure CHARGER_TERM_VOLTAGE 4200, ChargerConfigure CHARGER_STANDBY_FAST_HYSTERESIS 250,
       ChargerConfigure CHARGER_STATE_CHANGE_DEBOUNCE 128]"
    using assms by (auto simp: Charger_DisableReasonAdd_def charger_zero_def Charger_Disable_def charger_ConfigureCharger_def
      charger_SetFastCurrent_def configure_Some bind_eq_Some_conv ch_emit_def Let_def appConfigChargerTerminationVoltage_def
      Charger_DisableReasonClear_def charger_defs)
  moreover have "always_ok out" "charger_hw out = (False, 0)" unfolding calculation(2) by code_simp+
  ultimately show ?thesis by (simp add: ch_inv_def ch_core_def charger_zero_def reason_simps flag_or_zero)
qed

lemma charger_init_inv:
  assumes "Charger_Init e = Some c"
  shows "ch_inv c"
proof -
  obtain c1 c2 c3 where c: "Charger_DisableReasonAdd e cd_unplugged charger_zero = Some c1" "charger_ConfigureCharger e c1 = Some c2"
    "Charger_UpdateConnected e (Charger_Status e c2 \<noteq> NO_POWER) c2 = Some c3" "c = ch_emit [Battery_Register_Voltage 5] c3"
    using assms by (auto simp: Charger_Init_def bind_eq_Some_conv)
  then have "ch_inv (c2\<lparr>is_connected := 0\<rparr>) \<and> is_connected c2 = 2" by (intro init_config [of e]) simp
  then show ?thesis using update_connected_new [OF c(3), of 0] by (simp add: c(4) emit_inv silent_calls_def split: if_splits)
qed

section \<open>Guarantees\<close>

text \<open>C9: Charging is safe after every single command. Whatever calls and messages follow start-up, in any order and with any answers of
  the hardware: after each command sent, the charger is enabled only with a current between 1 and 200 mA configured, never with the
  current of zero the code guards against; the flags kept in memory are the state of the hardware; and it is enabled exactly when
  no reason speaks against it, hence only with the cable connected.\<close>

theorem charger_hardware_safe:
  assumes "Charger_Init e = Some c0" and "run charger_do xs c0 = Some c"
  shows "(\<forall>n\<le>length (ch_out c). fst (charger_hw (take n (ch_out c))) \<longrightarrow>
      0 < snd (charger_hw (take n (ch_out c))) \<and> snd (charger_hw (take n (ch_out c))) \<le> 200) \<and>
    charger_hw (ch_out c) = (Charger_IsEnabled c, fast_current c) \<and> (Charger_IsEnabled c \<longleftrightarrow> disable_reason c = 0) \<and>
    (Charger_IsEnabled c \<longrightarrow> Charger_IsConnected c)"
proof (intro conjI)
  have i: "ch_inv c" by (rule ch.run_keeps [OF charger_init_inv [OF assms(1)] assms(2)])
  then show "\<forall>n\<le>length (ch_out c). fst (charger_hw (take n (ch_out c))) \<longrightarrow>
      0 < snd (charger_hw (take n (ch_out c))) \<and> snd (charger_hw (take n (ch_out c))) \<le> 200"
    by (simp add: ch_inv_def ch_core_def always_iff hw_ok_def)
  show "charger_hw (ch_out c) = (Charger_IsEnabled c, fast_current c)" "Charger_IsEnabled c \<longleftrightarrow> disable_reason c = 0"
    using i by (simp_all add: ch_inv_def ch_core_def Charger_IsEnabled_def)
  show "Charger_IsEnabled c \<longrightarrow> Charger_IsConnected c"
    using i by (auto simp: ch_inv_def ch_core_def Charger_IsEnabled_def Charger_IsConnected_def)
qed

definition demo_charger_env :: "nat \<Rightarrow> charger_env" where
  "demo_charger_env i = \<lparr>ce_accepts = (\<lambda>k v. True), ce_status = STANDBY, ce_region_current = i\<rparr>"

definition demo_charger :: "nat \<Rightarrow> (charger_env \<times> charger_op) list \<Rightarrow> (charger \<times> charger) option" where
  "demo_charger i xs = Option.bind (Charger_Init (demo_charger_env i)) (\<lambda>c0. map_option (Pair c0) (run charger_do xs c0))"

definition demo_sat :: "(charger \<Rightarrow> bool) \<Rightarrow> (charger \<times> charger) option \<Rightarrow> bool" where
  "demo_sat P x = (case x of None \<Rightarrow> False | Some (c0, c) \<Rightarrow> P c)"

lemma demo_obtain:
  assumes "demo_sat P (demo_charger i xs)"
  obtains c0 c where "Charger_Init (demo_charger_env i) = Some c0" "run charger_do xs c0 = Some c" "P c"
  using assms by (auto simp: demo_sat_def demo_charger_def bind_eq_Some_conv split: option.splits)

theorem charger_hardware_safe_witness:
  "\<exists>c0 c. Charger_Init (demo_charger_env 0) = Some c0 \<and> run charger_do [(demo_charger_env 500, Op_UpdateCurrent)] c0 = Some c \<and>
     Charger_IsConnected c \<and> charger_hw (ch_out c) = (True, 200)"
proof -
  have "demo_sat (\<lambda>c. Charger_IsEnabled c \<and> fast_current c = 200) (demo_charger 0 [(demo_charger_env 500, Op_UpdateCurrent)])" by code_simp
  then obtain c0 c where c: "Charger_Init (demo_charger_env 0) = Some c0" "run charger_do [(demo_charger_env 500, Op_UpdateCurrent)] c0 = Some c"
    "Charger_IsEnabled c \<and> fast_current c = 200" by (rule demo_obtain)
  have "Charger_IsConnected c" "charger_hw (ch_out c) = (True, 200)" using charger_hardware_safe [OF c(1,2)] c(3) by simp_all
  with c(1,2) show ?thesis by blast
qed

text \<open>C20: An error does not end charging. Whenever the reason of an error is set, the message that lifts it is pending; delivering it
  succeeds, lifts this reason and no other, and turns the charger on again if it was the only one.\<close>

theorem charger_recovers_from_error:
  assumes "Charger_Init e0 = Some c0" and "run charger_do xs c0 = Some c" and "disable_reason c AND cd_error \<noteq> 0"
    and "\<forall>k v. ce_accepts e k v"
  shows "re_enable_pending c \<and> (\<exists>d. charger_do (e, Op_Charger_Message CHARGER_INTERNAL_RE_ENABLE_TIMEOUT) c = Some d \<and>
    disable_reason d = disable_reason c AND NOT cd_error \<and> (Charger_IsEnabled d \<longleftrightarrow> disable_reason c AND NOT cd_error = 0))"
proof -
  have i: "ch_inv c" by (rule ch.run_keeps [OF charger_init_inv [OF assms(1)] assms(2)])
  let ?c = "c\<lparr>re_enable_pending := False\<rparr>"
  have "Charger_DisableReasonClear e cd_error ?c \<noteq> None" using assms(4) by (intro total_reasons) (simp add: accepting_def)
  then obtain d where d: "Charger_DisableReasonClear e cd_error ?c = Some d" by blast
  moreover have "ch_core ?c" using i by (simp add: ch_inv_def ch_core_def)
  ultimately have "ch_core d \<and> disable_reason d = disable_reason c AND NOT cd_error"
    using clear_spec [OF d] by (simp add: reasons_disjoint)
  with i d assms(3) show ?thesis by (auto simp: ch_inv_def ch_core_def Charger_IsEnabled_def)
qed

theorem charger_recovers_from_error_witness:
  "\<exists>c0 c d. Charger_Init (demo_charger_env 20) = Some c0 \<and>
     run charger_do [(demo_charger_env 20, Op_Charger_Message (MESSAGE_CHARGER_STATUS HEADROOM_ERROR))] c0 = Some c \<and>
     \<not> Charger_IsEnabled c \<and>
     charger_do (demo_charger_env 20, Op_Charger_Message CHARGER_INTERNAL_RE_ENABLE_TIMEOUT) c = Some d \<and> Charger_IsEnabled d"
proof -
  have "demo_sat (\<lambda>c. \<not> Charger_IsEnabled c \<and> disable_reason c = cd_error)
    (demo_charger 20 [(demo_charger_env 20, Op_Charger_Message (MESSAGE_CHARGER_STATUS HEADROOM_ERROR))])" by code_simp
  then obtain c0 c where c: "Charger_Init (demo_charger_env 20) = Some c0"
     "run charger_do [(demo_charger_env 20, Op_Charger_Message (MESSAGE_CHARGER_STATUS HEADROOM_ERROR))] c0 = Some c"
     "\<not> Charger_IsEnabled c \<and> disable_reason c = cd_error" by (rule demo_obtain)
  have "\<exists>d. charger_do (demo_charger_env 20, Op_Charger_Message CHARGER_INTERNAL_RE_ENABLE_TIMEOUT) c = Some d \<and> Charger_IsEnabled d"
    using charger_recovers_from_error [OF c(1,2), of "demo_charger_env 20"] c(3) by (auto simp: demo_charger_env_def)
  with c show ?thesis by blast
qed

section \<open>A completed charge\<close>








end
