(* ===== verification/Temperature.thy ===== *)
theory Temperature
  imports Task_List Sample_Window "HOL-Library.Multiset"
begin

text \<open>
  The battery temperature (\<^verbatim>\<open>src/adk/src/domains/sensor/temperature/temperature.c\<close>) with the table of the helmet build
  (\<^verbatim>\<open>headset_temperature_config.c\<close>): conversion of a thermistor voltage, median filter, moving average, limits of the clients, and the
  cycle of measurements. Reading outside a table or an array is \<open>None\<close>. The two messages the module sends to itself are counted
  in the state; \<open>vref\<close> is the reference constant of the chip.
\<close>

section \<open>Conversion\<close>

record temperature_lookup =
  tl_voltage :: int
  tl_temperature :: int

definition tlk :: "int \<times> int \<Rightarrow> temperature_lookup" where
  "tlk x = \<lparr>tl_voltage = fst x, tl_temperature = snd x\<rparr>"

definition s8 :: "int \<Rightarrow> int" where
  "s8 x = (x + 128) mod 256 - 128"

definition TEMPERATURE_MIN :: int where
  "TEMPERATURE_MIN = - 40"

definition TEMPERATURE_MAX :: int where
  "TEMPERATURE_MAX = 85"

function temperature_forward :: "temperature_lookup list \<Rightarrow> int \<Rightarrow> nat \<Rightarrow> int" where
  "temperature_forward tbl v index =
     (if index < length tbl
      then (if v \<ge> tl_voltage (tbl ! index) then tl_temperature (tbl ! index) else temperature_forward tbl v (index + 1))
      else TEMPERATURE_MAX)"
  by auto

termination temperature_forward
  by (relation "measure (\<lambda>(tbl, v, i). length tbl - i)") auto

declare temperature_forward.simps [simp del]

fun temperature_backward :: "temperature_lookup list \<Rightarrow> int \<Rightarrow> int \<Rightarrow> nat \<Rightarrow> int" where
  "temperature_backward tbl v prev_mv 0 = TEMPERATURE_MIN"
| "temperature_backward tbl v prev_mv (Suc index) =
     (let this_mv = prev_mv; prev_mv = tl_voltage (tbl ! index)
      in if v \<ge> this_mv \<and> v < prev_mv then tl_temperature (tbl ! Suc index) else temperature_backward tbl v prev_mv index)"

definition temperature_GetTemperature :: "temperature_lookup list \<Rightarrow> int \<Rightarrow> int \<Rightarrow> int option" where
  "temperature_GetTemperature tbl v prev_temperature =
     (let i = prev_temperature - TEMPERATURE_MIN
      in if 0 \<le> i \<and> nat i < length tbl
         then let prev_mv = tl_voltage (tbl ! nat i)
              in Some (if v < prev_mv then temperature_forward tbl v (nat i + 1) else temperature_backward tbl v prev_mv (nat i))
         else None)"

section \<open>Filters\<close>

definition exchange_step :: "nat \<Rightarrow> nat \<Rightarrow> int list \<Rightarrow> int list" where
  "exchange_step j k l = (if l ! j > l ! k then l[j := l ! k, k := l ! j] else l)"

definition exchange_sort :: "int list \<Rightarrow> int list" where
  "exchange_sort l = fold (\<lambda>j. fold (exchange_step j) [j + 1..<length l]) [0..<length l] l"

text \<open>The array has \<open>w\<close> places, of which the first \<^verbatim>\<open>index\<close> hold earlier readings; the result is the median and the next array and index.\<close>

definition temperature_MedianFiltering :: "nat \<Rightarrow> int \<Rightarrow> int list \<times> nat \<Rightarrow> int \<times> int list \<times> nat" where
  "temperature_MedianFiltering w reading m = (case m of (arr, index) \<Rightarrow>
     let arr1 = arr[index := reading];
         median = exchange_sort (take (index + 1) arr1) ! (index div 2)
     in if index = w - 1 then (median, tl arr1 @ [0], index) else (median, arr1, index + 1))"

definition appConfigTemperatureMedianFilterWindow :: nat where
  "appConfigTemperatureMedianFilterWindow = 5"

definition appConfigTemperatureSmoothingWeight :: int where
  "appConfigTemperatureSmoothingWeight = 50"

definition temperature_ExponentialAverage :: "bool \<Rightarrow> int \<Rightarrow> int \<Rightarrow> int \<Rightarrow> int" where
  "temperature_ExponentialAverage first weight last_ema reading =
     (if first then reading * 100 else s32 (weight * reading + (s32 ((100 - weight) * last_ema)) sdiv 100))"

section \<open>State\<close>

datatype temperature_state = TEMPERATURE_STATE_WITHIN_LIMITS | TEMPERATURE_STATE_ABOVE_UPPER_LIMIT
  | TEMPERATURE_STATE_BELOW_LOWER_LIMIT | TEMPERATURE_STATE_UNKNOWN

datatype temperature_call =
    Temperature_Ind task temperature_state
  | Thermistor_Pio bool
  | Adc_Read_Vref
  | Adc_Read_Thermistor

record temp_client =
  tc_task :: task
  tc_lower :: int
  tc_upper :: int
  tc_state :: temperature_state

record temperature_data =
  mf_arr :: "int list"
  mf_index :: nat
  instantaneous :: int
  last_ema :: int
  current_ema :: int
  ema_first :: bool
  fake_battery_temperature :: int
  battery_temp_test_on :: bool
  vref_raw :: int
  temp_clients :: "temp_client list"
  trigger_pending :: nat
  retrigger_pending :: nat
  temp_out :: "temperature_call list"

definition INVALID_TEMPERATURE :: int where
  "INVALID_TEMPERATURE = 100"

definition temp_emit :: "temperature_call list \<Rightarrow> temperature_data \<Rightarrow> temperature_data" where
  "temp_emit cs s = s\<lparr>temp_out := temp_out s @ cs\<rparr>"

definition appTemperatureGetAverage :: "temperature_data \<Rightarrow> int" where
  "appTemperatureGetAverage s =
     (if fake_battery_temperature s \<noteq> INVALID_TEMPERATURE then fake_battery_temperature s else s8 (current_ema s sdiv 100))"

definition appTemperatureGetInstantaneous :: "temperature_data \<Rightarrow> int" where
  "appTemperatureGetInstantaneous s =
     (if fake_battery_temperature s \<noteq> INVALID_TEMPERATURE then fake_battery_temperature s else instantaneous s)"

definition limit_state :: "int \<Rightarrow> int \<Rightarrow> int \<Rightarrow> temperature_state" where
  "limit_state lower upper t = (if t \<ge> upper then TEMPERATURE_STATE_ABOVE_UPPER_LIMIT
     else if t \<le> lower then TEMPERATURE_STATE_BELOW_LOWER_LIMIT else TEMPERATURE_STATE_WITHIN_LIMITS)"

definition appTemperatureServiceClient :: "int \<Rightarrow> temp_client \<Rightarrow> temperature_call list \<times> temp_client" where
  "appTemperatureServiceClient t c =
     (let next_state = limit_state (tc_lower c) (tc_upper c) t
      in if next_state \<noteq> tc_state c then ([Temperature_Ind (tc_task c) next_state], c\<lparr>tc_state := next_state\<rparr>) else ([], c))"

definition appTemperatureServiceClients :: "temperature_data \<Rightarrow> temperature_data" where
  "appTemperatureServiceClients s =
     (let rs = map (appTemperatureServiceClient (appTemperatureGetAverage s)) (temp_clients s)
      in (temp_emit (concat (map fst rs)) s)\<lparr>temp_clients := map snd rs\<rparr>)"

definition handleTemperatureReading :: "int \<Rightarrow> temperature_data \<Rightarrow> temperature_data" where
  "handleTemperatureReading reading s =
     (case temperature_MedianFiltering appConfigTemperatureMedianFilterWindow reading (mf_arr s, mf_index s) of (median, arr, index) \<Rightarrow>
      appTemperatureServiceClients
        (s\<lparr>mf_arr := arr, mf_index := index, instantaneous := median, last_ema := current_ema s,
           current_ema := temperature_ExponentialAverage (ema_first s) appConfigTemperatureSmoothingWeight (current_ema s) median,
           ema_first := False\<rparr>))"

text \<open>Asking for a measurement posts the second message in case no result arrives.\<close>

definition appTemperatureSensorRequestMeasurement :: "temperature_data \<Rightarrow> temperature_data" where
  "appTemperatureSensorRequestMeasurement s =
     (temp_emit [Thermistor_Pio True, Adc_Read_Vref, Adc_Read_Thermistor] s)\<lparr>retrigger_pending := retrigger_pending s + 1\<rparr>"

datatype temp_adc_source = Src_vref_hq_buff | Src_thermistor | Src_other

definition Temperature_AdcResultHandler :: "int \<Rightarrow> temp_adc_source \<Rightarrow> int \<Rightarrow> temperature_data \<Rightarrow> int \<times> temperature_data" where
  "Temperature_AdcResultHandler vref src reading s = (case src of
     Src_vref_hq_buff \<Rightarrow> (0, s\<lparr>vref_raw := reading\<rparr>)
   | Src_thermistor \<Rightarrow> (if vref_raw s \<noteq> 0 then u16 (u32 (vref * reading) div vref_raw s) else 0, s)
   | Src_other \<Rightarrow> (0, s))"

datatype temp_msg = MEASUREMENT_TRIGGER | MEASUREMENT_RETRIGGER | Temp_Adc temp_adc_source int

definition appTemperatureHandleMessage ::
  "temperature_lookup list \<Rightarrow> int \<Rightarrow> temp_msg \<Rightarrow> temperature_data \<Rightarrow> temperature_data option" where
  "appTemperatureHandleMessage tbl vref m s = (case m of
     MEASUREMENT_TRIGGER \<Rightarrow> Some (appTemperatureSensorRequestMeasurement s)
   | MEASUREMENT_RETRIGGER \<Rightarrow> Some (appTemperatureSensorRequestMeasurement s)
   | Temp_Adc src reading \<Rightarrow>
       (if \<not> battery_temp_test_on s \<and> fake_battery_temperature s = INVALID_TEMPERATURE
        then case Temperature_AdcResultHandler vref src reading s of (voltage_mv, s1) \<Rightarrow>
          if voltage_mv \<noteq> 0
          then map_option (\<lambda>t.
              let s2 = temp_emit [Thermistor_Pio False] (handleTemperatureReading t (s1\<lparr>retrigger_pending := 0\<rparr>))
              in s2\<lparr>trigger_pending := trigger_pending s2 + 1\<rparr>)
            (temperature_GetTemperature tbl voltage_mv (instantaneous s1))
          else Some s1
        else Some s))"

section \<open>Interface\<close>

definition appTemperatureInit :: "int list \<Rightarrow> temperature_data" where
  "appTemperatureInit garbage = appTemperatureSensorRequestMeasurement
     \<lparr>mf_arr = garbage, mf_index = 0, instantaneous = 0, last_ema = 0, current_ema = 0, ema_first = True,
      fake_battery_temperature = INVALID_TEMPERATURE, battery_temp_test_on = False, vref_raw = 0, temp_clients = [],
      trigger_pending = 0, retrigger_pending = 0, temp_out = []\<rparr>"

definition appTemperatureClientRegister :: "task \<Rightarrow> int \<Rightarrow> int \<Rightarrow> temperature_data \<Rightarrow> temperature_data option" where
  "appTemperatureClientRegister t lower upper s =
     (case appTemperatureServiceClient (appTemperatureGetAverage s)
         \<lparr>tc_task = t, tc_lower = lower, tc_upper = upper, tc_state = TEMPERATURE_STATE_UNKNOWN\<rparr> of (cs, c) \<Rightarrow>
      if t \<in> tc_task ` set (temp_clients s) then None
      else Some ((temp_emit cs s)\<lparr>temp_clients := temp_clients s @ [c]\<rparr>))"

definition appTemperatureClientUnregister :: "task \<Rightarrow> temperature_data \<Rightarrow> temperature_data option" where
  "appTemperatureClientUnregister t s =
     (if t \<in> tc_task ` set (temp_clients s) then Some (s\<lparr>temp_clients := filter (\<lambda>c. tc_task c \<noteq> t) (temp_clients s)\<rparr>) else None)"

definition appTemperatureClientGetState :: "task \<Rightarrow> temperature_data \<Rightarrow> temperature_state option" where
  "appTemperatureClientGetState t s = map_option tc_state (find (\<lambda>c. tc_task c = t) (temp_clients s))"

definition appTemperatureSetFakeValue :: "int \<Rightarrow> temperature_data \<Rightarrow> temperature_data" where
  "appTemperatureSetFakeValue t s = appTemperatureServiceClients (s\<lparr>fake_battery_temperature := t\<rparr>)"

definition appTemperatureUnsetFakeValue :: "temperature_data \<Rightarrow> temperature_data" where
  "appTemperatureUnsetFakeValue s = s\<lparr>fake_battery_temperature := INVALID_TEMPERATURE, trigger_pending := trigger_pending s + 1\<rparr>"

definition appTemperatureTestInjectFakeLevel :: "int \<Rightarrow> temperature_data \<Rightarrow> temperature_data" where
  "appTemperatureTestInjectFakeLevel t s = handleTemperatureReading t (s\<lparr>battery_temp_test_on := True\<rparr>)"

definition appTemperatureResumeAdcMeasurements :: "temperature_data \<Rightarrow> temperature_data" where
  "appTemperatureResumeAdcMeasurements s = s\<lparr>battery_temp_test_on := False, trigger_pending := trigger_pending s + 1\<rparr>"

section \<open>The table of the helmet\<close>

definition headset_temperature_config_table :: "temperature_lookup list" where
  "headset_temperature_config_table = map tlk
    [(3077, -40), (3069, -39), (3061, -38), (3052, -37), (3043, -36), (3034, -35), (3024, -34), (3014, -33), (3003, -32), (2992, -31),
     (2981, -30), (2968, -29), (2956, -28), (2943, -27), (2929, -26), (2915, -25), (2900, -24), (2885, -23), (2869, -22), (2852, -21),
     (2835, -20), (2817, -19), (2799, -18), (2780, -17), (2761, -16), (2741, -15), (2720, -14), (2699, -13), (2678, -12), (2655, -11),
     (2632, -10), (2609, -9), (2585, -8), (2560, -7), (2535, -6), (2509, -5), (2483, -4), (2457, -3), (2430, -2), (2402, -1),
     (2374, 0), (2345, 1), (2317, 2), (2287, 3), (2258, 4), (2228, 5), (2198, 6), (2167, 7), (2136, 8), (2105, 9),
     (2074, 10), (2043, 11), (2011, 12), (1980, 13), (1948, 14), (1916, 15), (1884, 16), (1852, 17), (1820, 18), (1789, 19),
     (1757, 20), (1725, 21), (1694, 22), (1662, 23), (1631, 24), (1600, 25), (1569, 26), (1539, 27), (1508, 28), (1478, 29),
     (1448, 30), (1419, 31), (1390, 32), (1361, 33), (1332, 34), (1304, 35), (1276, 36), (1249, 37), (1222, 38), (1195, 39),
     (1169, 40), (1143, 41), (1118, 42), (1093, 43), (1068, 44), (1044, 45), (1020, 46), (997, 47), (974, 48), (952, 49),
     (930, 50), (909, 51), (888, 52), (867, 53), (847, 54), (827, 55), (808, 56), (789, 57), (770, 58), (752, 59),
     (734, 60), (717, 61), (700, 62), (683, 63), (667, 64), (651, 65), (636, 66), (621, 67), (606, 68), (592, 69),
     (578, 70), (564, 71), (551, 72), (538, 73), (525, 74), (513, 75), (501, 76), (489, 77), (478, 78), (466, 79),
     (455, 80), (445, 81), (434, 82), (424, 83), (415, 84), (405, 85)]"

lemma temperature_table_eval:
  "length headset_temperature_config_table = 126"
  "map tl_temperature headset_temperature_config_table = map (\<lambda>i. int i - 40) [0..<126]"
  "sorted (map (\<lambda>x. - tl_voltage x) headset_temperature_config_table)"
  by code_simp+

section \<open>The conversion finds the temperature of the voltage\<close>

text \<open>The reference: the first, that is coldest, entry whose voltage is not above the reading.\<close>

definition temperature_reference :: "temperature_lookup list \<Rightarrow> int \<Rightarrow> int" where
  "temperature_reference tbl v = (case find (\<lambda>x. tl_voltage x \<le> v) tbl of Some x \<Rightarrow> tl_temperature x | None \<Rightarrow> TEMPERATURE_MAX)"

definition descending :: "temperature_lookup list \<Rightarrow> bool" where
  "descending tbl \<longleftrightarrow> (\<forall>i j. i \<le> j \<longrightarrow> j < length tbl \<longrightarrow> tl_voltage (tbl ! j) \<le> tl_voltage (tbl ! i))"

lemma reference_first:
  assumes "\<And>i. i < k \<Longrightarrow> v < tl_voltage (tbl ! i)" "k \<le> length tbl" "k < length tbl \<Longrightarrow> tl_voltage (tbl ! k) \<le> v"
  shows "temperature_reference tbl v = (if k < length tbl then tl_temperature (tbl ! k) else TEMPERATURE_MAX)"
proof (cases "k < length tbl")
  case True
  have "find (\<lambda>x. tl_voltage x \<le> v) tbl = Some (tbl ! k)"
    unfolding find_Some_iff using assms(1,3) True by (intro exI [of _ k]) (auto simp: not_le)
  with True show ?thesis by (simp add: temperature_reference_def)
next
  case False
  then have "find (\<lambda>x. tl_voltage x \<le> v) tbl = None"
    using assms(1,2) by (auto simp: find_None_iff in_set_conv_nth not_le)
  with False show ?thesis by (simp add: temperature_reference_def)
qed

lemma forward_reference:
  assumes "\<And>i. i < k \<Longrightarrow> v < tl_voltage (tbl ! i)" "k \<le> length tbl"
  shows "temperature_forward tbl v k = temperature_reference tbl v"
  using assms
proof (induction "length tbl - k" arbitrary: k)
  case 0
  then show ?case using reference_first [of k v tbl] by (simp add: temperature_forward.simps)
next
  case (Suc n)
  then have k: "k < length tbl" by simp
  show ?case
  proof (cases "tl_voltage (tbl ! k) \<le> v")
    case True
    then show ?thesis using reference_first [of k v tbl] Suc.prems Suc(2) by (simp add: temperature_forward.simps [of tbl v k])
  next
    case False
    then have "\<And>i. i < k + 1 \<Longrightarrow> v < tl_voltage (tbl ! i)" using Suc.prems(1) by (auto simp: less_Suc_eq)
    then show ?thesis using Suc(1) [of "k + 1"] Suc(2) False k by (simp add: temperature_forward.simps [of tbl v k])
  qed
qed

lemma backward_reference:
  assumes "descending tbl" "k < length tbl" "tl_voltage (tbl ! k) \<le> v" "tl_temperature (tbl ! 0) = TEMPERATURE_MIN"
  shows "temperature_backward tbl v (tl_voltage (tbl ! k)) k = temperature_reference tbl v"
  using assms(2,3)
proof (induction k)
  case 0
  then show ?case using reference_first [of 0 v tbl] assms(4) by simp
next
  case (Suc k)
  show ?case
  proof (cases "v < tl_voltage (tbl ! k)")
    case True
    have "v < tl_voltage (tbl ! i)" if "i < Suc k" for i
      using assms(1) that Suc.prems(1) True unfolding descending_def by (metis less_Suc_eq_le less_le_trans Suc_lessD)
    then show ?thesis using reference_first [of "Suc k" v tbl] Suc.prems True by simp
  next
    case False
    then show ?thesis using Suc by simp
  qed
qed

lemma search_reference:
  assumes "descending tbl" "tl_temperature (tbl ! 0) = TEMPERATURE_MIN" "0 \<le> p - TEMPERATURE_MIN" "nat (p - TEMPERATURE_MIN) < length tbl"
  shows "temperature_GetTemperature tbl v p = Some (temperature_reference tbl v)"
proof (cases "v < tl_voltage (tbl ! nat (p - TEMPERATURE_MIN))")
  case True
  let ?i = "nat (p - TEMPERATURE_MIN)"
  have "v < tl_voltage (tbl ! i)" if "i < ?i + 1" for i
    using assms(1,4) that True unfolding descending_def by (metis less_add_one less_le_trans Suc_eq_plus1 less_Suc_eq_le)
  then have "temperature_forward tbl v (?i + 1) = temperature_reference tbl v" using assms(4) by (intro forward_reference) simp_all
  with True assms(3,4) show ?thesis by (simp add: temperature_GetTemperature_def Let_def)
next
  case False
  with backward_reference [OF assms(1,4) _ assms(2), of v] assms(3,4) show ?thesis
    by (simp add: temperature_GetTemperature_def Let_def)
qed

lemma temperature_table_descending: "descending headset_temperature_config_table"
  unfolding descending_def using sorted_nth_mono [OF temperature_table_eval(3)] by auto

lemma temperature_table_entry: "i < 126 \<Longrightarrow> tl_temperature (headset_temperature_config_table ! i) = int i - 40"
proof -
  assume "i < 126"
  then have "map tl_temperature headset_temperature_config_table ! i = int i - 40" unfolding temperature_table_eval(2) by simp
  then show ?thesis using \<open>i < 126\<close> temperature_table_eval(1) by simp
qed

lemma helmet_search:
  assumes "- 40 \<le> p" "p \<le> 85"
  shows "temperature_GetTemperature headset_temperature_config_table v p =
    Some (temperature_reference headset_temperature_config_table v)"
  using search_reference [OF temperature_table_descending] temperature_table_entry [of 0] assms
  by (simp add: TEMPERATURE_MIN_def temperature_table_eval(1))

lemma reference_range: "- 40 \<le> temperature_reference headset_temperature_config_table v \<and>
    temperature_reference headset_temperature_config_table v \<le> 85"
proof (cases "find (\<lambda>x. tl_voltage x \<le> v) headset_temperature_config_table")
  case (Some x)
  then obtain i where "i < 126" "x = headset_temperature_config_table ! i"
    unfolding find_Some_iff by (auto simp: temperature_table_eval(1))
  with Some temperature_table_entry show ?thesis by (simp add: temperature_reference_def)
qed (simp add: temperature_reference_def TEMPERATURE_MAX_def)

section \<open>The median filter\<close>

lemma exchange_step_props:
  assumes "j < length l" "k < length l"
  shows "length (exchange_step j k l) = length l" "mset (exchange_step j k l) = mset l"
    "i \<noteq> j \<Longrightarrow> i \<noteq> k \<Longrightarrow> exchange_step j k l ! i = l ! i"
    "j \<noteq> k \<Longrightarrow> exchange_step j k l ! j = min (l ! j) (l ! k)" "j \<noteq> k \<Longrightarrow> exchange_step j k l ! k = max (l ! j) (l ! k)"
  using assms mset_swap [of k l j] by (auto simp: exchange_step_def min_def max_def nth_list_update)

lemma inner_props:
  assumes "j < k" "k \<le> length l" "l' = fold (exchange_step j) [j + 1..<k] l"
  shows "length l' = length l \<and> mset l' = mset l \<and> take j l' = take j l \<and> (\<forall>i. j \<le> i \<and> i < k \<longrightarrow> l' ! j \<le> l' ! i)"
  using assms
proof (induction k arbitrary: l')
  case (Suc k)
  show ?case
  proof (cases "j < k")
    case True
    let ?m = "fold (exchange_step j) [j + 1..<k] l"
    have m: "length ?m = length l" "mset ?m = mset l" "take j ?m = take j l" "\<forall>i. j \<le> i \<and> i < k \<longrightarrow> ?m ! j \<le> ?m ! i"
      using Suc.IH [of ?m] True Suc.prems by auto
    have l': "l' = exchange_step j k ?m" using Suc.prems(3) True by (simp add: upt_Suc_append)
    note e = exchange_step_props [of j ?m k]
    have lt: "j < length ?m" "k < length ?m" using True Suc.prems m(1) by auto
    have "take j l' = take j ?m" using e(1,3) [OF lt] True lt by (intro nth_equalityI) (auto simp: l')
    moreover have "l' ! j \<le> l' ! i" if ij: "j \<le> i" "i < Suc k" for i
    proof -
      consider "i = j" | "i = k" | "i \<noteq> j" "i \<noteq> k" "i < k" using ij by (auto simp: less_Suc_eq)
      then show ?thesis
        using e(3-5) [OF lt] True m(4) ij(1) by cases (auto simp: l' min.coboundedI1)
    qed
    ultimately show ?thesis using e(1,2) [OF lt] m(1-3) by (auto simp: l')
  next
    case False
    then have "k = j" using Suc.prems by simp
    with Suc.prems show ?thesis by (auto simp: less_Suc_eq_le)
  qed
qed simp

lemma outer_props:
  assumes "m \<le> length l" "l' = fold (\<lambda>j. fold (exchange_step j) [j + 1..<length l]) [0..<m] l"
  shows "length l' = length l \<and> mset l' = mset l \<and> (\<forall>a b. a < m \<and> a < b \<and> b < length l \<longrightarrow> l' ! a \<le> l' ! b)"
  using assms
proof (induction m arbitrary: l')
  case (Suc m)
  let ?p = "fold (\<lambda>j. fold (exchange_step j) [j + 1..<length l]) [0..<m] l"
  have p: "length ?p = length l" "mset ?p = mset l" "\<forall>a b. a < m \<and> a < b \<and> b < length l \<longrightarrow> ?p ! a \<le> ?p ! b"
    using Suc.IH [of ?p] Suc.prems(1) by auto
  have l': "l' = fold (exchange_step m) [m + 1..<length ?p] ?p" using Suc.prems(2) p(1) by simp
  then have q: "length l' = length l" "mset l' = mset ?p" "take m l' = take m ?p" "\<forall>i. m \<le> i \<and> i < length l \<longrightarrow> l' ! m \<le> l' ! i"
    using inner_props [of m "length ?p" ?p l'] Suc.prems(1) p(1) by auto
  have "mset (take m l') + mset (drop m l') = mset (take m ?p) + mset (drop m ?p)"
    using q(2) by (simp flip: mset_append)
  then have d: "mset (drop m l') = mset (drop m ?p)" using q(3) by simp
  have "l' ! a \<le> l' ! b" if "a < Suc m" "a < b" "b < length l" for a b
  proof (cases "a = m")
    case True
    then show ?thesis using q(4) that by auto
  next
    case False
    then have a: "a < m" using that by simp
    have la: "l' ! a = ?p ! a" using arg_cong [OF q(3), of "\<lambda>xs. xs ! a"] a by simp
    show ?thesis
    proof (cases "b < m")
      case True
      then have "l' ! b = ?p ! b" using arg_cong [OF q(3), of "\<lambda>xs. xs ! b"] by simp
      with la p(3) a that show ?thesis by simp
    next
      case False
      then have "l' ! b = drop m l' ! (b - m)" "b - m < length (drop m l')" using that(3) q(1) by auto
      then have "l' ! b \<in> set (drop m l')" using nth_mem [of "b - m" "drop m l'"] by simp
      then have "l' ! b \<in> set (drop m ?p)" using mset_eq_setD [OF d] by simp
      then obtain c where "c < length (drop m ?p)" "l' ! b = drop m ?p ! c" unfolding in_set_conv_nth by auto
      then have "l' ! b = ?p ! (m + c)" "m + c < length l" using p(1) by auto
      then show ?thesis using la p(3) a by simp
    qed
  qed
  with q p show ?case by auto
qed simp

lemma exchange_sort_sort: "exchange_sort l = sort l"
proof -
  note o = outer_props [of "length l" l "exchange_sort l", OF le_refl exchange_sort_def]
  have "sorted (exchange_sort l)" using o by (intro sorted_iff_nth_mono_less [THEN iffD2]) auto
  then show ?thesis using o by (intro properties_for_sort [symmetric]) auto
qed

text \<open>The filter as a function of the readings so far.\<close>

definition median_of :: "int list \<Rightarrow> int" where
  "median_of xs = sort xs ! ((length xs - 1) div 2)"

definition filter_holds :: "nat \<Rightarrow> int list \<Rightarrow> int list \<times> nat \<Rightarrow> bool" where
  "filter_holds w rs m \<longleftrightarrow> length (fst m) = w \<and> snd m = min (length rs) (w - 1) \<and> take (snd m) (fst m) = last_n (w - 1) rs"

lemma last_n_extend: "0 < w \<Longrightarrow> last_n (w - 1) rs @ [r] = last_n w (rs @ [r])"
  by (simp add: last_n_def)

lemma last_n_tl: "0 < w \<Longrightarrow> w \<le> length rs \<Longrightarrow> tl (last_n w rs) = last_n (w - 1) rs"
  by (simp add: last_n_def drop_Suc [symmetric] tl_drop Suc_diff_le flip: drop_Suc)

lemma median_step:
  assumes "0 < w" "filter_holds w rs m"
  shows "fst (temperature_MedianFiltering w r m) = median_of (last_n w (rs @ [r]))"
    "filter_holds w (rs @ [r]) (snd (temperature_MedianFiltering w r m))"
proof -
  obtain arr idx where m: "m = (arr, idx)" by (cases m)
  have a: "length arr = w" "idx = min (length rs) (w - 1)" "take idx arr = last_n (w - 1) rs" "idx < w"
    using assms by (auto simp: filter_holds_def m)
  let ?arr = "arr[idx := r]"
  have t: "take (idx + 1) ?arr = last_n w (rs @ [r])"
    using a last_n_extend [OF assms(1), of rs r] by (simp add: take_Suc_conv_app_nth)
  have len: "length (last_n w (rs @ [r])) = idx + 1" using a(2) assms(1) by (simp add: last_n_def min_def)
  have "fst (temperature_MedianFiltering w r m) = exchange_sort (take (idx + 1) ?arr) ! (idx div 2)"
    by (simp add: temperature_MedianFiltering_def m Let_def)
  with len show "fst (temperature_MedianFiltering w r m) = median_of (last_n w (rs @ [r]))"
    unfolding t exchange_sort_sort median_of_def by simp
  show "filter_holds w (rs @ [r]) (snd (temperature_MedianFiltering w r m))"
  proof (cases "idx = w - 1")
    case True
    then have all: "take (idx + 1) ?arr = ?arr" "w \<le> length (rs @ [r])" using a assms(1) by auto
    have "tl ?arr = last_n (w - 1) (rs @ [r])" using t all last_n_tl [OF assms(1) all(2)] by simp
    with True a all(2) show ?thesis
      by (simp add: temperature_MedianFiltering_def m filter_holds_def min_def)
  next
    case False
    then have "idx = length rs" "length rs + 1 \<le> w - 1" using a by (auto simp: min_def split: if_splits)
    with False a t show ?thesis by (simp add: temperature_MedianFiltering_def m filter_holds_def Let_def)
  qed
qed

definition filter_run :: "nat \<Rightarrow> int list \<Rightarrow> int list \<times> nat \<Rightarrow> int list \<times> nat" where
  "filter_run w rs m = fold (\<lambda>r m. snd (temperature_MedianFiltering w r m)) rs m"

lemma filter_run_holds:
  assumes "0 < w" "length garbage = w"
  shows "filter_holds w rs (filter_run w rs (garbage, 0))"
proof (induction rs rule: rev_induct)
  case Nil
  show ?case using assms by (simp add: filter_run_def filter_holds_def last_n_def)
next
  case (snoc r rs)
  from median_step(2) [OF assms(1) snoc, of r] show ?case by (simp add: filter_run_def)
qed

text \<open>C17: The incremental filter computes medians: whatever the fresh array contains, the value returned for each reading is the (lower)
  median of the last five readings, or of all readings while there are fewer; the in-place exchange sort on a prefix of the
  array and the shifting of the window never mix in a stale or unwritten place.\<close>

theorem median_filter_exact:
  assumes "length garbage = appConfigTemperatureMedianFilterWindow"
  shows "fst (temperature_MedianFiltering appConfigTemperatureMedianFilterWindow r
      (filter_run appConfigTemperatureMedianFilterWindow rs (garbage, 0))) =
    sort (last_n 5 (rs @ [r])) ! ((min 5 (length rs + 1) - 1) div 2)"
  using median_step(1) [OF _ filter_run_holds [OF _ assms], of r rs]
  by (simp add: appConfigTemperatureMedianFilterWindow_def median_of_def)

theorem median_filter_exact_witness:
  "fst (temperature_MedianFiltering appConfigTemperatureMedianFilterWindow 21
      (filter_run appConfigTemperatureMedianFilterWindow [20, 90, 22, -40, 20, 23] ([7, 7, 7, 7, 7], 0))) = 21"
  using median_filter_exact [of "[7, 7, 7, 7, 7]" 21 "[20, 90, 22, -40, 20, 23]"]
  by (simp add: appConfigTemperatureMedianFilterWindow_def last_n_def)

section \<open>Reachable states\<close>

definition in_range :: "int \<Rightarrow> bool" where
  "in_range t \<longleftrightarrow> TEMPERATURE_MIN \<le> t \<and> t \<le> TEMPERATURE_MAX"

definition measured_inv :: "temperature_data \<Rightarrow> bool" where
  "measured_inv s \<longleftrightarrow> length (mf_arr s) = 5 \<and> mf_index s \<le> 4 \<and> list_all in_range (take (mf_index s) (mf_arr s)) \<and>
     in_range (instantaneous s) \<and> 100 * TEMPERATURE_MIN \<le> current_ema s \<and> current_ema s \<le> 100 * TEMPERATURE_MAX"

definition temp_inv :: "temperature_data \<Rightarrow> bool" where
  "temp_inv s \<longleftrightarrow> measured_inv s \<and> 0 < trigger_pending s + retrigger_pending s"

datatype temp_op = Temp_Msg int temp_msg | Temp_Register task int int | Temp_Unregister task | Temp_Fake int | Temp_Unfake
  | Temp_Resume

text \<open>A message the module sent to itself arrives only when one is pending.\<close>

fun temp_do :: "temp_op \<Rightarrow> temperature_data \<Rightarrow> temperature_data option" where
  "temp_do (Temp_Msg vref MEASUREMENT_TRIGGER) s = (if trigger_pending s = 0 then Some s
     else appTemperatureHandleMessage headset_temperature_config_table vref MEASUREMENT_TRIGGER (s\<lparr>trigger_pending := trigger_pending s - 1\<rparr>))"
| "temp_do (Temp_Msg vref MEASUREMENT_RETRIGGER) s = (if retrigger_pending s = 0 then Some s
     else appTemperatureHandleMessage headset_temperature_config_table vref MEASUREMENT_RETRIGGER (s\<lparr>retrigger_pending := retrigger_pending s - 1\<rparr>))"
| "temp_do (Temp_Msg vref (Temp_Adc src r)) s = appTemperatureHandleMessage headset_temperature_config_table vref (Temp_Adc src r) s"
| "temp_do (Temp_Register t lower upper) s = appTemperatureClientRegister t lower upper s"
| "temp_do (Temp_Unregister t) s = appTemperatureClientUnregister t s"
| "temp_do (Temp_Fake t) s = Some (appTemperatureSetFakeValue t s)"
| "temp_do Temp_Unfake s = Some (appTemperatureUnsetFakeValue s)"
| "temp_do Temp_Resume s = Some (appTemperatureResumeAdcMeasurements s)"

text \<open>Registering a task twice and removing one that is not registered panic.\<close>

fun temp_allowed :: "temp_op \<Rightarrow> bool" where
  "temp_allowed (Temp_Msg vref m) = True"
| "temp_allowed (Temp_Fake t) = True"
| "temp_allowed Temp_Unfake = True"
| "temp_allowed Temp_Resume = True"
| "temp_allowed _ = False"

lemma temp_frames [simp]:
  "mf_arr (temp_emit cs s) = mf_arr s" "mf_index (temp_emit cs s) = mf_index s" "instantaneous (temp_emit cs s) = instantaneous s"
  "current_ema (temp_emit cs s) = current_ema s" "trigger_pending (temp_emit cs s) = trigger_pending s"
  "retrigger_pending (temp_emit cs s) = retrigger_pending s"
  "mf_arr (appTemperatureServiceClients s) = mf_arr s" "mf_index (appTemperatureServiceClients s) = mf_index s"
  "instantaneous (appTemperatureServiceClients s) = instantaneous s" "current_ema (appTemperatureServiceClients s) = current_ema s"
  "trigger_pending (appTemperatureServiceClients s) = trigger_pending s"
  "retrigger_pending (appTemperatureServiceClients s) = retrigger_pending s"
  by (simp_all add: temp_emit_def appTemperatureServiceClients_def Let_def)

lemma ema_range:
  assumes "in_range m" "100 * TEMPERATURE_MIN \<le> e" "e \<le> 100 * TEMPERATURE_MAX"
  shows "100 * TEMPERATURE_MIN \<le> temperature_ExponentialAverage f appConfigTemperatureSmoothingWeight e m \<and>
    temperature_ExponentialAverage f appConfigTemperatureSmoothingWeight e m \<le> 100 * TEMPERATURE_MAX"
proof -
  have e: "- 4000 \<le> e" "e \<le> 8500" "- 40 \<le> m" "m \<le> 85"
    using assms by (simp_all add: in_range_def TEMPERATURE_MIN_def TEMPERATURE_MAX_def)
  have "- 2000 \<le> (50 * e) sdiv 100" "(50 * e) sdiv 100 \<le> 4250" using e by (simp_all add: sdiv_split, linarith+)
  with e show ?thesis
    by (simp add: temperature_ExponentialAverage_def appConfigTemperatureSmoothingWeight_def TEMPERATURE_MIN_def TEMPERATURE_MAX_def)
qed

lemma median_range:
  assumes "length arr = 5" "idx \<le> 4" "list_all in_range (take idx arr)" "in_range r"
    and "temperature_MedianFiltering 5 r (arr, idx) = (m, arr', idx')"
  shows "in_range m" "length arr' = 5" "idx' \<le> 4" "list_all in_range (take idx' arr')"
proof -
  let ?arr = "arr[idx := r]"
  have t: "take (idx + 1) ?arr = take idx arr @ [r]" using assms(1,2) by (simp add: take_Suc_conv_app_nth)
  have m: "m = sort (take (idx + 1) ?arr) ! (idx div 2)"
    using assms(5) by (auto simp: temperature_MedianFiltering_def Let_def exchange_sort_sort split: if_splits)
  have "length (sort (take (idx + 1) ?arr)) = idx + 1" using assms(1,2) by simp
  then have "m \<in> set (sort (take (idx + 1) ?arr))" unfolding m by (intro nth_mem) simp
  then show "in_range m" using assms(3,4) unfolding set_sort t by (auto simp: list_all_iff)
  have all: "list_all in_range (take (idx + 1) ?arr)" using assms(3,4) unfolding t by simp
  show "length arr' = 5" "idx' \<le> 4"
    using assms(1,2,5) by (auto simp: temperature_MedianFiltering_def Let_def split: if_splits)
  show "list_all in_range (take idx' arr')"
  proof (cases "idx = 4")
    case True
    then have "arr' = tl ?arr @ [0]" "idx' = 4" using assms(5) by (auto simp: temperature_MedianFiltering_def Let_def)
    moreover have "list_all in_range ?arr" using all True assms(1) by simp
    moreover have "list_all in_range (tl l)" if "list_all in_range l" for l using that by (cases l) simp_all
    ultimately show ?thesis using assms(1) by simp
  next
    case False
    then have "arr' = ?arr" "idx' = idx + 1" using assms(5) by (auto simp: temperature_MedianFiltering_def Let_def)
    with all show ?thesis by simp
  qed
qed

lemma reading_inv:
  assumes "measured_inv s" "in_range r"
  shows "measured_inv (handleTemperatureReading r s)"
    "trigger_pending (handleTemperatureReading r s) = trigger_pending s"
    "retrigger_pending (handleTemperatureReading r s) = retrigger_pending s"
proof -
  obtain m arr idx where f: "temperature_MedianFiltering 5 r (mf_arr s, mf_index s) = (m, arr, idx)" by (metis prod_cases3)
  have "in_range m" "length arr = 5" "idx \<le> 4" "list_all in_range (take idx arr)"
    using median_range [OF _ _ _ assms(2) f] assms(1) by (auto simp: measured_inv_def)
  with f ema_range [of m "current_ema s"] assms(1) show "measured_inv (handleTemperatureReading r s)"
    "trigger_pending (handleTemperatureReading r s) = trigger_pending s"
    "retrigger_pending (handleTemperatureReading r s) = retrigger_pending s"
    by (simp_all add: handleTemperatureReading_def appConfigTemperatureMedianFilterWindow_def measured_inv_def)
qed

lemma measured_upd [simp]:
  "measured_inv (temp_emit cs s) = measured_inv s" "measured_inv (appTemperatureServiceClients s) = measured_inv s"
  "measured_inv (s\<lparr>trigger_pending := n\<rparr>) = measured_inv s" "measured_inv (s\<lparr>retrigger_pending := n\<rparr>) = measured_inv s"
  "measured_inv (s\<lparr>fake_battery_temperature := t\<rparr>) = measured_inv s" "measured_inv (s\<lparr>battery_temp_test_on := b\<rparr>) = measured_inv s"
  "measured_inv (s\<lparr>vref_raw := v\<rparr>) = measured_inv s" "measured_inv (s\<lparr>temp_clients := cl\<rparr>) = measured_inv s"
  by (simp_all add: measured_inv_def)

lemma adc_ok:
  assumes "temp_inv s"
  shows "\<exists>t. appTemperatureHandleMessage headset_temperature_config_table vref (Temp_Adc src r) s = Some t \<and> temp_inv t"
proof -
  obtain v s1 where v: "Temperature_AdcResultHandler vref src r s = (v, s1)" by (metis surj_pair)
  have s1: "measured_inv s1" "trigger_pending s1 = trigger_pending s" "retrigger_pending s1 = retrigger_pending s"
    using v assms by (auto simp: Temperature_AdcResultHandler_def temp_inv_def split: temp_adc_source.splits)
  have t: "temperature_GetTemperature headset_temperature_config_table v (instantaneous s1) =
      Some (temperature_reference headset_temperature_config_table v)"
    using s1(1) by (intro helmet_search) (simp_all add: measured_inv_def in_range_def TEMPERATURE_MIN_def TEMPERATURE_MAX_def)
  have "in_range (temperature_reference headset_temperature_config_table v)"
    using reference_range by (simp add: in_range_def TEMPERATURE_MIN_def TEMPERATURE_MAX_def)
  note r = reading_inv [OF _ this, of "s1\<lparr>retrigger_pending := 0\<rparr>"]
  show ?thesis
    using v t r s1 assms by (auto simp: appTemperatureHandleMessage_def temp_inv_def Let_def)
qed

lemma temp_step_ok: "temp_inv s \<Longrightarrow> temp_allowed op \<Longrightarrow> \<exists>t. temp_do op s = Some t \<and> temp_inv t"
proof (induction op s rule: temp_do.induct)
  case (3 vref src r s)
  then show ?case using adc_ok by simp
qed (auto simp: temp_inv_def appTemperatureHandleMessage_def appTemperatureSensorRequestMeasurement_def appTemperatureSetFakeValue_def
    appTemperatureUnsetFakeValue_def appTemperatureResumeAdcMeasurements_def)

interpretation temp: safe_machine temp_do temp_inv temp_allowed
proof
  show "temp_inv t" if "temp_inv s" "temp_do op s = Some t" for s op t
  proof (cases "temp_allowed op")
    case True
    with temp_step_ok [OF that(1)] that(2) show ?thesis by fastforce
  next
    case False
    then show ?thesis
      using that by (cases op) (auto simp: temp_inv_def appTemperatureClientRegister_def appTemperatureClientUnregister_def
          split: if_splits prod.splits)
  qed
  show "temp_do op s \<noteq> None" if "temp_inv s" "temp_allowed op" for s op using temp_step_ok [OF that] by auto
qed

lemma temp_init_inv: "length garbage = 5 \<Longrightarrow> temp_inv (appTemperatureInit garbage)"
  by (simp add: temp_inv_def measured_inv_def appTemperatureInit_def appTemperatureSensorRequestMeasurement_def in_range_def
      TEMPERATURE_MIN_def TEMPERATURE_MAX_def)

text \<open>C18: The temperature measurement neither stops nor leaves its range: from the initialisation on, whatever the converter returns,
  in whatever order its results and the module's own messages arrive and whatever clients come and go, no table or filter access is out
  of bounds, the average stays between -40 and 85 degrees, and a message that starts the next measurement is always pending.\<close>

theorem temperature_keeps_measuring:
  assumes "length garbage = 5" and "run temp_do ops (appTemperatureInit garbage) = Some s"
  shows "0 < trigger_pending s + retrigger_pending s \<and> - 40 \<le> instantaneous s \<and> instantaneous s \<le> 85 \<and>
    (fake_battery_temperature s = INVALID_TEMPERATURE \<longrightarrow> - 40 \<le> appTemperatureGetAverage s \<and> appTemperatureGetAverage s \<le> 85) \<and>
    (\<forall>op. temp_allowed op \<longrightarrow> temp_do op s \<noteq> None)"
proof -
  have i: "temp_inv s" by (rule temp.run_keeps [OF temp_init_inv [OF assms(1)] assms(2)])
  then have e: "- 4000 \<le> current_ema s" "current_ema s \<le> 8500" "in_range (instantaneous s)"
    by (simp_all add: temp_inv_def measured_inv_def TEMPERATURE_MIN_def TEMPERATURE_MAX_def)
  then have "- 40 \<le> current_ema s sdiv 100" "current_ema s sdiv 100 \<le> 85" by (simp_all add: sdiv_split, linarith+)
  then show ?thesis
    using i e temp.safe [OF i] by (auto simp: temp_inv_def appTemperatureGetAverage_def s8_def in_range_def TEMPERATURE_MIN_def TEMPERATURE_MAX_def)
qed

text \<open>Converting a thermistor voltage by walking from the last temperature gives the same result as searching the whole table:
  for every voltage and every previous temperature in range it is that of the first entry whose voltage is not above the reading.\<close>

theorem temperature_search_exact:
  assumes "- 40 \<le> p" and "p \<le> 85"
  shows "temperature_GetTemperature headset_temperature_config_table v p =
    Some (case find (\<lambda>x. tl_voltage x \<le> v) headset_temperature_config_table of Some x \<Rightarrow> tl_temperature x | None \<Rightarrow> 85)"
  using helmet_search [OF assms, of v] unfolding temperature_reference_def TEMPERATURE_MAX_def .

theorem temperature_search_exact_witness:
  "temperature_GetTemperature headset_temperature_config_table 405 (- 40) = Some 85"
proof -
  have "find (\<lambda>x. tl_voltage x \<le> 405) headset_temperature_config_table = Some \<lparr>tl_voltage = 405, tl_temperature = 85\<rparr>" by code_simp
  then show ?thesis using temperature_search_exact [of "- 40" 405] by simp
qed

theorem temperature_keeps_measuring_witness:
  "\<exists>s. run temp_do [Temp_Msg 1800 (Temp_Adc Src_vref_hq_buff 900), Temp_Msg 1800 (Temp_Adc Src_thermistor 800)]
       (appTemperatureInit [1, 2, 3, 4, 5]) = Some s \<and> 0 < trigger_pending s + retrigger_pending s"
proof -
  have "list_all temp_allowed [Temp_Msg 1800 (Temp_Adc Src_vref_hq_buff 900), Temp_Msg 1800 (Temp_Adc Src_thermistor 800)]" by simp
  then obtain s where s: "run temp_do [Temp_Msg 1800 (Temp_Adc Src_vref_hq_buff 900), Temp_Msg 1800 (Temp_Adc Src_thermistor 800)]
       (appTemperatureInit [1, 2, 3, 4, 5]) = Some s"
    using temp.run_safe [OF temp_init_inv [of "[1, 2, 3, 4, 5]"]] by fastforce
  from temperature_keeps_measuring [OF _ this] s show ?thesis by simp
qed

end
