(* ===== verification/Battery_Region.thy ===== *)
theory Battery_Region
  imports Charger_Safety Temperature
begin

text \<open>
  The operating regions of the battery (\<^verbatim>\<open>src/adk/src/domains/power/battery_region/battery_region.c\<close>) with the tables of the helmet
  (\<^verbatim>\<open>headset_region_config.c\<close>), and the region and the charger monitor as one system: the region asks the monitor whether the cable is
  connected and tells it when the current changes, the monitor asks the region for the current and stops and starts its timer.
  The handlers of the helmet are all \<^verbatim>\<open>NULL\<close> and are not called. Every posting of the charging timer follows a cancellation, so at most
  one is pending; it is kept with its minutes.
\<close>

section \<open>Regions\<close>

datatype charger_region_type = NORMAL_REGION | CRITICAL_REGION | SAFETY_REGION

datatype battery_region_state = battery_region_unknown | battery_region_unsafe | battery_region_critical | battery_region_ok

record charge_region =
  rg_current :: nat
  rg_voltage_min :: int
  rg_voltage_max :: int
  rg_voltage_hysteresis :: int
  rg_temp_min :: int
  rg_temp_max :: int
  rg_temp_hysteresis :: int
  rg_type :: charger_region_type
  rg_charging_timer :: nat

definition in_limits :: "charge_region \<Rightarrow> int \<Rightarrow> int \<Rightarrow> bool \<Rightarrow> bool" where
  "in_limits r voltage temperature apply_hysteresis =
     (let vh = (if apply_hysteresis then rg_voltage_hysteresis r else 0); th = (if apply_hysteresis then rg_temp_hysteresis r else 0);
          voltage_min = s16 (rg_voltage_min r - vh); voltage_max = u16 (rg_voltage_max r + vh);
          temp_min = s8 (rg_temp_min r - th); temp_max = s8 (rg_temp_max r + th)
      in voltage \<ge> voltage_min \<and> voltage \<le> voltage_max \<and> temperature \<ge> temp_min \<and> temperature \<le> temp_max)"

text \<open>Which table is in use is a pointer in the code.\<close>

datatype region_table = No_Table | Charge_Table | Discharge_Table

record battery_region_ctx =
  charge_table :: "charge_region list"
  discharge_table :: "charge_region list"

datatype region_call = Region_Update_Ind task battery_region_state

record battery_region =
  br_table :: region_table
  br_region :: "nat option"
  br_state :: battery_region_state
  br_clients :: "task list"
  charging_timer :: "nat option"
  update_triggers :: nat
  charging_timer_timeout :: bool
  br_out :: "region_call list"

fun table_rows :: "battery_region_ctx \<Rightarrow> region_table \<Rightarrow> charge_region list" where
  "table_rows x No_Table = []"
| "table_rows x Charge_Table = charge_table x"
| "table_rows x Discharge_Table = discharge_table x"

definition row_at :: "battery_region_ctx \<Rightarrow> battery_region \<Rightarrow> nat \<Rightarrow> charge_region option" where
  "row_at x b i = (let rows = table_rows x (br_table b) in if i < length rows then Some (rows ! i) else None)"

definition batteryRegion_VolTempInRegion ::
  "battery_region_ctx \<Rightarrow> battery_region \<Rightarrow> nat option \<Rightarrow> int \<Rightarrow> int \<Rightarrow> bool \<Rightarrow> bool option" where
  "batteryRegion_VolTempInRegion x b region voltage temperature hyst = (case region of None \<Rightarrow> Some False
     | Some i \<Rightarrow> map_option (\<lambda>r. in_limits r voltage temperature hyst) (row_at x b i))"

definition BatteryRegion_GetCurrent :: "battery_region_ctx \<Rightarrow> battery_region \<Rightarrow> nat option" where
  "BatteryRegion_GetCurrent x b = (case br_region b of None \<Rightarrow> Some 0
     | Some i \<Rightarrow> if br_state b = battery_region_unknown then Some 0 else map_option rg_current (row_at x b i))"

definition BatteryRegion_GetState :: "battery_region \<Rightarrow> battery_region_state" where
  "BatteryRegion_GetState b = br_state b"

definition batteryRegion_ServiceClients :: "battery_region \<Rightarrow> battery_region" where
  "batteryRegion_ServiceClients b = b\<lparr>br_out := br_out b @ map (\<lambda>t. Region_Update_Ind t (br_state b)) (br_clients b)\<rparr>"

definition BatteryRegion_Register :: "task \<Rightarrow> battery_region \<Rightarrow> bool \<times> battery_region" where
  "BatteryRegion_Register t b = (if t \<in> set (br_clients b) then (False, b) else (True, b\<lparr>br_clients := br_clients b @ [t]\<rparr>))"

definition BatteryRegion_Unregister :: "task \<Rightarrow> battery_region \<Rightarrow> battery_region" where
  "BatteryRegion_Unregister t b = b\<lparr>br_clients := filter (\<lambda>u. u \<noteq> t) (br_clients b)\<rparr>"

section \<open>Updating the region\<close>

definition with_region :: "battery_region_ctx \<Rightarrow> battery_region \<Rightarrow> charger_env \<Rightarrow> charger_env option" where
  "with_region x b e = map_option (\<lambda>i. e\<lparr>ce_region_current := i\<rparr>) (BatteryRegion_GetCurrent x b)"

text \<open>The loop over the table: the first row whose limits hold the reading.\<close>

fun first_row :: "charge_region list \<Rightarrow> int \<Rightarrow> int \<Rightarrow> nat option" where
  "first_row [] v t = None"
| "first_row (r # rs) v t = (if in_limits r v t False then Some 0 else map_option Suc (first_row rs v t))"

definition region_state :: "charge_region \<Rightarrow> battery_region_state" where
  "region_state r = (case rg_type r of CRITICAL_REGION \<Rightarrow> battery_region_critical | SAFETY_REGION \<Rightarrow> battery_region_unsafe
     | NORMAL_REGION \<Rightarrow> battery_region_ok)"

definition enter_region ::
  "battery_region_ctx \<Rightarrow> charger_env \<Rightarrow> nat \<Rightarrow> charge_region \<Rightarrow> charger \<times> battery_region \<Rightarrow> (charger \<times> battery_region) option" where
  "enter_region x e i new_region s = (case s of (c, b) \<Rightarrow>
     let b1 = b\<lparr>charging_timer := None, br_region := Some i, br_state := region_state new_region\<rparr>
     in Option.bind (with_region x b1 e) (\<lambda>e1.
        Option.bind (Charger_UpdateCurrent e1 c) (\<lambda>c1.
        let b2 = (if rg_current new_region \<noteq> 0 \<and> rg_charging_timer new_region \<noteq> 0
              then b1\<lparr>charging_timer := Some (rg_charging_timer new_region)\<rparr> else b1)
        in Some (c1, batteryRegion_ServiceClients b2))))"

definition select_table :: "bool \<Rightarrow> battery_region \<Rightarrow> battery_region" where
  "select_table connected b =
     (let t = (if connected then Charge_Table else Discharge_Table)
      in if br_table b \<noteq> t then b\<lparr>br_region := None, br_table := t\<rparr> else b)"

definition batteryRegion_UpdateRegion ::
  "battery_region_ctx \<Rightarrow> charger_env \<Rightarrow> int \<Rightarrow> int \<Rightarrow> charger \<times> battery_region \<Rightarrow> (charger \<times> battery_region) option" where
  "batteryRegion_UpdateRegion x e voltage temperature s = (case s of (c, b) \<Rightarrow>
     let b1 = select_table (Charger_IsConnected c) b; rows = table_rows x (br_table b1)
     in Option.bind (batteryRegion_VolTempInRegion x b1 (br_region b1) voltage temperature True) (\<lambda>inside.
        if inside then Some (c, b1)
        else case first_row rows voltage temperature of None \<Rightarrow> Some (c, b1)
          | Some i \<Rightarrow> enter_region x e i (rows ! i) (c, b1)))"

section \<open>Messages\<close>

datatype region_msg = REGION_CHARGING_TIMER | REGION_UPDATE_TRIGGER int int | REGION_CHARGER_DETACHED | REGION_OTHER

text \<open>\<open>REGION_UPDATE_TRIGGER\<close> carries the average voltage and temperature at the time it is handled.\<close>

fun batteryRegion_HandleMessage ::
  "battery_region_ctx \<Rightarrow> charger_env \<Rightarrow> region_msg \<Rightarrow> charger \<times> battery_region \<Rightarrow> (charger \<times> battery_region) option" where
  "batteryRegion_HandleMessage x e REGION_CHARGING_TIMER (c, b) =
     map_option (\<lambda>c1. (c1, b\<lparr>charging_timer_timeout := True\<rparr>)) (Charger_DisableReasonAdd e cd_timeout c)"
| "batteryRegion_HandleMessage x e (REGION_UPDATE_TRIGGER v t) (c, b) =
     map_option (\<lambda>(c1, b1). (c1, b1\<lparr>update_triggers := update_triggers b1 + 1\<rparr>)) (batteryRegion_UpdateRegion x e v t (c, b))"
| "batteryRegion_HandleMessage x e REGION_CHARGER_DETACHED (c, b) =
     map_option (\<lambda>c1. (c1, b\<lparr>charging_timer := None, charging_timer_timeout := False\<rparr>)) (Charger_DisableReasonClear e cd_timeout c)"
| "batteryRegion_HandleMessage x e REGION_OTHER (c, b) = Some (c, b)"

definition region_zero :: battery_region where
  "region_zero = \<lparr>br_table = No_Table, br_region = None, br_state = battery_region_unknown, br_clients = [], charging_timer = None,
     update_triggers = 0, charging_timer_timeout = False, br_out = []\<rparr>"

definition BatteryRegion_Init :: "task \<Rightarrow> charger \<Rightarrow> charger \<times> battery_region" where
  "BatteryRegion_Init me c = (snd (Charger_ClientRegister me c), region_zero\<lparr>update_triggers := 1\<rparr>)"

text \<open>The charger monitor stops and starts the timer of the region.\<close>

definition CHARGING_TIMER_TIMEOUT :: nat where
  "CHARGING_TIMER_TIMEOUT = 509"

definition charging_timer_call :: "charger_call \<Rightarrow> battery_region \<Rightarrow> battery_region" where
  "charging_timer_call z b = (case z of Charging_Timer_Stop \<Rightarrow> b\<lparr>charging_timer := None\<rparr>
     | Charging_Timer_Start \<Rightarrow> b\<lparr>charging_timer := Some CHARGING_TIMER_TIMEOUT\<rparr> | _ \<Rightarrow> b)"

section \<open>The tables of the helmet\<close>

definition rg :: "nat \<Rightarrow> int \<Rightarrow> int \<Rightarrow> int \<Rightarrow> int \<Rightarrow> int \<Rightarrow> charger_region_type \<Rightarrow> nat \<Rightarrow> charge_region" where
  "rg i vmin vmax vh tmin tmax ty tm = \<lparr>rg_current = i, rg_voltage_min = vmin, rg_voltage_max = vmax, rg_voltage_hysteresis = vh,
     rg_temp_min = tmin, rg_temp_max = tmax, rg_temp_hysteresis = 1, rg_type = ty, rg_charging_timer = tm\<rparr>"

text \<open>\<^verbatim>\<open>FAST\<close> is 500 mA, \<^verbatim>\<open>Vfloat_adjusted\<close> 4326 mV, \<^verbatim>\<open>Vcrit\<close> 3300, \<^verbatim>\<open>Vfast\<close> 3000, \<^verbatim>\<open>Vpre\<close> 2100.\<close>

definition headset_charge_mode_config_table :: "charge_region list" where
  "headset_charge_mode_config_table =
    [rg 0 4326 5000 100 (-40) 0 NORMAL_REGION 0,
     rg 0 4326 5000 100 0 45 NORMAL_REGION 0,
     rg 0 4326 5000 100 45 85 NORMAL_REGION 0,
     rg 1 3600 4326 50 (-40) 0 NORMAL_REGION 30,
     rg 500 3600 4326 50 0 45 NORMAL_REGION CHARGING_TIMER_TIMEOUT,
     rg 1 3600 4326 50 45 85 NORMAL_REGION 30,
     rg 1 3300 3600 50 (-40) 0 NORMAL_REGION 30,
     rg 500 3300 3600 50 0 45 NORMAL_REGION CHARGING_TIMER_TIMEOUT,
     rg 1 3300 3600 50 45 85 NORMAL_REGION 30,
     rg 500 3000 3300 50 (-40) 85 CRITICAL_REGION 0,
     rg 50 2800 3000 50 (-40) 85 CRITICAL_REGION 0,
     rg 20 2100 2800 50 (-40) 85 CRITICAL_REGION 0,
     rg 10 0 2100 50 (-40) 85 CRITICAL_REGION 0]"

definition headset_discharge_mode_config_table :: "charge_region list" where
  "headset_discharge_mode_config_table =
    [rg 0 4200 4350 100 (-40) (-20) NORMAL_REGION 0,
     rg 0 4200 4350 100 (-20) 60 NORMAL_REGION 0,
     rg 0 4200 4350 100 60 85 NORMAL_REGION 0,
     rg 0 3300 4200 50 (-40) (-20) NORMAL_REGION 0,
     rg 0 3300 4200 50 (-20) 60 NORMAL_REGION 0,
     rg 0 3300 4200 50 60 85 NORMAL_REGION 0,
     rg 0 3000 3300 50 (-40) (-20) CRITICAL_REGION 0,
     rg 0 3000 3300 50 (-20) 60 CRITICAL_REGION 0,
     rg 0 3000 3300 50 60 85 CRITICAL_REGION 0,
     rg 0 0 3000 50 (-40) (-20) SAFETY_REGION 0,
     rg 0 0 3000 50 (-20) 60 SAFETY_REGION 0,
     rg 0 0 3000 50 60 85 SAFETY_REGION 0]"

definition headset_regions :: battery_region_ctx where
  "headset_regions = \<lparr>charge_table = headset_charge_mode_config_table, discharge_table = headset_discharge_mode_config_table\<rparr>"

end
