(* ===== verification/Battery_Safety.thy ===== *)
theory Battery_Safety
  imports Battery_Region
begin

text \<open>
  The battery region and the charger monitor together, over all sequences of calls and messages: the configured current follows the
  region, the region fits the last reading, and what a quick replug does to the charging timer.
\<close>

unbundle bit_operations_syntax

section \<open>The system\<close>

datatype charge_op = Sys_Charger charger_op | Sys_Region region_msg | Sys_Region_Register task | Sys_Region_Unregister task

text \<open>A message is handled only if it is pending; the cable messages come from the monitor.\<close>

definition take_message :: "region_msg \<Rightarrow> battery_region \<Rightarrow> battery_region option" where
  "take_message m b = (case m of
     REGION_CHARGING_TIMER \<Rightarrow> if charging_timer b = None then None else Some (b\<lparr>charging_timer := None\<rparr>)
   | REGION_UPDATE_TRIGGER v t \<Rightarrow> if update_triggers b = 0 then None else Some (b\<lparr>update_triggers := update_triggers b - 1\<rparr>)
   | _ \<Rightarrow> Some b)"

fun charge_do :: "battery_region_ctx \<Rightarrow> charger_env \<times> charge_op \<Rightarrow> charger \<times> battery_region \<Rightarrow> (charger \<times> battery_region) option" where
  "charge_do x (e, Sys_Charger op) (c, b) =
     Option.bind (with_region x b e) (\<lambda>e1.
     map_option (\<lambda>c1. (c1, fold charging_timer_call (drop (length (ch_out c)) (ch_out c1)) b)) (charger_do (e1, op) c))"
| "charge_do x (e, Sys_Region m) (c, b) = (case take_message m b of None \<Rightarrow> Some (c, b)
     | Some b1 \<Rightarrow> batteryRegion_HandleMessage x e m (c, b1))"
| "charge_do x (e, Sys_Region_Register t) (c, b) = Some (c, snd (BatteryRegion_Register t b))"
| "charge_do x (e, Sys_Region_Unregister t) (c, b) = Some (c, BatteryRegion_Unregister t b)"

text \<open>Readings within the range of the helmet's charge table.\<close>

fun reading_ok :: "charger_env \<times> charge_op \<Rightarrow> bool" where
  "reading_ok (e, Sys_Region (REGION_UPDATE_TRIGGER v t)) \<longleftrightarrow> 0 \<le> v \<and> v \<le> 5000 \<and> - 40 \<le> t \<and> t \<le> 85"
| "reading_ok z = True"

section \<open>Rows\<close>

lemma first_row_Some: "first_row rows v t = Some i \<Longrightarrow> i < length rows \<and> in_limits (rows ! i) v t False"
  by (induction rows arbitrary: i) (auto split: if_splits)

lemma first_row_None: "first_row rows v t = None \<longleftrightarrow> (\<forall>r\<in>set rows. \<not> in_limits r v t False)"
  by (induction rows) auto

lemma s8_id: "- 128 \<le> x \<Longrightarrow> x < 128 \<Longrightarrow> s8 x = x"
  by (simp add: s8_def)

lemma in_limits_rg:
  assumes "0 \<le> vmin" "vmin \<le> 5000" "0 \<le> vmax" "vmax \<le> 5000" "0 \<le> vh" "vh \<le> 100" "- 40 \<le> tmin" "tmin \<le> 85" "- 40 \<le> tmax" "tmax \<le> 85"
  shows "in_limits (rg i vmin vmax vh tmin tmax ty tm) v t hy \<longleftrightarrow> (if hy
      then vmin - vh \<le> v \<and> v \<le> vmax + vh \<and> tmin - 1 \<le> t \<and> t \<le> tmax + 1 else vmin \<le> v \<and> v \<le> vmax \<and> tmin \<le> t \<and> t \<le> tmax)"
proof -
  have hyst: "s16 (vmin - vh) = vmin - vh" "u16 (vmax + vh) = vmax + vh" "s8 (tmin - 1) = tmin - 1" "s8 (tmax + 1) = tmax + 1"
    using assms by (simp_all add: s8_id)
  have plain: "s16 vmin = vmin" "u16 vmax = vmax" "s8 tmin = tmin" "s8 tmax = tmax"
    using assms by (simp_all add: s8_id)
  show ?thesis by (cases hy) (simp_all add: in_limits_def rg_def Let_def hyst plain)
qed

lemma charge_table_covers:
  assumes "0 \<le> v" "v \<le> 5000" "- 40 \<le> t" "t \<le> 85"
  shows "first_row headset_charge_mode_config_table v t \<noteq> None"
proof -
  have "\<exists>r\<in>set headset_charge_mode_config_table. in_limits r v t False"
    unfolding headset_charge_mode_config_table_def using assms by (simp add: in_limits_rg) presburger
  then show ?thesis by (auto simp: first_row_None)
qed

lemma charge_row_hyst:
  assumes "r \<in> set headset_charge_mode_config_table" "in_limits r v t False"
  shows "in_limits r v t True"
  using assms unfolding headset_charge_mode_config_table_def by (auto simp: in_limits_rg)

text \<open>What the rows of the helmet allow at a reading, hysteresis included.\<close>

lemma charge_row_limits:
  assumes "r \<in> set headset_charge_mode_config_table" "in_limits r v t True"
  shows "4376 < v \<longrightarrow> rg_current r = 0" "3350 < v \<and> (t < - 1 \<or> 46 < t) \<longrightarrow> rg_current r \<le> 1"
    "v < 2750 \<longrightarrow> rg_current r \<le> 20" "v < 2050 \<longrightarrow> rg_current r \<le> 10"
  using assms unfolding headset_charge_mode_config_table_def by (auto simp: in_limits_rg, auto simp: rg_def)

section \<open>The monitor keeps the current of the region\<close>

definition follows :: "charger_env \<Rightarrow> charger \<Rightarrow> bool" where
  "follows e c \<longleftrightarrow> (Charger_IsConnected c \<longrightarrow> fast_current c = min (int (ce_region_current e)) 200)"

lemma follows_same: "same_rest c d \<Longrightarrow> follows e c \<Longrightarrow> follows e d"
  by (simp add: follows_def same_rest_def Charger_IsConnected_def)

lemma follows_fields [simp]: "follows e (ch_emit cs c) = follows e c" "follows e (c\<lparr>ch_status := st\<rparr>) = follows e c"
  "follows e (c\<lparr>re_enable_pending := b\<rparr>) = follows e c" "follows e (c\<lparr>test_mode := b\<rparr>) = follows e c"
  "follows e (c\<lparr>force_allow_power_off := b\<rparr>) = follows e c" "follows e (c\<lparr>disallow_dormant := b\<rparr>) = follows e c"
  "follows e (c\<lparr>charger_client_tasks := ts\<rparr>) = follows e c" "follows e (Charger_NotifyClients n c) = follows e c"
  "follows e (Charger_HandleChange c) = follows e c" "follows e (c\<lparr>disable_after_charged_pending := b\<rparr>) = follows e c"
  by (auto simp: follows_def ch_emit_def Charger_IsConnected_def Charger_NotifyClients_def Charger_HandleChange_def split: option.split)

lemma follows_add: "Charger_DisableReasonAdd e r c = Some d \<Longrightarrow> ch_inv c \<Longrightarrow> follows e c \<Longrightarrow> follows e d"
  using add_spec [of e r c d] follows_same [of c d e] by (simp add: ch_inv_def)

lemma follows_clear:
  "Charger_DisableReasonClear e r c = Some d \<Longrightarrow> ch_core c \<Longrightarrow> r \<in> {cd_timeout, cd_request, cd_error, cd_charged, cd_unplugged} \<Longrightarrow>
     follows e c \<Longrightarrow> follows e d"
  using clear_spec [of e r c d] follows_same [of c d e] reasons_disjoint by auto

lemma follows_update:
  assumes "Charger_UpdateCurrent e c = Some d" "ch_inv (c\<lparr>is_connected := k\<rparr>)"
  shows "follows e d" "ch_core d"
proof -
  have "ch_core c" "max_supported_current c = 500" "disable_reason c AND cd_zero \<noteq> 0 \<longleftrightarrow> fast_current c = 0"
    using assms(2) by (simp_all add: ch_inv_def ch_core_def)
  from update_current_spec [OF assms(1) this] show "follows e d" "ch_core d" by (simp_all add: follows_def)
qed

lemma follows_connected_new:
  assumes "Charger_UpdateConnected e b c = Some d" "ch_inv (c\<lparr>is_connected := k\<rparr>)" and new: "is_connected c \<noteq> (if b then 1 else 0)"
  shows "follows e d"
proof -
  let ?c1 = "c\<lparr>is_connected := if b then 1 else 0\<rparr>"
  have core: "ch_core ?c1" using assms(2) by (simp add: ch_inv_def ch_core_def)
  show ?thesis
  proof (cases b)
    case True
    then obtain c2 c3 where u: "Charger_UpdateCurrent e ?c1 = Some c2" "Charger_DisableReasonClear e cd_unplugged c2 = Some c3"
      and d: "follows e d = follows e c3"
      using assms(1) new by (auto simp: Charger_UpdateConnected_def Let_def bind_eq_Some_conv)
    have "ch_inv (?c1\<lparr>is_connected := k\<rparr>)" using assms(2) by simp
    from follows_update [OF u(1) this] follows_clear [OF u(2)] d show ?thesis by simp
  next
    case False
    then obtain c2 c3 c4 where u: "Charger_DisableReasonAdd e cd_unplugged ?c1 = Some c2" "Charger_DisableReasonClear e cd_timeout c2 = Some c3"
      "Charger_DisableReasonClear e cd_charged (c3\<lparr>disable_after_charged_pending := False\<rparr>) = Some c4"
      and d: "follows e d = follows e c4"
      using assms(1) new by (auto simp: Charger_UpdateConnected_def Let_def bind_eq_Some_conv)
    note s = add_spec [OF u(1) core]
    then have "follows e c2" using False by (simp add: follows_def same_rest_def Charger_IsConnected_def)
    moreover have "ch_core c3" using clear_spec [OF u(2)] s by (simp add: reasons_disjoint)
    then have "ch_core (c3\<lparr>disable_after_charged_pending := False\<rparr>)" by (simp add: ch_core_def)
    ultimately show ?thesis using s follows_clear [OF u(2)] follows_clear [OF u(3)] d by simp
  qed
qed

lemma follows_connected:
  assumes "Charger_UpdateConnected e b c = Some d" "ch_inv c" "follows e c"
  shows "follows e d"
proof (cases "is_connected c = (if b then 1 else 0)")
  case True
  with assms show ?thesis by (auto simp: Charger_UpdateConnected_def Let_def)
next
  case False
  with assms(2) follows_connected_new [OF assms(1), of "is_connected c"] show ?thesis by simp
qed

lemma follows_status:
  assumes "Charger_StatusChanged e st c = Some d" "ch_inv c" "follows e c"
  shows "follows e d"
proof -
  let ?c = "c\<lparr>ch_status := st, disable_after_charged_pending := False\<rparr>"
  obtain c1 where c1: "charger_on_status e ?c = Some c1" "follows e d = follows e c1"
    using assms(1) by (auto simp: Charger_StatusChanged_def split: if_splits)
  have error: "follows e z" if "Charger_Error e ?c = Some z" for z
    using that follows_add [of e cd_error ?c] assms(2,3) by (auto simp: Charger_Error_def status_irrelevant)
  have "fast_current c \<le> 200" using assms(2) by (simp add: ch_inv_def ch_core_def)
  then show ?thesis
    using c1 assms(3) error [of c1] by (auto simp: charger_on_status_def split: charger_status.splits if_splits)
qed

lemma charger_follows:
  assumes "charger_do (e, op) c = Some d" "ch_inv c" "follows e c"
  shows "follows e d"
proof -
  have core: "ch_core c" using assms(2) by (simp add: ch_inv_def)
  show ?thesis
  proof (cases op)
    case (Op_Charger_Message m)
    moreover have "ch_core (c\<lparr>re_enable_pending := False\<rparr>)" using core by (simp add: ch_core_def)
    moreover have "follows e d" if "Charger_HandleBatteryLevelUpdate e v c = Some d" for v
      using that core assms(3) follows_clear [of e cd_charged c d] by (auto simp: Charger_HandleBatteryLevelUpdate_def split: if_splits)
    ultimately show ?thesis
      using assms follows_add [of e _ c d] follows_add [of e cd_charged "c\<lparr>disable_after_charged_pending := False\<rparr>" d]
        status_irrelevant(2) [of False c] follows_clear [of e cd_error "c\<lparr>re_enable_pending := False\<rparr>" d] follows_connected [of e _ c d]
        follows_status [of e _ c d]
      by (cases m) (auto split: if_splits)
  next
    case Op_UpdateCurrent
    then show ?thesis using assms follows_update(1) [of e c d "is_connected c"] by simp
  next
    case Op_RestoreState
    then obtain c1 c2 where c: "Charger_DisableReasonClear e cd_request c = Some c1"
      "Charger_DisableReasonClear e cd_timeout (ch_emit [Charging_Timer_Stop] c1) = Some c2" "d = ch_emit [Charging_Timer_Start] c2"
      using assms(1) by (auto simp: Charger_RestoreState_def forced_restart_charging_timer_def bind_eq_Some_conv)
    have "ch_inv c1" using clear_inv [OF c(1) assms(2)] by simp
    then have "ch_core (ch_emit [Charging_Timer_Stop] c1)" by (simp add: ch_inv_def emit_core silent_calls_def)
    moreover have "follows e c1" using follows_clear [OF c(1) core] assms(3) by simp
    ultimately show ?thesis using follows_clear [OF c(2)] by (simp add: c(3))
  next
    case (Op_TestMode b)
    then show ?thesis using assms follows_connected [of e _ "c\<lparr>test_mode := False\<rparr>" d]
      by (auto simp: Charger_TestModeControl_def Let_def record_irrelevant split: if_splits)
  next
    case (Op_Charger_Register t)
    moreover have "follows e (snd (Charger_ClientRegister t c)) = follows e c" by (simp add: Charger_ClientRegister_def Let_def)
    ultimately show ?thesis using assms by auto
  next
    case (Op_Charger_Unregister t)
    then show ?thesis using assms by (auto simp: Charger_ClientUnregister_def split: option.splits)
  next
    case Op_ForceDisable
    then show ?thesis using assms follows_add [of e cd_request c] by (auto simp: Charger_ForceDisable_def)
  qed (use assms core follows_add [of e _ c d] follows_clear [of e _ c d] follows_connected [of e _ c d] follows_status [of e _ c d] in
      \<open>auto simp: Charger_ForceAllowPowerOff_def Charger_DisallowDormant_def Charger_TestChargerConnected_def
        Charger_TestChargerStatus_def split: if_splits\<close>)
qed

section \<open>The invariant of the system\<close>

definition region_fit :: "battery_region_ctx \<Rightarrow> battery_region \<Rightarrow> bool" where
  "region_fit x b \<longleftrightarrow> (case br_region b of None \<Rightarrow> True
     | Some i \<Rightarrow> i < length (table_rows x (br_table b)) \<and> br_state b = region_state (table_rows x (br_table b) ! i))"

definition region_current :: "battery_region_ctx \<Rightarrow> battery_region \<Rightarrow> nat" where
  "region_current x b = (case br_region b of None \<Rightarrow> 0 | Some i \<Rightarrow> rg_current (table_rows x (br_table b) ! i))"

definition charge_inv :: "battery_region_ctx \<Rightarrow> charger \<times> battery_region \<Rightarrow> bool" where
  "charge_inv x s \<longleftrightarrow> ch_inv (fst s) \<and> region_fit x (snd s) \<and> 0 < update_triggers (snd s) \<and>
     (Charger_IsConnected (fst s) \<longrightarrow> fast_current (fst s) = min (int (region_current x (snd s))) 200)"

lemma region_state_known: "region_state r \<noteq> battery_region_unknown"
  by (simp add: region_state_def split: charger_region_type.split)

lemma current_of_region: "region_fit x b \<Longrightarrow> BatteryRegion_GetCurrent x b = Some (region_current x b)"
  using region_state_known by (auto simp: region_fit_def BatteryRegion_GetCurrent_def region_current_def row_at_def Let_def split: option.splits)

lemma with_region_of: "region_fit x b \<Longrightarrow> with_region x b e = Some (e\<lparr>ce_region_current := region_current x b\<rparr>)"
  by (simp add: with_region_def current_of_region)

lemma inv_follows:
  "charge_inv x (c, b) \<longleftrightarrow> ch_inv c \<and> region_fit x b \<and> 0 < update_triggers b \<and> follows (e\<lparr>ce_region_current := region_current x b\<rparr>) c"
  by (auto simp: charge_inv_def follows_def)

lemma timers_only: "\<exists>k. fold charging_timer_call zs b = b\<lparr>charging_timer := k\<rparr>"
proof (induction zs arbitrary: b)
  case Nil
  show ?case by (rule exI [of _ "charging_timer b"]) simp
next
  case (Cons z zs)
  obtain k where "charging_timer_call z b = b\<lparr>charging_timer := k\<rparr>"
  proof (cases z)
    case Charging_Timer_Stop
    then show ?thesis using that [of None] by (simp add: charging_timer_call_def)
  next
    case Charging_Timer_Start
    then show ?thesis using that [of "Some CHARGING_TIMER_TIMEOUT"] by (simp add: charging_timer_call_def)
  qed (use that [of "charging_timer b"] in \<open>simp_all add: charging_timer_call_def\<close>)
  moreover obtain k2 where "fold charging_timer_call zs (b\<lparr>charging_timer := k\<rparr>) = b\<lparr>charging_timer := k\<rparr>\<lparr>charging_timer := k2\<rparr>"
    using Cons.IH by blast
  ultimately show ?case by auto
qed

lemma timer_irrelevant:
  "region_fit x (b\<lparr>charging_timer := k\<rparr>) = region_fit x b" "region_current x (b\<lparr>charging_timer := k\<rparr>) = region_current x b"
  "region_fit x (b\<lparr>charging_timer_timeout := q\<rparr>) = region_fit x b" "region_current x (b\<lparr>charging_timer_timeout := q\<rparr>) = region_current x b"
  "region_fit x (b\<lparr>update_triggers := n\<rparr>) = region_fit x b" "region_current x (b\<lparr>update_triggers := n\<rparr>) = region_current x b"
  "region_fit x (b\<lparr>br_clients := ts\<rparr>) = region_fit x b" "region_current x (b\<lparr>br_clients := ts\<rparr>) = region_current x b"
  "region_fit x (b\<lparr>br_out := cs\<rparr>) = region_fit x b" "region_current x (b\<lparr>br_out := cs\<rparr>) = region_current x b"
  by (simp_all add: region_fit_def region_current_def split: option.split)

lemma sys_charger_inv:
  assumes "charge_do x (e, Sys_Charger op) (c, b) = Some s" "charge_inv x (c, b)"
  shows "charge_inv x s"
proof -
  let ?e = "e\<lparr>ce_region_current := region_current x b\<rparr>"
  have fit: "region_fit x b" and inv: "ch_inv c" "follows ?e c" using assms(2) inv_follows [of x c b e] by simp_all
  obtain c1 where c1: "charger_do (?e, op) c = Some c1" "s = (c1, fold charging_timer_call (drop (length (ch_out c)) (ch_out c1)) b)"
    using assms(1) with_region_of [OF fit, of e] by auto
  obtain k where k: "fold charging_timer_call (drop (length (ch_out c)) (ch_out c1)) b = b\<lparr>charging_timer := k\<rparr>" using timers_only by blast
  have "ch_inv c1" "follows ?e c1" using charger_keeps [OF inv(1) c1(1)] charger_follows [OF c1(1) inv] by simp_all
  then have "charge_inv x (c1, b\<lparr>charging_timer := k\<rparr>)"
    using assms(2) by (simp add: charge_inv_def timer_irrelevant follows_def)
  then show ?thesis by (simp add: c1(2) k)
qed

text \<open>Entering the region of a reading.\<close>

lemma enter_spec:
  assumes "enter_region x e i (table_rows x (br_table b) ! i) (c, b) = Some (c1, b1)" "i < length (table_rows x (br_table b))" "ch_inv c"
  shows "ch_inv c1 \<and> region_fit x b1 \<and> br_region b1 = Some i \<and> br_table b1 = br_table b \<and> update_triggers b1 = update_triggers b \<and>
    fast_current c1 = min (int (region_current x b1)) 200 \<and> is_connected c1 = is_connected c"
proof -
  let ?row = "table_rows x (br_table b) ! i"
  let ?b1 = "b\<lparr>charging_timer := None, br_region := Some i, br_state := region_state ?row\<rparr>"
  have fit: "region_fit x ?b1" using assms(2) by (simp add: region_fit_def)
  have cur: "region_current x ?b1 = rg_current ?row" by (simp add: region_current_def)
  have u: "Charger_UpdateCurrent (e\<lparr>ce_region_current := rg_current ?row\<rparr>) c = Some c1"
    and b1: "br_region b1 = Some i" "br_table b1 = br_table b" "br_state b1 = region_state ?row" "update_triggers b1 = update_triggers b"
    using assms(1) with_region_of [OF fit, of e]
    by (auto simp: enter_region_def Let_def bind_eq_Some_conv cur batteryRegion_ServiceClients_def split: if_splits)
  have c: "ch_core c" "max_supported_current c = 500" "disable_reason c AND cd_zero \<noteq> 0 \<longleftrightarrow> fast_current c = 0"
    using assms(3) by (simp_all add: ch_inv_def)
  have "region_fit x b1" using assms(2) by (simp add: b1 region_fit_def)
  then show ?thesis
    using update_current_inv [OF u assms(3)] update_current_spec [OF u c] by (simp add: b1 region_current_def same_rest_def)
qed

text \<open>Row \<open>i\<close> of the table in use after an update: the previous one, or the one just entered.\<close>

definition in_row :: "battery_region_ctx \<Rightarrow> region_table \<Rightarrow> int \<Rightarrow> int \<Rightarrow> charger \<times> battery_region \<Rightarrow> charger \<times> battery_region \<Rightarrow> nat \<Rightarrow> bool" where
  "in_row x tab v t s s1 i \<longleftrightarrow> br_region (snd s1) = Some i \<and> i < length (table_rows x tab) \<and> br_table (snd s1) = tab \<and>
     br_state (snd s1) = region_state (table_rows x tab ! i) \<and> update_triggers (snd s1) = update_triggers (snd s) \<and>
     (s1 = s \<and> in_limits (table_rows x tab ! i) v t True \<or>
      in_limits (table_rows x tab ! i) v t False \<and> ch_inv (fst s1) \<and> is_connected (fst s1) = is_connected (fst s) \<and>
      fast_current (fst s1) = min (int (region_current x (snd s1))) 200)"

lemma update_spec:
  assumes "batteryRegion_UpdateRegion x e v t (c, b) = Some (c1, b1)" "ch_inv c" "region_fit x b"
    and tab_def: "tab = (if Charger_IsConnected c then Charge_Table else Discharge_Table)"
  shows "(\<exists>i. in_row x tab v t (c, b) (c1, b1) i) \<or>
     c1 = c \<and> b1 = select_table (Charger_IsConnected c) b \<and> first_row (table_rows x tab) v t = None"
proof -
  define b2 where "b2 = select_table (Charger_IsConnected c) b"
  have b2: "br_table b2 = tab" "update_triggers b2 = update_triggers b" "region_fit x b2" "br_region b2 \<noteq> None \<Longrightarrow> b2 = b"
    using assms(3) by (auto simp: b2_def select_table_def tab_def Let_def region_fit_def)
  obtain inside where ins: "batteryRegion_VolTempInRegion x b2 (br_region b2) v t True = Some inside"
    "(if inside then Some (c, b2) else case first_row (table_rows x tab) v t of None \<Rightarrow> Some (c, b2)
       | Some i \<Rightarrow> enter_region x e i (table_rows x tab ! i) (c, b2)) = Some (c1, b1)"
    using assms(1) unfolding batteryRegion_UpdateRegion_def Let_def prod.case b2_def [symmetric] bind_eq_Some_conv b2(1) by blast
  show ?thesis
  proof (cases inside)
    case True
    then obtain i where i: "br_region b2 = Some i" "in_limits (table_rows x tab ! i) v t True"
      using ins(1) b2(1) by (auto simp: batteryRegion_VolTempInRegion_def row_at_def Let_def split: option.splits if_splits)
    have "i < length (table_rows x tab) \<and> br_state b2 = region_state (table_rows x tab ! i)"
      using b2(1,3) i(1) by (simp add: region_fit_def)
    moreover have "c1 = c" "b1 = b2" "b2 = b" using ins(2) True b2(4) i(1) by auto
    ultimately have "in_row x tab v t (c, b) (c1, b1) i" using i b2(1) by (simp add: in_row_def)
    then show ?thesis by blast
  next
    case False
    show ?thesis
    proof (cases "first_row (table_rows x tab) v t")
      case None
      then have "c1 = c \<and> b1 = select_table (Charger_IsConnected c) b" using ins(2) False by (auto simp: b2_def)
      with None show ?thesis by blast
    next
      case (Some i)
      then have e: "enter_region x e i (table_rows x (br_table b2) ! i) (c, b2) = Some (c1, b1)" and i: "i < length (table_rows x tab)"
        "in_limits (table_rows x tab ! i) v t False"
        using ins(2) False first_row_Some [OF Some] by (simp_all add: b2(1))
      from enter_spec [OF e] i b2(1,2) assms(2) have "in_row x tab v t (c, b) (c1, b1) i" by (auto simp: in_row_def region_fit_def)
      then show ?thesis by blast
    qed
  qed
qed

lemma helmet_rows [simp]: "charge_table headset_regions = headset_charge_mode_config_table"
  "discharge_table headset_regions = headset_discharge_mode_config_table"
  by (simp_all add: headset_regions_def)

lemma update_connected_fit:
  assumes "batteryRegion_UpdateRegion headset_regions e v t (c, b) = Some (c1, b1)" "charge_inv headset_regions (c, b\<lparr>update_triggers := Suc n\<rparr>)"
    and "0 \<le> v" "v \<le> 5000" "- 40 \<le> t" "t \<le> 85"
  shows "ch_inv c1 \<and> region_fit headset_regions b1 \<and> update_triggers b1 = update_triggers b \<and> is_connected c1 = is_connected c \<and>
    (Charger_IsConnected c \<longrightarrow> fast_current c1 = min (int (region_current headset_regions b1)) 200 \<and>
      (\<exists>r\<in>set headset_charge_mode_config_table. region_current headset_regions b1 = rg_current r \<and> in_limits r v t True))"
proof -
  let ?x = headset_regions
  let ?tab = "if Charger_IsConnected c then Charge_Table else Discharge_Table"
  have inv: "ch_inv c" "region_fit ?x b" and fol: "Charger_IsConnected c \<longrightarrow> fast_current c = min (int (region_current ?x b)) 200"
    using assms(2) by (simp_all add: charge_inv_def timer_irrelevant)
  show ?thesis using update_spec [OF assms(1) inv refl]
  proof (elim disjE exE)
    fix i
    assume row: "in_row ?x ?tab v t (c, b) (c1, b1) i"
    note row = row [unfolded in_row_def fst_conv snd_conv]
    have fit: "region_fit ?x b1" using row by (simp add: region_fit_def)
    have "ch_inv c1" "is_connected c1 = is_connected c" "Charger_IsConnected c \<longrightarrow> fast_current c1 = min (int (region_current ?x b1)) 200"
      using row inv fol by auto
    moreover have "\<exists>r\<in>set headset_charge_mode_config_table. region_current ?x b1 = rg_current r \<and> in_limits r v t True"
      if con: "Charger_IsConnected c"
    proof (intro bexI conjI)
      let ?r = "headset_charge_mode_config_table ! i"
      show mem: "?r \<in> set headset_charge_mode_config_table" using row con by simp
      show "region_current ?x b1 = rg_current ?r" using row con by (simp add: region_current_def)
      show "in_limits ?r v t True" using row con charge_row_hyst [OF mem] by auto
    qed
    ultimately show ?thesis using fit row by blast
  next
    assume none: "c1 = c \<and> b1 = select_table (Charger_IsConnected c) b \<and> first_row (table_rows ?x ?tab) v t = None"
    then have "\<not> Charger_IsConnected c" using charge_table_covers [OF assms(3-6)] by auto
    moreover have "region_fit ?x b1 \<and> update_triggers b1 = update_triggers b"
      using none inv(2) by (auto simp: select_table_def Let_def region_fit_def)
    ultimately show ?thesis using none inv(1) by simp
  qed
qed

lemma take_simps:
  "take_message REGION_CHARGING_TIMER b = Some b0 \<longleftrightarrow> charging_timer b \<noteq> None \<and> b0 = b\<lparr>charging_timer := None\<rparr>"
  "take_message (REGION_UPDATE_TRIGGER v t) b = Some b0 \<longleftrightarrow> update_triggers b \<noteq> 0 \<and> b0 = b\<lparr>update_triggers := update_triggers b - 1\<rparr>"
  "take_message REGION_CHARGER_DETACHED b = Some b0 \<longleftrightarrow> b0 = b" "take_message REGION_OTHER b = Some b0 \<longleftrightarrow> b0 = b"
  by (auto simp: take_message_def)

lemma sys_region_inv:
  assumes "charge_do headset_regions (e, Sys_Region m) (c, b) = Some s" "charge_inv headset_regions (c, b)" "reading_ok (e, Sys_Region m)"
  shows "charge_inv headset_regions s"
proof (cases "take_message m b")
  case None
  with assms show ?thesis by simp
next
  case (Some b0)
  then have do: "batteryRegion_HandleMessage headset_regions e m (c, b0) = Some s" using assms(1) by simp
  have inv: "ch_inv c" "follows (e\<lparr>ce_region_current := region_current headset_regions b\<rparr>) c" using assms(2) inv_follows [of _ c b e] by simp_all
  show ?thesis
  proof (cases m)
    case REGION_CHARGING_TIMER
    then obtain c1 where c1: "Charger_DisableReasonAdd e cd_timeout c = Some c1" "s = (c1, b0\<lparr>charging_timer_timeout := True\<rparr>)"
      using do by auto
    have b0: "b0 = b\<lparr>charging_timer := None\<rparr>" using Some REGION_CHARGING_TIMER by (simp add: take_simps)
    have "ch_inv c1" "same_rest c c1" using add_inv [OF c1(1) inv(1)] add_spec [OF c1(1)] inv(1) by (simp_all add: ch_inv_def)
    with assms(2) show ?thesis by (simp add: c1(2) b0 charge_inv_def timer_irrelevant same_rest_def Charger_IsConnected_def)
  next
    case (REGION_UPDATE_TRIGGER v t)
    then obtain c1 b1 where u: "batteryRegion_UpdateRegion headset_regions e v t (c, b0) = Some (c1, b1)"
      "s = (c1, b1\<lparr>update_triggers := update_triggers b1 + 1\<rparr>)"
      using do by auto
    have b0: "b0 = b\<lparr>update_triggers := update_triggers b - 1\<rparr>" using Some REGION_UPDATE_TRIGGER by (simp add: take_simps)
    have "charge_inv headset_regions (c, b0\<lparr>update_triggers := Suc 0\<rparr>)" using assms(2) by (simp add: b0 charge_inv_def timer_irrelevant)
    note f = update_connected_fit [OF u(1) this]
    have "0 \<le> v" "v \<le> 5000" "- 40 \<le> t" "t \<le> 85" using assms(3) REGION_UPDATE_TRIGGER by simp_all
    from f [OF this] show ?thesis by (simp add: u(2) charge_inv_def timer_irrelevant Charger_IsConnected_def)
  next
    case REGION_CHARGER_DETACHED
    then obtain c1 where c1: "Charger_DisableReasonClear e cd_timeout c = Some c1"
      "s = (c1, b0\<lparr>charging_timer := None, charging_timer_timeout := False\<rparr>)" using do by auto
    have b0: "b0 = b" using Some REGION_CHARGER_DETACHED by (simp add: take_simps)
    have "ch_inv c1" "same_rest c c1"
      using clear_inv [OF c1(1) inv(1)] clear_spec [OF c1(1)] inv(1) reasons_disjoint(1) by (simp_all add: ch_inv_def)
    with assms(2) show ?thesis by (simp add: c1(2) b0 charge_inv_def timer_irrelevant same_rest_def Charger_IsConnected_def)
  next
    case REGION_OTHER
    with do Some assms(2) show ?thesis by (auto simp: take_simps)
  qed
qed

text \<open>Operations with readings in range.\<close>

definition ranged_do :: "charger_env \<times> charge_op \<Rightarrow> charger \<times> battery_region \<Rightarrow> (charger \<times> battery_region) option" where
  "ranged_do op s = (if reading_ok op then charge_do headset_regions op s else None)"

lemma ranged_keeps:
  assumes "charge_inv headset_regions s" "ranged_do z s = Some s1"
  shows "charge_inv headset_regions s1"
proof -
  obtain e op c b where z: "z = (e, op)" "s = (c, b)" by (metis surj_pair)
  have do: "reading_ok (e, op)" "charge_do headset_regions (e, op) (c, b) = Some s1"
    using assms(2) by (auto simp: ranged_do_def z split: if_splits)
  show ?thesis
  proof (cases op)
    case (Sys_Charger x)
    with do assms(1) z sys_charger_inv show ?thesis by blast
  next
    case (Sys_Region m)
    with do assms(1) z sys_region_inv show ?thesis by blast
  qed (use do assms(1) z in \<open>auto simp: charge_inv_def BatteryRegion_Register_def BatteryRegion_Unregister_def timer_irrelevant\<close>)
qed

interpretation charge: kept_invariant ranged_do "charge_inv headset_regions"
  by unfold_locales (rule ranged_keeps)

lemma ranged_run: "list_all reading_ok ops \<Longrightarrow> run (charge_do headset_regions) ops s = run ranged_do ops s"
  by (induction ops arbitrary: s) (auto simp: ranged_do_def split: option.split)

section \<open>Guarantees\<close>

text \<open>At start-up the region is unknown and its current zero.\<close>

definition charge_init :: "charger_env \<Rightarrow> task \<Rightarrow> (charger \<times> battery_region) option" where
  "charge_init e me = map_option (BatteryRegion_Init me) (Charger_Init (e\<lparr>ce_region_current := 0\<rparr>))"

lemma charge_init_inv:
  assumes "charge_init e me = Some s"
  shows "charge_inv x s"
proof -
  let ?e = "e\<lparr>ce_region_current := 0\<rparr>"
  obtain c where c: "Charger_Init ?e = Some c" "s = BatteryRegion_Init me c" using assms by (auto simp: charge_init_def)
  obtain c1 c2 c3 where i: "Charger_DisableReasonAdd ?e cd_unplugged charger_zero = Some c1" "charger_ConfigureCharger ?e c1 = Some c2"
    "Charger_UpdateConnected ?e (Charger_Status ?e c2 \<noteq> NO_POWER) c2 = Some c3" "c = ch_emit [Battery_Register_Voltage 5] c3"
    using c(1) by (auto simp: Charger_Init_def bind_eq_Some_conv)
  then have "ch_inv (c2\<lparr>is_connected := 0\<rparr>) \<and> is_connected c2 = 2" by (intro init_config [of ?e]) simp
  then have "follows ?e c" using follows_connected_new [OF i(3), of 0] by (simp add: i(4) split: if_splits)
  moreover have "follows ?e (snd (Charger_ClientRegister me c)) = follows ?e c" by (simp add: Charger_ClientRegister_def Let_def)
  ultimately show ?thesis
    using charger_init_inv [OF c(1)] register_inv [of me c] inv_follows [of x "fst s" "snd s" e]
    by (simp add: c(2) BatteryRegion_Init_def region_zero_def region_fit_def region_current_def)
qed

lemma charge_reached:
  assumes "charge_init e me = Some s0" "list_all reading_ok ops" "run (charge_do headset_regions) ops s0 = Some s"
  shows "charge_inv headset_regions s"
  using charge.run_keeps [OF charge_init_inv [OF assms(1)]] assms(3) ranged_run [OF assms(2)] by simp

text \<open>C10: The charger and the battery region agree. Whatever calls and messages reach the two modules, in any order, with any answers of the
  hardware and any readings in the range of the table: whenever a cable is connected, the configured charging current is the one of the
  region the battery is in, cut to the 200 mA of the internal regulator, the charger is off if that current is zero,
  and the next evaluation of the region is always pending.\<close>

theorem charge_current_follows_region:
  assumes "charge_init e me = Some s0" and "list_all reading_ok ops" and "run (charge_do headset_regions) ops s0 = Some (c, b)"
  shows "\<exists>i. BatteryRegion_GetCurrent headset_regions b = Some i \<and> 0 < update_triggers b \<and>
    (Charger_IsConnected c \<longrightarrow> fast_current c = min (int i) 200 \<and> (i = 0 \<longrightarrow> \<not> Charger_IsEnabled c))"
proof -
  have inv: "charge_inv headset_regions (c, b)" by (rule charge_reached [OF assms])
  then have "BatteryRegion_GetCurrent headset_regions b = Some (region_current headset_regions b)"
    by (intro current_of_region) (simp add: charge_inv_def)
  moreover have "fast_current c = 0 \<longrightarrow> \<not> Charger_IsEnabled c"
    using inv by (auto simp: charge_inv_def ch_inv_def ch_core_def Charger_IsEnabled_def)
  ultimately show ?thesis using inv by (auto simp: charge_inv_def)
qed

lemma update_row_limits:
  assumes "charge_init e0 me = Some s0" and "list_all reading_ok ops" and "run (charge_do headset_regions) ops s0 = Some (c, b)"
    and "charge_do headset_regions (e, Sys_Region (REGION_UPDATE_TRIGGER v t)) (c, b) = Some (c1, b1)"
    and "0 \<le> v" and "v \<le> 5000" and "- 40 \<le> t" and "t \<le> 85" and "Charger_IsConnected c1"
  shows "ch_inv c1 \<and> (\<exists>r\<in>set headset_charge_mode_config_table. in_limits r v t True \<and> fast_current c1 = min (int (rg_current r)) 200)"
proof -
  let ?x = headset_regions
  have inv: "charge_inv ?x (c, b)" by (rule charge_reached [OF assms(1-3)])
  let ?b0 = "b\<lparr>update_triggers := update_triggers b - 1\<rparr>"
  have "take_message (REGION_UPDATE_TRIGGER v t) b = Some ?b0" using inv by (simp add: take_simps charge_inv_def)
  then obtain b2 where u: "batteryRegion_UpdateRegion ?x e v t (c, ?b0) = Some (c1, b2)" using assms(4) by auto
  have "charge_inv ?x (c, ?b0\<lparr>update_triggers := Suc 0\<rparr>)" using inv by (simp add: charge_inv_def timer_irrelevant)
  note f = update_connected_fit [OF u this assms(5-8)]
  then have "Charger_IsConnected c" using assms(9) by (simp add: Charger_IsConnected_def)
  with f show ?thesis by auto
qed

text \<open>C11: The limits of the table reach the hardware. After every evaluation of the region with a cable connected, in any reachable state:
  above 4376 mV the charger is off; above 3350 mV and colder than -1 or warmer than 46 degrees at most 1 mA is
  configured; below 2750 mV at most 20 mA and below 2050 mV at most 10 mA; always at most 200 mA.\<close>

theorem charge_limits_respected:
  assumes "charge_init e0 me = Some s0" and "list_all reading_ok ops" and "run (charge_do headset_regions) ops s0 = Some (c, b)"
    and "charge_do headset_regions (e, Sys_Region (REGION_UPDATE_TRIGGER v t)) (c, b) = Some (c1, b1)"
    and "0 \<le> v" and "v \<le> 5000" and "- 40 \<le> t" and "t \<le> 85" and "Charger_IsConnected c1"
  shows "fast_current c1 \<le> 200 \<and> (4376 < v \<longrightarrow> \<not> Charger_IsEnabled c1) \<and>
    (3350 < v \<and> (t < - 1 \<or> 46 < t) \<longrightarrow> fast_current c1 \<le> 1) \<and>
    (v < 2750 \<longrightarrow> fast_current c1 \<le> 20) \<and> (v < 2050 \<longrightarrow> fast_current c1 \<le> 10)"
proof -
  obtain r where r: "ch_inv c1" "r \<in> set headset_charge_mode_config_table" "in_limits r v t True"
    "fast_current c1 = min (int (rg_current r)) 200" using update_row_limits [OF assms] by blast
  have "fast_current c1 = 0 \<longrightarrow> \<not> Charger_IsEnabled c1" using r(1) by (auto simp: ch_inv_def ch_core_def Charger_IsEnabled_def)
  with r(4) charge_row_limits [OF r(2,3)] show ?thesis by (auto simp: min_def)
qed

text \<open>C33: In the critical region the temperature is ignored. Between 3050 and 3250 mV every evaluation of the region with a cable connected, in any
  reachable state, configures the full 200 mA, at every temperature from -40 to 85 degrees; the rows of the same table above 3300 mV
  allow more than 1 mA from 0 to 45 degrees only.\<close>

theorem critical_region_ignores_temperature:
  assumes "charge_init e0 me = Some s0" and "list_all reading_ok ops" and "run (charge_do headset_regions) ops s0 = Some (c, b)"
    and "charge_do headset_regions (e, Sys_Region (REGION_UPDATE_TRIGGER v t)) (c, b) = Some (c1, b1)"
    and "3050 < v" and "v < 3250" and "- 40 \<le> t" and "t \<le> 85" and "Charger_IsConnected c1"
  shows "fast_current c1 = 200"
proof -
  have "0 \<le> v" "v \<le> 5000" using assms(5,6) by simp_all
  note f = update_row_limits [OF assms(1-4) this assms(7-9)]
  then obtain r where r: "r \<in> set headset_charge_mode_config_table" "in_limits r v t True"
    "fast_current c1 = min (int (rg_current r)) 200" by blast
  have "rg_current r = 500" using r(1,2) assms(5,6) unfolding headset_charge_mode_config_table_def
    by (auto simp: in_limits_rg) (auto simp: rg_def)
  then show ?thesis using r(3) by simp
qed

section \<open>Replugging and the charging timer\<close>

definition no_timer_start :: "charger \<Rightarrow> charger \<Rightarrow> bool" where
  "no_timer_start c d \<longleftrightarrow> (\<exists>zs. ch_out d = ch_out c @ zs \<and> Charging_Timer_Start \<notin> set zs)"

lemma quiet_refl: "ch_out d = ch_out c \<Longrightarrow> no_timer_start c d"
  by (simp add: no_timer_start_def)

lemma quiet_trans: "no_timer_start c d \<Longrightarrow> no_timer_start d f \<Longrightarrow> no_timer_start c f"
  by (auto simp: no_timer_start_def)

lemma quiet_configure: "ch_configure e k v c = Some d \<Longrightarrow> no_timer_start c d"
  by (auto simp: configure_Some no_timer_start_def ch_emit_def)

lemma quiet_fields: "no_timer_start (c\<lparr>is_enabled := y\<rparr>) d = no_timer_start c d" "no_timer_start (c\<lparr>disable_reason := w\<rparr>) d = no_timer_start c d"
  "no_timer_start (c\<lparr>fast_current := i\<rparr>) d = no_timer_start c d" "no_timer_start (c\<lparr>is_connected := n\<rparr>) d = no_timer_start c d" "no_timer_start c (d\<lparr>disable_reason := w\<rparr>) = no_timer_start c d"
  by (simp_all add: no_timer_start_def)

lemma quiet_clear: "Charger_DisableReasonClear e r c = Some d \<Longrightarrow> no_timer_start c d"
  by (auto simp: Charger_DisableReasonClear_def Charger_Enable_def Let_def quiet_fields intro: quiet_refl dest: quiet_configure split: if_splits)

lemma quiet_add:
  assumes "Charger_DisableReasonAdd e r c = Some d"
  shows "no_timer_start c d"
proof -
  obtain c2 where c2: "(if r \<noteq> 0 then map_option (\<lambda>c1. c1\<lparr>disable_reason := disable_reason c1 OR r\<rparr>)
      (if disable_reason c = 0 then Charger_Disable e c else Some c) else Some c) = Some c2"
    "(if r \<noteq> cd_charged then Charger_DisableReasonClear e cd_charged c2 else Some c2) = Some d"
    using assms unfolding Charger_DisableReasonAdd_def bind_eq_Some_conv by blast
  have "no_timer_start c c2" using c2(1)
    by (auto simp: Charger_Disable_def quiet_fields intro: quiet_refl dest: quiet_configure split: if_splits)
  moreover have "no_timer_start c2 d" using c2(2) by (auto intro: quiet_refl dest: quiet_clear split: if_splits)
  ultimately show ?thesis by (rule quiet_trans)
qed

lemma quiet_current:
  assumes "charger_SetFastCurrent e v c = Some d"
  shows "no_timer_start c d"
proof -
  obtain c1 c2 w where c: "(if v = 0 then Charger_DisableReasonAdd e cd_zero c else Some c) = Some c1"
    "ch_configure e CHARGER_FAST_CURRENT w c1 = Some c2"
    "(if w \<noteq> 0 then Charger_DisableReasonClear e cd_zero (c2\<lparr>fast_current := w\<rparr>) else Some (c2\<lparr>fast_current := w\<rparr>)) = Some d"
    using assms unfolding charger_SetFastCurrent_def Let_def bind_eq_Some_conv by blast
  have "no_timer_start c c1" using c(1) quiet_add [of e cd_zero c c1] quiet_refl [of c c] by (auto split: if_splits)
  moreover have "no_timer_start c2 d" using c(3) quiet_clear [of e cd_zero "c2\<lparr>fast_current := w\<rparr>" d] by (auto simp: quiet_fields intro: quiet_refl split: if_splits)
  ultimately show ?thesis using quiet_configure [OF c(2)] quiet_trans by blast
qed

lemma quiet_connected:
  assumes "Charger_UpdateConnected e True c = Some d"
  shows "no_timer_start c d"
proof (cases "is_connected c = 1")
  case True
  then show ?thesis using assms by (auto simp: Charger_UpdateConnected_def intro: quiet_refl)
next
  case False
  then obtain c2 c3 where u: "Charger_UpdateCurrent e (c\<lparr>is_connected := 1\<rparr>) = Some c2" "Charger_DisableReasonClear e cd_unplugged c2 = Some c3"
    and d: "d = Charger_NotifyClients Notice_ATTACHED (Charger_HandleChange c3)"
    using assms by (auto simp: Charger_UpdateConnected_def Let_def bind_eq_Some_conv)
  have "no_timer_start c c2" using u(1) quiet_current [of e _ "c\<lparr>is_connected := 1\<rparr>" c2]
    by (auto simp: Charger_UpdateCurrent_def Let_def quiet_fields intro: quiet_refl split: if_splits)
  moreover have "no_timer_start c3 d" by (auto simp: d no_timer_start_def Charger_NotifyClients_def Charger_HandleChange_def ch_emit_def split: option.split)
  ultimately show ?thesis using quiet_clear [OF u(2)] quiet_trans by blast
qed

lemma fold_quiet: "Charging_Timer_Start \<notin> set zs \<Longrightarrow> charging_timer b = None \<Longrightarrow> fold charging_timer_call zs b = b"
proof (induction zs)
  case (Cons z zs)
  then have "charging_timer_call z b = b" by (cases z) (auto simp: charging_timer_call_def)
  with Cons show ?case by simp
qed simp

text \<open>A reading inside the region changes nothing.\<close>

lemma steady:
  assumes "charge_inv headset_regions (c, b)" "Charger_IsConnected c" "br_table b = Charge_Table" "br_region b = Some i"
    "in_limits (headset_charge_mode_config_table ! i) v t True"
  shows "charge_do headset_regions (e, Sys_Region (REGION_UPDATE_TRIGGER v t)) (c, b) = Some (c, b)"
proof -
  let ?b0 = "b\<lparr>update_triggers := update_triggers b - 1\<rparr>"
  have i: "i < length headset_charge_mode_config_table" "0 < update_triggers b" using assms(1,3,4) by (auto simp: charge_inv_def region_fit_def)
  then have "take_message (REGION_UPDATE_TRIGGER v t) b = Some ?b0" by (simp add: take_simps)
  moreover have "batteryRegion_VolTempInRegion headset_regions ?b0 (Some i) v t True = Some True"
    using assms(3,5) i by (simp add: batteryRegion_VolTempInRegion_def row_at_def)
  moreover have "select_table True ?b0 = ?b0" using assms(3) by (simp add: select_table_def)
  ultimately show ?thesis using i(2) assms(2,4) by (simp add: batteryRegion_UpdateRegion_def)
qed

lemma steady_run:
  assumes "charge_inv headset_regions (c, b)" "Charger_IsConnected c" "br_table b = Charge_Table" "br_region b = Some i"
    "\<forall>(e, v, t)\<in>set rs. in_limits (headset_charge_mode_config_table ! i) v t True"
  shows "run (charge_do headset_regions) (map (\<lambda>(e, v, t). (e, Sys_Region (REGION_UPDATE_TRIGGER v t))) rs) (c, b) = Some (c, b)"
  using assms(5)
proof (induction rs)
  case (Cons r rs)
  obtain e v t where r: "r = (e, v, t)" by (cases r)
  then have "in_limits (headset_charge_mode_config_table ! i) v t True" using Cons.prems by simp
  from steady [OF assms(1-4) this] Cons show ?case by (simp add: r del: charge_do.simps)
qed simp

lemma unplug_step:
  assumes "charge_inv headset_regions (c, b)" "accepting e" "\<not> test_mode c" "disable_reason c = 0"
  shows "\<exists>c1 k. charge_do headset_regions (e, Sys_Charger (Op_Charger_Message (MESSAGE_CHARGER_CHANGED False))) (c, b) =
      Some (c1, b\<lparr>charging_timer := k\<rparr>) \<and> disable_reason c1 = cd_unplugged \<and> \<not> test_mode c1 \<and> is_connected c1 = 0"
proof -
  let ?e = "e\<lparr>ce_region_current := region_current headset_regions b\<rparr>"
  have inv: "ch_inv c" "region_fit headset_regions b" using assms(1) by (simp_all add: charge_inv_def)
  then have con: "is_connected c \<noteq> 0" using assms(4) by (auto simp: ch_inv_def)
  let ?c = "c\<lparr>is_connected := 0\<rparr>"
  have acc: "accepting ?e" using assms(2) by (simp add: accepting_def)
  obtain c2 where c2: "Charger_DisableReasonAdd ?e cd_unplugged ?c = Some c2" using total_reasons(1) [OF acc] by blast
  obtain c3 where c3: "Charger_DisableReasonClear ?e cd_timeout c2 = Some c3" using total_reasons(2) [OF acc] by blast
  let ?c3 = "c3\<lparr>disable_after_charged_pending := False\<rparr>"
  obtain c4 where c4: "Charger_DisableReasonClear ?e cd_charged ?c3 = Some c4" using total_reasons(2) [OF acc] by blast
  have core: "ch_core ?c" using inv(1) by (simp add: ch_inv_def ch_core_def)
  note s2 = add_spec [OF c2 core]
  then have core2: "ch_core c2" by simp
  note s3 = clear_spec [OF c3 core2]
  then have "ch_core c3" by (simp add: reasons_disjoint)
  then have core3: "ch_core ?c3" by (simp add: ch_core_def)
  note s4 = clear_spec [OF c4 core3]
  let ?d = "Charger_NotifyClients Notice_DETACHED (Charger_HandleChange c4)"
  have "Charger_UpdateConnected ?e False c = Some ?d" using con c2 c3 c4 by (simp add: Charger_UpdateConnected_def)
  moreover have "disable_reason ?d = disable_reason c4" "test_mode ?d = test_mode c4" "is_connected ?d = is_connected c4"
    by (auto simp: Charger_NotifyClients_def Charger_HandleChange_def ch_emit_def split: option.split)
  moreover have "disable_reason c4 = cd_unplugged"
    using s2 s3 s4 assms(4) by (simp add: reasons_disjoint reasons_with_def charger_defs)
  moreover have "test_mode c4 = test_mode c" "is_connected c4 = 0" using s2 s3 s4 by (simp_all add: reasons_disjoint same_rest_def)
  ultimately show ?thesis
    using assms(3) with_region_of [OF inv(2), of e] timers_only [of "drop (length (ch_out c)) (ch_out ?d)" b] by auto
qed

lemma plug_step:
  assumes "charge_inv headset_regions (c, b)" "accepting e" "\<not> test_mode c" "disable_reason c = cd_unplugged" "charging_timer b = None"
    "region_current headset_regions b \<noteq> 0"
  shows "\<exists>c1. charge_do headset_regions (e, Sys_Charger (Op_Charger_Message (MESSAGE_CHARGER_CHANGED True))) (c, b) = Some (c1, b) \<and>
      Charger_IsConnected c1 \<and> Charger_IsEnabled c1"
proof -
  let ?e = "e\<lparr>ce_region_current := region_current headset_regions b\<rparr>"
  let ?c = "c\<lparr>is_connected := 1\<rparr>"
  have inv: "ch_inv c" "region_fit headset_regions b" using assms(1) by (simp_all add: charge_inv_def)
  then have con: "is_connected c = 0" using assms(4) by (auto simp: ch_inv_def)
  have acc: "accepting ?e" using assms(2) by (simp add: accepting_def)
  obtain c2 where c2: "Charger_UpdateCurrent ?e ?c = Some c2" using total_current(2) [OF acc] by blast
  obtain c3 where c3: "Charger_DisableReasonClear ?e cd_unplugged c2 = Some c3" using total_reasons(2) [OF acc] by blast
  have core: "ch_core ?c" "max_supported_current ?c = 500" "disable_reason ?c AND cd_zero \<noteq> 0 \<longleftrightarrow> fast_current ?c = 0"
    using inv(1) by (simp_all add: ch_inv_def ch_core_def)
  note s2 = update_current_spec [OF c2 core]
  then have core2: "ch_core c2" by simp
  note s3 = clear_spec [OF c3 core2]
  have "disable_reason c2 AND cd_zero = 0" using s2 assms(6) by auto
  moreover have "fast_current c2 \<noteq> 0" "cd_zero AND NOT cd_zero = 0" using s2 assms(6) by simp_all
  then have "disable_reason c2 AND NOT cd_zero = cd_unplugged AND NOT cd_zero" using s2 assms(4) by auto
  ultimately have "disable_reason c2 = cd_unplugged" by (auto simp: bit_eq_iff bit_simps charger_defs)
  then have "disable_reason c3 = 0" using s3 by (simp add: reasons_disjoint)
  then have "is_enabled c3" using s3 by (simp add: reasons_disjoint ch_core_def)
  let ?d = "Charger_NotifyClients Notice_ATTACHED (Charger_HandleChange c3)"
  have d: "Charger_UpdateConnected ?e True c = Some ?d" using con c2 c3 by (simp add: Charger_UpdateConnected_def)
  have "is_enabled ?d = is_enabled c3" "is_connected ?d = is_connected c3"
    by (auto simp: Charger_NotifyClients_def Charger_HandleChange_def ch_emit_def split: option.split)
  moreover have "is_connected c3 = 1" using s2 s3 by (simp add: reasons_disjoint same_rest_def)
  moreover have "fold charging_timer_call (drop (length (ch_out c)) (ch_out ?d)) b = b"
    using quiet_connected [OF d] assms(5) fold_quiet [of _ b] by (auto simp: no_timer_start_def)
  ultimately show ?thesis
    using d assms(3) with_region_of [OF inv(2), of e] \<open>is_enabled c3\<close> by (simp add: Charger_IsConnected_def Charger_IsEnabled_def)
qed

text \<open>C32: A quick replug loses the safety timer. Take any reachable state in which the battery charges in a region of the charge table. If the cable
  is removed and inserted again before the next evaluation of the region, the message about the removal cancels the charging
  timer, charging resumes with the same current, and since the region has not changed nothing starts the timer again: for any
  number of further readings inside the region the charger stays on without the timer that should end the charge.\<close>

theorem replug_loses_charging_timer:
  assumes "charge_init e0 me = Some s0" and "list_all reading_ok ops" and "run (charge_do headset_regions) ops s0 = Some (c, b)"
    and "\<not> test_mode c" and "Charger_IsEnabled c" and "br_table b = Charge_Table" and "br_region b = Some i"
    and "\<forall>k v. ce_accepts e k v"
    and "\<forall>(e, v, t)\<in>set rs. in_limits (headset_charge_mode_config_table ! i) v t True"
  shows "\<exists>c1 b1. run (charge_do headset_regions)
      ([(e, Sys_Charger (Op_Charger_Message (MESSAGE_CHARGER_CHANGED False))), (e, Sys_Region REGION_CHARGER_DETACHED),
        (e, Sys_Charger (Op_Charger_Message (MESSAGE_CHARGER_CHANGED True)))] @
       map (\<lambda>(e, v, t). (e, Sys_Region (REGION_UPDATE_TRIGGER v t))) rs) (c, b) = Some (c1, b1) \<and>
    Charger_IsEnabled c1 \<and> fast_current c1 = fast_current c \<and> charging_timer b1 = None"
proof -
  let ?x = headset_regions
  let ?do = "charge_do ?x"
  have inv: "charge_inv ?x (c, b)" by (rule charge_reached [OF assms(1-3)])
  have acc: "accepting e" using assms(8) by (simp add: accepting_def)
  have r0: "disable_reason c = 0" and con: "Charger_IsConnected c"
    using inv assms(5) by (auto simp: charge_inv_def ch_inv_def ch_core_def Charger_IsEnabled_def Charger_IsConnected_def)
  have cur: "fast_current c = min (int (region_current ?x b)) 200" "region_current ?x b \<noteq> 0"
    using inv con r0 by (auto simp: charge_inv_def ch_inv_def)
  obtain c1 k where s1: "?do (e, Sys_Charger (Op_Charger_Message (MESSAGE_CHARGER_CHANGED False))) (c, b) = Some (c1, b\<lparr>charging_timer := k\<rparr>)"
    "disable_reason c1 = cd_unplugged" "\<not> test_mode c1" using unplug_step [OF inv acc assms(4) r0] by blast
  have i1: "charge_inv ?x (c1, b\<lparr>charging_timer := k\<rparr>)" by (rule sys_charger_inv [OF s1(1) inv])
  let ?b2 = "b\<lparr>charging_timer := None, charging_timer_timeout := False\<rparr>"
  obtain c2 where c2: "Charger_DisableReasonClear e cd_timeout c1 = Some c2" using total_reasons(2) [OF acc] by blast
  have s2: "?do (e, Sys_Region REGION_CHARGER_DETACHED) (c1, b\<lparr>charging_timer := k\<rparr>) = Some (c2, ?b2)"
    using c2 by (simp add: take_message_def)
  have i2: "charge_inv ?x (c2, ?b2)" by (rule sys_region_inv [OF s2 i1]) simp
  have "disable_reason c2 = cd_unplugged" "\<not> test_mode c2"
    using clear_spec [OF c2] i1 s1(2,3) by (simp_all add: charge_inv_def ch_inv_def reasons_disjoint same_rest_def charger_defs)
  then obtain c3 where s3: "?do (e, Sys_Charger (Op_Charger_Message (MESSAGE_CHARGER_CHANGED True))) (c2, ?b2) = Some (c3, ?b2)"
    "Charger_IsConnected c3" "Charger_IsEnabled c3"
    using plug_step [OF i2 acc] cur(2) by (auto simp: timer_irrelevant simp del: charge_do.simps)
  have i3: "charge_inv ?x (c3, ?b2)" by (rule sys_charger_inv [OF s3(1) i2])
  have "fast_current c3 = fast_current c" using i3 s3(2) cur(1) by (simp add: charge_inv_def timer_irrelevant)
  moreover have "run ?do (map (\<lambda>(e, v, t). (e, Sys_Region (REGION_UPDATE_TRIGGER v t))) rs) (c3, ?b2) = Some (c3, ?b2)"
    using assms(6,7,9) by (intro steady_run [OF i3 s3(2)]) simp_all
  ultimately show ?thesis using s1(1) s2 s3 by (simp del: charge_do.simps)
qed

section \<open>Witnesses\<close>

definition charge_demo :: "(charger_env \<times> charge_op) list \<Rightarrow> ((charger \<times> battery_region) \<times> charger \<times> battery_region) option" where
  "charge_demo ops = Option.bind (charge_init (demo_charger_env 0) 7) (\<lambda>s0. map_option (Pair s0) (run (charge_do headset_regions) ops s0))"

definition charge_sat :: "(charger \<Rightarrow> battery_region \<Rightarrow> bool) \<Rightarrow> ((charger \<times> battery_region) \<times> charger \<times> battery_region) option \<Rightarrow> bool" where
  "charge_sat P z = (case z of None \<Rightarrow> False | Some (s0, c, b) \<Rightarrow> P c b)"

lemma charge_obtain:
  assumes "charge_sat P (charge_demo ops)"
  obtains s0 c b where "charge_init (demo_charger_env 0) 7 = Some s0" "run (charge_do headset_regions) ops s0 = Some (c, b)" "P c b"
  using assms by (auto simp: charge_sat_def charge_demo_def bind_eq_Some_conv split: option.splits)

definition warm :: "(charger_env \<times> charge_op) list" where
  "warm = [(demo_charger_env 0, Sys_Region (REGION_UPDATE_TRIGGER 3700 20))]"

lemma warm_ok: "list_all reading_ok warm"
  by (simp add: warm_def)

lemma warm_state:
  "charge_sat (\<lambda>c b. Charger_IsConnected c \<and> Charger_IsEnabled c \<and> \<not> test_mode c \<and> br_table b = Charge_Table \<and> br_region b = Some 4 \<and>
     charging_timer b = Some 509) (charge_demo warm)"
  by code_simp

theorem charge_current_follows_region_witness:
  "\<exists>s0 c b. charge_init (demo_charger_env 0) 7 = Some s0 \<and> run (charge_do headset_regions) warm s0 = Some (c, b) \<and>
     Charger_IsEnabled c \<and> BatteryRegion_GetCurrent headset_regions b = Some 500 \<and> fast_current c = 200"
proof -
  obtain s0 c b where s: "charge_init (demo_charger_env 0) 7 = Some s0" "run (charge_do headset_regions) warm s0 = Some (c, b)"
    "Charger_IsConnected c \<and> Charger_IsEnabled c \<and> \<not> test_mode c \<and> br_table b = Charge_Table \<and> br_region b = Some 4 \<and> charging_timer b = Some 509"
    using charge_obtain [OF warm_state] .
  have "region_current headset_regions b = 500"
    using s(3) by (simp add: region_current_def headset_charge_mode_config_table_def rg_def)
  moreover have "region_fit headset_regions b" using charge_reached [OF s(1) warm_ok s(2)] by (simp add: charge_inv_def)
  ultimately have "BatteryRegion_GetCurrent headset_regions b = Some 500" by (simp add: current_of_region)
  moreover from this have "fast_current c = 200" using charge_current_follows_region [OF s(1) warm_ok s(2)] s(3) by auto
  ultimately show ?thesis using s by blast
qed

lemma step_of_run:
  assumes "charge_sat P (charge_demo (warm @ [z]))"
  obtains s0 c b c1 b1 where "charge_init (demo_charger_env 0) 7 = Some s0" "run (charge_do headset_regions) warm s0 = Some (c, b)"
    "charge_do headset_regions z (c, b) = Some (c1, b1)" "P c1 b1"
proof -
  obtain s0 c1 b1 where s: "charge_init (demo_charger_env 0) 7 = Some s0" "run (charge_do headset_regions) (warm @ [z]) s0 = Some (c1, b1)" "P c1 b1"
    using charge_obtain [OF assms] .
  then obtain c b where "run (charge_do headset_regions) warm s0 = Some (c, b)" "charge_do headset_regions z (c, b) = Some (c1, b1)"
    by (auto simp: run_append simp del: charge_do.simps split: option.splits)
  with s that show ?thesis by blast
qed

theorem charge_limits_respected_witness:
  "\<exists>s0 c b c1 b1. charge_init (demo_charger_env 0) 7 = Some s0 \<and> run (charge_do headset_regions) warm s0 = Some (c, b) \<and>
     charge_do headset_regions (demo_charger_env 0, Sys_Region (REGION_UPDATE_TRIGGER 3700 60)) (c, b) = Some (c1, b1) \<and>
     Charger_IsConnected c1 \<and> fast_current c1 \<le> 1"
proof -
  have "charge_sat (\<lambda>c b. Charger_IsConnected c) (charge_demo (warm @ [(demo_charger_env 0, Sys_Region (REGION_UPDATE_TRIGGER 3700 60))]))"
    by code_simp
  then obtain s0 c b c1 b1 where s: "charge_init (demo_charger_env 0) 7 = Some s0" "run (charge_do headset_regions) warm s0 = Some (c, b)"
    "charge_do headset_regions (demo_charger_env 0, Sys_Region (REGION_UPDATE_TRIGGER 3700 60)) (c, b) = Some (c1, b1)" "Charger_IsConnected c1"
    by (rule step_of_run)
  have "fast_current c1 \<le> 1" using charge_limits_respected [OF s(1) warm_ok s(2,3)] s(4) by simp
  with s show ?thesis by blast
qed

theorem critical_region_ignores_temperature_witness:
  "\<exists>s0 c b c1 b1. charge_init (demo_charger_env 0) 7 = Some s0 \<and> run (charge_do headset_regions) warm s0 = Some (c, b) \<and>
     charge_do headset_regions (demo_charger_env 0, Sys_Region (REGION_UPDATE_TRIGGER 3100 80)) (c, b) = Some (c1, b1) \<and>
     Charger_IsEnabled c1 \<and> fast_current c1 = 200"
proof -
  have "charge_sat (\<lambda>c b. Charger_IsConnected c \<and> Charger_IsEnabled c)
    (charge_demo (warm @ [(demo_charger_env 0, Sys_Region (REGION_UPDATE_TRIGGER 3100 80))]))" by code_simp
  then obtain s0 c b c1 b1 where s: "charge_init (demo_charger_env 0) 7 = Some s0" "run (charge_do headset_regions) warm s0 = Some (c, b)"
    "charge_do headset_regions (demo_charger_env 0, Sys_Region (REGION_UPDATE_TRIGGER 3100 80)) (c, b) = Some (c1, b1)"
    "Charger_IsConnected c1 \<and> Charger_IsEnabled c1" by (rule step_of_run)
  have "fast_current c1 = 200" using critical_region_ignores_temperature [OF s(1) warm_ok s(2,3)] s(4) by simp
  with s show ?thesis by blast
qed

theorem replug_loses_charging_timer_witness:
  "\<exists>s0 c b c1 b1. charge_init (demo_charger_env 0) 7 = Some s0 \<and> run (charge_do headset_regions) warm s0 = Some (c, b) \<and>
     charging_timer b = Some 509 \<and>
     run (charge_do headset_regions)
      ([(demo_charger_env 0, Sys_Charger (Op_Charger_Message (MESSAGE_CHARGER_CHANGED False))), (demo_charger_env 0, Sys_Region REGION_CHARGER_DETACHED),
        (demo_charger_env 0, Sys_Charger (Op_Charger_Message (MESSAGE_CHARGER_CHANGED True)))] @
       map (\<lambda>(e, v, t). (e, Sys_Region (REGION_UPDATE_TRIGGER v t))) (replicate 1000 (demo_charger_env 0, 4000, 30))) (c, b) = Some (c1, b1) \<and>
     Charger_IsEnabled c1 \<and> charging_timer b1 = None"
proof -
  obtain s0 c b where s: "charge_init (demo_charger_env 0) 7 = Some s0" "run (charge_do headset_regions) warm s0 = Some (c, b)"
    "Charger_IsConnected c \<and> Charger_IsEnabled c \<and> \<not> test_mode c \<and> br_table b = Charge_Table \<and> br_region b = Some 4 \<and> charging_timer b = Some 509"
    using charge_obtain [OF warm_state] .
  have "in_limits (headset_charge_mode_config_table ! 4) 4000 30 True" by (simp add: headset_charge_mode_config_table_def in_limits_rg)
  then have rs: "\<forall>(e, v, t)\<in>set (replicate 1000 (demo_charger_env 0, 4000, 30)). in_limits (headset_charge_mode_config_table ! 4) v t True"
    by auto
  have acc: "\<forall>k v. ce_accepts (demo_charger_env 0) k v" by (simp add: demo_charger_env_def)
  from s(3) have h: "\<not> test_mode c" "Charger_IsEnabled c" "br_table b = Charge_Table" "br_region b = Some 4" by simp_all
  note replug_loses_charging_timer [OF s(1) warm_ok s(2) h acc rs]
  with s show ?thesis by blast
qed

end
