(* ===== verification/Spec2Isabelle.thy ===== *)
theory Spec2Isabelle
  imports Vitals_Demo Application System_State Power_Safety Soc Battery_Safety
begin

text \<open>
  A verification development for the Smart Helmet firmware: the application module under
  \<^verbatim>\<open>src/headset/src/smart_helmet/\<close>, the headset state machine that drives it, and the power domain of the
  development kit below both, in the build configuration \<^verbatim>\<open>SH_debug\<close> of \<^verbatim>\<open>headset.x2p\<close>. The helmet samples a contact sensor,
  four gas channels and an I2C sensor hub, estimates pulse, respiration and motion, detects falls, shows a status
  screen on an OLED, and reports by text lines through a Wi-SUN radio module on a UART.

  \<^bold>\<open>Parts of the program and how they interact\<close>

  \<^item> \<^verbatim>\<open>smart_helmet_vitals.c\<close> turns samples into window results. Samples arrive by
    \<open>SmartHelmet_VitalsOnSensSample\<close> (from the ADC client, at 25 Hz) and \<open>SmartHelmet_VitalsPushAccel\<close>
    (from the motion poll, the log and the report); \<open>SmartHelmet_VitalsProcess\<close> evaluates a window.
  \<^item> \<^verbatim>\<open>smart_helmet_adc.c\<close> shares one converter between a 1 s gas scan and a 40 ms SENS tick and calls the
    vitals layer with each sample or each dropped tick.
  \<^item> \<^verbatim>\<open>smart_helmet_i2c.c\<close> drives two I2C buses; \<^verbatim>\<open>smart_helmet_sensors.c\<close> brings up and polls the devices on
    them (CCS811, HDC1080, LIS3DH, MLX90614, SSD1315) and draws the screen.
  \<^item> \<^verbatim>\<open>smart_helmet_uart.c\<close> brings up and supervises the radio module; once it is in data mode a report timer
    runs, and a line from the network can restart the vitals layer.
  \<^item> \<^verbatim>\<open>smart_helmet.c\<close> is the orchestration: power on and off, the motion poll, the report, and the dispatch of
    every message to the component that owns it.
  \<^item> \<^verbatim>\<open>headset_sm.c\<close> is the state machine of the application. Its state changes switch the helmet module on and off; in
    limbo it shows the charge and times out; it asks the power manager to power off.
  \<^item> \<^verbatim>\<open>system_state.c\<close> runs tables of steps (\<^verbatim>\<open>headset_init.c\<close>) between the states of the system's life cycle;
    \<^verbatim>\<open>power_manager*.c\<close> asks its clients before a power-off or a sleep and then tells the system state machine;
    \<^verbatim>\<open>task_list.c\<close> holds the clients.
  \<^item> \<^verbatim>\<open>state_of_charge.c\<close> and \<^verbatim>\<open>temperature.c\<close> turn converter readings into a percentage and a temperature by the tables of the
    helmet; \<^verbatim>\<open>battery_region.c\<close> chooses the operating region from both and tells \<^verbatim>\<open>charger_monitor.c\<close>, which decides when the
    charger hardware is enabled and with which current.

  \<^bold>\<open>Which theory models which part\<close>

  \<^item> \<open>Helmet_Prelude\<close>: the C types. A machine integer is a HOL \<open>int\<close> and every conversion of the source is
    written out (\<open>u8\<close>, \<open>u16\<close>, \<open>u32\<close>, \<open>s16\<close>, \<open>s32\<close>), division is C's truncating one; the collections
    \<open>crange\<close> and \<open>ccast\<close> carry the range proofs. \<open>Flag_Words\<close>: words used as sets of flags, as HOL words.
    \<open>Machine\<close>: sequences of operations that may stop the program, with the locales of an invariant that is kept and of
    a machine that does not stop. \<open>Table_Search\<close>: searching an ordered table, as a locale.
  \<^item> \<open>Dsp\<close>, \<open>Sample_Window\<close>, \<open>Insertion_Sort\<close>, \<open>Peak\<close>, \<open>Fft\<close>, \<open>Resp\<close>, \<open>Timebase\<close>, \<open>Fuse\<close>, \<open>Cusum\<close>: the routines
    of the vitals file, one theory per group of functions, with the statics they own as a record. \<open>Vitals\<close>
    composes them into the exported operations on the record \<open>vitals\<close>; \<open>Vitals_Safety\<close> holds the state
    invariant, the reachable states, the quarantine, the fall latch and the range of the pulse window; \<open>Vitals_Demo\<close> evaluates one complete
    window with a valid pulse in the logic.
  \<^item> \<open>Messages\<close>: message ids, the meaning of posting, cancelling and delivering a message, and the locale of a
    timer whose handler posts it again. Handlers return the calls they make, in order; the pending timers are
    derived by replaying these calls.
  \<^item> \<open>Adc\<close>: the ADC client, its record \<open>adc\<close> and every operation and message.
  \<^item> \<open>I2c\<close>, \<open>Oled\<close>, \<open>Sensors\<close>: the buses, the panel primitives and the sensor hub. The locale \<open>bus_driver\<close> is the
    interface between the panel code and the bus.
  \<^item> \<open>Report\<close>: the bounded text builder, gas levels, motion hold, the report text and its transmission.
  \<^item> \<open>Wisun_Text\<close>, \<open>Wisun\<close>, \<open>Wisun_Safety\<close>, \<open>Wisun_Live\<close>: reply scanning; the link with its record \<open>uart\<close>; its
    invariant; progress of the bring-up, the life of its timers and two behaviours of the dialogue.
  \<^item> \<open>Helmet\<close>: the record \<open>helmet\<close> (the statics of the orchestration and the state of every component), the
    execution of the calls components make on each other, and every entry point of \<^verbatim>\<open>smart_helmet.c\<close>.
    \<open>Helmet_Safety\<close>: invariants of the composition and its reachable states as an inductive predicate over calls,
    messages and pending timers. \<open>Helmet_Timers\<close>: the timers of the whole module over all histories.
    \<open>Helmet_Behaviour\<close>: what happens over several steps (after power-off, and on the wire).
  \<^item> \<open>Headset\<close>: the record \<open>headset\<close>, the nine states with their entry and exit actions and every message of
    \<^verbatim>\<open>headset_sm.c\<close>. \<open>Headset_Safety\<close>: its invariant and timers. \<open>Headset_Behaviour\<close>: power-off, idle and limbo
    over several steps. \<open>Application\<close>: the state machine and the helmet module together.
  \<^item> \<open>Task_List\<close>: the storage of \<^verbatim>\<open>task_list.c\<close>, inline or in a heap array, and its refinement of a list of tasks.
    \<open>System_State\<close>: the record \<open>system_state_ctx\<close>, its transitions and tables. \<open>Power_Manager\<close>: the record \<open>power\<close>, every
    operation and message; \<open>Power_Safety\<close>: the handshakes over all sequences of operations.
  \<^item> \<open>Soc\<close>, \<open>Temperature\<close>: the records \<open>soc_data\<close> and \<open>temperature_data\<close>, the searches in the tables of the helmet, filters, clients
    and messages. \<open>Charger\<close>: the record \<open>charger\<close> and every operation and message; \<open>Charger_Safety\<close>: what the charger
    hardware has been told, over all sequences of operations. \<open>Battery_Region\<close>: the record \<open>battery_region\<close>, its operations and the
    tables of the helmet; \<open>Battery_Safety\<close>: region and charger as one system.
  \<^item> This theory states the properties of the vitals component as a whole and those that span components.

  \<^bold>\<open>Inputs\<close>

  Code outside the modelled files is an argument of the definitions: the bit-serial driver and the pin
  multiplexer (\<open>bitserial_api\<close>, functions on a hardware state of arbitrary type), whether the UART stream opens
  (\<open>stream_open\<close>) and accepts a write and what the free-running clock says (\<open>link_env\<close>), the bytes received,
  the converter's results, the parts of the headset state shown on the screen (\<open>ui_env\<close>), the answers of other modules to the state
  machine (\<open>headset_env\<close>) and to the power manager (\<open>power_env\<close>), the charger hardware and, for the charger alone, the current of the battery
  region (\<open>charger_env\<close>). No law is assumed of them; where a property needs more (a write is accepted, the module stays
  silent, the charger accepts its configuration) the hypothesis is in its statement and a witness gives a concrete instance.

  \<^bold>\<open>What the theorems show\<close>

  \<^item> Vitals: every reachable state satisfies the invariant; a pulse is reported as valid only under all conditions of
    the design, never within seven windows after motion, and the published reason is truthful; with pulse readings up to 8000 mV the transform never
    overflows 32 bits, and its bit reversal terminates; the estimators are sound (and, for a regular pulse, exact);
    the change detector finds a persistent shift within a stated number of windows; a fall stays latched until
    it is taken or the layer is initialised again.
  \<^item> ADC client: every SENS tick becomes exactly one sample or one noted drop; both timers stay pending exactly
    once; a scan cycle stores the four channels; the converter always returns to idle.
  \<^item> Buses, panel and sensors: a transfer reports success only for an acknowledged cycle on the addressed device,
    but the cycle after an address change can be another device's; published values stay in range; the bring-up retry
    is bounded; the screen cache equals what the panel shows.
  \<^item> Report: the text always fits, has every field, its numbers read back to the values, and in data mode
    exactly its lines go on the wire.
  \<^item> Wi-SUN link: the bring-up ends after at most 40 ticks unless the module acknowledges a report meanwhile; a module that never
    answers is taken for one in data mode; an acknowledgement during a rejoin strands the reports until more bytes arrive.
  \<^item> Whole module: invariants of all components together, no timer pending twice, the motion poll pending exactly
    while powered, the link check while a dialogue runs; after power-off no timer is pending and no late byte or
    conversion result sets one; a report that cannot be sent still clears the fall latch.
  \<^item> Headset and application: the helmet is powered exactly in the states in which the headset is on; power-off is asked
    for in exactly the listed situations; a cable attached and removed in limbo can lose the limbo timer; the charging
    display stays dark.
  \<^item> Power: the power manager powers down only when every client has answered, and the handshake completes in any order of
    answers; when it panics is characterised exactly; the system state machine follows its documented life cycle and runs each table once, but
    the confirmation of the last power-off prompt reads past the table; a task list implements a list of
    at most 15 tasks exactly.
  \<^item> Battery: the table walks find the entries a full search finds, the filter returns the median, measuring never stops; the
    state of charge does not rise without a charger; an empty battery is shown as full; the charger hardware is
    enabled only with the cable in and 1 to 200 mA after every single command; it recovers from errors; a
    completed charge turns it off until the battery has lost the hysteresis of 250 mV. The configured current is always that of the region and respects the limits
    of the table, which in the critical region ignores the temperature; a quick replug loses the charging timer.

  \<^bold>\<open>Bounds and fuel\<close>

  Loops of the source are structural recursion, recursion with a measure, or \<open>fold\<close> over their index range. The inner loop of the bit
  reversal, which would spin if its mask reached zero, is a partial function with value \<open>None\<close> for not returning, and
  it is proved to return on every call. The bound of 40 link-check ticks is a rank: the longest path through
  leaving data mode, reset, provisioning, probes, destination and passthrough, with its five retries. Integer
  widths appear as casts; where a value could wrap, either the absence of wrap-around is a lemma or the wrap is
  part of the statement. A panic and an access outside an array are the value \<open>None\<close>.

  \<^bold>\<open>Not modelled\<close>

  \<^item> Builds other than the default one: the autocorrelation estimator, the adaptive motion
    canceller, the harmonic product spectrum, the telemetry and CSV output and the raw sample dump of the vitals file, the
    cable detection and external resistor of the charger are compiled out.
  \<^item> The storage of the client lists outside \<open>Task_List\<close>: the other modules keep the list of their clients that storage represents.
    The power manager stops where the storage would stop (a null task, a sixteenth client, no memory); the charger monitor, the battery
    region, the temperature and the state of charge are modelled for the registrations the storage accepts.
  \<^item> Log output, and statistics that only feed the log.
  \<^item> Busy waits and real time: a timer's delay is kept as the argument of its post, but delivery order is arbitrary.
  \<^item> The set-up tables of \<^verbatim>\<open>headset_init.c\<close> other than those of the power transitions, and the rest of the development kit
    (Bluetooth, audio, other domains and services): third-party code whose answers are the inputs above.
\<close>

section \<open>The vitals component\<close>

text \<open>C2: every state the vitals component can reach, by any sequence of the calls the firmware makes
  with arguments of the C types, satisfies the state invariant: all ring indices and counters
  are in range, every filter state is bounded, the sampling-rate sums are consistent, and the
  published status obeys its guarantees.\<close>

theorem vitals_reachable_invariant:
  assumes "vitals_reach v"
  shows "vitals_inv v"
  by (rule vitals_reach_inv [OF assms])

theorem vitals_reachable_invariant_witness:
  "vitals_inv (vitals_exec (Ev_Sens 1650 40000) (vitals_exec (Ev_Accel 0 0 1000) (SmartHelmet_VitalsInit 0)))"
  by (rule vitals_reachable_invariant)
    (intro vitals_reach.intros; simp add: crange)

text \<open>C1: a pulse is reported as valid only when everything the design asks for holds: the motion
  gate is calm, the quarantine after motion or disturbance has run out, the time base is
  trusted, band energy and mean residual are inside their bands, both estimators found a rate
  and they agree within 20 percent of the reported average, which lies in 40 to 180 BPM.\<close>

theorem hr_valid_sound:
  assumes "vitals_inv v" "hr_valid (st_hr (st (SmartHelmet_VitalsProcess v)))"
  shows "let w = SmartHelmet_VitalsProcess v; h = st_hr (st w);
             sa = shMeanAbsI16 (rbuf (sens_win v)) (rcnt (sens_win v))
         in \<not> window_active v \<and> st_motion (st w) = motion_calm \<and> quarantine v = 0 \<and> timebase_ok (tb w) \<and>
            400 \<le> proc_energy v \<and> proc_energy v \<le> 3500 \<and> 12 \<le> sa \<and> sa \<le> 45 \<and>
            40 \<le> hr_bpm h \<and> hr_bpm h \<le> 180 \<and> hr_bpm_peak h \<noteq> 0 \<and> hr_bpm_fft h \<noteq> 0 \<and>
            \<bar>hr_bpm_peak h - hr_bpm_fft h\<bar> * 100 \<le> hr_bpm h * 20 \<and> hr_reason h = hr_ok"
proof -
  have a: "inputs_inv v" "estimate_inv v" "is_u8 (calm_windows v)" "ts_inv (tb v)"
    using assms(1) by (simp_all add: vitals_inv_def counters_inv_def)
  note r = process_result [OF a]
  have "shHrSignalReason (proc_energy v) (shMeanAbsI16 (rbuf (sens_win v)) (rcnt (sens_win v))) = hr_ok"
    using r(11) assms(2) by simp
  then have "400 \<le> proc_energy v \<and> proc_energy v \<le> 3500 \<and>
      12 \<le> shMeanAbsI16 (rbuf (sens_win v)) (rcnt (sens_win v)) \<and>
      shMeanAbsI16 (rbuf (sens_win v)) (rcnt (sens_win v)) \<le> 45"
    by (simp add: shHrSignalReason_def split: if_splits)
  then show ?thesis using r(3,6,9,11) assms(2) by (simp add: Let_def hr_report_ok_def)
qed

theorem hr_valid_sound_witness:
  "vitals_inv demo_state \<and> hr_bpm (st_hr (st (SmartHelmet_VitalsProcess demo_state))) = 74 \<and>
   400 \<le> proc_energy demo_state \<and> proc_energy demo_state \<le> 3500 \<and> quarantine demo_state = 0"
  using hr_valid_sound [OF demo_inv] by (simp add: demo_process demo_inv Let_def)

text \<open>the reason published with a window is truthful: it is \<open>hr_ok\<close> exactly when the pulse is
  valid, and \<open>hr_motion\<close> with an invalid pulse whenever the motion gate is active.\<close>

theorem hr_reason_truthful:
  assumes "vitals_inv v"
  shows "let s = st (SmartHelmet_VitalsProcess v)
         in (hr_reason (st_hr s) = hr_ok \<longleftrightarrow> hr_valid (st_hr s)) \<and>
            st_motion s = (if window_active v then motion_active else motion_calm) \<and>
            (if window_active v then hr_reason (st_hr s) = hr_motion \<and> \<not> hr_valid (st_hr s) else True)"
proof -
  have a: "inputs_inv v" "estimate_inv v" "is_u8 (calm_windows v)" "ts_inv (tb v)"
    using assms by (simp_all add: vitals_inv_def counters_inv_def)
  show ?thesis using process_result(8,9,10) [OF a] by (auto simp: Let_def)
qed

theorem hr_reason_truthful_witness:
  "hr_reason (st_hr (st (SmartHelmet_VitalsProcess demo_state))) = hr_ok \<longleftrightarrow>
   hr_valid (st_hr (st (SmartHelmet_VitalsProcess demo_state)))"
  using hr_reason_truthful [OF demo_inv] unfolding Let_def by (rule conjunct1)

text \<open>C3: quarantine: after a window in which the motion gate is active no sequence of calls makes the
  pulse valid before more than seven further windows have been evaluated.\<close>

theorem hr_quarantine_after_motion:
  assumes "vitals_inv v" "window_active v" "list_all event_ok es"
    and "windows_of es (SmartHelmet_VitalsProcess v) \<le> 7"
  shows "\<not> hr_valid (st_hr (st (fold vitals_exec es (SmartHelmet_VitalsProcess v))))"
proof -
  have a: "inputs_inv v" "estimate_inv v" "is_u8 (calm_windows v)" "ts_inv (tb v)"
    using assms(1) by (simp_all add: vitals_inv_def counters_inv_def)
  show ?thesis
    by (rule quarantine_run [OF process_inv [OF vitals_inv_pushed [OF assms(1)]] assms(3)])
      (use process_result(10) [OF a] assms(2,4) in simp_all)
qed

definition shaken_state :: vitals where
  "shaken_state = (SmartHelmet_VitalsInit 0)\<lparr>motion_win :=
     ring_push 25 \<lparr>m_mag = 1000, m_ax = 90, m_ay = 0, m_az = 996\<rparr>
       (ring_push 25 \<lparr>m_mag = 1000, m_ax = 0, m_ay = 0, m_az = 1000\<rparr>
         (motion_win (SmartHelmet_VitalsInit 0)))\<rparr>"

lemma shaken_state_inv: "vitals_inv shaken_state"
proof -
  let ?w = "ring_push 25 \<lparr>m_mag = 1000, m_ax = 90, m_ay = 0, m_az = 996\<rparr>
       (ring_push 25 \<lparr>m_mag = 1000, m_ax = 0, m_ay = 0, m_az = 1000\<rparr>
         (motion_win (SmartHelmet_VitalsInit 0)))"
  have i: "vitals_inv (SmartHelmet_VitalsInit 0)" by (rule vitals_init_inv)
  have "\<forall>m \<in> set (rbuf ?w). slot_ok m"
    using i by (intro ring_all_push) (simp_all add: vitals_inv_defs slot_ok_def crange)
  moreover have "ring_fill_inv 25 ?w" using i by (simp add: vitals_inv_defs ring_fill_inv_push)
  ultimately show ?thesis using i by (simp add: shaken_state_def vitals_inv_defs)
qed

theorem hr_quarantine_after_motion_witness:
  "\<not> hr_valid (st_hr (st (fold vitals_exec (replicate 7 Ev_Process) (SmartHelmet_VitalsProcess shaken_state))))"
proof -
  have w: "windows_of (replicate n Ev_Process) v = n" for n v
    by (induction n arbitrary: v) (simp_all add: event_windows_def)
  have "list_all event_ok (replicate 7 Ev_Process)" by (simp add: list_all_length)
  moreover have "window_active shaken_state" by code_simp
  ultimately show ?thesis
    by (intro hr_quarantine_after_motion [OF shaken_state_inv]) (simp_all only: w order_refl)
qed

text \<open>the motion gate has hysteresis: a step of at least 40 mg makes it active at once, and it
  falls back to calm exactly at the third consecutive quiet evaluation.\<close>

theorem motion_gate_hysteresis:
  assumes "40 \<le> rms" "\<forall>r \<in> set quiet. r < 40"
  shows "fst (fold gate_step (rms # quiet) (g, n)) = (if length quiet < 3 then motion_active else motion_calm)"
proof -
  have "gate_step rms (g, n) = (motion_active, 0)" using assms(1) by (simp add: gate_step_def motion_gate_step_def)
  then show ?thesis using gate_quiet_run [OF assms(2)] by simp
qed

theorem motion_gate_hysteresis_witness:
  "fst (fold gate_step [45, 10, 0] (motion_calm, 9)) = motion_active \<and>
   fst (fold gate_step [45, 10, 0, 39] (motion_calm, 9)) = motion_calm"
  using motion_gate_hysteresis [of 45 "[10, 0]" motion_calm 9] motion_gate_hysteresis [of 45 "[10, 0, 39]" motion_calm 9]
  by simp

lemma fall_mag:
  assumes "0 \<le> m" "m < 4294967296" "1690000 \<le> m \<or> 0 < m \<and> m < 491401"
  shows "shSqrtU32 m \<ge> 1300 \<or> 0 < shSqrtU32 m \<and> shSqrtU32 m \<le> 700"
proof -
  let ?r = "shSqrtU32 m"
  have r: "?r * ?r \<le> m" "m < (?r + 1) * (?r + 1)" "0 \<le> ?r"
    using shSqrtU32_root [of m] assms(1,2) by (simp_all add: crange)
  show ?thesis
  proof (cases "1690000 \<le> m")
    case True
    have "\<not> ?r \<le> 1299"
    proof
      assume "?r \<le> 1299"
      then have "(?r + 1) * (?r + 1) \<le> 1300 * 1300" using r(3) by (intro mult_mono) auto
      with r(2) True show False by simp
    qed
    then show ?thesis by simp
  next
    case False
    then have m: "0 < m" "m < 491401" using assms(3) by auto
    have "?r \<noteq> 0"
    proof
      assume "?r = 0"
      with r(2) m(1) show False by simp
    qed
    moreover have "\<not> 701 \<le> ?r"
    proof
      assume "701 \<le> ?r"
      then have "701 * 701 \<le> ?r * ?r" by (intro mult_mono) auto
      with r(1) m(2) show False by simp
    qed
    ultimately show ?thesis using r(3) by simp
  qed
qed

text \<open>C29: A fall stays latched until it is taken or the vitals layer is initialised again: an accelerometer sample of at least 1300 mg
  (impact) or between 1 and 700 mg (free fall) is reported by the next \<open>TakeFall\<close>, whatever samples, gaps, events and window evaluations
  come in between, and is reported once. The initialisation, which the helmet runs at power-on and when it restarts the
  sensors, clears the latch and is excluded.\<close>

theorem fall_is_latched:
  assumes "0 \<le> x * x + y * y + z * z" "x * x + y * y + z * z < 4294967296"
    and "1690000 \<le> x * x + y * y + z * z \<or> 0 < x * x + y * y + z * z \<and> x * x + y * y + z * z < 491401"
    and "\<forall>e \<in> set es. \<not> fall_taker e"
  shows "let w = fold vitals_exec es (SmartHelmet_VitalsPushAccel x y z v);
             (hit, w1) = SmartHelmet_VitalsTakeFall w
         in hit \<and> \<not> fst (SmartHelmet_VitalsTakeFall w1)"
proof -
  have "sh_fall_pending (SmartHelmet_VitalsPushAccel x y z v)"
    by (rule accel_sets_fall [OF refl]) (use fall_mag [OF assms(1-3)] assms(1,2) in simp)
  from run_keeps_fall [OF this assms(4)] show ?thesis by (simp add: SmartHelmet_VitalsTakeFall_def Let_def)
qed

theorem fall_is_latched_witness:
  "let w = fold vitals_exec [Ev_Accel 0 0 1000, Ev_Process, Ev_Sens 900 0]
             (SmartHelmet_VitalsPushAccel 0 100 (-1400) (SmartHelmet_VitalsInit 0));
       (hit, w1) = SmartHelmet_VitalsTakeFall w
   in hit \<and> \<not> fst (SmartHelmet_VitalsTakeFall w1)"
  by (rule fall_is_latched) simp_all

text \<open>the trend computation never divides by zero: the tracked micro-motion baseline is at least
  one and fits 16 bits, for every pulse envelope and every stored baseline.\<close>

theorem trend_baseline_positive:
  assumes "0 \<le> pulse" "pulse \<le> 32767" "is_u16 base"
  shows "1 \<le> pulse_baseline pulse base \<and> is_u16 (pulse_baseline pulse base)"
  using pulse_baseline_range [OF assms] by simp

theorem trend_baseline_positive_witness:
  "1 \<le> pulse_baseline 0 65535 \<and> 1 \<le> pulse_baseline 0 1"
  using trend_baseline_positive [of 0 65535] trend_baseline_positive [of 0 1] by (simp add: crange)

section \<open>The whole module\<close>

text \<open>C4: In every state the firmware module can reach, by any sequence of calls, messages, sensor and module
  behaviour, the state invariants of the vitals layer, the converter client, the sensor hub with its buses
  and the Wi-SUN link hold together; no timer of any component is pending twice; the motion poll is pending exactly
  while the module is powered; and the link check is pending whenever a command dialogue is running.\<close>

theorem helmet_reachable_invariant:
  assumes "helmet_reach (h, q)"
  shows "vitals_inv (h_vitals h) \<and> adc_inv (h_adc h) \<and> sensors_inv (h_sens h) \<and> uart_inv (h_uart h) \<and>
    (\<forall>m. q m \<le> 1) \<and> q MOTION_POLL = (if sh_powered h then 1 else 0) \<and>
    (sh_powered h \<and> u_task (h_uart h) \<and> \<not> settled (h_uart h) \<longrightarrow> q WISUN_LINK_CHECK = 1)"
proof -
  have inv: "helmet_inv h" using helmet_reach_inv [OF assms] by simp
  have t: "tinv (polls h) q h" using helmet_reach_timers [OF assms] by (simp add: timers_ok_def)
  have "q m \<le> 1" for m using t by (cases m) (simp_all add: tinv_def rest_ok_def link_ok_def polls_def)
  with inv t show ?thesis by (simp add: helmet_inv_def tinv_def link_ok_def polls_def)
qed

definition demo_env :: "late_hw helmet_env" where
  "demo_env = \<lparr>he_api = late_api (\<lambda>_. Some []), he_link = silent_env,
     he_open = \<lparr>so_tx_mux = True, so_rx_mux = True, so_sink = True, so_source = True\<rparr>, he_ui = idle_env, he_now = 0\<rparr>"

definition demo_boot :: "late_hw helmet \<times> pending" where
  "demo_boot = (helmet_boot (i2c_boot None \<lparr>wire_addr = 0, prog_addr = 0\<rparr>), \<lambda>_. 0)"

definition demo_on :: "late_hw helmet \<times> pending" where
  "demo_on = helmet_step demo_env Do_PowerOn (helmet_step demo_env Do_Init demo_boot)"

lemma demo_on_reach: "helmet_reach demo_on"
  unfolding demo_on_def demo_boot_def
  by (intro helmet_reach.intros) (simp_all add: possible_def demo_env_def crange msg_ok_def)

theorem helmet_reachable_invariant_witness: "\<forall>m. snd demo_on m \<le> 1"
  using helmet_reachable_invariant [of "fst demo_on" "snd demo_on"] demo_on_reach by simp

text \<open>C21: Switching the module off leaves no timer of any component pending (with the debug log of the
  accelerometer off), and nothing that can still arrive, conversion results in flight or UART notifications with any
  bytes, posts one: the module stays asleep until it is switched on again.\<close>

theorem power_off_quiet:
  assumes "helmet_reach (h, q)" and "sh_powered h" and "q LIS3DH_LOG_TICK = 0"
    and "list_all (\<lambda>(e, chunks, msg). \<forall>t. msg \<noteq> Tick t) ms"
  shows "snd (off_run ms (helmet_step e Do_PowerOff (h, q))) m = 0"
proof -
  let ?h = "h\<lparr>h_out := []\<rparr>"
  let ?s = "helmet_step e Do_PowerOff (h, q)"
  have d: "deliver MESSAGE_OTHER q = q" by (simp add: deliver_def)
  have t: "tinv (polls ?h) (held q ?h) ?h"
    using helmet_reach_timers [OF assms(1)] by (simp add: timers_ok_def polls_def)
  have "hpend q m (SmartHelmet_PowerOff e ?h) = 0" for m
  proof (cases "m = LIS3DH_LOG_TICK")
    case True
    then show ?thesis using power_off_log [OF t] assms(2,3) by simp
  next
    case False
    then show ?thesis using power_off_timers(2) [OF t] assms(2) by simp
  qed
  then have "\<forall>m. snd ?s m = 0" by (simp add: helmet_step_def Let_def d)
  moreover have "\<not> u_source (h_uart (fst ?s))"
    using power_off_stream [of ?h e] assms(2) by (simp add: helmet_step_def Let_def)
  ultimately show ?thesis using off_run_quiet [of ?s ms] assms(4) by blast
qed

theorem power_off_quiet_witness:
  "snd (off_run [(demo_env, [''Router start''], MESSAGE_MORE_DATA)] (helmet_step demo_env Do_PowerOff demo_on)) REPORT_TICK = 0"
proof -
  have "fst (SmartHelmet_I2cInit (he_api demo_env) (i2c_boot None \<lparr>wire_addr = 0, prog_addr = 0\<rparr>))" by code_simp
  then have "fst (SmartHelmet_I2cInit (he_api demo_env) (bus (h_sens ((fst demo_boot)\<lparr>h_out := []\<rparr>))))"
    by (simp add: demo_boot_def helmet_boot_def sensors_boot_def)
  note i = init_result [OF _ _ this]
  have "sh_powered (fst demo_on) \<and> snd demo_on LIS3DH_LOG_TICK = 0"
    using i power_on_result [of "(snd (SmartHelmet_Init demo_env ((fst demo_boot)\<lparr>h_out := []\<rparr>)))\<lparr>h_out := []\<rparr>"]
    by (simp add: demo_on_def helmet_step_def Let_def deliver_def) (simp add: demo_boot_def helmet_boot_def)
  then show ?thesis
    using power_off_quiet [of "fst demo_on" "snd demo_on" "[(demo_env, [''Router start''], MESSAGE_MORE_DATA)]" demo_env REPORT_TICK]
      demo_on_reach by simp
qed

text \<open>C34: A report that cannot be sent (the link is not in data mode or a device is missing) still takes the fall and
  restart latches: they are cleared, and no byte is written. The event they stood for reaches no later report.\<close>

theorem held_report_loses_latches:
  assumes "\<not> report_can_send h" and "sh_fall_pending (h_vitals h)" and "restart_seen (h_uart h)"
  shows "let g = SmartHelmet_ReportStart e h in
    \<not> sh_fall_pending (h_vitals g) \<and> \<not> restart_seen (h_uart g) \<and> tx_frames (h_out g) = tx_frames (h_out h)"
  using assms by (simp add: SmartHelmet_ReportStart_def Let_def case_prod_beta report_timer_def)
    (simp add: report_build_def Let_def case_prod_beta SmartHelmet_VitalsTakeFall_def SmartHelmet_UartTakeRestart_def h_emit_def tx_frames_def)

theorem held_report_loses_latches_witness:
  "\<not> sh_fall_pending (h_vitals (SmartHelmet_ReportStart demo_env ((fst demo_boot)\<lparr>h_vitals := vitals_boot\<lparr>sh_fall_pending := True\<rparr>,
      h_uart := uart_boot\<lparr>restart_seen := True\<rparr>\<rparr>)))"
  using held_report_loses_latches [of "(fst demo_boot)\<lparr>h_vitals := vitals_boot\<lparr>sh_fall_pending := True\<rparr>,
      h_uart := uart_boot\<lparr>restart_seen := True\<rparr>\<rparr>" demo_env]
  by (simp add: report_can_send_def SmartHelmet_UartInPassthrough_def uart_boot_def Let_def)

text \<open>C22: A report that can be sent puts exactly its eleven fields on the wire, in order, one frame each, over a stream
  that accepts the writes: the values are the freshly polled sensor data, the status of the window just processed and
  the two latches, which are cleared. The only other bytes are the \<open>exit\<close> of a rejoin when too many
  acknowledgements are missing.\<close>

theorem report_delivered:
  assumes inv: "helmet_inv h" and can: "report_can_send h" and sink: "u_sink (h_uart h)"
    and acc: "\<And>d. le_accepts (he_link e) d"
  shows "let h1 = report_refresh e h;
             g1 = shGasValue 0 (adc_mv (h_adc h) ! 1) (sh_gas_r0_mv h);
             g2 = shGasValue 1 (adc_mv (h_adc h) ! 2) (snd g1);
             g3 = shGasValue 2 (adc_mv (h_adc h) ! 3) (snd g2);
             fs = report_fields (mh_holding (report_motion (sh_motion h))) (restart_seen (h_uart h))
                    (sh_fall_pending (h_vitals h1)) (st (h_vitals h1)) (sd (h_sens h1))
                    (shCoPpm (fst g1)) (shNh3Ppm (fst g2)) (shNo2PpmX100 (fst g3));
             sent = tx_frames (h_out h) @ map (\<lambda>f. field_text f @ crlf) fs
         in tx_frames (h_out (SmartHelmet_ReportStart e h)) \<in> {sent, sent @ [''exit'' @ crlf_bytes]}"
proof -
  define h1 where "h1 = report_refresh e h"
  define g1 where "g1 = shGasValue 0 (adc_mv (h_adc h) ! 1) (sh_gas_r0_mv h)"
  define g2 where "g2 = shGasValue 1 (adc_mv (h_adc h) ! 2) (snd g1)"
  define g3 where "g3 = shGasValue 2 (adc_mv (h_adc h) ! 3) (snd g2)"
  define fs where "fs = report_fields (mh_holding (report_motion (sh_motion h))) (restart_seen (h_uart h))
    (sh_fall_pending (h_vitals h1)) (st (h_vitals h1)) (sd (h_sens h1)) (shCoPpm (fst g1)) (shNh3Ppm (fst g2)) (shNo2PpmX100 (fst g3))"
  define ds where "ds = map (\<lambda>f. field_text f @ crlf) fs"
  define u where "u = (h_uart (snd (report_build h1)))\<lparr>u_out := []\<rparr>"
  let ?f = "shSendReportLines (SmartHelmet_UartSend (he_link e)) (SmartHelmet_UartNoteReportSent (he_link e))"
  have ok: "sensor_data_ok (sd (h_sens h1))"
    using refresh_inv [OF inv, of e] by (simp add: h1_def helmet_inv_def sensors_inv_def)
  have line: "fst (report_build h1) = render fs"
    unfolding fs_def by (rule report_build_text [OF ok]) (simp_all add: h1_def g1_def g2_def g3_def)
  have "?f (render fs) u = (case write_frames (SmartHelmet_UartSend (he_link e)) ds u of (b, s') \<Rightarrow>
      SmartHelmet_UartNoteReportSent (he_link e) b s')"
    unfolding ds_def by (rule conjunct1 [OF report_frames [OF ok fs_def]])
  also have "\<dots> = SmartHelmet_UartNoteReportSent (he_link e) True (u\<lparr>u_out := map U_Tx ds\<rparr>)"
    using write_all_frames [of u "he_link e" ds] sink acc
    by (simp add: u_def h1_def ds_def crlf_def)
  finally have sent: "?f (render fs) u = SmartHelmet_UartNoteReportSent (he_link e) True (u\<lparr>u_out := map U_Tx ds\<rparr>)" .
  have tx: "concat (map (tx_of \<circ> U_Tx) ds) = ds" for ds by (induction ds) simp_all
  have "concat (map tx_of (u_out (?f (render fs) u))) \<in> {ds, ds @ [''exit'' @ crlf_bytes]}"
    using tx_note_ok [of "u\<lparr>u_out := map U_Tx ds\<rparr>" "he_link e"] sink acc
    unfolding sent by (simp add: u_def h1_def tx)
  moreover have "tx_frames (h_out (SmartHelmet_ReportStart e h)) =
      tx_frames (h_out h) @ concat (map tx_of (u_out (?f (render fs) u)))"
    using can by (simp add: SmartHelmet_ReportStart_def Let_def case_prod_beta tx_run_uart h1_def [symmetric] line u_def)
      (simp add: h1_def)
  ultimately show ?thesis
    unfolding Let_def h1_def [symmetric] g1_def [symmetric] g2_def [symmetric] g3_def [symmetric] fs_def [symmetric] ds_def [symmetric]
    by auto
qed

definition demo_ready :: "late_hw helmet" where
  "demo_ready = (let h = fst demo_boot; s = h_sens h in
     h\<lparr>h_sens := s\<lparr>sd := (sd s)\<lparr>ccs811_ok := True, hdc1080_ok := True, lis3dh_ok := True, mlx90614_ok := True,
         ssd1315_ok := True\<rparr>\<rparr>,
       h_uart := open_link\<lparr>u_step := STEP_DONE, passthrough := True\<rparr>\<rparr>)"

lemma demo_ready_inv: "helmet_inv demo_ready"
proof -
  have "helmet_inv (fst demo_boot)" by (simp add: demo_boot_def helmet_boot_inv i2c_boot_inv)
  moreover have "uart_inv (open_link\<lparr>u_step := STEP_DONE, passthrough := True\<rparr>)"
    using open_link_inv by (simp add: uart_inv_def settled_def)
  ultimately show ?thesis
    by (simp add: demo_ready_def Let_def helmet_inv_def sensors_inv_def sensor_data_ok_def)
qed

theorem report_delivered_witness:
  "''motion:still'' @ crlf \<in> set (tx_frames (h_out (SmartHelmet_ReportStart demo_env demo_ready)))"
proof -
  have can: "report_can_send demo_ready"
    by (simp add: report_can_send_def demo_ready_def Let_def SmartHelmet_UartInPassthrough_def SmartHelmet_SensorsReady_def
        shSensorsRequiredOk_def)
  have sink: "u_sink (h_uart demo_ready)" by (simp add: demo_ready_def Let_def open_link_def)
  have acc: "le_accepts (he_link demo_env) d" for d by (simp add: demo_env_def silent_env_def)
  have hold: "\<not> mh_holding (report_motion (sh_motion demo_ready))"
    by (simp add: demo_ready_def demo_boot_def helmet_boot_def motion_hold_zero_def report_motion_def Let_def)
  have "''motion:still'' @ crlf \<in> set (map (\<lambda>f. field_text f @ crlf)
      (report_fields (mh_holding (report_motion (sh_motion demo_ready))) b c v s x y z))" for b c v s x y z
    using hold by (simp add: report_fields_def field_text_def)
  with report_delivered [OF demo_ready_inv can sink acc] show ?thesis
    unfolding Let_def by (metis Un_iff insert_iff set_append singletonD)
qed

section \<open>The application\<close>

text \<open>C5: In every state the application can reach, by any interleaving of messages to the state machine and to the helmet task,
  the helmet is powered exactly in the four states of use (powering on, pairing, idle, busy), provided its initialisation
  succeeded; its motion poll is pending exactly then and no helmet timer is pending twice; and the idle and limbo power-off timers
  are pending at most once, each only in its own state.\<close>

theorem application_invariant:
  assumes "app_reach ((s, q), (h, hq))"
  shows "(sh_powered h \<longleftrightarrow> sh_ready h \<and> hs_state s \<in> {HEADSET_STATE_POWERING_ON, HEADSET_STATE_PAIRING, HEADSET_STATE_IDLE,
       HEADSET_STATE_BUSY}) \<and>
    hq MOTION_POLL = (if sh_powered h then 1 else 0) \<and> (\<forall>m. hq m \<le> 1) \<and>
    q SM_INTERNAL_TIMEOUT_IDLE \<le> (if hs_state s = HEADSET_STATE_IDLE then 1 else 0) \<and>
    q SM_INTERNAL_TIMEOUT_LIMBO \<le> (if hs_state s = HEADSET_STATE_LIMBO then 1 else 0)"
proof -
  have p: "sh_powered h \<longleftrightarrow> sh_ready h \<and> on_state (hs_state s)"
    using app_reach_power [OF assms] by (simp add: power_follows_def)
  have i: "headset_inv (s, q)" and r: "helmet_reach (h, hq)"
    using app_reach_parts [OF assms] headset_reach_inv by auto
  have t: "tinv (polls h) hq h" using helmet_reach_timers [OF r] by (simp add: timers_ok_def)
  have "hq m \<le> 1" for m using t by (cases m) (simp_all add: tinv_def rest_ok_def link_ok_def polls_def)
  moreover have "hq MOTION_POLL = (if sh_powered h then 1 else 0)" using t by (simp add: tinv_def polls_def)
  ultimately show ?thesis using p headset_inv_timers [OF i] by (simp add: on_state_def)
qed

definition demo_app :: "late_hw app" where
  "demo_app = app_start quiet_headset demo_env (i2c_boot None \<lparr>wire_addr = 0, prog_addr = 0\<rparr>)"

lemma demo_app_reach: "app_reach demo_app"
  unfolding demo_app_def by (rule app_reach.start) (simp add: demo_env_def crange)

lemma demo_app_ready: "sh_ready (fst (snd demo_app))"
proof -
  have "fst (SmartHelmet_I2cInit (he_api demo_env) (i2c_boot None \<lparr>wire_addr = 0, prog_addr = 0\<rparr>))" by code_simp
  then have "fst (SmartHelmet_I2cInit (he_api demo_env) (bus (h_sens ((fst demo_boot)\<lparr>h_out := []\<rparr>))))"
    by (simp add: demo_boot_def helmet_boot_def sensors_boot_def)
  from init_result [OF _ _ this] show ?thesis
    by (simp add: demo_app_def app_start_def helmet_step_def Let_def) (simp add: demo_boot_def helmet_boot_def)
qed

theorem application_invariant_witness:
  "\<exists>y h. app_step quiet_headset demo_env (App_Headset (On_Msg (SYSTEM_STATE_STATE_CHANGE system_state_limbo system_state_powering_on)))
     demo_app = Inr (y, h) \<and> sh_powered (fst h)"
proof -
  let ?ev = "On_Msg (SYSTEM_STATE_STATE_CHANGE system_state_limbo system_state_powering_on)"
  obtain x h where a: "demo_app = (x, h)" by (cases demo_app)
  have n: "hs_state (fst x) = HEADSET_STATE_NULL"
    using a by (auto simp: demo_app_def app_start_def headset_start_def HeadsetWiredAudioController_Init_def headsetSmInit_def Let_def)
  obtain s where s: "headsetSetState quiet_headset HEADSET_STATE_POWERING_ON ((fst x)\<lparr>hs_out := []\<rparr>) = Inr s"
    by (cases "headsetSetState quiet_headset HEADSET_STATE_POWERING_ON ((fst x)\<lparr>hs_out := []\<rparr>)")
      (use set_state_panic n in fastforce)+
  have "headset_inv x" using app_reach_parts [OF demo_app_reach] headset_reach_inv unfolding a by simp
  then have "hs_state s = HEADSET_STATE_POWERING_ON" using set_state_inv [OF _ s] unfolding headset_inv_def by blast
  then obtain y where y: "headset_step quiet_headset ?ev x = Inr y" "hs_state (fst y) = HEADSET_STATE_POWERING_ON"
    using s by (simp add: headset_step_def headsetSmHandleSystemStateChange_def)
  let ?h = "app_calls demo_env (hs_out (fst y)) h"
  have st: "app_step quiet_headset demo_env (App_Headset ?ev) demo_app = Inr (y, ?h)" using y(1) by (simp add: a)
  have "app_reach (y, ?h)"
    by (rule app_reach.step [OF demo_app_reach _ st]) (simp add: a demo_env_def crange sm_possible_def)
  moreover have "sh_ready (fst h)" "\<not> sh_powered (fst h)"
    using demo_app_ready app_reach_power [OF demo_app_reach] n by (simp_all add: a power_follows_def on_state_def)
  then have "sh_ready (fst ?h)" using app_calls_power by blast
  ultimately have "sh_powered (fst ?h)"
    using application_invariant [of "fst y" "snd y" "fst ?h" "snd ?h"] y(2) by simp
  then show ?thesis using st by blast
qed

text \<open>C38: The charging display that does not come up: the panel is blanked by power-off, and in limbo no sequence of charger
  messages, battery updates and log ticks resumes it, whatever the charger reports, because the switch that compiles the resume call is not
  visible in that file. The battery level is not shown while charging.\<close>

theorem limbo_panel_stays_dark:
  assumes "hs_state s = HEADSET_STATE_LIMBO" and "sh_display_blanked (h_sens h)" and "\<not> sh_powered h"
    and "\<forall>(e, he, ev)\<in>set evs. \<exists>m. ev = App_Headset m \<and> charge_event m"
  shows "\<exists>y g. app_run evs ((s, q), (h, hq)) = Inr (y, g) \<and> hs_state (fst y) = HEADSET_STATE_LIMBO \<and>
    sh_display_blanked (h_sens (fst g))"
  by (rule charge_run_blank) (use assms in simp_all)

theorem limbo_panel_stays_dark_witness:
  "\<exists>y g. app_run [(quiet_headset\<lparr>q_charger_connected := True\<rparr>, demo_env, App_Headset (On_Msg (Charger CHARGER_MESSAGE_CHARGING_OK))),
       (quiet_headset\<lparr>q_charger_connected := True\<rparr>, demo_env, App_Headset (On_Msg SOC_UPDATE_IND))]
     ((headset_boot\<lparr>hs_state := HEADSET_STATE_LIMBO\<rparr>, \<lambda>_. 0),
      (demo_ready\<lparr>h_sens := (h_sens demo_ready)\<lparr>sh_display_blanked := True\<rparr>\<rparr>, \<lambda>_. 0)) = Inr (y, g) \<and>
     sh_display_blanked (h_sens (fst g))"
proof -
  have "\<not> sh_powered demo_ready" by (simp add: demo_ready_def demo_boot_def helmet_boot_def Let_def)
  then show ?thesis
    using limbo_panel_stays_dark [of "headset_boot\<lparr>hs_state := HEADSET_STATE_LIMBO\<rparr>"
        "demo_ready\<lparr>h_sens := (h_sens demo_ready)\<lparr>sh_display_blanked := True\<rparr>\<rparr>"
        "[(quiet_headset\<lparr>q_charger_connected := True\<rparr>, demo_env, App_Headset (On_Msg (Charger CHARGER_MESSAGE_CHARGING_OK))),
          (quiet_headset\<lparr>q_charger_connected := True\<rparr>, demo_env, App_Headset (On_Msg SOC_UPDATE_IND))]" "\<lambda>_. 0" "\<lambda>_. 0"]
    by (fastforce simp: charge_event_def)
qed

section \<open>The battery on the screen\<close>

text \<open>C31: An empty battery is shown as full. The screen converts the instantaneous battery voltage with the table of the helmet,
  whose first entry is 3120 mV; for every voltage below it, down to zero, the conversion succeeds and the battery line of every
  screen reads 100 percent, like that of a battery at 4170 mV or more.\<close>

theorem empty_battery_shows_full:
  assumes "mv < 3120"
  shows "\<exists>p. Soc_ConvertLevelToPercentage headset_soc_config_table mv = Some p \<and>
    oled_lines (e\<lparr>ui_batt_pct := p\<rparr>) s ! 1 = ''BAT  100%''"
  using assms by (simp add: soc_convert_low_is_full oled_lines_def shFmtPct_def Let_def)

theorem empty_battery_shows_full_witness:
  "\<exists>p. Soc_ConvertLevelToPercentage headset_soc_config_table 2900 = Some p \<and>
   oled_lines (idle_env\<lparr>ui_batt_pct := p\<rparr>) lit_hub ! 1 = ''BAT  100%''"
  using empty_battery_shows_full [of 2900 idle_env lit_hub] by simp

end
